(* ===== verification/Prelude.thy ===== *)
theory Prelude
  imports Complex_Main "HOL-Library.Word" "HOL-Library.Multiset"
begin

text \<open>
  Shared vocabulary of the EvergreenShims development: the names of the
  machine types, the error values of \<^verbatim>\<open>shim-core\<close>, the pieces of Rust's core
  library that several shims call (saturating subtraction, prefix tests,
  ASCII case folding, decimal parsing, \<^verbatim>\<open>VecDeque\<close>/\<^verbatim>\<open>Vec\<close> removal), and the generic
  lemmas and fact collections the component theories use.

  Strings are byte strings (the UTF-8 bytes of a Rust \<^verbatim>\<open>String\<close>), so that
  \<^verbatim>\<open>len()\<close> is \<^const>\<open>length\<close>.
\<close>

section \<open>Types\<close>

type_synonym u8 = "8 word"
type_synonym u32 = "32 word"
type_synonym u64 = "64 word"

text \<open>Nanoseconds since the epoch, as read from \<^verbatim>\<open>Utc::now()\<close> or \<^verbatim>\<open>Instant::now()\<close>;
  durations have the same unit.\<close>

type_synonym time = int

abbreviation second :: time where
  "second \<equiv> 1000000000"

text \<open>Values the code computes in \<^verbatim>\<open>f64\<close> are kept as exact rationals.\<close>

type_synonym f64 = rat

text \<open>\<^verbatim>\<open>shim_core::Metric\<close>: a name and a value.\<close>

type_synonym metric = "string \<times> f64"

text \<open>The process environment read by \<^verbatim>\<open>std::env::var\<close>.\<close>

type_synonym env = "string \<Rightarrow> string option"

text \<open>\<^verbatim>\<open>serde_json::Value\<close>, as the shims build it.\<close>

datatype json =
    JNull
  | JBool bool
  | JNum int
  | JStr string
  | JArr "json list"
  | JObj "(string \<times> json) list"

text \<open>\<^verbatim>\<open>Value::get\<close>, indexing with a key, \<^verbatim>\<open>as_str\<close> and \<^verbatim>\<open>as_u64\<close>.\<close>

definition json_get :: "json \<Rightarrow> string \<Rightarrow> json option" where
  "json_get j k = (case j of JObj kvs \<Rightarrow> map_of kvs k | _ \<Rightarrow> None)"

definition json_field :: "string \<Rightarrow> json \<Rightarrow> json" where
  "json_field k j = (case json_get j k of Some v \<Rightarrow> v | None \<Rightarrow> JNull)"

definition json_str :: "json \<Rightarrow> string option" where
  "json_str j = (case j of JStr s \<Rightarrow> Some s | _ \<Rightarrow> None)"

definition json_u64 :: "json \<Rightarrow> nat option" where
  "json_u64 j = (case j of JNum n \<Rightarrow> if 0 \<le> n \<and> n < 2 ^ 64 then Some (nat n) else None | _ \<Rightarrow> None)"

text \<open>A call that can panic.\<close>

datatype 'a outcome = Returns 'a | Panics

text \<open>The result of running a command with \<^verbatim>\<open>Command::output\<close>: not started, a failure with its
  error output, or success with its output.\<close>

datatype command_output = NotRun string | ExitFailure string | ExitSuccess string

text \<open>The bytes of a string.\<close>

definition str_bytes :: "string \<Rightarrow> u8 list" where
  "str_bytes s = map (\<lambda>c. of_nat (of_char c)) s"

section \<open>Fact collections\<close>

named_theorems inv_intros \<open>introduction rules for the invariants of the components\<close>
named_theorems bus_simps \<open>equations of the event bus\<close>
named_theorems op_simps \<open>equations unfolding the operations of a component\<close>

section \<open>Core library helpers\<close>

definition saturating_sub :: "nat \<Rightarrow> nat \<Rightarrow> nat" where
  "saturating_sub a b = (if b \<le> a then a - b else 0)"

lemma saturating_sub_nat [simp]: "saturating_sub a b = a - b"
  by (simp add: saturating_sub_def)

text \<open>\<^verbatim>\<open>str::starts_with\<close> and \<^verbatim>\<open>str::ends_with\<close>.\<close>

fun starts_with :: "'a list \<Rightarrow> 'a list \<Rightarrow> bool" where
  "starts_with s [] = True"
| "starts_with [] (p # ps) = False"
| "starts_with (c # s) (p # ps) = (c = p \<and> starts_with s ps)"

lemma starts_with_iff: "starts_with s p \<longleftrightarrow> (\<exists>r. s = p @ r)"
  by (induction s p rule: starts_with.induct) auto

lemma starts_with_append [simp]: "starts_with (p @ s) p"
  by (simp add: starts_with_iff)

lemma starts_with_take: "starts_with s p \<longleftrightarrow> take (length p) s = p"
  by (induction s p rule: starts_with.induct) auto

text \<open>\<^verbatim>\<open>str::contains\<close>.\<close>

fun contains :: "string \<Rightarrow> string \<Rightarrow> bool" where
  "contains [] p = (p = [])"
| "contains (c # s) p = (starts_with (c # s) p \<or> contains s p)"

text \<open>\<^verbatim>\<open>to_lowercase\<close> / \<^verbatim>\<open>to_uppercase\<close> on the ASCII range.\<close>

definition lower_char :: "char \<Rightarrow> char" where
  "lower_char c = (let n = (of_char c :: nat) in
     if 65 \<le> n \<and> n \<le> 90 then char_of (n + 32) else c)"

definition to_lowercase :: "string \<Rightarrow> string" where
  "to_lowercase s = map lower_char s"

lemma length_to_lowercase [simp]: "length (to_lowercase s) = length s"
  by (simp add: to_lowercase_def)

text \<open>\<^verbatim>\<open>str::parse\<close> for the unsigned types: an optional plus sign, then digits, and
  an error on overflow.\<close>

definition is_digit :: "char \<Rightarrow> bool" where
  "is_digit c = (let n = (of_char c :: nat) in 48 \<le> n \<and> n \<le> 57)"

definition digit_val :: "char \<Rightarrow> nat" where
  "digit_val c = (of_char c :: nat) - 48"

definition parse_uint :: "nat \<Rightarrow> string \<Rightarrow> nat option" where
  "parse_uint w s =
    (let ds = (case s of [] \<Rightarrow> [] | c # r \<Rightarrow> if c = CHR ''+'' \<and> r \<noteq> [] then r else s);
         n = foldl (\<lambda>acc c. acc * 10 + digit_val c) 0 ds
     in if ds = [] \<or> \<not> list_all is_digit ds then None
        else if n < 2 ^ w then Some n else None)"

lemma parse_uint_chars: "parse_uint w s = Some n \<Longrightarrow> x \<in> set s \<Longrightarrow> x = CHR ''+'' \<or> is_digit x"
  by (auto simp: parse_uint_def Let_def list_all_iff split: if_splits list.splits)

lemma parse_uint_bound: "parse_uint w s = Some n \<Longrightarrow> n < 2 ^ w"
  by (auto simp: parse_uint_def Let_def split: if_splits)

text \<open>\<^verbatim>\<open>str::parse\<close> for the signed types.\<close>

definition parse_int :: "nat \<Rightarrow> string \<Rightarrow> int option" where
  "parse_int w s =
    (let neg = (case s of [] \<Rightarrow> False | c # r \<Rightarrow> c = CHR ''-'' \<and> r \<noteq> []);
         ds = (case s of [] \<Rightarrow> []
               | c # r \<Rightarrow> if (c = CHR ''+'' \<or> c = CHR ''-'') \<and> r \<noteq> [] then r else s);
         n = int (foldl (\<lambda>acc c. acc * 10 + digit_val c) 0 ds);
         v = (if neg then - n else n)
     in if ds = [] \<or> \<not> list_all is_digit ds then None
        else if - (2 ^ (w - 1)) \<le> v \<and> v < 2 ^ (w - 1) then Some v else None)"

text \<open>\<^verbatim>\<open>str::split(c)\<close> (always at least one piece) and \<^verbatim>\<open>str::trim\<close> on ASCII white space.\<close>

fun split_on :: "char \<Rightarrow> string \<Rightarrow> string list" where
  "split_on c [] = [[]]"
| "split_on c (x # xs) =
    (if x = c then [] # split_on c xs
     else (case split_on c xs of [] \<Rightarrow> [[x]] | p # ps \<Rightarrow> (x # p) # ps))"

definition is_space :: "char \<Rightarrow> bool" where
  "is_space c = (let n = (of_char c :: nat) in n = 32 \<or> 9 \<le> n \<and> n \<le> 13)"

text \<open>\<^verbatim>\<open>split_whitespace\<close>: the maximal runs of non-space characters.\<close>

fun split_ws :: "string \<Rightarrow> string \<Rightarrow> string list" where
  "split_ws cur [] = (if cur = [] then [] else [cur])"
| "split_ws cur (c # cs) =
    (if is_space c then (if cur = [] then [] else [cur]) @ split_ws [] cs else split_ws (cur @ [c]) cs)"

definition trim :: "string \<Rightarrow> string" where
  "trim s = rev (dropWhile is_space (rev (dropWhile is_space s)))"

lemma split_on_nonempty [simp]: "split_on c s \<noteq> []"
  by (induction s) (auto split: list.splits)

lemma split_on_pieces: "p \<in> set (split_on c s) \<Longrightarrow> c \<notin> set p"
proof (induction s arbitrary: p)
  case (Cons x xs)
  then show ?case
    using Cons.IH by (cases "split_on c xs") (auto split: if_splits)
qed simp

text \<open>Decimal output, as \<^verbatim>\<open>format!("{}", n)\<close> writes it.\<close>

definition digit_char :: "nat \<Rightarrow> char" where
  "digit_char d = char_of (48 + d)"

fun show_nat :: "nat \<Rightarrow> string" where
  "show_nat n = (if n < 10 then [digit_char n] else show_nat (n div 10) @ [digit_char (n mod 10)])"

declare show_nat.simps [simp del]

lemma digit_char_digit: "d < 10 \<Longrightarrow> is_digit (digit_char d) \<and> digit_val (digit_char d) = d"
  by (simp add: digit_char_def is_digit_def digit_val_def Let_def)

lemma show_nat_digits: "list_all is_digit (show_nat n) \<and> show_nat n \<noteq> []"
proof (induction n rule: show_nat.induct)
  case (1 n)
  then show ?case
    by (cases "n < 10") (simp_all add: show_nat.simps [of n] digit_char_digit)
qed

lemma show_nat_value: "foldl (\<lambda>acc c. acc * 10 + digit_val c) 0 (show_nat n) = n"
proof (induction n rule: show_nat.induct)
  case (1 n)
  then show ?case
    by (subst show_nat.simps) (auto simp: digit_char_digit)
qed

lemma parse_show_nat: "n < 2 ^ w \<Longrightarrow> parse_uint w (show_nat n) = Some n"
proof -
  assume n: "n < 2 ^ w"
  obtain c r where s: "show_nat n = c # r"
    using show_nat_digits [of n] by (cases "show_nat n") auto
  then have "is_digit c"
    using show_nat_digits [of n] by simp
  then have "c \<noteq> CHR ''+''"
    by (auto simp: is_digit_def)
  then show ?thesis
    using n s show_nat_digits [of n] show_nat_value [of n] by (simp add: parse_uint_def)
qed

text \<open>Lower-case hexadecimal output at a fixed width, as \<^verbatim>\<open>{:016x}\<close> and \<^verbatim>\<open>{:02x}\<close> write it.\<close>

definition hex_char :: "nat \<Rightarrow> char" where
  "hex_char d = (if d < 10 then char_of (48 + d) else char_of (87 + d))"

fun show_hex :: "nat \<Rightarrow> nat \<Rightarrow> string" where
  "show_hex 0 n = []"
| "show_hex (Suc k) n = show_hex k (n div 16) @ [hex_char (n mod 16)]"

lemma hex_char_inj: "a < 16 \<Longrightarrow> b < 16 \<Longrightarrow> hex_char a = hex_char b \<longleftrightarrow> a = b"
  by (auto simp: hex_char_def split: if_splits)

lemma show_hex_inj: "a < 16 ^ k \<Longrightarrow> b < 16 ^ k \<Longrightarrow> show_hex k a = show_hex k b \<Longrightarrow> a = b"
proof (induction k arbitrary: a b)
  case (Suc k)
  have "a div 16 = b div 16"
    using Suc.prems by (intro Suc.IH) (auto simp: less_mult_imp_div_less mult.commute)
  moreover have "a mod 16 = b mod 16"
    using Suc.prems hex_char_inj [of "a mod 16" "b mod 16"] by simp
  ultimately show ?case
    by (metis div_mult_mod_eq)
qed simp

lemma length_show_hex [simp]: "length (show_hex k n) = k"
  by (induction k arbitrary: n) simp_all

text \<open>\<^verbatim>\<open>str::splitn(2, c)\<close>: the part before the first separator and, if there is one,
  the rest; \<^verbatim>\<open>str::trim_end_matches\<close> with a string removes the suffix repeatedly.\<close>

fun splitn2 :: "char \<Rightarrow> string \<Rightarrow> string \<times> string option" where
  "splitn2 c [] = ([], None)"
| "splitn2 c (x # xs) =
    (if x = c then ([], Some xs) else (case splitn2 c xs of (a, b) \<Rightarrow> (x # a, b)))"

definition ends_with :: "string \<Rightarrow> string \<Rightarrow> bool" where
  "ends_with s suf = starts_with (rev s) (rev suf)"

function trim_end_matches :: "string \<Rightarrow> string \<Rightarrow> string" where
  "trim_end_matches s suf =
    (if suf \<noteq> [] \<and> ends_with s suf
     then trim_end_matches (take (length s - length suf) s) suf else s)"
  by pat_completeness auto
termination
proof (relation "measure (\<lambda>(s, suf). length s)", goal_cases)
  case (2 s suf)
  then have "length suf \<le> length s"
    by (auto simp: ends_with_def starts_with_iff dest!: arg_cong [of "rev s" _ length])
  then show ?case
    using 2 by (cases suf) auto
qed simp

declare trim_end_matches.simps [simp del]

lemma ends_with_iff: "ends_with s suf \<longleftrightarrow> (\<exists>r. s = r @ suf)"
  by (metis ends_with_def rev_append rev_rev_ident starts_with_iff)

lemma trim_end_matches_id: "\<not> ends_with s suf \<Longrightarrow> trim_end_matches s suf = s"
  by (subst trim_end_matches.simps) simp

lemma trim_end_matches_one:
  "suf \<noteq> [] \<Longrightarrow> \<not> ends_with s suf \<Longrightarrow> trim_end_matches (s @ suf) suf = s"
  by (subst trim_end_matches.simps) (simp add: ends_with_iff trim_end_matches_id)

lemma ends_with_after: "ends_with (a @ c # b) suf \<Longrightarrow> c \<notin> set suf \<Longrightarrow> ends_with b suf"
  by (auto simp: ends_with_iff append_eq_append_conv2 Cons_eq_append_conv)

lemma splitn2_digits: "c \<notin> set a \<Longrightarrow> splitn2 c (a @ c # b) = (a, Some b)"
  by (induction a) auto

text \<open>The idiom \<^verbatim>\<open>env::var(name).ok().and_then(|s| s.parse().ok()).unwrap_or(d)\<close>.\<close>

definition env_uint :: "nat \<Rightarrow> env \<Rightarrow> string \<Rightarrow> nat \<Rightarrow> nat" where
  "env_uint w env nm d =
    (case env nm of None \<Rightarrow> d
     | Some s \<Rightarrow> (case parse_uint w s of None \<Rightarrow> d | Some n \<Rightarrow> n))"

definition env_str :: "env \<Rightarrow> string \<Rightarrow> string \<Rightarrow> string" where
  "env_str env nm d = (case env nm of None \<Rightarrow> d | Some s \<Rightarrow> s)"

lemma env_uint_bound: "d < 2 ^ w \<Longrightarrow> env_uint w env nm d < 2 ^ w"
  by (auto simp: env_uint_def dest: parse_uint_bound split: option.splits)

text \<open>The comma-separated lists of the environment: \<^verbatim>\<open>split(',').filter(|s| !s.is_empty()).map(trim)\<close>.\<close>

definition split_commas :: "string \<Rightarrow> string list" where
  "split_commas s = map trim (filter (\<lambda>p. p \<noteq> []) (split_on (CHR '','') s))"

definition env_flag :: "env \<Rightarrow> string \<Rightarrow> bool \<Rightarrow> bool" where
  "env_flag env nm d = (case env nm of Some v \<Rightarrow> v = ''true'' \<or> v = ''1'' | None \<Rightarrow> d)"

definition eq_ignore_ascii_case :: "string \<Rightarrow> string \<Rightarrow> bool" where
  "eq_ignore_ascii_case a b = (to_lowercase a = to_lowercase b)"

text \<open>\<^verbatim>\<open>str::lines\<close>: the pieces between line feeds, without a carriage return at their end and without
  an empty last piece.\<close>

abbreviation newline :: char where
  "newline \<equiv> CHR 0x0A"

definition strip_cr :: "string \<Rightarrow> string" where
  "strip_cr l = (if l \<noteq> [] \<and> last l = CHR 0x0D then butlast l else l)"

definition str_lines :: "string \<Rightarrow> string list" where
  "str_lines s =
    (let ps = split_on newline s in
     map strip_cr (if last ps = [] then butlast ps else ps))"

lemma split_on_append: "c \<notin> set a \<Longrightarrow> split_on c (a @ c # b) = a # split_on c b"
  by (induction a) auto

lemma str_lines_Nil [simp]: "str_lines [] = []"
  by (simp add: str_lines_def)

lemma str_lines_line: "newline \<notin> set a \<Longrightarrow> str_lines (a @ newline # b) = strip_cr a # str_lines b"
  by (simp add: str_lines_def split_on_append Let_def)

lemma str_lines_concat:
  "\<forall>l\<in>set ls. newline \<notin> set l \<Longrightarrow> str_lines (concat (map (\<lambda>l. l @ [newline]) ls)) = map strip_cr ls"
  by (induction ls) (simp_all add: str_lines_line)

text \<open>\<^verbatim>\<open>join(sep)\<close>, and the output of a signed number.\<close>

fun join :: "string \<Rightarrow> string list \<Rightarrow> string" where
  "join sep [] = []"
| "join sep [x] = x"
| "join sep (x # y # ys) = x @ sep @ join sep (y # ys)"

definition show_int :: "int \<Rightarrow> string" where
  "show_int i = (if i < 0 then ''-'' @ show_nat (nat (- i)) else show_nat (nat i))"

text \<open>\<^verbatim>\<open>slice::chunks\<close>: pieces of \<^verbatim>\<open>n\<close> elements, the last one shorter.\<close>

fun chunks :: "nat \<Rightarrow> 'a list \<Rightarrow> 'a list list" where
  "chunks n [] = []"
| "chunks n (x # xs) = (x # take (n - 1) xs) # chunks n (drop (n - 1) xs)"

lemma concat_chunks [simp]: "concat (chunks n xs) = xs"
  by (induction n xs rule: chunks.induct) simp_all

text \<open>Decimal output padded with zeros, as \<^verbatim>\<open>{:010}\<close> writes it.\<close>

definition show_nat_pad :: "nat \<Rightarrow> nat \<Rightarrow> string" where
  "show_nat_pad k n = (let s = show_nat n in replicate (k - length s) (CHR ''0'') @ s)"

lemma digit_zero [simp]: "is_digit (CHR ''0'')" "digit_val (CHR ''0'') = 0"
  by (simp_all add: is_digit_def digit_val_def)

lemma foldl_zeros: "foldl (\<lambda>acc c. acc * 10 + digit_val c) 0 (replicate k (CHR ''0'') @ s) =
    foldl (\<lambda>acc c. acc * 10 + digit_val c) 0 s"
  by (induction k) simp_all

lemma parse_uint_digits:
  "list_all is_digit ds \<Longrightarrow> ds \<noteq> [] \<Longrightarrow> foldl (\<lambda>acc c. acc * 10 + digit_val c) 0 ds < 2 ^ w \<Longrightarrow>
    parse_uint w ds = Some (foldl (\<lambda>acc c. acc * 10 + digit_val c) 0 ds)"
  by (cases ds) (auto simp: parse_uint_def Let_def is_digit_def)

lemma parse_show_nat_pad: "n < 2 ^ w \<Longrightarrow> parse_uint w (show_nat_pad k n) = Some n"
proof -
  let ?ds = "replicate (k - length (show_nat n)) (CHR ''0'') @ show_nat n"
  assume "n < 2 ^ w"
  moreover have "foldl (\<lambda>acc c. acc * 10 + digit_val c) 0 ?ds = n"
    by (simp only: foldl_zeros show_nat_value)
  moreover have "list_all is_digit ?ds" "?ds \<noteq> []"
    using show_nat_digits [of n] by (auto simp: list_all_iff)
  ultimately show ?thesis
    using parse_uint_digits [of ?ds w] by (simp add: show_nat_pad_def Let_def del: foldl_append)
qed

lemma show_nat_pad_inj:
  assumes "show_nat_pad k a = show_nat_pad k b"
  shows "a = b"
proof -
  have w: "a < 2 ^ (a + b)" "b < 2 ^ (a + b)"
    by (rule le_less_trans [OF _ less_exp], simp)+
  have "Some a = parse_uint (a + b) (show_nat_pad k a)"
    by (rule parse_show_nat_pad [OF w(1), symmetric])
  also have "\<dots> = Some b"
    unfolding assms by (rule parse_show_nat_pad [OF w(2)])
  finally show ?thesis
    by (rule option.inject [THEN iffD1])
qed

definition clamp :: "'a :: linorder \<Rightarrow> 'a \<Rightarrow> 'a \<Rightarrow> 'a" where
  "clamp x lo hi = (if x < lo then lo else if hi < x then hi else x)"

text \<open>A saturating cast of a floating point number to \<^verbatim>\<open>u64\<close>.\<close>

definition f64_as_u64 :: "f64 \<Rightarrow> u64" where
  "f64_as_u64 x = of_int (max 0 (min (2 ^ 64 - 1) \<lfloor>x\<rfloor>))"

lemma int_unat_f64_as_u64: "int (unat (f64_as_u64 x)) = max 0 (min (2 ^ 64 - 1) \<lfloor>x\<rfloor>)"
proof -
  define m where "m = max 0 (min (2 ^ 64 - 1) \<lfloor>x\<rfloor>)"
  have "0 \<le> m" "m < 2 ^ 64"
    by (simp_all add: m_def max_def min_def)
  moreover from this have "take_bit 64 m = m"
    by (rule take_bit_int_eq_self)
  ultimately show ?thesis
    unfolding f64_as_u64_def m_def [symmetric] by (simp add: unsigned_of_int)
qed

section \<open>Writing files\<close>

text \<open>\<^verbatim>\<open>fs::write\<close> opens (and empties) the file and then writes: it may fail before the file is
  touched, or after part of the text has been written.  \<^verbatim>\<open>written\<close> is the text that reaches the
  file, \<^term>\<open>None\<close> when the file is left as it was.\<close>

datatype write_fault = Not_Opened string | Cut_Short nat string

fun written :: "write_fault option \<Rightarrow> 'a list \<Rightarrow> 'a list option" where
  "written None txt = Some txt"
| "written (Some (Not_Opened e)) txt = None"
| "written (Some (Cut_Short n e)) txt = Some (take n txt)"

fun write_result :: "write_fault option \<Rightarrow> string + unit" where
  "write_result None = Inr ()"
| "write_result (Some (Not_Opened e)) = Inl e"
| "write_result (Some (Cut_Short n e)) = Inl e"

lemma write_result_ok [simp]: "write_result f = Inr u \<longleftrightarrow> f = None"
  by (cases f rule: write_result.cases) simp_all

section \<open>Hash maps\<close>

text \<open>A \<^verbatim>\<open>HashMap\<close> is an association list with one entry per key, read with
  \<^const>\<open>map_of\<close>.  The order in which Rust iterates over a hash map is unspecified:
  an operation that iterates takes the order as an argument, and
  \<^verbatim>\<open>hash_iter\<close> uses it when it is a rearrangement of the entries.\<close>

type_synonym ('k, 'v) hmap = "('k \<times> 'v) list"

definition hm_remove :: "'k \<Rightarrow> ('k, 'v) hmap \<Rightarrow> ('k, 'v) hmap" where
  "hm_remove k m = filter (\<lambda>p. fst p \<noteq> k) m"

definition hm_insert :: "'k \<Rightarrow> 'v \<Rightarrow> ('k, 'v) hmap \<Rightarrow> ('k, 'v) hmap" where
  "hm_insert k v m = hm_remove k m @ [(k, v)]"

definition hm_update :: "'k \<Rightarrow> ('v \<Rightarrow> 'v) \<Rightarrow> ('k, 'v) hmap \<Rightarrow> ('k, 'v) hmap" where
  "hm_update k f m = map (\<lambda>(k', v). (k', if k' = k then f v else v)) m"

text \<open>\<^verbatim>\<open>*map.entry(k).or_insert(0) += 1\<close>.\<close>

definition hm_bump :: "'k \<Rightarrow> ('k, nat) hmap \<Rightarrow> ('k, nat) hmap" where
  "hm_bump k m = (case map_of m k of Some n \<Rightarrow> hm_update k Suc m | None \<Rightarrow> hm_insert k 1 m)"

definition hash_iter :: "(('k, 'v) hmap \<Rightarrow> ('k, 'v) hmap) \<Rightarrow> ('k, 'v) hmap \<Rightarrow> ('k, 'v) hmap" where
  "hash_iter ord m = (if mset (ord m) = mset m then ord m else m)"

abbreviation hm_wf :: "('k, 'v) hmap \<Rightarrow> bool" where
  "hm_wf m \<equiv> distinct (map fst m)"

lemma mset_hash_iter [simp]: "mset (hash_iter ord m) = mset m"
  by (simp add: hash_iter_def)

lemma set_hash_iter [simp]: "set (hash_iter ord m) = set m"
  using mset_hash_iter [of ord m] by (metis set_mset_mset)

lemma length_hash_iter [simp]: "length (hash_iter ord m) = length m"
  using mset_hash_iter [of ord m] by (metis size_mset)

lemma hash_iter_wf: "hm_wf m \<Longrightarrow> hm_wf (hash_iter ord m)"
  using mset_hash_iter [of ord m]
  by (metis mset_map mset_eq_imp_distinct_iff)

lemma hash_iter_Nil [simp]: "hash_iter ord m = [] \<longleftrightarrow> m = []"
  by (metis length_0_conv length_hash_iter)

lemma map_of_hm_remove [simp]: "map_of (hm_remove k m) = (map_of m)(k := None)"
  by (induction m) (auto simp: hm_remove_def fun_eq_iff)

lemma map_of_hm_insert [simp]: "map_of (hm_insert k v m) = (map_of m)(k \<mapsto> v)"
  by (auto simp: hm_insert_def fun_eq_iff map_add_def split: option.splits)

lemma map_of_hm_update [simp]:
  "map_of (hm_update k f m) = (map_of m)(k := map_option f (map_of m k))"
  by (induction m) (auto simp: hm_update_def fun_eq_iff)

lemma set_hm_remove [simp]: "set (hm_remove k m) = {p \<in> set m. fst p \<noteq> k}"
  by (simp add: hm_remove_def)

lemma keys_hm_remove [simp]: "map fst (hm_remove k m) = removeAll k (map fst m)"
  by (induction m) (auto simp: hm_remove_def)

lemma keys_hm_insert [simp]: "map fst (hm_insert k v m) = removeAll k (map fst m) @ [k]"
  by (simp add: hm_insert_def)

lemma keys_hm_update [simp]: "map fst (hm_update k f m) = map fst m"
  by (induction m) (auto simp: hm_update_def)

lemma hm_wf_remove [simp]: "hm_wf m \<Longrightarrow> hm_wf (hm_remove k m)"
  by (simp only: keys_hm_remove distinct_removeAll)

lemma hm_wf_insert [simp]: "hm_wf m \<Longrightarrow> hm_wf (hm_insert k v m)"
  by (simp only: keys_hm_insert) (simp add: distinct_removeAll)

lemma hm_remove_fresh [simp]: "map_of m k = None \<Longrightarrow> hm_remove k m = m"
  by (induction m) (auto simp: hm_remove_def split: if_splits)

lemma hm_remove_insert [simp]: "hm_remove k (hm_insert k v m) = hm_remove k m"
  by (simp add: hm_insert_def hm_remove_def)

lemma hm_remove_length_less: "map_of m k = Some v \<Longrightarrow> length (hm_remove k m) < length m"
  by (induction m) (auto simp: hm_remove_def le_imp_less_Suc split: if_splits)

lemma sum_hm_remove:
  "hm_wf m \<Longrightarrow> map_of m k = Some v \<Longrightarrow>
     (\<Sum>p\<leftarrow>m. g p) = (g (k, v) :: nat) + (\<Sum>p\<leftarrow>hm_remove k m. g p)"
proof (induction m)
  case (Cons p m)
  show ?case
  proof (cases "fst p = k")
    case True
    then have "map_of m k = None"
      using Cons.prems by (auto simp: map_of_eq_None_iff)
    then show ?thesis
      using True Cons.prems hm_remove_fresh [of m k]
      by (cases p) (simp add: hm_remove_def)
  next
    case False
    then show ?thesis
      using Cons by (cases p) (auto simp: hm_remove_def)
  qed
qed simp

text \<open>\<^verbatim>\<open>HashMap::retain\<close>.\<close>

lemma map_of_filter_val:
  "hm_wf m \<Longrightarrow> map_of (filter (\<lambda>(k, v). P k v) m) k =
    (case map_of m k of Some v \<Rightarrow> if P k v then Some v else None | None \<Rightarrow> None)"
proof (induction m)
  case (Cons a m)
  obtain k' v where a: "a = (k', v)"
    by (cases a)
  show ?case
  proof (cases "k' = k")
    case True
    then have "map_of m k = None"
      using Cons.prems a by (auto simp: map_of_eq_None_iff)
    then show ?thesis
      using Cons True a by simp
  next
    case False
    then show ?thesis
      using Cons a by simp
  qed
qed simp

lemma hm_wf_filter [simp]: "hm_wf m \<Longrightarrow> hm_wf (filter P m)"
  by (rule distinct_map_filter)

lemma hm_wf_removeAll [simp]: "hm_wf m \<Longrightarrow> distinct (removeAll k (map fst m))"
  by (rule distinct_removeAll)

text \<open>\<^verbatim>\<open>Iterator::min_by_key\<close> returns the first of the least elements.\<close>

fun min_by_key :: "('a \<Rightarrow> nat) \<Rightarrow> 'a list \<Rightarrow> 'a option" where
  "min_by_key f [] = None"
| "min_by_key f (x # xs) =
    (case min_by_key f xs of None \<Rightarrow> Some x
     | Some y \<Rightarrow> if f x \<le> f y then Some x else Some y)"

lemma min_by_key_None [simp]: "min_by_key f xs = None \<longleftrightarrow> xs = []"
  by (cases xs) (auto split: option.splits)

lemma min_by_key_Some:
  "min_by_key f xs = Some y \<Longrightarrow> y \<in> set xs \<and> (\<forall>x\<in>set xs. f y \<le> f x)"
  by (induction xs arbitrary: y) (fastforce split: option.splits if_splits)+

lemma u8_of_char_inj: "(of_nat (of_char c) :: u8) = of_nat (of_char d) \<longleftrightarrow> c = d"
proof
  assume "(of_nat (of_char c) :: u8) = of_nat (of_char d)"
  then have "unat (of_nat (of_char c) :: u8) = unat (of_nat (of_char d) :: u8)"
    by simp
  then show "c = d"
    by (simp add: unat_of_nat)
qed simp

lemma str_bytes_inj: "str_bytes a = str_bytes b \<longleftrightarrow> a = b"
proof -
  have "inj (\<lambda>c. of_nat (of_char c) :: u8)"
    by (rule injI) (simp only: u8_of_char_inj)
  then show ?thesis
    by (simp add: str_bytes_def inj_map_eq_map)
qed

section \<open>Clock arithmetic\<close>

text \<open>\<^verbatim>\<open>TimeDelta::num_seconds\<close> and \<^verbatim>\<open>num_days\<close> truncate toward zero; \<^verbatim>\<open>as u64\<close> reinterprets a signed
  value, so that a negative one becomes very large.\<close>

definition num_seconds :: "time \<Rightarrow> int" where
  "num_seconds d = (if 0 \<le> d then d div second else - ((- d) div second))"

definition num_days :: "time \<Rightarrow> int" where
  "num_days d = (if 0 \<le> d then d div (86400 * second) else - ((- d) div (86400 * second)))"

definition as_u64 :: "int \<Rightarrow> nat" where
  "as_u64 x = nat (x mod 2 ^ 64)"

lemma as_u64_id [simp]: "0 \<le> x \<Longrightarrow> x < 2 ^ 64 \<Longrightarrow> as_u64 x = nat x"
  by (simp add: as_u64_def)

lemma as_u64_bound: "as_u64 x < 2 ^ 64"
  by (simp add: as_u64_def nat_less_iff)

section \<open>Removing one element from a sequence\<close>

text \<open>\<^verbatim>\<open>if let Some(pos) = v.iter().position(|x| x == k) { v.remove(pos); }\<close>
  is \<^verbatim>\<open>remove_first\<close> (\<^const>\<open>remove1\<close> when whole elements are compared);
  \<^verbatim>\<open>retain(|x| x != k)\<close> is \<^const>\<open>removeAll\<close>.\<close>

fun remove_first :: "('a \<Rightarrow> bool) \<Rightarrow> 'a list \<Rightarrow> 'a list" where
  "remove_first P [] = []"
| "remove_first P (x # xs) = (if P x then xs else x # remove_first P xs)"

lemma length_remove_first: "length (remove_first P xs) = length xs - (if \<exists>x\<in>set xs. P x then 1 else 0)"
  by (induction xs) (auto dest: length_pos_if_in_set)

lemma set_remove_first: "set (remove_first P xs) \<subseteq> set xs"
  by (induction xs) auto

lemma find_in: "find P xs = Some x \<Longrightarrow> x \<in> set xs \<and> P x"
  by (induction xs) (auto split: if_splits)

lemma find_remove_first:
  "find P xs = Some x \<Longrightarrow> mset xs = add_mset x (mset (remove_first P xs))"
  by (induction xs) (auto split: if_splits)

lemma find_None_remove_first: "find P xs = None \<Longrightarrow> remove_first P xs = xs"
  by (induction xs) (auto split: if_splits)

lemma mset_map_remove_first:
  "mset (map f (remove_first (\<lambda>x. f x = k) xs)) = mset (map f xs) - {#k#}"
  by (induction xs) auto

section \<open>First-in first-out buffers\<close>

datatype 'b fifo_op = Put 'b | Take

fun drive :: "('b \<Rightarrow> 's \<Rightarrow> 's) \<Rightarrow> ('s \<Rightarrow> 'a option \<times> 's) \<Rightarrow> 'b fifo_op list \<Rightarrow> 's \<Rightarrow> 'a list \<times> 's" where
  "drive put take_one [] s = ([], s)"
| "drive put take_one (Put x # xs) s = drive put take_one xs (put x s)"
| "drive put take_one (Take # xs) s =
    (case take_one s of
       (Some a, s') \<Rightarrow> (case drive put take_one xs s' of (as, s'') \<Rightarrow> (a # as, s''))
     | (None, s') \<Rightarrow> drive put take_one xs s')"

fun puts_of :: "'b fifo_op list \<Rightarrow> 'b list" where
  "puts_of [] = []"
| "puts_of (Put x # xs) = x # puts_of xs"
| "puts_of (Take # xs) = puts_of xs"

text \<open>What a producer and a consumer rely on: a put appends, a take that returns an
  element removes the front one, and a take that returns nothing changes nothing.\<close>

locale fifo =
  fixes items :: "'s \<Rightarrow> 'a list"
    and put :: "'b \<Rightarrow> 's \<Rightarrow> 's"
    and take_one :: "'s \<Rightarrow> 'a option \<times> 's"
    and key :: "'b \<Rightarrow> 'a"
  assumes items_put: "items (put x s) = items s @ [key x]"
    and take_Some: "take_one s = (Some a, s') \<Longrightarrow> items s = a # items s'"
    and take_None: "take_one s = (None, s') \<Longrightarrow> items s' = items s"
begin

lemma drive_order:
  "fst (drive put take_one xs s) @ items (snd (drive put take_one xs s)) = items s @ map key (puts_of xs)"
proof (induction xs arbitrary: s)
  case (Cons x xs)
  show ?case
  proof (cases x)
    case (Put y)
    then show ?thesis using Cons by (simp add: items_put)
  next
    case Take
    obtain r s' where t: "take_one s = (r, s')"
      by (cases "take_one s")
    show ?thesis
    proof (cases r)
      case None
      then show ?thesis
        using t Take Cons.IH [of s'] take_None [of s s'] by simp
    next
      case (Some a)
      then show ?thesis
        using t Take Cons.IH [of s'] take_Some [of s a s'] by (auto split: prod.splits)
    qed
  qed
qed simp

end

section \<open>Systems driven by a sequence of operations\<close>

text \<open>
  Every stateful component is used through calls that replace its state.
  An invariant kept by each call holds after any sequence of calls; the
  component theories interpret this interface on their operations.
\<close>

locale op_system =
  fixes exec :: "'op \<Rightarrow> 's \<Rightarrow> 's"
    and inv :: "'s \<Rightarrow> bool"
  assumes exec_inv: "inv s \<Longrightarrow> inv (exec op s)"
begin

lemma fold_inv: "inv s \<Longrightarrow> inv (fold exec ops s)"
  by (induction ops arbitrary: s) (auto intro: exec_inv)

lemma prefix_inv: "inv s \<Longrightarrow> inv (fold exec (take n ops) s)"
  by (rule fold_inv)

end

text \<open>
  A measure of the state that no call lets decrease (a counter, a version, a
  sequence number) never decreases over a run.
\<close>

locale op_monotone = op_system exec inv
  for exec :: "'op \<Rightarrow> 's \<Rightarrow> 's" and inv :: "'s \<Rightarrow> bool" +
  fixes gauge :: "'s \<Rightarrow> nat"
  assumes exec_gauge: "inv s \<Longrightarrow> gauge s \<le> gauge (exec op s)"
begin

lemma fold_gauge: "inv s \<Longrightarrow> gauge s \<le> gauge (fold exec ops s)"
proof (induction ops arbitrary: s)
  case Nil
  then show ?case by simp
next
  case (Cons op ops)
  have "gauge s \<le> gauge (exec op s)"
    using Cons.prems by (rule exec_gauge)
  also have "\<dots> \<le> gauge (fold exec ops (exec op s))"
    using Cons.prems by (intro Cons.IH exec_inv)
  finally show ?case by simp
qed

end

end
