(* ===== verification/Events.thy ===== *)
theory Events
  imports Prelude
begin

text \<open>
  \<^verbatim>\<open>shim-core/src/event.rs\<close>: the typed events the shims exchange, their
  severities and names, and the tag by which \<^verbatim>\<open>bus.rs\<close> filters them.  Event
  identifiers and time stamps, which the code draws from \<^verbatim>\<open>Uuid::new_v4\<close> and
  \<^verbatim>\<open>Utc::now\<close>, are arguments.  The percentages and scores that the code keeps
  in \<^verbatim>\<open>f64\<close> fields are only carried, never computed with here; the type
  parameter of \<^verbatim>\<open>event_type\<close> stands for them.
\<close>

datatype severity = Info | Notice | Warning | Error | Critical

type_synonym uuid = nat

datatype 'f event_type =
    HealthStatusChanged string string
  | FailoverTriggered string string
  | FailoverCompleted string
  | BackupStarted string
  | BackupCompleted string u64 string
  | BackupFailed string string
  | EncryptionKeyRotated string string
  | ReplicationLagWarning u64 u64
  | MigrationStarted string
  | MigrationCompleted string
  | MigrationFailed string string
  | AuditRecorded string string string
  | ComplianceCheckCompleted string 'f nat
  | TlsCertExpiring string u32
  | TlsCertRenewed string
  | AuthTokenRevoked string string
  | SchedulerTaskFired string string
  | QueueJobFailed string string u32
  | CacheHitRateLow 'f 'f
  | CircuitBreakerTripped string string
  | CdcBatchCommitted string u32
  | ShardRebalanceStarted string string
  | ArchivalTierTransition string string string
  | CostBudgetAlert string 'f
  | ChaosExperimentStarted string
  | ChaosExperimentCompleted string string
  | Custom string json

record 'f shim_event =
  ev_id :: uuid
  source :: string
  event :: "'f event_type"
  severity :: severity
  timestamp :: time
  sequence :: u64
  correlation_id :: "uuid option"
  payload :: "json option"

text \<open>What a component hands to \<^verbatim>\<open>bus.emit\<close>.\<close>

type_synonym 'f emission = "string \<times> 'f event_type \<times> severity"

definition shim_event_new ::
  "uuid \<Rightarrow> time \<Rightarrow> string \<Rightarrow> 'f event_type \<Rightarrow> severity \<Rightarrow> 'f shim_event" where
  "shim_event_new uid now src evt sev =
     \<lparr>ev_id = uid, source = src, event = evt, severity = sev, timestamp = now,
      sequence = 0, correlation_id = None, payload = None\<rparr>"

definition with_sequence :: "'f shim_event \<Rightarrow> u64 \<Rightarrow> 'f shim_event" where
  "with_sequence e q = e\<lparr>sequence := q\<rparr>"

definition with_correlation :: "'f shim_event \<Rightarrow> uuid \<Rightarrow> 'f shim_event" where
  "with_correlation e i = e\<lparr>correlation_id := Some i\<rparr>"

definition with_payload :: "'f shim_event \<Rightarrow> json \<Rightarrow> 'f shim_event" where
  "with_payload e p = e\<lparr>payload := Some p\<rparr>"

definition is_alertable :: "'f shim_event \<Rightarrow> bool" where
  "is_alertable e = (case severity e of
     Warning \<Rightarrow> True | Error \<Rightarrow> True | Critical \<Rightarrow> True | _ \<Rightarrow> False)"

fun event_name_of :: "'f event_type \<Rightarrow> string" where
  "event_name_of (HealthStatusChanged _ _) = ''health_status_changed''"
| "event_name_of (FailoverTriggered _ _) = ''failover_triggered''"
| "event_name_of (FailoverCompleted _) = ''failover_completed''"
| "event_name_of (BackupStarted _) = ''backup_started''"
| "event_name_of (BackupCompleted _ _ _) = ''backup_completed''"
| "event_name_of (BackupFailed _ _) = ''backup_failed''"
| "event_name_of (EncryptionKeyRotated _ _) = ''encryption_key_rotated''"
| "event_name_of (ReplicationLagWarning _ _) = ''replication_lag_warning''"
| "event_name_of (MigrationStarted _) = ''migration_started''"
| "event_name_of (MigrationCompleted _) = ''migration_completed''"
| "event_name_of (MigrationFailed _ _) = ''migration_failed''"
| "event_name_of (AuditRecorded _ _ _) = ''audit_recorded''"
| "event_name_of (ComplianceCheckCompleted _ _ _) = ''compliance_check_completed''"
| "event_name_of (TlsCertExpiring _ _) = ''tls_cert_expiring''"
| "event_name_of (TlsCertRenewed _) = ''tls_cert_renewed''"
| "event_name_of (AuthTokenRevoked _ _) = ''auth_token_revoked''"
| "event_name_of (SchedulerTaskFired _ _) = ''scheduler_task_fired''"
| "event_name_of (QueueJobFailed _ _ _) = ''queue_job_failed''"
| "event_name_of (CacheHitRateLow _ _) = ''cache_hit_rate_low''"
| "event_name_of (CircuitBreakerTripped _ _) = ''circuit_breaker_tripped''"
| "event_name_of (CdcBatchCommitted _ _) = ''cdc_batch_committed''"
| "event_name_of (ShardRebalanceStarted _ _) = ''shard_rebalance_started''"
| "event_name_of (ArchivalTierTransition _ _ _) = ''archival_tier_transition''"
| "event_name_of (CostBudgetAlert _ _) = ''cost_budget_alert''"
| "event_name_of (ChaosExperimentStarted _) = ''chaos_experiment_started''"
| "event_name_of (ChaosExperimentCompleted _ _) = ''chaos_experiment_completed''"
| "event_name_of (Custom nm _) = nm"

definition event_name :: "'f shim_event \<Rightarrow> string" where
  "event_name e = event_name_of (event e)"

definition severity_str :: "'f shim_event \<Rightarrow> string" where
  "severity_str e = (case severity e of
     Info \<Rightarrow> ''INFO'' | Notice \<Rightarrow> ''NOTICE'' | Warning \<Rightarrow> ''WARN''
   | Error \<Rightarrow> ''ERROR'' | Critical \<Rightarrow> ''CRITICAL'')"

text \<open>\<^verbatim>\<open>bus.rs\<close>: the rank used by severity filters, and the filter tag.\<close>

fun severity_rank :: "severity \<Rightarrow> nat" where
  "severity_rank Info = 0"
| "severity_rank Notice = 1"
| "severity_rank Warning = 2"
| "severity_rank Error = 3"
| "severity_rank Critical = 4"

fun event_type_tag :: "'f event_type \<Rightarrow> string" where
  "event_type_tag (HealthStatusChanged _ _) = ''health_status_changed''"
| "event_type_tag (FailoverTriggered _ _) = ''failover_triggered''"
| "event_type_tag (FailoverCompleted _) = ''failover_completed''"
| "event_type_tag (BackupStarted _) = ''backup_started''"
| "event_type_tag (BackupCompleted _ _ _) = ''backup_completed''"
| "event_type_tag (BackupFailed _ _) = ''backup_failed''"
| "event_type_tag (EncryptionKeyRotated _ _) = ''encryption_key_rotated''"
| "event_type_tag (ReplicationLagWarning _ _) = ''replication_lag_warning''"
| "event_type_tag (MigrationStarted _) = ''migration_started''"
| "event_type_tag (MigrationCompleted _) = ''migration_completed''"
| "event_type_tag (MigrationFailed _ _) = ''migration_failed''"
| "event_type_tag (AuditRecorded _ _ _) = ''audit_recorded''"
| "event_type_tag (ComplianceCheckCompleted _ _ _) = ''compliance_check_completed''"
| "event_type_tag (TlsCertExpiring _ _) = ''tls_cert_expiring''"
| "event_type_tag (TlsCertRenewed _) = ''tls_cert_renewed''"
| "event_type_tag (AuthTokenRevoked _ _) = ''auth_token_revoked''"
| "event_type_tag (SchedulerTaskFired _ _) = ''scheduler_task_fired''"
| "event_type_tag (QueueJobFailed _ _ _) = ''queue_job_failed''"
| "event_type_tag (CacheHitRateLow _ _) = ''cache_hit_rate_low''"
| "event_type_tag (CircuitBreakerTripped _ _) = ''circuit_breaker_tripped''"
| "event_type_tag (CdcBatchCommitted _ _) = ''cdc_batch_committed''"
| "event_type_tag (ShardRebalanceStarted _ _) = ''shard_rebalance_started''"
| "event_type_tag (ArchivalTierTransition _ _ _) = ''archival_tier_transition''"
| "event_type_tag (CostBudgetAlert _ _) = ''cost_budget_alert''"
| "event_type_tag (ChaosExperimentStarted _) = ''chaos_experiment_started''"
| "event_type_tag (ChaosExperimentCompleted _ _) = ''chaos_experiment_completed''"
| "event_type_tag (Custom _ _) = ''custom''"

section \<open>Severity as a linear order\<close>

text \<open>The rank is injective, so it orders the severities linearly; the subscriber
  and the alert filters compare ranks.\<close>

lemma severity_rank_inj [simp]: "severity_rank a = severity_rank b \<longleftrightarrow> a = b"
  by (cases a; cases b) simp_all

instantiation severity :: linorder
begin

definition less_eq_severity :: "severity \<Rightarrow> severity \<Rightarrow> bool" where
  "less_eq_severity a b \<longleftrightarrow> severity_rank a \<le> severity_rank b"

definition less_severity :: "severity \<Rightarrow> severity \<Rightarrow> bool" where
  "less_severity a b \<longleftrightarrow> severity_rank a < severity_rank b"

instance
  by standard (auto simp: less_eq_severity_def less_severity_def)

end

lemma is_alertable_iff: "is_alertable e \<longleftrightarrow> Warning \<le> severity e"
  by (cases "severity e") (simp_all add: is_alertable_def less_eq_severity_def)

lemma event_tag_or_name:
  "event_type_tag t = event_name_of t \<or> (\<exists>nm p. t = Custom nm p)"
  by (cases t) simp_all

end
