(* ===== verification/Bus.thy ===== *)
theory Bus
  imports Events
begin

text \<open>
  \<^verbatim>\<open>shim-core/src/bus.rs\<close>: the in-process bus that stamps every event with the
  next sequence number of its source and hands it to a broadcast channel, and
  the filtering subscribers.  The broadcast channel (\<^verbatim>\<open>tokio::sync::broadcast\<close>)
  is a parameter: \<^verbatim>\<open>send\<close> maps the channel and an event to the channel after
  \<^verbatim>\<open>tx.send\<close> (whose result the code discards), and \<^verbatim>\<open>recv\<close> maps a receiver to the
  outcome of the next receive and the receiver after it.
\<close>

section \<open>State and operations\<close>

definition DEFAULT_CAPACITY :: nat where
  "DEFAULT_CAPACITY = 1024"

record 'ch shim_bus =
  tx :: 'ch
  sequences :: "string \<rightharpoonup> u64"
  total_published :: u64
  total_dropped :: u64

definition bus_with_capacity :: "(nat \<Rightarrow> 'ch) \<Rightarrow> nat \<Rightarrow> 'ch shim_bus" where
  "bus_with_capacity channel cap =
     \<lparr>tx = channel cap, sequences = Map.empty, total_published = 0, total_dropped = 0\<rparr>"

definition bus_new :: "(nat \<Rightarrow> 'ch) \<Rightarrow> 'ch shim_bus" where
  "bus_new channel = bus_with_capacity channel DEFAULT_CAPACITY"

definition sequence_for :: "'ch shim_bus \<Rightarrow> string \<Rightarrow> u64" where
  "sequence_for b src = (case sequences b src of None \<Rightarrow> 0 | Some n \<Rightarrow> n)"

definition publish ::
  "('ch \<Rightarrow> 'f shim_event \<Rightarrow> 'ch) \<Rightarrow> 'ch shim_bus \<Rightarrow> 'f shim_event \<Rightarrow> 'ch shim_bus \<times> u64" where
  "publish send b e =
    (let next = (case sequences b (source e) of None \<Rightarrow> 0 | Some n \<Rightarrow> n) + 1;
         b1 = b\<lparr>sequences := (sequences b)(source e \<mapsto> next)\<rparr>;
         e1 = e\<lparr>sequence := next\<rparr>;
         b2 = b1\<lparr>tx := send (tx b1) e1\<rparr>;
         b3 = b2\<lparr>total_published := total_published b2 + 1\<rparr>
     in (b3, next))"

definition emit ::
  "('ch \<Rightarrow> 'f shim_event \<Rightarrow> 'ch) \<Rightarrow> uuid \<Rightarrow> time \<Rightarrow> 'ch shim_bus \<Rightarrow> string \<Rightarrow> 'f event_type
   \<Rightarrow> severity \<Rightarrow> 'ch shim_bus \<times> 'f shim_event" where
  "emit send uid now b src evt sev =
    (let e = shim_event_new uid now src evt sev;
         (b', q) = publish send b e
     in (b', with_sequence e q))"

datatype recv_error = Lagged u64 | Closed

datatype try_recv_error = TryEmpty | TryClosed | TryLagged u64

text \<open>\<^verbatim>\<open>subscribe_filtered\<close> discards its type list and subscribes to everything;
  filtering is done by the receiver of \<^verbatim>\<open>recv_filtered\<close> or \<^verbatim>\<open>BusSubscriber\<close>.\<close>

definition subscribe :: "('ch \<Rightarrow> 'ch \<times> 'rx) \<Rightarrow> 'ch shim_bus \<Rightarrow> 'ch shim_bus \<times> 'rx" where
  "subscribe sub b = (let (ch, rx) = sub (tx b) in (b\<lparr>tx := ch\<rparr>, rx))"

definition subscribe_filtered ::
  "('ch \<Rightarrow> 'ch \<times> 'rx) \<Rightarrow> 'ch shim_bus \<Rightarrow> string list \<Rightarrow> 'ch shim_bus \<times> 'rx" where
  "subscribe_filtered sub b types = (let (ch, rx) = sub (tx b) in (b\<lparr>tx := ch\<rparr>, rx))"

partial_function (option) recv_filtered ::
  "('rx \<Rightarrow> (recv_error + 'f shim_event) \<times> 'rx) \<Rightarrow> 'ch shim_bus \<Rightarrow> 'rx \<Rightarrow> string list
   \<Rightarrow> ('f shim_event option \<times> 'ch shim_bus \<times> 'rx) option" where
  "recv_filtered recv b rx flt =
    (case recv rx of
       (Inr e, rx') \<Rightarrow>
         if flt = [] \<or> event_type_tag (event e) \<in> set flt then Some (Some e, b, rx')
         else recv_filtered recv b rx' flt
     | (Inl (Lagged n), rx') \<Rightarrow>
         recv_filtered recv (b\<lparr>total_dropped := total_dropped b + n\<rparr>) rx' flt
     | (Inl Closed, rx') \<Rightarrow> Some (None, b, rx'))"

record 'rx bus_subscriber =
  rx :: 'rx
  interested_tags :: "string list"
  min_severity :: severity

definition bus_subscriber_new :: "'rx \<Rightarrow> string list \<Rightarrow> severity \<Rightarrow> 'rx bus_subscriber" where
  "bus_subscriber_new r tys sev = \<lparr>rx = r, interested_tags = tys, min_severity = sev\<rparr>"

definition matches :: "'rx bus_subscriber \<Rightarrow> 'f shim_event \<Rightarrow> bool" where
  "matches s e =
    (if interested_tags s \<noteq> [] \<and> event_type_tag (event e) \<notin> set (interested_tags s) then False
     else severity_rank (min_severity s) \<le> severity_rank (severity e))"

partial_function (option) sub_recv ::
  "('rx \<Rightarrow> (recv_error + 'f shim_event) \<times> 'rx) \<Rightarrow> 'rx bus_subscriber
   \<Rightarrow> ('f shim_event option \<times> 'rx bus_subscriber) option" where
  "sub_recv recv s =
    (case recv (rx s) of
       (Inr e, r) \<Rightarrow>
         if matches s e then Some (Some e, s\<lparr>rx := r\<rparr>) else sub_recv recv (s\<lparr>rx := r\<rparr>)
     | (Inl (Lagged n), r) \<Rightarrow> sub_recv recv (s\<lparr>rx := r\<rparr>)
     | (Inl Closed, r) \<Rightarrow> Some (None, s\<lparr>rx := r\<rparr>))"

partial_function (option) sub_try_recv ::
  "('rx \<Rightarrow> (try_recv_error + 'f shim_event) \<times> 'rx) \<Rightarrow> 'rx bus_subscriber
   \<Rightarrow> ('f shim_event option \<times> 'rx bus_subscriber) option" where
  "sub_try_recv try_recv s =
    (case try_recv (rx s) of
       (Inr e, r) \<Rightarrow>
         if matches s e then Some (Some e, s\<lparr>rx := r\<rparr>) else sub_try_recv try_recv (s\<lparr>rx := r\<rparr>)
     | (Inl (TryLagged n), r) \<Rightarrow> sub_try_recv try_recv (s\<lparr>rx := r\<rparr>)
     | (Inl TryEmpty, r) \<Rightarrow> Some (None, s\<lparr>rx := r\<rparr>)
     | (Inl TryClosed, r) \<Rightarrow> Some (None, s\<lparr>rx := r\<rparr>))"

section \<open>Sequence numbers\<close>

lemma sequence_for_publish [bus_simps]:
  "sequence_for (fst (publish send b e)) k =
     (if k = source e then sequence_for b k + 1 else sequence_for b k)"
  by (simp add: publish_def sequence_for_def Let_def)

lemma publish_result [bus_simps]:
  "snd (publish send b e) = sequence_for b (source e) + 1"
  by (simp add: publish_def sequence_for_def Let_def)

lemma tx_publish [bus_simps]:
  "tx (fst (publish send b e)) =
     send (tx b) (e\<lparr>sequence := sequence_for b (source e) + 1\<rparr>)"
  by (simp add: publish_def sequence_for_def Let_def)

lemma total_published_publish [bus_simps]:
  "total_published (fst (publish send b e)) = total_published b + 1"
  by (simp add: publish_def Let_def)

lemma publish_new_bus [bus_simps]:
  "sequence_for (bus_with_capacity channel cap) k = 0"
  "tx (bus_with_capacity channel cap) = channel cap"
  "total_published (bus_with_capacity channel cap) = 0"
  by (simp_all add: bus_with_capacity_def sequence_for_def)

text \<open>What a publisher may rely on: the number returned is one more than the
  count of its source, and only that count moves.\<close>

locale sequencer =
  fixes pub :: "'s \<Rightarrow> 'e \<Rightarrow> 's \<times> u64"
    and seq_of :: "'s \<Rightarrow> string \<Rightarrow> u64"
    and src_of :: "'e \<Rightarrow> string"
  assumes pub_number: "snd (pub s e) = seq_of s (src_of e) + 1"
    and pub_count: "seq_of (fst (pub s e)) k =
      (if k = src_of e then seq_of s k + 1 else seq_of s k)"
begin

lemma fold_count:
  "seq_of (fold (\<lambda>e s. fst (pub s e)) es s) k =
     seq_of s k + of_nat (length (filter (\<lambda>e. src_of e = k) es))"
  by (induction es arbitrary: s) (auto simp: pub_count)

lemma next_number:
  "snd (pub (fold (\<lambda>e s. fst (pub s e)) es s) e) =
     seq_of s (src_of e) + of_nat (length (filter (\<lambda>x. src_of x = src_of e) (es @ [e])))"
  by (simp add: pub_number fold_count)

end

interpretation bus_seq: sequencer "publish send" sequence_for source
  by unfold_locales (simp_all add: bus_simps)

definition publish_all ::
  "('ch \<Rightarrow> 'f shim_event \<Rightarrow> 'ch) \<Rightarrow> 'ch shim_bus \<Rightarrow> 'f shim_event list \<Rightarrow> 'ch shim_bus" where
  "publish_all send b es = fold (\<lambda>e b. fst (publish send b e)) es b"

definition source_count :: "string \<Rightarrow> 'f shim_event list \<Rightarrow> nat" where
  "source_count k es = length (filter (\<lambda>e. source e = k) es)"

definition stamp_all :: "'f shim_event list \<Rightarrow> 'f shim_event list" where
  "stamp_all es = map (\<lambda>i. (es ! i)\<lparr>sequence :=
     of_nat (source_count (source (es ! i)) (take (Suc i) es))\<rparr>) [0..<length es]"

lemma source_count_snoc [simp]:
  "source_count k (es @ [e]) = source_count k es + (if source e = k then 1 else 0)"
  by (simp add: source_count_def)

lemma stamp_all_snoc:
  "stamp_all (es @ [e]) =
     stamp_all es @ [e\<lparr>sequence := of_nat (source_count (source e) es + 1)\<rparr>]"
  by (auto simp: stamp_all_def nth_append)

lemma publish_all_snoc:
  "publish_all send b (es @ [e]) = fst (publish send (publish_all send b es) e)"
  by (simp add: publish_all_def)

lemma publish_all_count:
  "sequence_for (publish_all send b es) k = sequence_for b k + of_nat (source_count k es)"
  unfolding publish_all_def source_count_def by (rule bus_seq.fold_count)

lemma publish_all_tx:
  "tx (publish_all send (bus_with_capacity channel cap) es) =
     foldl send (channel cap) (stamp_all es)"
proof (induction es rule: rev_induct)
  case Nil
  then show ?case by (simp add: publish_all_def stamp_all_def bus_simps)
next
  case (snoc e es)
  then show ?case
    by (simp add: publish_all_snoc stamp_all_snoc publish_all_count bus_simps add.commute)
qed

lemma publish_all_total:
  "total_published (publish_all send b es) = total_published b + of_nat (length es)"
  by (induction es rule: rev_induct)
    (simp_all add: publish_all_snoc bus_simps, simp add: publish_all_def)

lemma source_count_take_strict:
  assumes "i < j" "j < length es" "source (es ! i) = source (es ! j)"
  shows "source_count (source (es ! i)) (take (Suc i) es)
       < source_count (source (es ! j)) (take (Suc j) es)"
proof -
  let ?k = "source (es ! j)"
  have "take (Suc j) es = take (Suc i) es @ drop (Suc i) (take j es) @ [es ! j]"
    using assms by (metis Suc_leI append_assoc append_take_drop_id min.absorb1 take_Suc_conv_app_nth take_take)
  then show ?thesis
    using assms by (simp add: source_count_def)
qed

lemma source_count_le: "source_count k es \<le> length es"
  by (simp add: source_count_def)

lemma nth_stamp_all:
  "i < length es \<Longrightarrow> stamp_all es ! i = (es ! i)\<lparr>sequence :=
     of_nat (source_count (source (es ! i)) (take (Suc i) es))\<rparr>"
  by (simp add: stamp_all_def)

lemma stamp_all_strict:
  assumes "i < j" "j < length es" "source (es ! i) = source (es ! j)" "length es < 2 ^ 64"
  shows "sequence (stamp_all es ! i) < sequence (stamp_all es ! j)"
proof -
  let ?c = "\<lambda>n. source_count (source (es ! n)) (take (Suc n) es)"
  have "?c i < ?c j"
    using assms(1-3) by (rule source_count_take_strict)
  moreover have "?c j < 2 ^ 64" "?c i < 2 ^ 64"
    using source_count_le [of "source (es ! j)" "take (Suc j) es"]
      source_count_le [of "source (es ! i)" "take (Suc i) es"] assms(1,2,4) by simp_all
  ultimately show ?thesis
    using assms(1,2) by (simp add: nth_stamp_all word_less_nat_alt unat_of_nat take_bit_nat_eq_self)
qed

section \<open>Filtering receivers\<close>

text \<open>\<^verbatim>\<open>yields recv r outs r'\<close>: the receives made from \<^verbatim>\<open>r\<close> give the outcomes
  \<^verbatim>\<open>outs\<close> in order and leave the receiver in \<^verbatim>\<open>r'\<close>.\<close>

fun yields :: "('rx \<Rightarrow> 'o \<times> 'rx) \<Rightarrow> 'rx \<Rightarrow> 'o list \<Rightarrow> 'rx \<Rightarrow> bool" where
  "yields recv r [] r' = (r = r')"
| "yields recv r (x # xs) r' = (fst (recv r) = x \<and> yields recv (snd (recv r)) xs r')"

definition skipped :: "'rx bus_subscriber \<Rightarrow> try_recv_error + 'f shim_event \<Rightarrow> bool" where
  "skipped s x = (case x of Inr e \<Rightarrow> \<not> matches s e | Inl (TryLagged n) \<Rightarrow> True | Inl _ \<Rightarrow> False)"

definition delivered :: "'x + 'e \<Rightarrow> 'e option" where
  "delivered x = (case x of Inr e \<Rightarrow> Some e | Inl _ \<Rightarrow> None)"

lemma matches_rx [simp]: "matches (s\<lparr>rx := r\<rparr>) e = matches s e"
  by (simp add: matches_def)

lemma skipped_rx [simp]: "skipped (s\<lparr>rx := r\<rparr>) x = skipped s x"
  by (simp add: skipped_def split: sum.splits try_recv_error.splits)

lemma sub_try_recv_stop:
  assumes "try_recv (rx s) = (x, r)" "\<not> skipped s x"
  shows "sub_try_recv try_recv s = Some (delivered x, s\<lparr>rx := r\<rparr>)"
  using assms by (subst sub_try_recv.simps)
    (auto simp: skipped_def delivered_def split: sum.splits try_recv_error.splits)

lemma sub_try_recv_skip:
  assumes "try_recv (rx s) = (x, r)" "skipped s x"
  shows "sub_try_recv try_recv s = sub_try_recv try_recv (s\<lparr>rx := r\<rparr>)"
  using assms by (subst sub_try_recv.simps)
    (auto simp: skipped_def split: sum.splits try_recv_error.splits)

text \<open>\<^verbatim>\<open>ShimBus::recv_filtered\<close> also adds the reported lags to \<^verbatim>\<open>total_dropped\<close>.\<close>

definition flt_accepts :: "string list \<Rightarrow> 'f shim_event \<Rightarrow> bool" where
  "flt_accepts flt e = (flt = [] \<or> event_type_tag (event e) \<in> set flt)"

definition flt_skips :: "string list \<Rightarrow> recv_error + 'f shim_event \<Rightarrow> bool" where
  "flt_skips flt x = (case x of Inr e \<Rightarrow> \<not> flt_accepts flt e | Inl (Lagged n) \<Rightarrow> True | Inl Closed \<Rightarrow> False)"

fun lag_total :: "(recv_error + 'f shim_event) list \<Rightarrow> u64" where
  "lag_total [] = 0"
| "lag_total (Inl (Lagged n) # xs) = n + lag_total xs"
| "lag_total (_ # xs) = lag_total xs"

section \<open>Properties\<close>

text \<open>C1: Publishing a list of events on a new bus sends each one with the number of
  events of its source up to and including it as sequence number; the per-source counters
  and the total count the events published.\<close>

theorem publish_all_stamps:
  "tx (publish_all send (bus_with_capacity channel cap) es) = foldl send (channel cap) (stamp_all es) \<and>
   sequence_for (publish_all send (bus_with_capacity channel cap) es) src = of_nat (source_count src es) \<and>
   total_published (publish_all send (bus_with_capacity channel cap) es) = of_nat (length es)"
  by (simp add: publish_all_tx publish_all_count publish_all_total bus_simps)

text \<open>On a channel that keeps what is sent, the sequence numbers of the events of one
  source strictly increase in publication order (for fewer than \<open>2 ^ 64\<close> events).\<close>

theorem published_sequences_strict:
  assumes "sent = tx (publish_all (\<lambda>l e. l @ [e]) (bus_with_capacity (\<lambda>_. []) cap) es)"
    and "length es < 2 ^ 64" "i < j" "j < length sent" "source (sent ! i) = source (sent ! j)"
  shows "sequence (sent ! i) < sequence (sent ! j)"
proof -
  have app: "foldl (\<lambda>l e. l @ [e]) acc xs = acc @ xs" for acc xs :: "'a shim_event list"
    by (induction xs arbitrary: acc) simp_all
  have sent: "sent = stamp_all es"
    using assms(1) by (simp add: publish_all_tx app)
  have len: "length sent = length es"
    by (simp add: sent stamp_all_def)
  then have "source (es ! i) = source (es ! j)"
    using assms(3-5) by (simp add: sent nth_stamp_all)
  then show ?thesis
    using assms(2-4) len by (simp add: sent stamp_all_strict)
qed

definition sample_events :: "unit shim_event list" where
  "sample_events =
     [shim_event_new 1 0 ''tls-shim'' (TlsCertRenewed ''/c'') Notice,
      shim_event_new 2 0 ''backup-shim'' (BackupStarted ''b'') Info,
      shim_event_new 3 0 ''tls-shim'' (TlsCertExpiring ''/c'' 3) Warning]"

theorem published_sequences_strict_witness:
  "sequence (tx (publish_all (\<lambda>l e. l @ [e]) (bus_with_capacity (\<lambda>_. []) 1024) sample_events) ! 0)
   < sequence (tx (publish_all (\<lambda>l e. l @ [e]) (bus_with_capacity (\<lambda>_. []) 1024) sample_events) ! 2)"
  by (rule published_sequences_strict [OF refl])
    (simp_all add: sample_events_def shim_event_new_def publish_all_def publish_def
      bus_with_capacity_def Let_def)

text \<open>A non-blocking receive skips the events its filter rejects and the reported
  lags, and returns the first accepted event, or nothing once the channel is empty or closed;
  it always returns.\<close>

theorem try_recv_first_match:
  assumes "yields try_recv (rx s) (xs @ [x]) r'"
    and "list_all (skipped s) xs" "\<not> skipped s x"
  shows "sub_try_recv try_recv s = Some (delivered x, s\<lparr>rx := r'\<rparr>)"
  using assms
proof (induction xs arbitrary: s)
  case Nil
  then show ?case
    by (intro sub_try_recv_stop) (auto simp: prod_eq_iff)
next
  case (Cons y ys)
  obtain r where r: "try_recv (rx s) = (y, r)"
    using Cons.prems(1) by (auto simp: prod_eq_iff)
  have "sub_try_recv try_recv (s\<lparr>rx := r\<rparr>) = Some (delivered x, s\<lparr>rx := r'\<rparr>)"
    using Cons.IH [of "s\<lparr>rx := r\<rparr>"] Cons.prems r by (simp add: list_all_iff)
  then show ?case
    using Cons.prems(2) sub_try_recv_skip [of try_recv s y r] r by simp
qed

definition list_receiver :: "'e list \<Rightarrow> (try_recv_error + 'e) \<times> 'e list" where
  "list_receiver q = (case q of [] \<Rightarrow> (Inl TryEmpty, []) | e # es \<Rightarrow> (Inr e, es))"

theorem try_recv_first_match_witness:
  "sub_try_recv list_receiver (bus_subscriber_new sample_events [''tls_cert_expiring''] Warning) =
     Some (Some (sample_events ! 2), bus_subscriber_new [] [''tls_cert_expiring''] Warning)"
  using try_recv_first_match [of list_receiver
      "bus_subscriber_new sample_events [''tls_cert_expiring''] Warning"
      "map Inr (take 2 sample_events)" "Inr (sample_events ! 2)" "[]"]
  by (simp add: sample_events_def shim_event_new_def bus_subscriber_new_def list_receiver_def
      skipped_def matches_def delivered_def)

text \<open>\<^verbatim>\<open>recv_filtered\<close> returns the first event whose tag is in the filter (any event for
  the empty filter), or nothing when the channel closes first, and adds every lag reported
  on the way to the dropped counter.\<close>

theorem recv_filtered_first_match:
  assumes "yields recv r (xs @ [x]) r'"
    and "list_all (flt_skips flt) xs" "\<not> flt_skips flt x"
  shows "recv_filtered recv b r flt =
    Some (delivered x, b\<lparr>total_dropped := total_dropped b + lag_total xs\<rparr>, r')"
  using assms
proof (induction xs arbitrary: b r)
  case Nil
  then show ?case
    by (subst recv_filtered.simps)
      (auto simp: flt_skips_def flt_accepts_def delivered_def prod_eq_iff
        split: prod.splits sum.splits recv_error.splits)
next
  case (Cons y ys)
  obtain r1 where r1: "recv r = (y, r1)"
    using Cons.prems(1) by (auto simp: prod_eq_iff)
  note IH = Cons.IH [of r1]
  show ?case
  proof (cases y)
    case (Inl err)
    then obtain n where "y = Inl (Lagged n)"
      using Cons.prems(2) by (auto simp: flt_skips_def split: recv_error.splits)
    then show ?thesis
      using Cons.prems r1 IH by (subst recv_filtered.simps) (simp add: add.assoc)
  next
    case (Inr e)
    then show ?thesis
      using Cons.prems r1 IH
      by (subst recv_filtered.simps) (simp add: flt_skips_def flt_accepts_def)
  qed
qed

definition script_receiver :: "(recv_error + 'e) list \<Rightarrow> (recv_error + 'e) \<times> (recv_error + 'e) list" where
  "script_receiver q = (case q of [] \<Rightarrow> (Inl Closed, []) | x # xs \<Rightarrow> (x, xs))"

theorem recv_filtered_first_match_witness:
  "recv_filtered script_receiver (bus_new (\<lambda>_. ())) [Inl (Lagged 5), Inr (sample_events ! 0), Inr (sample_events ! 1)]
     [''backup_started''] = Some (Some (sample_events ! 1), (bus_new (\<lambda>_. ()))\<lparr>total_dropped := 5\<rparr>, [])"
  using recv_filtered_first_match [of script_receiver
      "[Inl (Lagged 5), Inr (sample_events ! 0), Inr (sample_events ! 1)]"
      "[Inl (Lagged 5), Inr (sample_events ! 0)]" "Inr (sample_events ! 1)" "[]"
      "[''backup_started'']" "bus_new (\<lambda>_. ())"]
  by (simp add: sample_events_def shim_event_new_def script_receiver_def flt_skips_def
      flt_accepts_def delivered_def bus_new_def bus_with_capacity_def)

text \<open>The tag by which subscribers filter is the event's name, except for custom
  events, whose tag is always \<^verbatim>\<open>custom\<close>; and an event is alertable exactly when a
  subscriber for warnings accepts its severity.\<close>

theorem filter_tag_and_rank:
  "(event_type_tag (event e) = event_name e \<or> event_type_tag (event e) = ''custom'') \<and>
   (is_alertable e = matches (bus_subscriber_new r [] Warning) e)"
  using event_tag_or_name [of "event e"]
  by (auto simp: event_name_def is_alertable_iff matches_def bus_subscriber_new_def less_eq_severity_def)

end
