(* ===== verification/Cache.thy ===== *)
theory Cache
  imports Bus
begin

text \<open>
  \<^verbatim>\<open>cache-shim/src/lib.rs\<close>: the in-process query cache with LRU, LFU and FIFO
  eviction.  Every clock read is an argument (nanoseconds).  The order in
  which the hash map is iterated is the argument \<^verbatim>\<open>ord\<close>; it decides between
  equally rarely used entries under LFU.  The eviction loops are partial
  functions: \<^verbatim>\<open>None\<close> is a loop that does not end, which they exclude only
  while the invariant holds.
\<close>

section \<open>Data and operations\<close>

record cache_entry =
  ce_key :: string
  ce_value :: "u8 list"
  ce_size_bytes :: nat
  created_at :: time
  expires_at :: time
  last_accessed :: time
  access_count :: nat

datatype eviction_strategy = Lru | Lfu | Fifo

fun eviction_strategy_display :: "eviction_strategy \<Rightarrow> string" where
  "eviction_strategy_display Lru = ''lru''"
| "eviction_strategy_display Lfu = ''lfu''"
| "eviction_strategy_display Fifo = ''fifo''"

definition eviction_strategy_from_str :: "string \<Rightarrow> string + eviction_strategy" where
  "eviction_strategy_from_str s =
    (if to_lowercase s = ''lru'' then Inr Lru
     else if to_lowercase s = ''lfu'' then Inr Lfu
     else if to_lowercase s = ''fifo'' then Inr Fifo
     else Inl (''Unknown eviction strategy: '' @ s))"

record cache_inner =
  entries :: "(string, cache_entry) hmap"
  access_order :: "string list"
  insert_order :: "string list"
  hits :: nat
  misses :: nat
  evictions :: nat
  size_bytes :: nat

definition cache_inner_new :: cache_inner where
  "cache_inner_new = \<lparr>entries = [], access_order = [], insert_order = [],
     hits = 0, misses = 0, evictions = 0, size_bytes = 0\<rparr>"

record cache_shim =
  ttl_secs :: u64
  max_size :: nat
  max_entries :: nat
  strategy :: eviction_strategy
  cache_prefix :: string
  sweep_interval_secs :: nat

definition cache_shim_new :: "env \<Rightarrow> cache_shim \<times> cache_inner" where
  "cache_shim_new env =
    (let strategy_str = env_str env ''CACHE_STRATEGY'' ''lru'';
         strat = (case eviction_strategy_from_str strategy_str of Inr x \<Rightarrow> x | Inl _ \<Rightarrow> Lru)
     in (\<lparr>ttl_secs = of_nat (env_uint 64 env ''CACHE_TTL'' 300),
          max_size = env_uint 64 env ''CACHE_MAX_SIZE'' 1073741824,
          max_entries = env_uint 64 env ''CACHE_MAX_ENTRIES'' 10000,
          strategy = strat,
          cache_prefix = env_str env ''CACHE_PREFIX'' ''shim:'',
          sweep_interval_secs = env_uint 64 env ''CACHE_SWEEP_INTERVAL'' 60\<rparr>,
         cache_inner_new))"

definition full_key :: "cache_shim \<Rightarrow> string \<Rightarrow> string" where
  "full_key c key = cache_prefix c @ key"

text \<open>The removal that \<^verbatim>\<open>get\<close>, \<^verbatim>\<open>set\<close>, \<^verbatim>\<open>invalidate\<close>, the sweeps and the eviction
  spell out: the entry if it is there, its size, and both order queues.\<close>

definition drop_entry :: "string \<Rightarrow> cache_inner \<Rightarrow> cache_inner" where
  "drop_entry fk i =
    (case map_of (entries i) fk of
       None \<Rightarrow> i
     | Some e \<Rightarrow> i\<lparr>entries := hm_remove fk (entries i),
                   size_bytes := size_bytes i - ce_size_bytes e,
                   access_order := removeAll fk (access_order i),
                   insert_order := removeAll fk (insert_order i)\<rparr>)"

definition cache_get ::
  "cache_shim \<Rightarrow> time \<Rightarrow> time \<Rightarrow> string \<Rightarrow> cache_inner \<Rightarrow> cache_inner \<times> u8 list option" where
  "cache_get c now now2 key i =
    (let fk = full_key c key in
     case map_of (entries i) fk of
       None \<Rightarrow> (i\<lparr>misses := misses i + 1\<rparr>, None)
     | Some e \<Rightarrow>
         if expires_at e < now then
           (let i1 = drop_entry fk i in (i1\<lparr>misses := misses i1 + 1\<rparr>, None))
         else
           (i\<lparr>entries := hm_update fk (\<lambda>e. e\<lparr>last_accessed := now2,
                  access_count := access_count e + 1\<rparr>) (entries i),
              access_order := removeAll fk (access_order i) @ [fk],
              hits := hits i + 1\<rparr>, Some (ce_value e)))"

definition victim_key ::
  "((string, cache_entry) hmap \<Rightarrow> (string, cache_entry) hmap) \<Rightarrow> eviction_strategy
   \<Rightarrow> cache_inner \<Rightarrow> string option" where
  "victim_key ord st i =
    (case st of
       Lru \<Rightarrow> (case access_order i of [] \<Rightarrow> None | k # _ \<Rightarrow> Some k)
     | Fifo \<Rightarrow> (case insert_order i of [] \<Rightarrow> None | k # _ \<Rightarrow> Some k)
     | Lfu \<Rightarrow> map_option fst (min_by_key (\<lambda>p. access_count (snd p)) (hash_iter ord (entries i))))"

definition evict_one_inner ::
  "((string, cache_entry) hmap \<Rightarrow> (string, cache_entry) hmap) \<Rightarrow> cache_shim
   \<Rightarrow> cache_inner \<Rightarrow> cache_inner \<times> bool" where
  "evict_one_inner ord c i =
    (if entries i = [] then (i, False)
     else case victim_key ord (strategy c) i of
       Some k \<Rightarrow>
         (case map_of (entries i) k of
            Some e \<Rightarrow> (let i1 = drop_entry k i in (i1\<lparr>evictions := evictions i1 + 1\<rparr>, True))
          | None \<Rightarrow> (i, True))
     | None \<Rightarrow> (i, False))"

partial_function (option) evict_by_size ::
  "((string, cache_entry) hmap \<Rightarrow> (string, cache_entry) hmap) \<Rightarrow> cache_shim
   \<Rightarrow> cache_inner \<Rightarrow> cache_inner option" where
  "evict_by_size ord c i =
    (if max_size c < size_bytes i then
       (case evict_one_inner ord c i of
          (i', evicted) \<Rightarrow> if evicted then evict_by_size ord c i' else Some i')
     else Some i)"

partial_function (option) evict_by_count ::
  "((string, cache_entry) hmap \<Rightarrow> (string, cache_entry) hmap) \<Rightarrow> cache_shim
   \<Rightarrow> cache_inner \<Rightarrow> cache_inner option" where
  "evict_by_count ord c i =
    (if max_entries c \<le> length (entries i) then
       (case evict_one_inner ord c i of
          (i', evicted) \<Rightarrow> if evicted then evict_by_count ord c i' else Some i')
     else Some i)"

definition store_entry ::
  "cache_shim \<Rightarrow> time \<Rightarrow> string \<Rightarrow> u8 list \<Rightarrow> cache_inner \<Rightarrow> cache_inner" where
  "store_entry c now key val i =
    (let fk = full_key c key in
     i\<lparr>entries := hm_insert fk
         \<lparr>ce_key = key, ce_value = val, ce_size_bytes = length val, created_at = now,
          expires_at = now + second * sint (ttl_secs c), last_accessed = now,
          access_count = 0\<rparr> (entries i),
       access_order := access_order i @ [fk],
       insert_order := insert_order i @ [fk]\<rparr>)"

definition cache_set ::
  "((string, cache_entry) hmap \<Rightarrow> (string, cache_entry) hmap) \<Rightarrow> cache_shim \<Rightarrow> time
   \<Rightarrow> string \<Rightarrow> u8 list \<Rightarrow> cache_inner \<Rightarrow> (cache_inner \<times> bool) option" where
  "cache_set ord c now key val i =
    (if max_size c < length val then Some (i, False)
     else
       (let i1 = drop_entry (full_key c key) i;
            i2 = i1\<lparr>size_bytes := size_bytes i1 + length val\<rparr>
        in case evict_by_size ord c i2 of
             None \<Rightarrow> None
           | Some i3 \<Rightarrow>
               (case evict_by_count ord c i3 of
                  None \<Rightarrow> None
                | Some i4 \<Rightarrow> Some (store_entry c now key val i4, True))))"

definition invalidate :: "cache_shim \<Rightarrow> string \<Rightarrow> cache_inner \<Rightarrow> cache_inner \<times> bool" where
  "invalidate c key i =
    (let fk = full_key c key in
     case map_of (entries i) fk of
       Some e \<Rightarrow> (drop_entry fk i, True)
     | None \<Rightarrow> (i, False))"

definition invalidate_prefix ::
  "((string, cache_entry) hmap \<Rightarrow> (string, cache_entry) hmap) \<Rightarrow> cache_shim \<Rightarrow> string
   \<Rightarrow> cache_inner \<Rightarrow> cache_inner \<times> nat" where
  "invalidate_prefix ord c pre i =
    (let full_prefix = cache_prefix c @ pre;
         keys_to_remove = filter (\<lambda>k. starts_with k full_prefix) (map fst (hash_iter ord (entries i)))
     in (fold drop_entry keys_to_remove i, length keys_to_remove))"

definition expired_keys ::
  "((string, cache_entry) hmap \<Rightarrow> (string, cache_entry) hmap) \<Rightarrow> time \<Rightarrow> cache_inner \<Rightarrow> string list" where
  "expired_keys ord now i =
     map fst (filter (\<lambda>p. expires_at (snd p) < now) (hash_iter ord (entries i)))"

definition purge_expired ::
  "((string, cache_entry) hmap \<Rightarrow> (string, cache_entry) hmap) \<Rightarrow> time
   \<Rightarrow> cache_inner \<Rightarrow> cache_inner \<times> nat" where
  "purge_expired ord now i =
    (let before = length (entries i);
         i' = fold drop_entry (expired_keys ord now i) i
     in (i', before - length (entries i')))"

definition sweep_expired ::
  "((string, cache_entry) hmap \<Rightarrow> (string, cache_entry) hmap) \<Rightarrow> time \<Rightarrow> cache_inner \<Rightarrow> cache_inner" where
  "sweep_expired ord now i = fold drop_entry (expired_keys ord now i) i"

definition cache_clear :: "cache_inner \<Rightarrow> cache_inner" where
  "cache_clear i = i\<lparr>entries := [], access_order := [], insert_order := [], size_bytes := 0\<rparr>"

definition hit_rate :: "cache_inner \<Rightarrow> f64" where
  "hit_rate i = (let total = hits i + misses i in
     if total = 0 then 0 else of_nat (hits i) / of_nat total)"

definition entry_count :: "cache_inner \<Rightarrow> nat" where
  "entry_count i = length (entries i)"

definition cache_exists :: "cache_shim \<Rightarrow> time \<Rightarrow> string \<Rightarrow> cache_inner \<Rightarrow> bool" where
  "cache_exists c now key i =
    (case map_of (entries i) (full_key c key) of
       Some e \<Rightarrow> now \<le> expires_at e
     | None \<Rightarrow> False)"

definition cache_metrics :: "cache_inner \<Rightarrow> metric list" where
  "cache_metrics i =
    [(''cache_hits_total'', of_nat (hits i)),
     (''cache_misses_total'', of_nat (misses i)),
     (''cache_evictions_total'', of_nat (evictions i)),
     (''cache_size_bytes'', of_nat (size_bytes i)),
     (''cache_entries'', of_nat (length (entries i))),
     (''cache_hit_rate'', hit_rate i)]"

section \<open>Invariant\<close>

text \<open>The byte counter is the sum of the entry sizes (plus \<^verbatim>\<open>p\<close> bytes reserved for
  the value that \<^verbatim>\<open>set\<close> is about to store), and both order queues list exactly
  the keys of the map, each once.\<close>

definition cache_inv_with :: "nat \<Rightarrow> cache_inner \<Rightarrow> bool" where
  "cache_inv_with p i \<longleftrightarrow>
     hm_wf (entries i) \<and>
     distinct (access_order i) \<and> set (access_order i) = fst ` set (entries i) \<and>
     distinct (insert_order i) \<and> set (insert_order i) = fst ` set (entries i) \<and>
     (\<forall>q \<in> set (entries i). ce_size_bytes (snd q) = length (ce_value (snd q))) \<and>
     size_bytes i = p + (\<Sum>q\<leftarrow>entries i. ce_size_bytes (snd q))"

abbreviation cache_inv :: "cache_inner \<Rightarrow> bool" where
  "cache_inv \<equiv> cache_inv_with 0"

lemma cache_inv_new: "cache_inv cache_inner_new"
  by (simp add: cache_inv_with_def cache_inner_new_def)

lemma drop_entry_entries [simp]: "entries (drop_entry fk i) = hm_remove fk (entries i)"
  by (auto simp: drop_entry_def split: option.splits)

lemma drop_entry_inv [inv_intros]:
  assumes "cache_inv_with p i"
  shows "cache_inv_with p (drop_entry fk i)"
proof (cases "map_of (entries i) fk")
  case None
  then show ?thesis using assms by (simp add: drop_entry_def)
next
  case (Some e)
  then show ?thesis
    using assms sum_hm_remove [of "entries i" fk e "\<lambda>q. ce_size_bytes (snd q)"]
    by (auto simp: cache_inv_with_def drop_entry_def distinct_removeAll)
qed

lemma fold_drop_inv [inv_intros]:
  "cache_inv_with p i \<Longrightarrow> cache_inv_with p (fold drop_entry ks i)"
  by (induction ks arbitrary: i) (auto intro: drop_entry_inv)

lemma drop_entry_order:
  assumes "cache_inv_with p i"
  shows "access_order (drop_entry fk i) = removeAll fk (access_order i)"
    and "insert_order (drop_entry fk i) = removeAll fk (insert_order i)"
  using assms
  by (auto simp: drop_entry_def cache_inv_with_def map_of_eq_None_iff split: option.splits)

section \<open>Eviction\<close>

definition evict :: "((string, cache_entry) hmap \<Rightarrow> (string, cache_entry) hmap) \<Rightarrow> cache_shim
   \<Rightarrow> cache_inner \<Rightarrow> cache_inner" where
  "evict ord c i = fst (evict_one_inner ord c i)"

lemma victim_key_in:
  assumes "cache_inv_with p i" "entries i \<noteq> []"
  obtains k e where "victim_key ord st i = Some k" "map_of (entries i) k = Some e"
proof -
  have ne: "access_order i \<noteq> []" "insert_order i \<noteq> []"
    using assms by (auto simp: cache_inv_with_def)
  have "\<exists>k. victim_key ord st i = Some k \<and> k \<in> fst ` set (entries i)"
  proof (cases st)
    case Lru
    then show ?thesis
      using assms(1) ne list.set_sel(1) by (auto simp: victim_key_def cache_inv_with_def split: list.splits)
  next
    case Fifo
    then show ?thesis
      using assms(1) ne list.set_sel(1) by (auto simp: victim_key_def cache_inv_with_def split: list.splits)
  next
    case Lfu
    obtain q where q: "min_by_key (\<lambda>q. access_count (snd q)) (hash_iter ord (entries i)) = Some q"
      using assms(2) by (metis hash_iter_Nil min_by_key_None not_None_eq)
    then have "q \<in> set (entries i)"
      using min_by_key_Some by fastforce
    then show ?thesis
      using q Lfu by (auto simp: victim_key_def)
  qed
  then show thesis
    using that by (metis domD dom_map_of_conv_image_fst)
qed

lemma evict_one_victim:
  assumes "cache_inv_with p i" "entries i \<noteq> []"
  obtains k e where "victim_key ord (strategy c) i = Some k" "map_of (entries i) k = Some e"
    "evict_one_inner ord c i = ((drop_entry k i)\<lparr>evictions := evictions (drop_entry k i) + 1\<rparr>, True)"
proof -
  obtain k e where "victim_key ord (strategy c) i = Some k" "map_of (entries i) k = Some e"
    using assms by (rule victim_key_in)
  then show thesis
    using that assms(2) by (simp add: evict_one_inner_def Let_def)
qed

lemma evict_one_empty: "entries i = [] \<Longrightarrow> evict_one_inner ord c i = (i, False)"
  by (simp add: evict_one_inner_def)

lemma cache_inv_evictions [simp]: "cache_inv_with p (i\<lparr>evictions := n\<rparr>) = cache_inv_with p i"
  by (simp add: cache_inv_with_def)

lemma evict_inv [inv_intros]:
  assumes "cache_inv_with p i"
  shows "cache_inv_with p (evict ord c i)"
proof (cases "entries i = []")
  case True
  then show ?thesis using assms by (simp add: evict_def evict_one_empty)
next
  case False
  obtain k e where "evict_one_inner ord c i =
      ((drop_entry k i)\<lparr>evictions := evictions (drop_entry k i) + 1\<rparr>, True)"
    using assms False by (rule evict_one_victim)
  then show ?thesis using assms by (simp add: evict_def drop_entry_inv)
qed

lemma evict_shrinks:
  assumes "cache_inv_with p i" "entries i \<noteq> []"
  shows "snd (evict_one_inner ord c i)" "length (entries (evict ord c i)) < length (entries i)"
proof -
  obtain k e where *: "map_of (entries i) k = Some e" "evict_one_inner ord c i =
      ((drop_entry k i)\<lparr>evictions := evictions (drop_entry k i) + 1\<rparr>, True)"
    using assms by (rule evict_one_victim)
  then show "snd (evict_one_inner ord c i)" "length (entries (evict ord c i)) < length (entries i)"
    by (auto simp: evict_def intro: hm_remove_length_less)
qed

lemma evict_entries_le: "map_of (entries (evict ord c i)) \<subseteq>\<^sub>m map_of (entries i)"
  by (auto simp: evict_def evict_one_inner_def Let_def map_le_def split: option.splits if_splits)

lemma evict_pow_entries_le: "map_of (entries ((evict ord c ^^ n) i)) \<subseteq>\<^sub>m map_of (entries i)"
  by (induction n) (auto intro: map_le_trans evict_entries_le)

lemma evict_pow_inv [inv_intros]:
  "cache_inv_with p i \<Longrightarrow> cache_inv_with p ((evict ord c ^^ n) i)"
  by (induction n) (auto intro: evict_inv)

lemma evict_front:
  assumes "cache_inv_with p i"
  shows "strategy c = Lru \<Longrightarrow> access_order (evict ord c i) = tl (access_order i)"
    and "strategy c = Fifo \<Longrightarrow> insert_order (evict ord c i) = tl (insert_order i)"
proof -
  have "access_order (evict ord c i) = tl (access_order i)" if st: "strategy c = Lru"
  proof (cases "entries i = []")
    case True
    then show ?thesis using assms by (simp add: evict_def evict_one_empty cache_inv_with_def)
  next
    case False
    obtain k e where *: "victim_key ord (strategy c) i = Some k" "evict_one_inner ord c i =
        ((drop_entry k i)\<lparr>evictions := evictions (drop_entry k i) + 1\<rparr>, True)"
      using assms False by (rule evict_one_victim)
    obtain ks where "access_order i = k # ks" "k \<notin> set ks"
      using * st assms
      by (auto simp: victim_key_def cache_inv_with_def split: list.splits)
    then show ?thesis
      using * assms by (simp add: evict_def drop_entry_order)
  qed
  moreover have "insert_order (evict ord c i) = tl (insert_order i)" if st: "strategy c = Fifo"
  proof (cases "entries i = []")
    case True
    then show ?thesis using assms by (simp add: evict_def evict_one_empty cache_inv_with_def)
  next
    case False
    obtain k e where *: "victim_key ord (strategy c) i = Some k" "evict_one_inner ord c i =
        ((drop_entry k i)\<lparr>evictions := evictions (drop_entry k i) + 1\<rparr>, True)"
      using assms False by (rule evict_one_victim)
    obtain ks where "insert_order i = k # ks" "k \<notin> set ks"
      using * st assms
      by (auto simp: victim_key_def cache_inv_with_def split: list.splits)
    then show ?thesis
      using * assms by (simp add: evict_def drop_entry_order)
  qed
  ultimately show "strategy c = Lru \<Longrightarrow> access_order (evict ord c i) = tl (access_order i)"
    and "strategy c = Fifo \<Longrightarrow> insert_order (evict ord c i) = tl (insert_order i)"
    by blast+
qed

lemma evict_pow_front:
  assumes "cache_inv_with p i"
  shows "strategy c = Lru \<Longrightarrow> access_order ((evict ord c ^^ n) i) = drop n (access_order i)"
    and "strategy c = Fifo \<Longrightarrow> insert_order ((evict ord c ^^ n) i) = drop n (insert_order i)"
proof -
  have inv: "cache_inv_with p ((evict ord c ^^ m) i)" for m
    using assms by (rule evict_pow_inv)
  show "strategy c = Lru \<Longrightarrow> access_order ((evict ord c ^^ n) i) = drop n (access_order i)"
    by (induction n) (simp_all add: evict_front(1) [OF inv] drop_Suc tl_drop)
  show "strategy c = Fifo \<Longrightarrow> insert_order ((evict ord c ^^ n) i) = drop n (insert_order i)"
    by (induction n) (simp_all add: evict_front(2) [OF inv] drop_Suc tl_drop)
qed

lemma evict_size_le:
  assumes "cache_inv_with p i"
  shows "size_bytes (evict ord c i) \<le> size_bytes i"
  by (auto simp: evict_def evict_one_inner_def Let_def drop_entry_def split: option.splits)

lemma evict_pow_size_le:
  assumes "cache_inv_with p i"
  shows "size_bytes ((evict ord c ^^ n) i) \<le> size_bytes i"
  using assms
  by (induction n) (auto intro: order_trans [OF evict_size_le] evict_pow_inv)

text \<open>Both loops end, after some number of evictions, and establish their bound.\<close>

lemma evict_by_size_ends:
  assumes "cache_inv_with p i" "p \<le> max_size c"
  shows "\<exists>n. evict_by_size ord c i = Some ((evict ord c ^^ n) i) \<and>
     size_bytes ((evict ord c ^^ n) i) \<le> max_size c"
  using assms
proof (induction "length (entries i)" arbitrary: i rule: less_induct)
  case less
  show ?case
  proof (cases "max_size c < size_bytes i")
    case False
    then have "evict_by_size ord c i = Some i"
      by (subst evict_by_size.simps) simp
    then show ?thesis
      using False by (intro exI [of _ 0]) simp
  next
    case True
    then have ne: "entries i \<noteq> []"
      using less.prems by (auto simp: cache_inv_with_def)
    note step = evict_shrinks [OF less.prems(1) ne, of ord c]
    have "evict_by_size ord c i = evict_by_size ord c (evict ord c i)"
      using True step(1)
      by (subst evict_by_size.simps) (cases "evict_one_inner ord c i"; simp add: evict_def)
    moreover obtain n where "evict_by_size ord c (evict ord c i) = Some ((evict ord c ^^ n) (evict ord c i))"
        "size_bytes ((evict ord c ^^ n) (evict ord c i)) \<le> max_size c"
      using less.hyps [OF step(2) evict_inv [OF less.prems(1)] less.prems(2)] by blast
    ultimately show ?thesis
      by (intro exI [of _ "Suc n"]) (simp add: funpow_swap1)
  qed
qed

lemma evict_by_count_ends:
  assumes "cache_inv_with p i"
  shows "\<exists>n. evict_by_count ord c i = Some ((evict ord c ^^ n) i) \<and>
     length (entries ((evict ord c ^^ n) i)) \<le> max_entries c - 1"
  using assms
proof (induction "length (entries i)" arbitrary: i rule: less_induct)
  case less
  show ?case
  proof (cases "max_entries c \<le> length (entries i) \<and> entries i \<noteq> []")
    case False
    then have "evict_by_count ord c i = Some i"
      by (subst evict_by_count.simps) (auto simp: evict_one_empty)
    then show ?thesis
      using False by (intro exI [of _ 0]) auto
  next
    case True
    then have ne: "entries i \<noteq> []" by simp
    note step = evict_shrinks [OF less.prems(1) ne, of ord c]
    have "evict_by_count ord c i = evict_by_count ord c (evict ord c i)"
      using True step(1)
      by (subst evict_by_count.simps) (cases "evict_one_inner ord c i"; simp add: evict_def)
    moreover obtain n where "evict_by_count ord c (evict ord c i) = Some ((evict ord c ^^ n) (evict ord c i))"
        "length (entries ((evict ord c ^^ n) (evict ord c i))) \<le> max_entries c - 1"
      using less.hyps [OF step(2) evict_inv [OF less.prems]] by blast
    ultimately show ?thesis
      by (intro exI [of _ "Suc n"]) (simp add: funpow_swap1)
  qed
qed

section \<open>Effect of the operations\<close>

text \<open>The cache as the finite map from full keys to stored values.\<close>

definition cache_abs :: "cache_inner \<Rightarrow> string \<Rightarrow> u8 list option" where
  "cache_abs i k = map_option ce_value (map_of (entries i) k)"

lemma store_entry_inv:
  assumes "cache_inv_with (length val) i" "full_key c key \<notin> fst ` set (entries i)"
  shows "cache_inv (store_entry c now key val i)"
proof -
  have "hm_remove (full_key c key) (entries i) = entries i"
    using assms(2) by (simp add: map_of_eq_None_iff)
  then show ?thesis
    using assms by (auto simp: cache_inv_with_def store_entry_def hm_insert_def Let_def)
qed

lemma cache_set_ends:
  assumes inv: "cache_inv i" and fits: "length val \<le> max_size c"
  obtains m n i4 where
    "i4 = (evict ord c ^^ m) ((evict ord c ^^ n)
        ((drop_entry (full_key c key) i)\<lparr>size_bytes := size_bytes (drop_entry (full_key c key) i) + length val\<rparr>))"
    "cache_set ord c now key val i = Some (store_entry c now key val i4, True)"
    "cache_inv_with (length val) i4"
    "size_bytes i4 \<le> max_size c" "length (entries i4) \<le> max_entries c - 1"
    "map_of (entries i4) \<subseteq>\<^sub>m (map_of (entries i))(full_key c key := None)"
proof -
  let ?d = "drop_entry (full_key c key) i"
  let ?i2 = "?d\<lparr>size_bytes := size_bytes ?d + length val\<rparr>"
  have inv2: "cache_inv_with (length val) ?i2"
    using drop_entry_inv [OF inv, of "full_key c key"] by (simp add: cache_inv_with_def)
  obtain n where n: "evict_by_size ord c ?i2 = Some ((evict ord c ^^ n) ?i2)"
      "size_bytes ((evict ord c ^^ n) ?i2) \<le> max_size c"
    using evict_by_size_ends [OF inv2 fits] by blast
  let ?i3 = "(evict ord c ^^ n) ?i2"
  have inv3: "cache_inv_with (length val) ?i3"
    using inv2 by (rule evict_pow_inv)
  obtain m where m: "evict_by_count ord c ?i3 = Some ((evict ord c ^^ m) ?i3)"
      "length (entries ((evict ord c ^^ m) ?i3)) \<le> max_entries c - 1"
    using evict_by_count_ends [OF inv3] by blast
  let ?i4 = "(evict ord c ^^ m) ?i3"
  have inv4: "cache_inv_with (length val) ?i4"
    using inv3 by (rule evict_pow_inv)
  have sub: "map_of (entries ?i4) \<subseteq>\<^sub>m (map_of (entries i))(full_key c key := None)"
    using map_le_trans [OF evict_pow_entries_le [where i = ?i3 and n = m] evict_pow_entries_le [where i = ?i2 and n = n]]
    by simp
  have size4: "size_bytes ?i4 \<le> size_bytes ?i3"
    using inv3 by (rule evict_pow_size_le)
  show thesis
    using that [of ?i4 m n] n m inv4 sub size4 fits by (simp add: cache_set_def Let_def)
qed

lemma cache_get_cases:
  fixes c key i
  defines "fk \<equiv> full_key c key"
  shows "map_of (entries i) fk = None \<Longrightarrow>
      cache_get c now now2 key i = (i\<lparr>misses := misses i + 1\<rparr>, None)"
    and "map_of (entries i) fk = Some e \<Longrightarrow> expires_at e < now \<Longrightarrow>
      cache_get c now now2 key i =
        ((drop_entry fk i)\<lparr>misses := misses (drop_entry fk i) + 1\<rparr>, None)"
    and "map_of (entries i) fk = Some e \<Longrightarrow> now \<le> expires_at e \<Longrightarrow>
      snd (cache_get c now now2 key i) = Some (ce_value e)"
  by (simp_all add: cache_get_def fk_def Let_def)

lemma hit_inv:
  assumes "cache_inv i" "map_of (entries i) fk = Some e"
  shows "cache_inv (i\<lparr>entries := hm_update fk (\<lambda>e. e\<lparr>last_accessed := t, access_count := access_count e + 1\<rparr>) (entries i),
    access_order := removeAll fk (access_order i) @ [fk], hits := h\<rparr>)"
proof -
  let ?f = "\<lambda>e. e\<lparr>last_accessed := t, access_count := access_count e + 1\<rparr>"
  have "fk \<in> fst ` set (entries i)"
    using assms(2) by (metis domI dom_map_of_conv_image_fst)
  moreover have "fst ` set (hm_update fk ?f (entries i)) = fst ` set (entries i)"
    using keys_hm_update [of fk ?f "entries i"] by (metis list.set_map)
  moreover have "(\<Sum>q\<leftarrow>hm_update fk ?f (entries i). ce_size_bytes (snd q)) =
      (\<Sum>q\<leftarrow>entries i. ce_size_bytes (snd q))"
    by (auto simp: hm_update_def comp_def intro!: arg_cong [of _ _ sum_list])
  moreover have "\<forall>q\<in>set (hm_update fk ?f (entries i)). ce_size_bytes (snd q) = length (ce_value (snd q))"
    using assms(1) by (auto simp: cache_inv_with_def hm_update_def)
  moreover have "hm_wf (hm_update fk ?f (entries i))"
    using assms(1) by (simp only: keys_hm_update cache_inv_with_def)
  ultimately show ?thesis
    using assms(1) by (auto simp: cache_inv_with_def distinct_removeAll)
qed

lemma cache_get_inv [inv_intros]: "cache_inv i \<Longrightarrow> cache_inv (fst (cache_get c now now2 key i))"
proof -
  assume inv: "cache_inv i"
  have *: "cache_inv (j\<lparr>misses := n\<rparr>) = cache_inv j" for j n
    by (simp add: cache_inv_with_def)
  show ?thesis
    using inv hit_inv [OF inv] drop_entry_inv [OF inv]
    by (auto simp: cache_get_def Let_def * split: option.splits)
qed

lemma cache_set_inv [inv_intros]:
  assumes "cache_inv i" "cache_set ord c now key val i = Some (i', ok)"
  shows "cache_inv i'"
proof (cases "max_size c < length val")
  case True
  then show ?thesis using assms by (simp add: cache_set_def)
next
  case False
  then have fits: "length val \<le> max_size c" by simp
  obtain i4 where i4: "cache_set ord c now key val i = Some (store_entry c now key val i4, True)"
      "cache_inv_with (length val) i4"
      "map_of (entries i4) \<subseteq>\<^sub>m (map_of (entries i))(full_key c key := None)"
    using assms(1) fits by (rule cache_set_ends)
  have "full_key c key \<notin> dom (map_of (entries i4))"
    using map_le_implies_dom_le [OF i4(3)] by auto
  then have "full_key c key \<notin> fst ` set (entries i4)"
    by (simp add: dom_map_of_conv_image_fst)
  then show ?thesis
    using assms(2) i4 store_entry_inv by auto
qed

lemma invalidate_inv [inv_intros]: "cache_inv i \<Longrightarrow> cache_inv (fst (invalidate c key i))"
  by (auto simp: invalidate_def Let_def intro: drop_entry_inv split: option.splits)

lemma cache_clear_inv [inv_intros]: "cache_inv (cache_clear i)"
  by (simp add: cache_clear_def cache_inv_with_def)

section \<open>Runs\<close>

datatype cache_op =
    CGet time time string
  | CSet time string "u8 list"
  | CInvalidate string
  | CInvalidatePrefix string
  | CPurge time
  | CSweep time
  | CClear

fun cache_exec ::
  "((string, cache_entry) hmap \<Rightarrow> (string, cache_entry) hmap) \<Rightarrow> cache_shim
   \<Rightarrow> cache_op \<Rightarrow> cache_inner \<Rightarrow> cache_inner" where
  "cache_exec ord c (CGet now now2 k) i = fst (cache_get c now now2 k i)"
| "cache_exec ord c (CSet now k v) i =
     (case cache_set ord c now k v i of Some (i', _) \<Rightarrow> i' | None \<Rightarrow> i)"
| "cache_exec ord c (CInvalidate k) i = fst (invalidate c k i)"
| "cache_exec ord c (CInvalidatePrefix p) i = fst (invalidate_prefix ord c p i)"
| "cache_exec ord c (CPurge now) i = fst (purge_expired ord now i)"
| "cache_exec ord c (CSweep now) i = sweep_expired ord now i"
| "cache_exec ord c CClear i = cache_clear i"

definition cache_bounded :: "cache_shim \<Rightarrow> cache_inner \<Rightarrow> bool" where
  "cache_bounded c i \<longleftrightarrow> cache_inv i \<and> size_bytes i \<le> max_size c \<and>
     length (entries i) \<le> max 1 (max_entries c)"

lemma fold_drop_entries:
  "entries (fold drop_entry ks i) = filter (\<lambda>p. fst p \<notin> set ks) (entries i)"
  by (induction ks arbitrary: i) (auto simp: hm_remove_def intro!: filter_cong)

lemma sum_filter_le: "(\<Sum>q\<leftarrow>filter P xs. f q) \<le> (\<Sum>q\<leftarrow>xs. f q :: nat)"
  by (induction xs) auto

lemma fold_drop_bounded [inv_intros]:
  assumes "cache_bounded c i"
  shows "cache_bounded c (fold drop_entry ks i)"
proof -
  have inv: "cache_inv (fold drop_entry ks i)"
    using assms by (auto simp: cache_bounded_def intro: fold_drop_inv)
  have "size_bytes (fold drop_entry ks i) \<le> size_bytes i"
    using inv assms by (simp add: cache_inv_with_def cache_bounded_def fold_drop_entries sum_filter_le)
  moreover have "length (entries (fold drop_entry ks i)) \<le> length (entries i)"
    by (simp add: fold_drop_entries)
  ultimately show ?thesis
    using assms inv by (auto simp: cache_bounded_def)
qed

lemma drop_entry_bounded [inv_intros]: "cache_bounded c i \<Longrightarrow> cache_bounded c (drop_entry k i)"
  using fold_drop_bounded [of c i "[k]"] by simp

lemma cache_get_bounded [inv_intros]:
  assumes "cache_bounded c i"
  shows "cache_bounded c (fst (cache_get c now now2 key i))"
proof -
  have inv: "cache_inv (fst (cache_get c now now2 key i))"
    using assms by (auto simp: cache_bounded_def intro: cache_get_inv)
  have "cache_bounded c (drop_entry (full_key c key) i)"
    using assms by (rule drop_entry_bounded)
  then have "size_bytes (fst (cache_get c now now2 key i)) \<le> max_size c \<and>
      length (entries (fst (cache_get c now now2 key i))) \<le> max 1 (max_entries c)"
    using assms
    by (auto simp: cache_get_def Let_def cache_bounded_def hm_update_def split: option.splits)
  then show ?thesis
    using inv by (simp add: cache_bounded_def)
qed

lemma cache_set_bounded [inv_intros]:
  assumes "cache_bounded c i" "cache_set ord c now key val i = Some (i', ok)"
  shows "cache_bounded c i'"
proof (cases "max_size c < length val")
  case True
  then show ?thesis using assms by (simp add: cache_set_def)
next
  case False
  then have fits: "length val \<le> max_size c" and inv: "cache_inv i"
    using assms by (simp_all add: cache_bounded_def)
  obtain i4 where i4: "cache_set ord c now key val i = Some (store_entry c now key val i4, True)"
      "size_bytes i4 \<le> max_size c" "length (entries i4) \<le> max_entries c - 1"
      "map_of (entries i4) \<subseteq>\<^sub>m (map_of (entries i))(full_key c key := None)"
    using inv fits by (rule cache_set_ends)
  have "full_key c key \<notin> dom (map_of (entries i4))"
    using map_le_implies_dom_le [OF i4(4)] by auto
  then have "hm_remove (full_key c key) (entries i4) = entries i4"
    by (simp add: domIff)
  moreover have "cache_inv i'"
    using inv assms(2) by (rule cache_set_inv)
  ultimately show ?thesis
    using assms(2) i4 by (auto simp: cache_bounded_def store_entry_def hm_insert_def Let_def)
qed

lemma cache_exec_bounded: "cache_bounded c i \<Longrightarrow> cache_bounded c (cache_exec ord c op i)"
proof (cases op)
  case CClear
  then show "cache_bounded c i \<Longrightarrow> ?thesis"
    using cache_clear_inv by (simp add: cache_bounded_def cache_clear_def)
qed (auto simp: invalidate_def invalidate_prefix_def purge_expired_def sweep_expired_def Let_def
    intro: inv_intros split: option.splits)

interpretation cache_sys: op_system "cache_exec ord c" "cache_bounded c"
  by unfold_locales (rule cache_exec_bounded)

lemma store_entry_abs:
  "cache_abs (store_entry c now key val i) k =
     (if k = full_key c key then Some val else cache_abs i k)"
  by (simp add: cache_abs_def store_entry_def Let_def)

lemma map_le_abs:
  "map_of (entries j) \<subseteq>\<^sub>m (map_of (entries i))(fk := None) \<Longrightarrow>
     cache_abs j k = None \<or> (k \<noteq> fk \<and> cache_abs j k = cache_abs i k)"
  by (cases "map_of (entries j) k")
    (auto simp: cache_abs_def map_le_def dom_def fun_upd_def split: if_splits dest!: spec [of _ k])

section \<open>Properties\<close>

definition sample_cache :: cache_shim where
  "sample_cache = \<lparr>ttl_secs = 300, max_size = 4, max_entries = 2, strategy = Lru,
     cache_prefix = ''shim:'', sweep_interval_secs = 60\<rparr>"

definition sample_inner :: cache_inner where
  "sample_inner = store_entry sample_cache 0 ''b'' [] (store_entry sample_cache 0 ''a'' [] cache_inner_new)"

lemma sample_inner_inv: "cache_inv sample_inner"
  by (simp add: sample_inner_def sample_cache_def store_entry_def cache_inner_new_def
      cache_inv_with_def full_key_def hm_insert_def hm_remove_def Let_def)

lemma sample_set: "\<exists>i'. cache_set id sample_cache 5 ''c'' [1, 2] sample_inner = Some (i', True)"
proof -
  have fits: "length [1, 2 :: u8] \<le> max_size sample_cache"
    by (simp add: sample_cache_def)
  obtain i4 where "cache_set id sample_cache 5 ''c'' [1, 2] sample_inner =
      Some (store_entry sample_cache 5 ''c'' [1, 2] i4, True)"
    using sample_inner_inv fits by (rule cache_set_ends)
  then show ?thesis by blast
qed

text \<open>Storing a value that fits always returns (both eviction loops end), leaves the
  cache within its byte and entry bounds with consistent bookkeeping, makes the key
  map to the value, and changes no other key except by evicting it.\<close>

theorem cache_set_spec:
  assumes "cache_inv i" "length val \<le> max_size c"
  shows "\<exists>i'. cache_set ord c now key val i = Some (i', True) \<and>
     cache_inv i' \<and> size_bytes i' \<le> max_size c \<and> length (entries i') \<le> max 1 (max_entries c) \<and>
     cache_abs i' (full_key c key) = Some val \<and>
     (\<forall>k. k \<noteq> full_key c key \<longrightarrow> cache_abs i' k = None \<or> cache_abs i' k = cache_abs i k)"
proof -
  obtain i4 where i4: "cache_set ord c now key val i = Some (store_entry c now key val i4, True)"
      "size_bytes i4 \<le> max_size c" "length (entries i4) \<le> max_entries c - 1"
      "map_of (entries i4) \<subseteq>\<^sub>m (map_of (entries i))(full_key c key := None)"
    using assms by (rule cache_set_ends)
  have "full_key c key \<notin> dom (map_of (entries i4))"
    using map_le_implies_dom_le [OF i4(4)] by auto
  then have "length (entries (store_entry c now key val i4)) \<le> max 1 (max_entries c)"
    using i4(3) by (auto simp: store_entry_def hm_insert_def Let_def domIff)
  moreover have "size_bytes (store_entry c now key val i4) \<le> max_size c"
    using i4(2) by (simp add: store_entry_def Let_def)
  moreover have "cache_inv (store_entry c now key val i4)"
    using assms(1) i4(1) by (rule cache_set_inv)
  ultimately show ?thesis
    using i4(1) map_le_abs [OF i4(4)] by (auto simp: store_entry_abs)
qed

theorem cache_set_spec_witness:
  "\<exists>i'. cache_set id sample_cache 5 ''c'' [1, 2] sample_inner = Some (i', True) \<and>
     cache_inv i' \<and> size_bytes i' \<le> 4 \<and> length (entries i') \<le> 2 \<and>
     cache_abs i' ''shim:c'' = Some [1, 2] \<and>
     (\<forall>k. k \<noteq> ''shim:c'' \<longrightarrow> cache_abs i' k = None \<or> cache_abs i' k = cache_abs sample_inner k)"
  using cache_set_spec [of sample_inner "[1, 2]" sample_cache id 5 "''c''"] sample_inner_inv
  by (simp add: sample_cache_def full_key_def numeral_2_eq_2)

text \<open>Under LRU the keys evicted by a store are exactly a prefix of the
  least-recently-used order, under FIFO a prefix of the insertion order, and the stored
  key becomes the most recent one.\<close>

theorem cache_set_evicts_oldest:
  assumes "cache_inv i" "length val \<le> max_size c"
    and "cache_set ord c now key val i = Some (i', True)"
  shows "(strategy c = Lru \<longrightarrow>
      (\<exists>n. access_order i' = drop n (removeAll (full_key c key) (access_order i)) @ [full_key c key])) \<and>
    (strategy c = Fifo \<longrightarrow>
      (\<exists>n. insert_order i' = drop n (removeAll (full_key c key) (insert_order i)) @ [full_key c key]))"
proof -
  let ?d = "drop_entry (full_key c key) i"
  let ?i2 = "?d\<lparr>size_bytes := size_bytes ?d + length val\<rparr>"
  obtain m n i4 where i4: "i4 = (evict ord c ^^ m) ((evict ord c ^^ n) ?i2)"
      "cache_set ord c now key val i = Some (store_entry c now key val i4, True)"
    using assms(1,2) by (rule cache_set_ends)
  have inv2: "cache_inv_with (length val) ?i2"
    using drop_entry_inv [OF assms(1), of "full_key c key"] by (simp add: cache_inv_with_def)
  note fronts = evict_pow_front [OF inv2] evict_pow_front [OF evict_pow_inv [OF inv2]]
  have "i' = store_entry c now key val i4"
    using assms(3) i4(2) by simp
  then show ?thesis
    by (auto simp: store_entry_def Let_def i4(1) fronts drop_entry_order [OF assms(1)]
        intro: exI [of _ "m + n"])
qed

theorem cache_set_evicts_oldest_witness:
  "\<exists>n. access_order (fst (the (cache_set id sample_cache 5 ''c'' [1, 2] sample_inner))) =
     drop n (removeAll ''shim:c'' [''shim:a'', ''shim:b'']) @ [''shim:c'']"
proof -
  have o: "access_order sample_inner = [''shim:a'', ''shim:b'']"
    by (simp add: sample_inner_def sample_cache_def store_entry_def cache_inner_new_def full_key_def Let_def)
  have "max_size sample_cache = 4" "strategy sample_cache = Lru" "full_key sample_cache ''c'' = ''shim:c''"
    by (simp_all add: sample_cache_def full_key_def)
  moreover obtain i' where "cache_set id sample_cache 5 ''c'' [1, 2] sample_inner = Some (i', True)"
    using sample_set by blast
  ultimately show ?thesis
    using cache_set_evicts_oldest [OF sample_inner_inv, of "[1, 2]" sample_cache id 5 "''c''"] o by simp
qed

text \<open>C2: After any sequence of calls on a new cache the byte counter equals the sum of
  the entry sizes, the order queues list exactly the keys, and the size and entry limits
  hold (one entry is kept even when the entry limit is zero).\<close>

theorem cache_run_bounded:
  "cache_bounded c (fold (cache_exec ord c) ops cache_inner_new)"
proof (rule cache_sys.fold_inv)
  show "cache_bounded c cache_inner_new"
    using cache_inv_new by (simp add: cache_bounded_def cache_inner_new_def)
qed

text \<open>C38: A lookup returns the stored value exactly when the key is present and not past
  its expiry, agrees with \<^verbatim>\<open>exists\<close>, removes an expired entry and otherwise leaves the
  stored values alone.\<close>

theorem cache_get_refines:
  "snd (cache_get c now now2 key i) =
     (if cache_exists c now key i then cache_abs i (full_key c key) else None) \<and>
   cache_abs (fst (cache_get c now now2 key i)) =
     (if cache_exists c now key i then cache_abs i else (cache_abs i)(full_key c key := None)) \<and>
   hits (fst (cache_get c now now2 key i)) + misses (fst (cache_get c now now2 key i)) =
     hits i + misses i + 1"
  by (auto simp: cache_get_def cache_exists_def cache_abs_def Let_def fun_eq_iff drop_entry_def
      map_option_case split: option.splits)

text \<open>Purging removes exactly the entries whose expiry lies before the given time,
  keeps every other entry as it is, and reports the number removed.\<close>

theorem purge_expired_exact:
  assumes "cache_inv i"
  shows "entries (fst (purge_expired ord now i)) =
      filter (\<lambda>p. now \<le> expires_at (snd p)) (entries i) \<and>
    snd (purge_expired ord now i) =
      length (filter (\<lambda>p. expires_at (snd p) < now) (entries i)) \<and>
    cache_inv (fst (purge_expired ord now i))"
proof -
  have keep: "fst p \<in> set (expired_keys ord now i) \<longleftrightarrow> expires_at (snd p) < now"
    if p: "p \<in> set (entries i)" for p
  proof -
    have "inj_on fst (set (entries i))"
      using assms by (simp add: cache_inv_with_def distinct_map)
    then show ?thesis
      using p by (auto simp: expired_keys_def inj_on_def image_iff)
        (metis prod.collapse fst_conv snd_conv)+
  qed
  have e: "entries (fst (purge_expired ord now i)) = filter (\<lambda>p. now \<le> expires_at (snd p)) (entries i)"
    using keep by (auto simp: purge_expired_def Let_def fold_drop_entries intro!: filter_cong)
  moreover have "length (filter (\<lambda>p. expires_at (snd p) < now) (entries i)) +
      length (filter (\<lambda>p. now \<le> expires_at (snd p)) (entries i)) = length (entries i)"
    using sum_length_filter_compl [of "\<lambda>p. expires_at (snd p) < now" "entries i"]
    by (simp add: not_less)
  ultimately show ?thesis
    using assms fold_drop_inv by (auto simp: purge_expired_def Let_def)
qed

theorem purge_expired_exact_witness:
  "entries (fst (purge_expired id 300000000001 sample_inner)) = [] \<and>
   snd (purge_expired id 300000000001 sample_inner) = 2"
  using purge_expired_exact [OF sample_inner_inv, of id 300000000001]
  by (simp add: sample_inner_def sample_cache_def store_entry_def cache_inner_new_def full_key_def
      hm_insert_def hm_remove_def Let_def)

end
