(* ===== verification/Queue.thy ===== *)
theory Queue
  imports Bus
begin

text \<open>
  \<^verbatim>\<open>queue-shim/src/lib.rs\<close>: the job queue with retries and a dead-letter queue.
  The calls on the shim are state transformers; \<^verbatim>\<open>fail_job\<close> is in two parts,
  because it releases the lock while it sleeps.  The loop of a worker task is
  in three parts, one per section in which it holds the lock, and the workers
  run interleaved with each other and with producers as a step relation.

  Time stamps, which the code stores as RFC 3339 strings and parses back, are
  kept as times.  The result of the handler is the outcome of the step.
\<close>

section \<open>Data and calls\<close>

definition DEFAULT_JOB_TIMEOUT_SECS :: nat where
  "DEFAULT_JOB_TIMEOUT_SECS = 300"

datatype job_status = Pending | Running | Completed | Failed | Retrying | Dead

record job =
  job_id :: string
  job_name :: string
  job_payload :: "u8 list"
  status :: job_status
  attempts :: nat
  job_max_retries :: nat
  job_created_at :: time
  started_at :: "time option"
  last_error :: "string option"

record archived_job =
  aj_job :: job
  reason :: string

record queue_inner =
  pending :: "job list"
  running_jobs :: "job list"
  dead_letter_queue :: "archived_job list"
  active :: bool

record queue_shim =
  max_workers :: nat
  max_retries :: nat
  retry_base_secs :: u64
  retry_max_secs :: u64
  job_timeout_secs :: nat
  jobs_enqueued :: nat
  jobs_processed :: nat
  jobs_failed :: nat
  jobs_retried :: nat
  jobs_dead :: nat
  inner :: queue_inner
  shutdown_sent :: "bool option"

definition queue_shim_new :: "env \<Rightarrow> queue_shim" where
  "queue_shim_new env =
    \<lparr>max_workers = env_uint 32 env ''QUEUE_MAX_WORKERS'' 4,
     max_retries = env_uint 32 env ''QUEUE_MAX_RETRIES'' 3,
     retry_base_secs = of_nat (env_uint 64 env ''QUEUE_RETRY_BASE_SECS'' 5),
     retry_max_secs = of_nat (env_uint 64 env ''QUEUE_RETRY_MAX_SECS'' 300),
     job_timeout_secs = env_uint 64 env ''QUEUE_JOB_TIMEOUT_SECS'' DEFAULT_JOB_TIMEOUT_SECS,
     jobs_enqueued = 0, jobs_processed = 0, jobs_failed = 0, jobs_retried = 0, jobs_dead = 0,
     inner = \<lparr>pending = [], running_jobs = [], dead_letter_queue = [], active = False\<rparr>,
     shutdown_sent = None\<rparr>"

definition new_job :: "queue_shim \<Rightarrow> string \<Rightarrow> time \<Rightarrow> string \<Rightarrow> u8 list \<Rightarrow> job" where
  "new_job q uid now nm pl =
    \<lparr>job_id = uid, job_name = nm, job_payload = pl, status = Pending, attempts = 0,
     job_max_retries = max_retries q, job_created_at = now, started_at = None, last_error = None\<rparr>"

definition push_pending :: "job \<Rightarrow> queue_inner \<Rightarrow> queue_inner" where
  "push_pending j i = i\<lparr>pending := pending i @ [j]\<rparr>"

definition enqueue ::
  "string \<Rightarrow> time \<Rightarrow> string \<Rightarrow> u8 list \<Rightarrow> queue_shim \<Rightarrow> queue_shim \<times> string" where
  "enqueue uid now nm pl q =
    (q\<lparr>inner := push_pending (new_job q uid now nm pl) (inner q),
       jobs_enqueued := jobs_enqueued q + 1\<rparr>, uid)"

definition dequeue :: "time \<Rightarrow> queue_shim \<Rightarrow> job option \<times> queue_shim" where
  "dequeue now q =
    (let i = inner q in
     if length (running_jobs i) < max_workers q then
       (case pending i of
          j # js \<Rightarrow>
            (let j' = j\<lparr>status := Running, started_at := Some now\<rparr>
             in (Some j', q\<lparr>inner := i\<lparr>pending := js, running_jobs := running_jobs i @ [j']\<rparr>\<rparr>))
        | [] \<Rightarrow> (None, q))
     else (None, q))"

definition not_found :: "string \<Rightarrow> string" where
  "not_found jid = ''Job '' @ jid @ '' not found in running state''"

definition complete_job :: "string \<Rightarrow> queue_shim \<Rightarrow> queue_shim \<times> (string + unit)" where
  "complete_job jid q =
    (let i = inner q in
     case find (\<lambda>j. job_id j = jid) (running_jobs i) of
       Some j \<Rightarrow>
         (q\<lparr>inner := i\<lparr>running_jobs := remove_first (\<lambda>j. job_id j = jid) (running_jobs i)\<rparr>,
            jobs_processed := jobs_processed q + 1\<rparr>, Inr ())
     | None \<Rightarrow> (q, Inl (not_found jid)))"

text \<open>\<^verbatim>\<open>self.retry_base_secs * 2u32.saturating_pow(attempt.min(31)) as u64\<close>: the power is
  computed at 32 bits (it does not saturate, the exponent being at most 31), the product
  wraps at 64 bits.\<close>

definition retry_delay :: "queue_shim \<Rightarrow> nat \<Rightarrow> u64" where
  "retry_delay q attempt =
    (let pow = min (2 ^ 32 - 1) (2 ^ min attempt 31);
         delay_secs = retry_base_secs q * of_nat pow
     in min delay_secs (retry_max_secs q))"

datatype fail_outcome =
    FailRetry job u64
  | FailDead
  | FailNotFound string

definition fail_job_begin :: "string \<Rightarrow> string \<Rightarrow> queue_shim \<Rightarrow> queue_shim \<times> fail_outcome" where
  "fail_job_begin jid err q =
    (let i = inner q in
     case find (\<lambda>j. job_id j = jid) (running_jobs i) of
       Some j0 \<Rightarrow>
         (let i1 = i\<lparr>running_jobs := remove_first (\<lambda>j. job_id j = jid) (running_jobs i)\<rparr>;
              j = j0\<lparr>attempts := attempts j0 + 1, last_error := Some err\<rparr>
          in if attempts j \<le> job_max_retries j then
               (q\<lparr>inner := i1, jobs_retried := jobs_retried q + 1\<rparr>,
                FailRetry (j\<lparr>status := Retrying\<rparr>) (retry_delay q (attempts j - 1)))
             else
               (q\<lparr>inner := i1\<lparr>dead_letter_queue := dead_letter_queue i1 @
                     [\<lparr>aj_job = j\<lparr>status := Dead\<rparr>,
                       reason = ''Exceeded '' @ show_nat (max_retries q) @ '' retries: '' @ err\<rparr>]\<rparr>,
                  jobs_failed := jobs_failed q + 1, jobs_dead := jobs_dead q + 1\<rparr>, FailDead))
     | None \<Rightarrow> (q, FailNotFound (not_found jid)))"

definition fail_job_resume :: "job \<Rightarrow> queue_shim \<Rightarrow> queue_shim" where
  "fail_job_resume j q =
     q\<lparr>inner := push_pending (j\<lparr>status := Pending, started_at := None\<rparr>) (inner q)\<rparr>"

definition fail_job :: "string \<Rightarrow> string \<Rightarrow> queue_shim \<Rightarrow> queue_shim \<times> (string + job_status)" where
  "fail_job jid err q =
    (case fail_job_begin jid err q of
       (q1, FailRetry j d) \<Rightarrow> (fail_job_resume j q1, Inr Retrying)
     | (q1, FailDead) \<Rightarrow> (q1, Inr Dead)
     | (q1, FailNotFound m) \<Rightarrow> (q1, Inl m))"

definition queue_depth :: "queue_shim \<Rightarrow> nat" where
  "queue_depth q = length (pending (inner q)) + length (running_jobs (inner q))"

definition dlq_length :: "queue_shim \<Rightarrow> nat" where
  "dlq_length q = length (dead_letter_queue (inner q))"

definition drain_dlq :: "queue_shim \<Rightarrow> queue_shim \<times> archived_job list" where
  "drain_dlq q = (q\<lparr>inner := (inner q)\<lparr>dead_letter_queue := []\<rparr>\<rparr>, dead_letter_queue (inner q))"

definition running_count :: "queue_shim \<Rightarrow> nat" where
  "running_count q = length (running_jobs (inner q))"

definition pending_count :: "queue_shim \<Rightarrow> nat" where
  "pending_count q = length (pending (inner q))"

definition queue_start :: "queue_shim \<Rightarrow> queue_shim" where
  "queue_start q = q\<lparr>shutdown_sent := Some False, inner := (inner q)\<lparr>active := True\<rparr>\<rparr>"

definition queue_stop :: "queue_shim \<Rightarrow> queue_shim" where
  "queue_stop q =
    (let q1 = (case shutdown_sent q of Some b \<Rightarrow> q\<lparr>shutdown_sent := None\<rparr> | None \<Rightarrow> q)
     in q1\<lparr>inner := (inner q1)\<lparr>active := False\<rparr>\<rparr>)"

definition queue_metrics :: "queue_shim \<Rightarrow> metric list" where
  "queue_metrics q =
    [(''queue_enqueued_total'', of_nat (jobs_enqueued q)),
     (''queue_processed_total'', of_nat (jobs_processed q)),
     (''queue_failed_total'', of_nat (jobs_failed q)),
     (''queue_retried_total'', of_nat (jobs_retried q)),
     (''queue_dead_total'', of_nat (jobs_dead q))]"

section \<open>Workers\<close>

text \<open>A worker is at the top of its loop, holds a job it has taken, or has left the loop.\<close>

datatype worker = WIdle | WHolding job | WStopped

definition exceeded :: "nat \<Rightarrow> time \<Rightarrow> time option \<Rightarrow> bool" where
  "exceeded timeout now st =
    (case st of None \<Rightarrow> False
     | Some t \<Rightarrow> timeout < as_u64 (num_seconds (now - t)))"

definition dead_letter :: "job \<Rightarrow> string \<Rightarrow> string \<Rightarrow> queue_shim \<Rightarrow> queue_shim" where
  "dead_letter j err why q =
    (let i = inner q in
     q\<lparr>inner := i\<lparr>dead_letter_queue := dead_letter_queue i @
          [\<lparr>aj_job = j\<lparr>status := Dead, last_error := Some err\<rparr>, reason = why\<rparr>]\<rparr>,
       jobs_dead := jobs_dead q + 1\<rparr>)"

text \<open>First section: take the next pending job; \<^verbatim>\<open>now\<close> and \<^verbatim>\<open>now2\<close> are the two clock reads.\<close>

definition worker_take :: "time \<Rightarrow> time \<Rightarrow> queue_shim \<Rightarrow> queue_shim \<times> worker" where
  "worker_take now now2 q =
    (let i = inner q in
     case pending i of
       [] \<Rightarrow> (q, WIdle)
     | j # js \<Rightarrow>
         (let q1 = q\<lparr>inner := i\<lparr>pending := js\<rparr>\<rparr> in
          if exceeded (job_timeout_secs q) now (started_at j) then
            (dead_letter j ''Job timed out in queue'' ''Timed out waiting for processing'' q1, WIdle)
          else
            (let j' = j\<lparr>status := Running, started_at := Some now2\<rparr>
             in (q1\<lparr>inner := (inner q1)\<lparr>running_jobs := running_jobs (inner q1) @ [j']\<rparr>\<rparr>,
                 WHolding j'))))"

definition forget_running :: "job \<Rightarrow> queue_shim \<Rightarrow> queue_shim" where
  "forget_running j q =
    (let i = inner q in
     q\<lparr>inner := i\<lparr>running_jobs := remove_first (\<lambda>x. job_id x = job_id j) (running_jobs i)\<rparr>\<rparr>)"

text \<open>Second section: the job is given up when its start lies too far back already.\<close>

definition worker_expire :: "job \<Rightarrow> queue_shim \<Rightarrow> queue_shim" where
  "worker_expire j q =
     dead_letter j ''Job execution timed out'' ''Execution timed out'' (forget_running j q)"

text \<open>Third section, after the handler has returned \<^verbatim>\<open>result\<close>.\<close>

definition worker_finish :: "string + unit \<Rightarrow> job \<Rightarrow> queue_shim \<Rightarrow> queue_shim" where
  "worker_finish result j q =
    (let q1 = forget_running j q in
     case result of
       Inr _ \<Rightarrow> q1\<lparr>jobs_processed := jobs_processed q1 + 1\<rparr>
     | Inl e \<Rightarrow>
         (let j1 = j\<lparr>attempts := attempts j + 1, last_error := Some e\<rparr> in
          if attempts j1 \<le> max_retries q1 then
            q1\<lparr>jobs_retried := jobs_retried q1 + 1,
               inner := push_pending (j1\<lparr>status := Pending, started_at := None\<rparr>) (inner q1)\<rparr>
          else
            (let q2 = dead_letter j1 e (''Exceeded retries: '' @ e) q1
             in q2\<lparr>jobs_failed := jobs_failed q2 + 1\<rparr>)))"

text \<open>The pass of one worker between two visits of the top of its loop, without interference.\<close>

definition worker_pass ::
  "time \<Rightarrow> time \<Rightarrow> time \<Rightarrow> (job \<Rightarrow> string + unit) \<Rightarrow> queue_shim \<Rightarrow> queue_shim" where
  "worker_pass now now2 now3 handler q =
    (case worker_take now now2 q of
       (q1, WHolding j) \<Rightarrow>
         if exceeded (job_timeout_secs q1) now3 (started_at j) then worker_expire j q1
         else worker_finish (handler j) j q1
     | (q1, _) \<Rightarrow> q1)"

record pool =
  shim :: queue_shim
  workers :: "worker list"
  shutdown :: bool

definition spawn_workers :: "bool \<Rightarrow> queue_shim \<Rightarrow> pool" where
  "spawn_workers has_handler q =
     \<lparr>shim = q, workers = (if has_handler then replicate (max_workers q) WIdle else []),
      shutdown = False\<rparr>"

text \<open>The steps, each with what it means for a job seen from outside: a job handed in, the
  jobs handed out by a drain, and the result of a handler.\<close>

datatype pool_event =
    Handed_In string time string "u8 list"
  | Drained "archived_job list"
  | Handled job "string + unit"
  | Internal

inductive pool_step :: "pool \<Rightarrow> pool_event \<Rightarrow> pool \<Rightarrow> bool" where
  produce: "pool_step p (Handed_In uid now nm pl) (p\<lparr>shim := fst (enqueue uid now nm pl (shim p))\<rparr>)"
| drain: "pool_step p (Drained (snd (drain_dlq (shim p)))) (p\<lparr>shim := fst (drain_dlq (shim p))\<rparr>)"
| signal: "pool_step p Internal (p\<lparr>shutdown := True\<rparr>)"
| leave: "w < length (workers p) \<Longrightarrow> workers p ! w = WIdle \<Longrightarrow> shutdown p \<Longrightarrow>
    pool_step p Internal (p\<lparr>workers := (workers p)[w := WStopped]\<rparr>)"
| take_job: "w < length (workers p) \<Longrightarrow> workers p ! w = WIdle \<Longrightarrow>
    worker_take now now2 (shim p) = (q, s) \<Longrightarrow>
    pool_step p Internal (p\<lparr>shim := q, workers := (workers p)[w := s]\<rparr>)"
| expire: "w < length (workers p) \<Longrightarrow> workers p ! w = WHolding j \<Longrightarrow>
    exceeded (job_timeout_secs (shim p)) now (started_at j) \<Longrightarrow>
    pool_step p Internal (p\<lparr>shim := worker_expire j (shim p), workers := (workers p)[w := WIdle]\<rparr>)"
| finish: "w < length (workers p) \<Longrightarrow> workers p ! w = WHolding j \<Longrightarrow>
    pool_step p (Handled j result)
      (p\<lparr>shim := worker_finish result j (shim p), workers := (workers p)[w := WIdle]\<rparr>)"

text \<open>A run and the events of its steps, in order.\<close>

inductive pool_run :: "pool \<Rightarrow> pool_event list \<Rightarrow> pool \<Rightarrow> bool" for p0 where
  base: "pool_run p0 [] p0"
| step: "pool_run p0 es p \<Longrightarrow> pool_step p e p' \<Longrightarrow> pool_run p0 (es @ [e]) p'"

inductive_cases pool_stepE: "pool_step p e p'"

section \<open>Job conservation\<close>

text \<open>Every job enqueued is pending, running, processed or dead-lettered, exactly once;
  pending jobs have not started and no job is tried more than its retries allow.\<close>

definition job_ok :: "queue_shim \<Rightarrow> job \<Rightarrow> bool" where
  "job_ok q j \<longleftrightarrow> job_max_retries j = max_retries q \<and> attempts j \<le> max_retries q"

definition queue_inv :: "queue_shim \<Rightarrow> bool" where
  "queue_inv q \<longleftrightarrow>
     jobs_enqueued q = length (pending (inner q)) + length (running_jobs (inner q))
       + jobs_processed q + jobs_dead q \<and>
     (\<forall>j \<in> set (pending (inner q)). job_ok q j \<and> started_at j = None) \<and>
     (\<forall>j \<in> set (running_jobs (inner q)). job_ok q j) \<and>
     (\<forall>a \<in> set (dead_letter_queue (inner q)). attempts (aj_job a) \<le> max_retries q + 1)"

lemmas queue_defs = queue_inv_def job_ok_def push_pending_def Let_def

lemma enqueue_inv [inv_intros]: "queue_inv q \<Longrightarrow> queue_inv (fst (enqueue uid now nm pl q))"
  by (auto simp: enqueue_def new_job_def queue_defs)

lemma dequeue_inv [inv_intros]: "queue_inv q \<Longrightarrow> queue_inv (snd (dequeue now q))"
  by (auto simp: dequeue_def queue_defs split: list.splits)

lemma drain_inv [inv_intros]: "queue_inv q \<Longrightarrow> queue_inv (fst (drain_dlq q))"
  by (auto simp: drain_dlq_def queue_defs)

lemma length_remove_found: "find P xs = Some x \<Longrightarrow> length xs = Suc (length (remove_first P xs))"
  using find_remove_first [of P xs x] by (metis size_add_mset size_mset)

lemma complete_job_inv [inv_intros]: "queue_inv q \<Longrightarrow> queue_inv (fst (complete_job jid q))"
  using set_remove_first [of "\<lambda>j. job_id j = jid" "running_jobs (inner q)"]
  by (auto simp: complete_job_def queue_defs dest!: length_remove_found split: option.splits)

lemma fail_job_inv [inv_intros]:
  assumes "queue_inv q"
  shows "queue_inv (fst (fail_job jid err q))"
proof (cases "find (\<lambda>j. job_id j = jid) (running_jobs (inner q))")
  case None
  then show ?thesis using assms by (simp add: fail_job_def fail_job_begin_def Let_def)
next
  case (Some j)
  note sub = set_remove_first [of "\<lambda>j. job_id j = jid" "running_jobs (inner q)"]
  show ?thesis
    using assms sub length_remove_found [OF Some] find_in [OF Some]
    by (auto simp: fail_job_def fail_job_begin_def fail_job_resume_def queue_defs Some)
qed

lemma start_stop_inv [inv_intros]:
  "queue_inv q \<Longrightarrow> queue_inv (queue_start q)"
  "queue_inv q \<Longrightarrow> queue_inv (queue_stop q)"
  by (auto simp: queue_start_def queue_stop_def queue_defs split: option.splits)

datatype queue_op =
    QEnqueue string time string "u8 list"
  | QDequeue time
  | QComplete string
  | QFail string string
  | QDrain
  | QStart
  | QStop

fun queue_exec :: "queue_op \<Rightarrow> queue_shim \<Rightarrow> queue_shim" where
  "queue_exec (QEnqueue uid now nm pl) q = fst (enqueue uid now nm pl q)"
| "queue_exec (QDequeue now) q = snd (dequeue now q)"
| "queue_exec (QComplete jid) q = fst (complete_job jid q)"
| "queue_exec (QFail jid err) q = fst (fail_job jid err q)"
| "queue_exec QDrain q = fst (drain_dlq q)"
| "queue_exec QStart q = queue_start q"
| "queue_exec QStop q = queue_stop q"

definition queue_bounded :: "queue_shim \<Rightarrow> bool" where
  "queue_bounded q \<longleftrightarrow> queue_inv q \<and> length (running_jobs (inner q)) \<le> max_workers q"

lemma queue_exec_running:
  "length (running_jobs (inner q)) \<le> max_workers q \<Longrightarrow>
     length (running_jobs (inner (queue_exec op q))) \<le> max_workers (queue_exec op q)"
  by (cases op) (auto simp: enqueue_def dequeue_def complete_job_def fail_job_def fail_job_begin_def
      fail_job_resume_def drain_dlq_def queue_start_def queue_stop_def push_pending_def Let_def
      length_remove_first split: list.splits option.splits)

lemma queue_exec_bounded: "queue_bounded q \<Longrightarrow> queue_bounded (queue_exec op q)"
proof -
  assume b: "queue_bounded q"
  then have "queue_inv (queue_exec op q)"
    by (cases op) (auto simp: queue_bounded_def intro: inv_intros)
  then show ?thesis
    using b queue_exec_running by (simp add: queue_bounded_def)
qed

interpretation queue_sys: op_system queue_exec queue_bounded
  by unfold_locales (rule queue_exec_bounded)

lemma queue_new_bounded: "queue_bounded (queue_shim_new env)"
  by (simp add: queue_bounded_def queue_defs queue_shim_new_def)

section \<open>Workers in parallel\<close>

fun held_by :: "worker \<Rightarrow> job list" where
  "held_by (WHolding j) = [j]"
| "held_by _ = []"

definition held :: "worker list \<Rightarrow> job list" where
  "held ws = concat (map held_by ws)"

lemma held_split:
  "w < length ws \<Longrightarrow> held ws = held (take w ws) @ held_by (ws ! w) @ held (drop (Suc w) ws)"
  by (subst (1) id_take_nth_drop [of w ws]) (simp_all add: held_def)

lemma held_update:
  "w < length ws \<Longrightarrow> held (ws[w := s]) = held (take w ws) @ held_by s @ held (drop (Suc w) ws)"
  by (simp add: upd_conv_take_nth_drop held_def)

lemma length_held: "length (held ws) \<le> length ws"
proof (induction ws)
  case (Cons a ws)
  then show ?case by (cases a) (auto simp: held_def)
qed (simp add: held_def)

lemma set_held_update: "set (held (ws[w := s])) \<subseteq> set (held ws) \<union> set (held_by s)"
proof -
  have "set (ws[w := s]) \<subseteq> insert s (set ws)"
    by (rule set_update_subset_insert)
  then show ?thesis by (auto simp: held_def)
qed

definition pool_inv :: "pool \<Rightarrow> bool" where
  "pool_inv p \<longleftrightarrow>
     queue_inv (shim p) \<and>
     length (workers p) \<le> max_workers (shim p) \<and>
     (\<forall>j \<in> set (held (workers p)). job_ok (shim p) j) \<and>
     mset (map job_id (running_jobs (inner (shim p)))) = mset (map job_id (held (workers p)))"

lemma pool_running_le: "pool_inv p \<Longrightarrow> length (running_jobs (inner (shim p))) \<le> max_workers (shim p)"
  using length_held [of "workers p"] unfolding pool_inv_def
  by (metis length_map mset_eq_length order_trans)

lemma pool_inv_spawn: "queue_inv q \<Longrightarrow> running_jobs (inner q) = [] \<Longrightarrow> pool_inv (spawn_workers b q)"
  by (simp add: pool_inv_def spawn_workers_def held_def)

text \<open>What each locked section of a worker does to the counts.\<close>

lemma worker_take_cases:
  assumes "queue_inv q" "worker_take now now2 q = (q', s)"
  obtains "pending (inner q) = []" "q' = q" "s = WIdle"
  | j js j' where "pending (inner q) = j # js" "j' = j\<lparr>status := Running, started_at := Some now2\<rparr>"
      "s = WHolding j'"
      "q' = q\<lparr>inner := (inner q)\<lparr>pending := js, running_jobs := running_jobs (inner q) @ [j']\<rparr>\<rparr>"
proof (cases "pending (inner q)")
  case Nil
  then have "q' = q \<and> s = WIdle"
    using assms(2) by (auto simp: worker_take_def)
  then show thesis using Nil by (intro that(1)) simp_all
next
  case (Cons j js)
  then have "started_at j = None"
    using assms(1) by (simp add: queue_inv_def)
  then have "(q\<lparr>inner := (inner q)\<lparr>pending := js, running_jobs := running_jobs (inner q) @
        [j\<lparr>status := Running, started_at := Some now2\<rparr>]\<rparr>\<rparr>,
      WHolding (j\<lparr>status := Running, started_at := Some now2\<rparr>)) = (q', s)"
    using Cons assms(2) by (simp add: worker_take_def exceeded_def Let_def)
  then show thesis
    using Cons by (intro that(2)) auto
qed

lemma worker_take_pool_inv:
  assumes "pool_inv p" "w < length (workers p)" "workers p ! w = WIdle"
    and "worker_take now now2 (shim p) = (q, s)"
  shows "pool_inv (p\<lparr>shim := q, workers := (workers p)[w := s]\<rparr>)"
proof -
  have inv: "queue_inv (shim p)"
    using assms(1) by (simp add: pool_inv_def)
  show ?thesis
    using inv assms(4)
  proof (cases rule: worker_take_cases)
    case 1
    then show ?thesis
      using assms list_update_id [of "workers p" w] by simp
  next
    case (2 j js j')
    then have "queue_inv q"
      using inv by (auto simp: queue_inv_def job_ok_def)
    moreover have "mset (map job_id (running_jobs (inner q))) = mset (map job_id (held ((workers p)[w := s])))"
      using assms(1,2,3) 2 held_split [OF assms(2)] held_update [OF assms(2), of s]
      by (simp add: pool_inv_def)
    moreover have "job_ok q x" if "x \<in> set (held ((workers p)[w := s]))" for x
    proof -
      have "x \<in> set (held (workers p)) \<or> x = j'"
        using that set_held_update [of "workers p" w s] 2 by auto
      then show ?thesis
        using 2 assms(1) inv by (auto simp: pool_inv_def queue_inv_def job_ok_def)
    qed
    ultimately show ?thesis
      using assms(1) 2 by (simp add: pool_inv_def)
  qed
qed

lemma forget_running_held:
  assumes "pool_inv p" "w < length (workers p)" "workers p ! w = WHolding j"
  defines "i' \<equiv> inner (forget_running j (shim p))"
  shows "length (running_jobs (inner (shim p))) = Suc (length (running_jobs i'))"
    and "mset (map job_id (running_jobs i')) = mset (map job_id (held ((workers p)[w := WIdle])))"
    and "job_ok (shim p) j"
proof -
  let ?ids = "mset (map job_id (running_jobs (inner (shim p))))"
  have ids: "?ids = add_mset (job_id j) (mset (map job_id (held ((workers p)[w := WIdle]))))"
    using assms(1-3) by (simp add: pool_inv_def held_split [of w "workers p"] held_update)
  have run: "running_jobs i' =
      remove_first (\<lambda>x. job_id x = job_id j) (running_jobs (inner (shim p)))"
    by (simp add: i'_def forget_running_def Let_def)
  have eq: "mset (map job_id (running_jobs i')) = ?ids - {#job_id j#}"
    by (simp only: run mset_map_remove_first)
  then show "mset (map job_id (running_jobs i')) = mset (map job_id (held ((workers p)[w := WIdle])))"
    using ids by simp
  then have "size ?ids = Suc (size (mset (map job_id (running_jobs i'))))"
    using ids by simp
  then show "length (running_jobs (inner (shim p))) = Suc (length (running_jobs i'))"
    by simp
  have "j \<in> set (held (workers p))"
    using assms(2,3) by (simp add: held_split [of w "workers p"])
  then show "job_ok (shim p) j"
    using assms(1) by (simp add: pool_inv_def)
qed

lemma forget_running_fields [simp]:
  "pending (inner (forget_running j q)) = pending (inner q)"
  "dead_letter_queue (inner (forget_running j q)) = dead_letter_queue (inner q)"
  "jobs_enqueued (forget_running j q) = jobs_enqueued q"
  "jobs_processed (forget_running j q) = jobs_processed q"
  "jobs_dead (forget_running j q) = jobs_dead q"
  "max_retries (forget_running j q) = max_retries q"
  "max_workers (forget_running j q) = max_workers q"
  by (simp_all add: forget_running_def Let_def)

lemma forget_running_subset:
  "x \<in> set (running_jobs (inner (forget_running j q))) \<Longrightarrow> x \<in> set (running_jobs (inner q))"
  using set_remove_first [of "\<lambda>x. job_id x = job_id j" "running_jobs (inner q)"]
  by (auto simp: forget_running_def Let_def)

lemma worker_finish_pool_inv:
  assumes "pool_inv p" "w < length (workers p)" "workers p ! w = WHolding j"
  shows "pool_inv (p\<lparr>shim := worker_finish result j (shim p), workers := (workers p)[w := WIdle]\<rparr>)"
proof -
  note held = forget_running_held [OF assms]
  have sub: "x \<in> set (held (workers p))" if "x \<in> set (held ((workers p)[w := WIdle]))" for x
    using that set_held_update [of "workers p" w WIdle] by auto
  show ?thesis
    using assms(1) held sub
    by (auto simp: pool_inv_def worker_finish_def dead_letter_def queue_defs
        dest: forget_running_subset split: sum.splits)
qed

lemma worker_expire_pool_inv:
  assumes "pool_inv p" "w < length (workers p)" "workers p ! w = WHolding j"
  shows "pool_inv (p\<lparr>shim := worker_expire j (shim p), workers := (workers p)[w := WIdle]\<rparr>)"
proof -
  note held = forget_running_held [OF assms]
  have sub: "x \<in> set (held (workers p))" if "x \<in> set (held ((workers p)[w := WIdle]))" for x
    using that set_held_update [of "workers p" w WIdle] by auto
  show ?thesis
    using assms(1) held sub
    by (auto simp: pool_inv_def worker_expire_def dead_letter_def queue_defs dest: forget_running_subset)
qed

lemma pool_step_inv: "pool_step p e p' \<Longrightarrow> pool_inv p \<Longrightarrow> pool_inv p'"
proof (induction rule: pool_step.induct)
  case (produce p uid now nm pl)
  then show ?case
    using enqueue_inv [of "shim p" uid now nm pl]
    by (auto simp: pool_inv_def enqueue_def push_pending_def job_ok_def)
next
  case (drain p)
  then show ?case
    using drain_inv [of "shim p"] by (auto simp: pool_inv_def drain_dlq_def job_ok_def)
next
  case (leave w p)
  then show ?case
    by (auto simp: pool_inv_def held_split [of w "workers p"] held_update)
next
  case (signal p)
  then show ?case by (simp add: pool_inv_def)
qed (auto intro: worker_take_pool_inv worker_finish_pool_inv worker_expire_pool_inv)

lemma pool_run_inv: "pool_run p0 es p \<Longrightarrow> pool_inv p0 \<Longrightarrow> pool_inv p"
  by (induction rule: pool_run.induct) (auto intro: pool_step_inv)

lemma pool_step_config:
  "pool_step p e p' \<Longrightarrow> max_workers (shim p') = max_workers (shim p) \<and> max_retries (shim p') = max_retries (shim p)"
  by (induction rule: pool_step.induct)
    (auto simp: enqueue_def drain_dlq_def worker_take_def worker_finish_def worker_expire_def
      dead_letter_def forget_running_def Let_def split: list.splits if_splits sum.splits)

lemma pool_run_config:
  "pool_run p0 es p \<Longrightarrow>
     max_workers (shim p) = max_workers (shim p0) \<and> max_retries (shim p) = max_retries (shim p0)"
  by (induction rule: pool_run.induct) (auto dest: pool_step_config)

section \<open>Where every job is\<close>

text \<open>What a job keeps from the moment it is handed in; the jobs handed in, handled with
  success and drained in a run; and those that are in the queue or with a worker.\<close>

type_synonym job_key = "string \<times> time \<times> string \<times> u8 list"

definition job_key :: "job \<Rightarrow> job_key" where
  "job_key j = (job_id j, job_created_at j, job_name j, job_payload j)"

fun handed_in :: "pool_event \<Rightarrow> job_key list" where
  "handed_in (Handed_In uid now nm pl) = [(uid, now, nm, pl)]"
| "handed_in _ = []"

fun succeeded :: "pool_event \<Rightarrow> job_key list" where
  "succeeded (Handled j (Inr _)) = [job_key j]"
| "succeeded _ = []"

fun drained :: "pool_event \<Rightarrow> job_key list" where
  "drained (Drained as) = map (job_key \<circ> aj_job) as"
| "drained _ = []"

definition keys_of :: "(pool_event \<Rightarrow> job_key list) \<Rightarrow> pool_event list \<Rightarrow> job_key list" where
  "keys_of f es = concat (map f es)"

definition pending_keys :: "pool \<Rightarrow> job_key list" where
  "pending_keys p = map job_key (pending (inner (shim p)))"

definition worker_keys :: "pool \<Rightarrow> job_key list" where
  "worker_keys p = map job_key (held (workers p))"

definition dead_keys :: "pool \<Rightarrow> job_key list" where
  "dead_keys p = map (job_key \<circ> aj_job) (dead_letter_queue (inner (shim p)))"

lemma job_key_upd [simp]:
  "job_key (j\<lparr>status := st\<rparr>) = job_key j" "job_key (j\<lparr>attempts := n\<rparr>) = job_key j"
  "job_key (j\<lparr>started_at := t\<rparr>) = job_key j" "job_key (j\<lparr>last_error := e\<rparr>) = job_key j"
  by (simp_all add: job_key_def)

lemmas key_defs = pending_keys_def worker_keys_def dead_keys_def

lemma worker_keys_idle:
  "w < length (workers p) \<Longrightarrow> workers p ! w = WHolding j \<Longrightarrow>
     image_mset job_key (mset (held (workers p))) =
       add_mset (job_key j) (image_mset job_key (mset (held ((workers p)[w := WIdle]))))"
  by (simp add: held_split [of w "workers p"] held_update)

lemma pool_step_keys:
  assumes "pool_step p e p'" "pool_inv p"
  shows "mset (pending_keys p' @ worker_keys p' @ dead_keys p' @ succeeded e @ drained e)
    = mset (pending_keys p @ worker_keys p @ dead_keys p @ handed_in e)"
  using assms
proof (induction rule: pool_step.induct)
  case (produce p uid now nm pl)
  then show ?case by (simp add: key_defs enqueue_def push_pending_def new_job_def job_key_def)
next
  case (drain p)
  then show ?case by (simp add: key_defs drain_dlq_def)
next
  case (signal p)
  then show ?case by (simp add: key_defs)
next
  case (leave w p)
  then show ?case by (simp add: key_defs held_split [of w "workers p"] held_update)
next
  case (take_job w p now now2 q s)
  have inv: "queue_inv (shim p)"
    using take_job by (simp add: pool_inv_def)
  show ?case
    using inv take_job(3)
  proof (cases rule: worker_take_cases)
    case 1
    then show ?thesis using take_job list_update_id [of "workers p" w] by (simp add: key_defs)
  next
    case 2
    then show ?thesis using take_job by (simp add: key_defs held_split [of w "workers p"] held_update)
  qed
next
  case (expire w p j now)
  then show ?case
    by (simp add: key_defs worker_keys_idle worker_expire_def dead_letter_def Let_def)
next
  case (finish w p j result)
  then show ?case
    by (cases result)
      (simp_all add: key_defs worker_keys_idle worker_finish_def dead_letter_def push_pending_def Let_def)
qed

lemma pool_run_keys:
  assumes "pool_run p0 es p" "pool_inv p0"
  shows "mset (pending_keys p @ worker_keys p @ dead_keys p @ keys_of succeeded es @ keys_of drained es)
    = mset (pending_keys p0 @ worker_keys p0 @ dead_keys p0 @ keys_of handed_in es)"
  using assms
proof (induction rule: pool_run.induct)
  case base
  then show ?case by (simp add: keys_of_def)
next
  case (step es p e p')
  have "pool_inv p"
    using step.hyps(1) step.prems by (rule pool_run_inv)
  let ?in = "\<lambda>p. mset (pending_keys p) + mset (worker_keys p) + mset (dead_keys p)"
  let ?out = "\<lambda>es. mset (keys_of succeeded es) + mset (keys_of drained es)"
  have "?in p' + ?out (es @ [e]) = (?in p' + mset (succeeded e) + mset (drained e)) + ?out es"
    by (simp add: keys_of_def ac_simps)
  also have "?in p' + mset (succeeded e) + mset (drained e) = ?in p + mset (handed_in e)"
    using pool_step_keys [OF step.hyps(2) \<open>pool_inv p\<close>] by (simp add: ac_simps)
  also have "?in p + mset (handed_in e) + ?out es = (?in p + ?out es) + mset (handed_in e)"
    by (simp only: ac_simps)
  also have "?in p + ?out es = ?in p0 + mset (keys_of handed_in es)"
    using step.IH [OF step.prems] by (simp add: ac_simps)
  finally show ?case
    by (simp add: keys_of_def ac_simps)
qed

section \<open>First in, first out\<close>

definition enqueue_rec :: "string \<times> time \<times> string \<times> u8 list \<Rightarrow> queue_shim \<Rightarrow> queue_shim" where
  "enqueue_rec r q = (case r of (uid, now, nm, pl) \<Rightarrow> fst (enqueue uid now nm pl q))"

definition dequeue_id :: "time \<Rightarrow> queue_shim \<Rightarrow> string option \<times> queue_shim" where
  "dequeue_id now q = (case dequeue now q of (r, q') \<Rightarrow> (map_option job_id r, q'))"

definition pending_ids :: "queue_shim \<Rightarrow> string list" where
  "pending_ids q = map job_id (pending (inner q))"

interpretation job_fifo: fifo pending_ids enqueue_rec "dequeue_id now" fst
  by unfold_locales
    (auto simp: pending_ids_def enqueue_rec_def enqueue_def push_pending_def new_job_def dequeue_id_def
      dequeue_def Let_def split: prod.splits if_splits list.splits)

section \<open>Properties\<close>

definition sample_queue :: queue_shim where
  "sample_queue = queue_shim_new (\<lambda>_. None)"

definition one_job_pool :: pool where
  "one_job_pool = (let q = fst (enqueue ''j1'' 0 ''mail'' [] sample_queue) in
     \<lparr>shim = q, workers = replicate 4 WIdle, shutdown = False\<rparr>)"

lemma one_job_run: "pool_run (spawn_workers True sample_queue) [Handed_In ''j1'' 0 ''mail'' []] one_job_pool"
proof -
  have "pool_step (spawn_workers True sample_queue) (Handed_In ''j1'' 0 ''mail'' []) one_job_pool"
    using pool_step.produce [of "spawn_workers True sample_queue" "''j1''" 0 "''mail''" "[]"]
    by (simp add: one_job_pool_def spawn_workers_def sample_queue_def queue_shim_new_def env_uint_def)
  then show ?thesis
    using pool_run.step [OF pool_run.base] by fastforce
qed

text \<open>C6: No job is lost or duplicated by producers, drains and any number of workers, interleaved
  step by step (while the other public calls are not used): in every reachable state the jobs
  that were waiting at the start or have been handed in since, each by its identifier, creation time,
  name and payload, are exactly those waiting, held by a worker, in the dead-letter queue, handled
  with success and drained, each as often; the running list holds exactly the
  identifiers of the jobs the workers hold; the counters agree; no more jobs run than
  there are workers, and no job has been tried more than \<^verbatim>\<open>max_retries + 1\<close> times.\<close>

theorem pool_conserves_jobs:
  assumes "queue_inv q" "running_jobs (inner q) = []"
    and "pool_run (spawn_workers has_handler q) es p"
  shows "mset (map job_key (pending (inner q))) + mset (map (job_key \<circ> aj_job) (dead_letter_queue (inner q)))
      + mset (keys_of handed_in es)
    = mset (pending_keys p) + mset (worker_keys p) + mset (dead_keys p)
      + mset (keys_of succeeded es) + mset (keys_of drained es) \<and>
    mset (map job_id (running_jobs (inner (shim p)))) = mset (map job_id (held (workers p))) \<and>
    jobs_enqueued (shim p) = pending_count (shim p) + running_count (shim p)
      + jobs_processed (shim p) + jobs_dead (shim p) \<and>
    running_count (shim p) \<le> max_workers q \<and>
    (\<forall>j \<in> set (pending (inner (shim p)) @ running_jobs (inner (shim p))). attempts j \<le> max_retries q) \<and>
    (\<forall>a \<in> set (dead_letter_queue (inner (shim p))). attempts (aj_job a) \<le> max_retries q + 1)"
proof -
  have inv0: "pool_inv (spawn_workers has_handler q)"
    using assms(1,2) by (rule pool_inv_spawn)
  have inv: "pool_inv p"
    using assms(3) inv0 by (rule pool_run_inv)
  have cfg: "max_workers (shim p) = max_workers q" "max_retries (shim p) = max_retries q"
    using pool_run_config [OF assms(3)] by (simp_all add: spawn_workers_def)
  have "pending_keys (spawn_workers has_handler q) = map job_key (pending (inner q))"
    "dead_keys (spawn_workers has_handler q) = map (job_key \<circ> aj_job) (dead_letter_queue (inner q))"
    "worker_keys (spawn_workers has_handler q) = []"
    by (simp_all add: key_defs spawn_workers_def held_def)
  then show ?thesis
    using pool_run_keys [OF assms(3) inv0] inv pool_running_le [OF inv] cfg
    by (auto simp: pool_inv_def queue_inv_def job_ok_def pending_count_def running_count_def ac_simps)
qed

theorem pool_conserves_jobs_witness:
  "jobs_enqueued (shim one_job_pool) = 1 \<and>
   mset (pending_keys one_job_pool) = {#(''j1'', 0, ''mail'', [])#} \<and> running_count (shim one_job_pool) \<le> 4"
proof -
  have q: "queue_inv sample_queue" "running_jobs (inner sample_queue) = []" "max_workers sample_queue = 4"
    "pending (inner sample_queue) = []" "dead_letter_queue (inner sample_queue) = []"
    by (simp_all add: sample_queue_def queue_shim_new_def queue_inv_def env_uint_def)
  moreover have "jobs_enqueued (shim one_job_pool) = 1" "held (workers one_job_pool) = []"
    "dead_letter_queue (inner (shim one_job_pool)) = []"
    by (simp_all add: one_job_pool_def enqueue_def push_pending_def sample_queue_def queue_shim_new_def held_def)
  ultimately show ?thesis
    using pool_conserves_jobs [OF _ _ one_job_run] by (simp add: keys_of_def worker_keys_def dead_keys_def)
qed

text \<open>Under the shim's own calls (enqueue, dequeue, complete, fail, drain, start, stop in
  any order) jobs are conserved, pending jobs have not started, and at most
  \<^verbatim>\<open>max_workers\<close> jobs are running.\<close>

theorem queue_run_bounded:
  "queue_bounded (fold queue_exec ops (queue_shim_new env))"
  by (rule queue_sys.fold_inv) (rule queue_new_bounded)

text \<open>Over any sequence of enqueue and dequeue calls, the identifiers handed out,
  followed by those still pending, are the initial pending ones followed by those enqueued:
  jobs leave in the order they came and none is lost or invented.\<close>

theorem dequeue_fifo:
  "fst (drive enqueue_rec (dequeue_id now) ops q) @ pending_ids (snd (drive enqueue_rec (dequeue_id now) ops q))
     = pending_ids q @ map fst (puts_of ops)"
  by (rule job_fifo.drive_order)

text \<open>Failing a running job removes it from the running set and either puts it
  back at the end of the queue, with one more attempt and no start time, while its retries
  last, or moves it to the dead-letter queue; an unknown job is an error and changes
  nothing.\<close>

theorem fail_job_outcome:
  "(case find (\<lambda>j. job_id j = jid) (running_jobs (inner q)) of
      None \<Rightarrow> fail_job jid err q = (q, Inl (not_found jid))
    | Some j \<Rightarrow>
        running_jobs (inner (fst (fail_job jid err q))) =
          remove_first (\<lambda>j. job_id j = jid) (running_jobs (inner q)) \<and>
        (if attempts j < job_max_retries j
         then snd (fail_job jid err q) = Inr Retrying \<and>
           pending (inner (fst (fail_job jid err q))) = pending (inner q) @
             [j\<lparr>attempts := attempts j + 1, last_error := Some err, status := Pending, started_at := None\<rparr>] \<and>
           dead_letter_queue (inner (fst (fail_job jid err q))) = dead_letter_queue (inner q)
         else snd (fail_job jid err q) = Inr Dead \<and>
           pending (inner (fst (fail_job jid err q))) = pending (inner q) \<and>
           map aj_job (dead_letter_queue (inner (fst (fail_job jid err q)))) =
             map aj_job (dead_letter_queue (inner q)) @
               [j\<lparr>attempts := attempts j + 1, last_error := Some err, status := Dead\<rparr>]))"
  by (auto simp: fail_job_def fail_job_begin_def fail_job_resume_def push_pending_def Let_def
      split: option.splits)

text \<open>The retry delay never exceeds the configured maximum, and it is the base times
  two to the number of earlier attempts (at most 31), capped by the maximum, whenever the
  base is below \<open>2 ^ 33\<close> so that the 64-bit product cannot wrap.\<close>

theorem retry_delay_backoff:
  "retry_delay q n \<le> retry_max_secs q \<and>
   (unat (retry_base_secs q) < 2 ^ 33 \<longrightarrow>
      unat (retry_delay q n) = min (unat (retry_base_secs q) * 2 ^ min n 31) (unat (retry_max_secs q)))"
proof -
  have pow: "min (2 ^ 32 - 1) ((2::nat) ^ min n 31) = 2 ^ min n 31"
    using power_increasing [of "min n 31" 31 "2::nat"] by simp
  have "unat (retry_base_secs q * of_nat (2 ^ min n 31)) = unat (retry_base_secs q) * 2 ^ min n 31"
    if base: "unat (retry_base_secs q) < 2 ^ 33"
  proof -
    have le: "(2::nat) ^ min n 31 \<le> 2 ^ 31"
      by (rule power_increasing) simp_all
    have "unat (retry_base_secs q) * 2 ^ min n 31 \<le> (2 ^ 33 - 1) * 2 ^ 31"
      using base le by (intro mult_le_mono) simp_all
    then have lt: "unat (retry_base_secs q) * 2 ^ min n 31 < 2 ^ 64"
      by simp
    have "unat (of_nat (2 ^ min n 31) :: u64) = 2 ^ min n 31"
      using le by (simp add: unat_of_nat take_bit_nat_eq_self del: of_nat_power)
    then show ?thesis
      using lt by (simp add: unat_word_ariths del: of_nat_power)
  qed
  then show ?thesis
    using pow by (auto simp: retry_delay_def Let_def min_def word_le_nat_alt simp del: of_nat_power)
qed

definition huge_base_queue :: queue_shim where
  "huge_base_queue = sample_queue\<lparr>retry_base_secs := 2 ^ 33\<rparr>"

theorem retry_delay_backoff_witness:
  "retry_delay sample_queue 2 \<le> 300 \<and> unat (retry_delay sample_queue 2) = 20 \<and>
   retry_delay huge_base_queue 31 = 0"
proof -
  have q: "retry_base_secs sample_queue = 5" "retry_max_secs sample_queue = 300"
    by (simp_all add: sample_queue_def queue_shim_new_def env_uint_def)
  have "retry_delay huge_base_queue 31 = 0"
    by (simp add: huge_base_queue_def retry_delay_def q)
  then show ?thesis
    using retry_delay_backoff [of sample_queue 2] q by simp
qed

text \<open>In no reachable state of the worker pool does a worker dead-letter a job for
  having waited too long: jobs that wait carry no start time, so taking the next job
  always makes it run.\<close>

theorem waiting_timeout_never_fires:
  assumes "queue_inv q" "running_jobs (inner q) = []"
    and "pool_run (spawn_workers has_handler q) es p" "pending (inner (shim p)) = j # js"
  shows "snd (worker_take now now2 (shim p)) = WHolding (j\<lparr>status := Running, started_at := Some now2\<rparr>) \<and>
    dead_letter_queue (inner (fst (worker_take now now2 (shim p)))) = dead_letter_queue (inner (shim p))"
proof -
  have "queue_inv (shim p)"
    using assms pool_run_inv pool_inv_spawn by (fastforce simp: pool_inv_def)
  then have "started_at j = None"
    using assms(4) by (simp add: queue_inv_def)
  then show ?thesis
    using assms(4) by (simp add: worker_take_def exceeded_def Let_def)
qed

theorem waiting_timeout_never_fires_witness:
  "snd (worker_take 999 1000 (shim one_job_pool)) =
     WHolding ((new_job sample_queue ''j1'' 0 ''mail'' [])\<lparr>status := Running, started_at := Some 1000\<rparr>)"
proof -
  have "queue_inv sample_queue" "running_jobs (inner sample_queue) = []"
    by (simp_all add: sample_queue_def queue_shim_new_def queue_inv_def)
  moreover have "pending (inner (shim one_job_pool)) = [new_job sample_queue ''j1'' 0 ''mail'' []]"
    by (simp add: one_job_pool_def enqueue_def push_pending_def sample_queue_def queue_shim_new_def)
  ultimately show ?thesis
    using waiting_timeout_never_fires [OF _ _ one_job_run] by blast
qed

end
