(* ===== verification/Hashing.thy ===== *)
theory Hashing
  imports Prelude
begin

text \<open>
  The FNV-1a loop that \<^verbatim>\<open>sharding-shim\<close> (\<^verbatim>\<open>hash_key\<close>) and \<^verbatim>\<open>migration-shim\<close>
  (\<^verbatim>\<open>compute_checksum\<close>) both spell out, over 64-bit words with wrapping
  multiplication, and what it guarantees: the round function is a bijection of
  the state, so that changing one byte always changes the hash.
\<close>

unbundle bit_operations_syntax

definition fnv_offset :: u64 where
  "fnv_offset = 0xcbf29ce484222325"

definition fnv_prime :: u64 where
  "fnv_prime = 0x100000001b3"

definition byte_word :: "char \<Rightarrow> u64" where
  "byte_word c = of_nat (of_char c)"

definition fnv_round :: "u64 \<Rightarrow> char \<Rightarrow> u64" where
  "fnv_round h c = (h XOR byte_word c) * fnv_prime"

definition fnv1a :: "string \<Rightarrow> u64" where
  "fnv1a s = foldl fnv_round fnv_offset s"

lemma fnv_prime_inverse: "fnv_prime * 0xce965057aff6957b = 1"
  by (simp add: fnv_prime_def)

lemma mult_fnv_prime_inj: "a * fnv_prime = b * fnv_prime \<Longrightarrow> a = b"
proof -
  assume eq: "a * fnv_prime = b * fnv_prime"
  have "x * fnv_prime * 0xce965057aff6957b = x" for x
    by (simp only: mult.assoc fnv_prime_inverse mult_1_right)
  then show "a = b"
    using eq by metis
qed

lemma byte_word_inj: "byte_word c = byte_word d \<longleftrightarrow> c = d"
proof
  assume eq: "byte_word c = byte_word d"
  have "unat (byte_word x) = of_char x" for x
    using less_trans [OF nat_of_char_less_256 [of x], of "2 ^ 64"] by (simp add: byte_word_def unat_of_nat)
  then have "(of_char c :: nat) = of_char d"
    using eq by metis
  then show "c = d"
    by simp
qed simp

lemma xor_left_cancel: "h XOR a = h XOR b \<longleftrightarrow> a = (b :: u64)"
proof
  assume eq: "h XOR a = h XOR b"
  have "h XOR (h XOR x) = x" for x
    by (simp flip: xor.assoc)
  then show "a = b"
    using eq by metis
qed simp

lemma fnv_round_inj_state: "fnv_round h c = fnv_round h' c \<longleftrightarrow> h = h'"
proof
  assume "fnv_round h c = fnv_round h' c"
  then have "h XOR byte_word c = h' XOR byte_word c"
    unfolding fnv_round_def by (rule mult_fnv_prime_inj)
  then show "h = h'"
    using xor_left_cancel [of "byte_word c" h h'] by (simp add: xor.commute)
qed simp

lemma fnv_round_inj_byte: "fnv_round h c = fnv_round h d \<longleftrightarrow> c = d"
proof
  assume "fnv_round h c = fnv_round h d"
  then have "h XOR byte_word c = h XOR byte_word d"
    unfolding fnv_round_def by (rule mult_fnv_prime_inj)
  then show "c = d"
    by (simp add: xor_left_cancel byte_word_inj)
qed simp

lemma foldl_fnv_inj: "foldl fnv_round h s = foldl fnv_round h' s \<longleftrightarrow> h = h'"
  by (induction s arbitrary: h h') (simp_all add: fnv_round_inj_state)

lemma fnv1a_one_byte: "c \<noteq> d \<Longrightarrow> fnv1a (xs @ c # ys) \<noteq> fnv1a (xs @ d # ys)"
  by (simp add: fnv1a_def foldl_fnv_inj fnv_round_inj_byte)

end
