(* ===== verification/Sharding.thy ===== *)
theory Sharding
  imports Hashing
begin

text \<open>
  \<^verbatim>\<open>sharding-shim/src/lib.rs\<close>: hash, range and directory routing.  The hash ring is
  built in the iteration order \<^verbatim>\<open>ord\<close> of the shard map and stably sorted by hash;
  \<^verbatim>\<open>binary_search_by\<close> is the search of the core library, used through the
  contract its documentation gives (locale \<^verbatim>\<open>sorted_search\<close>).
\<close>

section \<open>Data\<close>

datatype sharding_strategy = Hash | Range | Directory

fun sharding_strategy_display :: "sharding_strategy \<Rightarrow> string" where
  "sharding_strategy_display Hash = ''hash''"
| "sharding_strategy_display Range = ''range''"
| "sharding_strategy_display Directory = ''directory''"

definition sharding_strategy_from_str :: "string \<Rightarrow> string + sharding_strategy" where
  "sharding_strategy_from_str s =
    (if to_lowercase s = ''hash'' then Inr Hash
     else if to_lowercase s = ''range'' then Inr Range
     else if to_lowercase s = ''directory'' then Inr Directory
     else Inl (''Unknown sharding strategy: '' @ s))"

record shard_mapping =
  shard_id :: nat
  address :: string
  range_start :: "int option"
  range_end :: "int option"
  healthy :: bool

record hash_ring_point =
  pt_hash :: u64
  pt_shard :: nat

record sharding_shim =
  strategy :: sharding_strategy
  shard_key :: string
  shard_count :: nat
  addresses :: "string list"
  vnodes :: nat
  shards :: "(nat, shard_mapping) hmap"
  hash_ring :: "hash_ring_point list"
  directory :: "(string, nat) hmap"
  queries_routed :: nat
  queries_missed :: nat

section \<open>Binary search\<close>

text \<open>The halving loop of \<^verbatim>\<open>slice::binary_search_by\<close>.\<close>

function bs_loop :: "'a::linorder list \<Rightarrow> 'a \<Rightarrow> nat \<Rightarrow> nat \<Rightarrow> nat" where
  "bs_loop xs k base sz =
    (if sz \<le> 1 then base
     else (let half = sz div 2; mid = base + half
           in bs_loop xs k (if k < xs ! mid then base else mid) (sz - half)))"
  by pat_completeness auto
termination
  by (relation "measure (\<lambda>(xs, k, base, sz). sz)") auto

declare bs_loop.simps [simp del]

definition binary_search :: "'a::linorder list \<Rightarrow> 'a \<Rightarrow> nat + nat" where
  "binary_search xs k =
    (if xs = [] then Inl 0
     else (let b = bs_loop xs k 0 (length xs)
           in if xs ! b = k then Inr b else Inl (b + (if xs ! b < k then 1 else 0))))"

text \<open>The documented contract: an index of an equal element, or the insertion point.\<close>

definition search_ok :: "'a::linorder list \<Rightarrow> 'a \<Rightarrow> nat + nat \<Rightarrow> bool" where
  "search_ok xs k r =
    (case r of
       Inr i \<Rightarrow> i < length xs \<and> xs ! i = k
     | Inl i \<Rightarrow> i \<le> length xs \<and> (\<forall>j<i. xs ! j < k) \<and> (\<forall>j<length xs. i \<le> j \<longrightarrow> k < xs ! j))"

definition ring_index :: "('a list \<Rightarrow> 'a \<Rightarrow> nat + nat) \<Rightarrow> 'a list \<Rightarrow> 'a \<Rightarrow> nat" where
  "ring_index search xs k = (case search xs k of Inr i \<Rightarrow> i | Inl i \<Rightarrow> i mod length xs)"

text \<open>The hash a consistent ring assigns to a key: the next one clockwise.\<close>

definition clockwise :: "'a::linorder list \<Rightarrow> 'a \<Rightarrow> 'a" where
  "clockwise xs k = (let ys = filter (\<lambda>x. k \<le> x) xs in if ys = [] then Min (set xs) else Min (set ys))"

locale sorted_search =
  fixes search :: "'a::linorder list \<Rightarrow> 'a \<Rightarrow> nat + nat"
  assumes search_sorted: "sorted xs \<Longrightarrow> search_ok xs k (search xs k)"
begin

lemma ring_index_clockwise:
  assumes "sorted xs" "xs \<noteq> []"
  shows "ring_index search xs k < length xs" "xs ! ring_index search xs k = clockwise xs k"
proof -
  let ?i = "ring_index search xs k"
  have ok: "search_ok xs k (search xs k)"
    using assms(1) by (rule search_sorted)
  show lt: "?i < length xs"
    using ok assms(2) by (auto simp: ring_index_def search_ok_def split: sum.splits)
  have "xs ! ?i = k \<or> (k < xs ! ?i \<and> (\<forall>j<?i. xs ! j < k)) \<or> (?i = 0 \<and> (\<forall>x\<in>set xs. x < k))"
  proof (cases "search xs k")
    case (Inr i)
    then show ?thesis using ok by (simp add: ring_index_def search_ok_def)
  next
    case (Inl i)
    show ?thesis
    proof (cases "i = length xs")
      case True
      then show ?thesis using ok Inl by (auto simp: ring_index_def search_ok_def in_set_conv_nth)
    next
      case False
      then have "?i = i" "i < length xs"
        using ok Inl by (auto simp: ring_index_def search_ok_def)
      then show ?thesis using ok Inl by (simp add: search_ok_def)
    qed
  qed
  then consider (hit) "xs ! ?i = k" | (up) "k < xs ! ?i" "\<forall>j<?i. xs ! j < k"
    | (wrap) "?i = 0" "\<forall>x\<in>set xs. x < k"
    by auto
  then show "xs ! ?i = clockwise xs k"
  proof cases
    case hit
    have "Min (set (filter ((\<le>) k) xs)) = xs ! ?i"
      using hit lt by (intro Min_eqI) (auto simp: in_set_conv_nth)
    moreover have "filter ((\<le>) k) xs \<noteq> []"
      using nth_mem [OF lt] hit by (auto simp: filter_empty_conv)
    ultimately show ?thesis
      by (simp only: clockwise_def Let_def if_False)
  next
    case up
    have le: "xs ! ?i \<le> x" if x: "x \<in> set xs" "k \<le> x" for x
    proof -
      obtain j where j: "j < length xs" "x = xs ! j"
        using x(1) by (auto simp: in_set_conv_nth)
      then have "\<not> j < ?i"
        using up(2) x(2) by auto
      then show ?thesis
        using j assms(1) by (auto intro: sorted_nth_mono)
    qed
    have "Min (set (filter ((\<le>) k) xs)) = xs ! ?i"
      using up lt le by (intro Min_eqI) auto
    moreover have "filter ((\<le>) k) xs \<noteq> []"
      using nth_mem [OF lt] up by (auto simp: filter_empty_conv intro: less_imp_le)
    ultimately show ?thesis
      by (simp only: clockwise_def Let_def if_False)
  next
    case wrap
    have "Min (set xs) = xs ! ?i"
      using wrap(1) assms by (intro Min_eqI) (auto simp: in_set_conv_nth intro: sorted_nth_mono)
    moreover have "filter ((\<le>) k) xs = []"
      using wrap(2) by (auto simp: filter_empty_conv)
    ultimately show ?thesis
      by (simp add: clockwise_def)
  qed
qed

end

lemma bs_loop_bounds:
  assumes "sorted xs" "1 \<le> sz" "base + sz \<le> length xs"
    and "base = 0 \<or> xs ! base \<le> k"
    and "\<forall>j<length xs. base + sz \<le> j \<longrightarrow> k < xs ! j"
  shows "bs_loop xs k base sz < length xs \<and>
    (bs_loop xs k base sz = 0 \<or> xs ! bs_loop xs k base sz \<le> k) \<and>
    (\<forall>j<length xs. bs_loop xs k base sz < j \<longrightarrow> k < xs ! j)"
  using assms
proof (induction xs k base sz rule: bs_loop.induct)
  case (1 xs k base sz)
  show ?case
  proof (cases "sz \<le> 1")
    case True
    then have "bs_loop xs k base sz = base" "sz = 1"
      using "1.prems"(2) by (simp_all add: bs_loop.simps)
    then show ?thesis
      using "1.prems" by auto
  next
    case False
    define half where "half = sz div 2"
    have half: "1 \<le> half" "half < sz"
      using False by (auto simp: half_def)
    let ?b = "if k < xs ! (base + half) then base else base + half"
    have *: "bs_loop xs k base sz = bs_loop xs k ?b (sz - half)"
      using False by (subst bs_loop.simps) (simp add: half_def Let_def)
    have up: "k < xs ! j" if "k < xs ! (base + half)" "base + half \<le> j" "j < length xs" for j
      using sorted_nth_mono [OF "1.prems"(1) that(2,3)] that(1) by simp
    have above: "\<forall>j<length xs. ?b + (sz - half) \<le> j \<longrightarrow> k < xs ! j"
    proof (cases "k < xs ! (base + half)")
      case True
      have "base + half \<le> base + (sz - half)"
        by (simp add: half_def) 
      then show ?thesis
        using True up by auto
    next
      case False
      then show ?thesis
        using "1.prems"(5) half by auto
    qed
    have "1 \<le> sz - half" "?b + (sz - half) \<le> length xs"
      using half "1.prems"(3) by auto
    moreover have "?b = 0 \<or> xs ! ?b \<le> k"
      using "1.prems"(4) by auto
    ultimately show ?thesis
      unfolding * using "1.IH" [OF False half_def refl "1.prems"(1)] above by blast
  qed
qed

lemma binary_search_ok: "sorted xs \<Longrightarrow> search_ok xs k (binary_search xs k)"
proof (cases "xs = []")
  case False
  assume s: "sorted xs"
  define b where "b = bs_loop xs k 0 (length xs)"
  have b: "b < length xs" "b = 0 \<or> xs ! b \<le> k" "\<forall>j<length xs. b < j \<longrightarrow> k < xs ! j"
    using bs_loop_bounds [OF s, of "length xs" 0 k] False
    by (auto simp: b_def Suc_le_eq)
  have "xs ! j < k" if "xs ! b < k" "j \<le> b" for j
    using sorted_nth_mono [OF s that(2) b(1)] that(1) by simp
  then show ?thesis
    using b False
    by (auto simp: binary_search_def search_ok_def Let_def less_Suc_eq_le Suc_le_eq simp flip: b_def)
qed (simp add: binary_search_def search_ok_def)

interpretation std_search: sorted_search binary_search
  by unfold_locales (rule binary_search_ok)

section \<open>Operations\<close>

definition hash_key :: "string \<Rightarrow> u64" where
  "hash_key key = foldl (\<lambda>h c. xor h (byte_word c) * 0x100000001b3) 0xcbf29ce484222325 key"

definition vnode_key :: "string \<Rightarrow> nat \<Rightarrow> string" where
  "vnode_key addr i = addr @ '':vnode:'' @ show_nat i"

definition build_hash_ring ::
  "((nat, shard_mapping) hmap \<Rightarrow> (nat, shard_mapping) hmap) \<Rightarrow> sharding_shim \<Rightarrow> sharding_shim" where
  "build_hash_ring ord sh =
     sh\<lparr>hash_ring := sort_key pt_hash
        (concat (map (\<lambda>(sid, shard). map (\<lambda>i. \<lparr>pt_hash = hash_key (vnode_key (address shard) i),
             pt_shard = sid\<rparr>) [0..<vnodes sh]) (hash_iter ord (shards sh))))\<rparr>"

definition add_shard :: "nat \<Rightarrow> string \<Rightarrow> sharding_shim \<Rightarrow> sharding_shim" where
  "add_shard i addr sh =
    (let sid = i mod 2 ^ 32 in
     sh\<lparr>shards := hm_insert sid
        \<lparr>shard_id = sid, address = addr, range_start = None, range_end = None, healthy = True\<rparr>
        (shards sh)\<rparr>)"

definition sharding_shim_new ::
  "((nat, shard_mapping) hmap \<Rightarrow> (nat, shard_mapping) hmap) \<Rightarrow> env \<Rightarrow> sharding_shim" where
  "sharding_shim_new ord env =
    (let strategy_str = env_str env ''SHARDING_STRATEGY'' ''hash'';
         strat = (case sharding_strategy_from_str strategy_str of Inr x \<Rightarrow> x | Inl _ \<Rightarrow> Hash);
         addrs = map trim (filter (\<lambda>s. s \<noteq> []) (split_on (CHR '','') (env_str env ''SHARDING_ADDRESSES'' [])));
         sh = \<lparr>strategy = strat, shard_key = env_str env ''SHARDING_KEY'' [],
               shard_count = env_uint 32 env ''SHARDING_COUNT'' 4, addresses = addrs,
               vnodes = env_uint 64 env ''SHARDING_VNODES'' 150, shards = [], hash_ring = [],
               directory = [], queries_routed = 0, queries_missed = 0\<rparr>;
         sh1 = fold (\<lambda>(i, addr). add_shard i addr) (enumerate 0 addrs) sh
     in build_hash_ring ord sh1)"

definition route_hash :: "sharding_shim \<Rightarrow> string \<Rightarrow> string + nat \<times> string" where
  "route_hash sh key =
    (let h = hash_key key in
     if hash_ring sh = [] then Inl ''No shards available in hash ring''
     else
       (let idx = ring_index binary_search (map pt_hash (hash_ring sh)) h;
            point = hash_ring sh ! idx
        in case map_of (shards sh) (pt_shard point) of
             None \<Rightarrow> Inl (''Shard '' @ show_nat (pt_shard point) @ '' not found'')
           | Some shard \<Rightarrow>
               if \<not> healthy shard then Inl (''Shard '' @ show_nat (pt_shard point) @ '' is unhealthy'')
               else Inr (shard_id shard, address shard)))"

definition in_range :: "int \<Rightarrow> shard_mapping \<Rightarrow> bool" where
  "in_range val shard =
    (case (range_start shard, range_end shard) of
       (Some st, Some en) \<Rightarrow> st \<le> val \<and> val < en
     | _ \<Rightarrow> False)"

definition route_range ::
  "((nat, shard_mapping) hmap \<Rightarrow> (nat, shard_mapping) hmap) \<Rightarrow> sharding_shim \<Rightarrow> string
   \<Rightarrow> string + nat \<times> string" where
  "route_range ord sh key =
    (case parse_int 64 key of
       None \<Rightarrow> Inl (''Range strategy requires numeric keys, got: '' @ key)
     | Some val \<Rightarrow>
         (case find (\<lambda>s. healthy s \<and> in_range val s) (map snd (hash_iter ord (shards sh))) of
            Some shard \<Rightarrow> Inr (shard_id shard, address shard)
          | None \<Rightarrow> Inl (''No shard found for range value: '' @ show_int val)))"

definition route_directory :: "sharding_shim \<Rightarrow> string \<Rightarrow> string + nat \<times> string" where
  "route_directory sh key =
    (case Option.bind (map_of (directory sh) key) (map_of (shards sh)) of
       Some shard \<Rightarrow>
         if healthy shard then Inr (shard_id shard, address shard)
         else Inl (''No mapping found for key: '' @ key)
     | None \<Rightarrow> Inl (''No mapping found for key: '' @ key))"

definition route ::
  "((nat, shard_mapping) hmap \<Rightarrow> (nat, shard_mapping) hmap) \<Rightarrow> string \<Rightarrow> sharding_shim
   \<Rightarrow> sharding_shim \<times> (string + nat \<times> string)" where
  "route ord key sh =
    (case (case strategy sh of
             Hash \<Rightarrow> route_hash sh key
           | Range \<Rightarrow> route_range ord sh key
           | Directory \<Rightarrow> route_directory sh key) of
       Inl e \<Rightarrow> (sh, Inl e)
     | Inr r \<Rightarrow> (sh\<lparr>queries_routed := queries_routed sh + 1\<rparr>, Inr r))"

definition set_range :: "nat \<Rightarrow> int \<Rightarrow> int \<Rightarrow> sharding_shim \<Rightarrow> sharding_shim \<times> (string + unit)" where
  "set_range sid st en sh =
    (case map_of (shards sh) sid of
       Some _ \<Rightarrow> (sh\<lparr>shards := hm_update sid
           (\<lambda>s. s\<lparr>range_start := Some st, range_end := Some en\<rparr>) (shards sh)\<rparr>, Inr ())
     | None \<Rightarrow> (sh, Inl (''Shard '' @ show_nat sid @ '' not found'')))"

definition add_directory_mapping :: "string \<Rightarrow> nat \<Rightarrow> sharding_shim \<Rightarrow> sharding_shim" where
  "add_directory_mapping key sid sh = sh\<lparr>directory := hm_insert key sid (directory sh)\<rparr>"

definition set_shard_health :: "nat \<Rightarrow> bool \<Rightarrow> sharding_shim \<Rightarrow> sharding_shim \<times> bool" where
  "set_shard_health sid h sh =
    (case map_of (shards sh) sid of
       Some _ \<Rightarrow> (sh\<lparr>shards := hm_update sid (\<lambda>s. s\<lparr>healthy := h\<rparr>) (shards sh)\<rparr>, True)
     | None \<Rightarrow> (sh, False))"

definition get_shard :: "sharding_shim \<Rightarrow> nat \<Rightarrow> shard_mapping option" where
  "get_shard sh sid = map_of (shards sh) sid"

definition healthy_shards ::
  "((nat, shard_mapping) hmap \<Rightarrow> (nat, shard_mapping) hmap) \<Rightarrow> sharding_shim \<Rightarrow> nat list" where
  "healthy_shards ord sh = map shard_id (filter healthy (map snd (hash_iter ord (shards sh))))"

definition hit_rate :: "sharding_shim \<Rightarrow> f64" where
  "hit_rate sh = (let total = queries_routed sh + queries_missed sh in
     if total = 0 then 0 else of_nat (queries_routed sh) / of_nat total)"

definition sharding_metrics :: "sharding_shim \<Rightarrow> metric list" where
  "sharding_metrics sh =
    [(''sharding_queries_routed'', of_nat (queries_routed sh)),
     (''sharding_queries_missed'', of_nat (queries_missed sh)),
     (''sharding_shards_total'', of_nat (length (shards sh))),
     (''sharding_shards_healthy'', of_nat (length (filter (healthy \<circ> snd) (shards sh)))),
     (''sharding_hit_rate'', hit_rate sh)]"

lemma hash_key_fnv1a: "hash_key key = fnv1a key"
proof -
  have "fnv_round = (\<lambda>h c. xor h (byte_word c) * 0x100000001b3)"
    by (intro ext) (simp add: fnv_round_def fnv_prime_def)
  then show ?thesis
    by (simp add: hash_key_def fnv1a_def fnv_offset_def)
qed

section \<open>Invariant\<close>

text \<open>The ring is sorted and holds exactly the virtual nodes of the shards, and every
  shard is filed under its own identifier.\<close>

definition ring_points :: "sharding_shim \<Rightarrow> (u64 \<times> nat) set" where
  "ring_points sh = {(hash_key (vnode_key (address s) i), sid) | sid s i.
     map_of (shards sh) sid = Some s \<and> i < vnodes sh}"

definition sharding_inv :: "sharding_shim \<Rightarrow> bool" where
  "sharding_inv sh \<longleftrightarrow>
     hm_wf (shards sh) \<and>
     (\<forall>sid s. map_of (shards sh) sid = Some s \<longrightarrow> shard_id s = sid) \<and>
     sorted (map pt_hash (hash_ring sh)) \<and>
     (\<lambda>p. (pt_hash p, pt_shard p)) ` set (hash_ring sh) = ring_points sh \<and>
     queries_missed sh = 0"

definition filed :: "sharding_shim \<Rightarrow> bool" where
  "filed sh \<longleftrightarrow> hm_wf (shards sh) \<and> (\<forall>sid s. map_of (shards sh) sid = Some s \<longrightarrow> shard_id s = sid) \<and>
     queries_missed sh = 0"

lemma build_hash_ring_inv:
  assumes "filed sh"
  shows "sharding_inv (build_hash_ring ord sh)"
proof -
  have "(\<lambda>p. (pt_hash p, pt_shard p)) ` set (hash_ring (build_hash_ring ord sh)) = ring_points sh"
    using assms
    by (force simp: build_hash_ring_def ring_points_def image_iff map_of_eq_Some_iff filed_def)
  then show ?thesis
    using assms by (simp add: sharding_inv_def filed_def ring_points_def build_hash_ring_def)
qed

lemma add_shard_filed: "filed sh \<Longrightarrow> filed (add_shard i addr sh)"
  by (simp add: filed_def add_shard_def Let_def distinct_removeAll)

lemma fold_add_shard_filed: "filed sh \<Longrightarrow> filed (fold (\<lambda>(i, addr). add_shard i addr) xs sh)"
  by (induction xs arbitrary: sh) (auto intro: add_shard_filed)

lemma sharding_new_inv: "sharding_inv (sharding_shim_new ord env)"
  unfolding sharding_shim_new_def Let_def
  by (intro build_hash_ring_inv fold_add_shard_filed) (simp add: filed_def)

datatype sharding_op =
    SRoute string
  | SSetRange nat int int
  | SAddDirectory string nat
  | SSetHealth nat bool

fun sharding_exec ::
  "((nat, shard_mapping) hmap \<Rightarrow> (nat, shard_mapping) hmap) \<Rightarrow> sharding_op
   \<Rightarrow> sharding_shim \<Rightarrow> sharding_shim" where
  "sharding_exec ord (SRoute key) sh = fst (route ord key sh)"
| "sharding_exec ord (SSetRange sid st en) sh = fst (set_range sid st en sh)"
| "sharding_exec ord (SAddDirectory key sid) sh = add_directory_mapping key sid sh"
| "sharding_exec ord (SSetHealth sid h) sh = fst (set_shard_health sid h sh)"

lemma sharding_inv_update:
  assumes "sharding_inv sh" "\<And>s. address (f s) = address s \<and> shard_id (f s) = shard_id s"
  shows "sharding_inv (sh\<lparr>shards := hm_update sid f (shards sh)\<rparr>)"
proof -
  let ?sh = "sh\<lparr>shards := hm_update sid f (shards sh)\<rparr>"
  have look: "map_of (shards ?sh) k = map_option (\<lambda>s. if k = sid then f s else s) (map_of (shards sh) k)" for k
    by (auto simp: option.map_ident)
  have "ring_points ?sh = ring_points sh"
    unfolding ring_points_def look using assms(2) by (auto split: if_splits) (metis option.map)+
  moreover have "hm_wf (shards ?sh)"
    using assms(1) by (simp add: sharding_inv_def)
  ultimately show ?thesis
    using assms by (auto simp: sharding_inv_def look split: if_splits)
qed

lemma sharding_exec_inv: "sharding_inv sh \<Longrightarrow> sharding_inv (sharding_exec ord op sh)"
proof (cases op)
  case (SRoute key)
  then show "sharding_inv sh \<Longrightarrow> ?thesis"
    by (auto simp: route_def sharding_inv_def ring_points_def split: sum.splits)
next
  case (SAddDirectory key sid)
  then show "sharding_inv sh \<Longrightarrow> ?thesis"
    by (simp add: add_directory_mapping_def sharding_inv_def ring_points_def)
qed (auto simp: set_range_def set_shard_health_def intro: sharding_inv_update split: option.splits)

interpretation sharding_sys: op_system "sharding_exec ord" sharding_inv
  by unfold_locales (rule sharding_exec_inv)

section \<open>Properties\<close>

text \<open>C14: Hash routing is consistent hashing: on a ring that is built, a key goes to the
  shard owning the virtual node that follows the key's hash clockwise (the first one after
  wrapping around), or is refused when that shard is unhealthy; it never misses a shard.\<close>

theorem route_hash_clockwise:
  assumes "sharding_inv sh" "hash_ring sh \<noteq> []"
  shows "\<exists>sid s. (clockwise (map pt_hash (hash_ring sh)) (hash_key key), sid) \<in> ring_points sh \<and>
     map_of (shards sh) sid = Some s \<and>
     route_hash sh key =
       (if healthy s then Inr (sid, address s) else Inl (''Shard '' @ show_nat sid @ '' is unhealthy''))"
proof -
  let ?hs = "map pt_hash (hash_ring sh)"
  define idx where "idx = ring_index binary_search ?hs (hash_key key)"
  have idx: "idx < length (hash_ring sh)" "pt_hash (hash_ring sh ! idx) = clockwise ?hs (hash_key key)"
    using std_search.ring_index_clockwise [of ?hs "hash_key key"] assms
    by (auto simp: idx_def sharding_inv_def)
  let ?p = "hash_ring sh ! idx"
  have mem: "(pt_hash ?p, pt_shard ?p) \<in> ring_points sh"
    using assms(1) nth_mem [OF idx(1)] unfolding sharding_inv_def by blast
  then obtain s where s: "map_of (shards sh) (pt_shard ?p) = Some s"
    by (auto simp: ring_points_def)
  have "shard_id s = pt_shard ?p"
    using assms(1) s by (simp add: sharding_inv_def)
  then have "route_hash sh key = (if healthy s then Inr (pt_shard ?p, address s)
      else Inl (''Shard '' @ show_nat (pt_shard ?p) @ '' is unhealthy''))"
    using assms(2) s by (simp add: route_hash_def Let_def flip: idx_def)
  then show ?thesis
    using mem s by (auto simp: idx(2))
qed

definition sample_env :: env where
  "sample_env = [''SHARDING_ADDRESSES'' \<mapsto> ''a:1,b:2'', ''SHARDING_VNODES'' \<mapsto> ''1'']"

lemma sample_ring: "length (hash_ring (sharding_shim_new id sample_env)) = 2"
  by (simp add: sharding_shim_new_def build_hash_ring_def sample_env_def env_str_def env_uint_def
      add_shard_def enumerate_eq_zip hash_iter_def hm_insert_def hm_remove_def parse_uint_def
      is_digit_def digit_val_def trim_def is_space_def Let_def upt_rec)

theorem route_hash_clockwise_witness:
  "\<exists>sid s. map_of (shards (sharding_shim_new id sample_env)) sid = Some s \<and>
     route_hash (sharding_shim_new id sample_env) ''user-7'' =
       (if healthy s then Inr (sid, address s) else Inl (''Shard '' @ show_nat sid @ '' is unhealthy''))"
proof -
  have "hash_ring (sharding_shim_new id sample_env) \<noteq> []"
    using sample_ring by auto
  then show ?thesis
    using route_hash_clockwise [OF sharding_new_inv, of id sample_env "''user-7''"] by blast
qed

text \<open>After any sequence of calls on a new sharding shim the hash ring is sorted and
  holds exactly the virtual nodes of the registered shards, each shard is filed under its
  identifier, and the reported hit rate is 0 or 1, since failed lookups are never counted
  as misses.\<close>

theorem sharding_run_inv:
  "sharding_inv (fold (sharding_exec ord) ops (sharding_shim_new ord env)) \<and>
   hit_rate (fold (sharding_exec ord) ops (sharding_shim_new ord env)) \<in> {0, 1}"
proof -
  have "sharding_inv (fold (sharding_exec ord) ops (sharding_shim_new ord env))"
    by (rule sharding_sys.fold_inv) (rule sharding_new_inv)
  then show ?thesis
    by (auto simp: sharding_inv_def hit_rate_def Let_def)
qed

text \<open>Range routing succeeds exactly when some healthy shard's half-open range
  contains the numeric key, and then returns such a shard whatever the order in which the
  shards are visited; a key that is not a 64-bit integer is refused.\<close>

theorem route_range_spec:
  "(case parse_int 64 key of
      None \<Rightarrow> route_range ord sh key = Inl (''Range strategy requires numeric keys, got: '' @ key)
    | Some val \<Rightarrow>
        (if \<exists>s \<in> snd ` set (shards sh). healthy s \<and> in_range val s
         then \<exists>s \<in> snd ` set (shards sh). healthy s \<and> in_range val s \<and>
           route_range ord sh key = Inr (shard_id s, address s)
         else route_range ord sh key = Inl (''No shard found for range value: '' @ show_int val)))"
proof (cases "parse_int 64 key")
  case pv: (Some val)
  let ?vs = "map snd (hash_iter ord (shards sh))"
  let ?P = "\<lambda>s. healthy s \<and> in_range val s"
  have vs: "set ?vs = snd ` set (shards sh)" by simp
  show ?thesis
  proof (cases "find ?P ?vs")
    case None
    then have r: "route_range ord sh key = Inl (''No shard found for range value: '' @ show_int val)"
      using pv by (simp add: route_range_def)
    have "\<not> (\<exists>s \<in> snd ` set (shards sh). ?P s)"
      using None by (auto simp: find_None_iff)
    then show ?thesis
      unfolding pv option.case by (simp only: r if_False)
  next
    case (Some s)
    then have "route_range ord sh key = Inr (shard_id s, address s)"
      using pv by (simp add: route_range_def)
    moreover have "s \<in> snd ` set (shards sh)" "?P s"
      using find_in [OF Some] vs by auto
    ultimately show ?thesis
      unfolding pv option.case by (metis (no_types, lifting))
  qed
qed (simp add: route_range_def)

text \<open>Two keys that differ in exactly one byte never have the same hash.\<close>

theorem hash_key_one_byte:
  assumes "c \<noteq> d"
  shows "hash_key (pre @ c # post) \<noteq> hash_key (pre @ d # post)"
  using fnv1a_one_byte [OF assms] by (simp add: hash_key_fnv1a)

theorem hash_key_one_byte_witness: "hash_key ''user-1'' \<noteq> hash_key ''user-2''"
  using hash_key_one_byte [of "CHR ''1''" "CHR ''2''" "''user-''" "[]"] by simp

end
