(* ===== verification/Migration.thy ===== *)
theory Migration
  imports Hashing
begin

text \<open>
  \<^verbatim>\<open>migration-shim/src/lib.rs\<close>: versioned schema migrations, their checksums, the
  dry run, rollback, the lock file and the automatic run at start.  The
  database (\<^verbatim>\<open>sqlx\<close>) is a parameter: a record of the three statements the shim
  issues, each from a database state to a database state and a result.  The
  lock file is modelled by its content, the file system calls on it by a
  function that says which of them fail and how.  Versions are natural numbers
  below \<open>2 ^ 32\<close>; the increment wraps.
\<close>

section \<open>Lock file\<close>

record lock_info =
  pid :: nat
  hostname :: string
  lock_created_at :: time

text \<open>A lock file that parses as \<^verbatim>\<open>LockInfo\<close> with a valid time stamp, or any other content
  (in particular the empty file that \<^verbatim>\<open>create_new\<close> leaves, and the part of the text that a
  write which fails may leave in it: neither parses, and \<^verbatim>\<open>is_stale\<close> treats them alike).\<close>

datatype lock_content = LockData lock_info | LockGarbage string

datatype lock_call = RemoveStale | ReadContent | Serialize | CreateNew | WriteContent | RemoveLock

definition DEFAULT_STALE_THRESHOLD_SECS :: nat where
  "DEFAULT_STALE_THRESHOLD_SECS = 3600"

definition is_stale :: "(lock_call \<Rightarrow> string option) \<Rightarrow> nat \<Rightarrow> time \<Rightarrow> lock_content \<Rightarrow> bool" where
  "is_stale fails threshold now f =
    (case fails ReadContent of
       Some _ \<Rightarrow> True
     | None \<Rightarrow>
         (case f of
            LockGarbage _ \<Rightarrow> True
          | LockData info \<Rightarrow> threshold < as_u64 (num_seconds (now - lock_created_at info))))"

text \<open>The steps of \<^verbatim>\<open>acquire_lock\<close>: inspect, remove a stale file, create, write.\<close>

datatype lock_check = Proceed | ProceedAfterRemove | Held

definition check_lock :: "(lock_call \<Rightarrow> string option) \<Rightarrow> nat \<Rightarrow> time \<Rightarrow> lock_content option \<Rightarrow> lock_check" where
  "check_lock fails threshold now f =
    (case f of
       None \<Rightarrow> Proceed
     | Some x \<Rightarrow> if is_stale fails threshold now x then ProceedAfterRemove else Held)"

definition create_lock ::
  "(lock_call \<Rightarrow> string option) \<Rightarrow> lock_content option \<Rightarrow> lock_content option \<times> (string + unit)" where
  "create_lock fails f =
    (case fails CreateNew of
       Some e \<Rightarrow> (f, Inl (''Failed to create lock file: '' @ e))
     | None \<Rightarrow>
         (case f of
            None \<Rightarrow> (Some (LockGarbage []), Inr ())
          | Some _ \<Rightarrow> (f, Inl (''Failed to create lock file: '' @ ''File exists''))))"

definition write_lock ::
  "(lock_call \<Rightarrow> string option) \<Rightarrow> lock_info \<Rightarrow> lock_content option \<Rightarrow> lock_content option \<times> (string + unit)" where
  "write_lock fails info f =
    (case fails WriteContent of
       Some e \<Rightarrow> (f, Inl (''Failed to write lock file: '' @ e))
     | None \<Rightarrow> (Some (LockData info), Inr ()))"

definition acquire_lock ::
  "(lock_call \<Rightarrow> string option) \<Rightarrow> nat \<Rightarrow> time \<Rightarrow> lock_info \<Rightarrow> (lock_content \<Rightarrow> string)
   \<Rightarrow> lock_content option \<Rightarrow> lock_content option \<times> (string + unit)" where
  "acquire_lock fails threshold now info show_content f =
    (let checked =
       (case check_lock fails threshold now f of
          Proceed \<Rightarrow> Inr f
        | ProceedAfterRemove \<Rightarrow>
            (case fails RemoveStale of
               Some e \<Rightarrow> Inl (''Failed to remove stale lock: '' @ e)
             | None \<Rightarrow> Inr None)
        | Held \<Rightarrow>
            Inl (''Migration lock already held by another process: '' @
              (case (fails ReadContent, f) of (None, Some x) \<Rightarrow> show_content x | _ \<Rightarrow> ''<unreadable>'')))
     in case checked of
          Inl e \<Rightarrow> (f, Inl e)
        | Inr f1 \<Rightarrow>
            (case fails Serialize of
               Some e \<Rightarrow> (f1, Inl (''Failed to serialize lock info: '' @ e))
             | None \<Rightarrow>
                 (case create_lock fails f1 of
                    (f2, Inl e) \<Rightarrow> (f2, Inl e)
                  | (f2, Inr _) \<Rightarrow> write_lock fails info f2)))"

definition release_lock ::
  "(lock_call \<Rightarrow> string option) \<Rightarrow> lock_content option \<Rightarrow> lock_content option \<times> (string + unit)" where
  "release_lock fails f =
    (case f of
       None \<Rightarrow> (None, Inr ())
     | Some _ \<Rightarrow>
         (case fails RemoveLock of
            Some e \<Rightarrow> (f, Inl (''Failed to remove lock file: '' @ e))
          | None \<Rightarrow> (None, Inr ())))"

section \<open>Migrations\<close>

record migration_record =
  mr_version :: nat
  mr_name :: string
  applied_at :: time
  mr_checksum :: string

record migration =
  version :: nat
  mig_name :: string
  up_sql :: string
  down_sql :: "string option"
  checksum :: string

record dry_run_result =
  dr_version :: nat
  dr_name :: string
  would_apply :: bool
  dr_reason :: string
  checksum_valid :: bool
  sql_size_bytes :: nat
  has_down_migration :: bool

datatype migration_error =
    VersionConflict nat nat
  | ChecksumMismatch nat string string
  | MissingDownMigration nat
  | InvalidVersion string
  | OutOfOrder nat nat

fun migration_error_display :: "migration_error \<Rightarrow> string" where
  "migration_error_display (VersionConflict a b) =
     ''Version conflict: existing='' @ show_nat a @ '', incoming='' @ show_nat b"
| "migration_error_display (ChecksumMismatch v x a) =
     ''Checksum mismatch at v'' @ show_nat v @ '': expected='' @ x @ '', actual='' @ a"
| "migration_error_display (MissingDownMigration v) =
     ''Missing down migration for version '' @ show_nat v"
| "migration_error_display (InvalidVersion v) = ''Invalid version: '' @ v"
| "migration_error_display (OutOfOrder x g) =
     ''Out of order migration: expected v'' @ show_nat x @ '', got v'' @ show_nat g"

record migration_shim =
  mig_dir :: string
  database :: string
  db_host :: string
  db_port :: nat
  db_user :: string
  db_password :: string
  db_url :: "string option"
  auto_migrate :: bool
  db_type :: string
  current_version :: nat
  migrations_applied :: nat
  migrations_rolled_back :: nat
  last_migration :: "time option"
  applied_records :: "(nat, migration_record) hmap"
  pending_migrations :: "migration list"

definition migration_shim_new :: "env \<Rightarrow> migration_shim" where
  "migration_shim_new env =
    \<lparr>mig_dir = env_str env ''MIGRATION_DIR'' ''/migrations'',
     database = env_str env ''MIGRATION_DATABASE'' [],
     db_host = env_str env ''MIGRATION_DB_HOST'' ''127.0.0.1'',
     db_port = env_uint 16 env ''MIGRATION_DB_PORT'' 5432,
     db_user = env_str env ''MIGRATION_DB_USER'' ''postgres'',
     db_password = env_str env ''MIGRATION_DB_PASSWORD'' [],
     db_url = env ''MIGRATION_DB_URL'',
     auto_migrate = (case env ''MIGRATION_AUTO_MIGRATE'' of None \<Rightarrow> False
                     | Some v \<Rightarrow> v = ''true'' \<or> v = ''1''),
     db_type = env_str env ''MIGRATION_DB_TYPE'' ''postgres'',
     current_version = 0, migrations_applied = 0, migrations_rolled_back = 0,
     last_migration = None, applied_records = [], pending_migrations = []\<rparr>"

definition has_db :: "migration_shim \<Rightarrow> bool" where
  "has_db s = (db_host s \<noteq> [] \<and> database s \<noteq> [])"

definition connection_string :: "migration_shim \<Rightarrow> string" where
  "connection_string s =
    (case db_url s of
       Some url \<Rightarrow> url
     | None \<Rightarrow>
         (if db_type s = ''mysql'' then ''mysql://'' else ''postgres://'') @ db_user s @ '':'' @
         db_password s @ ''@'' @ db_host s @ '':'' @ show_nat (db_port s) @ ''/'' @ database s)"

text \<open>The statements the shim sends: \<^verbatim>\<open>run_sql\<close> an arbitrary one, \<^verbatim>\<open>insert_row\<close> and
  \<^verbatim>\<open>delete_row\<close> those on the tracking table.  Each includes opening the connection.\<close>

record 'db db_ops =
  run_sql :: "'db \<Rightarrow> string \<Rightarrow> 'db \<times> (string + unit)"
  insert_row :: "'db \<Rightarrow> migration_record \<Rightarrow> 'db \<times> (string + unit)"
  delete_row :: "'db \<Rightarrow> nat \<Rightarrow> 'db \<times> (string + unit)"

definition create_table_sql :: string where
  "create_table_sql =
    (let nl = [CHR 0x0A] @ replicate 12 (CHR '' '') in
     ''CREATE TABLE IF NOT EXISTS schema_migrations ('' @ nl @
     ''version INTEGER PRIMARY KEY,'' @ nl @ ''name TEXT NOT NULL,'' @ nl @
     ''checksum TEXT NOT NULL,'' @ nl @ ''applied_at TEXT NOT NULL'' @
     [CHR 0x0A] @ replicate 8 (CHR '' '') @ '')'')"

definition execute_sql :: "'db db_ops \<Rightarrow> migration_shim \<Rightarrow> string \<Rightarrow> 'db \<Rightarrow> 'db \<times> (string + unit)" where
  "execute_sql ops s sql db = (if \<not> has_db s then (db, Inr ()) else run_sql ops db sql)"

definition ensure_migrations_table :: "'db db_ops \<Rightarrow> migration_shim \<Rightarrow> 'db \<Rightarrow> 'db \<times> (string + unit)" where
  "ensure_migrations_table ops s db =
    (if \<not> has_db s then (db, Inr ()) else run_sql ops db create_table_sql)"

definition insert_migration_record ::
  "'db db_ops \<Rightarrow> migration_shim \<Rightarrow> migration_record \<Rightarrow> 'db \<Rightarrow> 'db \<times> (string + unit)" where
  "insert_migration_record ops s r db = (if \<not> has_db s then (db, Inr ()) else insert_row ops db r)"

definition delete_migration_record ::
  "'db db_ops \<Rightarrow> migration_shim \<Rightarrow> nat \<Rightarrow> 'db \<Rightarrow> 'db \<times> (string + unit)" where
  "delete_migration_record ops s v db = (if \<not> has_db s then (db, Inr ()) else delete_row ops db v)"

definition compute_checksum :: "string \<Rightarrow> string" where
  "compute_checksum sql =
     show_hex 16 (unat (foldl (\<lambda>h c. xor h (byte_word c) * 0x100000001b3) (0xcbf29ce484222325 :: u64) sql))"

definition strip_suffixes :: "string \<Rightarrow> string" where
  "strip_suffixes fname = trim_end_matches (trim_end_matches fname ''.up.sql'') ''.down.sql''"

definition parse_version :: "string \<Rightarrow> migration_error + nat" where
  "parse_version fname =
    (let v = fst (splitn2 (CHR ''_'') (strip_suffixes fname))
     in case parse_uint 32 v of Some n \<Rightarrow> Inr n | None \<Rightarrow> Inl (InvalidVersion v))"

definition parse_name :: "string \<Rightarrow> string" where
  "parse_name fname =
    (case snd (splitn2 (CHR ''_'') (strip_suffixes fname)) of Some nm \<Rightarrow> nm | None \<Rightarrow> [])"

definition succ32 :: "nat \<Rightarrow> nat" where
  "succ32 v = (v + 1) mod 2 ^ 32"

fun validate_version_sequence :: "migration list \<Rightarrow> migration_error + unit" where
  "validate_version_sequence (a # b # ms) =
    (let expected = succ32 (version a) in
     if version b \<noteq> expected then Inl (OutOfOrder expected (version b))
     else validate_version_sequence (b # ms))"
| "validate_version_sequence _ = Inr ()"

definition verify_checksum :: "migration_shim \<Rightarrow> nat \<Rightarrow> string \<Rightarrow> migration_error + unit" where
  "verify_checksum s v c =
    (case map_of (applied_records s) v of
       Some r \<Rightarrow> if mr_checksum r \<noteq> c then Inl (ChecksumMismatch v (mr_checksum r) c) else Inr ()
     | None \<Rightarrow> Inr ())"

text \<open>The three checks \<^verbatim>\<open>apply_migration\<close> and \<^verbatim>\<open>apply_migration_db\<close> start with.\<close>

definition apply_guard :: "migration_shim \<Rightarrow> migration \<Rightarrow> migration_error + unit" where
  "apply_guard s m =
    (if map_of (applied_records s) (version m) \<noteq> None then Inl (VersionConflict (version m) (version m))
     else
       (let expected = succ32 (current_version s) in
        if version m \<noteq> expected \<and> 0 < current_version s then Inl (OutOfOrder expected (version m))
        else verify_checksum s (version m) (checksum m)))"

definition record_of :: "time \<Rightarrow> migration \<Rightarrow> migration_record" where
  "record_of now m =
     \<lparr>mr_version = version m, mr_name = mig_name m, applied_at = now, mr_checksum = checksum m\<rparr>"

definition commit_record :: "time \<Rightarrow> migration_record \<Rightarrow> migration_shim \<Rightarrow> migration_shim" where
  "commit_record now2 r s =
     s\<lparr>applied_records := hm_insert (mr_version r) r (applied_records s),
       current_version := mr_version r,
       migrations_applied := migrations_applied s + 1,
       last_migration := Some now2\<rparr>"

definition apply_migration ::
  "time \<Rightarrow> time \<Rightarrow> migration \<Rightarrow> migration_shim \<Rightarrow> migration_shim \<times> (migration_error + unit)" where
  "apply_migration now now2 m s =
    (case apply_guard s m of
       Inl e \<Rightarrow> (s, Inl e)
     | Inr _ \<Rightarrow> (commit_record now2 (record_of now m) s, Inr ()))"

definition apply_migration_db ::
  "'db db_ops \<Rightarrow> time \<Rightarrow> time \<Rightarrow> migration \<Rightarrow> 'db \<times> migration_shim
   \<Rightarrow> ('db \<times> migration_shim) \<times> (migration_error + unit)" where
  "apply_migration_db ops now now2 m st =
    (let (db, s) = st in
     case apply_guard s m of
       Inl e \<Rightarrow> (st, Inl e)
     | Inr _ \<Rightarrow>
         (case (if has_db s then execute_sql ops s (up_sql m) db else (db, Inr ())) of
            (db1, Inl e) \<Rightarrow> ((db1, s), Inl (VersionConflict (version m) (version m)))
          | (db1, Inr _) \<Rightarrow>
              (let r = record_of now m;
                   db2 = (if has_db s then fst (insert_migration_record ops s r db1) else db1)
               in ((db2, commit_record now2 r s), Inr ()))))"

definition dry_run_migration :: "migration_shim \<Rightarrow> (time \<Rightarrow> string) \<Rightarrow> migration \<Rightarrow> dry_run_result" where
  "dry_run_migration s rfc m =
    (let r = \<lparr>dr_version = version m, dr_name = mig_name m, would_apply = True, dr_reason = [],
              checksum_valid = False, sql_size_bytes = length (up_sql m),
              has_down_migration = (down_sql m \<noteq> None)\<rparr>
     in case map_of (applied_records s) (version m) of
          Some rec \<Rightarrow> r\<lparr>would_apply := False, dr_reason := ''Migration v'' @ show_nat (version m) @
                         '' already applied at '' @ rfc (applied_at rec)\<rparr>
        | None \<Rightarrow>
            (let expected = succ32 (current_version s) in
             if version m \<noteq> expected \<and> 0 < current_version s then
               r\<lparr>would_apply := False, dr_reason := ''Out of order: expected v'' @ show_nat expected @
                   '', got v'' @ show_nat (version m)\<rparr>
             else
               (case verify_checksum s (version m) (checksum m) of
                  Inl e \<Rightarrow> r\<lparr>would_apply := False,
                      dr_reason := ''Checksum validation failed: '' @ migration_error_display e\<rparr>
                | Inr _ \<Rightarrow>
                    (let r1 = r\<lparr>checksum_valid := True\<rparr> in
                     if trim (up_sql m) = [] then
                       r1\<lparr>would_apply := False, dr_reason := ''Migration SQL is empty''\<rparr>
                     else r1\<lparr>dr_reason := ''Migration would be applied successfully''\<rparr>))))"

definition dry_run_all_pending :: "migration_shim \<Rightarrow> (time \<Rightarrow> string) \<Rightarrow> dry_run_result list" where
  "dry_run_all_pending s rfc = map (dry_run_migration s rfc) (pending_migrations s)"

text \<open>\<^verbatim>\<open>keys().next_back()\<close> of the ordered map is its largest key.\<close>

definition last_key :: "(nat, 'v) hmap \<Rightarrow> nat option" where
  "last_key m = (if m = [] then None else Some (Max (fst ` set m)))"

definition drop_current :: "migration_shim \<Rightarrow> migration_shim \<times> (migration_error + migration_record)" where
  "drop_current s =
    (let v = current_version s in
     case map_of (applied_records s) v of
       None \<Rightarrow> (s, Inl (MissingDownMigration v))
     | Some r \<Rightarrow>
         (let rest = hm_remove v (applied_records s)
          in (s\<lparr>applied_records := rest,
                current_version := (case last_key rest of None \<Rightarrow> 0 | Some k \<Rightarrow> k),
                migrations_rolled_back := migrations_rolled_back s + 1\<rparr>, Inr r)))"

definition rollback_last :: "migration_shim \<Rightarrow> migration_shim \<times> (migration_error + migration_record)" where
  "rollback_last s =
    (if current_version s = 0 then (s, Inl (MissingDownMigration 0)) else drop_current s)"

definition rollback_last_db ::
  "'db db_ops \<Rightarrow> string option \<Rightarrow> 'db \<times> migration_shim
   \<Rightarrow> ('db \<times> migration_shim) \<times> (migration_error + migration_record)" where
  "rollback_last_db ops down st =
    (let (db, s) = st; v = current_version s in
     if v = 0 then (st, Inl (MissingDownMigration 0))
     else if has_db s then
       (case (case down of Some sql \<Rightarrow> execute_sql ops s sql db | None \<Rightarrow> (db, Inr ())) of
          (db1, Inl e) \<Rightarrow> ((db1, s), Inl (MissingDownMigration v))
        | (db1, Inr _) \<Rightarrow>
            (let db2 = fst (delete_migration_record ops s v db1);
                 (s1, res) = drop_current s
             in ((db2, s1), res)))
     else (let (s1, res) = drop_current s in ((db, s1), res)))"

definition pending :: "migration_shim \<Rightarrow> migration list" where
  "pending s = filter (\<lambda>m. map_of (applied_records s) (version m) = None) (pending_migrations s)"

definition applied :: "migration_shim \<Rightarrow> migration_record list" where
  "applied s = sort_key mr_version (map snd (sort_key fst (applied_records s)))"

definition is_up_to_date :: "migration_shim \<Rightarrow> bool" where
  "is_up_to_date s = (pending s = [])"

definition register_migration :: "migration \<Rightarrow> migration_shim \<Rightarrow> migration_shim" where
  "register_migration m s =
     s\<lparr>pending_migrations := sort_key version (pending_migrations s @ [m])\<rparr>"

section \<open>Automatic run\<close>

text \<open>The directory: absent, unreadable, or the names of its files.  The path of a file is
  represented by its name.\<close>

definition scan_entry :: "string \<Rightarrow> (nat \<times> string \<times> string) option" where
  "scan_entry fname =
    (if ends_with fname ''.up.sql'' then
       (let (a, b) = splitn2 (CHR ''_'') fname in
        case parse_uint 32 a of
          Some v \<Rightarrow> Some (v, trim_end_matches (case b of Some x \<Rightarrow> x | None \<Rightarrow> []) ''.up.sql'', fname)
        | None \<Rightarrow> None)
     else None)"

definition scan_migrations :: "(string + string list) option \<Rightarrow> string + (nat \<times> string \<times> string) list" where
  "scan_migrations dir =
    (case dir of
       None \<Rightarrow> Inr []
     | Some (Inl e) \<Rightarrow> Inl e
     | Some (Inr names) \<Rightarrow> Inr (sort_key fst (List.map_filter scan_entry names)))"

definition read_migration :: "(string \<Rightarrow> string + string) \<Rightarrow> string \<Rightarrow> string + string" where
  "read_migration read path =
    (case read path of
       Inl e \<Rightarrow> Inl (''Failed to read migration '' @ path @ '': '' @ e)
     | Inr sql \<Rightarrow> Inr sql)"

definition loaded :: "nat \<Rightarrow> string \<Rightarrow> string \<Rightarrow> migration" where
  "loaded v nm sql =
     \<lparr>version = v, mig_name = nm, up_sql = sql, down_sql = None, checksum = compute_checksum sql\<rparr>"

fun auto_apply ::
  "'db db_ops \<Rightarrow> (string \<Rightarrow> string + string) \<Rightarrow> (nat \<Rightarrow> time) \<Rightarrow> (nat \<times> string \<times> string) list
   \<Rightarrow> 'db \<times> migration_shim \<Rightarrow> ('db \<times> migration_shim) \<times> (string + unit)" where
  "auto_apply ops read clk [] st = (st, Inr ())"
| "auto_apply ops read clk ((v, nm, path) # ms) st =
    (case read_migration read path of
       Inl e \<Rightarrow> (st, Inl e)
     | Inr sql \<Rightarrow> auto_apply ops read clk ms (fst (apply_migration_db ops (clk v) (clk v) (loaded v nm sql) st)))"

definition migration_start ::
  "'db db_ops \<Rightarrow> (lock_call \<Rightarrow> string option) \<Rightarrow> time \<Rightarrow> lock_info \<Rightarrow> (lock_content \<Rightarrow> string)
   \<Rightarrow> (string + string list) option \<Rightarrow> (string \<Rightarrow> string + string) \<Rightarrow> (nat \<Rightarrow> time)
   \<Rightarrow> 'db \<times> migration_shim \<times> lock_content option
   \<Rightarrow> ('db \<times> migration_shim \<times> lock_content option) \<times> (string + unit)" where
  "migration_start ops fails now info show_content dir read clk st =
    (let (db, s, f) = st;
         db0 = fst (ensure_migrations_table ops s db)
     in if \<not> auto_migrate s then ((db0, s, f), Inr ())
        else
          (case acquire_lock fails DEFAULT_STALE_THRESHOLD_SECS now info show_content f of
             (f1, Inl e) \<Rightarrow> ((db0, s, f1), Inl e)
           | (f1, Inr _) \<Rightarrow>
               (case scan_migrations dir of
                  Inl e \<Rightarrow> ((db0, s, f1), Inl e)
                | Inr ms \<Rightarrow>
                    (case auto_apply ops read clk ms (db0, s) of
                       ((db1, s1), Inl e) \<Rightarrow> ((db1, s1, f1), Inl e)
                     | ((db1, s1), Inr _) \<Rightarrow> ((db1, s1, fst (release_lock fails f1)), Inr ())))))"

definition migration_metrics :: "(time \<Rightarrow> f64) \<Rightarrow> migration_shim \<Rightarrow> metric list" where
  "migration_metrics ts s =
    [(''migration_current_version'', of_nat (current_version s)),
     (''migration_applied_total'', of_nat (migrations_applied s)),
     (''migration_rolled_back_total'', of_nat (migrations_rolled_back s)),
     (''migration_pending_total'', of_nat (length (pending s)))] @
    (case last_migration s of None \<Rightarrow> []
     | Some t \<Rightarrow> [(''migration_last_success_timestamp'', ts t)])"

section \<open>Several databases\<close>

record migration_target =
  tgt_name :: string
  tgt_db_type :: string
  tgt_db_url :: string
  migration_files :: "string list"

record target_migration_result =
  tr_name :: string
  tr_success :: bool
  tr_applied :: nat
  tr_errors :: "string list"
  tr_duration_ms :: nat

record orchestration_result =
  or_success :: bool
  target_results :: "target_migration_result list"
  completed_at :: time

text \<open>\<^verbatim>\<open>connect\<close> is the outcome of the n-th connection attempt, \<^verbatim>\<open>exec\<close> that of running the
  statement of a file; the postgres and mysql branches differ only in the driver.\<close>

fun target_loop ::
  "(nat \<Rightarrow> string + unit) \<Rightarrow> (string \<Rightarrow> string + string) \<Rightarrow> (string \<Rightarrow> string + unit) \<Rightarrow> nat
   \<Rightarrow> string list \<Rightarrow> nat \<times> string list \<Rightarrow> nat \<times> string list" where
  "target_loop connect read exec n [] acc = acc"
| "target_loop connect read exec n (p # ps) (napp, errors) =
    (case read p of
       Inr sql \<Rightarrow>
         (case connect n of
            Inr _ \<Rightarrow>
              (case exec sql of
                 Inl e \<Rightarrow> target_loop connect read exec (n + 1) ps (napp, errors @ [p @ '': '' @ e])
               | Inr _ \<Rightarrow> target_loop connect read exec (n + 1) ps (napp + 1, errors))
          | Inl _ \<Rightarrow> target_loop connect read exec (n + 1) ps (napp, errors))
     | Inl e \<Rightarrow> target_loop connect read exec n ps (napp, errors @ [''Failed to read '' @ p @ '': '' @ e]))"

definition migrate_target ::
  "(nat \<Rightarrow> string + unit) \<Rightarrow> (string \<Rightarrow> string + string) \<Rightarrow> (string \<Rightarrow> string + unit) \<Rightarrow> nat
   \<Rightarrow> migration_target \<Rightarrow> target_migration_result" where
  "migrate_target connect read exec dur t =
    (let (napp, errors) =
       (if tgt_db_type t = ''postgres'' \<or> tgt_db_type t = ''mysql'' then
          (case connect 0 of
             Inr _ \<Rightarrow> target_loop connect read exec 1 (migration_files t) (0, [])
           | Inl e \<Rightarrow> (0, [''Connection failed: '' @ e]))
        else (0, [''Unsupported database type: '' @ tgt_db_type t]))
     in \<lparr>tr_name = tgt_name t, tr_success = (errors = []), tr_applied = napp,
         tr_errors = errors, tr_duration_ms = dur\<rparr>)"

definition orchestrate_multi_db ::
  "(migration_target \<Rightarrow> target_migration_result) \<Rightarrow> time \<Rightarrow> migration_target list \<Rightarrow> orchestration_result" where
  "orchestrate_multi_db migrate now targets =
    (let (ok, results) = fold (\<lambda>t (ok, rs). let r = migrate t in (ok \<and> tr_success r, rs @ [r])) targets (True, [])
     in \<lparr>or_success = ok, target_results = results, completed_at = now\<rparr>)"

section \<open>Concurrent lock acquisition\<close>

text \<open>Several processes in \<^verbatim>\<open>acquire_lock\<close> on the same file, one file system call per step.\<close>

datatype lock_pc = LStart | LRemove | LCreate | LWrite | LHeld | LFailed

definition no_fail :: "lock_call \<Rightarrow> string option" where
  "no_fail c = None"

fun lock_pc_step ::
  "nat \<Rightarrow> time \<Rightarrow> lock_info \<Rightarrow> lock_content option \<Rightarrow> lock_pc \<Rightarrow> lock_content option \<times> lock_pc" where
  "lock_pc_step threshold now info f LStart =
     (f, case check_lock no_fail threshold now f of
           Proceed \<Rightarrow> LCreate | ProceedAfterRemove \<Rightarrow> LRemove | Held \<Rightarrow> LFailed)"
| "lock_pc_step threshold now info f LRemove =
     (case f of Some _ \<Rightarrow> (None, LCreate) | None \<Rightarrow> (None, LFailed))"
| "lock_pc_step threshold now info f LCreate =
     (case create_lock no_fail f of (f', Inr _) \<Rightarrow> (f', LWrite) | (f', Inl _) \<Rightarrow> (f', LFailed))"
| "lock_pc_step threshold now info f LWrite =
     (case write_lock no_fail info f of (f', Inr _) \<Rightarrow> (f', LHeld) | (f', Inl _) \<Rightarrow> (f', LFailed))"
| "lock_pc_step threshold now info f LHeld = (f, LHeld)"
| "lock_pc_step threshold now info f LFailed = (f, LFailed)"

inductive lock_reachable ::
  "nat \<Rightarrow> lock_content option \<times> lock_pc list \<Rightarrow> lock_content option \<times> lock_pc list \<Rightarrow> bool"
  for threshold c0 where
  lock_base: "lock_reachable threshold c0 c0"
| lock_next: "lock_reachable threshold c0 (f, pcs) \<Longrightarrow> p < length pcs \<Longrightarrow>
    lock_pc_step threshold now info f (pcs ! p) = (f', pc') \<Longrightarrow>
    lock_reachable threshold c0 (f', pcs[p := pc'])"

section \<open>Applied versions\<close>

lemma apply_guard_ok:
  "apply_guard s m = Inr u \<longleftrightarrow>
     map_of (applied_records s) (version m) = None \<and>
     (current_version s = 0 \<or> version m = succ32 (current_version s))"
  by (auto simp: apply_guard_def verify_checksum_def Let_def)

lemma apply_guard_errors:
  "apply_guard s m = Inl e \<Longrightarrow>
     e = VersionConflict (version m) (version m) \<or> e = OutOfOrder (succ32 (current_version s)) (version m)"
  by (auto simp: apply_guard_def verify_checksum_def Let_def split: if_splits option.splits)

lemma compute_checksum_fnv1a: "compute_checksum sql = show_hex 16 (unat (fnv1a sql))"
proof -
  have "fnv_round = (\<lambda>h c. xor h (byte_word c) * 0x100000001b3)"
    by (intro ext) (simp add: fnv_round_def fnv_prime_def)
  then show ?thesis
    by (simp add: compute_checksum_def fnv1a_def fnv_offset_def)
qed

lemma compute_checksum_eq_iff: "compute_checksum a = compute_checksum b \<longleftrightarrow> fnv1a a = fnv1a b"
proof
  assume "compute_checksum a = compute_checksum b"
  then have "unat (fnv1a a) = unat (fnv1a b)"
    using unsigned_less [where 'a = nat and w = "fnv1a a"] unsigned_less [where 'a = nat and w = "fnv1a b"]
    by (intro show_hex_inj [of _ 16]) (simp_all add: compute_checksum_fnv1a)
  then show "fnv1a a = fnv1a b"
    by (simp only: word_unat_eq_iff)
qed (simp add: compute_checksum_fnv1a)

text \<open>The operations of the shim on the database, its own state and the lock file: the database
  variants that \<^verbatim>\<open>start\<close> and callers use, those without a database, and \<^verbatim>\<open>start\<close>
  itself.  Each carries what the outside answers to it: database, file system, clock and directory.\<close>

datatype 'db migration_op =
    MApply time time migration
  | MApplyDb "'db db_ops" time time migration
  | MRollback
  | MRollbackDb "'db db_ops" "string option"
  | MRegister migration
  | MStart "'db db_ops" "lock_call \<Rightarrow> string option" time lock_info "lock_content \<Rightarrow> string"
      "(string + string list) option" "string \<Rightarrow> string + string" "nat \<Rightarrow> time"

type_synonym 'db migration_state = "'db \<times> migration_shim \<times> lock_content option"

fun migration_exec :: "'db migration_op \<Rightarrow> 'db migration_state \<Rightarrow> 'db migration_state" where
  "migration_exec (MApply now now2 m) (db, s, f) = (db, fst (apply_migration now now2 m s), f)"
| "migration_exec (MApplyDb ops now now2 m) (db, s, f) =
    (case fst (apply_migration_db ops now now2 m (db, s)) of (db1, s1) \<Rightarrow> (db1, s1, f))"
| "migration_exec MRollback (db, s, f) = (db, fst (rollback_last s), f)"
| "migration_exec (MRollbackDb ops down) (db, s, f) =
    (case fst (rollback_last_db ops down (db, s)) of (db1, s1) \<Rightarrow> (db1, s1, f))"
| "migration_exec (MRegister m) (db, s, f) = (db, register_migration m s, f)"
| "migration_exec (MStart ops fails now info sc dir read clk) st =
    fst (migration_start ops fails now info sc dir read clk st)"

text \<open>Versions are 32-bit and not 0; those of the files of a directory are 32-bit by parsing.\<close>

fun op_versions_ok :: "'db migration_op \<Rightarrow> bool" where
  "op_versions_ok (MApply now now2 m) \<longleftrightarrow> 1 \<le> version m \<and> version m < 2 ^ 32"
| "op_versions_ok (MApplyDb ops now now2 m) \<longleftrightarrow> 1 \<le> version m \<and> version m < 2 ^ 32"
| "op_versions_ok (MStart ops fails now info sc dir read clk) \<longleftrightarrow>
    (case scan_migrations dir of Inr ms \<Rightarrow> list_all (\<lambda>(v, nm, path). 1 \<le> v) ms | Inl _ \<Rightarrow> True)"
| "op_versions_ok _ \<longleftrightarrow> True"

text \<open>The applied versions are an interval ending in the current version.\<close>

definition versions :: "migration_shim \<Rightarrow> nat set" where
  "versions s = fst ` set (applied_records s)"

definition contiguous :: "migration_shim \<Rightarrow> bool" where
  "contiguous s \<longleftrightarrow>
     hm_wf (applied_records s) \<and> current_version s < 2 ^ 32 \<and>
     (versions s = {} \<and> current_version s = 0 \<or>
      (\<exists>lo. 1 \<le> lo \<and> lo \<le> current_version s \<and> versions s = {lo..current_version s}))"

lemma insert_top: "lo \<le> hi \<Longrightarrow> insert (hi + 1) {lo..hi} = {lo..hi + 1 :: nat}"
  by (simp add: atLeastAtMostSuc_conv)

lemma remove_top: "1 \<le> lo \<Longrightarrow> {lo..hi} - {hi} = {lo..hi - 1 :: nat}"
  by (cases hi) (auto simp: atLeastAtMostSuc_conv)

lemma versions_commit: "versions (commit_record now2 r s) = insert (mr_version r) (versions s)"
  by (auto simp: versions_def commit_record_def hm_insert_def hm_remove_def image_iff)

lemma commit_contiguous:
  assumes "contiguous s" "1 \<le> version m" "version m < 2 ^ 32" and guard: "apply_guard s m = Inr u"
  shows "contiguous (commit_record now2 (record_of now m) s)" (is "contiguous ?s")
proof -
  have ok: "current_version s = 0 \<or> version m = succ32 (current_version s)"
    using guard by (simp add: apply_guard_ok)
  have "versions ?s = insert (version m) (versions s)"
    by (simp add: versions_commit record_of_def)
  moreover have "hm_wf (applied_records ?s)" "current_version ?s = version m"
    using assms(1) by (simp_all add: commit_record_def record_of_def contiguous_def distinct_removeAll)
  moreover have "versions s = {} \<or> (\<exists>lo. 1 \<le> lo \<and> lo \<le> current_version s \<and>
      versions s = {lo..current_version s} \<and> version m = current_version s + 1)"
    using assms(1-3) ok by (auto simp: contiguous_def succ32_def mod_Suc split: if_splits)
  ultimately consider
      "versions ?s = {version m}" "hm_wf (applied_records ?s)" "current_version ?s = version m"
    | lo where "1 \<le> lo" "lo \<le> current_version s" "version m = current_version s + 1"
        "versions ?s = insert (version m) {lo..current_version s}" "hm_wf (applied_records ?s)"
        "current_version ?s = version m"
    by auto
  then show ?thesis
  proof cases
    case 1
    then show ?thesis
      using assms(2,3) unfolding contiguous_def by (auto intro: exI [of _ "version m"])
  next
    case (2 lo)
    then have "versions ?s = {lo..version m}"
      by (simp only: insert_top)
    then show ?thesis
      using 2 assms(3) unfolding contiguous_def by (auto intro: exI [of _ lo])
  qed
qed

lemma apply_contiguous:
  assumes "contiguous s" "1 \<le> version m" "version m < 2 ^ 32"
  shows "contiguous (fst (apply_migration now now2 m s))"
  using assms commit_contiguous [OF assms] by (simp add: apply_migration_def split: sum.split)

lemma apply_db_contiguous:
  assumes "contiguous s" "1 \<le> version m" "version m < 2 ^ 32"
  shows "contiguous (snd (fst (apply_migration_db ops now now2 m (db, s))))"
  using assms commit_contiguous [OF assms] by (auto simp: apply_migration_db_def Let_def split: sum.split prod.split)

lemma last_key_interval:
  "fst ` set m = {lo..hi} \<Longrightarrow> last_key m = (if lo \<le> hi then Some hi else None)"
proof (cases "lo \<le> hi")
  case True
  assume m: "fst ` set m = {lo..hi}"
  then have "m \<noteq> []"
    using True by auto
  moreover have "Max {lo..hi} = hi"
    using True by (intro Max_eqI) auto
  ultimately show ?thesis
    using True m by (simp add: last_key_def)
qed (simp add: last_key_def)

lemma drop_current_contiguous:
  assumes "contiguous s" "current_version s \<noteq> 0"
  shows "contiguous (fst (drop_current s))"
proof -
  obtain lo where lo: "1 \<le> lo" "lo \<le> current_version s" "versions s = {lo..current_version s}"
    using assms by (auto simp: contiguous_def)
  let ?rest = "hm_remove (current_version s) (applied_records s)"
  obtain r where r: "map_of (applied_records s) (current_version s) = Some r"
    using lo by (metis atLeastAtMost_iff dom_map_of_conv_image_fst domD order_refl versions_def)
  have rest: "fst ` set ?rest = {lo..current_version s - 1}"
  proof -
    have "fst ` set ?rest = versions s - {current_version s}"
      by (auto simp: versions_def)
    also have "\<dots> = {lo..current_version s - 1}"
      using lo by (simp only: remove_top)
    finally show ?thesis .
  qed
  show ?thesis
    using assms r lo rest last_key_interval [OF rest]
    by (auto simp: drop_current_def contiguous_def versions_def Let_def distinct_removeAll
        split: if_splits intro!: exI [of _ lo])
qed

lemma rollback_contiguous: "contiguous s \<Longrightarrow> contiguous (fst (rollback_last s))"
  using drop_current_contiguous by (simp add: rollback_last_def)

lemma rollback_db_contiguous: "contiguous s \<Longrightarrow> contiguous (snd (fst (rollback_last_db ops down (db, s))))"
  using drop_current_contiguous [of s] by (auto simp: rollback_last_db_def Let_def case_prod_beta split: sum.split)

lemma scan_entry_version: "scan_entry fname = Some (v, nm, path) \<Longrightarrow> v < 2 ^ 32"
  by (auto simp: scan_entry_def Let_def dest: parse_uint_bound split: option.splits if_splits prod.splits)

lemma scan_versions:
  assumes "scan_migrations dir = Inr ms"
  shows "list_all (\<lambda>(v, nm, path). v < 2 ^ 32) ms"
proof -
  have "v < 2 ^ 32" if e: "(v, nm, path) \<in> set ms" for v nm path
  proof -
    obtain fname where "scan_entry fname = Some (v, nm, path)"
      using assms e by (auto simp: scan_migrations_def map_filter_def split: option.splits sum.splits)
    then show ?thesis
      by (rule scan_entry_version)
  qed
  then show ?thesis
    by (auto simp: list_all_iff)
qed

lemma auto_apply_contiguous:
  assumes "contiguous s" "list_all (\<lambda>(v, nm, path). 1 \<le> v \<and> v < 2 ^ 32) ms"
  shows "contiguous (snd (fst (auto_apply ops read clk ms (db, s))))"
  using assms
proof (induction ms arbitrary: db s)
  case (Cons e ms)
  obtain v nm path where e: "e = (v, nm, path)"
    by (cases e)
  show ?case
  proof (cases "read_migration read path")
    case (Inr sql)
    obtain db1 s1 where r: "fst (apply_migration_db ops (clk v) (clk v) (loaded v nm sql) (db, s)) = (db1, s1)"
      by fastforce
    have "version (loaded v nm sql) = v"
      by (simp add: loaded_def)
    then have "contiguous s1"
      using apply_db_contiguous [OF Cons.prems(1), of "loaded v nm sql" ops "clk v" "clk v" db] Cons.prems(2)
      by (simp add: r e)
    then show ?thesis
      using Cons by (simp add: e Inr r)
  qed (use Cons.prems in \<open>simp add: e\<close>)
qed simp

lemma start_contiguous:
  assumes "contiguous s" "op_versions_ok (MStart ops fails now info sc dir read clk)"
  shows "contiguous (fst (snd (fst (migration_start ops fails now info sc dir read clk (db, s, f)))))"
proof -
  have ok: "list_all (\<lambda>(v, nm, path). 1 \<le> v \<and> v < 2 ^ 32) ms" if "scan_migrations dir = Inr ms" for ms
    using assms(2) scan_versions [OF that] that by (auto simp: list_all_iff)
  show ?thesis
    using assms(1) auto_apply_contiguous [OF assms(1) ok, of _ ops read clk "fst (ensure_migrations_table ops s db)"]
    by (auto simp: migration_start_def Let_def case_prod_beta split: sum.split)
qed

lemma migration_exec_contiguous:
  "op_versions_ok op \<Longrightarrow> contiguous (fst (snd st)) \<Longrightarrow> contiguous (fst (snd (migration_exec op st)))"
proof (cases st)
  case (fields db s f)
  assume ok: "op_versions_ok op" and inv: "contiguous (fst (snd st))"
  show ?thesis
  proof (cases op)
    case (MRegister m)
    then show ?thesis
      using inv by (simp add: fields register_migration_def contiguous_def versions_def)
  next
    case (MStart ops fails now info sc dir read clk)
    then show ?thesis
      using ok inv start_contiguous [of s ops fails now info sc dir read clk db f] by (simp add: fields)
  next
    case (MApplyDb ops now now2 m)
    then show ?thesis
      using ok inv apply_db_contiguous [of s m ops now now2 db] by (simp add: fields case_prod_beta)
  next
    case (MRollbackDb ops down)
    then show ?thesis
      using inv rollback_db_contiguous [of s ops down db] by (simp add: fields case_prod_beta)
  qed (use ok inv in \<open>auto simp: fields intro: apply_contiguous rollback_contiguous\<close>)
qed

lemma contiguous_last_key:
  "contiguous s \<Longrightarrow> (case last_key (applied_records s) of None \<Rightarrow> 0 | Some k \<Rightarrow> k) = current_version s"
  unfolding contiguous_def versions_def
  by (elim conjE disjE exE) (auto simp: last_key_interval, simp add: last_key_def)

lemma apply_db_no_guard:
  "apply_guard s m = Inl e \<Longrightarrow> apply_migration_db ops now now2 m (db, s) = ((db, s), Inl e)"
  by (simp add: apply_migration_db_def)

lemma apply_db_sql_fails:
  "apply_guard s m = Inr u \<Longrightarrow> has_db s \<Longrightarrow> run_sql ops db (up_sql m) = (db1, Inl e) \<Longrightarrow>
     apply_migration_db ops now now2 m (db, s) = ((db1, s), Inl (VersionConflict (version m) (version m)))"
  by (simp add: apply_migration_db_def execute_sql_def)

lemma apply_db_sql_ok:
  "apply_guard s m = Inr u \<Longrightarrow> has_db s \<Longrightarrow> run_sql ops db (up_sql m) = (db1, Inr v) \<Longrightarrow>
     apply_migration_db ops now now2 m (db, s) =
       ((fst (insert_row ops db1 (record_of now m)), commit_record now2 (record_of now m) s), Inr ())"
  by (simp add: apply_migration_db_def execute_sql_def insert_migration_record_def Let_def)

text \<open>The database variant makes the same decisions and the same change to the shim as the
  in-memory one whenever the statement succeeds or no database is configured.\<close>

lemma apply_db_agrees:
  assumes "\<not> has_db s \<or> (\<exists>u. snd (run_sql ops db (up_sql m)) = Inr u)"
  shows "snd (fst (apply_migration_db ops now now2 m (db, s))) = fst (apply_migration now now2 m s)"
    and "snd (apply_migration_db ops now now2 m (db, s)) = snd (apply_migration now now2 m s)"
  using assms
  by (auto simp: apply_migration_db_def apply_migration_def execute_sql_def Let_def
      split: sum.splits prod.splits)

section \<open>Properties\<close>

definition sample_migration :: "nat \<Rightarrow> migration" where
  "sample_migration v = loaded v ''users'' ''CREATE TABLE users''"

definition sample_shim :: migration_shim where
  "sample_shim = migration_shim_new [''MIGRATION_DATABASE'' \<mapsto> ''app'', ''MIGRATION_AUTO_MIGRATE'' \<mapsto> ''true'']"

lemma sample_shim_contiguous: "contiguous sample_shim"
  by (simp add: sample_shim_def migration_shim_new_def contiguous_def versions_def)

text \<open>C7: Over any sequence of operations on a new shim -- applying, with and without the database,
  rolling back, with and without it, registering, and the automatic run of \<^verbatim>\<open>start\<close> --
  whatever the database, the file system and the migration directory answer, the versions the shim
  holds as applied form one interval without gaps that ends in the current version, provided no
  migration has version 0.  (The code accepts version 0 and then a gap: \<^verbatim>\<open>version_zero_gap\<close>.)\<close>

theorem migrations_contiguous:
  assumes "list_all op_versions_ok ops"
  shows "contiguous (fst (snd (fold migration_exec ops (db, migration_shim_new env, f))))"
proof -
  have "contiguous (fst (snd st)) \<Longrightarrow> contiguous (fst (snd (fold migration_exec ops st)))" for st :: "'a migration_state"
    using assms
  proof (induction ops arbitrary: st)
    case (Cons op ops)
    then show ?case
      using Cons.IH [OF migration_exec_contiguous [of op st]] by simp
  qed simp
  then show ?thesis
    by (simp add: migration_shim_new_def contiguous_def versions_def)
qed

theorem migrations_contiguous_witness:
  "contiguous (fst (snd (fold migration_exec [MApply 0 0 (sample_migration 1), MApply 1 1 (sample_migration 3),
     MApply 2 2 (sample_migration 2), MRollbackDb \<lparr>run_sql = \<lambda>n sql. (n + 1, Inr ()), insert_row = \<lambda>n r. (n, Inr ()),
       delete_row = \<lambda>n v. (n, Inl ''gone'')\<rparr> None] (0 :: nat, migration_shim_new (\<lambda>_. None), None))))"
  by (rule migrations_contiguous) (simp add: sample_migration_def loaded_def)

text \<open>Version 0 is accepted, leaves the current version at 0 and with it the order check disabled:
  any version may follow.\<close>

lemma version_zero_gap:
  "versions (fst (snd (fold migration_exec [MApply 0 0 (sample_migration 0), MApply 1 1 (sample_migration 5)]
     (db, migration_shim_new env, f)))) = {0, 5}"
  by (simp add: sample_migration_def loaded_def migration_shim_new_def apply_migration_def apply_guard_def
      verify_checksum_def commit_record_def record_of_def versions_def hm_insert_def hm_remove_def insert_commute)

text \<open>Rolling back right after a migration was applied returns its record and restores
  the applied records and the current version.\<close>

theorem rollback_undoes_apply:
  assumes "contiguous s" "1 \<le> version m" "apply_migration now now2 m s = (s1, Inr ())"
  shows "snd (rollback_last s1) = Inr (record_of now m) \<and>
    applied_records (fst (rollback_last s1)) = applied_records s \<and>
    current_version (fst (rollback_last s1)) = current_version s"
proof -
  obtain u where g: "apply_guard s m = Inr u" and s1: "s1 = commit_record now2 (record_of now m) s"
    using assms(3) by (auto simp: apply_migration_def split: sum.splits)
  have "hm_remove (version m) (applied_records s) = applied_records s"
    using g by (simp add: apply_guard_ok)
  then show ?thesis
    using assms(2) contiguous_last_key [OF assms(1)]
    by (simp add: s1 rollback_last_def drop_current_def commit_record_def record_of_def Let_def)
qed

theorem rollback_undoes_apply_witness:
  "snd (rollback_last (fst (apply_migration 7 8 (sample_migration 4) sample_shim))) =
     Inr (record_of 7 (sample_migration 4))"
proof -
  have "apply_migration 7 8 (sample_migration 4) sample_shim =
      (fst (apply_migration 7 8 (sample_migration 4) sample_shim), Inr ())"
    by (simp add: apply_migration_def apply_guard_def verify_checksum_def sample_shim_def migration_shim_new_def)
  then show ?thesis
    using rollback_undoes_apply [OF sample_shim_contiguous, of "sample_migration 4" 7 8]
    by (simp add: sample_migration_def loaded_def)
qed

text \<open>A dry run predicts the outcome of applying the migration, except that it refuses
  blank SQL, which applying accepts; and its checks never report a checksum mismatch, since a
  version that was applied before is refused first.\<close>

theorem dry_run_predicts_apply:
  "(would_apply (dry_run_migration s rfc m) \<longleftrightarrow>
      snd (apply_migration now now2 m s) = Inr () \<and> trim (up_sql m) \<noteq> []) \<and>
   (\<forall>v x a. snd (apply_migration now now2 m s) \<noteq> Inl (ChecksumMismatch v x a))"
  by (auto simp: dry_run_migration_def apply_migration_def apply_guard_def verify_checksum_def Let_def
      split: option.splits if_splits)

text \<open>The first migration may fail and the automatic run still applies the second
  one: on a fresh shim, when the statement of version 1 fails and that of version 2 succeeds,
  the run ends without an error at version 2 with version 1 not applied.\<close>

theorem auto_run_skips_failed_first:
  assumes "has_db s" "current_version s = 0" "applied_records s = []"
    and "read ''1_a.up.sql'' = Inr sql1" "read ''2_b.up.sql'' = Inr sql2"
    and "run_sql ops db sql1 = (db1, Inl e)" "run_sql ops db1 sql2 = (db2, Inr u)"
  shows "snd (auto_apply ops read clk [(1, ''a'', ''1_a.up.sql''), (2, ''b'', ''2_b.up.sql'')] (db, s)) = Inr () \<and>
    (let s' = snd (fst (auto_apply ops read clk [(1, ''a'', ''1_a.up.sql''), (2, ''b'', ''2_b.up.sql'')] (db, s)))
     in current_version s' = 2 \<and> versions s' = {2})"
proof -
  have g: "apply_guard s (loaded v nm sql) = Inr ()" for v nm sql
    using assms(2,3) by (simp add: apply_guard_def verify_checksum_def)
  have "apply_migration_db ops (clk 1) (clk 1) (loaded 1 ''a'' sql1) (db, s) = ((db1, s), Inl (VersionConflict 1 1))"
    using apply_db_sql_fails [OF g assms(1)] assms(6) by (simp add: loaded_def)
  moreover have "apply_migration_db ops (clk 2) (clk 2) (loaded 2 ''b'' sql2) (db1, s) =
      ((fst (insert_row ops db2 (record_of (clk 2) (loaded 2 ''b'' sql2))),
        commit_record (clk 2) (record_of (clk 2) (loaded 2 ''b'' sql2)) s), Inr ())"
    using apply_db_sql_ok [OF g assms(1)] assms(7) by (simp add: loaded_def)
  ultimately show ?thesis
    using assms(3-5)
    by (simp add: read_migration_def versions_commit, simp add: versions_def commit_record_def record_of_def loaded_def)
qed

definition flaky_db :: "nat db_ops" where
  "flaky_db = \<lparr>run_sql = (\<lambda>n sql. (n + 1, if n = 0 then Inl ''syntax error'' else Inr ())),
     insert_row = (\<lambda>n r. (n, Inr ())), delete_row = (\<lambda>n v. (n, Inr ()))\<rparr>"

theorem auto_run_skips_failed_first_witness:
  "current_version (snd (fst (auto_apply flaky_db (\<lambda>p. Inr p) (\<lambda>_. 0)
     [(1, ''a'', ''1_a.up.sql''), (2, ''b'', ''2_b.up.sql'')] (0, sample_shim)))) = 2"
proof -
  have "has_db sample_shim" "current_version sample_shim = 0" "applied_records sample_shim = []"
    by (simp_all add: sample_shim_def migration_shim_new_def has_db_def env_str_def)
  moreover have "run_sql flaky_db 0 sql = (1, Inl ''syntax error'')" "run_sql flaky_db 1 sql = (2, Inr ())" for sql
    by (simp_all add: flaky_db_def)
  ultimately show ?thesis
    using auto_run_skips_failed_first [where read = "\<lambda>p. Inr p" and ops = flaky_db and db = 0
        and s = sample_shim and clk = "\<lambda>_. 0", OF _ _ _ refl refl] by (simp only: Let_def)
qed

text \<open>The lock is not mutually exclusive: two processes that start acquiring with no
  lock file present can both end up holding it, because the empty file that exists between
  creation and writing counts as stale and is removed by the other process.\<close>

theorem lock_race:
  "\<exists>f. lock_reachable DEFAULT_STALE_THRESHOLD_SECS (None, [LStart, LStart]) (f, [LHeld, LHeld])"
proof -
  let ?T = DEFAULT_STALE_THRESHOLD_SECS
  let ?c0 = "(None, [LStart, LStart])"
  define a where "a = \<lparr>pid = 1, hostname = ''a'', lock_created_at = 0\<rparr>"
  define b where "b = \<lparr>pid = 2, hostname = ''b'', lock_created_at = 0\<rparr>"
  note defs = check_lock_def is_stale_def create_lock_def write_lock_def no_fail_def
  have "lock_reachable ?T ?c0 (None, [LStart, LStart])" by (rule lock_base)
  from lock_next [OF this, of 0 0 a] have "lock_reachable ?T ?c0 (None, [LCreate, LStart])"
    by (simp add: defs)
  from lock_next [OF this, of 0 0 a] have "lock_reachable ?T ?c0 (Some (LockGarbage []), [LWrite, LStart])"
    by (simp add: defs)
  from lock_next [OF this, of 1 0 b] have "lock_reachable ?T ?c0 (Some (LockGarbage []), [LWrite, LRemove])"
    by (simp add: defs)
  from lock_next [OF this, of 1 0 b] have "lock_reachable ?T ?c0 (None, [LWrite, LCreate])"
    by (simp add: defs)
  from lock_next [OF this, of 1 0 b] have "lock_reachable ?T ?c0 (Some (LockGarbage []), [LWrite, LWrite])"
    by (simp add: defs)
  from lock_next [OF this, of 0 0 a] have "lock_reachable ?T ?c0 (Some (LockData a), [LHeld, LWrite])"
    by (simp add: defs)
  from lock_next [OF this, of 1 0 b] have "lock_reachable ?T ?c0 (Some (LockData b), [LHeld, LHeld])"
    by (simp add: defs)
  then show ?thesis by blast
qed

text \<open>Without interference the lock works: acquiring succeeds exactly when there is no
  lock file or it is stale and then leaves the caller's data in it; a second attempt within the
  staleness threshold fails and leaves the file alone; releasing removes it.\<close>

theorem lock_sequential:
  "(snd (acquire_lock no_fail th now info sc f) = Inr () \<longleftrightarrow>
      (case f of None \<Rightarrow> True | Some x \<Rightarrow> is_stale no_fail th now x)) \<and>
   (snd (acquire_lock no_fail th now info sc f) = Inr () \<longrightarrow>
      fst (acquire_lock no_fail th now info sc f) = Some (LockData info)) \<and>
   (as_u64 (num_seconds (now2 - lock_created_at info)) \<le> th \<longrightarrow>
      fst (acquire_lock no_fail th now2 info2 sc (Some (LockData info))) = Some (LockData info) \<and>
      snd (acquire_lock no_fail th now2 info2 sc (Some (LockData info))) \<noteq> Inr ()) \<and>
   release_lock no_fail f = (None, Inr ())"
  by (auto simp: acquire_lock_def check_lock_def is_stale_def create_lock_def write_lock_def
      release_lock_def no_fail_def Let_def split: option.splits lock_content.splits)

theorem lock_sequential_witness:
  "snd (acquire_lock no_fail 3600 (10 * second) \<lparr>pid = 2, hostname = ''b'', lock_created_at = 10 * second\<rparr>
     (\<lambda>_. []) (Some (LockData \<lparr>pid = 1, hostname = ''a'', lock_created_at = 0\<rparr>))) \<noteq> Inr ()"
  using lock_sequential [of 3600 0 "\<lparr>pid = 1, hostname = ''a'', lock_created_at = 0\<rparr>" "\<lambda>_. []" None
      "10 * second" "\<lparr>pid = 2, hostname = ''b'', lock_created_at = 10 * second\<rparr>"]
  by (simp add: num_seconds_def)

text \<open>A file named version, underscore, name and the up suffix parses back into that
  version and name.\<close>

theorem parse_filename_roundtrip:
  assumes "parse_uint 32 ds = Some v" "\<not> ends_with nm ''.up.sql''" "\<not> ends_with nm ''.down.sql''"
  shows "parse_version (ds @ ''_'' @ nm @ ''.up.sql'') = Inr v \<and>
    parse_name (ds @ ''_'' @ nm @ ''.up.sql'') = nm"
proof -
  let ?s = "ds @ CHR ''_'' # nm"
  have us: "CHR ''_'' \<notin> set ds"
    using parse_uint_chars [OF assms(1), of "CHR ''_''"] by (auto simp: is_digit_def)
  have "\<not> ends_with ?s ''.up.sql''" "\<not> ends_with ?s ''.down.sql''"
    using assms(2,3) ends_with_after [of ds "CHR ''_''" nm] by auto
  then have "strip_suffixes (?s @ ''.up.sql'') = ?s"
    by (simp only: strip_suffixes_def trim_end_matches_one trim_end_matches_id list.simps simp_thms)
  then show ?thesis
    using assms(1) us by (simp add: parse_version_def parse_name_def splitn2_digits)
qed

theorem parse_filename_roundtrip_witness:
  "parse_version ''001_create_users.up.sql'' = Inr 1 \<and> parse_name ''001_create_users.up.sql'' = ''create_users''"
  using parse_filename_roundtrip [of "''001''" 1 "''create_users''"]
  by (simp add: parse_uint_def is_digit_def digit_val_def ends_with_def)

text \<open>Changing a single byte of a migration's SQL always changes its checksum.\<close>

theorem checksum_detects_byte_change:
  assumes "c \<noteq> d"
  shows "compute_checksum (pre @ c # post) \<noteq> compute_checksum (pre @ d # post)"
  using fnv1a_one_byte [OF assms] by (simp add: compute_checksum_eq_iff)

theorem checksum_detects_byte_change_witness:
  "compute_checksum ''DROP TABLE a'' \<noteq> compute_checksum ''DROP TABLE b''"
  using checksum_detects_byte_change [of "CHR ''a''" "CHR ''b''" "''DROP TABLE ''" "[]"] by simp

end
