(* ===== verification/Auth.thy ===== *)
theory Auth
  imports Prelude
begin

text \<open>
  \<^verbatim>\<open>auth-shim/src/lib.rs\<close>: tokens, API keys, passwords, login lockout and role
  checks.  HMAC-SHA256 (crate \<^verbatim>\<open>hmac\<close>) is the parameter \<^verbatim>\<open>hm\<close>, from a key and a
  message to a tag; it takes keys of any size, so the branches in which the
  key is refused do not exist here.  \<^verbatim>\<open>verify_slice\<close> compares tags for equality.
  Random identifiers and salts are arguments; time stamps are times instead of
  RFC 3339 strings.
\<close>

section \<open>Hexadecimal\<close>

definition hex_encode :: "u8 list \<Rightarrow> string" where
  "hex_encode bs = concat (map (\<lambda>b. show_hex 2 (unat b)) bs)"

definition hex_val :: "char \<Rightarrow> nat option" where
  "hex_val c = (let n = (of_char c :: nat) in
     if 48 \<le> n \<and> n \<le> 57 then Some (n - 48)
     else if 97 \<le> n \<and> n \<le> 102 then Some (n - 87)
     else if 65 \<le> n \<and> n \<le> 70 then Some (n - 55)
     else None)"

text \<open>\<^verbatim>\<open>u8::from_str_radix(.., 16)\<close> on two characters; a leading plus sign is accepted.\<close>

definition from_str_radix16 :: "char \<Rightarrow> char \<Rightarrow> u8 option" where
  "from_str_radix16 a b =
    (if a = CHR ''+'' then map_option of_nat (hex_val b)
     else (case (hex_val a, hex_val b) of
             (Some x, Some y) \<Rightarrow> Some (of_nat (16 * x + y))
           | _ \<Rightarrow> None))"

text \<open>A slice bound inside a multi-byte character panics.\<close>

definition is_continuation :: "char \<Rightarrow> bool" where
  "is_continuation c = (let n = (of_char c :: nat) in 128 \<le> n \<and> n \<le> 191)"

fun hex_pairs :: "string \<Rightarrow> u8 list option outcome" where
  "hex_pairs [] = Returns (Some [])"
| "hex_pairs [a] = Returns None"
| "hex_pairs (a # b # r) =
    (if is_continuation a \<or> (r \<noteq> [] \<and> is_continuation (hd r)) then Panics
     else (case from_str_radix16 a b of
             None \<Rightarrow> Returns None
           | Some v \<Rightarrow>
               (case hex_pairs r of
                  Returns (Some vs) \<Rightarrow> Returns (Some (v # vs))
                | Returns None \<Rightarrow> Returns None
                | Panics \<Rightarrow> Panics)))"

definition hex_decode :: "string \<Rightarrow> u8 list option outcome" where
  "hex_decode s = (if odd (length s) then Returns None else hex_pairs s)"

section \<open>Data\<close>

datatype role = Admin | ReadWrite | ReadOnly | Denied

fun role_display :: "role \<Rightarrow> string" where
  "role_display Admin = ''admin''"
| "role_display ReadWrite = ''readwrite''"
| "role_display ReadOnly = ''readonly''"
| "role_display Denied = ''denied''"

definition role_from_str :: "string \<Rightarrow> string + role" where
  "role_from_str s =
    (let l = to_lowercase s in
     if l = ''admin'' then Inr Admin
     else if l = ''readwrite'' \<or> l = ''rw'' then Inr ReadWrite
     else if l = ''readonly'' \<or> l = ''ro'' then Inr ReadOnly
     else if l = ''denied'' then Inr Denied
     else Inl (''Unknown role: '' @ s))"

record api_key =
  key_id :: string
  key_name :: string
  key_hash :: string
  key_role :: role
  key_created_at :: time
  last_used :: "time option"
  revoked :: bool

record auth_result =
  authenticated :: bool
  auth_user :: "string option"
  auth_role :: "role option"
  auth_reason :: "string option"

record stored_token =
  token_hash :: string
  tok_user :: string
  tok_role :: role
  issued_at :: time
  tok_expires_at :: time
  source_ip :: "string option"

record auth_shim =
  auth_method :: string
  ldap_url :: "string option"
  ldap_base :: "string option"
  oauth_issuer :: "string option"
  oauth_audience :: "string option"
  token_expiry_secs :: u64
  max_failed_logins :: nat
  lockout_secs :: u64
  auth_success :: nat
  auth_failure :: nat
  tokens :: "(string, stored_token) hmap"
  api_keys :: "(string, api_key) hmap"
  failed_attempts :: "(string, nat) hmap"
  locked_users :: "(string, time) hmap"
  hmac_key :: "u8 list"

definition auth_shim_new :: "env \<Rightarrow> u8 list \<Rightarrow> auth_shim outcome" where
  "auth_shim_new env uuid_bytes =
    (let mk = (\<lambda>key. Returns
       \<lparr>auth_method = env_str env ''AUTH_METHOD'' ''password'',
        ldap_url = env ''AUTH_LDAP_URL'', ldap_base = env ''AUTH_LDAP_BASE'',
        oauth_issuer = env ''AUTH_OAUTH_ISSUER'', oauth_audience = env ''AUTH_OAUTH_AUDIENCE'',
        token_expiry_secs = of_nat (env_uint 64 env ''AUTH_TOKEN_EXPIRY_SECS'' 3600),
        max_failed_logins = env_uint 32 env ''AUTH_MAX_FAILED_LOGINS'' 5,
        lockout_secs = of_nat (env_uint 64 env ''AUTH_LOCKOUT_SECS'' 300),
        auth_success = 0, auth_failure = 0, tokens = [], api_keys = [],
        failed_attempts = [], locked_users = [], hmac_key = key\<rparr>)
     in case env ''AUTH_HMAC_KEY'' of
          None \<Rightarrow> mk uuid_bytes
        | Some k \<Rightarrow>
            (case hex_decode k of
               Panics \<Rightarrow> Panics
             | Returns None \<Rightarrow> mk uuid_bytes
             | Returns (Some bs) \<Rightarrow> mk bs))"

section \<open>Tokens\<close>

definition hmac_hash :: "(u8 list \<Rightarrow> u8 list \<Rightarrow> u8 list) \<Rightarrow> auth_shim \<Rightarrow> u8 list \<Rightarrow> string" where
  "hmac_hash hm s msg = hex_encode (hm (hmac_key s) msg)"

definition token_text :: "string \<Rightarrow> string \<Rightarrow> string" where
  "token_text tid secret = tid @ ''.'' @ secret"

definition create_token ::
  "(u8 list \<Rightarrow> u8 list \<Rightarrow> u8 list) \<Rightarrow> string \<Rightarrow> string \<Rightarrow> time \<Rightarrow> string \<Rightarrow> role \<Rightarrow> string option
   \<Rightarrow> auth_shim \<Rightarrow> auth_shim \<times> string" where
  "create_token hm tid secret now user r ip s =
    (let tok = token_text tid secret;
         stored = \<lparr>token_hash = hmac_hash hm s (str_bytes tok), tok_user = user, tok_role = r,
                   issued_at = now, tok_expires_at = now + second * sint (token_expiry_secs s),
                   source_ip = ip\<rparr>
     in (s\<lparr>tokens := hm_insert tid stored (tokens s)\<rparr>, tok))"

definition refuse :: "string option \<Rightarrow> role option \<Rightarrow> string \<Rightarrow> auth_shim \<Rightarrow> (auth_shim \<times> auth_result) outcome" where
  "refuse u r why s = Returns (s\<lparr>auth_failure := auth_failure s + 1\<rparr>,
     \<lparr>authenticated = False, auth_user = u, auth_role = r, auth_reason = Some why\<rparr>)"

definition accept :: "string \<Rightarrow> role \<Rightarrow> auth_shim \<Rightarrow> (auth_shim \<times> auth_result) outcome" where
  "accept u r s = Returns (s\<lparr>auth_success := auth_success s + 1\<rparr>,
     \<lparr>authenticated = True, auth_user = Some u, auth_role = Some r, auth_reason = None\<rparr>)"

definition validate_token ::
  "(u8 list \<Rightarrow> u8 list \<Rightarrow> u8 list) \<Rightarrow> time \<Rightarrow> string \<Rightarrow> auth_shim \<Rightarrow> (auth_shim \<times> auth_result) outcome" where
  "validate_token hm now token s =
    (case splitn2 (CHR ''.'') token of
       (tid, None) \<Rightarrow> refuse None None ''Invalid token format'' s
     | (tid, Some _) \<Rightarrow>
         (case map_of (tokens s) tid of
            None \<Rightarrow> refuse None None ''Token not found'' s
          | Some st \<Rightarrow>
              (case hex_decode (token_hash st) of
                 Panics \<Rightarrow> Panics
               | Returns None \<Rightarrow> refuse None None ''Internal error'' s
               | Returns (Some expected) \<Rightarrow>
                   if hm (hmac_key s) (str_bytes token) \<noteq> expected then
                     refuse None None ''Token verification failed'' s
                   else if tok_expires_at st < now then
                     refuse (Some (tok_user st)) None ''Token expired'' s
                   else if tok_role st = Denied then
                     refuse (Some (tok_user st)) (Some Denied) ''User role is denied'' s
                   else accept (tok_user st) (tok_role st) s)))"

definition revoke_token :: "string \<Rightarrow> auth_shim \<Rightarrow> auth_shim \<times> bool" where
  "revoke_token tid s = (s\<lparr>tokens := hm_remove tid (tokens s)\<rparr>, map_of (tokens s) tid \<noteq> None)"

section \<open>API keys\<close>

definition register_api_key :: "api_key \<Rightarrow> auth_shim \<Rightarrow> auth_shim" where
  "register_api_key k s = s\<lparr>api_keys := hm_insert (key_id k) k (api_keys s)\<rparr>"

definition hash_api_key :: "(u8 list \<Rightarrow> u8 list \<Rightarrow> u8 list) \<Rightarrow> auth_shim \<Rightarrow> string \<Rightarrow> string" where
  "hash_api_key hm s key = hmac_hash hm s (str_bytes key)"

definition validate_api_key ::
  "(u8 list \<Rightarrow> u8 list \<Rightarrow> u8 list) \<Rightarrow> string \<Rightarrow> string \<Rightarrow> auth_shim \<Rightarrow> (auth_shim \<times> auth_result) outcome" where
  "validate_api_key hm kid provided s =
    (case map_of (api_keys s) kid of
       None \<Rightarrow> refuse None None ''API key not found'' s
     | Some k \<Rightarrow>
         if revoked k then refuse None None ''API key revoked'' s
         else
           (case hex_decode (key_hash k) of
              Panics \<Rightarrow> Panics
            | Returns None \<Rightarrow> refuse None None ''Invalid key hash'' s
            | Returns (Some expected) \<Rightarrow>
                if hm (hmac_key s) (str_bytes provided) \<noteq> expected then
                  refuse None None ''API key verification failed'' s
                else accept (key_name k) (key_role k) s))"

definition revoke_api_key :: "string \<Rightarrow> auth_shim \<Rightarrow> auth_shim \<times> bool" where
  "revoke_api_key kid s =
    (case map_of (api_keys s) kid of
       Some _ \<Rightarrow> (s\<lparr>api_keys := hm_update kid (\<lambda>k. k\<lparr>revoked := True\<rparr>) (api_keys s)\<rparr>, True)
     | None \<Rightarrow> (s, False))"

section \<open>Passwords, lockout, permissions\<close>

definition hash_password :: "(u8 list \<Rightarrow> u8 list \<Rightarrow> u8 list) \<Rightarrow> u8 list \<Rightarrow> string \<Rightarrow> string" where
  "hash_password hm salt password =
     hex_encode salt @ '':'' @ hex_encode (hm salt (str_bytes password))"

definition verify_password ::
  "(u8 list \<Rightarrow> u8 list \<Rightarrow> u8 list) \<Rightarrow> string \<Rightarrow> string \<Rightarrow> bool outcome" where
  "verify_password hm password stored =
    (case splitn2 (CHR '':'') stored of
       (_, None) \<Rightarrow> Returns False
     | (a, Some b) \<Rightarrow>
         (case hex_decode a of
            Panics \<Rightarrow> Panics
          | Returns None \<Rightarrow> Returns False
          | Returns (Some salt) \<Rightarrow>
              (case hex_decode b of
                 Panics \<Rightarrow> Panics
               | Returns None \<Rightarrow> Returns False
               | Returns (Some expected) \<Rightarrow> Returns (hm salt (str_bytes password) = expected))))"

definition failed_count :: "auth_shim \<Rightarrow> string \<Rightarrow> nat" where
  "failed_count s user = (case map_of (failed_attempts s) user of None \<Rightarrow> 0 | Some n \<Rightarrow> n)"

definition record_failed_login :: "time \<Rightarrow> string \<Rightarrow> auth_shim \<Rightarrow> auth_shim \<times> bool" where
  "record_failed_login now user s =
    (let attempts = (case map_of (failed_attempts s) user of None \<Rightarrow> 0 | Some n \<Rightarrow> n) + 1;
         s1 = s\<lparr>failed_attempts := hm_insert user attempts (failed_attempts s)\<rparr>
     in if max_failed_logins s \<le> attempts then
          (s1\<lparr>locked_users := hm_insert user now (locked_users s1)\<rparr>, True)
        else (s1, False))"

definition is_locked_out :: "time \<Rightarrow> string \<Rightarrow> auth_shim \<Rightarrow> bool" where
  "is_locked_out now user s =
    (case map_of (locked_users s) user of
       Some locked_at \<Rightarrow> num_seconds (now - locked_at) < sint (lockout_secs s)
     | None \<Rightarrow> False)"

definition clear_failed_attempts :: "string \<Rightarrow> auth_shim \<Rightarrow> auth_shim" where
  "clear_failed_attempts user s =
     s\<lparr>failed_attempts := hm_remove user (failed_attempts s),
       locked_users := hm_remove user (locked_users s)\<rparr>"

fun check_permission :: "role \<Rightarrow> role \<Rightarrow> bool" where
  "check_permission Admin _ = True"
| "check_permission ReadWrite ReadWrite = True"
| "check_permission ReadWrite ReadOnly = True"
| "check_permission ReadOnly ReadOnly = True"
| "check_permission _ _ = False"

definition auth_metrics :: "auth_shim \<Rightarrow> metric list" where
  "auth_metrics s =
    [(''auth_success_total'', of_nat (auth_success s)),
     (''auth_failure_total'', of_nat (auth_failure s)),
     (''auth_active_tokens'', of_nat (length (tokens s))),
     (''auth_api_keys_total'', of_nat (length (api_keys s))),
     (''auth_locked_users'', of_nat (length (locked_users s)))]"

section \<open>Hexadecimal round trip\<close>

lemma hex_char_props:
  assumes "d < 16"
  shows "hex_val (hex_char d) = Some d" "\<not> is_continuation (hex_char d)" "hex_char d \<noteq> CHR ''+''"
    "hex_char d \<noteq> CHR '':''"
proof -
  have n: "(of_char (hex_char d) :: nat) = (if d < 10 then 48 + d else 87 + d)"
    using assms by (simp add: hex_char_def)
  then show "hex_val (hex_char d) = Some d" "\<not> is_continuation (hex_char d)"
    using assms by (simp_all add: hex_val_def is_continuation_def)
  have "hex_char d = c \<Longrightarrow> (of_char c :: nat) = (if d < 10 then 48 + d else 87 + d)" for c
    using n by simp
  from this [of "CHR ''+''"] this [of "CHR '':''"] assms
  show "hex_char d \<noteq> CHR ''+''" "hex_char d \<noteq> CHR '':''"
    by (auto split: if_splits)
qed

lemma show_hex_2: "b < 256 \<Longrightarrow> show_hex 2 b = [hex_char (b div 16), hex_char (b mod 16)]"
  by (simp add: numeral_2_eq_2)

lemma unat_u8_less: "unat (b :: u8) < 256"
  using unsigned_less [where 'a = nat and w = b] by simp

lemma hex_pair: "from_str_radix16 (hex_char (unat b div 16)) (hex_char (unat b mod 16)) = Some (b :: u8)"
proof -
  have "unat b div 16 < 16" "unat b mod 16 < 16"
    using unat_u8_less [of b] by (simp_all add: less_mult_imp_div_less)
  then show ?thesis
    by (simp add: from_str_radix16_def hex_char_props)
qed

lemma hex_encode_Cons:
  "hex_encode (b # bs) = hex_char (unat b div 16) # hex_char (unat b mod 16) # hex_encode bs"
  by (simp add: hex_encode_def show_hex_2 unat_u8_less)

lemma hex_encode_Nil [simp]: "hex_encode [] = []"
  by (simp add: hex_encode_def)

lemma length_hex_encode [simp]: "length (hex_encode bs) = 2 * length bs"
  by (induction bs) (simp_all add: hex_encode_Cons)

lemma hex_encode_chars: "x \<in> set (hex_encode bs) \<Longrightarrow> \<exists>d<16. x = hex_char d"
proof (induction bs)
  case (Cons b bs)
  have "unat b div 16 < 16" "unat b mod 16 < 16"
    using unat_u8_less [of b] by (simp_all add: less_mult_imp_div_less)
  then show ?case
    using Cons unfolding hex_encode_Cons by (metis set_ConsD)
qed simp

lemma hex_encode_plain:
  "x \<in> set (hex_encode bs) \<Longrightarrow> \<not> is_continuation x \<and> x \<noteq> CHR '':''"
  by (metis hex_encode_chars hex_char_props(2,4))

lemma hex_pairs_encode: "hex_pairs (hex_encode bs) = Returns (Some bs)"
proof (induction bs)
  case (Cons b bs)
  have "unat b div 16 < 16"
    using unat_u8_less [of b] by (simp add: less_mult_imp_div_less)
  moreover have "hex_encode bs \<noteq> [] \<Longrightarrow> \<not> is_continuation (hd (hex_encode bs))"
    using hex_encode_plain list.set_sel(1) by blast
  ultimately show ?case
    using Cons by (auto simp: hex_encode_Cons hex_char_props hex_pair)
qed simp

lemma hex_decode_encode [simp]: "hex_decode (hex_encode bs) = Returns (Some bs)"
  by (simp add: hex_decode_def hex_pairs_encode)

section \<open>Tokens that are accepted were issued\<close>

datatype auth_op =
    ACreate string string time string role "string option"
  | AValidate time string
  | ARevoke string
  | ARegisterKey api_key
  | AValidateKey string string
  | ARevokeKey string
  | AFailLogin time string
  | AClear string

definition after :: "auth_shim \<Rightarrow> (auth_shim \<times> 'r) outcome \<Rightarrow> auth_shim" where
  "after s r = (case r of Returns (s', _) \<Rightarrow> s' | Panics \<Rightarrow> s)"

fun auth_exec :: "(u8 list \<Rightarrow> u8 list \<Rightarrow> u8 list) \<Rightarrow> auth_op \<Rightarrow> auth_shim \<Rightarrow> auth_shim" where
  "auth_exec hm (ACreate tid sec now u r ip) s = fst (create_token hm tid sec now u r ip s)"
| "auth_exec hm (AValidate now tok) s = after s (validate_token hm now tok s)"
| "auth_exec hm (ARevoke tid) s = fst (revoke_token tid s)"
| "auth_exec hm (ARegisterKey k) s = register_api_key k s"
| "auth_exec hm (AValidateKey kid key) s = after s (validate_api_key hm kid key s)"
| "auth_exec hm (ARevokeKey kid) s = fst (revoke_api_key kid s)"
| "auth_exec hm (AFailLogin now u) s = fst (record_failed_login now u s)"
| "auth_exec hm (AClear u) s = clear_failed_attempts u s"

text \<open>What has been granted by a sequence of calls, without hashes or hexadecimal: creating a token grants
  it to its user with its role until its expiry, in place of an earlier one with the same identifier;
  revoking an identifier withdraws its grant; no other call changes a grant.\<close>

record grant =
  gr_token :: string
  gr_user :: string
  gr_role :: role
  gr_expires :: time

fun grant_step :: "u64 \<Rightarrow> auth_op \<Rightarrow> (string \<rightharpoonup> grant) \<Rightarrow> (string \<rightharpoonup> grant)" where
  "grant_step life (ACreate tid sec now u r ip) g =
    g(tid \<mapsto> \<lparr>gr_token = tid @ ''.'' @ sec, gr_user = u, gr_role = r, gr_expires = now + second * sint life\<rparr>)"
| "grant_step life (ARevoke tid) g = g(tid := None)"
| "grant_step life _ g = g"

definition grants :: "u64 \<Rightarrow> auth_op list \<Rightarrow> string \<rightharpoonup> grant" where
  "grants life ops = fold (grant_step life) ops Map.empty"

text \<open>The stored tokens are the grants with the token text replaced by its tag.\<close>

definition stores_grants ::
  "(u8 list \<Rightarrow> u8 list \<Rightarrow> u8 list) \<Rightarrow> u8 list \<Rightarrow> u64 \<Rightarrow> (string \<rightharpoonup> grant) \<Rightarrow> auth_shim \<Rightarrow> bool" where
  "stores_grants hm key life G s \<longleftrightarrow> hmac_key s = key \<and> token_expiry_secs s = life \<and>
    (\<forall>tid. map_option (\<lambda>t. (token_hash t, tok_user t, tok_role t, tok_expires_at t)) (map_of (tokens s) tid) =
      map_option (\<lambda>g. (hex_encode (hm key (str_bytes (gr_token g))), gr_user g, gr_role g, gr_expires g)) (G tid))"

lemma after_validate [simp]:
  "tokens (after s (validate_token hm now tok s)) = tokens s"
  "hmac_key (after s (validate_token hm now tok s)) = hmac_key s"
  "token_expiry_secs (after s (validate_token hm now tok s)) = token_expiry_secs s"
  "tokens (after s (validate_api_key hm kid key s)) = tokens s"
  "hmac_key (after s (validate_api_key hm kid key s)) = hmac_key s"
  "token_expiry_secs (after s (validate_api_key hm kid key s)) = token_expiry_secs s"
  by (auto simp: after_def validate_token_def validate_api_key_def refuse_def accept_def
      split: option.splits prod.splits outcome.splits)

lemma auth_exec_grants:
  "stores_grants hm key life G s \<Longrightarrow> stores_grants hm key life (grant_step life op G) (auth_exec hm op s)"
  by (cases op)
    (simp_all add: stores_grants_def create_token_def hmac_hash_def token_text_def revoke_token_def register_api_key_def
      revoke_api_key_def record_failed_login_def clear_failed_attempts_def Let_def split: option.split)

lemma auth_run_grants:
  "stores_grants hm key life G s \<Longrightarrow>
   stores_grants hm key life (fold (grant_step life) ops G) (fold (auth_exec hm) ops s)"
  by (induction ops arbitrary: G s) (simp_all add: auth_exec_grants)

lemma splitn2_spec: "splitn2 c s = (if c \<in> set s then (takeWhile (\<lambda>x. x \<noteq> c) s, Some (tl (dropWhile (\<lambda>x. x \<noteq> c) s)))
    else (s, None))"
  by (induction s) (auto split: prod.splits)

lemma validate_accepts:
  "(\<exists>s'. validate_token hm now tok s = Returns (s', res) \<and> authenticated res) \<longleftrightarrow>
     (\<exists>t expected. CHR ''.'' \<in> set tok \<and> map_of (tokens s) (takeWhile (\<lambda>c. c \<noteq> CHR ''.'') tok) = Some t \<and>
        hex_decode (token_hash t) = Returns (Some expected) \<and>
        hm (hmac_key s) (str_bytes tok) = expected \<and> now \<le> tok_expires_at t \<and> tok_role t \<noteq> Denied \<and>
        res = \<lparr>authenticated = True, auth_user = Some (tok_user t), auth_role = Some (tok_role t), auth_reason = None\<rparr>)"
  by (auto simp: validate_token_def splitn2_spec refuse_def accept_def not_less
      split: option.splits outcome.splits if_splits)

lemma splitn2_first: "c \<notin> set a \<Longrightarrow> splitn2 c (a @ [c] @ b) = (a, Some b)"
  by (simp add: splitn2_digits)

lemma failures_count:
  "failed_count (fst (record_failed_login now u s)) v =
     (if v = u then failed_count s u + 1 else failed_count s v)"
  by (auto simp: record_failed_login_def failed_count_def Let_def)

lemma record_failed_login_locks:
  "snd (record_failed_login now u s) \<longleftrightarrow> max_failed_logins s \<le> failed_count s u + 1"
  by (simp add: record_failed_login_def failed_count_def Let_def)

section \<open>Properties\<close>

definition sample_auth :: auth_shim where
  "sample_auth = \<lparr>auth_method = ''password'', ldap_url = None, ldap_base = None,
     oauth_issuer = None, oauth_audience = None, token_expiry_secs = 3600, max_failed_logins = 5,
     lockout_secs = 300, auth_success = 0, auth_failure = 0, tokens = [], api_keys = [],
     failed_attempts = [], locked_users = [], hmac_key = [1, 2]\<rparr>"

text \<open>C10: A token is accepted exactly for a current grant.  Starting from a shim without tokens, after
  any sequence of calls and for any keyed hash whatever, a presented text authenticates user \<^verbatim>\<open>u\<close>
  with role \<^verbatim>\<open>r\<close> if and only if the part before its first dot is the identifier of a token that was created
  for that user and role and has not been revoked or replaced since, its tag under the
  shim's key equals the tag of that very token, the token has not expired, and the role is not
  denied.  So nothing is accepted but an issued token (and what collides with it under the keyed
  hash), and every issued token is, until it expires or is withdrawn.\<close>

theorem accepted_token_was_issued:
  assumes "tokens s0 = []" and "s = fold (auth_exec hm) ops s0"
  shows "(\<exists>s' res. validate_token hm now tok s = Returns (s', res) \<and> authenticated res
      \<and> auth_user res = Some u \<and> auth_role res = Some r) \<longleftrightarrow>
    CHR ''.'' \<in> set tok \<and>
    (\<exists>g. grants (token_expiry_secs s0) ops (takeWhile (\<lambda>c. c \<noteq> CHR ''.'') tok) = Some g \<and>
      hm (hmac_key s0) (str_bytes tok) = hm (hmac_key s0) (str_bytes (gr_token g)) \<and>
      now \<le> gr_expires g \<and> gr_role g \<noteq> Denied \<and> gr_user g = u \<and> gr_role g = r)"
proof -
  let ?id = "takeWhile (\<lambda>c. c \<noteq> CHR ''.'') tok"
  have "stores_grants hm (hmac_key s0) (token_expiry_secs s0) (grants (token_expiry_secs s0) ops) s"
    unfolding assms(2) grants_def by (rule auth_run_grants) (simp add: stores_grants_def assms(1))
  then have key: "hmac_key s = hmac_key s0"
    and stored: "map_option (\<lambda>t. (token_hash t, tok_user t, tok_role t, tok_expires_at t)) (map_of (tokens s) ?id) =
      map_option (\<lambda>g. (hex_encode (hm (hmac_key s0) (str_bytes (gr_token g))), gr_user g, gr_role g, gr_expires g))
        (grants (token_expiry_secs s0) ops ?id)"
    by (simp_all add: stores_grants_def)
  have accepts: "(\<exists>s' res. validate_token hm now tok s = Returns (s', res) \<and> authenticated res
      \<and> auth_user res = Some u \<and> auth_role res = Some r) \<longleftrightarrow>
    (\<exists>t expected. CHR ''.'' \<in> set tok \<and> map_of (tokens s) ?id = Some t \<and>
        hex_decode (token_hash t) = Returns (Some expected) \<and> hm (hmac_key s) (str_bytes tok) = expected \<and>
        now \<le> tok_expires_at t \<and> tok_role t \<noteq> Denied \<and> tok_user t = u \<and> tok_role t = r)"
    (is "?L \<longleftrightarrow> ?R")
  proof -
    have "?L \<longleftrightarrow> (\<exists>res. (\<exists>s'. validate_token hm now tok s = Returns (s', res) \<and> authenticated res)
        \<and> auth_user res = Some u \<and> auth_role res = Some r)"
      by blast
    also have "\<dots> \<longleftrightarrow> ?R"
      unfolding validate_accepts by auto
    finally show ?thesis .
  qed
  show ?thesis
  proof (cases "grants (token_expiry_secs s0) ops ?id")
    case None
    then have "map_of (tokens s) ?id = None"
      using stored by simp
    then show ?thesis
      unfolding accepts using None by simp
  next
    case (Some g)
    then obtain t where t: "map_of (tokens s) ?id = Some t"
      "token_hash t = hex_encode (hm (hmac_key s0) (str_bytes (gr_token g)))"
      "tok_user t = gr_user g" "tok_role t = gr_role g" "tok_expires_at t = gr_expires g"
      using stored by (cases "map_of (tokens s) ?id") simp_all
    show ?thesis
      unfolding accepts by (auto simp: t Some key)
  qed
qed

text \<open>A keyed hash with tags of 32 bytes, for examples.\<close>

definition toy_mac :: "u8 list \<Rightarrow> u8 list \<Rightarrow> u8 list" where
  "toy_mac key msg = take 32 (key @ msg @ replicate 32 0)"

theorem accepted_token_was_issued_witness:
  "(\<exists>s' res. validate_token toy_mac 5 ''ab.cd'' (fold (auth_exec toy_mac)
       [ACreate ''ab'' ''cd'' 0 ''bob'' Admin None, ACreate ''ef'' ''gh'' 0 ''eve'' ReadOnly None, ARevoke ''ef''] sample_auth)
     = Returns (s', res) \<and> authenticated res \<and> auth_user res = Some ''bob'' \<and> auth_role res = Some Admin) \<and>
   grants 3600 [ACreate ''ab'' ''cd'' 0 ''bob'' Admin None, ACreate ''ef'' ''gh'' 0 ''eve'' ReadOnly None, ARevoke ''ef''] ''ef'' = None"
  using accepted_token_was_issued [of sample_auth _ toy_mac
      "[ACreate ''ab'' ''cd'' 0 ''bob'' Admin None, ACreate ''ef'' ''gh'' 0 ''eve'' ReadOnly None, ARevoke ''ef'']"
      5 "''ab.cd''" "''bob''" Admin, OF _ refl]
  by (simp add: grants_def sample_auth_def)

text \<open>A token just created (with an identifier free of dots, as UUIDs are, and a role
  other than denied) authenticates its user with its role until it expires, is refused after
  its expiry, and is not found once it is revoked.\<close>

theorem token_lifecycle:
  assumes "CHR ''.'' \<notin> set tid" "r \<noteq> Denied"
    and "create_token hm tid secret t0 user r ip s = (s1, tok)"
  shows "(t \<le> t0 + second * sint (token_expiry_secs s) \<longrightarrow> validate_token hm t tok s1 = accept user r s1) \<and>
    (t0 + second * sint (token_expiry_secs s) < t \<longrightarrow>
       validate_token hm t tok s1 = refuse (Some user) None ''Token expired'' s1) \<and>
    validate_token hm t tok (fst (revoke_token tid s1)) =
      refuse None None ''Token not found'' (fst (revoke_token tid s1))"
proof -
  have tok: "tok = tid @ [CHR ''.''] @ secret"
    using assms(3) by (simp add: create_token_def token_text_def Let_def)
  have sp: "splitn2 (CHR ''.'') tok = (tid, Some secret)"
    unfolding tok using assms(1) by (rule splitn2_first)
  obtain st where st: "map_of (tokens s1) tid = Some st"
      "token_hash st = hex_encode (hm (hmac_key s1) (str_bytes tok))" "tok_user st = user" "tok_role st = r"
      "tok_expires_at st = t0 + second * sint (token_expiry_secs s)"
    using assms(3) by (auto simp: create_token_def hmac_hash_def Let_def)
  show ?thesis
    using assms(2) st by (auto simp: validate_token_def sp revoke_token_def)
qed

theorem token_lifecycle_witness:
  "validate_token toy_mac 5 ''ab.cd'' (fst (create_token toy_mac ''ab'' ''cd'' 0 ''bob'' Admin None sample_auth)) =
     accept ''bob'' Admin (fst (create_token toy_mac ''ab'' ''cd'' 0 ''bob'' Admin None sample_auth))"
proof -
  have "create_token toy_mac ''ab'' ''cd'' 0 ''bob'' Admin None sample_auth =
      (fst (create_token toy_mac ''ab'' ''cd'' 0 ''bob'' Admin None sample_auth), ''ab.cd'')"
    by (simp add: create_token_def token_text_def Let_def)
  moreover have "(5 :: int) \<le> 0 + second * sint (token_expiry_secs sample_auth)"
    by (simp add: sample_auth_def)
  ultimately show ?thesis
    using token_lifecycle [of "''ab''" Admin toy_mac "''cd''" 0 "''bob''" None sample_auth] by auto
qed

text \<open>A password verifies against its own stored hash, and another password verifies
  only if it has the same tag under the same salt.\<close>

theorem password_roundtrip:
  "verify_password hm pw' (hash_password hm salt pw) =
     Returns (hm salt (str_bytes pw') = hm salt (str_bytes pw))"
proof -
  have "CHR '':'' \<notin> set (hex_encode salt)"
    using hex_encode_plain by blast
  then have "splitn2 (CHR '':'') (hash_password hm salt pw) =
      (hex_encode salt, Some (hex_encode (hm salt (str_bytes pw))))"
    by (simp add: hash_password_def splitn2_digits)
  then show ?thesis
    by (simp add: verify_password_def)
qed

text \<open>Hexadecimal decoding inverts encoding, and decoding also accepts a plus sign in place
  of a leading zero digit, so it is not injective, and panics on a non-ASCII string of even
  length.\<close>

theorem hex_codec:
  "hex_decode (hex_encode bs) = Returns (Some bs) \<and>
   hex_decode ''+f'' = hex_decode ''0f'' \<and>
   hex_decode [CHR ''a'', CHR 0xC3, CHR 0xA9, CHR ''b''] = Panics"
  by (simp add: hex_decode_def hex_pairs_encode from_str_radix16_def hex_val_def is_continuation_def)

text \<open>\<open>n\<close> failed logins of a user lock the account exactly when the count reaches the
  limit; the lock holds for the lockout time and is lifted by a successful login; but the
  count survives the lockout, so that a single further failure locks the account again.\<close>

theorem lockout_counts:
  assumes "failed_count s u = 0" "max_failed_logins s = Suc m"
  shows "(let s' = fold (\<lambda>t s. fst (record_failed_login t u s)) ts s in
     failed_count s' u = length ts \<and>
     (snd (record_failed_login now u s') \<longleftrightarrow> m \<le> length ts) \<and>
     (m \<le> length ts \<longrightarrow>
        (is_locked_out t u (fst (record_failed_login now u s')) \<longleftrightarrow>
           num_seconds (t - now) < sint (lockout_secs s)) \<and>
        snd (record_failed_login now2 u (fst (record_failed_login now u s')))) \<and>
     \<not> is_locked_out t u (clear_failed_attempts u s'))"
proof -
  define s' where "s' = fold (\<lambda>t s. fst (record_failed_login t u s)) ts s"
  have inv: "failed_count (fold (\<lambda>t s. fst (record_failed_login t u s)) ts s) u = failed_count s u + length ts
      \<and> max_failed_logins (fold (\<lambda>t s. fst (record_failed_login t u s)) ts s) = max_failed_logins s
      \<and> lockout_secs (fold (\<lambda>t s. fst (record_failed_login t u s)) ts s) = lockout_secs s" for s
    by (induction ts arbitrary: s) (simp_all add: failures_count, simp add: record_failed_login_def Let_def)
  have s': "failed_count s' u = length ts" "max_failed_logins s' = Suc m" "lockout_secs s' = lockout_secs s"
    using inv [of s] assms by (simp_all add: s'_def)
  have "is_locked_out t u (fst (record_failed_login now u s')) \<longleftrightarrow> num_seconds (t - now) < sint (lockout_secs s)"
    if "m \<le> length ts"
    using that s' by (simp add: is_locked_out_def record_failed_login_def failed_count_def Let_def)
  moreover have "snd (record_failed_login now2 u (fst (record_failed_login now u s')))" if "m \<le> length ts"
    using that s' by (simp add: record_failed_login_locks failures_count)
      (simp add: record_failed_login_def Let_def)
  ultimately show ?thesis
    using s' by (simp add: record_failed_login_locks clear_failed_attempts_def is_locked_out_def flip: s'_def)
qed

theorem lockout_counts_witness:
  "is_locked_out (8 * second) ''eve'' (fst (record_failed_login (4 * second) ''eve''
     (fold (\<lambda>t s. fst (record_failed_login t ''eve'' s)) [0, 1, 2, 3] sample_auth)))"
  using lockout_counts [of sample_auth "''eve''" 4 "[0, 1, 2, 3]" "4 * second" "8 * second"]
  by (simp add: sample_auth_def failed_count_def num_seconds_def Let_def)

text \<open>An API key registered with the denied role authenticates, while a token with that
  role never does.\<close>

theorem denied_role_by_key_and_token:
  assumes "map_of (api_keys s) kid = Some k" "\<not> revoked k" "key_role k = Denied"
    and "key_hash k = hash_api_key hm s key"
  shows "validate_api_key hm kid key s = accept (key_name k) Denied s \<and>
    (\<forall>now tok s' res. validate_token hm now tok s = Returns (s', res) \<longrightarrow> authenticated res \<longrightarrow>
       auth_role res \<noteq> Some Denied)"
  using assms
  by (auto simp: validate_api_key_def hash_api_key_def hmac_hash_def validate_token_def refuse_def accept_def
      split: option.splits prod.splits outcome.splits if_splits)

theorem denied_role_by_key_and_token_witness:
  "validate_api_key toy_mac ''k1'' ''pw'' (register_api_key
     \<lparr>key_id = ''k1'', key_name = ''svc'', key_hash = hash_api_key toy_mac sample_auth ''pw'', key_role = Denied,
      key_created_at = 0, last_used = None, revoked = False\<rparr> sample_auth)
   = accept ''svc'' Denied (register_api_key
     \<lparr>key_id = ''k1'', key_name = ''svc'', key_hash = hash_api_key toy_mac sample_auth ''pw'', key_role = Denied,
      key_created_at = 0, last_used = None, revoked = False\<rparr> sample_auth)"
  using denied_role_by_key_and_token [of "register_api_key
     \<lparr>key_id = ''k1'', key_name = ''svc'', key_hash = hash_api_key toy_mac sample_auth ''pw'', key_role = Denied,
      key_created_at = 0, last_used = None, revoked = False\<rparr> sample_auth" "''k1''"
     "\<lparr>key_id = ''k1'', key_name = ''svc'', key_hash = hash_api_key toy_mac sample_auth ''pw'', key_role = Denied,
      key_created_at = 0, last_used = None, revoked = False\<rparr>" toy_mac "''pw''"]
  by (simp add: register_api_key_def hash_api_key_def hmac_hash_def)

end
