(* ===== verification/Rate_Limit.thy ===== *)
theory Rate_Limit
  imports Prelude
begin

text \<open>
  The contract of a token bucket, shared by \<^verbatim>\<open>proxy-shim\<close> and by the tenant
  isolator of \<^verbatim>\<open>shim-core\<close>: a call at a later time gains at most
  rate times elapsed tokens, and an accepted call pays one.  From it follows the
  guarantee a client relies on: over any run the number of accepted calls is at
  most the initial level plus rate times the time passed.
\<close>

definition secs :: "time \<Rightarrow> f64" where
  "secs d = of_int d / of_int second"

lemma secs_diff: "secs (a - b) = secs a - secs b"
  by (simp add: secs_def diff_divide_distrib)

lemma secs_nonneg [simp]: "0 \<le> d \<Longrightarrow> 0 \<le> secs d"
  by (simp add: secs_def)

text \<open>The calls at the given times, and how many of them were accepted.\<close>

fun accepted :: "(time \<Rightarrow> 's \<Rightarrow> 's \<times> bool) \<Rightarrow> time list \<Rightarrow> 's \<Rightarrow> nat" where
  "accepted step [] s = 0"
| "accepted step (t # ts) s =
    (case step t s of (s', ok) \<Rightarrow> (if ok then 1 else 0) + accepted step ts s')"

locale bucket_contract =
  fixes step :: "time \<Rightarrow> 's \<Rightarrow> 's \<times> bool"
    and inv :: "'s \<Rightarrow> bool"
    and level :: "'s \<Rightarrow> f64"
    and clock :: "'s \<Rightarrow> time"
    and rate :: "'s \<Rightarrow> f64"
  assumes level_nonneg: "inv s \<Longrightarrow> 0 \<le> level s"
    and rate_nonneg: "inv s \<Longrightarrow> 0 \<le> rate s"
    and step_inv: "inv s \<Longrightarrow> clock s \<le> t \<Longrightarrow> inv (fst (step t s))"
    and step_clock: "inv s \<Longrightarrow> clock s \<le> t \<Longrightarrow> clock (fst (step t s)) = t"
    and step_rate: "inv s \<Longrightarrow> clock s \<le> t \<Longrightarrow> rate (fst (step t s)) = rate s"
    and step_level: "inv s \<Longrightarrow> clock s \<le> t \<Longrightarrow>
      level (fst (step t s)) + (if snd (step t s) then 1 else 0) \<le> level s + rate s * secs (t - clock s)"
begin

lemma accepted_bound:
  assumes "inv s" "sorted (clock s # ts)" "\<forall>t\<in>set ts. t \<le> hi"
  shows "of_nat (accepted step ts s) \<le> level s + rate s * secs (max (clock s) hi - clock s)"
  using assms
proof (induction ts arbitrary: s)
  case Nil
  have "0 \<le> rate s * secs (max (clock s) hi - clock s)"
    using Nil.prems(1) by (intro mult_nonneg_nonneg rate_nonneg) simp_all
  then show ?case
    using level_nonneg [OF Nil.prems(1)] by simp
next
  case (Cons t ts)
  let ?s = "fst (step t s)" and ?ok = "snd (step t s)"
  have le: "clock s \<le> t" "t \<le> hi"
    using Cons.prems by auto
  note facts = step_inv [OF Cons.prems(1) le(1)] step_clock [OF Cons.prems(1) le(1)]
    step_rate [OF Cons.prems(1) le(1)] step_level [OF Cons.prems(1) le(1)]
  have "of_nat (accepted step ts ?s) \<le> level ?s + rate s * secs (hi - t)"
    using Cons.IH [OF facts(1)] Cons.prems(2,3) facts(2,3) le by (simp add: max_absorb2)
  moreover have "accepted step (t # ts) s = (if ?ok then 1 else 0) + accepted step ts ?s"
    by (simp add: case_prod_beta)
  moreover have "rate s * secs (hi - t) + rate s * secs (t - clock s) = rate s * secs (hi - clock s)"
    by (simp add: secs_diff algebra_simps)
  ultimately show ?case
    using facts(4) le by (simp add: max_absorb2 split: if_splits)
qed

end

end
