(* ===== verification/Proxy.thy ===== *)
theory Proxy
  imports Rate_Limit
begin

text \<open>
  \<^verbatim>\<open>proxy-shim/src/lib.rs\<close>: the circuit breaker, request handling with and without
  graceful degradation, path routing, the token-bucket rate limit and weighted
  round-robin backend selection.  Clock reads are arguments.  The retry crate
  \<^verbatim>\<open>loop_retry\<close> is a parameter of \<^verbatim>\<open>retry_delay_ms\<close>.  Token counts, which the code
  keeps in \<^verbatim>\<open>f64\<close>, are exact rationals.
\<close>

section \<open>Data\<close>

datatype handle_request_result = Allowed | Rejected | ServedFromCache "u8 list"

datatype circuit_state = Closed | Open | HalfOpen

fun circuit_state_display :: "circuit_state \<Rightarrow> string" where
  "circuit_state_display Closed = ''closed''"
| "circuit_state_display Open = ''open''"
| "circuit_state_display HalfOpen = ''half_open''"

record pool_stats_rec =
  ps_active :: nat
  ps_idle :: nat
  ps_total :: nat
  ps_waiters :: nat

record route_rule =
  path_prefix :: string
  rule_target :: string
  rule_weight :: nat
  rule_healthy :: bool

record rate_limit_config =
  max_requests_per_sec :: nat
  burst :: nat
  window_secs :: nat

record backend_entry =
  addr :: string
  weight :: nat
  healthy :: bool

record bucket =
  tokens :: f64
  last_refill :: time
  rate :: f64
  burst_cap :: f64

record proxy_state =
  listen :: string
  target :: string
  max_connections :: nat
  min_idle :: nat
  max_lifetime_secs :: nat
  idle_timeout_secs :: nat
  connect_timeout :: nat
  retry_attempts :: nat
  retry_base_ms :: u64
  circuit_threshold :: nat
  circuit_reset_secs :: nat
  circuit_state :: circuit_state
  circuit_failures :: nat
  open_since :: "time option"
  half_open_inflight :: bool
  connections_active :: nat
  connections_total :: nat
  requests_total :: nat
  requests_retried :: nat
  requests_circuit_broken :: nat
  route_rules :: "route_rule list"
  rate_limit :: "rate_limit_config option"
  token_bucket :: "bucket option"
  backends :: "backend_entry list"
  rr_index :: nat
  graceful_degradation_enabled :: bool
  stale_cache :: "(string, u8 list) hmap"
  stale_responses_total :: nat

definition proxy_new :: "env \<Rightarrow> proxy_state" where
  "proxy_new env =
    \<lparr>listen = env_str env ''PROXY_LISTEN'' ''0.0.0.0:5432'',
     target = env_str env ''PROXY_TARGET'' ''127.0.0.1:5432'',
     max_connections = env_uint 32 env ''PROXY_MAX_CONNECTIONS'' 20,
     min_idle = env_uint 32 env ''PROXY_MIN_IDLE'' 5,
     max_lifetime_secs = env_uint 64 env ''PROXY_MAX_LIFETIME_SECS'' 1800,
     idle_timeout_secs = env_uint 64 env ''PROXY_IDLE_TIMEOUT_SECS'' 600,
     connect_timeout = env_uint 64 env ''PROXY_CONNECT_TIMEOUT'' 5,
     retry_attempts = env_uint 32 env ''PROXY_RETRY_ATTEMPTS'' 3,
     retry_base_ms = of_nat (env_uint 64 env ''PROXY_RETRY_BASE_MS'' 100),
     circuit_threshold = env_uint 32 env ''PROXY_CIRCUIT_THRESHOLD'' 5,
     circuit_reset_secs = env_uint 64 env ''PROXY_CIRCUIT_RESET_SECS'' 30,
     circuit_state = Closed, circuit_failures = 0, open_since = None, half_open_inflight = False,
     connections_active = 0, connections_total = 0, requests_total = 0, requests_retried = 0,
     requests_circuit_broken = 0, route_rules = [], rate_limit = None, token_bucket = None,
     backends = [], rr_index = 0,
     graceful_degradation_enabled =
       (case env ''PROXY_GRACEFUL_DEGRADATION'' of None \<Rightarrow> False | Some s \<Rightarrow> s = ''true'' \<or> s = ''1''),
     stale_cache = [], stale_responses_total = 0\<rparr>"

section \<open>Circuit breaker\<close>

text \<open>\<^verbatim>\<open>opened_at.elapsed() >= Duration::from_secs(reset)\<close>; \<^verbatim>\<open>elapsed\<close> saturates at zero.\<close>

definition reset_elapsed :: "time \<Rightarrow> proxy_state \<Rightarrow> bool" where
  "reset_elapsed now st =
    (case open_since st of
       Some opened_at \<Rightarrow> int (circuit_reset_secs st) * second \<le> max 0 (now - opened_at)
     | None \<Rightarrow> False)"

definition check_circuit :: "time \<Rightarrow> proxy_state \<Rightarrow> proxy_state \<times> bool" where
  "check_circuit now st =
    (if circuit_state st = Open then
       (if reset_elapsed now st then (st\<lparr>circuit_state := HalfOpen, half_open_inflight := True\<rparr>, True)
        else (st, False))
     else if circuit_state st = HalfOpen then
       (if half_open_inflight st then (st, False) else (st\<lparr>half_open_inflight := True\<rparr>, True))
     else (st, True))"

definition record_success :: "proxy_state \<Rightarrow> proxy_state" where
  "record_success st =
    (let st1 = st\<lparr>circuit_failures := 0\<rparr> in
     if circuit_state st1 = HalfOpen then
       st1\<lparr>circuit_state := Closed, open_since := None, half_open_inflight := False\<rparr>
     else st1)"

definition record_failure :: "time \<Rightarrow> proxy_state \<Rightarrow> proxy_state" where
  "record_failure now st =
    (let st1 = st\<lparr>circuit_failures := circuit_failures st + 1\<rparr> in
     if circuit_state st1 = HalfOpen then
       st1\<lparr>circuit_state := Open, open_since := Some now, half_open_inflight := False\<rparr>
     else if circuit_threshold st1 \<le> circuit_failures st1 then
       st1\<lparr>circuit_state := Open, open_since := Some now\<rparr>
     else st1)"

definition open_connection :: "proxy_state \<Rightarrow> proxy_state" where
  "open_connection st =
     st\<lparr>connections_total := connections_total st + 1,
        connections_active := saturating_sub (connections_active st) 1 + 1\<rparr>"

definition handle_request :: "time \<Rightarrow> proxy_state \<Rightarrow> proxy_state \<times> bool" where
  "handle_request now st =
    (let st1 = st\<lparr>requests_total := requests_total st + 1\<rparr>;
         st2 = (if circuit_state st1 = Open \<and> reset_elapsed now st1
                then st1\<lparr>circuit_state := HalfOpen, half_open_inflight := True\<rparr> else st1)
     in if circuit_state st2 = Open \<or> (circuit_state st2 = HalfOpen \<and> half_open_inflight st2) then
          (st2\<lparr>requests_circuit_broken := requests_circuit_broken st2 + 1\<rparr>, False)
        else
          (let st3 = (if circuit_state st2 = HalfOpen then st2\<lparr>half_open_inflight := True\<rparr> else st2)
           in (open_connection st3, True)))"

definition handle_request_with_degradation ::
  "time \<Rightarrow> string \<Rightarrow> proxy_state \<Rightarrow> proxy_state \<times> handle_request_result" where
  "handle_request_with_degradation now key st =
    (let st1 = st\<lparr>requests_total := requests_total st + 1\<rparr>;
         cached = (if circuit_state st1 = Open \<and> graceful_degradation_enabled st1
                   then map_of (stale_cache st1) key else None)
     in case cached of
          Some data \<Rightarrow> (st1\<lparr>stale_responses_total := stale_responses_total st1 + 1\<rparr>, ServedFromCache data)
        | None \<Rightarrow>
            (let st2 = (if circuit_state st1 = Open \<and> reset_elapsed now st1
                        then st1\<lparr>circuit_state := HalfOpen, half_open_inflight := False\<rparr> else st1)
             in case circuit_state st2 of
                  Open \<Rightarrow> (st2\<lparr>requests_circuit_broken := requests_circuit_broken st2 + 1\<rparr>, Rejected)
                | HalfOpen \<Rightarrow>
                    if half_open_inflight st2 then
                      (st2\<lparr>requests_circuit_broken := requests_circuit_broken st2 + 1\<rparr>, Rejected)
                    else (open_connection (st2\<lparr>half_open_inflight := True\<rparr>), Allowed)
                | Closed \<Rightarrow> (open_connection st2, Allowed)))"

definition cache_response :: "string \<Rightarrow> u8 list \<Rightarrow> proxy_state \<Rightarrow> proxy_state" where
  "cache_response key resp st = st\<lparr>stale_cache := hm_insert key resp (stale_cache st)\<rparr>"

definition get_cached_response :: "string \<Rightarrow> proxy_state \<Rightarrow> u8 list option" where
  "get_cached_response key st = map_of (stale_cache st) key"

section \<open>Retries, routing, rate limit\<close>

record retry_config =
  initial_delay_ms :: u64
  max_delay_ms :: u64
  backoff_multiplier :: f64
  jitter :: bool

definition retry_delay_ms :: "(retry_config \<Rightarrow> nat \<Rightarrow> nat) \<Rightarrow> proxy_state \<Rightarrow> nat \<Rightarrow> nat" where
  "retry_delay_ms delay_for_attempt st attempt =
    (if attempt = 0 then 0
     else delay_for_attempt
       \<lparr>initial_delay_ms = retry_base_ms st,
        max_delay_ms = retry_base_ms st * 2 ^ retry_attempts st,
        backoff_multiplier = 2, jitter = False\<rparr> (attempt - 1))"

definition add_route_rule :: "route_rule \<Rightarrow> proxy_state \<Rightarrow> proxy_state" where
  "add_route_rule r st = st\<lparr>route_rules := route_rules st @ [r]\<rparr>"

fun route_in :: "route_rule list \<Rightarrow> string \<Rightarrow> string option" where
  "route_in [] path = None"
| "route_in (r # rs) path =
    (if rule_healthy r \<and> starts_with path (path_prefix r) then Some (rule_target r) else route_in rs path)"

definition route :: "proxy_state \<Rightarrow> string \<Rightarrow> string option" where
  "route st path = route_in (route_rules st) path"

definition bucket_new :: "time \<Rightarrow> f64 \<Rightarrow> nat \<Rightarrow> bucket" where
  "bucket_new now r b = \<lparr>tokens = of_nat b, last_refill = now, rate = r, burst_cap = of_nat b\<rparr>"

definition refill :: "time \<Rightarrow> bucket \<Rightarrow> bucket" where
  "refill now b =
    (let elapsed = secs (max 0 (now - last_refill b))
     in b\<lparr>tokens := min (tokens b + elapsed * rate b) (burst_cap b), last_refill := now\<rparr>)"

definition try_consume :: "time \<Rightarrow> bucket \<Rightarrow> bucket \<times> bool" where
  "try_consume now b =
    (let b1 = refill now b
     in if 1 \<le> tokens b1 then (b1\<lparr>tokens := tokens b1 - 1\<rparr>, True) else (b1, False))"

definition set_rate_limit :: "time \<Rightarrow> rate_limit_config \<Rightarrow> proxy_state \<Rightarrow> proxy_state" where
  "set_rate_limit now cfg st =
     st\<lparr>token_bucket := Some (bucket_new now (of_nat (max_requests_per_sec cfg)) (burst cfg)),
        rate_limit := Some cfg\<rparr>"

definition check_rate_limit :: "time \<Rightarrow> proxy_state \<Rightarrow> proxy_state \<times> bool" where
  "check_rate_limit now st =
    (case token_bucket st of
       None \<Rightarrow> (st, True)
     | Some b \<Rightarrow> (case try_consume now b of (b', ok) \<Rightarrow> (st\<lparr>token_bucket := Some b'\<rparr>, ok)))"

section \<open>Backends\<close>

definition register_backend :: "string \<Rightarrow> nat \<Rightarrow> bool \<Rightarrow> proxy_state \<Rightarrow> proxy_state" where
  "register_backend a w h st =
     st\<lparr>backends := backends st @ [\<lparr>addr = a, weight = w, healthy = h\<rparr>]\<rparr>"

fun update_first :: "('a \<Rightarrow> bool) \<Rightarrow> ('a \<Rightarrow> 'a) \<Rightarrow> 'a list \<Rightarrow> 'a list" where
  "update_first P f [] = []"
| "update_first P f (x # xs) = (if P x then f x # xs else x # update_first P f xs)"

definition set_backend_health :: "string \<Rightarrow> bool \<Rightarrow> proxy_state \<Rightarrow> proxy_state" where
  "set_backend_health a h st =
     st\<lparr>backends := update_first (\<lambda>b. addr b = a) (\<lambda>b. b\<lparr>healthy := h\<rparr>) (backends st)\<rparr>"

definition healthy_entries :: "backend_entry list \<Rightarrow> (nat \<times> nat) list" where
  "healthy_entries bs =
     map (\<lambda>(i, b). (i, weight b)) (filter (\<lambda>(i, b). healthy b) (enumerate 0 bs))"

text \<open>The scan \<^verbatim>\<open>if remaining < weight \<dots> remaining -= weight\<close>.\<close>

fun pick :: "nat \<Rightarrow> (nat \<times> nat) list \<Rightarrow> nat option" where
  "pick remaining [] = None"
| "pick remaining ((idx, w) # es) = (if remaining < w then Some idx else pick (remaining - w) es)"

definition select_backend :: "proxy_state \<Rightarrow> proxy_state \<times> string option" where
  "select_backend st =
    (let es = healthy_entries (backends st) in
     if es = [] then (st, None)
     else
       (let total_weight = sum_list (map snd es) mod 2 ^ 32 in
        if total_weight = 0 then (st, None)
        else
          (let remaining = (rr_index st mod 2 ^ 32) mod total_weight;
               idx = (case pick remaining es of Some i \<Rightarrow> i | None \<Rightarrow> fst (hd es))
           in (st\<lparr>rr_index := (rr_index st + 1) mod total_weight\<rparr>, Some (addr (backends st ! idx))))))"

text \<open>The TCP accept loop selects with the same scan, unless the list of addresses it took
  when it started is empty; its failures only count.\<close>

definition select_backend_static :: "string list \<Rightarrow> proxy_state \<Rightarrow> proxy_state \<times> string option" where
  "select_backend_static addrs st = (if addrs = [] then (st, None) else select_backend st)"

definition record_failure_static :: "proxy_state \<Rightarrow> proxy_state" where
  "record_failure_static st = st\<lparr>circuit_failures := circuit_failures st + 1\<rparr>"

datatype connect_result = Connected | ConnectFailed | ConnectTimeout

definition tcp_connection ::
  "string list \<Rightarrow> (string \<Rightarrow> connect_result) \<Rightarrow> proxy_state \<Rightarrow> proxy_state \<times> string option" where
  "tcp_connection addrs connect st =
    (case select_backend_static addrs st of
       (st1, None) \<Rightarrow> (st1, None)
     | (st1, Some b) \<Rightarrow>
         (case connect b of
            Connected \<Rightarrow> (st1, Some b)
          | ConnectFailed \<Rightarrow> (record_failure_static st1, None)
          | ConnectTimeout \<Rightarrow> (record_failure_static st1, None)))"

text \<open>The accept loop: the addresses are those of the start; between connections other calls change the state.\<close>

datatype tcp_event = Accept "string \<Rightarrow> connect_result" | Call "proxy_state \<Rightarrow> proxy_state"

fun tcp_loop :: "string list \<Rightarrow> tcp_event list \<Rightarrow> proxy_state \<Rightarrow> proxy_state \<times> string option list" where
  "tcp_loop addrs [] st = (st, [])"
| "tcp_loop addrs (Accept connect # es) st =
    (case tcp_connection addrs connect st of (st1, r) \<Rightarrow>
     (case tcp_loop addrs es st1 of (st2, rs) \<Rightarrow> (st2, r # rs)))"
| "tcp_loop addrs (Call f # es) st = tcp_loop addrs es (f st)"

definition start_tcp_proxy ::
  "env \<Rightarrow> (string \<Rightarrow> string option) \<Rightarrow> tcp_event list \<Rightarrow> proxy_state \<Rightarrow> string + (proxy_state \<times> string option list)" where
  "start_tcp_proxy env bind_error es st =
    (case bind_error (env_str env ''PROXY_LISTEN'' ''0.0.0.0:5432'') of
       Some e \<Rightarrow> Inl e
     | None \<Rightarrow> Inr (tcp_loop (map addr (backends st)) es st))"

record pg_pool_config =
  pg_host :: string
  pg_port :: nat
  pg_user :: string
  pg_password :: string
  pg_dbname :: string
  pg_max_size :: nat

definition create_pg_pool ::
  "(pg_pool_config \<Rightarrow> string + 'pool) \<Rightarrow> string \<Rightarrow> nat \<Rightarrow> string \<Rightarrow> string \<Rightarrow> string \<Rightarrow> proxy_state \<Rightarrow> string + 'pool" where
  "create_pg_pool create host port user password db st =
    create \<lparr>pg_host = host, pg_port = port, pg_user = user, pg_password = password, pg_dbname = db,
      pg_max_size = max_connections st\<rparr>"

definition get_connection :: "('pool \<Rightarrow> string + 'conn) \<Rightarrow> 'pool \<Rightarrow> string + 'conn" where
  "get_connection get pool =
    (case get pool of Inr c \<Rightarrow> Inr c | Inl e \<Rightarrow> Inl (''Pool connection failed: '' @ e))"

definition pool_stats :: "proxy_state \<Rightarrow> pool_stats_rec" where
  "pool_stats st =
    \<lparr>ps_active = connections_active st,
     ps_idle = saturating_sub (connections_total st) (connections_active st),
     ps_total = connections_total st, ps_waiters = 0\<rparr>"

definition proxy_metrics :: "proxy_state \<Rightarrow> metric list" where
  "proxy_metrics st =
    [(''proxy_connections_active'', of_nat (connections_active st)),
     (''proxy_connections_total'', of_nat (connections_total st)),
     (''proxy_requests_total'', of_nat (requests_total st)),
     (''proxy_requests_retried'', of_nat (requests_retried st)),
     (''proxy_requests_circuit_broken'', of_nat (requests_circuit_broken st)),
     (''proxy_circuit_state'', (case circuit_state st of Closed \<Rightarrow> 0 | Open \<Rightarrow> 1 | HalfOpen \<Rightarrow> 2)),
     (''proxy_circuit_failures'', of_nat (circuit_failures st)),
     (''proxy_stale_responses_total'', of_nat (stale_responses_total st))]"

section \<open>Rate limit\<close>

definition bucket_ok :: "bucket \<Rightarrow> bool" where
  "bucket_ok b \<longleftrightarrow> 0 \<le> tokens b \<and> tokens b \<le> burst_cap b \<and> 0 \<le> rate b"

lemma refill_ok:
  assumes "bucket_ok b" "last_refill b \<le> t"
  shows "bucket_ok (refill t b)" "tokens (refill t b) \<le> tokens b + rate b * secs (t - last_refill b)"
proof -
  have "0 \<le> secs (t - last_refill b) * rate b"
    using assms by (intro mult_nonneg_nonneg) (simp_all add: bucket_ok_def)
  then show "bucket_ok (refill t b)" "tokens (refill t b) \<le> tokens b + rate b * secs (t - last_refill b)"
    using assms by (auto simp: bucket_ok_def refill_def Let_def max_absorb2 mult.commute)
qed

interpretation proxy_bucket: bucket_contract try_consume bucket_ok tokens last_refill rate
proof (unfold_locales, goal_cases)
  case (3 s t)
  then show ?case
    using refill_ok(1) [of s t] by (auto simp: try_consume_def bucket_ok_def Let_def)
next
  case (6 s t)
  then show ?case
    using refill_ok(2) [of s t] by (simp add: try_consume_def Let_def)
qed (auto simp: try_consume_def refill_def bucket_ok_def Let_def)

lemma accepted_check_rate_limit:
  "token_bucket st = Some b \<Longrightarrow> accepted check_rate_limit ts st = accepted try_consume ts b"
  by (induction ts arbitrary: st b) (simp_all add: check_rate_limit_def split: prod.splits)

section \<open>Weighted round robin\<close>

text \<open>The schedule: every healthy backend as often as its weight says.\<close>

definition schedule :: "backend_entry list \<Rightarrow> string list" where
  "schedule bs = concat (map (\<lambda>b. replicate (weight b) (addr b)) (filter healthy bs))"

lemma healthy_entries_schedule:
  "concat (map (\<lambda>(i, w). replicate w (addr (bs ! i))) (healthy_entries bs)) = schedule bs"
proof -
  have "filter healthy (map snd ps) = map snd (filter (\<lambda>(i, b). healthy b) ps)" for ps :: "(nat \<times> backend_entry) list"
    by (induction ps) auto
  from this [of "enumerate 0 bs"] have "filter healthy bs = map snd (filter (\<lambda>(i, b). healthy b) (enumerate 0 bs))"
    by simp
  then have "schedule bs = concat (map (\<lambda>(i, b). replicate (weight b) (addr b)) (filter (\<lambda>(i, b). healthy b) (enumerate 0 bs)))"
    by (simp add: schedule_def comp_def case_prod_unfold)
  moreover have "addr (bs ! i) = addr b" if "(i, b) \<in> set (enumerate 0 bs)" for i b
    using that by (auto simp: in_set_enumerate_eq)
  ultimately show ?thesis
    by (auto simp: healthy_entries_def comp_def intro!: arg_cong [of _ _ concat])
qed

lemma sum_entries_schedule: "sum_list (map snd (healthy_entries bs)) = length (schedule bs)"
  by (simp add: length_concat comp_def case_prod_beta flip: healthy_entries_schedule)

lemma pick_schedule:
  "r < sum_list (map snd es) \<Longrightarrow>
     \<exists>i. pick r es = Some i \<and> g i = concat (map (\<lambda>(i, w). replicate w (g i)) es) ! r"
proof (induction es arbitrary: r)
  case (Cons e es)
  then show ?case
    by (cases e) (auto simp: nth_append)
qed simp

lemma select_backend_schedule:
  assumes "W = length (schedule (backends st))" "0 < W" "W < 2 ^ 32" "rr_index st < 2 ^ 32"
  shows "select_backend st =
    (st\<lparr>rr_index := (rr_index st + 1) mod W\<rparr>, Some (schedule (backends st) ! (rr_index st mod W)))"
proof -
  let ?es = "healthy_entries (backends st)"
  have W: "sum_list (map snd ?es) = W"
    by (simp add: assms(1) sum_entries_schedule)
  then have "?es \<noteq> []"
    using assms(2) by auto
  moreover obtain i where "pick (rr_index st mod W) ?es = Some i"
      "addr (backends st ! i) = schedule (backends st) ! (rr_index st mod W)"
    using pick_schedule [of "rr_index st mod W" ?es "\<lambda>i. addr (backends st ! i)"] W assms(2)
    by (auto simp: healthy_entries_schedule)
  ultimately show ?thesis
    using assms W by (simp add: select_backend_def Let_def)
qed

fun selections :: "nat \<Rightarrow> proxy_state \<Rightarrow> string option list" where
  "selections 0 st = []"
| "selections (Suc n) st = (case select_backend st of (st', r) \<Rightarrow> r # selections n st')"

lemma selections_schedule:
  assumes "W = length (schedule (backends st))" "0 < W" "W < 2 ^ 32" "rr_index st < 2 ^ 32"
  shows "selections n st = map (\<lambda>k. Some (schedule (backends st) ! ((rr_index st + k) mod W))) [0..<n]"
  using assms
proof (induction n arbitrary: st)
  case (Suc n)
  let ?st = "st\<lparr>rr_index := (rr_index st + 1) mod W\<rparr>"
  have "rr_index ?st < 2 ^ 32"
    using mod_less_divisor [OF Suc.prems(2), of "rr_index st + 1"] Suc.prems(3) by simp
  then have "selections n ?st = map (\<lambda>k. Some (schedule (backends st) ! ((rr_index st + Suc k) mod W))) [0..<n]"
    using Suc.IH [of ?st] Suc.prems by (simp add: mod_simps)
  then show ?case
    using select_backend_schedule [OF Suc.prems] by (simp add: upt_conv_Cons map_Suc_upt [symmetric] comp_def del: upt_Suc)
qed simp

lemma mset_rotate: "mset (rotate n xs) = mset xs"
  by (metis add.commute append_take_drop_id mset_append rotate_drop_take)

section \<open>Circuit breaker\<close>

definition broken :: "proxy_state \<Rightarrow> bool" where
  "broken st \<longleftrightarrow> circuit_state st = Open \<or> (circuit_state st = HalfOpen \<and> half_open_inflight st)"

lemma handle_request_broken: "broken st \<Longrightarrow> \<not> snd (handle_request t st) \<and> broken (fst (handle_request t st))"
  by (auto simp: broken_def handle_request_def Let_def)

lemma failures_open:
  assumes "circuit_state st = Closed" "circuit_failures st = 0" "0 < circuit_threshold st"
  shows "circuit_failures (fold record_failure ts st) = length ts \<and>
    circuit_threshold (fold record_failure ts st) = circuit_threshold st \<and>
    circuit_reset_secs (fold record_failure ts st) = circuit_reset_secs st \<and>
    (if length ts < circuit_threshold st
     then circuit_state (fold record_failure ts st) = Closed \<and> open_since (fold record_failure ts st) = open_since st
     else circuit_state (fold record_failure ts st) = Open \<and> open_since (fold record_failure ts st) = Some (last ts))"
proof (induction ts rule: rev_induct)
  case (snoc t ts)
  then show ?case
    using assms by (auto simp: record_failure_def Let_def split: if_splits)
qed (use assms in simp)

section \<open>Properties\<close>

definition sample_proxy :: proxy_state where
  "sample_proxy = (proxy_new (\<lambda>_. None))\<lparr>backends :=
     [\<lparr>addr = ''a'', weight = 2, healthy = True\<rparr>, \<lparr>addr = ''b'', weight = 9, healthy = False\<rparr>,
      \<lparr>addr = ''c'', weight = 1, healthy = True\<rparr>]\<rparr>"

text \<open>C17: Weighted round robin is fair: over any run of as many selections as the total weight
  of the healthy backends, each healthy backend is chosen exactly as often as its weight says
  and no unhealthy one is chosen.\<close>

theorem select_backend_fair:
  assumes "W = sum_list (map weight (filter healthy (backends st)))" "0 < W" "W < 2 ^ 32"
    and "rr_index st < 2 ^ 32"
  shows "mset (selections W st) = mset (map Some (schedule (backends st)))"
proof -
  have W: "W = length (schedule (backends st))"
    by (simp add: assms(1) schedule_def length_concat comp_def)
  let ?x = "schedule (backends st)"
  have "map (\<lambda>k. ?x ! ((rr_index st + k) mod W)) [0..<W] = rotate (rr_index st) ?x"
    by (rule nth_equalityI) (simp_all add: W nth_rotate add.commute)
  then have "selections W st = map Some (rotate (rr_index st) ?x)"
    using selections_schedule [OF W assms(2-4), of W] by (metis (no_types, lifting) map_map comp_apply map_eq_conv)
  then show ?thesis
    by (simp add: mset_rotate)
qed

theorem select_backend_fair_witness:
  "mset (selections 3 sample_proxy) = {#Some ''a'', Some ''a'', Some ''c''#}"
proof -
  have "sum_list (map weight (filter healthy (backends sample_proxy))) = 3" "rr_index sample_proxy = 0"
    "schedule (backends sample_proxy) = [''a'', ''a'', ''c'']"
    by (simp_all add: sample_proxy_def proxy_new_def schedule_def numeral_2_eq_2)
  then show ?thesis
    using select_backend_fair [of 3 sample_proxy] by simp
qed

text \<open>C22: From a closed breaker with no failures counted, consecutive failures open it exactly
  when their number reaches the threshold, and requests are then refused until the reset time has
  passed since the last failure.\<close>

theorem breaker_opens_at_threshold:
  assumes "circuit_state st = Closed" "circuit_failures st = 0" "0 < circuit_threshold st"
  shows "circuit_state (fold record_failure ts st) = (if length ts < circuit_threshold st then Closed else Open) \<and>
    (circuit_threshold st \<le> length ts \<and> max 0 (now - last ts) < int (circuit_reset_secs st) * second \<longrightarrow>
       check_circuit now (fold record_failure ts st) = (fold record_failure ts st, False) \<and>
       \<not> snd (handle_request now (fold record_failure ts st)))"
  using failures_open [OF assms, of ts]
  by (auto simp: check_circuit_def handle_request_def reset_elapsed_def Let_def split: if_splits)

theorem breaker_opens_at_threshold_witness:
  "circuit_state (fold record_failure [1, 2, 3, 4, 5] sample_proxy) = Open \<and>
   \<not> snd (handle_request second (fold record_failure [1, 2, 3, 4, 5] sample_proxy))"
  using breaker_opens_at_threshold [of sample_proxy "[1, 2, 3, 4, 5]" second]
  by (simp add: sample_proxy_def proxy_new_def env_uint_def)

text \<open>Once the breaker is open, no call of \<^verbatim>\<open>handle_request\<close> ever lets a request through
  again, at whatever times: after the reset time it goes half-open but refuses the very probe it
  then waits for.\<close>

theorem handle_request_never_recovers:
  assumes "circuit_state st = Open"
  shows "accepted handle_request ts st = 0"
proof -
  have "broken st \<Longrightarrow> accepted handle_request ts st = 0" for st
    by (induction ts arbitrary: st) (auto simp: handle_request_broken case_prod_beta)
  then show ?thesis
    using assms by (simp add: broken_def)
qed

theorem handle_request_never_recovers_witness:
  "accepted handle_request [100 * second, 200 * second, 300 * second] (sample_proxy\<lparr>circuit_state := Open, open_since := Some 0\<rparr>) = 0"
  by (rule handle_request_never_recovers) simp

text \<open>Probing through \<^verbatim>\<open>check_circuit\<close> works: when the reset time has passed it admits one
  request, refuses all others until that one is reported, closes the breaker on its success and
  reopens it, from the time of the report, on its failure.\<close>

theorem check_circuit_single_probe:
  assumes "circuit_state st = Open" "reset_elapsed now st" "check_circuit now st = (st1, ok)"
  shows "ok \<and> accepted check_circuit ts st1 = 0 \<and>
    circuit_state (record_success st1) = Closed \<and> snd (check_circuit t (record_success st1)) \<and>
    circuit_state (record_failure t st1) = Open \<and> open_since (record_failure t st1) = Some t"
proof -
  have st1: "ok" "st1 = st\<lparr>circuit_state := HalfOpen, half_open_inflight := True\<rparr>"
    using assms by (simp_all add: check_circuit_def)
  have "circuit_state s = HalfOpen \<Longrightarrow> half_open_inflight s \<Longrightarrow> accepted check_circuit ts s = 0" for s
    by (induction ts arbitrary: s) (auto simp: check_circuit_def)
  then show ?thesis
    using st1 by (simp add: record_success_def record_failure_def check_circuit_def Let_def)
qed

theorem check_circuit_single_probe_witness:
  "accepted check_circuit [31 * second, 32 * second]
     (fst (check_circuit (30 * second) (sample_proxy\<lparr>circuit_state := Open, open_since := Some 0\<rparr>))) = 0"
proof -
  let ?st = "sample_proxy\<lparr>circuit_state := Open, open_since := Some 0\<rparr>"
  have "reset_elapsed (30 * second) ?st"
    by (simp add: reset_elapsed_def sample_proxy_def proxy_new_def env_uint_def)
  then show ?thesis
    using check_circuit_single_probe [of ?st "30 * second" "fst (check_circuit (30 * second) ?st)"
        "snd (check_circuit (30 * second) ?st)" "[31 * second, 32 * second]"]
    by (simp del: accepted.simps)
qed

text \<open>Whatever the request times, the number of requests the rate limit admits up to time
  \<open>hi\<close> is at most the burst plus the configured rate times the seconds since it was set.\<close>

theorem rate_limit_bound:
  assumes "sorted (t0 # ts)" "\<forall>t\<in>set ts. t \<le> hi" "t0 \<le> hi"
  shows "of_nat (accepted check_rate_limit ts (set_rate_limit t0 cfg st)) \<le>
     (of_nat (burst cfg) + of_nat (max_requests_per_sec cfg) * secs (hi - t0) :: f64)"
proof -
  let ?b = "bucket_new t0 (of_nat (max_requests_per_sec cfg)) (burst cfg)"
  have "accepted check_rate_limit ts (set_rate_limit t0 cfg st) = accepted try_consume ts ?b"
    by (rule accepted_check_rate_limit) (simp add: set_rate_limit_def)
  moreover have "bucket_ok ?b"
    by (simp add: bucket_ok_def bucket_new_def)
  ultimately show ?thesis
    using proxy_bucket.accepted_bound [of ?b ts hi] assms by (simp add: bucket_new_def max_absorb2)
qed

theorem rate_limit_bound_witness:
  "of_nat (accepted check_rate_limit [0, 1, second] (set_rate_limit 0
     \<lparr>max_requests_per_sec = 1, burst = 1, window_secs = 1\<rparr> sample_proxy)) \<le> (2 :: f64)"
  using rate_limit_bound [of 0 "[0, 1, second]" second "\<lparr>max_requests_per_sec = 1, burst = 1, window_secs = 1\<rparr>" sample_proxy]
  by (simp add: secs_def)

section \<open>The TCP proxy\<close>

text \<open>A proxy that is started before its backends are registered drops every connection for good, and the circuit breaker
  has no influence on connections.\<close>

lemma tcp_loop_no_addrs: "set (snd (tcp_loop [] es st)) \<subseteq> {None}"
  by (induction "[] :: string list" es st rule: tcp_loop.induct)
    (auto simp: tcp_connection_def select_backend_static_def split: prod.splits)

lemma tcp_started_empty:
  "backends st = [] \<Longrightarrow> start_tcp_proxy env be es st = Inr (st', rs) \<Longrightarrow> set rs \<subseteq> {None}"
  using tcp_loop_no_addrs [of es st] by (simp add: start_tcp_proxy_def split: option.splits)

lemma tcp_ignores_breaker:
  "snd (tcp_connection addrs connect (st\<lparr>circuit_state := x\<rparr>)) = snd (tcp_connection addrs connect st)"
  by (simp add: tcp_connection_def select_backend_static_def select_backend_def Let_def
      split: connect_result.splits option.splits)

end
