(* ===== verification/Config.thy ===== *)
theory Config
  imports Prelude
begin

text \<open>
  \<^verbatim>\<open>shim-core/src/config.rs\<close>: the configuration, its defaults, reading it from the
  environment, merging the environment over a file, and validation.  The
  parsers that are not part of the repository (socket addresses, \<^verbatim>\<open>validkit\<close>
  URLs, \<^verbatim>\<open>cron\<close> expressions, floating point) and the file system test are the
  fields of the record \<^verbatim>\<open>validators\<close>.  Paths are strings.
\<close>

section \<open>Data\<close>

record config_validation_error =
  err_field :: string
  err_message :: string

definition config_error_display :: "config_validation_error \<Rightarrow> string" where
  "config_error_display e = err_field e @ '': '' @ err_message e"

record validators =
  parse_socket_addr :: "string \<Rightarrow> nat option"
  check_https_url :: "string \<Rightarrow> string option"
  check_cron :: "string \<Rightarrow> string option"
  path_exists :: "string \<Rightarrow> bool"
  parse_f64 :: "string \<Rightarrow> f64 option"
  show_f64 :: "f64 \<Rightarrow> string"

definition env_f64 :: "validators \<Rightarrow> env \<Rightarrow> string \<Rightarrow> f64 \<Rightarrow> f64" where
  "env_f64 v env nm d =
    (case env nm of None \<Rightarrow> d | Some s \<Rightarrow> (case parse_f64 v s of None \<Rightarrow> d | Some x \<Rightarrow> x))"

record resource_quota =
  rq_max_memory_bytes :: "nat option"
  rq_max_cpu_percent :: "f64 option"
  rq_max_open_files :: "nat option"
  rq_max_connections :: "nat option"

definition resource_quota_default :: resource_quota where
  "resource_quota_default = \<lparr>rq_max_memory_bytes = None, rq_max_cpu_percent = None,
     rq_max_open_files = None, rq_max_connections = None\<rparr>"

record health_config =
  liveness_cmd :: string
  readiness_cmd :: string
  listen :: string
  interval_secs :: nat
  timeout_secs :: nat

definition default_check_interval :: nat where "default_check_interval = 10"
definition default_check_timeout :: nat where "default_check_timeout = 5"

definition health_config_default :: health_config where
  "health_config_default = \<lparr>liveness_cmd = ''exec:true'', readiness_cmd = ''exec:true'',
     listen = ''0.0.0.0:9101'', interval_secs = default_check_interval,
     timeout_secs = default_check_timeout\<rparr>"

record vault_config =
  vault_addr :: string
  vault_role :: string
  vault_secret :: string
  rotation_secs :: nat

record backup_config =
  schedule :: string
  storage :: string
  retention_days :: nat
  backup_database :: string
  backup_prefix :: string

record migration_config =
  mc_dir :: string
  mc_database :: string
  mc_auto_migrate :: bool
  mc_db_host :: string
  mc_db_port :: nat
  mc_db_user :: string
  mc_db_password :: string
  mc_db_type :: string

record audit_config =
  audit_database :: string
  audit_tables :: "string list"
  audit_format :: string

record tls_config =
  provider :: string
  domain :: string
  email :: string
  renew_before_secs :: nat

record failover_config =
  fo_primary :: string
  fo_replica :: string
  fo_check_interval_secs :: nat
  fo_timeout_secs :: nat
  fo_failure_threshold :: nat
  fo_webhook :: "string option"
  fo_db_type :: string

record replication_config =
  rep_primary :: string
  rep_replicas :: "string list"
  rep_mode :: string
  rep_check_interval_secs :: nat
  rep_db_type :: string
  slot_name :: "string option"

record tenant_config =
  tenant_id :: string
  max_memory_bytes :: "nat option"
  max_cpu_percent :: "f64 option"
  max_requests_per_sec :: "nat option"
  allowed_features :: "string list"
  quota_config :: resource_quota
  reset_period_secs :: nat

record process_config =
  command :: string
  args :: "string list"
  working_dir :: "string option"
  shutdown_timeout_secs :: nat
  startup_grace_secs :: nat

definition default_shutdown_timeout :: nat where "default_shutdown_timeout = 30"

definition process_config_default :: process_config where
  "process_config_default = \<lparr>command = [], args = [], working_dir = None,
     shutdown_timeout_secs = default_shutdown_timeout, startup_grace_secs = 5\<rparr>"

record config =
  version :: "string option"
  health :: health_config
  vault :: "vault_config option"
  backup :: "backup_config option"
  migration :: "migration_config option"
  audit :: "audit_config option"
  tls :: "tls_config option"
  failover :: "failover_config option"
  replication :: "replication_config option"
  process :: process_config
  resource_quota :: resource_quota
  tenants :: "tenant_config list"

definition default_config_version :: "string option" where
  "default_config_version = Some ''1.0''"

definition SUPPORTED_VERSIONS :: "string list" where
  "SUPPORTED_VERSIONS = [''1.0'']"

definition config_default :: config where
  "config_default = \<lparr>version = default_config_version, health = health_config_default,
     vault = None, backup = None, migration = None, audit = None, tls = None, failover = None,
     replication = None, process = process_config_default,
     resource_quota = resource_quota_default, tenants = []\<rparr>"

definition validation_enabled :: "env \<Rightarrow> bool" where
  "validation_enabled env =
    (case env ''SHIM_VALIDATE_CONFIG'' of
       Some v \<Rightarrow> v \<notin> {''0'', ''false'', ''False'', ''FALSE''}
     | None \<Rightarrow> True)"

section \<open>Environment\<close>

definition env_tenant :: "validators \<Rightarrow> env \<Rightarrow> string \<Rightarrow> tenant_config" where
  "env_tenant v env tid =
    \<lparr>tenant_id = tid,
     max_memory_bytes = Option.bind (env ''SHIM_TENANT_MAX_MEMORY'') (parse_uint 64),
     max_cpu_percent = Option.bind (env ''SHIM_TENANT_MAX_CPU'') (parse_f64 v),
     max_requests_per_sec = None, allowed_features = [],
     quota_config = resource_quota_default, reset_period_secs = 1\<rparr>"

definition from_env :: "validators \<Rightarrow> env \<Rightarrow> config" where
  "from_env v env =
    \<lparr>version = default_config_version,
     health =
       \<lparr>liveness_cmd = env_str env ''HEALTH_CMD'' (liveness_cmd health_config_default),
        readiness_cmd = env_str env ''HEALTH_CMD'' (readiness_cmd health_config_default),
        listen = env_str env ''HEALTH_LISTEN'' (listen health_config_default),
        interval_secs = env_uint 64 env ''HEALTH_INTERVAL_SECS'' default_check_interval,
        timeout_secs = default_check_timeout\<rparr>,
     vault = None, backup = None, migration = None, audit = None, tls = None, failover = None,
     replication = None,
     process = process_config_default
       \<lparr>command := env_str env ''PROCESS_COMMAND'' [],
        args := (case env ''PROCESS_ARGS'' of Some a \<Rightarrow> split_ws [] a | None \<Rightarrow> [])\<rparr>,
     resource_quota = resource_quota_default
       \<lparr>rq_max_memory_bytes := Option.bind (env ''SHIM_MAX_MEMORY_BYTES'') (parse_uint 64),
        rq_max_cpu_percent := Option.bind (env ''SHIM_MAX_CPU_PERCENT'') (parse_f64 v),
        rq_max_open_files := Option.bind (env ''SHIM_MAX_OPEN_FILES'') (parse_uint 32)\<rparr>,
     tenants = (case env ''SHIM_TENANT_ID'' of Some tid \<Rightarrow> [env_tenant v env tid] | None \<Rightarrow> [])\<rparr>"

section \<open>Validation\<close>

definition verr :: "string \<Rightarrow> string \<Rightarrow> config_validation_error" where
  "verr f m = \<lparr>err_field = f, err_message = m\<rparr>"

definition check :: "bool \<Rightarrow> string \<Rightarrow> string \<Rightarrow> config_validation_error list" where
  "check bad f m = (if bad then [verr f m] else [])"

definition positive :: "string \<Rightarrow> nat \<Rightarrow> config_validation_error list" where
  "positive f n = check (n = 0) f ''must be greater than 0''"

definition validate_health :: "validators \<Rightarrow> health_config \<Rightarrow> config_validation_error list" where
  "validate_health v h =
     check (parse_socket_addr v (listen h) = None) ''health.listen''
       (CHR 0x27 # listen h @ [CHR 0x27] @ '' is not a valid socket address (expected e.g. 0.0.0.0:9101)'') @
     positive ''health.interval_secs'' (interval_secs h) @
     positive ''health.timeout_secs'' (timeout_secs h)"

definition validate_vault :: "validators \<Rightarrow> vault_config \<Rightarrow> config_validation_error list" where
  "validate_vault v c =
     check (check_https_url v (vault_addr c) \<noteq> None) ''vault.addr''
       (CHR 0x27 # vault_addr c @ [CHR 0x27] @ '' is not a valid URL (must be https:// without credentials)'') @
     positive ''vault.rotation_secs'' (rotation_secs c)"

definition validate_backup :: "validators \<Rightarrow> backup_config \<Rightarrow> config_validation_error list" where
  "validate_backup v c =
     positive ''backup.retention_days'' (retention_days c) @
     (if schedule c \<noteq> [] then
        (case check_cron v (schedule c) of
           Some e \<Rightarrow> [verr ''backup.schedule'' (''cron parse error: '' @ e)]
         | None \<Rightarrow> [])
      else [])"

definition validate_migration :: "validators \<Rightarrow> migration_config \<Rightarrow> config_validation_error list" where
  "validate_migration v c =
     check (\<not> path_exists v (mc_dir c)) ''migration.dir''
       (''directory '' @ CHR 0x27 # mc_dir c @ [CHR 0x27] @ '' does not exist'') @
     positive ''migration.db_port'' (mc_db_port c)"

definition validate_tls :: "tls_config \<Rightarrow> config_validation_error list" where
  "validate_tls c =
     check (domain c = []) ''tls.domain'' ''must not be empty'' @
     positive ''tls.renew_before_secs'' (renew_before_secs c)"

definition validate_failover :: "failover_config \<Rightarrow> config_validation_error list" where
  "validate_failover c =
     positive ''failover.check_interval_secs'' (fo_check_interval_secs c) @
     positive ''failover.timeout_secs'' (fo_timeout_secs c) @
     positive ''failover.failure_threshold'' (fo_failure_threshold c)"

definition tenant_field :: "nat \<Rightarrow> string \<Rightarrow> string" where
  "tenant_field i f = ''tenants['' @ show_nat i @ '']'' @ f"

fun validate_tenants ::
  "validators \<Rightarrow> nat \<Rightarrow> string list \<Rightarrow> tenant_config list \<Rightarrow> config_validation_error list" where
  "validate_tenants v i seen [] = []"
| "validate_tenants v i seen (t # ts) =
     check (tenant_id t = []) (tenant_field i ''.tenant_id'') ''must not be empty'' @
     check (tenant_id t \<in> set seen) (tenant_field i ''.tenant_id'')
       (''duplicate tenant_id '' @ CHR 0x27 # tenant_id t @ [CHR 0x27]) @
     (case max_cpu_percent t of
        Some cpu \<Rightarrow> check (\<not> (0 \<le> cpu \<and> cpu \<le> 100)) (tenant_field i ''.max_cpu_percent'')
          (show_f64 v cpu @ '' is not in range 0.0-100.0'')
      | None \<Rightarrow> []) @
     validate_tenants v (i + 1) (tenant_id t # seen) ts"

definition each :: "('a \<Rightarrow> 'b list) \<Rightarrow> 'a option \<Rightarrow> 'b list" where
  "each f x = (case x of Some a \<Rightarrow> f a | None \<Rightarrow> [])"

definition validate :: "validators \<Rightarrow> config \<Rightarrow> config_validation_error list" where
  "validate v c =
     each (\<lambda>ver. check (ver \<notin> set SUPPORTED_VERSIONS) ''version''
        (''unknown config version '' @ CHR 0x27 # ver @ [CHR 0x27] @ ''; supported versions: ['' @
         [CHR 0x22] @ ''1.0'' @ [CHR 0x22] @ '']'')) (version c) @
     validate_health v (health c) @
     each (validate_vault v) (vault c) @
     each (validate_backup v) (backup c) @
     each (validate_migration v) (migration c) @
     each validate_tls (tls c) @
     each validate_failover (failover c) @
     validate_tenants v 0 [] (tenants c)"

definition validate_schema :: "validators \<Rightarrow> config \<Rightarrow> config_validation_error list" where
  "validate_schema v c =
     validate v c @
     each (\<lambda>port. check (port = 0) ''health.listen'' (''port '' @ show_nat port @ '' is out of range 1-65535''))
       (parse_socket_addr v (listen (health c))) @
     each (\<lambda>m. check (mc_db_port m = 0) ''migration.db_port''
        (''port '' @ show_nat (mc_db_port m) @ '' is out of valid range 1-65535'')) (migration c) @
     each (\<lambda>b. check (storage b = []) ''backup.storage'' ''storage backend must not be empty'') (backup c) @
     each (\<lambda>x. each (\<lambda>e. [verr ''vault.addr'' (''invalid vault URL: '' @ e)])
        (check_https_url v (vault_addr x))) (vault c) @
     each (\<lambda>f. each (\<lambda>w. if w \<noteq> [] then each (\<lambda>e. [verr ''failover.webhook'' (''invalid webhook URL: '' @ e)])
        (check_https_url v w) else []) (fo_webhook f)) (failover c) @
     each (\<lambda>m. check (mc_dir m = []) ''migration.dir'' ''migration directory path must not be empty'') (migration c) @
     check (command (process c) = [] \<and> working_dir (process c) \<noteq> None) ''process.command''
       ''command must not be empty when working_dir is set''"

section \<open>Merging\<close>

definition orelse :: "'a option \<Rightarrow> 'a option \<Rightarrow> 'a option" where
  "orelse a b = (case a of Some x \<Rightarrow> Some x | None \<Rightarrow> b)"

definition merge_tenants :: "env \<Rightarrow> tenant_config list \<Rightarrow> tenant_config list \<Rightarrow> tenant_config list" where
  "merge_tenants env mine others =
    (if env ''SHIM_TENANT_ID'' \<noteq> None then
       fold (\<lambda>t ts. filter (\<lambda>x. tenant_id x \<noteq> tenant_id t) ts @ [t]) others mine
     else if others \<noteq> [] \<and> mine = [] then others else mine)"

definition merge :: "env \<Rightarrow> config \<Rightarrow> config \<Rightarrow> config" where
  "merge env c other =
    (let is_set = (\<lambda>nm. env nm \<noteq> None);
         h = health c; oh = health other; p = process c; op = process other;
         q = resource_quota c; oq = resource_quota other
     in \<lparr>version = version c,
         health =
           \<lparr>liveness_cmd = (if is_set ''HEALTH_CMD'' then liveness_cmd oh else liveness_cmd h),
            readiness_cmd = (if is_set ''HEALTH_CMD'' then readiness_cmd oh else readiness_cmd h),
            listen = (if is_set ''HEALTH_LISTEN'' then listen oh else listen h),
            interval_secs = (if is_set ''HEALTH_INTERVAL_SECS'' then interval_secs oh else interval_secs h),
            timeout_secs = (if is_set ''HEALTH_TIMEOUT_SECS'' then timeout_secs oh else timeout_secs h)\<rparr>,
         vault = orelse (vault other) (vault c),
         backup = orelse (backup other) (backup c),
         migration = orelse (migration other) (migration c),
         audit = orelse (audit other) (audit c),
         tls = orelse (tls other) (tls c),
         failover = orelse (failover other) (failover c),
         replication = orelse (replication other) (replication c),
         process =
           \<lparr>command = (if is_set ''PROCESS_COMMAND'' then command op else command p),
            args = (if is_set ''PROCESS_ARGS'' then args op else args p),
            working_dir = orelse (working_dir op) (working_dir p),
            shutdown_timeout_secs =
              (if is_set ''SHUTDOWN_TIMEOUT_SECS'' then shutdown_timeout_secs op else shutdown_timeout_secs p),
            startup_grace_secs = startup_grace_secs p\<rparr>,
         resource_quota = q
           \<lparr>rq_max_memory_bytes := (if is_set ''SHIM_MAX_MEMORY_BYTES'' then rq_max_memory_bytes oq else rq_max_memory_bytes q),
            rq_max_cpu_percent := (if is_set ''SHIM_MAX_CPU_PERCENT'' then rq_max_cpu_percent oq else rq_max_cpu_percent q),
            rq_max_open_files := (if is_set ''SHIM_MAX_OPEN_FILES'' then rq_max_open_files oq else rq_max_open_files q)\<rparr>,
         tenants = merge_tenants env (tenants c) (tenants other)\<rparr>)"

text \<open>\<^verbatim>\<open>read_file\<close> is the file system and TOML parser: no file, an error, or a configuration.\<close>

definition load :: "validators \<Rightarrow> env \<Rightarrow> (string \<Rightarrow> (string + config) option) \<Rightarrow> config" where
  "load v env read_file =
    (let path = env_str env ''SHIM_CONFIG'' ''shim.toml'' in
     case read_file path of
       Some (Inr file_config) \<Rightarrow> merge env file_config (from_env v env)
     | Some (Inl e) \<Rightarrow> from_env v env
     | None \<Rightarrow> from_env v env)"

section \<open>What a valid configuration is\<close>

definition tenant_ok :: "tenant_config \<Rightarrow> bool" where
  "tenant_ok t \<longleftrightarrow> tenant_id t \<noteq> [] \<and>
     (case max_cpu_percent t of Some cpu \<Rightarrow> 0 \<le> cpu \<and> cpu \<le> 100 | None \<Rightarrow> True)"

definition config_ok :: "validators \<Rightarrow> config \<Rightarrow> bool" where
  "config_ok v c \<longleftrightarrow>
     version c \<in> {None, Some ''1.0''} \<and>
     parse_socket_addr v (listen (health c)) \<noteq> None \<and>
     0 < interval_secs (health c) \<and> 0 < timeout_secs (health c) \<and>
     pred_option (\<lambda>x. check_https_url v (vault_addr x) = None \<and> 0 < rotation_secs x) (vault c) \<and>
     pred_option (\<lambda>x. 0 < retention_days x \<and> (schedule x = [] \<or> check_cron v (schedule x) = None)) (backup c) \<and>
     pred_option (\<lambda>x. path_exists v (mc_dir x) \<and> 0 < mc_db_port x) (migration c) \<and>
     pred_option (\<lambda>x. domain x \<noteq> [] \<and> 0 < renew_before_secs x) (tls c) \<and>
     pred_option (\<lambda>x. 0 < fo_check_interval_secs x \<and> 0 < fo_timeout_secs x \<and> 0 < fo_failure_threshold x) (failover c) \<and>
     list_all tenant_ok (tenants c) \<and> distinct (map tenant_id (tenants c))"

lemma check_Nil [simp]: "check b f m = [] \<longleftrightarrow> \<not> b"
  by (simp add: check_def)

lemma positive_Nil [simp]: "positive f n = [] \<longleftrightarrow> 0 < n"
  by (simp add: positive_def)

lemma validate_parts_Nil:
  "each (\<lambda>ver. check (ver \<notin> set SUPPORTED_VERSIONS) f (m ver)) ve = [] \<longleftrightarrow> ve \<in> {None, Some ''1.0''}"
  "validate_health v h = [] \<longleftrightarrow>
     parse_socket_addr v (listen h) \<noteq> None \<and> 0 < interval_secs h \<and> 0 < timeout_secs h"
  "each (validate_vault v) va = [] \<longleftrightarrow>
     pred_option (\<lambda>x. check_https_url v (vault_addr x) = None \<and> 0 < rotation_secs x) va"
  "each (validate_backup v) ba = [] \<longleftrightarrow>
     pred_option (\<lambda>x. 0 < retention_days x \<and> (schedule x = [] \<or> check_cron v (schedule x) = None)) ba"
  "each (validate_migration v) mi = [] \<longleftrightarrow>
     pred_option (\<lambda>x. path_exists v (mc_dir x) \<and> 0 < mc_db_port x) mi"
  "each validate_tls tl' = [] \<longleftrightarrow> pred_option (\<lambda>x. domain x \<noteq> [] \<and> 0 < renew_before_secs x) tl'"
  "each validate_failover fo = [] \<longleftrightarrow>
     pred_option (\<lambda>x. 0 < fo_check_interval_secs x \<and> 0 < fo_timeout_secs x \<and> 0 < fo_failure_threshold x) fo"
proof -
  show "each (\<lambda>ver. check (ver \<notin> set SUPPORTED_VERSIONS) f (m ver)) ve = [] \<longleftrightarrow> ve \<in> {None, Some ''1.0''}"
    by (cases ve) (simp_all add: each_def SUPPORTED_VERSIONS_def)
  show "validate_health v h = [] \<longleftrightarrow>
     parse_socket_addr v (listen h) \<noteq> None \<and> 0 < interval_secs h \<and> 0 < timeout_secs h"
    by (simp add: validate_health_def)
  show "each (validate_vault v) va = [] \<longleftrightarrow>
     pred_option (\<lambda>x. check_https_url v (vault_addr x) = None \<and> 0 < rotation_secs x) va"
    by (cases va) (simp_all add: each_def validate_vault_def)
  show "each (validate_backup v) ba = [] \<longleftrightarrow>
     pred_option (\<lambda>x. 0 < retention_days x \<and> (schedule x = [] \<or> check_cron v (schedule x) = None)) ba"
    by (cases ba) (auto simp: each_def validate_backup_def split: option.splits)
  show "each (validate_migration v) mi = [] \<longleftrightarrow>
     pred_option (\<lambda>x. path_exists v (mc_dir x) \<and> 0 < mc_db_port x) mi"
    by (cases mi) (simp_all add: each_def validate_migration_def)
  show "each validate_tls tl' = [] \<longleftrightarrow> pred_option (\<lambda>x. domain x \<noteq> [] \<and> 0 < renew_before_secs x) tl'"
    by (cases tl') (simp_all add: each_def validate_tls_def)
  show "each validate_failover fo = [] \<longleftrightarrow>
     pred_option (\<lambda>x. 0 < fo_check_interval_secs x \<and> 0 < fo_timeout_secs x \<and> 0 < fo_failure_threshold x) fo"
    by (cases fo) (simp_all add: each_def validate_failover_def)
qed

lemma validate_tenants_Nil:
  "validate_tenants v i seen ts = [] \<longleftrightarrow>
     list_all tenant_ok ts \<and> distinct (map tenant_id ts) \<and> set (map tenant_id ts) \<inter> set seen = {}"
  by (induction ts arbitrary: i seen) (auto simp: tenant_ok_def split: option.splits)

lemma validate_Nil: "validate v c = [] \<longleftrightarrow> config_ok v c"
  unfolding validate_def config_ok_def append_is_Nil_conv validate_parts_Nil validate_tenants_Nil
  by auto

lemma merge_tenants_distinct:
  assumes "distinct (map tenant_id mine)" "distinct (map tenant_id others)"
  shows "distinct (map tenant_id (merge_tenants env mine others))"
proof -
  have dist: "distinct (map tenant_id (filter (\<lambda>x. tenant_id x \<noteq> k) ts))" if "distinct (map tenant_id ts)" for k and ts :: "tenant_config list"
    using that by (induction ts) auto
  have "distinct (map tenant_id ts) \<Longrightarrow>
      distinct (map tenant_id (fold (\<lambda>t ts. filter (\<lambda>x. tenant_id x \<noteq> tenant_id t) ts @ [t]) os ts))" for os ts :: "tenant_config list"
  proof (induction os arbitrary: ts)
    case (Cons t os)
    have "distinct (map tenant_id (filter (\<lambda>x. tenant_id x \<noteq> tenant_id t) ts @ [t]))"
      using dist [OF Cons.prems] by auto
    then show ?case
      using Cons.IH by (simp only: fold_Cons comp_apply)
  qed simp
  then show ?thesis
    using assms by (simp add: merge_tenants_def)
qed

lemma from_env_tenants_distinct: "distinct (map tenant_id (tenants (from_env v env)))"
  by (simp add: from_env_def split: option.splits)

section \<open>Properties\<close>

text \<open>C29: Validation reports no error exactly for the configurations that satisfy every
  documented constraint, tenants with distinct non-empty identifiers included; and the stricter
  schema validation accepts only configurations that validation accepts.\<close>

theorem validate_sound_complete:
  "(validate v c = [] \<longleftrightarrow> config_ok v c) \<and> (validate_schema v c = [] \<longrightarrow> config_ok v c)"
  using validate_Nil [of v c] by (simp add: validate_schema_def)

definition sample_validators :: validators where
  "sample_validators = \<lparr>parse_socket_addr = (\<lambda>s. Some 9101), check_https_url = (\<lambda>_. None),
     check_cron = (\<lambda>_. None), path_exists = (\<lambda>_. True), parse_f64 = (\<lambda>_. None), show_f64 = (\<lambda>_. [])\<rparr>"

theorem validate_sound_complete_witness: "config_ok sample_validators config_default"
  using validate_sound_complete [of sample_validators config_default]
  by (simp add: validate_schema_def config_default_def sample_validators_def health_config_default_def
      process_config_default_def default_config_version_def validate_def validate_health_def each_def check_def
      positive_def SUPPORTED_VERSIONS_def default_check_interval_def default_check_timeout_def)

text \<open>Loading a file under an environment takes each setting from its variable when
  that is set and from the file otherwise, keeps tenants with distinct identifiers, but setting
  the health or shutdown timeout variable replaces the file's value by the built-in default
  whatever the variable says, and an unreadable interval does the same.\<close>

theorem load_env_over_file:
  assumes "read_file (env_str env ''SHIM_CONFIG'' ''shim.toml'') = Some (Inr fc)"
    and "distinct (map tenant_id (tenants fc))"
  shows "listen (health (load v env read_file)) = env_str env ''HEALTH_LISTEN'' (listen (health fc)) \<and>
    command (process (load v env read_file)) = env_str env ''PROCESS_COMMAND'' (command (process fc)) \<and>
    vault (load v env read_file) = vault fc \<and> failover (load v env read_file) = failover fc \<and>
    interval_secs (health (load v env read_file)) =
      (case env ''HEALTH_INTERVAL_SECS'' of None \<Rightarrow> interval_secs (health fc)
       | Some s \<Rightarrow> (case parse_uint 64 s of Some n \<Rightarrow> n | None \<Rightarrow> 10)) \<and>
    timeout_secs (health (load v env read_file)) =
      (if env ''HEALTH_TIMEOUT_SECS'' = None then timeout_secs (health fc) else 5) \<and>
    shutdown_timeout_secs (process (load v env read_file)) =
      (if env ''SHUTDOWN_TIMEOUT_SECS'' = None then shutdown_timeout_secs (process fc) else 30) \<and>
    distinct (map tenant_id (tenants (load v env read_file)))"
proof -
  have load: "load v env read_file = merge env fc (from_env v env)"
    by (simp add: load_def assms(1) Let_def)
  have "distinct (map tenant_id (tenants (load v env read_file)))"
    using merge_tenants_distinct [OF assms(2) from_env_tenants_distinct] by (simp add: load merge_def Let_def)
  then show ?thesis
    by (auto simp: load merge_def from_env_def env_str_def env_uint_def orelse_def process_config_default_def
        default_check_interval_def default_check_timeout_def default_shutdown_timeout_def Let_def
        split: option.splits)
qed

theorem load_env_over_file_witness:
  "timeout_secs (health (load sample_validators [''HEALTH_TIMEOUT_SECS'' \<mapsto> ''60'']
     (\<lambda>_. Some (Inr (config_default\<lparr>health := health_config_default\<lparr>timeout_secs := 20\<rparr>\<rparr>))))) = 5"
  using load_env_over_file [of "\<lambda>_. Some (Inr (config_default\<lparr>health := health_config_default\<lparr>timeout_secs := 20\<rparr>\<rparr>))"
      "[''HEALTH_TIMEOUT_SECS'' \<mapsto> ''60'']"
      "config_default\<lparr>health := health_config_default\<lparr>timeout_secs := 20\<rparr>\<rparr>" sample_validators]
  by (simp add: config_default_def)

end
