(* ===== verification/Tenant.thy ===== *)
theory Tenant
  imports Config Rate_Limit
begin

text \<open>
  \<^verbatim>\<open>shim-core/src/tenant.rs\<close>: per-tenant quotas, token buckets, CPU windows and the
  bounded audit log.  The identifier check of \<^verbatim>\<open>validkit\<close> is the parameter \<^verbatim>\<open>slug\<close>.
  Each call reads the clock once (argument \<^verbatim>\<open>now\<close>), where the code reads it
  several times within the call.  Percentages and token counts are exact
  rationals.  Dropping the oldest audit entry of an empty log panics.
\<close>

section \<open>Data\<close>

definition is_valid_tenant_id :: "(string \<Rightarrow> bool) \<Rightarrow> string \<Rightarrow> bool" where
  "is_valid_tenant_id slug tid = slug tid"

datatype invalid_tenant_id = InvalidTenantId string

definition invalid_tenant_id_display :: "invalid_tenant_id \<Rightarrow> string" where
  "invalid_tenant_id_display e = (case e of InvalidTenantId s \<Rightarrow>
     ''invalid tenant ID '' @ CHR 0x27 # s @ [CHR 0x27] @
     '': must be 3-64 ASCII alphanumeric/hyphen characters'')"

datatype tenant_quota_result = Allowed | RateLimited | MemoryExceeded | CpuExceeded

record audit_entry =
  ae_timestamp :: time
  ae_tenant_id :: string
  ae_action :: string
  ae_allowed :: bool

record token_bucket =
  tokens :: f64
  max_tokens :: f64
  refill_rate :: f64
  last_refill :: time

definition token_bucket_new :: "time \<Rightarrow> f64 \<Rightarrow> f64 \<Rightarrow> token_bucket" where
  "token_bucket_new now m r = \<lparr>tokens = m, max_tokens = m, refill_rate = r, last_refill = now\<rparr>"

definition refill :: "time \<Rightarrow> token_bucket \<Rightarrow> token_bucket" where
  "refill now b =
    (let elapsed = secs (max 0 (now - last_refill b))
     in b\<lparr>tokens := min (tokens b + elapsed * refill_rate b) (max_tokens b), last_refill := now\<rparr>)"

definition try_consume :: "time \<Rightarrow> token_bucket \<Rightarrow> token_bucket \<times> bool" where
  "try_consume now b =
    (let b1 = refill now b
     in if 1 \<le> tokens b1 then (b1\<lparr>tokens := tokens b1 - 1\<rparr>, True) else (b1, False))"

definition bucket_reset :: "time \<Rightarrow> token_bucket \<Rightarrow> token_bucket" where
  "bucket_reset now b = b\<lparr>tokens := max_tokens b, last_refill := now\<rparr>"

record cpu_time_tracker =
  total_cpu_ms :: f64
  window_start :: "time option"
  max_cpu_ms :: "f64 option"

definition cpu_time_default :: cpu_time_tracker where
  "cpu_time_default = \<lparr>total_cpu_ms = 0, window_start = None, max_cpu_ms = None\<rparr>"

definition start_window :: "time \<Rightarrow> cpu_time_tracker \<Rightarrow> cpu_time_tracker" where
  "start_window now c = c\<lparr>window_start := Some now\<rparr>"

definition end_window :: "time \<Rightarrow> cpu_time_tracker \<Rightarrow> cpu_time_tracker \<times> f64" where
  "end_window now c =
    (case window_start c of
       Some st \<Rightarrow>
         (let elapsed = secs (max 0 (now - st)) * 1000
          in (c\<lparr>window_start := None, total_cpu_ms := total_cpu_ms c + elapsed\<rparr>, elapsed))
     | None \<Rightarrow> (c, 0))"

definition is_over_budget :: "cpu_time_tracker \<Rightarrow> bool" where
  "is_over_budget c = (case max_cpu_ms c of Some m \<Rightarrow> m < total_cpu_ms c | None \<Rightarrow> False)"

definition cpu_time_reset :: "cpu_time_tracker \<Rightarrow> cpu_time_tracker" where
  "cpu_time_reset c = c\<lparr>total_cpu_ms := 0, window_start := None\<rparr>"

record tenant_usage =
  memory_bytes :: nat
  cpu_percent :: f64
  requests_count :: nat
  last_reset :: time
  bucket :: "token_bucket option"
  cpu_time :: cpu_time_tracker
  rejected_count :: nat

definition tenant_usage_default :: "time \<Rightarrow> tenant_usage" where
  "tenant_usage_default now = \<lparr>memory_bytes = 0, cpu_percent = 0, requests_count = 0,
     last_reset = now, bucket = None, cpu_time = cpu_time_default, rejected_count = 0\<rparr>"

record tenant_metrics =
  tm_tenant_id :: string
  tm_memory_bytes :: nat
  tm_cpu_percent :: f64
  tm_requests_count :: nat
  memory_limit_reached :: bool
  cpu_limit_reached :: bool
  rate_limit_reached :: bool
  tm_rejected_count :: nat
  tm_total_cpu_ms :: f64

record tenant_isolator =
  configs :: "(string, tenant_config) hmap"
  usage :: "(string, tenant_usage) hmap"
  global_enabled :: bool
  audit_log :: "audit_entry list"
  max_audit_entries :: nat

section \<open>Quota decision\<close>

definition classify_rate :: "tenant_usage \<Rightarrow> tenant_config \<Rightarrow> tenant_quota_result \<times> bool" where
  "classify_rate u c =
    (if bucket u \<noteq> None then (Allowed, True)
     else (case max_requests_per_sec c of
             Some max_rps \<Rightarrow> if max_rps < requests_count u then (RateLimited, False) else (Allowed, False)
           | None \<Rightarrow> (Allowed, False)))"

definition check_cpu_and_rate ::
  "tenant_usage \<Rightarrow> tenant_config \<Rightarrow> tenant_usage \<times> tenant_quota_result \<times> bool" where
  "check_cpu_and_rate u c =
    (let cpu_exceeded = (case max_cpu_percent c of Some m \<Rightarrow> m < cpu_percent u | None \<Rightarrow> False)
         \<or> is_over_budget (cpu_time u)
     in if cpu_exceeded then (u\<lparr>rejected_count := rejected_count u + 1\<rparr>, CpuExceeded, False)
        else (u, classify_rate u c))"

text \<open>\<^verbatim>\<open>elapsed().as_secs() >= period\<close>, and the reset it triggers.\<close>

definition reset_if_due :: "nat \<Rightarrow> time \<Rightarrow> tenant_usage \<Rightarrow> tenant_usage" where
  "reset_if_due period now u =
    (if int period \<le> max 0 (now - last_reset u) div second then
       u\<lparr>requests_count := 0, last_reset := now, bucket := map_option (bucket_reset now) (bucket u)\<rparr>
     else u)"

definition ensure_bucket :: "time \<Rightarrow> tenant_config \<Rightarrow> tenant_usage \<Rightarrow> tenant_usage" where
  "ensure_bucket now c u =
    (case (bucket u, max_requests_per_sec c) of
       (None, Some r) \<Rightarrow> u\<lparr>bucket := Some (token_bucket_new now (of_nat r) (of_nat r))\<rparr>
     | _ \<Rightarrow> u)"

text \<open>The part of \<^verbatim>\<open>check_quota_hardened\<close> that works on the usage of a configured tenant.\<close>

definition quota_usage :: "tenant_config \<Rightarrow> time \<Rightarrow> tenant_usage \<Rightarrow> tenant_usage \<times> tenant_quota_result" where
  "quota_usage c now u0 =
    (let u1 = reset_if_due (reset_period_secs c) now (ensure_bucket now c u0);
         (u2, result, needs_token_consume) =
           (case max_memory_bytes c of
              Some m \<Rightarrow> if m < memory_bytes u1
                        then (u1\<lparr>rejected_count := rejected_count u1 + 1\<rparr>, MemoryExceeded, False)
                        else check_cpu_and_rate u1 c
            | None \<Rightarrow> check_cpu_and_rate u1 c)
     in if needs_token_consume then
          (case bucket u2 of
             Some b \<Rightarrow>
               (case try_consume now b of
                  (b', True) \<Rightarrow> (u2\<lparr>bucket := Some b'\<rparr>, result)
                | (b', False) \<Rightarrow>
                    (u2\<lparr>bucket := Some b', rejected_count := rejected_count u2 + 1\<rparr>, RateLimited))
           | None \<Rightarrow> (u2, result))
        else (u2, result))"

definition record_audit_entry ::
  "time \<Rightarrow> string \<Rightarrow> string \<Rightarrow> bool \<Rightarrow> tenant_isolator \<Rightarrow> tenant_isolator outcome" where
  "record_audit_entry now tid act ok s =
    (let entry = \<lparr>ae_timestamp = now, ae_tenant_id = tid, ae_action = act, ae_allowed = ok\<rparr> in
     if max_audit_entries s \<le> length (audit_log s) then
       (case audit_log s of
          [] \<Rightarrow> Panics
        | _ # rest \<Rightarrow> Returns (s\<lparr>audit_log := rest @ [entry]\<rparr>))
     else Returns (s\<lparr>audit_log := audit_log s @ [entry]\<rparr>))"

definition usage_of :: "time \<Rightarrow> string \<Rightarrow> tenant_isolator \<Rightarrow> tenant_usage" where
  "usage_of now tid s =
    (case map_of (usage s) tid of Some u \<Rightarrow> u | None \<Rightarrow> tenant_usage_default now)"

definition check_quota_hardened ::
  "time \<Rightarrow> string \<Rightarrow> tenant_isolator \<Rightarrow> (tenant_isolator \<times> tenant_quota_result) outcome" where
  "check_quota_hardened now tid s =
    (if \<not> global_enabled s then Returns (s, Allowed)
     else
       (case map_of (configs s) tid of
          None \<Rightarrow> Returns (s, Allowed)
        | Some c \<Rightarrow>
            (let (u, result) = quota_usage c now (usage_of now tid s);
                 s1 = s\<lparr>usage := hm_insert tid u (usage s)\<rparr>
             in case record_audit_entry now tid ''quota_check'' (result = Allowed) s1 of
                  Returns s2 \<Rightarrow> Returns (s2, result)
                | Panics \<Rightarrow> Panics)))"

definition check_quota :: "time \<Rightarrow> string \<Rightarrow> tenant_isolator \<Rightarrow> (tenant_isolator \<times> bool) outcome" where
  "check_quota now tid s =
    (case check_quota_hardened now tid s of
       Returns (s', r) \<Rightarrow> Returns (s', r = Allowed)
     | Panics \<Rightarrow> Panics)"

section \<open>Isolator\<close>

definition isolator_new :: tenant_isolator where
  "isolator_new = \<lparr>configs = [], usage = [], global_enabled = False, audit_log = [],
     max_audit_entries = 10000\<rparr>"

definition initial_usage :: "time \<Rightarrow> tenant_config \<Rightarrow> tenant_usage" where
  "initial_usage now t =
    (case max_requests_per_sec t of
       Some r \<Rightarrow> (tenant_usage_default now)\<lparr>bucket := Some (token_bucket_new now (of_nat r) (of_nat r))\<rparr>
     | None \<Rightarrow> tenant_usage_default now)"

fun add_tenants ::
  "(string \<Rightarrow> bool) \<Rightarrow> time \<Rightarrow> tenant_config list \<Rightarrow> tenant_isolator \<Rightarrow> invalid_tenant_id + tenant_isolator" where
  "add_tenants slug now [] s = Inr s"
| "add_tenants slug now (t # ts) s =
    (if \<not> slug (tenant_id t) then Inl (InvalidTenantId (tenant_id t))
     else add_tenants slug now ts
       (s\<lparr>configs := hm_insert (tenant_id t) t (configs s),
          usage := hm_insert (tenant_id t) (initial_usage now t) (usage s)\<rparr>))"

definition from_config ::
  "(string \<Rightarrow> bool) \<Rightarrow> time \<Rightarrow> config \<Rightarrow> invalid_tenant_id + tenant_isolator" where
  "from_config slug now cfg =
    (case add_tenants slug now (tenants cfg) isolator_new of
       Inl e \<Rightarrow> Inl e
     | Inr s \<Rightarrow> Inr (s\<lparr>global_enabled := (tenants cfg \<noteq> [])\<rparr>))"

definition set_max_audit_entries :: "nat \<Rightarrow> tenant_isolator \<Rightarrow> tenant_isolator" where
  "set_max_audit_entries m s = s\<lparr>max_audit_entries := m\<rparr>"

definition validate_tenant_id :: "(string \<Rightarrow> bool) \<Rightarrow> string \<Rightarrow> invalid_tenant_id + unit" where
  "validate_tenant_id slug tid = (if slug tid then Inr () else Inl (InvalidTenantId tid))"

definition register_tenant ::
  "(string \<Rightarrow> bool) \<Rightarrow> time \<Rightarrow> tenant_config \<Rightarrow> tenant_isolator
   \<Rightarrow> (tenant_isolator \<times> (invalid_tenant_id + unit)) outcome" where
  "register_tenant slug now c s =
    (let tid = tenant_id c in
     if \<not> slug tid then Returns (s, Inl (InvalidTenantId tid))
     else
       (let s1 = s\<lparr>configs := hm_insert tid c (configs s), global_enabled := True\<rparr>;
            s2 = (case max_requests_per_sec c of
                    Some r \<Rightarrow> s1\<lparr>usage := hm_insert tid ((usage_of now tid s1)
                        \<lparr>bucket := Some (token_bucket_new now (of_nat r) (of_nat r))\<rparr>) (usage s1)\<rparr>
                  | None \<Rightarrow> s1)
        in case record_audit_entry now tid ''register'' True s2 of
             Returns s3 \<Rightarrow> Returns (s3, Inr ())
           | Panics \<Rightarrow> Panics))"

definition remove_tenant :: "time \<Rightarrow> string \<Rightarrow> tenant_isolator \<Rightarrow> (tenant_isolator \<times> bool) outcome" where
  "remove_tenant now tid s =
    (let s1 = s\<lparr>usage := hm_remove tid (usage s)\<rparr>;
         removed = (map_of (configs s1) tid \<noteq> None);
         s2 = s1\<lparr>configs := hm_remove tid (configs s1)\<rparr>
     in if removed then
          (case record_audit_entry now tid ''remove'' True s2 of
             Returns s3 \<Rightarrow> Returns (s3, True)
           | Panics \<Rightarrow> Panics)
        else Returns (s2, False))"

definition on_usage ::
  "time \<Rightarrow> string \<Rightarrow> (tenant_usage \<Rightarrow> tenant_usage) \<Rightarrow> tenant_isolator \<Rightarrow> tenant_isolator" where
  "on_usage now tid f s = s\<lparr>usage := hm_insert tid (f (usage_of now tid s)) (usage s)\<rparr>"

definition record_memory :: "time \<Rightarrow> string \<Rightarrow> nat \<Rightarrow> tenant_isolator \<Rightarrow> tenant_isolator" where
  "record_memory now tid n = on_usage now tid (\<lambda>u. u\<lparr>memory_bytes := n\<rparr>)"

definition record_cpu :: "time \<Rightarrow> string \<Rightarrow> f64 \<Rightarrow> tenant_isolator \<Rightarrow> tenant_isolator" where
  "record_cpu now tid p = on_usage now tid (\<lambda>u. u\<lparr>cpu_percent := p\<rparr>)"

definition record_request :: "time \<Rightarrow> string \<Rightarrow> tenant_isolator \<Rightarrow> tenant_isolator" where
  "record_request now tid = on_usage now tid (\<lambda>u. u\<lparr>requests_count := requests_count u + 1\<rparr>)"

definition check_and_reset :: "time \<Rightarrow> string \<Rightarrow> tenant_isolator \<Rightarrow> tenant_isolator" where
  "check_and_reset now tid s =
    (let period = (case map_of (configs s) tid of Some c \<Rightarrow> reset_period_secs c | None \<Rightarrow> 1) in
     case map_of (usage s) tid of
       Some u \<Rightarrow> s\<lparr>usage := hm_insert tid (reset_if_due period now u) (usage s)\<rparr>
     | None \<Rightarrow> s)"

definition is_feature_allowed :: "string \<Rightarrow> string \<Rightarrow> tenant_isolator \<Rightarrow> bool" where
  "is_feature_allowed tid feature s =
    (case map_of (configs s) tid of
       Some c \<Rightarrow> feature \<in> set (allowed_features c)
     | None \<Rightarrow> True)"

definition start_cpu_window :: "time \<Rightarrow> string \<Rightarrow> tenant_isolator \<Rightarrow> tenant_isolator" where
  "start_cpu_window now tid = on_usage now tid (\<lambda>u. u\<lparr>cpu_time := start_window now (cpu_time u)\<rparr>)"

definition end_cpu_window :: "time \<Rightarrow> string \<Rightarrow> tenant_isolator \<Rightarrow> tenant_isolator \<times> f64" where
  "end_cpu_window now tid s =
     (on_usage now tid (\<lambda>u. u\<lparr>cpu_time := fst (end_window now (cpu_time u))\<rparr>) s,
      snd (end_window now (cpu_time (usage_of now tid s))))"

definition tenant_metrics_of :: "time \<Rightarrow> tenant_isolator \<Rightarrow> tenant_config \<Rightarrow> tenant_metrics" where
  "tenant_metrics_of now s c =
    (let u = usage_of now (tenant_id c) s in
     \<lparr>tm_tenant_id = tenant_id c, tm_memory_bytes = memory_bytes u, tm_cpu_percent = cpu_percent u,
      tm_requests_count = requests_count u,
      memory_limit_reached = (case max_memory_bytes c of Some m \<Rightarrow> m < memory_bytes u | None \<Rightarrow> False),
      cpu_limit_reached = (case max_cpu_percent c of Some m \<Rightarrow> m < cpu_percent u | None \<Rightarrow> False),
      rate_limit_reached =
        (case bucket u of
           Some b \<Rightarrow> tokens b < 1
         | None \<Rightarrow> (case max_requests_per_sec c of Some m \<Rightarrow> m < requests_count u | None \<Rightarrow> False)),
      tm_rejected_count = rejected_count u, tm_total_cpu_ms = total_cpu_ms (cpu_time u)\<rparr>)"

definition isolator_metrics ::
  "((string, tenant_config) hmap \<Rightarrow> (string, tenant_config) hmap) \<Rightarrow> time \<Rightarrow> tenant_isolator
   \<Rightarrow> tenant_metrics list" where
  "isolator_metrics ord now s = map (tenant_metrics_of now s \<circ> snd) (hash_iter ord (configs s))"

definition flag :: "bool \<Rightarrow> f64" where
  "flag b = (if b then 1 else 0)"

definition shim_metrics :: "tenant_metrics list \<Rightarrow> (metric \<times> (string \<times> string) list) list" where
  "shim_metrics tms =
     concat (map (\<lambda>tm. map (\<lambda>m. (m, [(''tenant_id'', tm_tenant_id tm)]))
       [(''tenant_memory_bytes'', of_nat (tm_memory_bytes tm)),
        (''tenant_cpu_percent'', tm_cpu_percent tm),
        (''tenant_requests_count'', of_nat (tm_requests_count tm)),
        (''tenant_memory_limit_reached'', flag (memory_limit_reached tm)),
        (''tenant_cpu_limit_reached'', flag (cpu_limit_reached tm)),
        (''tenant_rate_limit_reached'', flag (rate_limit_reached tm)),
        (''tenant_rejected_count'', of_nat (tm_rejected_count tm)),
        (''tenant_total_cpu_ms'', tm_total_cpu_ms tm)]) tms)"

definition tenant_count :: "tenant_isolator \<Rightarrow> nat" where
  "tenant_count s = length (configs s)"

section \<open>Audit log\<close>

datatype tenant_op =
    TRegister time tenant_config
  | TRemove time string
  | TMemory time string nat
  | TCpu time string f64
  | TRequest time string
  | TReset time string
  | TQuota time string
  | TStartCpu time string
  | TEndCpu time string

definition then_state :: "('s \<times> 'r) outcome \<Rightarrow> 's outcome" where
  "then_state r = (case r of Returns (s, _) \<Rightarrow> Returns s | Panics \<Rightarrow> Panics)"

fun tenant_call :: "(string \<Rightarrow> bool) \<Rightarrow> tenant_op \<Rightarrow> tenant_isolator \<Rightarrow> tenant_isolator outcome" where
  "tenant_call slug (TRegister now c) s = then_state (register_tenant slug now c s)"
| "tenant_call slug (TRemove now tid) s = then_state (remove_tenant now tid s)"
| "tenant_call slug (TMemory now tid n) s = Returns (record_memory now tid n s)"
| "tenant_call slug (TCpu now tid p) s = Returns (record_cpu now tid p s)"
| "tenant_call slug (TRequest now tid) s = Returns (record_request now tid s)"
| "tenant_call slug (TReset now tid) s = Returns (check_and_reset now tid s)"
| "tenant_call slug (TQuota now tid) s = then_state (check_quota_hardened now tid s)"
| "tenant_call slug (TStartCpu now tid) s = Returns (start_cpu_window now tid s)"
| "tenant_call slug (TEndCpu now tid) s = Returns (fst (end_cpu_window now tid s))"

definition tenant_exec :: "(string \<Rightarrow> bool) \<Rightarrow> tenant_op \<Rightarrow> tenant_isolator outcome \<Rightarrow> tenant_isolator outcome" where
  "tenant_exec slug op r = (case r of Returns s \<Rightarrow> tenant_call slug op s | Panics \<Rightarrow> Panics)"

definition audit_bounded :: "nat \<Rightarrow> tenant_isolator outcome \<Rightarrow> bool" where
  "audit_bounded m r \<longleftrightarrow> (case r of
     Returns s \<Rightarrow> max_audit_entries s = m \<and> 0 < m \<and> length (audit_log s) \<le> m
   | Panics \<Rightarrow> False)"

lemma record_audit_entry_returns:
  assumes "max_audit_entries s = m" "0 < m" "length (audit_log s) \<le> m"
  shows "\<exists>log. record_audit_entry now tid act ok s = Returns (s\<lparr>audit_log := log\<rparr>) \<and> length log \<le> m"
  using assms by (cases "audit_log s") (auto simp: record_audit_entry_def Let_def)

definition same_audit :: "tenant_isolator \<Rightarrow> tenant_isolator \<Rightarrow> bool" where
  "same_audit s s' \<longleftrightarrow> audit_log s' = audit_log s \<and> max_audit_entries s' = max_audit_entries s"

lemma same_audit_ops:
  "same_audit s (record_memory now tid n s)" "same_audit s (record_cpu now tid p s)"
  "same_audit s (record_request now tid s)" "same_audit s (start_cpu_window now tid s)"
  "same_audit s (fst (end_cpu_window now tid s))" "same_audit s (check_and_reset now tid s)"
  by (simp_all add: same_audit_def record_memory_def record_cpu_def record_request_def on_usage_def
      start_cpu_window_def end_cpu_window_def check_and_reset_def Let_def split: option.split)

lemma bounded_same:
  "audit_bounded m (Returns s) \<Longrightarrow> same_audit s s' \<Longrightarrow> audit_bounded m (Returns s')"
  by (simp add: audit_bounded_def same_audit_def)

lemma bounded_audit:
  assumes "audit_bounded m (Returns s)" "same_audit s s'"
  shows "audit_bounded m (then_state (case record_audit_entry now tid act ok s' of
      Returns s3 \<Rightarrow> Returns (s3, r) | Panics \<Rightarrow> Panics))"
  using record_audit_entry_returns [of s' m now tid act ok] assms
  by (auto simp: audit_bounded_def then_state_def same_audit_def)

lemma bounded_register:
  assumes "audit_bounded m (Returns s)"
  shows "audit_bounded m (then_state (register_tenant slug now c s))"
proof (cases "slug (tenant_id c)")
  case True
  show ?thesis
    using True
    by (cases "max_requests_per_sec c") (simp_all add: bounded_audit [OF assms] register_tenant_def same_audit_def Let_def)
next
  case False
  then show ?thesis
    using assms by (simp add: register_tenant_def then_state_def Let_def)
qed

lemma bounded_remove:
  assumes "audit_bounded m (Returns s)"
  shows "audit_bounded m (then_state (remove_tenant now tid s))"
proof (cases "map_of (configs s) tid")
  case None
  then show ?thesis
    using assms by (simp add: remove_tenant_def then_state_def audit_bounded_def Let_def)
next
  case (Some c)
  then show ?thesis
    by (simp add: bounded_audit [OF assms] remove_tenant_def same_audit_def Let_def)
qed

lemma bounded_quota:
  assumes "audit_bounded m (Returns s)"
  shows "audit_bounded m (then_state (check_quota_hardened now tid s))"
proof (cases "global_enabled s \<and> map_of (configs s) tid \<noteq> None")
  case True
  then obtain c where c: "map_of (configs s) tid = Some c" "global_enabled s"
    by auto
  obtain u r where q: "quota_usage c now (usage_of now tid s) = (u, r)"
    by (cases "quota_usage c now (usage_of now tid s)")
  show ?thesis
    by (simp add: bounded_audit [OF assms] check_quota_hardened_def c q same_audit_def Let_def)
next
  case False
  then show ?thesis
    using assms by (auto simp: check_quota_hardened_def then_state_def)
qed

lemma tenant_call_bounded:
  "audit_bounded m (Returns s) \<Longrightarrow> audit_bounded m (tenant_call slug op s)"
  by (cases op) (simp_all add: bounded_register bounded_remove bounded_quota bounded_same [OF _ same_audit_ops(1)]
      bounded_same [OF _ same_audit_ops(2)] bounded_same [OF _ same_audit_ops(3)] bounded_same [OF _ same_audit_ops(4)]
      bounded_same [OF _ same_audit_ops(5)] bounded_same [OF _ same_audit_ops(6)])

interpretation tenant_sys: op_system "tenant_exec slug" "audit_bounded m"
proof
  fix r op
  assume inv: "audit_bounded m r"
  then show "audit_bounded m (tenant_exec slug op r)"
    by (cases r) (simp_all add: tenant_exec_def tenant_call_bounded)
qed

section \<open>Isolation\<close>

text \<open>A tenant with no limit but a request rate, for examples.\<close>

definition plain_tenant :: "string \<Rightarrow> nat option \<Rightarrow> nat \<Rightarrow> tenant_config" where
  "plain_tenant tid rps period = \<lparr>tenant_id = tid, max_memory_bytes = None, max_cpu_percent = None,
     max_requests_per_sec = rps, allowed_features = [], quota_config = resource_quota_default,
     reset_period_secs = period\<rparr>"

fun op_tenant :: "tenant_op \<Rightarrow> string" where
  "op_tenant (TRegister now c) = tenant_id c"
| "op_tenant (TRemove now tid) = tid"
| "op_tenant (TMemory now tid n) = tid"
| "op_tenant (TCpu now tid p) = tid"
| "op_tenant (TRequest now tid) = tid"
| "op_tenant (TReset now tid) = tid"
| "op_tenant (TQuota now tid) = tid"
| "op_tenant (TStartCpu now tid) = tid"
| "op_tenant (TEndCpu now tid) = tid"

lemma record_audit_entry_maps:
  "record_audit_entry now tid act ok s = Returns s' \<Longrightarrow> configs s' = configs s \<and> usage s' = usage s \<and> global_enabled s' = global_enabled s"
  by (auto simp: record_audit_entry_def Let_def split: if_splits list.splits)

lemma tenant_call_other:
  assumes "tenant_call slug op s = Returns s'" "op_tenant op \<noteq> b"
  shows "map_of (configs s') b = map_of (configs s) b" "map_of (usage s') b = map_of (usage s) b"
    "global_enabled s \<Longrightarrow> global_enabled s'"
  using assms
  by (cases op; auto simp: register_tenant_def remove_tenant_def check_quota_hardened_def then_state_def
      record_memory_def record_cpu_def record_request_def start_cpu_window_def end_cpu_window_def on_usage_def
      check_and_reset_def Let_def dest!: record_audit_entry_maps
      split: option.splits prod.splits if_splits outcome.splits)+

definition quota_answer :: "time \<Rightarrow> string \<Rightarrow> tenant_isolator \<Rightarrow> tenant_quota_result" where
  "quota_answer now tid s =
    (case map_of (configs s) tid of
       Some c \<Rightarrow> if global_enabled s then snd (quota_usage c now (usage_of now tid s)) else Allowed
     | None \<Rightarrow> Allowed)"

lemma check_quota_answer:
  "check_quota_hardened now tid s = Returns (s', r) \<Longrightarrow> r = quota_answer now tid s"
  by (auto simp: check_quota_hardened_def quota_answer_def Let_def split: option.splits prod.splits if_splits outcome.splits)

lemma check_quota_returns:
  "audit_bounded m (Returns s) \<Longrightarrow> \<exists>s'. check_quota_hardened now tid s = Returns (s', quota_answer now tid s)"
  using bounded_quota [of m s now tid] check_quota_answer [of now tid s]
  by (cases "check_quota_hardened now tid s") (auto simp: then_state_def audit_bounded_def)

lemma tenant_run_other:
  assumes "audit_bounded m (Returns s)" "\<forall>op\<in>set ops. op_tenant op \<noteq> b"
  shows "\<exists>s'. fold (tenant_exec slug) ops (Returns s) = Returns s' \<and> audit_bounded m (Returns s')
    \<and> map_of (configs s') b = map_of (configs s) b \<and> map_of (usage s') b = map_of (usage s) b
    \<and> (global_enabled s \<longrightarrow> global_enabled s')"
  using assms
proof (induction ops arbitrary: s)
  case (Cons op ops)
  have "audit_bounded m (tenant_call slug op s)"
    using Cons.prems(1) by (rule tenant_call_bounded)
  then obtain s1 where s1: "tenant_call slug op s = Returns s1" "audit_bounded m (Returns s1)"
    by (cases "tenant_call slug op s") (auto simp: audit_bounded_def)
  have "op_tenant op \<noteq> b"
    using Cons.prems(2) by simp
  then show ?case
    using Cons.IH [OF s1(2)] Cons.prems(2) tenant_call_other [OF s1(1)] s1(1)
    by (auto simp: tenant_exec_def)
qed simp

text \<open>C26: Tenants are isolated from each other.  Whatever calls are made on behalf of other
  tenants (registrations, removals, recorded memory, CPU and requests, quota
  checks), none of them panics, and the next quota check of tenant \<^verbatim>\<open>b\<close> gives the
  same answer as it would have given without them.\<close>

theorem tenant_isolation:
  assumes "audit_bounded m (Returns s)" "global_enabled s" "\<forall>op\<in>set ops. op_tenant op \<noteq> b"
  shows "\<exists>s' s1 s2 r. fold (tenant_exec slug) ops (Returns s) = Returns s'
    \<and> check_quota_hardened now b s = Returns (s1, r) \<and> check_quota_hardened now b s' = Returns (s2, r)"
proof -
  obtain s' where s': "fold (tenant_exec slug) ops (Returns s) = Returns s'" "audit_bounded m (Returns s')"
    "map_of (configs s') b = map_of (configs s) b" "map_of (usage s') b = map_of (usage s) b" "global_enabled s'"
    using tenant_run_other [OF assms(1,3)] assms(2) by blast
  have "quota_answer now b s' = quota_answer now b s"
    using s' assms(2) by (simp add: quota_answer_def usage_of_def split: option.split)
  then show ?thesis
    using s'(1) check_quota_returns [OF assms(1), of now b] check_quota_returns [OF s'(2), of now b] by metis
qed

theorem tenant_isolation_witness:
  "\<exists>s' s1 s2 r. fold (tenant_exec (\<lambda>t. 3 \<le> length t)) [TMemory 5 ''acme'' 70, TQuota 6 ''acme'']
      (Returns (isolator_new\<lparr>global_enabled := True\<rparr>)) = Returns s'
    \<and> check_quota_hardened 9 ''beta'' (isolator_new\<lparr>global_enabled := True\<rparr>) = Returns (s1, r)
    \<and> check_quota_hardened 9 ''beta'' s' = Returns (s2, r)"
  by (rule tenant_isolation [where m = 10000]) (simp_all add: audit_bounded_def isolator_new_def)

text \<open>The audit log is bounded and recording into it never fails, as long as the configured
  bound is positive: after any sequence of calls on a fresh isolator there is a
  state, and its log holds at most the configured number of entries.  With the bound
  0, which \<^verbatim>\<open>set_max_audit_entries\<close> accepts, registering a valid tenant panics.\<close>

theorem audit_log_bounded:
  "(0 < m \<longrightarrow> (\<exists>s. fold (tenant_exec slug) ops (Returns (set_max_audit_entries m isolator_new)) = Returns s
      \<and> length (audit_log s) \<le> m))
   \<and> (slug (tenant_id c) \<longrightarrow> register_tenant slug now c (set_max_audit_entries 0 isolator_new) = Panics)"
proof (intro conjI impI)
  assume "0 < m"
  then have "audit_bounded m (Returns (set_max_audit_entries m isolator_new))"
    by (simp add: audit_bounded_def set_max_audit_entries_def isolator_new_def)
  from tenant_sys.fold_inv [OF this, of slug ops]
  show "\<exists>s. fold (tenant_exec slug) ops (Returns (set_max_audit_entries m isolator_new)) = Returns s
      \<and> length (audit_log s) \<le> m"
    by (auto simp: audit_bounded_def split: outcome.splits)
next
  assume "slug (tenant_id c)"
  then show "register_tenant slug now c (set_max_audit_entries 0 isolator_new) = Panics"
    by (simp add: register_tenant_def Let_def set_max_audit_entries_def isolator_new_def
        record_audit_entry_def split: option.split)
qed

theorem audit_log_bounded_witness:
  "(\<exists>s. fold (tenant_exec (\<lambda>t. True)) [TRemove 0 ''acme'', TQuota 1 ''acme'']
      (Returns (set_max_audit_entries 2 isolator_new)) = Returns s \<and> length (audit_log s) \<le> 2)
   \<and> register_tenant (\<lambda>t. True) 5 (plain_tenant ''acme'' None 1)
       (set_max_audit_entries 0 isolator_new) = Panics"
  using audit_log_bounded [of 2 "\<lambda>t. True" "[TRemove 0 ''acme'', TQuota 1 ''acme'']"
      "plain_tenant ''acme'' None 1" 5] by simp

section \<open>Quota decision and request rate\<close>

definition over_memory :: "tenant_config \<Rightarrow> tenant_usage \<Rightarrow> bool" where
  "over_memory c u = (case max_memory_bytes c of Some m \<Rightarrow> m < memory_bytes u | None \<Rightarrow> False)"

definition over_cpu :: "tenant_config \<Rightarrow> tenant_usage \<Rightarrow> bool" where
  "over_cpu c u \<longleftrightarrow> (case max_cpu_percent c of Some m \<Rightarrow> m < cpu_percent u | None \<Rightarrow> False)
     \<or> is_over_budget (cpu_time u)"

text \<open>The bucket a check at \<^verbatim>\<open>now\<close> draws from, after the creation, reset and refill due.\<close>

definition due_bucket :: "tenant_config \<Rightarrow> time \<Rightarrow> tenant_usage \<Rightarrow> token_bucket option" where
  "due_bucket c now u = map_option (refill now) (bucket (reset_if_due (reset_period_secs c) now (ensure_bucket now c u)))"

lemma ensure_bucket_keeps [simp]:
  "memory_bytes (ensure_bucket now c u) = memory_bytes u" "cpu_percent (ensure_bucket now c u) = cpu_percent u"
  "cpu_time (ensure_bucket now c u) = cpu_time u" "rejected_count (ensure_bucket now c u) = rejected_count u"
  "last_reset (ensure_bucket now c u) = last_reset u"
  by (simp_all add: ensure_bucket_def split: option.split prod.split)

lemma reset_if_due_keeps [simp]:
  "memory_bytes (reset_if_due p now u) = memory_bytes u" "cpu_percent (reset_if_due p now u) = cpu_percent u"
  "cpu_time (reset_if_due p now u) = cpu_time u" "rejected_count (reset_if_due p now u) = rejected_count u"
  by (simp_all add: reset_if_due_def)

lemma rate_has_bucket:
  "max_requests_per_sec c = Some r \<Longrightarrow> bucket (reset_if_due p now (ensure_bucket now c u)) \<noteq> None"
  by (cases "bucket u") (simp_all add: reset_if_due_def ensure_bucket_def)

lemma quota_usage_cases:
  "quota_usage c now u =
    (let u1 = reset_if_due (reset_period_secs c) now (ensure_bucket now c u);
         rej = u1\<lparr>rejected_count := rejected_count u1 + 1\<rparr> in
     if over_memory c u then (rej, MemoryExceeded)
     else if over_cpu c u then (rej, CpuExceeded)
     else (case due_bucket c now u of
       None \<Rightarrow> (u1, Allowed)
     | Some b \<Rightarrow> if 1 \<le> tokens b then (u1\<lparr>bucket := Some (b\<lparr>tokens := tokens b - 1\<rparr>)\<rparr>, Allowed)
                 else (rej\<lparr>bucket := Some b\<rparr>, RateLimited)))"
proof -
  define u1 where "u1 = reset_if_due (reset_period_secs c) now (ensure_bucket now c u)"
  have keeps: "over_memory c u = over_memory c u1" "over_cpu c u = over_cpu c u1"
    by (simp_all add: over_memory_def over_cpu_def u1_def split: option.split)
  have due: "due_bucket c now u = map_option (refill now) (bucket u1)"
    by (simp add: due_bucket_def u1_def)
  have rate: "classify_rate u1 c = (Allowed, bucket u1 \<noteq> None)"
    using rate_has_bucket [of c _ "reset_period_secs c" now u]
    by (cases "max_requests_per_sec c") (auto simp: classify_rate_def u1_def)
  have cpu: "check_cpu_and_rate u1 c = (if over_cpu c u1 then (u1\<lparr>rejected_count := rejected_count u1 + 1\<rparr>, CpuExceeded, False)
      else (u1, Allowed, bucket u1 \<noteq> None))"
    by (simp add: check_cpu_and_rate_def over_cpu_def rate Let_def)
  show ?thesis
  proof (cases "bucket u1")
    case None
    then show ?thesis
      unfolding quota_usage_def u1_def [symmetric] keeps due Let_def cpu
      by (simp add: over_memory_def split: option.split)
  next
    case (Some b)
    then show ?thesis
      unfolding quota_usage_def u1_def [symmetric] keeps due Let_def cpu
      by (simp add: over_memory_def try_consume_def Let_def split: option.split)
  qed
qed

text \<open>The answer of a quota check follows a fixed priority: memory over its limit, then
  CPU over its limit or budget, then a rate bucket without a whole token, then
  allowed.  Every refusal is counted once, and nothing else changes that counter.\<close>

theorem quota_decision:
  "snd (quota_usage c now u) =
     (if over_memory c u then MemoryExceeded
      else if over_cpu c u then CpuExceeded
      else if \<exists>b. due_bucket c now u = Some b \<and> tokens b < 1 then RateLimited
      else Allowed)
   \<and> rejected_count (fst (quota_usage c now u)) =
       rejected_count u + (if snd (quota_usage c now u) = Allowed then 0 else 1)"
  by (cases "due_bucket c now u") (auto simp: quota_usage_cases Let_def)

text \<open>A tenant with a rate limit and within its memory and CPU limits; its bucket was last
  filled no earlier than its last periodic reset.\<close>

definition rate_inv :: "tenant_config \<Rightarrow> nat \<Rightarrow> tenant_usage \<Rightarrow> bool" where
  "rate_inv c r u \<longleftrightarrow> max_requests_per_sec c = Some r \<and> 0 < reset_period_secs c
     \<and> \<not> over_memory c u \<and> \<not> over_cpu c u
     \<and> (case bucket u of None \<Rightarrow> False
        | Some b \<Rightarrow> max_tokens b = of_nat r \<and> refill_rate b = of_nat r \<and> 0 \<le> tokens b
            \<and> tokens b \<le> of_nat r \<and> last_reset u \<le> last_refill b)"

definition quota_step :: "tenant_config \<Rightarrow> time \<Rightarrow> tenant_usage \<Rightarrow> tenant_usage \<times> bool" where
  "quota_step c now u = (case quota_usage c now u of (u', r) \<Rightarrow> (u', r = Allowed))"

definition bucket_clock :: "tenant_usage \<Rightarrow> time" where
  "bucket_clock u = (case bucket u of Some b \<Rightarrow> last_refill b | None \<Rightarrow> 0)"

text \<open>Tokens in hand plus the share of the next periodic reset already earned.\<close>

definition rate_level :: "tenant_config \<Rightarrow> nat \<Rightarrow> tenant_usage \<Rightarrow> f64" where
  "rate_level c r u = (case bucket u of None \<Rightarrow> 0
    | Some b \<Rightarrow> tokens b + of_nat r * min 1 (secs (last_refill b - last_reset u) / of_nat (reset_period_secs c)))"

lemma quota_step_bucket:
  assumes "rate_inv c r u" "bucket u = Some b" "last_refill b \<le> t"
  defines "due \<equiv> int (reset_period_secs c) \<le> (t - last_reset u) div second"
  defines "tok \<equiv> if due then of_nat r else min (tokens b + secs (t - last_refill b) * of_nat r) (of_nat r)"
  shows "\<exists>u'. quota_step c t u = (u', 1 \<le> tok) \<and> last_reset u' = (if due then t else last_reset u)
    \<and> memory_bytes u' = memory_bytes u \<and> cpu_percent u' = cpu_percent u \<and> cpu_time u' = cpu_time u
    \<and> bucket u' = Some (b\<lparr>tokens := (if 1 \<le> tok then tok - 1 else tok), last_refill := t\<rparr>)"
  using assms
  by (auto simp: quota_step_def quota_usage_cases due_bucket_def reset_if_due_def ensure_bucket_def rate_inv_def
      bucket_reset_def refill_def Let_def secs_def)

lemma reset_share:
  fixes p r x e :: rat
  assumes "0 < p" "0 \<le> e" "0 \<le> r"
  shows "r * min 1 ((x + e) / p) \<le> r * min 1 (x / p) + r / p * e"
proof -
  have "0 \<le> e / p"
    using assms by simp
  then have "min 1 ((x + e) / p) \<le> min 1 (x / p) + e / p"
    by (auto simp: min_def add_divide_distrib)
  then have "r * min 1 ((x + e) / p) \<le> r * (min 1 (x / p) + e / p)"
    using assms(3) by (rule mult_left_mono)
  then show ?thesis
    by (simp add: algebra_simps)
qed

lemma reset_due_secs:
  assumes "int p \<le> d div second"
  shows "of_nat p \<le> secs d"
proof -
  have "int p * second \<le> d"
    using assms by simp
  then have "of_int (int p * second) \<le> (of_int d :: rat)"
    by (simp only: of_int_le_iff)
  then show ?thesis
    by (simp add: secs_def)
qed

lemma rate_level_step:
  assumes inv: "rate_inv c r u" and b: "bucket u = Some b" and t: "last_refill b \<le> t"
  shows "rate_level c r (fst (quota_step c t u)) + (if snd (quota_step c t u) then 1 else 0)
    \<le> rate_level c r u + (of_nat r + of_nat r / of_nat (reset_period_secs c)) * secs (t - last_refill b)"
proof -
  let ?P = "of_nat (reset_period_secs c) :: rat" and ?e = "secs (t - last_refill b)"
  define due where "due = (int (reset_period_secs c) \<le> (t - last_reset u) div second)"
  define tok where "tok = (if due then of_nat r else min (tokens b + ?e * of_nat r) (of_nat r))"
  have P: "0 < ?P" and e: "0 \<le> ?e" and tb: "0 \<le> tokens b"
    using inv b t by (auto simp: rate_inv_def)
  have split: "secs (t - last_reset u) = secs (last_refill b - last_reset u) + ?e"
    by (simp add: secs_diff)
  have share: "of_nat r * min 1 (secs (t - last_reset u) / ?P)
      \<le> of_nat r * min 1 (secs (last_refill b - last_reset u) / ?P) + of_nat r / ?P * ?e"
    unfolding split by (rule reset_share [OF P e]) simp
  have "rate_level c r (fst (quota_step c t u)) + (if snd (quota_step c t u) then 1 else 0)
      = tok + (if due then 0 else of_nat r * min 1 (secs (t - last_reset u) / ?P))"
    using quota_step_bucket [OF inv b t] unfolding due_def [symmetric] tok_def [symmetric]
    by (auto simp: rate_level_def secs_def)
  also have "\<dots> \<le> tokens b + of_nat r * min 1 (secs (last_refill b - last_reset u) / ?P) + (of_nat r + of_nat r / ?P) * ?e"
  proof (cases due)
    case True
    then have "?P \<le> secs (t - last_reset u)"
      by (auto simp: due_def intro: reset_due_secs)
    then have "min 1 (secs (t - last_reset u) / ?P) = 1"
      using P by (simp add: le_divide_eq)
    moreover have "0 \<le> of_nat r * ?e"
      using e by simp
    ultimately show ?thesis
      using share True tb by (simp add: tok_def algebra_simps)
  next
    case False
    then show ?thesis
      using share by (simp add: tok_def algebra_simps min_def)
  qed
  finally show ?thesis
    using b by (simp add: rate_level_def)
qed

lemma rate_inv_step:
  assumes inv: "rate_inv c r u" and b: "bucket u = Some b" and t: "last_refill b \<le> t"
  shows "rate_inv c r (fst (quota_step c t u)) \<and> bucket_clock (fst (quota_step c t u)) = t"
proof -
  have e: "0 \<le> secs (t - last_refill b) * of_nat r"
    using t by simp
  have lr: "last_reset u \<le> t"
    using inv b t by (simp add: rate_inv_def)
  define due where "due = (int (reset_period_secs c) \<le> (t - last_reset u) div second)"
  define tok where "tok = (if due then of_nat r else min (tokens b + secs (t - last_refill b) * of_nat r) (of_nat r))"
  have tok: "0 \<le> tok" "tok \<le> of_nat r"
    using inv b e by (simp_all add: tok_def rate_inv_def)
  obtain u' where u': "quota_step c t u = (u', 1 \<le> tok)" "memory_bytes u' = memory_bytes u"
    "cpu_percent u' = cpu_percent u" "cpu_time u' = cpu_time u" "last_reset u' = (if due then t else last_reset u)"
    "bucket u' = Some (b\<lparr>tokens := (if 1 \<le> tok then tok - 1 else tok), last_refill := t\<rparr>)"
    using quota_step_bucket [OF inv b t] unfolding due_def [symmetric] tok_def [symmetric] by blast
  have "over_memory c u' = over_memory c u" "over_cpu c u' = over_cpu c u"
    using u'(2-4) by (simp_all add: over_memory_def over_cpu_def split: option.split)
  then show ?thesis
    using u' inv b tok lr by (simp add: rate_inv_def bucket_clock_def)
qed

interpretation tenant_rate: bucket_contract "quota_step c" "rate_inv c r" "rate_level c r" bucket_clock
  "\<lambda>u. of_nat r + of_nat r / of_nat (reset_period_secs c)"
proof
  fix u t
  assume inv: "rate_inv c r u"
  then obtain b where b: "bucket u = Some b"
    by (auto simp: rate_inv_def split: option.splits)
  show "0 \<le> rate_level c r u"
    using inv b by (auto simp: rate_level_def rate_inv_def)
  assume t: "bucket_clock u \<le> t"
  then have t': "last_refill b \<le> t"
    using b by (simp add: bucket_clock_def)
  show "rate_inv c r (fst (quota_step c t u))" "bucket_clock (fst (quota_step c t u)) = t"
    using rate_inv_step [OF inv b t'] by auto
  show "rate_level c r (fst (quota_step c t u)) + (if snd (quota_step c t u) then 1 else 0)
      \<le> rate_level c r u + (of_nat r + of_nat r / of_nat (reset_period_secs c)) * secs (t - bucket_clock u)"
    using rate_level_step [OF inv b t'] b by (simp add: bucket_clock_def)
qed simp_all

text \<open>C33: Over any run of quota checks of a freshly registered tenant that stays within its
  memory and CPU limits, with \<^verbatim>\<open>r\<close> requests per second and a reset period of \<^verbatim>\<open>p\<close>
  seconds, at most \<^verbatim>\<open>r + (r + r/p) * T\<close> checks are allowed in \<^verbatim>\<open>T\<close> seconds.  The term
  \<^verbatim>\<open>r/p\<close> is the price of the periodic reset, which fills the bucket on top of
  its continuous refill.\<close>

theorem tenant_rate_bound:
  assumes "max_requests_per_sec c = Some r" "0 < reset_period_secs c"
    and "\<forall>m. max_cpu_percent c = Some m \<longrightarrow> 0 \<le> m"
    and "sorted (start # ts)" "\<forall>t\<in>set ts. t \<le> start + dur" "0 \<le> dur"
  shows "of_nat (accepted (quota_step c) ts (initial_usage start c))
    \<le> of_nat r + (of_nat r + of_nat r / of_nat (reset_period_secs c)) * secs dur"
proof -
  have inv: "rate_inv c r (initial_usage start c)"
    using assms(1-3) by (auto simp: rate_inv_def initial_usage_def tenant_usage_default_def token_bucket_new_def
        over_memory_def over_cpu_def is_over_budget_def cpu_time_default_def split: option.splits)
  have "bucket_clock (initial_usage start c) = start" "rate_level c r (initial_usage start c) = of_nat r"
    using assms(1) by (simp_all add: bucket_clock_def rate_level_def initial_usage_def tenant_usage_default_def
        token_bucket_new_def secs_def)
  then show ?thesis
    using tenant_rate.accepted_bound [OF inv, of ts "start + dur"] assms(4-6) by simp
qed

theorem tenant_rate_bound_witness:
  "of_nat (accepted (quota_step (plain_tenant ''acme'' (Some 2) 1)) [0, 0, 500000000]
      (initial_usage 0 (plain_tenant ''acme'' (Some 2) 1)))
    \<le> of_nat 2 + (of_nat 2 + of_nat 2 / of_nat (reset_period_secs (plain_tenant ''acme'' (Some 2) 1))) * secs second"
  by (rule tenant_rate_bound) (simp_all add: plain_tenant_def)

text \<open>The periodic reset is felt: a tenant limited to two requests per second, asking
  three times in every second, is never refused.\<close>

lemma tenant_reset_overshoot:
  "accepted (quota_step (plain_tenant ''acme'' (Some 2) 1))
     [0, 0, 500000000, 1000000000, 1000000000, 1500000000, 2000000000, 2000000000, 2500000000]
     (initial_usage 0 (plain_tenant ''acme'' (Some 2) 1)) = 9"
  by code_simp

section \<open>Serialisation of the usage\<close>

text \<open>A serialised value: an unsigned number, a floating point number, or nothing.\<close>

datatype usage_value = UInt nat | UFloat f64 | UNone

definition serialize_usage :: "tenant_usage \<Rightarrow> (string \<times> usage_value) list" where
  "serialize_usage u =
    [(''memory_bytes'', UInt (memory_bytes u)), (''cpu_percent'', UFloat (cpu_percent u)),
     (''requests_count'', UInt (requests_count u)),
     (''token_bucket_available'', case bucket u of Some b \<Rightarrow> UFloat (tokens b) | None \<Rightarrow> UNone),
     (''rejected_count'', UInt (rejected_count u))]"

definition as_u64 :: "usage_value \<Rightarrow> nat option" where
  "as_u64 x = (case x of UInt n \<Rightarrow> Some n | _ \<Rightarrow> None)"

definition as_f64 :: "usage_value \<Rightarrow> f64 option" where
  "as_f64 x = (case x of UInt n \<Rightarrow> Some (of_nat n) | UFloat f \<Rightarrow> Some f | UNone \<Rightarrow> None)"

text \<open>The visitor goes through the map; a later entry of a field wins, other fields are skipped, and a value of the wrong
  type is an error.\<close>

fun visit_map :: "(string \<times> usage_value) list \<Rightarrow> tenant_usage \<Rightarrow> tenant_usage option" where
  "visit_map [] u = Some u"
| "visit_map ((k, x) # kvs) u =
    (if k = ''memory_bytes'' then (case as_u64 x of Some n \<Rightarrow> visit_map kvs (u\<lparr>memory_bytes := n\<rparr>) | None \<Rightarrow> None)
     else if k = ''cpu_percent'' then (case as_f64 x of Some f \<Rightarrow> visit_map kvs (u\<lparr>cpu_percent := f\<rparr>) | None \<Rightarrow> None)
     else if k = ''requests_count'' then (case as_u64 x of Some n \<Rightarrow> visit_map kvs (u\<lparr>requests_count := n\<rparr>) | None \<Rightarrow> None)
     else visit_map kvs u)"

definition deserialize_usage :: "time \<Rightarrow> (string \<times> usage_value) list \<Rightarrow> tenant_usage option" where
  "deserialize_usage now kvs = visit_map kvs (tenant_usage_default now)"

text \<open>A usage that is written and read back keeps memory, CPU percentage and requests of the period, and loses the rest:
  the tenant starts with a fresh bucket, no accumulated CPU time and no rejections, although bucket level and rejections were
  written.\<close>

lemma usage_roundtrip:
  "deserialize_usage now (serialize_usage u) =
    Some ((tenant_usage_default now)\<lparr>memory_bytes := memory_bytes u, cpu_percent := cpu_percent u, requests_count := requests_count u\<rparr>)"
  by (simp add: deserialize_usage_def serialize_usage_def as_u64_def as_f64_def)

end
