(* ===== verification/Failover.thy ===== *)
theory Failover
  imports Bus Config
begin

text \<open>
  \<^verbatim>\<open>failover-shim/src/lib.rs\<close>: the monitoring loop that counts failed health checks
  of the current primary, promotes the replica and fails back, with its TCP, Patroni
  and Redis Sentinel connectors, and the two stand-alone monitors.  The
  multi-cluster monitor of the same file is in the theory \<^verbatim>\<open>Clusters\<close>.

  One tick of a loop is one function.  What a tick learns from outside is its
  argument \<^verbatim>\<open>world\<close>: which addresses accept a TCP connection, the output of each
  \<^verbatim>\<open>psql\<close> query, the answer of Sentinel, and whether the external promotion command
  succeeds.  What it sends out is a list of effects, in order: promotion commands,
  web hook posts and events for the bus (none when no bus is attached).
  Log messages are left out.  Counters are natural numbers.
\<close>

section \<open>Data\<close>

datatype failover_connector = Tcp | Patroni | RedisSentinel

datatype failover_state = Healthy | Suspect | FailingOver | FailedOver | Recovering | Recovered

datatype promotion = PromoteCmd string | SentinelFailover string string | PatroniSwitchover string string

datatype fo_effect =
    Promote promotion
  | Post string string
  | Emit string "f64 event_type" severity

record fo_world =
  connects :: "string \<Rightarrow> bool"
  psql :: "string \<Rightarrow> string + string"
  sentinel_master_addr :: "(string \<times> nat) option"
  promote_succeeds :: "promotion \<Rightarrow> bool"

record shared_state =
  consecutive_failures :: nat
  failover_count :: nat
  state_code :: int
  current_primary :: string

definition shared_state_new :: shared_state where
  "shared_state_new = \<lparr>consecutive_failures = 0, failover_count = 0, state_code = 0, current_primary = []\<rparr>"

definition state_of :: "shared_state \<Rightarrow> failover_state" where
  "state_of s =
    (if state_code s = 0 then Healthy
     else if state_code s = 1 then Suspect
     else if state_code s = 2 then FailingOver
     else if state_code s = 3 then FailedOver
     else if state_code s = 4 then Recovering
     else if state_code s = 5 then Recovered
     else Healthy)"

fun encode_state :: "failover_state \<Rightarrow> int" where
  "encode_state Healthy = 0"
| "encode_state Suspect = 1"
| "encode_state FailingOver = 2"
| "encode_state FailedOver = 3"
| "encode_state Recovering = 4"
| "encode_state Recovered = 5"

definition set_state :: "failover_state \<Rightarrow> shared_state \<Rightarrow> shared_state" where
  "set_state st s = s\<lparr>state_code := encode_state st\<rparr>"

record failover_shim =
  fs_primary :: string
  fs_replica :: string
  fs_check_interval_secs :: nat
  fs_failure_threshold :: nat
  fs_webhook :: "string option"
  fs_db_type :: string
  fs_connector :: failover_connector
  fs_db_host :: string
  fs_db_port :: string
  fs_db_user :: string
  fs_db_password :: string
  fs_db_name :: string
  fs_lag_threshold_secs :: f64
  fs_redis_sentinel_url :: string
  fs_redis_sentinel_master :: string
  fs_shared :: shared_state
  fs_bus :: bool
  fs_running :: bool

definition failover_shim_new :: "validators \<Rightarrow> env \<Rightarrow> failover_shim" where
  "failover_shim_new v env =
    (let connector_str = env_str env ''FAILOVER_CONNECTOR'' ''tcp'' in
     \<lparr>fs_primary = env_str env ''FAILOVER_PRIMARY'' ''127.0.0.1:5432'',
      fs_replica = env_str env ''FAILOVER_REPLICA'' ''127.0.0.1:5433'',
      fs_check_interval_secs = env_uint 64 env ''FAILOVER_CHECK_INTERVAL_SECS''
        (env_uint 64 env ''FAILOVER_CHECK_INTERVAL'' 5),
      fs_failure_threshold = env_uint 32 env ''FAILOVER_FAILURE_THRESHOLD'' 3,
      fs_webhook = env ''FAILOVER_WEBHOOK'',
      fs_db_type = env_str env ''FAILOVER_DB_TYPE'' ''postgres'',
      fs_connector =
        (if connector_str = ''patroni'' then Patroni
         else if connector_str = ''redis-sentinel'' then RedisSentinel else Tcp),
      fs_db_host = env_str env ''FAILOVER_DB_HOST'' ''127.0.0.1'',
      fs_db_port = env_str env ''FAILOVER_DB_PORT'' ''5432'',
      fs_db_user = env_str env ''FAILOVER_DB_USER'' ''postgres'',
      fs_db_password = env_str env ''FAILOVER_DB_PASSWORD'' [],
      fs_db_name = env_str env ''FAILOVER_DB_NAME'' ''postgres'',
      fs_lag_threshold_secs = env_f64 v env ''FAILOVER_LAG_THRESHOLD_SECS'' 30,
      fs_redis_sentinel_url = env_str env ''REDIS_SENTINEL_URL'' ''redis://localhost:26379'',
      fs_redis_sentinel_master = env_str env ''REDIS_SENTINEL_MASTER'' ''mymaster'',
      fs_shared = shared_state_new, fs_bus = False, fs_running = False\<rparr>)"

section \<open>Checks\<close>

text \<open>The address must be a socket address (an IP address and a port) and accept a connection.\<close>

definition check_database :: "validators \<Rightarrow> fo_world \<Rightarrow> string \<Rightarrow> bool" where
  "check_database v w addr = (case parse_socket_addr v addr of None \<Rightarrow> False | Some _ \<Rightarrow> connects w addr)"

datatype patroni_check_result = PatroniHealthy bool f64 | PatroniUnreachable

datatype redis_sentinel_check_result = MasterInfo string string | SentinelUnreachable

definition parse_replication_lag :: "validators \<Rightarrow> string \<Rightarrow> f64 option" where
  "parse_replication_lag v s = (if s = [] \<or> s = ''NULL'' then None else parse_f64 v s)"

definition lag_line :: "validators \<Rightarrow> string \<Rightarrow> f64 \<Rightarrow> f64" where
  "lag_line v line mx =
    (let t = trim line in
     if t \<noteq> [] \<and> t \<noteq> ''NULL'' then
       (case parse_f64 v t of Some lag \<Rightarrow> if mx < lag then lag else mx | None \<Rightarrow> mx)
     else mx)"

definition recovery_query :: string where
  "recovery_query = ''SELECT pg_is_in_recovery()''"

definition lag_query :: string where
  "lag_query = ''SELECT COALESCE(EXTRACT(EPOCH FROM replay_lag)::float, 0) FROM pg_stat_replication''"

definition patroni_check :: "validators \<Rightarrow> fo_world \<Rightarrow> patroni_check_result" where
  "patroni_check v w =
    (case psql w recovery_query of
       Inr output \<Rightarrow>
         (let in_recovery = (trim output = ''t'');
              max_lag_secs =
                (if in_recovery then 0
                 else (case psql w lag_query of
                         Inr rep \<Rightarrow> fold (lag_line v) (split_on (CHR 0x0A) rep) 0
                       | Inl _ \<Rightarrow> 0))
          in PatroniHealthy in_recovery max_lag_secs)
     | Inl _ \<Rightarrow> PatroniUnreachable)"

definition redis_sentinel_check :: "fo_world \<Rightarrow> redis_sentinel_check_result" where
  "redis_sentinel_check w =
    (case sentinel_master_addr w of
       Some (ip, port) \<Rightarrow> MasterInfo ip (show_nat port)
     | None \<Rightarrow> SentinelUnreachable)"

section \<open>Failover and failback\<close>

definition post_hook :: "string option \<Rightarrow> string \<Rightarrow> fo_effect list" where
  "post_hook hook txt = (case hook of Some url \<Rightarrow> [Post url txt] | None \<Rightarrow> [])"

definition emit_on :: "bool \<Rightarrow> string \<Rightarrow> f64 event_type \<Rightarrow> severity \<Rightarrow> fo_effect list" where
  "emit_on attached src evt sev = (if attached then [Emit src evt sev] else [])"

text \<open>The promotion that is attempted, and its result: a failed \<^verbatim>\<open>patronictl\<close> counts as success.\<close>

definition choose_promotion :: "env \<Rightarrow> string \<Rightarrow> string \<Rightarrow> promotion" where
  "choose_promotion env old_primary new_primary =
    (case env ''FAILOVER_PROMOTE_CMD'' of
       Some cmd \<Rightarrow> PromoteCmd cmd
     | None \<Rightarrow>
         (case env ''REDIS_SENTINEL_MASTER'' of
            Some master \<Rightarrow>
              SentinelFailover (env_str env ''REDIS_SENTINEL_URL'' ''redis://localhost:26379'') master
          | None \<Rightarrow> PatroniSwitchover old_primary new_primary))"

definition promotion_result :: "fo_world \<Rightarrow> promotion \<Rightarrow> bool" where
  "promotion_result w p =
    (case p of
       PromoteCmd cmd \<Rightarrow> promote_succeeds w p
     | SentinelFailover url master \<Rightarrow> promote_succeeds w p
     | PatroniSwitchover old new \<Rightarrow> True)"

definition trigger_failover ::
  "env \<Rightarrow> fo_world \<Rightarrow> bool \<Rightarrow> string option \<Rightarrow> string \<Rightarrow> string \<Rightarrow> shared_state
   \<Rightarrow> shared_state \<times> fo_effect list" where
  "trigger_failover env w bus hook old_primary new_primary s =
    (let s1 = set_state FailingOver s;
         p = choose_promotion env old_primary new_primary;
         ok = promotion_result w p;
         effects = [Promote p]
           @ post_hook hook (''FAILOVER '' @ (if ok then ''SUCCEEDED'' else ''FAILED'') @ '': '' @
               old_primary @ '' failed, promoting '' @ new_primary)
           @ emit_on bus ''failover-shim'' (FailoverTriggered old_primary new_primary) Error
     in if ok then
          (set_state FailedOver (s1\<lparr>current_primary := new_primary, failover_count := failover_count s1 + 1\<rparr>)
             \<lparr>consecutive_failures := 0\<rparr>, effects)
        else (set_state FailingOver s1, effects))"

text \<open>The three connectors share what follows a failed check.\<close>

definition check_failed ::
  "env \<Rightarrow> fo_world \<Rightarrow> bool \<Rightarrow> string option \<Rightarrow> string \<Rightarrow> string \<Rightarrow> nat \<Rightarrow> shared_state
   \<Rightarrow> shared_state \<times> fo_effect list" where
  "check_failed env w bus hook cur replica threshold s =
    (let failures = consecutive_failures s + 1;
         s1 = s\<lparr>consecutive_failures := failures\<rparr>
     in if threshold \<le> failures then trigger_failover env w bus hook cur replica s1
        else (set_state Suspect s1, []))"

definition handle_check_result ::
  "validators \<Rightarrow> env \<Rightarrow> fo_world \<Rightarrow> bool \<Rightarrow> string option \<Rightarrow> string \<Rightarrow> string \<Rightarrow> string \<Rightarrow> bool \<Rightarrow> nat
   \<Rightarrow> shared_state \<times> nat \<Rightarrow> (shared_state \<times> nat) \<times> fo_effect list" where
  "handle_check_result v env w bus hook cur replica original healthy threshold st =
    (case st of (s, primary_healthy) \<Rightarrow>
     if healthy then
       (let s1 = s\<lparr>consecutive_failures := 0\<rparr>;
            cur_state = state_of s1
        in if cur_state = FailedOver \<and> cur \<noteq> original then
             (let n = primary_healthy + 1
              in if 10 \<le> n \<and> check_database v w original then
                   ((set_state Recovered (s1\<lparr>current_primary := original\<rparr>), 0),
                    post_hook hook (''FAILOVER SHIM: Failing back to original primary '' @ original)
                    @ emit_on bus ''failover-shim'' (FailoverCompleted original) Notice)
                 else ((s1, n), []))
           else if cur_state = Suspect \<or> cur_state = FailingOver then ((set_state Healthy s1, 0), [])
           else ((s1, 0), []))
     else
       (case check_failed env w bus hook cur replica threshold s of (s', effects) \<Rightarrow> ((s', 0), effects)))"

section \<open>The monitoring loop\<close>

record fo_loop =
  primary_healthy :: nat
  last_known_primary :: "string option"
  last_recovery_state :: "bool option"
  last_known_master :: "string option"

definition fo_loop_new :: fo_loop where
  "fo_loop_new = \<lparr>primary_healthy = 0, last_known_primary = None, last_recovery_state = None,
     last_known_master = None\<rparr>"

definition lag_warning :: "bool \<Rightarrow> string \<Rightarrow> f64 \<Rightarrow> f64 \<Rightarrow> fo_effect list" where
  "lag_warning bus src max_lag threshold =
    (if threshold < max_lag then
       emit_on bus src (ReplicationLagWarning (f64_as_u64 (max_lag * 1000)) (f64_as_u64 (threshold * 1000))) Warning
     else [])"

definition patroni_tick ::
  "env \<Rightarrow> fo_world \<Rightarrow> failover_shim \<Rightarrow> string \<Rightarrow> patroni_check_result \<Rightarrow> shared_state \<times> fo_loop
   \<Rightarrow> (shared_state \<times> fo_loop) \<times> fo_effect list" where
  "patroni_tick env w cfg cur res st =
    (case st of (s, l) \<Rightarrow>
     case res of
       PatroniHealthy in_recovery max_lag \<Rightarrow>
         (let s1 = s\<lparr>consecutive_failures := 0\<rparr>;
              host = (if in_recovery then fs_replica cfg else fs_db_host cfg);
              role_changed = (case last_recovery_state l of Some prev \<Rightarrow> prev \<noteq> in_recovery | None \<Rightarrow> False);
              host_changed = (case last_known_primary l of Some prev \<Rightarrow> prev \<noteq> host | None \<Rightarrow> False);
              effects =
                (if role_changed
                 then emit_on (fs_bus cfg) ''failover-shim'' (FailoverTriggered cur host) Notice else [])
                @ lag_warning (fs_bus cfg) ''failover-shim'' max_lag (fs_lag_threshold_secs cfg)
                @ (if host_changed
                   then emit_on (fs_bus cfg) ''failover-shim'' (FailoverCompleted host) Notice else []);
              s2 = (if host_changed then s1\<lparr>failover_count := failover_count s1 + 1\<rparr> else s1)
          in ((set_state Healthy s2,
               l\<lparr>last_recovery_state := Some in_recovery, last_known_primary := Some host, primary_healthy := 0\<rparr>),
              effects))
     | PatroniUnreachable \<Rightarrow>
         (case check_failed env w (fs_bus cfg) (fs_webhook cfg) cur (fs_replica cfg) (fs_failure_threshold cfg) s of
            (s', effects) \<Rightarrow> ((s', l\<lparr>primary_healthy := 0\<rparr>), effects)))"

definition sentinel_tick ::
  "env \<Rightarrow> fo_world \<Rightarrow> failover_shim \<Rightarrow> string \<Rightarrow> redis_sentinel_check_result \<Rightarrow> shared_state \<times> fo_loop
   \<Rightarrow> (shared_state \<times> fo_loop) \<times> fo_effect list" where
  "sentinel_tick env w cfg cur res st =
    (case st of (s, l) \<Rightarrow>
     case res of
       MasterInfo ip port \<Rightarrow>
         (let s1 = s\<lparr>consecutive_failures := 0\<rparr>;
              master_addr = ip @ '':'' @ port;
              changed = (case last_known_master l of Some prev \<Rightarrow> prev \<noteq> master_addr | None \<Rightarrow> False);
              effects = (if changed then emit_on (fs_bus cfg) ''failover-shim'' (FailoverCompleted master_addr) Notice else []);
              s2 = (if changed then s1\<lparr>failover_count := failover_count s1 + 1\<rparr> else s1)
          in ((set_state Healthy s2, l\<lparr>last_known_master := Some master_addr, primary_healthy := 0\<rparr>), effects))
     | SentinelUnreachable \<Rightarrow>
         (case check_failed env w (fs_bus cfg) (fs_webhook cfg) cur (fs_replica cfg) (fs_failure_threshold cfg) s of
            (s', effects) \<Rightarrow> ((s', l\<lparr>primary_healthy := 0\<rparr>), effects)))"

definition failover_tick ::
  "validators \<Rightarrow> env \<Rightarrow> failover_shim \<Rightarrow> fo_world \<Rightarrow> shared_state \<times> fo_loop
   \<Rightarrow> (shared_state \<times> fo_loop) \<times> fo_effect list" where
  "failover_tick v env cfg w st =
    (case st of (s, l) \<Rightarrow>
     let cur = current_primary s in
     case fs_connector cfg of
       Tcp \<Rightarrow>
         (case handle_check_result v env w (fs_bus cfg) (fs_webhook cfg) cur (fs_replica cfg) (fs_primary cfg)
                 (check_database v w cur) (fs_failure_threshold cfg) (s, primary_healthy l) of
            ((s', n), effects) \<Rightarrow> ((s', l\<lparr>primary_healthy := n\<rparr>), effects))
     | Patroni \<Rightarrow> patroni_tick env w cfg cur (patroni_check v w) st
     | RedisSentinel \<Rightarrow> sentinel_tick env w cfg cur (redis_sentinel_check w) st)"

section \<open>The capability\<close>

definition failover_errors :: "validators \<Rightarrow> config \<Rightarrow> config_validation_error list" where
  "failover_errors v c = filter (\<lambda>e. starts_with (err_field e) ''failover.'') (validate v c)"

definition failover_init :: "validators \<Rightarrow> env \<Rightarrow> config \<Rightarrow> failover_shim \<Rightarrow> string + failover_shim" where
  "failover_init v env c f =
    (if validation_enabled env \<and> failover_errors v c \<noteq> [] then
       Inl (''failover config validation failed: '' @ join ''; '' (map config_error_display (failover_errors v c)))
     else
       (let f1 = (case failover c of
                    Some fc \<Rightarrow> f\<lparr>fs_primary := fo_primary fc, fs_replica := fo_replica fc,
                      fs_check_interval_secs := fo_check_interval_secs fc,
                      fs_failure_threshold := fo_failure_threshold fc,
                      fs_webhook := fo_webhook fc, fs_db_type := fo_db_type fc\<rparr>
                  | None \<Rightarrow> f)
        in Inr (f1\<lparr>fs_shared := (fs_shared f1)\<lparr>current_primary := fs_primary f1\<rparr>\<rparr>)))"

definition failover_start :: "validators \<Rightarrow> fo_world \<Rightarrow> failover_shim \<Rightarrow> failover_shim \<times> fo_loop" where
  "failover_start v w f =
    (let f1 = (if check_database v w (fs_primary f)
               then f\<lparr>fs_shared := set_state Healthy (fs_shared f)\<rparr> else f)
     in (f1\<lparr>fs_running := True\<rparr>, fo_loop_new))"

definition failover_stop :: "failover_shim \<Rightarrow> failover_shim" where
  "failover_stop f = f\<lparr>fs_running := False\<rparr>"

definition failover_metrics :: "failover_shim \<Rightarrow> metric list" where
  "failover_metrics f =
    [(''failover_state'', of_int (encode_state (state_of (fs_shared f)))),
     (''failover_events_total'', of_nat (failover_count (fs_shared f))),
     (''failover_consecutive_failures'', of_nat (consecutive_failures (fs_shared f)))]"

section \<open>Stand-alone monitors\<close>

record patroni_monitor =
  pm_db_host :: string
  pm_db_port :: string
  pm_db_user :: string
  pm_db_password :: string
  pm_db_name :: string
  pm_check_interval_secs :: nat
  pm_lag_threshold_secs :: f64
  pm_bus :: bool
  pm_running :: bool

definition patroni_monitor_from_env :: "validators \<Rightarrow> env \<Rightarrow> patroni_monitor" where
  "patroni_monitor_from_env v env =
    \<lparr>pm_db_host = env_str env ''FAILOVER_DB_HOST'' ''localhost'',
     pm_db_port = env_str env ''FAILOVER_DB_PORT'' ''5432'',
     pm_db_user = env_str env ''FAILOVER_DB_USER'' ''postgres'',
     pm_db_password = env_str env ''FAILOVER_DB_PASSWORD'' [],
     pm_db_name = env_str env ''FAILOVER_DB_NAME'' ''postgres'',
     pm_check_interval_secs = env_uint 64 env ''FAILOVER_CHECK_INTERVAL_SECS'' 10,
     pm_lag_threshold_secs = env_f64 v env ''FAILOVER_LAG_THRESHOLD_SECS'' 30,
     pm_bus = False, pm_running = False\<rparr>"

definition patroni_monitor_tick ::
  "validators \<Rightarrow> patroni_monitor \<Rightarrow> fo_world \<Rightarrow> bool option \<Rightarrow> bool option \<times> fo_effect list" where
  "patroni_monitor_tick v m w last_recovery =
    (case patroni_check v w of
       PatroniHealthy in_recovery max_lag \<Rightarrow>
         (let role_changed = (case last_recovery of Some prev \<Rightarrow> prev \<noteq> in_recovery | None \<Rightarrow> False)
          in (Some in_recovery,
              (if role_changed then
                 emit_on (pm_bus m) ''patroni-monitor''
                   (FailoverTriggered (pm_db_host m) (if in_recovery then ''replica'' else pm_db_host m)) Notice
               else [])
              @ lag_warning (pm_bus m) ''patroni-monitor'' max_lag (pm_lag_threshold_secs m)))
     | PatroniUnreachable \<Rightarrow>
         (last_recovery,
          emit_on (pm_bus m) ''patroni-monitor'' (FailoverTriggered (pm_db_host m) ''unknown'') Error))"

record redis_sentinel_monitor =
  rm_sentinel_url :: string
  rm_master_name :: string
  rm_check_interval_secs :: nat
  rm_bus :: bool
  rm_running :: bool

definition redis_sentinel_monitor_from_env :: "env \<Rightarrow> redis_sentinel_monitor" where
  "redis_sentinel_monitor_from_env env =
    \<lparr>rm_sentinel_url = env_str env ''REDIS_SENTINEL_URL'' ''redis://localhost:26379'',
     rm_master_name = env_str env ''REDIS_SENTINEL_MASTER'' ''mymaster'',
     rm_check_interval_secs = env_uint 64 env ''FAILOVER_CHECK_INTERVAL_SECS'' 5,
     rm_bus = False, rm_running = False\<rparr>"

definition sentinel_monitor_tick ::
  "redis_sentinel_monitor \<Rightarrow> fo_world \<Rightarrow> string option \<Rightarrow> string option \<times> fo_effect list" where
  "sentinel_monitor_tick m w last_master =
    (case redis_sentinel_check w of
       MasterInfo ip port \<Rightarrow>
         (let master_addr = ip @ '':'' @ port;
              changed = (case last_master of Some prev \<Rightarrow> prev \<noteq> master_addr | None \<Rightarrow> False)
          in (Some master_addr,
              if changed
              then emit_on (rm_bus m) ''redis-sentinel-monitor'' (FailoverCompleted master_addr) Notice else []))
     | SentinelUnreachable \<Rightarrow> (last_master, []))"

section \<open>State encoding\<close>

lemma state_of_set_state [simp]: "state_of (set_state st s) = st"
  by (cases st) (simp_all add: state_of_def set_state_def)

lemma set_state_sel [simp]:
  "consecutive_failures (set_state st s) = consecutive_failures s"
  "failover_count (set_state st s) = failover_count s"
  "current_primary (set_state st s) = current_primary s"
  by (simp_all add: set_state_def)

lemma state_of_upd [simp]:
  "state_of (s\<lparr>consecutive_failures := n\<rparr>) = state_of s"
  "state_of (s\<lparr>failover_count := n\<rparr>) = state_of s"
  "state_of (s\<lparr>current_primary := p\<rparr>) = state_of s"
  by (simp_all add: state_of_def)

section \<open>Reachable states\<close>

inductive fo_step :: "validators \<Rightarrow> env \<Rightarrow> failover_shim \<Rightarrow> shared_state \<times> fo_loop \<Rightarrow> shared_state \<times> fo_loop \<Rightarrow> bool"
  for v :: validators and env :: env and cfg :: failover_shim
  where tick: "failover_tick v env cfg w st = (st', effects) \<Longrightarrow> fo_step v env cfg st st'"

inductive_cases fo_stepE: "fo_step v env cfg st st'"

definition fo_inv :: "failover_shim \<Rightarrow> shared_state \<times> fo_loop \<Rightarrow> bool" where
  "fo_inv cfg st \<longleftrightarrow> (case st of (s, l) \<Rightarrow>
     current_primary s \<in> {fs_primary cfg, fs_replica cfg}
     \<and> state_of s \<noteq> Recovering
     \<and> (state_of s = FailedOver \<longrightarrow> current_primary s = fs_replica cfg)
     \<and> (state_of s = Recovered \<longrightarrow> current_primary s = fs_primary cfg)
     \<and> (state_of s = Suspect \<longleftrightarrow> 0 < consecutive_failures s \<and> consecutive_failures s < fs_failure_threshold cfg)
     \<and> (state_of s = FailingOver \<longleftrightarrow> fs_failure_threshold cfg \<le> consecutive_failures s))"

lemma trigger_failover_sel:
  assumes "trigger_failover env w bus hook old new s = (s', effects)"
  shows "if promotion_result w (choose_promotion env old new)
     then current_primary s' = new \<and> state_of s' = FailedOver \<and> consecutive_failures s' = 0
       \<and> failover_count s' = failover_count s + 1
     else current_primary s' = current_primary s \<and> state_of s' = FailingOver
       \<and> consecutive_failures s' = consecutive_failures s \<and> failover_count s' = failover_count s"
proof -
  have "s' = fst (trigger_failover env w bus hook old new s)"
    using assms by simp
  then show ?thesis
    by (cases "promotion_result w (choose_promotion env old new)") (simp_all add: trigger_failover_def Let_def)
qed

text \<open>What a failed check does to the state.\<close>

lemma check_failed_sel:
  assumes "check_failed env w bus hook cur replica threshold s = (s', effects)"
  shows "if consecutive_failures s + 1 < threshold
     then current_primary s' = current_primary s \<and> state_of s' = Suspect
       \<and> consecutive_failures s' = consecutive_failures s + 1 \<and> failover_count s' = failover_count s
     else if promotion_result w (choose_promotion env cur replica)
     then current_primary s' = replica \<and> state_of s' = FailedOver \<and> consecutive_failures s' = 0
       \<and> failover_count s' = failover_count s + 1
     else current_primary s' = current_primary s \<and> state_of s' = FailingOver
       \<and> consecutive_failures s' = consecutive_failures s + 1 \<and> failover_count s' = failover_count s"
proof (cases "consecutive_failures s + 1 < threshold")
  case True
  then show ?thesis
    using assms by (simp add: check_failed_def) (auto)
next
  case False
  then have "trigger_failover env w bus hook cur replica (s\<lparr>consecutive_failures := consecutive_failures s + 1\<rparr>) = (s', effects)"
    using assms by (simp add: check_failed_def)
  from trigger_failover_sel [OF this] False show ?thesis
    by simp
qed

lemma check_failed_inv:
  assumes "check_failed env w bus hook cur (fs_replica cfg) (fs_failure_threshold cfg) s = (s', effects)"
    and "fo_inv cfg (s, l)" "0 < fs_failure_threshold cfg"
  shows "fo_inv cfg (s', l')"
proof -
  have "current_primary s \<in> {fs_primary cfg, fs_replica cfg}"
    using assms(2) by (simp add: fo_inv_def)
  then show ?thesis
    using check_failed_sel [OF assms(1)] assms(3) by (simp add: fo_inv_def split: if_splits)
qed

lemma handle_check_result_inv:
  assumes "handle_check_result v env w bus hook (current_primary s) (fs_replica cfg) (fs_primary cfg) healthy
      (fs_failure_threshold cfg) (s, n) = ((s', n'), effects)"
    and "fo_inv cfg (s, l)" "0 < fs_failure_threshold cfg"
  shows "fo_inv cfg (s', l')"
proof (cases healthy)
  case True
  then show ?thesis
    using assms by (cases "state_of s") (auto simp: handle_check_result_def fo_inv_def Let_def split: if_splits)
next
  case False
  then show ?thesis
    using assms check_failed_inv [OF _ assms(2,3)]
    by (auto simp: handle_check_result_def split: prod.splits)
qed

lemma fo_inv_healthy:
  "current_primary s \<in> {fs_primary cfg, fs_replica cfg} \<Longrightarrow> consecutive_failures s = 0 \<Longrightarrow> state_of s = Healthy
   \<Longrightarrow> 0 < fs_failure_threshold cfg \<Longrightarrow> fo_inv cfg (s, l)"
  by (simp add: fo_inv_def)

lemma patroni_tick_inv:
  assumes "patroni_tick env w cfg cur res (s, l) = ((s', l'), effects)"
    and inv: "fo_inv cfg (s, l)" and thr: "0 < fs_failure_threshold cfg"
  shows "fo_inv cfg (s', l')"
proof (cases res)
  case (PatroniHealthy in_recovery lag)
  have "current_primary s' = current_primary s \<and> consecutive_failures s' = 0 \<and> state_of s' = Healthy"
    using assms(1) unfolding PatroniHealthy by (auto simp: patroni_tick_def Let_def simp del: not_None_eq split: if_split)
  then show ?thesis
    using inv thr by (intro fo_inv_healthy) (auto simp: fo_inv_def)
next
  case PatroniUnreachable
  then show ?thesis
    using assms(1) check_failed_inv [OF _ inv thr] by (auto simp: patroni_tick_def split: prod.splits)
qed

lemma sentinel_tick_inv:
  assumes "sentinel_tick env w cfg cur res (s, l) = ((s', l'), effects)"
    and inv: "fo_inv cfg (s, l)" and thr: "0 < fs_failure_threshold cfg"
  shows "fo_inv cfg (s', l')"
proof (cases res)
  case (MasterInfo ip port)
  have "current_primary s' = current_primary s \<and> consecutive_failures s' = 0 \<and> state_of s' = Healthy"
    using assms(1) unfolding MasterInfo by (auto simp: sentinel_tick_def Let_def simp del: not_None_eq split: if_split)
  then show ?thesis
    using inv thr by (intro fo_inv_healthy) (auto simp: fo_inv_def)
next
  case SentinelUnreachable
  then show ?thesis
    using assms(1) check_failed_inv [OF _ inv thr] by (auto simp: sentinel_tick_def split: prod.splits)
qed

lemma failover_tick_inv:
  assumes tick: "failover_tick v env cfg w (s, l) = ((s', l'), effects)"
    and inv: "fo_inv cfg (s, l)" and thr: "0 < fs_failure_threshold cfg"
  shows "fo_inv cfg (s', l')"
proof (cases "fs_connector cfg")
  case Tcp
  then show ?thesis
    using tick handle_check_result_inv [OF _ inv thr] by (auto simp: failover_tick_def Let_def split: prod.splits)
next
  case Patroni
  then show ?thesis
    using tick patroni_tick_inv [OF _ inv thr] by (auto simp: failover_tick_def)
next
  case RedisSentinel
  then show ?thesis
    using tick sentinel_tick_inv [OF _ inv thr] by (auto simp: failover_tick_def)
qed

lemma fo_step_inv: "fo_step v env cfg st st' \<Longrightarrow> fo_inv cfg st \<Longrightarrow> 0 < fs_failure_threshold cfg \<Longrightarrow> fo_inv cfg st'"
  by (cases st; cases st') (auto elim!: fo_stepE intro: failover_tick_inv)

lemma fo_steps_inv:
  "(fo_step v env cfg)\<^sup>*\<^sup>* st st' \<Longrightarrow> fo_inv cfg st \<Longrightarrow> 0 < fs_failure_threshold cfg \<Longrightarrow> fo_inv cfg st'"
  by (induction rule: rtranclp_induct) (auto intro: fo_step_inv)

lemma failover_init_shared:
  "failover_init v env c f = Inr f' \<Longrightarrow> fs_shared f' = (fs_shared f)\<lparr>current_primary := fs_primary f'\<rparr>"
  by (cases "failover c") (auto simp: failover_init_def Let_def split: if_splits)

lemma failover_start_shared:
  "failover_start v w f = (cfg, l) \<Longrightarrow> state_code (fs_shared f) = 0 \<Longrightarrow>
    fs_shared cfg = fs_shared f \<and> fs_primary cfg = fs_primary f \<and> l = fo_loop_new"
  by (auto simp: failover_start_def Let_def set_state_def split: if_splits)

lemma started_inv:
  assumes "failover_init v env c (failover_shim_new v env) = Inr f" "failover_start v w f = (cfg, l)"
    and "0 < fs_failure_threshold cfg"
  shows "fo_inv cfg (fs_shared cfg, l)"
proof -
  have "fs_shared (failover_shim_new v env) = shared_state_new"
    by (simp add: failover_shim_new_def Let_def)
  then have f: "fs_shared f = shared_state_new\<lparr>current_primary := fs_primary f\<rparr>"
    using failover_init_shared [OF assms(1)] by simp
  then have "fs_shared cfg = shared_state_new\<lparr>current_primary := fs_primary cfg\<rparr>"
    using failover_start_shared [OF assms(2)] by (simp add: shared_state_new_def)
  then show ?thesis
    using assms(3) by (intro fo_inv_healthy) (simp_all add: shared_state_new_def state_of_def)
qed

text \<open>C19: The states the monitor can reach, whatever connector is configured and whatever the
  network, the databases and the promotion commands answer: the current primary is
  always the configured primary or the replica; \<^verbatim>\<open>FailedOver\<close> means that the replica
  serves, \<^verbatim>\<open>Recovered\<close> that the original primary does; \<^verbatim>\<open>Suspect\<close> means fewer
  failures than the threshold and \<^verbatim>\<open>FailingOver\<close> at least as many; \<^verbatim>\<open>Recovering\<close> is
  never entered.\<close>

theorem failover_state_machine:
  assumes "failover_init v env c (failover_shim_new v env) = Inr f" "failover_start v w f = (cfg, l0)"
    and "0 < fs_failure_threshold cfg" "(fo_step v env cfg)\<^sup>*\<^sup>* (fs_shared cfg, l0) (s, l)"
  shows "current_primary s \<in> {fs_primary cfg, fs_replica cfg}
    \<and> state_of s \<noteq> Recovering
    \<and> (state_of s = FailedOver \<longrightarrow> current_primary s = fs_replica cfg)
    \<and> (state_of s = Recovered \<longrightarrow> current_primary s = fs_primary cfg)
    \<and> (state_of s = Suspect \<longleftrightarrow> 0 < consecutive_failures s \<and> consecutive_failures s < fs_failure_threshold cfg)
    \<and> (state_of s = FailingOver \<longleftrightarrow> fs_failure_threshold cfg \<le> consecutive_failures s)"
  using fo_steps_inv [OF assms(4) started_inv [OF assms(1-3)] assms(3)] by (simp add: fo_inv_def)

lemma failover_tick_count:
  "failover_count (fst st) \<le> failover_count (fst (fst (failover_tick v env cfg w st)))"
proof -
  obtain s l where st: "st = (s, l)"
    by (cases st)
  have failed: "failover_count s \<le> failover_count (fst (check_failed env w b h c r t s))" for b h c r t
    using check_failed_sel [of env w b h c r t s, OF surjective_pairing] by (auto split: if_splits)
  show ?thesis
    unfolding st using failed
    by (auto simp: failover_tick_def handle_check_result_def patroni_tick_def sentinel_tick_def Let_def case_prod_beta
        split: failover_connector.split patroni_check_result.split redis_sentinel_check_result.split)
qed

interpretation failover_ticks: op_monotone "\<lambda>w st. fst (failover_tick v env cfg w st)"
  "\<lambda>st. 0 < fs_failure_threshold cfg \<and> fo_inv cfg st" "\<lambda>st. failover_count (fst st)"
proof
  fix w st
  assume "0 < fs_failure_threshold cfg \<and> fo_inv cfg st"
  then show "0 < fs_failure_threshold cfg \<and> fo_inv cfg (fst (failover_tick v env cfg w st))"
    by (metis failover_tick_inv prod.collapse)
qed (rule failover_tick_count)

lemma failover_count_grows:
  assumes "0 < fs_failure_threshold cfg" "fo_inv cfg st"
  shows "failover_count (fst st) \<le> failover_count (fst (fold (\<lambda>w st. fst (failover_tick v env cfg w st)) ws st))"
  using assms by (intro failover_ticks.fold_gauge) simp

section \<open>Runs of the TCP connector\<close>

fun fo_run :: "validators \<Rightarrow> env \<Rightarrow> failover_shim \<Rightarrow> fo_world list \<Rightarrow> shared_state \<times> fo_loop \<Rightarrow> shared_state \<times> fo_loop" where
  "fo_run v env cfg [] st = st"
| "fo_run v env cfg (w # ws) st = fo_run v env cfg ws (fst (failover_tick v env cfg w st))"

lemma fo_run_append: "fo_run v env cfg (us @ ws) st = fo_run v env cfg ws (fo_run v env cfg us st)"
  by (induction us arbitrary: st) simp_all

fun failed_checks :: "validators \<Rightarrow> env \<Rightarrow> failover_shim \<Rightarrow> fo_world list \<Rightarrow> shared_state \<times> fo_loop \<Rightarrow> nat" where
  "failed_checks v env cfg [] st = 0"
| "failed_checks v env cfg (w # ws) st =
    (if check_database v w (current_primary (fst st)) then 0 else 1)
    + failed_checks v env cfg ws (fst (failover_tick v env cfg w st))"

lemma tcp_tick_failed:
  assumes "fs_connector cfg = Tcp" "\<not> check_database v w (current_primary s)"
  shows "\<exists>s' effects. fst (failover_tick v env cfg w (s, l)) = (s', l\<lparr>primary_healthy := 0\<rparr>)
    \<and> check_failed env w (fs_bus cfg) (fs_webhook cfg) (current_primary s) (fs_replica cfg) (fs_failure_threshold cfg) s
      = (s', effects)"
  using assms by (auto simp: failover_tick_def handle_check_result_def Let_def split: prod.splits)

lemma tcp_tick_healthy:
  assumes "fs_connector cfg = Tcp" "check_database v w (current_primary s)"
  shows "fst (failover_tick v env cfg w (s, l)) =
    (let s1 = s\<lparr>consecutive_failures := 0\<rparr>; n = primary_healthy l + 1 in
     if state_of s = FailedOver \<and> current_primary s \<noteq> fs_primary cfg then
       (if 10 \<le> n \<and> check_database v w (fs_primary cfg)
        then (set_state Recovered (s1\<lparr>current_primary := fs_primary cfg\<rparr>), l\<lparr>primary_healthy := 0\<rparr>)
        else (s1, l\<lparr>primary_healthy := n\<rparr>))
     else if state_of s = Suspect \<or> state_of s = FailingOver
     then (set_state Healthy s1, l\<lparr>primary_healthy := 0\<rparr>)
     else (s1, l\<lparr>primary_healthy := 0\<rparr>))"
  using assms by (simp add: failover_tick_def handle_check_result_def Let_def)

lemma tcp_tick_budget:
  assumes "fs_connector cfg = Tcp" "fst (failover_tick v env cfg w (s, l)) = (s', l')"
  shows "failover_count s' * fs_failure_threshold cfg + consecutive_failures s'
    \<le> failover_count s * fs_failure_threshold cfg + consecutive_failures s
      + (if check_database v w (current_primary s) then 0 else 1)"
proof (cases "check_database v w (current_primary s)")
  case True
  then show ?thesis
    using tcp_tick_healthy [OF assms(1) True, of env l] assms(2) by (auto simp: Let_def split: if_splits)
next
  case False
  then show ?thesis
    using tcp_tick_failed [OF assms(1) False, of env l] assms(2)
    by (auto dest!: check_failed_sel split: if_splits)
qed

text \<open>No failover without cause: in any run of the TCP connector, every failover is paid
  for by as many failed checks of the current primary as the threshold asks for.\<close>

theorem failover_needs_failures:
  assumes "fs_connector cfg = Tcp" "fo_run v env cfg ws (s, l) = (s', l')"
  shows "failover_count s' * fs_failure_threshold cfg + consecutive_failures s'
    \<le> failover_count s * fs_failure_threshold cfg + consecutive_failures s + failed_checks v env cfg ws (s, l)"
  using assms(2)
proof (induction ws arbitrary: s l)
  case (Cons w ws)
  obtain s1 l1 where t: "fst (failover_tick v env cfg w (s, l)) = (s1, l1)"
    by (cases "fst (failover_tick v env cfg w (s, l))")
  show ?case
    using Cons.IH [of s1 l1] Cons.prems t tcp_tick_budget [OF assms(1) t] by simp
qed simp

section \<open>When a promotion is attempted\<close>


definition promotions :: "fo_effect list \<Rightarrow> promotion list" where
  "promotions effects = concat (map (\<lambda>e. case e of Promote p \<Rightarrow> [p] | _ \<Rightarrow> []) effects)"





lemma promotions_simps [simp]:
  "promotions [] = []" "promotions (xs @ ys) = promotions xs @ promotions ys"
  "promotions (Promote p # xs) = p # promotions xs" "promotions (Post u t # xs) = promotions xs"
  "promotions (Emit src evt sev # xs) = promotions xs"
  "promotions (post_hook hook t) = []" "promotions (emit_on bus src evt sev) = []"
  "promotions (lag_warning bus src lag thr) = []"
  by (auto simp: promotions_def post_hook_def emit_on_def lag_warning_def split: option.splits)







section \<open>Failback of the TCP connector\<close>

lemma promoted_run:
  assumes "fs_connector cfg = Tcp" "state_of s = FailedOver" "current_primary s \<noteq> fs_primary cfg"
    and "\<forall>w\<in>set ws. check_database v w (current_primary s)" "primary_healthy l + length ws < 10"
    and "fo_run v env cfg ws (s, l) = (s', l')"
  shows "current_primary s' = current_primary s \<and> state_of s' = FailedOver
    \<and> primary_healthy l' = primary_healthy l + length ws"
  using assms(2-)
proof (induction ws arbitrary: s l)
  case (Cons w ws)
  let ?s = "s\<lparr>consecutive_failures := 0\<rparr>" and ?l = "l\<lparr>primary_healthy := primary_healthy l + 1\<rparr>"
  have "fst (failover_tick v env cfg w (s, l)) = (?s, ?l)"
    using tcp_tick_healthy [OF assms(1), of v w s env l] Cons.prems by simp
  then show ?case
    using Cons.IH [of ?s ?l] Cons.prems by simp
qed simp

text \<open>Failback: after a failover, ten checks in a row that find the promoted primary healthy
  bring the original primary back if it is reachable at the tenth; before the tenth
  nothing moves, however long the original primary has been reachable.\<close>

theorem failback_after_ten:
  assumes "fs_connector cfg = Tcp" "state_of s = FailedOver" "current_primary s \<noteq> fs_primary cfg"
    and "primary_healthy l = 0" "length ws = 10" "\<forall>w\<in>set ws. check_database v w (current_primary s)"
    and "check_database v (last ws) (fs_primary cfg)"
  shows "(\<forall>n<10. current_primary (fst (fo_run v env cfg (take n ws) (s, l))) = current_primary s)
    \<and> current_primary (fst (fo_run v env cfg ws (s, l))) = fs_primary cfg
    \<and> state_of (fst (fo_run v env cfg ws (s, l))) = Recovered"
proof -
  have part: "current_primary (fst (fo_run v env cfg (take n ws) (s, l))) = current_primary s
      \<and> state_of (fst (fo_run v env cfg (take n ws) (s, l))) = FailedOver
      \<and> primary_healthy (snd (fo_run v env cfg (take n ws) (s, l))) = n" if "n < 10" for n
    using promoted_run [OF assms(1-3), of "take n ws" v l env] that assms(4-6)
    by (auto dest: in_set_takeD simp: prod_eq_iff)
  obtain w where ws: "ws = take 9 ws @ [w]" "last ws = w" "w \<in> set ws"
    using assms(5) by (cases ws rule: rev_cases) auto
  obtain s1 l1 where r: "fo_run v env cfg (take 9 ws) (s, l) = (s1, l1)"
    by (cases "fo_run v env cfg (take 9 ws) (s, l)")
  have "fo_run v env cfg ws (s, l) = fst (failover_tick v env cfg w (s1, l1))"
    using ws(1) r fo_run_append [of v env cfg "take 9 ws" "[w]"] by (metis fo_run.simps)
  then have "current_primary (fst (fo_run v env cfg ws (s, l))) = fs_primary cfg
    \<and> state_of (fst (fo_run v env cfg ws (s, l))) = Recovered"
    using tcp_tick_healthy [OF assms(1), of v w s1 env l1] part [of 9] r ws(2,3) assms(3,6,7) by simp
  then show ?thesis
    using part by blast
qed

lemma healthy_run:
  assumes "fs_connector cfg = Tcp" "state_of s = Healthy" "\<forall>w\<in>set ws. check_database v w (current_primary s)"
  shows "current_primary (fst (fo_run v env cfg ws (s, l))) = current_primary s
    \<and> state_of (fst (fo_run v env cfg ws (s, l))) = Healthy"
  using assms(2,3)
proof (induction ws arbitrary: s l)
  case (Cons w ws)
  have "fst (failover_tick v env cfg w (s, l)) = (s\<lparr>consecutive_failures := 0\<rparr>, l\<lparr>primary_healthy := 0\<rparr>)"
    using tcp_tick_healthy [OF assms(1), of v w s env l] Cons.prems by simp
  then show ?case
    using Cons.IH [of "s\<lparr>consecutive_failures := 0\<rparr>" "l\<lparr>primary_healthy := 0\<rparr>"] Cons.prems by simp
qed simp

text \<open>Failback is lost after a hiccup: if the promoted primary fails a single check below the
  threshold and then answers again, the monitor reports \<^verbatim>\<open>Healthy\<close> and stays with
  the promoted primary for as long as it answers, although the original primary may
  be reachable in every check.\<close>

theorem failback_lost:
  assumes "fs_connector cfg = Tcp" "1 < fs_failure_threshold cfg" "state_of s = FailedOver" "consecutive_failures s = 0"
    and "\<not> check_database v w1 (current_primary s)" "\<forall>w\<in>set (w2 # ws). check_database v w (current_primary s)"
  shows "current_primary (fst (fo_run v env cfg (w1 # w2 # ws) (s, l))) = current_primary s
    \<and> state_of (fst (fo_run v env cfg (w1 # w2 # ws) (s, l))) = Healthy"
proof -
  obtain s1 where s1: "fst (failover_tick v env cfg w1 (s, l)) = (s1, l\<lparr>primary_healthy := 0\<rparr>)"
    "current_primary s1 = current_primary s" "state_of s1 = Suspect"
    using tcp_tick_failed [OF assms(1,5), of env l] assms(2,4) by (auto dest!: check_failed_sel)
  have s2: "fst (failover_tick v env cfg w2 (s1, l\<lparr>primary_healthy := 0\<rparr>)) =
      (set_state Healthy (s1\<lparr>consecutive_failures := 0\<rparr>), l\<lparr>primary_healthy := 0\<rparr>)"
    using tcp_tick_healthy [OF assms(1), of v w2 s1 env] s1 assms(6) by simp
  show ?thesis
    using healthy_run [OF assms(1), of "set_state Healthy (s1\<lparr>consecutive_failures := 0\<rparr>)" ws v env
        "l\<lparr>primary_healthy := 0\<rparr>"] s1 s2 assms(6) by simp
qed

section \<open>Examples\<close>

definition demo_env :: env where
  "demo_env = [''SHIM_VALIDATE_CONFIG'' \<mapsto> ''0'', ''FAILOVER_PRIMARY'' \<mapsto> ''10.0.0.1:5432'', ''FAILOVER_REPLICA'' \<mapsto> ''10.0.0.2:5432'']"

definition world_with :: "string set \<Rightarrow> fo_world" where
  "world_with up = \<lparr>connects = (\<lambda>a. a \<in> up), psql = (\<lambda>_. Inl []), sentinel_master_addr = None, promote_succeeds = (\<lambda>_. True)\<rparr>"

definition demo_shim :: failover_shim where
  "demo_shim = (failover_shim_new sample_validators demo_env)
     \<lparr>fs_shared := shared_state_new\<lparr>current_primary := ''10.0.0.1:5432''\<rparr>\<rparr>"

lemma demo_new:
  "fs_primary (failover_shim_new sample_validators demo_env) = ''10.0.0.1:5432''"
  "fs_replica (failover_shim_new sample_validators demo_env) = ''10.0.0.2:5432''"
  "fs_connector (failover_shim_new sample_validators demo_env) = Tcp"
  "fs_failure_threshold (failover_shim_new sample_validators demo_env) = 3"
  "fs_shared (failover_shim_new sample_validators demo_env) = shared_state_new"
  by (simp_all add: failover_shim_new_def Let_def env_str_def env_uint_def demo_env_def)

lemma demo_sel:
  "fs_primary demo_shim = ''10.0.0.1:5432''" "fs_replica demo_shim = ''10.0.0.2:5432''" "fs_connector demo_shim = Tcp"
  "fs_failure_threshold demo_shim = 3" "current_primary (fs_shared demo_shim) = ''10.0.0.1:5432''"
  "consecutive_failures (fs_shared demo_shim) = 0"
  by (simp_all add: demo_shim_def demo_new shared_state_new_def)

lemma demo_init: "failover_init sample_validators demo_env config_default (failover_shim_new sample_validators demo_env) = Inr demo_shim"
  by (simp add: failover_init_def validation_enabled_def demo_shim_def demo_new config_default_def Let_def)
    (simp add: demo_env_def)

lemma demo_check: "check_database sample_validators (world_with up) a \<longleftrightarrow> a \<in> up"
  by (simp add: check_database_def sample_validators_def world_with_def)





theorem failover_needs_failures_witness:
  "failover_count (fst (fo_run sample_validators demo_env demo_shim [world_with {}] (fs_shared demo_shim, fo_loop_new))) * 3
    + consecutive_failures (fst (fo_run sample_validators demo_env demo_shim [world_with {}] (fs_shared demo_shim, fo_loop_new)))
   \<le> failed_checks sample_validators demo_env demo_shim [world_with {}] (fs_shared demo_shim, fo_loop_new)"
proof -
  have "failover_count (fs_shared demo_shim) = 0"
    by (simp add: demo_shim_def shared_state_new_def)
  then show ?thesis
    using failover_needs_failures [of demo_shim sample_validators demo_env "[world_with {}]" "fs_shared demo_shim" fo_loop_new, OF _ surjective_pairing]
    by (simp only: demo_sel) simp
qed

theorem failover_state_machine_witness:
  "current_primary (fs_shared (fst (failover_start sample_validators (world_with {''10.0.0.1:5432''}) demo_shim)))
    \<in> {''10.0.0.1:5432'', ''10.0.0.2:5432''}"
proof -
  obtain cfg l where st: "failover_start sample_validators (world_with {''10.0.0.1:5432''}) demo_shim = (cfg, l)"
    by (cases "failover_start sample_validators (world_with {''10.0.0.1:5432''}) demo_shim")
  have "fs_failure_threshold cfg = 3" "fs_primary cfg = ''10.0.0.1:5432''" "fs_replica cfg = ''10.0.0.2:5432''"
    using st by (auto simp: failover_start_def Let_def demo_sel split: if_splits)
  then show ?thesis
    using failover_state_machine [OF demo_init st, where s = "fs_shared cfg" and l = l] st by simp
qed

definition demo_failed_over :: shared_state where
  "demo_failed_over = \<lparr>consecutive_failures = 0, failover_count = 1, state_code = 3, current_primary = ''10.0.0.2:5432''\<rparr>"

theorem failback_after_ten_witness:
  "current_primary (fst (fo_run sample_validators demo_env demo_shim
     (replicate 10 (world_with {''10.0.0.1:5432'', ''10.0.0.2:5432''})) (demo_failed_over, fo_loop_new))) = ''10.0.0.1:5432''"
  using failback_after_ten [of demo_shim demo_failed_over fo_loop_new
      "replicate 10 (world_with {''10.0.0.1:5432'', ''10.0.0.2:5432''})" sample_validators demo_env]
  by (simp add: demo_sel demo_check demo_failed_over_def state_of_def fo_loop_new_def)

theorem failback_lost_witness:
  "current_primary (fst (fo_run sample_validators demo_env demo_shim
     (world_with {''10.0.0.1:5432''} # replicate 50 (world_with {''10.0.0.1:5432'', ''10.0.0.2:5432''}))
     (demo_failed_over, fo_loop_new))) = ''10.0.0.2:5432''"
  using failback_lost [of demo_shim demo_failed_over sample_validators "world_with {''10.0.0.1:5432''}"
      "world_with {''10.0.0.1:5432'', ''10.0.0.2:5432''}" "replicate 49 (world_with {''10.0.0.1:5432'', ''10.0.0.2:5432''})"
      demo_env fo_loop_new]
  by (simp add: demo_sel demo_check demo_failed_over_def state_of_def replicate_Suc [symmetric] del: fo_run.simps replicate_Suc)

end
