(* ===== verification/Clusters.thy ===== *)
theory Clusters
  imports Failover "HOL-Library.Char_ord" "HOL-Library.List_Lexorder"
begin

text \<open>
  The multi-cluster part of \<^verbatim>\<open>failover-shim/src/lib.rs\<close>: cluster health, the choice of a
  cluster to promote, and the background loop that watches all clusters.  What a
  probe of an endpoint returns, the order of iteration over the hash map of clusters
  and the hash of the clock that the weighted strategy draws from are arguments;
  scores are exact rationals.  Names are sorted by the lexicographic order of strings.
\<close>

section \<open>Multi-cluster monitor\<close>

datatype cluster_status = ClusterHealthy | ClusterDegraded | ClusterFailed | ClusterUnknown

fun cluster_status_as_f64 :: "cluster_status \<Rightarrow> f64" where
  "cluster_status_as_f64 ClusterHealthy = 0"
| "cluster_status_as_f64 ClusterDegraded = 1"
| "cluster_status_as_f64 ClusterFailed = 2"
| "cluster_status_as_f64 ClusterUnknown = 3"

datatype failover_strategy = Sequential | LatencyBased | WeightedRandom

fun strategy_display :: "failover_strategy \<Rightarrow> string" where
  "strategy_display Sequential = ''sequential''"
| "strategy_display LatencyBased = ''latency''"
| "strategy_display WeightedRandom = ''weighted''"

record cluster_health =
  ch_name :: string
  endpoints :: "string list"
  ch_status :: cluster_status
  last_check :: time
  replication_lag_ms :: "nat option"
  latency_ms :: "nat option"
  ch_failures :: nat

definition cluster_health_new :: "time \<Rightarrow> string \<Rightarrow> string list \<Rightarrow> cluster_health" where
  "cluster_health_new now nm eps =
    \<lparr>ch_name = nm, endpoints = eps, ch_status = ClusterUnknown, last_check = now,
     replication_lag_ms = None, latency_ms = None, ch_failures = 0\<rparr>"

record multi_cluster_monitor =
  clusters :: "(string, cluster_health) hmap"
  primary_cluster :: string
  mc_strategy :: failover_strategy
  cross_check_secs :: nat
  mc_failure_threshold :: nat
  mc_webhook :: "string option"
  mc_bus :: bool
  promotions_total :: nat
  mc_current_primary :: string

fun parse_triples :: "time \<Rightarrow> string list \<Rightarrow> (string, cluster_health) hmap \<Rightarrow> (string, cluster_health) hmap" where
  "parse_triples now [] m = m"
| "parse_triples now (t # ts) m =
    (case split_on (CHR '':'') (trim t) of
       nm # host # port # _ \<Rightarrow>
         (let h = (case map_of m nm of Some h \<Rightarrow> h | None \<Rightarrow> cluster_health_new now nm [])
          in parse_triples now ts (hm_insert nm (h\<lparr>endpoints := endpoints h @ [host @ '':'' @ port]\<rparr>) m))
     | _ \<Rightarrow> parse_triples now ts m)"

definition parse_clusters :: "time \<Rightarrow> string \<Rightarrow> (string, cluster_health) hmap" where
  "parse_clusters now spec = parse_triples now (split_on (CHR '','') spec) []"

definition mc_from_env ::
  "((string, cluster_health) hmap \<Rightarrow> (string, cluster_health) hmap) \<Rightarrow> time \<Rightarrow> env \<Rightarrow> multi_cluster_monitor" where
  "mc_from_env ord now env =
    (let cs = parse_clusters now (env_str env ''FAILOVER_CLUSTERS'' []);
         strategy_str = env_str env ''FAILOVER_STRATEGY'' ''sequential'' in
     \<lparr>clusters = cs,
      primary_cluster =
        (case env ''FAILOVER_PRIMARY'' of
           Some p \<Rightarrow> p
         | None \<Rightarrow> (case hash_iter ord cs of (k, _) # _ \<Rightarrow> k | [] \<Rightarrow> ''primary'')),
      mc_strategy =
        (if strategy_str = ''latency'' then LatencyBased
         else if strategy_str = ''weighted'' then WeightedRandom else Sequential),
      cross_check_secs = env_uint 64 env ''FAILOVER_CROSS_CHECK_SECS'' 10,
      mc_failure_threshold = env_uint 32 env ''FAILOVER_FAILURE_THRESHOLD'' 3,
      mc_webhook = env ''FAILOVER_WEBHOOK'', mc_bus = False, promotions_total = 0,
      mc_current_primary = []\<rparr>)"

definition mc_new ::
  "(string, cluster_health) hmap \<Rightarrow> string \<Rightarrow> failover_strategy \<Rightarrow> nat \<Rightarrow> nat \<Rightarrow> string option
   \<Rightarrow> multi_cluster_monitor" where
  "mc_new cs prim strat secs thr hook =
    \<lparr>clusters = cs, primary_cluster = prim, mc_strategy = strat, cross_check_secs = secs,
     mc_failure_threshold = thr, mc_webhook = hook, mc_bus = False, promotions_total = 0,
     mc_current_primary = prim\<rparr>"

text \<open>A probe of an endpoint gives whether it connected and the milliseconds it took.\<close>

fun probe_all :: "(string \<Rightarrow> bool \<times> nat) \<Rightarrow> string list \<Rightarrow> nat \<times> nat" where
  "probe_all probe [] = (0, 0)"
| "probe_all probe (e # es) =
    (case (probe e, probe_all probe es) of
       ((ok, ms), (reachable, total_latency)) \<Rightarrow>
         if ok then (reachable + 1, total_latency + ms) else (reachable, total_latency))"

definition check_cluster :: "(string \<Rightarrow> bool \<times> nat) \<Rightarrow> time \<Rightarrow> nat \<Rightarrow> cluster_health \<Rightarrow> cluster_health" where
  "check_cluster probe now threshold h =
    (let (reachable, total_latency) = probe_all probe (endpoints h);
         h1 = h\<lparr>last_check := now,
                latency_ms := (if 0 < reachable then Some (total_latency div reachable) else None)\<rparr>
     in if reachable = length (endpoints h) then h1\<lparr>ch_status := ClusterHealthy, ch_failures := 0\<rparr>
        else if 0 < reachable then h1\<lparr>ch_status := ClusterDegraded, ch_failures := 0\<rparr>
        else
          (let h2 = h1\<lparr>ch_failures := ch_failures h1 + 1\<rparr>
           in h2\<lparr>ch_status := (if threshold \<le> ch_failures h2 then ClusterFailed else ClusterDegraded)\<rparr>))"

definition check_all_clusters ::
  "(string \<Rightarrow> bool \<times> nat) \<Rightarrow> time \<Rightarrow> multi_cluster_monitor \<Rightarrow> multi_cluster_monitor" where
  "check_all_clusters probe now m =
     m\<lparr>clusters := map (\<lambda>(k, h). (k, check_cluster probe now (mc_failure_threshold m) h)) (clusters m)\<rparr>"

definition u64_max :: nat where
  "u64_max = 2 ^ 64 - 1"

text \<open>The floating point remainder, and the first entry at which the running sum of
  the scores reaches the target; the last entry otherwise.\<close>

definition frem :: "f64 \<Rightarrow> f64 \<Rightarrow> f64" where
  "frem x y = x - y * of_int \<lfloor>x / y\<rfloor>"

fun weighted_pick :: "f64 \<Rightarrow> f64 \<Rightarrow> (string \<times> f64) list \<Rightarrow> string option" where
  "weighted_pick target cum [] = None"
| "weighted_pick target cum ((nm, score) # rest) =
    (if target \<le> cum + score then Some nm
     else if rest = [] then Some nm
     else weighted_pick target (cum + score) rest)"

definition weighted_target :: "nat \<Rightarrow> (string \<times> f64) list \<Rightarrow> f64" where
  "weighted_target rng scored = frem (of_nat rng) (sum_list (map snd scored) * 1000000000) / 1000000000"

definition status_factor :: "cluster_status \<Rightarrow> f64" where
  "status_factor st =
    (case st of ClusterHealthy \<Rightarrow> 1 | ClusterDegraded \<Rightarrow> 1 / 2 | ClusterFailed \<Rightarrow> 0 | ClusterUnknown \<Rightarrow> 1 / 4)"

definition or_else :: "'a option \<Rightarrow> 'a \<Rightarrow> 'a" where
  "or_else x d = (case x of Some y \<Rightarrow> y | None \<Rightarrow> d)"

definition cluster_score :: "cluster_health \<Rightarrow> f64" where
  "cluster_score h = (1 / (of_nat (or_else (latency_ms h) 1000) + 1)) * status_factor (ch_status h)"

definition candidates :: "((string, cluster_health) hmap \<Rightarrow> (string, cluster_health) hmap) \<Rightarrow> multi_cluster_monitor
   \<Rightarrow> (string \<times> cluster_health) list" where
  "candidates ord m =
     filter (\<lambda>(nm, h). nm \<noteq> primary_cluster m \<and> ch_status h = ClusterHealthy) (hash_iter ord (clusters m))"

text \<open>\<^verbatim>\<open>rng\<close> is the hash of the current time.\<close>

definition select_failover_target ::
  "((string, cluster_health) hmap \<Rightarrow> (string, cluster_health) hmap) \<Rightarrow> nat \<Rightarrow> multi_cluster_monitor
   \<Rightarrow> string option" where
  "select_failover_target ord rng m =
    (let cands = candidates ord m in
     if cands = [] then None
     else
       (case mc_strategy m of
          Sequential \<Rightarrow> Some (fst (hd cands))
        | LatencyBased \<Rightarrow> map_option fst (min_by_key (\<lambda>(_, h). or_else (latency_ms h) u64_max) cands)
        | WeightedRandom \<Rightarrow>
            (let scored = map (\<lambda>(nm, h). (nm, cluster_score h)) cands
             in if sum_list (map snd scored) \<le> 0 then None
                else weighted_pick (weighted_target rng scored) 0 scored)))"

definition promotion_events :: "bool \<Rightarrow> string option \<Rightarrow> string \<Rightarrow> string \<Rightarrow> fo_effect list" where
  "promotion_events bus hook old new =
     emit_on bus ''failover-shim'' (FailoverTriggered (''cluster:'' @ old) (''cluster:'' @ new)) Error
     @ emit_on bus ''failover-shim'' (FailoverCompleted (''cluster:'' @ new)) Notice
     @ post_hook hook (''MULTI-CLUSTER FAILOVER: Promoted cluster '' @ [CHR 0x27] @ new @ [CHR 0x27] @
         '' to primary (was '' @ [CHR 0x27] @ old @ [CHR 0x27] @ '')'')"

definition promote_secondary ::
  "((string, cluster_health) hmap \<Rightarrow> (string, cluster_health) hmap) \<Rightarrow> nat \<Rightarrow> multi_cluster_monitor
   \<Rightarrow> (multi_cluster_monitor \<times> fo_effect list) \<times> string option" where
  "promote_secondary ord rng m =
    (case select_failover_target ord rng m of
       None \<Rightarrow> ((m, []), None)
     | Some target \<Rightarrow>
         ((m\<lparr>primary_cluster := target, mc_current_primary := target,
             promotions_total := promotions_total m + 1\<rparr>,
           promotion_events (mc_bus m) (mc_webhook m) (primary_cluster m) target), Some target))"

text \<open>The background loop works on its own copies: the endpoints in the order of the sorted
  names, the status and failure count of each cluster, and the primary.  The
  latencies it selects by are initialised once and never written.\<close>

record mc_loop =
  mcl_primary :: string
  cluster_status_of :: "string \<rightharpoonup> cluster_status"
  cluster_failures_of :: "string \<rightharpoonup> nat"

definition mc_endpoints :: "multi_cluster_monitor \<Rightarrow> (string \<times> string list) list" where
  "mc_endpoints m =
     List.map_filter (\<lambda>nm. map_option (\<lambda>h. (nm, endpoints h)) (map_of (clusters m) nm))
       (sort (map fst (clusters m)))"

definition cluster_latency :: "multi_cluster_monitor \<Rightarrow> string \<rightharpoonup> nat option" where
  "cluster_latency m = map_of (map (\<lambda>(nm, _). (nm, None)) (mc_endpoints m))"

definition mc_loop_new :: "multi_cluster_monitor \<Rightarrow> mc_loop" where
  "mc_loop_new m =
    \<lparr>mcl_primary = primary_cluster m,
     cluster_status_of = map_of (map (\<lambda>(nm, _). (nm, ClusterUnknown)) (mc_endpoints m)),
     cluster_failures_of = map_of (map (\<lambda>(nm, _). (nm, 0)) (mc_endpoints m))\<rparr>"

definition loop_check ::
  "(string \<Rightarrow> bool) \<Rightarrow> nat \<Rightarrow> string \<times> string list \<Rightarrow> mc_loop \<Rightarrow> mc_loop" where
  "loop_check ok threshold ep l =
    (case ep of (nm, eps) \<Rightarrow>
     let reachable = length (filter ok eps);
         failures = or_else (cluster_failures_of l nm) 0 + 1;
         (st, l1) =
           (if reachable = length eps then (ClusterHealthy, l)
            else if 0 < reachable then (ClusterDegraded, l)
            else (if threshold \<le> failures then ClusterFailed else ClusterDegraded,
                  l\<lparr>cluster_failures_of := (cluster_failures_of l)(nm \<mapsto> failures)\<rparr>));
         l2 = (if 0 < reachable then l1\<lparr>cluster_failures_of := (cluster_failures_of l1)(nm \<mapsto> 0)\<rparr> else l1)
     in l2\<lparr>cluster_status_of := (cluster_status_of l2)(nm \<mapsto> st)\<rparr>)"

definition loop_candidates ::
  "(string \<times> string list) list \<Rightarrow> (string \<rightharpoonup> nat option) \<Rightarrow> mc_loop \<Rightarrow> (string \<times> nat option) list" where
  "loop_candidates eps lat l =
     List.map_filter (\<lambda>(nm, _).
       case cluster_status_of l nm of
         Some ClusterHealthy \<Rightarrow> Some (nm, or_else (lat nm) None)
       | _ \<Rightarrow> None) (filter (\<lambda>(nm, _). nm \<noteq> mcl_primary l) eps)"

definition loop_pick :: "failover_strategy \<Rightarrow> nat \<Rightarrow> (string \<times> nat option) list \<Rightarrow> string option" where
  "loop_pick strat rng cands =
    (case strat of
       Sequential \<Rightarrow> (case cands of [] \<Rightarrow> None | c # _ \<Rightarrow> Some (fst c))
     | LatencyBased \<Rightarrow> map_option fst (min_by_key (\<lambda>(_, lat). or_else lat u64_max) cands)
     | WeightedRandom \<Rightarrow>
         (let scored = map (\<lambda>(nm, lat). (nm, 1 / (of_nat (or_else lat 1000) + 1))) cands
          in weighted_pick (weighted_target rng scored) 0 scored))"

definition mc_tick ::
  "multi_cluster_monitor \<Rightarrow> (string \<Rightarrow> bool) \<Rightarrow> nat \<Rightarrow> mc_loop \<Rightarrow> mc_loop \<times> fo_effect list" where
  "mc_tick m ok rng l =
    (let l1 = fold (loop_check ok (mc_failure_threshold m)) (mc_endpoints m) l in
     if or_else (cluster_status_of l1 (mcl_primary l1)) ClusterUnknown = ClusterFailed then
       (let cands = loop_candidates (mc_endpoints m) (cluster_latency m) l1 in
        if cands = [] then (l1, [])
        else
          (case loop_pick (mc_strategy m) rng cands of
             Some promoted \<Rightarrow>
               (l1\<lparr>mcl_primary := promoted\<rparr>,
                promotion_events (mc_bus m) (mc_webhook m) (mcl_primary l1) promoted)
           | None \<Rightarrow> (l1, [])))
     else (l1, []))"

definition mc_metrics ::
  "((string, cluster_health) hmap \<Rightarrow> (string, cluster_health) hmap) \<Rightarrow> multi_cluster_monitor \<Rightarrow> metric list" where
  "mc_metrics ord m =
     concat (map (\<lambda>(_, h). (''failover_cluster_status'', cluster_status_as_f64 (ch_status h)) #
       (case latency_ms h of Some n \<Rightarrow> [(''failover_cluster_latency_ms'', of_nat n)] | None \<Rightarrow> []))
       (hash_iter ord (clusters m)))
     @ [(''failover_promotions_total'', of_nat (promotions_total m))]"

section \<open>Cluster selection\<close>

lemma weighted_pick_in: "weighted_pick target cum xs = Some nm \<Longrightarrow> nm \<in> fst ` set xs"
  by (induction target cum xs rule: weighted_pick.induct) (auto split: if_splits)

lemma weighted_pick_total: "xs \<noteq> [] \<Longrightarrow> weighted_pick target cum xs \<noteq> None"
  by (induction target cum xs rule: weighted_pick.induct) auto

lemma candidates_set:
  "(nm, h) \<in> set (candidates ord m) \<longleftrightarrow>
    (nm, h) \<in> set (clusters m) \<and> nm \<noteq> primary_cluster m \<and> ch_status h = ClusterHealthy"
  by (auto simp: candidates_def)

lemma candidate_score: "(nm, h) \<in> set (candidates ord m) \<Longrightarrow> 0 < cluster_score h"
  by (auto simp: candidates_set cluster_score_def status_factor_def intro!: add_nonneg_pos)

lemma scores_positive:
  assumes "cands \<noteq> []" "\<forall>(nm, h)\<in>set cands. 0 < cluster_score h"
  shows "0 < sum_list (map snd (map (\<lambda>(nm, h). (nm, cluster_score h)) cands))"
  using assms by (induction cands rule: list_nonempty_induct) (auto intro: add_pos_pos)

definition eligible :: "multi_cluster_monitor \<Rightarrow> string \<Rightarrow> cluster_health \<Rightarrow> bool" where
  "eligible m nm h \<longleftrightarrow> (nm, h) \<in> set (clusters m) \<and> nm \<noteq> primary_cluster m \<and> ch_status h = ClusterHealthy"

lemma select_target_cases:
  "(select_failover_target ord rng m = None \<longleftrightarrow> candidates ord m = [])
   \<and> (select_failover_target ord rng m = Some nm \<longrightarrow>
       (\<exists>h. (nm, h) \<in> set (candidates ord m)
         \<and> (mc_strategy m = LatencyBased \<longrightarrow> (\<forall>(n', h')\<in>set (candidates ord m).
               or_else (latency_ms h) u64_max \<le> or_else (latency_ms h') u64_max))))"
proof (cases "candidates ord m = []")
  case True
  then show ?thesis
    by (simp add: select_failover_target_def)
next
  case False
  let ?c = "candidates ord m"
  let ?scored = "map (\<lambda>(nm, h). (nm, cluster_score h)) ?c"
  show ?thesis
  proof (cases "mc_strategy m")
    case Sequential
    obtain n0 h0 rest where c: "?c = (n0, h0) # rest"
      using False by (metis list.exhaust surj_pair)
    show ?thesis
      unfolding select_failover_target_def c Let_def using Sequential by auto
  next
    case LatencyBased
    obtain q where q: "min_by_key (\<lambda>(_, h). or_else (latency_ms h) u64_max) ?c = Some q"
      using False by (metis min_by_key_None not_None_eq)
    then show ?thesis
      using False LatencyBased min_by_key_Some [OF q] by (cases q) (auto simp: select_failover_target_def)
  next
    case WeightedRandom
    have pos: "0 < sum_list (map snd ?scored)"
      using False by (intro scores_positive) (auto intro: candidate_score)
    then have sel: "select_failover_target ord rng m = weighted_pick (weighted_target rng ?scored) 0 ?scored"
      using False WeightedRandom by (simp add: select_failover_target_def Let_def not_le [symmetric])
    show ?thesis
      unfolding sel using False WeightedRandom weighted_pick_total [of ?scored]
      by (auto dest!: weighted_pick_in)
  qed
qed

text \<open>C37: Promoting a secondary cluster: it fails only when no other cluster is healthy, and
  then changes nothing; otherwise the new primary is a healthy cluster other than
  the old one, one more promotion is counted, and under the latency strategy no other
  healthy cluster was measured faster.\<close>

theorem promote_secondary_spec:
  assumes "promote_secondary ord rng m = ((m', effects), r)"
  shows "case r of
      None \<Rightarrow> m' = m \<and> effects = [] \<and> \<not> (\<exists>nm h. eligible m nm h)
    | Some nm \<Rightarrow> m' = m\<lparr>primary_cluster := nm, mc_current_primary := nm, promotions_total := promotions_total m + 1\<rparr>
        \<and> (\<exists>h. eligible m nm h \<and> (mc_strategy m = LatencyBased \<longrightarrow>
              (\<forall>n' h'. eligible m n' h' \<longrightarrow> or_else (latency_ms h) u64_max \<le> or_else (latency_ms h') u64_max)))"
proof (cases "select_failover_target ord rng m")
  case None
  then have "candidates ord m = []"
    using select_target_cases [of ord rng m undefined] by simp
  then have "\<not> (\<exists>nm h. eligible m nm h)"
    by (metis candidates_set eligible_def list.distinct(1) list.set_cases)
  moreover have "r = None" "m' = m" "effects = []"
    using assms None by (auto simp: promote_secondary_def)
  ultimately show ?thesis
    by simp
next
  case (Some nm)
  obtain h where "(nm, h) \<in> set (candidates ord m)" "mc_strategy m = LatencyBased \<longrightarrow>
      (\<forall>(n', h')\<in>set (candidates ord m). or_else (latency_ms h) u64_max \<le> or_else (latency_ms h') u64_max)"
    using select_target_cases [of ord rng m nm] Some by blast
  then have "\<exists>h. eligible m nm h \<and> (mc_strategy m = LatencyBased \<longrightarrow>
      (\<forall>n' h'. eligible m n' h' \<longrightarrow> or_else (latency_ms h) u64_max \<le> or_else (latency_ms h') u64_max))"
    by (intro exI [of _ h]) (auto simp: eligible_def candidates_set)
  moreover have "r = Some nm"
    "m' = m\<lparr>primary_cluster := nm, mc_current_primary := nm, promotions_total := promotions_total m + 1\<rparr>"
    using assms Some by (auto simp: promote_secondary_def)
  ultimately show ?thesis
    by simp
qed

section \<open>The cross-cluster loop\<close>

lemma mc_endpoints_eq:
  "mc_endpoints m = map (\<lambda>nm. (nm, endpoints (the (map_of (clusters m) nm)))) (sort (map fst (clusters m)))"
proof -
  have "\<forall>nm\<in>set ns. map_of (clusters m) nm \<noteq> None \<Longrightarrow>
      List.map_filter (\<lambda>nm. map_option (\<lambda>h. (nm, endpoints h)) (map_of (clusters m) nm)) ns =
      map (\<lambda>nm. (nm, endpoints (the (map_of (clusters m) nm)))) ns" for ns
    by (induction ns) (auto simp: List.map_filter_simps)
  then show ?thesis
    by (simp add: mc_endpoints_def map_of_eq_None_iff)
qed

lemma mc_endpoints_keys: "map fst (mc_endpoints m) = sort (map fst (clusters m))"
  by (simp add: mc_endpoints_eq comp_def)

lemma mc_endpoints_in:
  "(nm, es) \<in> set (mc_endpoints m) \<longleftrightarrow> (\<exists>h. map_of (clusters m) nm = Some h \<and> es = endpoints h)"
proof -
  have "nm \<in> fst ` set (clusters m) \<longleftrightarrow> (\<exists>h. map_of (clusters m) nm = Some h)"
    by (metis map_of_eq_None_iff not_None_eq)
  then show ?thesis
    by (auto simp: mc_endpoints_eq)
qed

lemma loop_check_other:
  "nm \<noteq> fst ep \<Longrightarrow> cluster_status_of (loop_check ok thr ep l) nm = cluster_status_of l nm
     \<and> cluster_failures_of (loop_check ok thr ep l) nm = cluster_failures_of l nm"
  by (cases ep) (simp add: loop_check_def Let_def)

lemma loop_check_primary [simp]: "mcl_primary (loop_check ok thr ep l) = mcl_primary l"
  by (cases ep) (simp add: loop_check_def Let_def)

lemma fold_loop_primary [simp]: "mcl_primary (fold (loop_check ok thr) eps l) = mcl_primary l"
  by (induction eps arbitrary: l) simp_all

lemma loop_check_status:
  "cluster_status_of (loop_check ok thr (nm, es) l) nm =
    Some (if list_all ok es then ClusterHealthy
          else if list_ex ok es then ClusterDegraded
          else if thr \<le> or_else (cluster_failures_of l nm) 0 + 1 then ClusterFailed else ClusterDegraded)"
proof -
  have "length (filter ok es) = length es \<longleftrightarrow> list_all ok es"
    by (metis filter_id_conv length_filter_less less_irrefl list_all_iff)
  moreover have "0 < length (filter ok es) \<longleftrightarrow> list_ex ok es"
    by (auto simp: list_ex_iff filter_empty_conv)
  ultimately show ?thesis
    by (simp add: loop_check_def Let_def)
qed

lemma fold_loop_other:
  "nm \<notin> fst ` set eps \<Longrightarrow> cluster_status_of (fold (loop_check ok thr) eps l) nm = cluster_status_of l nm
    \<and> cluster_failures_of (fold (loop_check ok thr) eps l) nm = cluster_failures_of l nm"
  by (induction eps arbitrary: l) (auto simp: loop_check_other)

lemma fold_loop_status:
  assumes "distinct (map fst eps)" "(nm, es) \<in> set eps"
  shows "cluster_status_of (fold (loop_check ok thr) eps l) nm = cluster_status_of (loop_check ok thr (nm, es) l) nm"
  using assms
proof (induction eps arbitrary: l)
  case (Cons ep eps)
  show ?case
  proof (cases "fst ep = nm")
    case True
    then have "ep = (nm, es)"
      using Cons.prems by (cases ep) force
    then show ?thesis
      using Cons.prems(1) fold_loop_other [of nm eps] by simp
  next
    case False
    then have "cluster_failures_of (loop_check ok thr ep l) nm = cluster_failures_of l nm"
      using loop_check_other [of nm ep ok thr l] by auto
    then show ?thesis
      using Cons False by (auto simp: loop_check_status)
  qed
qed simp

lemma loop_candidates_eq:
  assumes "\<And>nm. or_else (lat nm) None = None"
  shows "loop_candidates eps lat l =
    map (\<lambda>(nm, _). (nm, None)) (filter (\<lambda>(nm, _). nm \<noteq> mcl_primary l \<and> cluster_status_of l nm = Some ClusterHealthy) eps)"
  unfolding loop_candidates_def
  by (induction eps)
    (auto simp: List.map_filter_simps assms split: option.splits cluster_status.splits)

lemma cluster_latency_None: "or_else (cluster_latency m nm) None = None"
proof -
  have "map_of (map (\<lambda>(nm, _). (nm, None)) eps) nm \<in> {None, Some None}" for eps :: "(string \<times> string list) list"
    by (induction eps) auto
  then have "cluster_latency m nm \<in> {None, Some None}"
    unfolding cluster_latency_def .
  then show ?thesis
    by (auto simp: or_else_def)
qed

lemma min_by_key_const: "(\<And>x. x \<in> set xs \<Longrightarrow> f x = c) \<Longrightarrow> min_by_key f xs = (case xs of [] \<Rightarrow> None | x # _ \<Rightarrow> Some x)"
proof (induction xs)
  case (Cons x xs)
  then show ?case
    by (cases xs) (auto split: option.splits dest: min_by_key_Some)
qed simp

text \<open>With the latencies never measured, the latency strategy of the loop takes the first
  candidate, as the sequential one does.\<close>

lemma loop_latency_blind:
  "loop_pick LatencyBased rng (loop_candidates eps (cluster_latency m) l) =
   loop_pick Sequential rng (loop_candidates eps (cluster_latency m) l)"
proof -
  let ?c = "loop_candidates eps (cluster_latency m) l"
  have "\<And>x. x \<in> set ?c \<Longrightarrow> (\<lambda>(_, lat). or_else lat u64_max) x = u64_max"
    by (auto simp: loop_candidates_eq [OF cluster_latency_None] or_else_def)
  then have "min_by_key (\<lambda>(_, lat). or_else lat u64_max) ?c = (case ?c of [] \<Rightarrow> None | x # _ \<Rightarrow> Some x)"
    by (rule min_by_key_const)
  then show ?thesis
    by (simp add: loop_pick_def split: list.split)
qed

lemma loop_pick_in: "loop_pick strat rng cands = Some nm \<Longrightarrow> nm \<in> fst ` set cands"
  by (force simp: loop_pick_def Let_def split: failover_strategy.splits list.splits
      dest!: weighted_pick_in min_by_key_Some)

lemma first_least:
  assumes "sorted (map fst xs)" "filter P xs = y # ys" "z \<in> set xs" "P z"
  shows "fst y \<le> (fst z :: string)"
proof -
  have "sorted (map fst (filter P xs))"
    using assms(1) by (simp add: sorted_filter)
  moreover have "z \<in> set (y # ys)"
    using assms(2-4) by (metis (mono_tags, lifting) mem_Collect_eq set_filter)
  ultimately show ?thesis
    using assms(2) by auto
qed

definition cluster_up :: "multi_cluster_monitor \<Rightarrow> (string \<Rightarrow> bool) \<Rightarrow> string \<Rightarrow> bool" where
  "cluster_up m ok nm = (case map_of (clusters m) nm of None \<Rightarrow> False | Some h \<Rightarrow> list_all ok (endpoints h))"

lemma tick_status:
  assumes "hm_wf (clusters m)" "nm \<in> fst ` set (clusters m)"
  shows "\<exists>h. map_of (clusters m) nm = Some h
    \<and> cluster_status_of (fold (loop_check ok thr) (mc_endpoints m) l) nm =
      Some (if list_all ok (endpoints h) then ClusterHealthy
            else if list_ex ok (endpoints h) then ClusterDegraded
            else if thr \<le> or_else (cluster_failures_of l nm) 0 + 1 then ClusterFailed else ClusterDegraded)"
proof -
  obtain h where h: "map_of (clusters m) nm = Some h"
    using assms(2) by (metis map_of_eq_None_iff not_None_eq)
  have "distinct (map fst (mc_endpoints m))"
    using assms(1) by (simp add: mc_endpoints_keys)
  moreover have "(nm, endpoints h) \<in> set (mc_endpoints m)"
    using h by (auto simp: mc_endpoints_in)
  ultimately show ?thesis
    using h fold_loop_status [of "mc_endpoints m" nm "endpoints h" ok thr l] by (simp add: loop_check_status)
qed

text \<open>When the cross-cluster loop changes its primary, the old primary had no reachable
  endpoint in at least threshold-many consecutive rounds including this one, every endpoint of
  the new one was reachable in this round, and, for the sequential and for the latency
  strategy alike, the new primary is the alphabetically first such cluster.\<close>

theorem mc_tick_sound:
  assumes wf: "hm_wf (clusters m)" and prim: "mcl_primary l \<in> fst ` set (clusters m)"
    and tick: "mc_tick m ok rng l = (l', effects)" and change: "mcl_primary l' \<noteq> mcl_primary l"
  shows "(\<forall>h. map_of (clusters m) (mcl_primary l) = Some h \<longrightarrow> \<not> list_ex ok (endpoints h))
    \<and> mc_failure_threshold m \<le> or_else (cluster_failures_of l (mcl_primary l)) 0 + 1
    \<and> cluster_up m ok (mcl_primary l')
    \<and> (mc_strategy m \<noteq> WeightedRandom \<longrightarrow>
        (\<forall>nm. nm \<noteq> mcl_primary l \<and> cluster_up m ok nm \<longrightarrow> mcl_primary l' \<le> nm))"
proof -
  define l1 where "l1 = fold (loop_check ok (mc_failure_threshold m)) (mc_endpoints m) l"
  define cs where "cs = loop_candidates (mc_endpoints m) (cluster_latency m) l1"
  have p1: "mcl_primary l1 = mcl_primary l"
    by (simp add: l1_def)
  have failed: "or_else (cluster_status_of l1 (mcl_primary l)) ClusterUnknown = ClusterFailed"
    and pick: "loop_pick (mc_strategy m) rng cs = Some (mcl_primary l')"
    using tick change p1 unfolding mc_tick_def Let_def l1_def [symmetric] cs_def [symmetric]
    by (auto split: if_splits option.splits)
  let ?good = "\<lambda>(nm, _). nm \<noteq> mcl_primary l1 \<and> cluster_status_of l1 nm = Some ClusterHealthy"
  have cs: "cs = map (\<lambda>(nm, _). (nm, None)) (filter ?good (mc_endpoints m))"
    unfolding cs_def by (rule loop_candidates_eq) (rule cluster_latency_None)
  have keys: "fst ` set (mc_endpoints m) = fst ` set (clusters m)"
    using mc_endpoints_keys [of m] by (metis set_map set_sort)
  have up: "cluster_status_of l1 nm = Some ClusterHealthy \<longleftrightarrow> cluster_up m ok nm" if "nm \<in> fst ` set (clusters m)" for nm
    using tick_status [OF wf that, of ok "mc_failure_threshold m" l] by (auto simp: l1_def cluster_up_def split: if_splits)
  have "mcl_primary l' \<in> fst ` set cs"
    using pick by (rule loop_pick_in)
  then obtain es where "(mcl_primary l', es) \<in> set (mc_endpoints m)" "cluster_status_of l1 (mcl_primary l') = Some ClusterHealthy"
    by (auto simp: cs)
  then have new: "cluster_up m ok (mcl_primary l')"
    using up keys by (metis fst_conv image_eqI)
  have first: "mcl_primary l' \<le> nm" if seq: "mc_strategy m \<noteq> WeightedRandom"
    and nm: "nm \<noteq> mcl_primary l" "cluster_up m ok nm" for nm
  proof -
    have "loop_pick Sequential rng cs = Some (mcl_primary l')"
      using pick seq loop_latency_blind [of rng "mc_endpoints m" m l1] by (cases "mc_strategy m") (simp_all add: cs_def)
    then obtain y ys where y: "filter ?good (mc_endpoints m) = y # ys" "fst y = mcl_primary l'"
      by (auto simp: loop_pick_def cs split: list.splits)
    have "nm \<in> fst ` set (clusters m)"
      using nm(2) by (auto simp: cluster_up_def dest!: map_of_SomeD split: option.splits) (force)
    then obtain es where "(nm, es) \<in> set (mc_endpoints m)" "?good (nm, es)"
      using keys up nm p1 by force
    moreover have "sorted (map fst (mc_endpoints m))"
      by (simp add: mc_endpoints_keys)
    ultimately show ?thesis
      using first_least [of "mc_endpoints m" ?good y ys "(nm, es)"] y by simp
  qed
  show ?thesis
    using tick_status [OF wf prim, of ok "mc_failure_threshold m" l] failed new first
    by (auto simp: l1_def [symmetric] or_else_def split: if_splits)
qed

section \<open>Example\<close>

definition demo_clusters :: "(string, cluster_health) hmap" where
  "demo_clusters = [(''east'', (cluster_health_new 0 ''east'' [''e:1''])\<lparr>ch_status := ClusterHealthy, latency_ms := Some 9\<rparr>),
     (''west'', (cluster_health_new 0 ''west'' [''w:1''])\<lparr>ch_status := ClusterHealthy, latency_ms := Some 4\<rparr>)]"

theorem promote_secondary_spec_witness:
  "\<exists>m' e. promote_secondary id 7 (mc_new demo_clusters ''east'' LatencyBased 10 3 None) = ((m', e), Some ''west'')
    \<and> primary_cluster m' = ''west'' \<and> (\<exists>h. eligible (mc_new demo_clusters ''east'' LatencyBased 10 3 None) ''west'' h)"
proof -
  let ?m = "mc_new demo_clusters ''east'' LatencyBased 10 3 None"
  obtain m' e r where p: "promote_secondary id 7 ?m = ((m', e), r)"
    by (metis surj_pair)
  have "r = Some ''west''"
    using p by (simp add: promote_secondary_def select_failover_target_def candidates_def hash_iter_def mc_new_def
        demo_clusters_def cluster_health_new_def)
  then show ?thesis
    using promote_secondary_spec [OF p] p by auto
qed

definition demo_mc :: multi_cluster_monitor where
  "demo_mc = mc_new demo_clusters ''east'' LatencyBased 10 1 None"

lemma demo_mc_sel:
  "clusters demo_mc = demo_clusters" "primary_cluster demo_mc = ''east''" "mc_strategy demo_mc = LatencyBased"
  "mc_failure_threshold demo_mc = 1" "mc_bus demo_mc = False" "mc_webhook demo_mc = None"
  by (simp_all add: demo_mc_def mc_new_def)

lemma demo_mc_endpoints: "mc_endpoints demo_mc = [(''east'', [''e:1'']), (''west'', [''w:1''])]"
proof -
  have "sort (map fst demo_clusters) = [''east'', ''west'']"
    by (simp add: demo_clusters_def less_char_def)
  then show ?thesis
    unfolding mc_endpoints_eq demo_mc_sel by (simp add: demo_clusters_def cluster_health_new_def)
qed

theorem mc_tick_sound_witness:
  "\<exists>l' e. mc_tick demo_mc (\<lambda>a. a = ''w:1'') 7 (mc_loop_new demo_mc) = (l', e)
    \<and> mcl_primary l' = ''west'' \<and> cluster_up demo_mc (\<lambda>a. a = ''w:1'') ''west''"
proof -
  let ?ok = "\<lambda>a. a = ''w:1''"
  obtain l' e where t: "mc_tick demo_mc ?ok 7 (mc_loop_new demo_mc) = (l', e)"
    by (cases "mc_tick demo_mc ?ok 7 (mc_loop_new demo_mc)")
  have prim: "mcl_primary (mc_loop_new demo_mc) = ''east''"
    by (simp add: mc_loop_new_def demo_mc_sel)
  have "mcl_primary (fst (mc_tick demo_mc ?ok 7 (mc_loop_new demo_mc))) = ''west''"
    by (simp add: mc_tick_def demo_mc_endpoints demo_mc_sel mc_loop_new_def cluster_latency_def loop_check_def
        loop_candidates_def loop_pick_def Let_def or_else_def List.map_filter_simps)
  then have "mcl_primary l' = ''west''"
    using t by simp
  then show ?thesis
    using mc_tick_sound [OF _ _ t] t prim by (simp add: demo_mc_sel demo_clusters_def)
qed

end
