(* ===== verification/Shutdown.thy ===== *)
theory Shutdown
  imports Prelude
begin

text \<open>
  \<^verbatim>\<open>shim-core/src/shutdown.rs\<close>: the shutdown sequences per database type, the shutdown
  manager with its drain phase, and \<^verbatim>\<open>graceful_shutdown\<close>.

  Time is counted in milliseconds from the start of the call, and the timers are
  exact.  The process under control is a record: the error with which
  \<^verbatim>\<open>SIGTERM\<close> or \<^verbatim>\<open>SIGKILL\<close> fails to be delivered, and whether \<^verbatim>\<open>kill(pid, 0)\<close> succeeds at
  a given time, before and after a \<^verbatim>\<open>SIGKILL\<close>.  A process that has exited but is not yet
  reaped still counts as alive there.  A wait loop polls every 100 ms under
  \<^verbatim>\<open>tokio::time::timeout\<close>, which polls the loop once more at the deadline.
\<close>

section \<open>Data\<close>

datatype database_type = Postgres | Redis | Generic

fun database_type_display :: "database_type \<Rightarrow> string" where
  "database_type_display Postgres = ''postgres''"
| "database_type_display Redis = ''redis''"
| "database_type_display Generic = ''generic''"

record shutdown_result =
  clean_exit :: bool
  sr_db_type :: database_type
  duration_ms :: nat
  signals_sent :: nat
  operations_completed :: nat
  operations_total :: nat
  sr_log :: "string list"

record process =
  pid :: nat
  term_error :: "string option"
  kill_error :: "string option"
  alive_at :: "nat \<Rightarrow> bool"
  alive_killed_at :: "nat \<Rightarrow> bool"

section \<open>Waiting\<close>

text \<open>The loop \<^verbatim>\<open>while c { sleep(100ms) }\<close> under a timeout: the time at which it is left, and
  whether it ended by itself.\<close>

function poll_while :: "(nat \<Rightarrow> bool) \<Rightarrow> nat \<Rightarrow> nat \<Rightarrow> nat \<times> bool" where
  "poll_while c t deadline =
    (if \<not> c t then (t, True)
     else if t + 100 \<le> deadline then poll_while c (t + 100) deadline
     else (max t deadline, False))"
  by pat_completeness auto
termination
  by (relation "measure (\<lambda>(c, t, deadline). deadline + 100 - t)") auto

declare poll_while.simps [simp del]

section \<open>Sequences per database type\<close>

definition result_of ::
  "database_type \<Rightarrow> nat \<Rightarrow> nat \<Rightarrow> bool \<Rightarrow> string list \<Rightarrow> shutdown_result" where
  "result_of db t sent clean lg =
    \<lparr>clean_exit = clean, sr_db_type = db, duration_ms = t, signals_sent = sent,
     operations_completed = 0, operations_total = 0, sr_log = lg\<rparr>"

definition term_line :: "string \<Rightarrow> process \<Rightarrow> string" where
  "term_line tag p = tag @ '' Sending SIGTERM to PID '' @ show_nat (pid p)"

definition term_failed :: "database_type \<Rightarrow> string \<Rightarrow> process \<Rightarrow> string \<Rightarrow> shutdown_result" where
  "term_failed db tag p e =
     result_of db 0 0 False
       [term_line tag p, ''  SIGTERM failed: '' @ e @ '' (process may already be dead)'']"

definition postgres_shutdown :: "process \<Rightarrow> nat \<Rightarrow> shutdown_result" where
  "postgres_shutdown p timeout_secs =
    (case term_error p of
       Some e \<Rightarrow> term_failed Postgres ''[1/4]'' p e
     | None \<Rightarrow>
         (let step = timeout_secs div 4;
              log2 = [term_line ''[1/4]'' p,
                ''[2/4] Waiting for queries to finish (up to '' @ show_nat step @ ''s)''];
              t1 = step * 1000
          in if alive_at p t1 then
               (let log3 = log2 @ [''[3/4] Process still running, waiting for checkpoint''];
                    t2 = t1 + step * 1000;
                    (t3, log4) =
                      (if alive_at p t2 then
                         (fst (poll_while (alive_at p) t2 (t2 + timeout_secs div 2 * 1000)),
                          log3 @ [''[4/4] Process still running after '' @ show_nat (step * 2) @
                            ''s, waiting for final exit''])
                       else (t2, log3));
                    clean = (\<not> alive_at p t3)
                in result_of Postgres t3 1 clean
                     (log4 @ [if clean then ''[4/4] Process exited cleanly''
                              else ''[4/4] Process did not exit gracefully'']))
             else
               result_of Postgres t1 1 True (log2 @ [''[3/4] Process exited cleanly after SIGTERM''])))"

definition redis_shutdown :: "process \<Rightarrow> nat \<Rightarrow> shutdown_result" where
  "redis_shutdown p timeout_secs =
    (case term_error p of
       Some e \<Rightarrow> term_failed Redis ''[1/3]'' p e
     | None \<Rightarrow>
         (let step = timeout_secs div 3;
              log2 = [term_line ''[1/3]'' p,
                ''[2/3] Waiting for RDB save/fork completion (up to '' @ show_nat step @ ''s)''];
              t1 = step * 1000
          in if \<not> alive_at p t1 then
               result_of Redis t1 1 True (log2 @ [''[3/3] Process exited cleanly after SIGTERM''])
             else
               (let log3 = log2 @ [''[3/3] Process still running, waiting for fork completion''];
                    t2 = fst (poll_while (alive_at p) t1 (t1 + timeout_secs * 2 div 3 * 1000));
                    clean = (\<not> alive_at p t2)
                in result_of Redis t2 1 clean
                     (log3 @ [if clean then ''[3/3] Process exited cleanly''
                              else ''[3/3] Process did not exit gracefully'']))))"

text \<open>Sending \<^verbatim>\<open>SIGKILL\<close> counts only when it is delivered.\<close>

definition kill_count :: "process \<Rightarrow> nat" where
  "kill_count p = (if kill_error p = None then 1 else 0)"

definition after_kill :: "process \<Rightarrow> nat \<Rightarrow> bool" where
  "after_kill p = (if kill_error p = None then alive_killed_at p else alive_at p)"

definition generic_shutdown :: "process \<Rightarrow> nat \<Rightarrow> shutdown_result" where
  "generic_shutdown p timeout_secs =
    (case term_error p of
       Some e \<Rightarrow> term_failed Generic ''[1/3]'' p e
     | None \<Rightarrow>
         (let log2 = [term_line ''[1/3]'' p,
                ''[2/3] Waiting '' @ show_nat timeout_secs @ ''s for graceful exit''];
              t1 = fst (poll_while (alive_at p) 0 (timeout_secs * 1000))
          in if alive_at p t1 then
               (let log3 = log2 @ [''[3/3] Process still running, sending SIGKILL''];
                    t2 = t1 + 500;
                    gone = (\<not> after_kill p t2)
                in result_of Generic t2 (1 + kill_count p) False
                     (log3 @ [if gone then ''[3/3] Process killed by SIGKILL''
                              else ''[3/3] Process did not respond to SIGKILL'']))
             else result_of Generic t1 1 True (log2 @ [''[3/3] Process exited cleanly after SIGTERM''])))"

definition shutdown_handler :: "database_type \<Rightarrow> process \<Rightarrow> nat \<Rightarrow> shutdown_result" where
  "shutdown_handler db =
    (case db of
       Postgres \<Rightarrow> postgres_shutdown
     | Redis \<Rightarrow> redis_shutdown
     | Generic \<Rightarrow> generic_shutdown)"

fun handler_description :: "database_type \<Rightarrow> string" where
  "handler_description Postgres = ''PostgreSQL: SIGTERM -> smart shutdown -> wait for queries -> checkpoint -> exit''"
| "handler_description Redis = ''Redis: SIGTERM -> save RDB -> wait for fork -> exit''"
| "handler_description Generic = ''Generic: SIGTERM -> wait timeout -> SIGKILL''"

section \<open>Shutdown manager\<close>

record shutdown_manager =
  sm_db_type :: database_type
  sm_timeout_secs :: nat
  initiated :: bool
  drain_timeout_secs :: nat
  in_flight_total :: nat
  in_flight_completed :: nat

definition shutdown_manager_new :: "env \<Rightarrow> database_type \<Rightarrow> nat \<Rightarrow> shutdown_manager" where
  "shutdown_manager_new env db secs =
    \<lparr>sm_db_type = db, sm_timeout_secs = secs, initiated = False,
     drain_timeout_secs = env_uint 64 env ''SHIM_DRAIN_TIMEOUT_SECS'' 30,
     in_flight_total = 0, in_flight_completed = 0\<rparr>"

definition operation_started :: "shutdown_manager \<Rightarrow> shutdown_manager" where
  "operation_started m = m\<lparr>in_flight_total := in_flight_total m + 1\<rparr>"

definition operation_completed :: "shutdown_manager \<Rightarrow> shutdown_manager" where
  "operation_completed m = m\<lparr>in_flight_completed := in_flight_completed m + 1\<rparr>"

definition in_flight_count :: "shutdown_manager \<Rightarrow> nat" where
  "in_flight_count m = saturating_sub (in_flight_total m) (in_flight_completed m)"

text \<open>The two counters go on moving while the manager drains: \<^verbatim>\<open>ops t\<close> is the pair of totals
  that other tasks have reached \<^verbatim>\<open>t\<close> milliseconds after the call.  The process clock starts
  when the drain phase ends.\<close>

definition drain :: "(nat \<Rightarrow> nat \<times> nat) \<Rightarrow> nat \<Rightarrow> nat \<times> bool" where
  "drain ops drain_secs = poll_while (\<lambda>t. case ops t of (started, finished) \<Rightarrow> finished < started) 0 (drain_secs * 1000)"

definition manager_shutdown ::
  "(nat \<Rightarrow> nat \<times> nat) \<Rightarrow> (nat \<Rightarrow> process) \<Rightarrow> shutdown_manager \<Rightarrow> (shutdown_manager \<times> nat) \<times> shutdown_result" where
  "manager_shutdown ops proc m =
    (let m1 = m\<lparr>initiated := True\<rparr>;
         drained = (if 0 < in_flight_count m1 then fst (drain ops (drain_timeout_secs m1)) else 0)
     in ((m1, drained), shutdown_handler (sm_db_type m1) (proc drained) (sm_timeout_secs m1)))"

section \<open>Shutdown of a child process\<close>

datatype shutdown_strategy = PostgresGraceful | RedisGraceful | GenericGraceful

fun strategy_display :: "shutdown_strategy \<Rightarrow> string" where
  "strategy_display PostgresGraceful = ''postgres''"
| "strategy_display RedisGraceful = ''redis''"
| "strategy_display GenericGraceful = ''generic''"

definition strategy_from_str :: "string \<Rightarrow> shutdown_strategy" where
  "strategy_from_str s =
    (let l = to_lowercase s in
     if l = ''postgres'' \<or> l = ''postgresql'' \<or> l = ''pg'' then PostgresGraceful
     else if l = ''redis'' then RedisGraceful
     else GenericGraceful)"

definition strategy_from_env :: "env \<Rightarrow> shutdown_strategy" where
  "strategy_from_env env = strategy_from_str (env_str env ''SHUTDOWN_STRATEGY'' ''generic'')"

definition default_timeout :: "env \<Rightarrow> nat" where
  "default_timeout env = env_uint 64 env ''SHUTDOWN_TIMEOUT_SECS'' 30"

definition drain_timeout :: "env \<Rightarrow> nat" where
  "drain_timeout env = env_uint 64 env ''SHIM_DRAIN_TIMEOUT_SECS'' 30"

fun to_database_type :: "shutdown_strategy \<Rightarrow> database_type" where
  "to_database_type PostgresGraceful = Postgres"
| "to_database_type RedisGraceful = Redis"
| "to_database_type GenericGraceful = Generic"

definition wait_secs :: "shutdown_strategy \<Rightarrow> nat \<Rightarrow> nat" where
  "wait_secs st timeout_secs =
    (case st of GenericGraceful \<Rightarrow> timeout_secs | _ \<Rightarrow> timeout_secs * 80 div 100)"

definition wait_line :: "shutdown_strategy \<Rightarrow> nat \<Rightarrow> string" where
  "wait_line st timeout_secs =
    (case st of
       PostgresGraceful \<Rightarrow>
         ''[2] Waiting for Postgres smart shutdown (up to '' @ show_nat (wait_secs st timeout_secs) @ ''s)''
     | RedisGraceful \<Rightarrow> ''[2] Waiting for Redis RDB save (up to '' @ show_nat (wait_secs st timeout_secs) @ ''s)''
     | GenericGraceful \<Rightarrow> ''[2] Waiting '' @ show_nat timeout_secs @ ''s for graceful exit'')"

definition graceful_shutdown :: "shutdown_strategy \<Rightarrow> process \<Rightarrow> nat \<Rightarrow> string + shutdown_result" where
  "graceful_shutdown st p timeout_secs =
    (if pid p = 0 then Inl ''child process has no valid PID''
     else
       (let db = to_database_type st;
            log1 = [term_line ''[1]'' p @ '' ('' @ strategy_display st @ '')'']
        in case term_error p of
             Some e \<Rightarrow> Inr (result_of db 0 0 False (log1 @ [''  SIGTERM failed: '' @ e]))
           | None \<Rightarrow>
               (let log2 = log1 @ [wait_line st timeout_secs];
                    (t1, ended) = poll_while (alive_at p) 0 (wait_secs st timeout_secs * 1000)
                in if \<not> alive_at p t1 then
                     Inr (result_of db t1 1 True (log2 @ [''[3] Process exited gracefully'']))
                   else if ended then
                     Inr (result_of db t1 1 True (log2 @ [''[3] Process exited during wait period'']))
                   else
                     (let log3 = log2 @ [''[3] Timeout reached, sending SIGKILL''];
                          t2 = t1 + 500;
                          clean = (\<not> alive_killed_at p t2)
                      in Inr (result_of db t2 (1 + kill_count p) clean
                           (log3 @ [if clean then ''[3] Process killed by SIGKILL''
                                    else ''[3] Process did not respond to SIGKILL'']))))))"

section \<open>Waiting ends\<close>

lemma poll_while_spec:
  "t \<le> deadline \<Longrightarrow>
    t \<le> fst (poll_while c t deadline) \<and> fst (poll_while c t deadline) \<le> deadline
    \<and> (snd (poll_while c t deadline) \<longrightarrow> \<not> c (fst (poll_while c t deadline)))
    \<and> (\<not> snd (poll_while c t deadline) \<longrightarrow> fst (poll_while c t deadline) = deadline)"
proof (induction c t deadline rule: poll_while.induct)
  case (1 c t deadline)
  then show ?case
    by (cases "c t"; cases "t + 100 \<le> deadline") (auto simp: poll_while.simps [of c t deadline])
qed

lemma poll_while_bound: "fst (poll_while c t (t + w)) \<le> t + w"
  using poll_while_spec [of t "t + w" c] by simp

text \<open>A condition that stays false once it is false is noticed within one polling interval.\<close>

lemma poll_while_notices:
  assumes "\<not> c d" "\<And>x. d \<le> x \<Longrightarrow> \<not> c x" "t \<le> d" "d + 100 \<le> deadline"
  shows "snd (poll_while c t deadline) \<and> fst (poll_while c t deadline) < d + 100"
  using assms(3,4)
proof (induction "d + 100 - t" arbitrary: t rule: less_induct)
  case less
  show ?case
  proof (cases "c t")
    case False
    then show ?thesis
      using less.prems by (simp add: poll_while.simps [of c t])
  next
    case True
    then have td: "t < d"
      using assms(2) [of t] by force
    have step: "poll_while c t deadline = poll_while c (t + 100) deadline"
      using True less.prems td by (simp add: poll_while.simps [of c t])
    show ?thesis
    proof (cases "t + 100 \<le> d")
      case True
      then show ?thesis
        using less.hyps [of "t + 100"] less.prems td step by simp
    next
      case False
      then have "\<not> c (t + 100)"
        using assms(2) [of "t + 100"] by simp
      then show ?thesis
        using step td by (simp add: poll_while.simps [of c "t + 100"])
    qed
  qed
qed

section \<open>Bounds\<close>

lemma result_of_sel [simp]:
  "clean_exit (result_of db t n c lg) = c" "duration_ms (result_of db t n c lg) = t"
  "signals_sent (result_of db t n c lg) = n" "sr_db_type (result_of db t n c lg) = db"
  "operations_completed (result_of db t n c lg) = 0" "operations_total (result_of db t n c lg) = 0"
  by (simp_all add: result_of_def)

lemma postgres_bound:
  "duration_ms (postgres_shutdown p secs) \<le> secs * 1000 \<and> signals_sent (postgres_shutdown p secs) \<le> 1"
proof -
  let ?t = "secs div 4 * 1000"
  have "fst (poll_while (alive_at p) (?t + ?t) (?t + ?t + secs div 2 * 1000)) \<le> ?t + ?t + secs div 2 * 1000"
    by (rule poll_while_bound)
  moreover have "?t + ?t + secs div 2 * 1000 \<le> secs * 1000"
    by linarith
  ultimately show ?thesis
    by (auto simp: postgres_shutdown_def term_failed_def Let_def split: option.split)
qed

lemma redis_bound:
  "duration_ms (redis_shutdown p secs) \<le> secs * 1000 \<and> signals_sent (redis_shutdown p secs) \<le> 1"
proof -
  let ?t = "secs div 3 * 1000"
  have "fst (poll_while (alive_at p) ?t (?t + secs * 2 div 3 * 1000)) \<le> ?t + secs * 2 div 3 * 1000"
    by (rule poll_while_bound)
  moreover have "?t + secs * 2 div 3 * 1000 \<le> secs * 1000"
    by linarith
  ultimately show ?thesis
    by (auto simp: redis_shutdown_def term_failed_def Let_def split: option.split)
qed

lemma generic_bound:
  "(duration_ms (generic_shutdown p secs) \<le> secs * 1000
    \<or> duration_ms (generic_shutdown p secs) = secs * 1000 + 500 \<and> alive_at p (secs * 1000))
   \<and> signals_sent (generic_shutdown p secs) \<le> 2"
proof -
  let ?t = "fst (poll_while (alive_at p) 0 (secs * 1000))"
  have "?t \<le> secs * 1000" "\<not> alive_at p ?t \<or> ?t = secs * 1000"
    using poll_while_spec [of 0 "secs * 1000" "alive_at p"] by auto
  then show ?thesis
    by (auto simp: generic_shutdown_def term_failed_def kill_count_def Let_def split: option.split)
qed

text \<open>C15: Every shutdown returns, and in time: whatever the process and the other tasks do, the
  drain phase takes at most the drain timeout, and the sequence of the handler at most
  the shutdown timeout, with one exception: the generic handler takes exactly half a second more when the process
  is still there at the timeout and has to be killed.  The handlers for PostgreSQL and Redis send at
  most one signal, the generic one at most two.\<close>

theorem manager_shutdown_in_time:
  assumes "manager_shutdown ops proc m = ((m', drained), r)"
  shows "initiated m' \<and> drained \<le> drain_timeout_secs m * 1000
    \<and> (duration_ms r \<le> sm_timeout_secs m * 1000
      \<or> sm_db_type m = Generic \<and> alive_at (proc drained) (sm_timeout_secs m * 1000)
        \<and> duration_ms r = sm_timeout_secs m * 1000 + 500)
    \<and> signals_sent r \<le> (if sm_db_type m = Generic then 2 else 1)"
proof -
  have "fst (drain ops (drain_timeout_secs m)) \<le> drain_timeout_secs m * 1000"
    using poll_while_bound [of _ 0 "drain_timeout_secs m * 1000"] by (simp add: drain_def)
  then have run: "initiated m' \<and> drained \<le> drain_timeout_secs m * 1000
      \<and> r = shutdown_handler (sm_db_type m) (proc drained) (sm_timeout_secs m)"
    using assms by (auto simp: manager_shutdown_def Let_def in_flight_count_def split: if_splits)
  have "(duration_ms (shutdown_handler db p secs) \<le> secs * 1000
      \<or> db = Generic \<and> alive_at p (secs * 1000) \<and> duration_ms (shutdown_handler db p secs) = secs * 1000 + 500)
    \<and> signals_sent (shutdown_handler db p secs) \<le> (if db = Generic then 2 else 1)" for db p secs
    using postgres_bound [of p secs] redis_bound [of p secs] generic_bound [of p secs]
    by (cases db) (auto simp: shutdown_handler_def)
  from run this [of "sm_db_type m" "proc drained" "sm_timeout_secs m"] show ?thesis
    by simp
qed

definition sample_process :: "nat \<Rightarrow> process" where
  "sample_process d = \<lparr>pid = 42, term_error = None, kill_error = None, alive_at = (\<lambda>t. t < d), alive_killed_at = (\<lambda>_. False)\<rparr>"

theorem manager_shutdown_in_time_witness:
  "duration_ms (snd (manager_shutdown (\<lambda>t. (3, t div 1000)) (\<lambda>_. sample_process 60000)
     ((shutdown_manager_new (\<lambda>_. None) Generic 30)\<lparr>in_flight_total := 3\<rparr>))) \<le> 30500"
proof -
  obtain m' d r where run: "manager_shutdown (\<lambda>t. (3, t div 1000)) (\<lambda>_. sample_process 60000)
     ((shutdown_manager_new (\<lambda>_. None) Generic 30)\<lparr>in_flight_total := 3\<rparr>) = ((m', d), r)"
    by (metis surj_pair)
  show ?thesis
    using manager_shutdown_in_time [OF run] run by (auto simp: shutdown_manager_new_def)
qed

section \<open>What the result says\<close>

lemma poll_while_stuck:
  assumes "\<And>x. c x" "t \<le> deadline"
  shows "poll_while c t deadline = (deadline, False)"
  using poll_while_spec [of t deadline c] assms(2) assms(1) by (metis prod.collapse)

text \<open>The shutdown of a child process.  It fails only for a child without process id.  A
  child that exits within the waiting time is reported clean, with one signal, within 100 ms of
  its exit.  A child that does not exit on its own is sent \<^verbatim>\<open>SIGKILL\<close>, and if that works
  it is reported as a clean exit too.\<close>

theorem graceful_shutdown_outcome:
  assumes "term_error p = None"
  shows "(pid p = 0 \<longleftrightarrow> graceful_shutdown st p secs = Inl ''child process has no valid PID'')
    \<and> (\<forall>d. pid p \<noteq> 0 \<and> (\<forall>t\<ge>d. \<not> alive_at p t) \<and> d + 100 \<le> wait_secs st secs * 1000 \<longrightarrow>
        (\<exists>r. graceful_shutdown st p secs = Inr r \<and> clean_exit r \<and> signals_sent r = 1 \<and> duration_ms r < d + 100))
    \<and> (pid p \<noteq> 0 \<and> (\<forall>t. alive_at p t) \<and> kill_error p = None \<longrightarrow>
        (\<exists>r. graceful_shutdown st p secs = Inr r \<and> signals_sent r = 2
          \<and> duration_ms r = wait_secs st secs * 1000 + 500 \<and> (clean_exit r \<longleftrightarrow> \<not> alive_killed_at p (duration_ms r))))"
proof (intro conjI allI impI; (elim conjE)?)
  show "pid p = 0 \<longleftrightarrow> graceful_shutdown st p secs = Inl ''child process has no valid PID''"
    using assms by (auto simp: graceful_shutdown_def Let_def split: prod.splits if_splits)
next
  fix d
  assume d: "pid p \<noteq> 0" "\<forall>t\<ge>d. \<not> alive_at p t" "d + 100 \<le> wait_secs st secs * 1000"
  obtain t e where te: "poll_while (alive_at p) 0 (wait_secs st secs * 1000) = (t, e)"
    by (cases "poll_while (alive_at p) 0 (wait_secs st secs * 1000)")
  have "e" "t < d + 100"
    using poll_while_notices [of "alive_at p" d 0 "wait_secs st secs * 1000"] d te by auto
  moreover from this have "\<not> alive_at p t"
    using poll_while_spec [of 0 "wait_secs st secs * 1000" "alive_at p"] te by auto
  ultimately show "\<exists>r. graceful_shutdown st p secs = Inr r \<and> clean_exit r \<and> signals_sent r = 1 \<and> duration_ms r < d + 100"
    using d(1) assms te by (simp add: graceful_shutdown_def Let_def)
next
  assume "pid p \<noteq> 0" "\<forall>t. alive_at p t" "kill_error p = None"
  then show "\<exists>r. graceful_shutdown st p secs = Inr r \<and> signals_sent r = 2
      \<and> duration_ms r = wait_secs st secs * 1000 + 500 \<and> (clean_exit r \<longleftrightarrow> \<not> alive_killed_at p (duration_ms r))"
    using assms poll_while_stuck [of "alive_at p" 0]
    by (simp add: graceful_shutdown_def Let_def kill_count_def)
qed

theorem graceful_shutdown_outcome_witness:
  "(\<exists>r. graceful_shutdown PostgresGraceful (sample_process 2000) 10 = Inr r \<and> clean_exit r \<and> signals_sent r = 1
      \<and> duration_ms r < 2100)"
  using graceful_shutdown_outcome [of "sample_process 2000" PostgresGraceful 10]
  by (simp add: sample_process_def wait_secs_def) (auto dest!: spec [of _ 2000])

text \<open>The handlers for PostgreSQL and Redis never send \<^verbatim>\<open>SIGKILL\<close>: a process that does not
  exit is still running when they return, unlike with the generic handler, which kills it.\<close>

theorem handlers_leave_running:
  assumes "term_error p = None" "kill_error p = None" "\<forall>t. alive_at p t"
  shows "signals_sent (shutdown_handler db p secs) = (if db = Generic then 2 else 1)
    \<and> \<not> clean_exit (shutdown_handler db p secs)
    \<and> (db \<noteq> Generic \<longrightarrow> alive_at p (duration_ms (shutdown_handler db p secs)))"
  using assms
  by (cases db) (simp_all add: shutdown_handler_def postgres_shutdown_def redis_shutdown_def generic_shutdown_def
      kill_count_def Let_def)

theorem handlers_leave_running_witness:
  "signals_sent (shutdown_handler Postgres ((sample_process 5)\<lparr>alive_at := \<lambda>_. True\<rparr>) 8) = 1"
  using handlers_leave_running [of "(sample_process 5)\<lparr>alive_at := \<lambda>_. True\<rparr>" Postgres 8]
  by (simp add: sample_process_def)

end
