(* ===== verification/Dedup.thy ===== *)
theory Dedup
  imports Prelude
begin

text \<open>
  The contract of a deduplicator: a component that lets the calls with one key through only when its window
  has passed since the last one.  The clients are the alert manager of \<^verbatim>\<open>shim-core\<close> and \<^verbatim>\<open>alerting-shim\<close>.
\<close>

text \<open>The calls of a run that pass, with their times and keys.\<close>

fun admissions :: "('op \<Rightarrow> 's \<Rightarrow> (time \<times> 'k) option) \<Rightarrow> ('op \<Rightarrow> 's \<Rightarrow> 's) \<Rightarrow> 'op list \<Rightarrow> 's \<Rightarrow> (time \<times> 'k) list" where
  "admissions admit step [] s = []"
| "admissions admit step (x # xs) s =
    (case admit x s of None \<Rightarrow> [] | Some p \<Rightarrow> [p]) @ admissions admit step xs (step x s)"

locale deduplicator =
  fixes admit :: "'op \<Rightarrow> 's \<Rightarrow> (time \<times> 'k) option"
    and step :: "'op \<Rightarrow> 's \<Rightarrow> 's"
    and at_time :: "'op \<Rightarrow> time"
    and seen :: "'s \<Rightarrow> 'k \<Rightarrow> time option"
    and win :: "'s \<Rightarrow> time"
    and inv :: "'s \<Rightarrow> bool"
  assumes inv_step: "inv s \<Longrightarrow> inv (step x s)"
    and win_step: "inv s \<Longrightarrow> win (step x s) = win s"
    and win_pos: "inv s \<Longrightarrow> 0 < win s"
    and admit_time: "admit x s = Some p \<Longrightarrow> fst p = at_time x"
    and admit_old: "inv s \<Longrightarrow> admit x s = Some p \<Longrightarrow> seen s (snd p) = Some u \<Longrightarrow> u + win s \<le> fst p"
    and admit_seen: "inv s \<Longrightarrow> admit x s = Some p \<Longrightarrow> seen (step x s) = (seen s)(snd p \<mapsto> fst p)"
    and reject_seen: "inv s \<Longrightarrow> admit x s = None \<Longrightarrow> seen s k = Some u \<Longrightarrow>
      seen (step x s) k = Some u \<or> u + win s \<le> at_time x"
begin

lemma admissions_time: "p \<in> set (admissions admit step xs s) \<Longrightarrow> fst p \<in> at_time ` set xs"
proof (induction xs arbitrary: s)
  case (Cons x xs)
  then show ?case
    using admit_time [of x s p] by (cases "admit x s") auto
qed simp

text \<open>What passes after a state is a window later than what that state has seen.\<close>

lemma admissions_after:
  "inv s \<Longrightarrow> sorted (map at_time xs) \<Longrightarrow> p \<in> set (admissions admit step xs s) \<Longrightarrow>
    seen s (snd p) = Some u \<Longrightarrow> u + win s \<le> fst p"
proof (induction xs arbitrary: s u)
  case (Cons x xs)
  have IH: "u' + win s \<le> fst p" if "p \<in> set (admissions admit step xs (step x s))" "seen (step x s) (snd p) = Some u'" for u'
    using Cons.IH [of "step x s" u'] that Cons.prems(1,2) by (simp add: inv_step win_step)
  consider "admit x s = Some p" | "p \<in> set (admissions admit step xs (step x s))"
    using Cons.prems(3) by (auto split: option.splits)
  then show ?case
  proof cases
    case 1
    then show ?thesis
      by (rule admit_old [OF Cons.prems(1) _ Cons.prems(4)])
  next
    case later: 2
    show ?thesis
    proof (cases "admit x s")
      case None
      have "at_time x \<le> fst p"
        using admissions_time [OF later] Cons.prems(2) by auto
      then show ?thesis
        using reject_seen [OF Cons.prems(1) None Cons.prems(4)] IH [OF later] by auto
    next
      case (Some q)
      then show ?thesis
        using IH [OF later] admit_seen [OF Cons.prems(1) Some] admit_old [OF Cons.prems(1) Some, of u]
          Cons.prems(4) win_pos [OF Cons.prems(1)]
        by (cases "snd p = snd q") fastforce+
    qed
  qed
qed simp

lemma admissions_spaced:
  "inv s \<Longrightarrow> sorted (map at_time xs) \<Longrightarrow>
    sorted_wrt (\<lambda>p q. snd p = snd q \<longrightarrow> fst p + win s \<le> fst q) (admissions admit step xs s)"
proof (induction xs arbitrary: s)
  case (Cons x xs)
  have IH: "sorted_wrt (\<lambda>p q. snd p = snd q \<longrightarrow> fst p + win s \<le> fst q) (admissions admit step xs (step x s))"
    using Cons.IH [of "step x s"] Cons.prems by (simp add: inv_step win_step)
  have "fst p + win s \<le> fst q" if "admit x s = Some p" "q \<in> set (admissions admit step xs (step x s))" "snd p = snd q" for p q
    using admissions_after [of "step x s" xs q "fst p"] Cons.prems that admit_seen [OF Cons.prems(1) that(1)]
    by (simp add: inv_step win_step)
  then show ?case
    using IH by (auto split: option.split)
qed simp

end

end
