(* ===== verification/Alerting.thy ===== *)
theory Alerting
  imports Bus Dedup
begin

text \<open>
  \<^verbatim>\<open>shim-core/src/alerting.rs\<close>: the alert manager that receives every event of the bus, filters
  and deduplicates them, and forwards them to web hooks.  Delivery is the
  parameter \<^verbatim>\<open>deliver\<close>, from a web hook and a payload to success, which \<^verbatim>\<open>send_webhook\<close> at the end provides; the debug output of an
  event (\<^verbatim>\<open>dbg\<close>) and the RFC 3339 form of a time (\<^verbatim>\<open>rfc\<close>) are parameters as well.  The clock
  is read once per event.
\<close>

section \<open>Data\<close>

record alert =
  alert_id :: uuid
  alert_source :: string
  alert_severity_of :: severity
  alert_title :: string
  alert_message :: string
  alert_timestamp :: time
  alert_correlation :: "string option"
  alert_labels :: "(string, string) hmap"

definition alert_new :: "uuid \<Rightarrow> time \<Rightarrow> string \<Rightarrow> severity \<Rightarrow> string \<Rightarrow> string \<Rightarrow> alert" where
  "alert_new uid now src sev title msg =
    \<lparr>alert_id = uid, alert_source = src, alert_severity_of = sev, alert_title = title,
     alert_message = msg, alert_timestamp = now, alert_correlation = None, alert_labels = []\<rparr>"

definition alert_with_correlation :: "string \<Rightarrow> alert \<Rightarrow> alert" where
  "alert_with_correlation i a = a\<lparr>alert_correlation := Some i\<rparr>"

definition alert_with_label :: "string \<Rightarrow> string \<Rightarrow> alert \<Rightarrow> alert" where
  "alert_with_label k v a = a\<lparr>alert_labels := hm_insert k v (alert_labels a)\<rparr>"

datatype alert_severity = AInfo | AWarning | AError | ACritical

fun to_alert_severity :: "severity \<Rightarrow> alert_severity" where
  "to_alert_severity Info = AInfo"
| "to_alert_severity Notice = AInfo"
| "to_alert_severity Warning = AWarning"
| "to_alert_severity Error = AError"
| "to_alert_severity Critical = ACritical"

fun alert_severity_display :: "alert_severity \<Rightarrow> string" where
  "alert_severity_display AInfo = ''info''"
| "alert_severity_display AWarning = ''warning''"
| "alert_severity_display AError = ''error''"
| "alert_severity_display ACritical = ''critical''"

fun alert_rank :: "alert_severity \<Rightarrow> nat" where
  "alert_rank AInfo = 0"
| "alert_rank AWarning = 1"
| "alert_rank AError = 2"
| "alert_rank ACritical = 3"

record alert_manager_alert =
  ama_id :: uuid
  ama_labels :: "(string, string) hmap"
  ama_annotations :: "(string, string) hmap"
  ama_severity :: alert_severity
  ama_source :: string
  ama_correlation :: "uuid option"
  ama_timestamp :: string
  ama_event_type :: string

record webhook_payload =
  wp_group :: string
  wp_alerts :: "alert_manager_alert list"
  wp_group_labels :: "(string, string) hmap"
  wp_common_labels :: "(string, string) hmap"
  wp_external_url :: string

record alert_webhook =
  wh_name :: string
  wh_url :: string
  wh_min_severity :: alert_severity
  wh_headers :: "(string, string) hmap"
  wh_group :: "string option"

definition accepts :: "alert_webhook \<Rightarrow> alert_severity \<Rightarrow> bool" where
  "accepts w sev \<longleftrightarrow> alert_rank (wh_min_severity w) \<le> alert_rank sev"

record alert_manager =
  webhooks :: "alert_webhook list"
  am_min_severity :: severity
  external_url :: string
  dedup_window :: time
  dedup_cache :: "(string, time) hmap"
  alerts_forwarded :: nat
  alerts_dropped :: nat
  delivery_failures :: nat

definition alert_manager_new :: "alert_webhook list \<Rightarrow> alert_manager" where
  "alert_manager_new ws =
    \<lparr>webhooks = ws, am_min_severity = Info, external_url = ''http://localhost:9093'',
     dedup_window = 300 * second, dedup_cache = [], alerts_forwarded = 0, alerts_dropped = 0,
     delivery_failures = 0\<rparr>"

definition with_min_severity :: "severity \<Rightarrow> alert_manager \<Rightarrow> alert_manager" where
  "with_min_severity sev m = m\<lparr>am_min_severity := sev\<rparr>"

definition with_external_url :: "string \<Rightarrow> alert_manager \<Rightarrow> alert_manager" where
  "with_external_url u m = m\<lparr>external_url := u\<rparr>"

definition with_dedup_window :: "time \<Rightarrow> alert_manager \<Rightarrow> alert_manager" where
  "with_dedup_window w m = m\<lparr>dedup_window := w\<rparr>"

section \<open>Processing an event\<close>

definition event_to_alert ::
  "('f event_type \<Rightarrow> string) \<Rightarrow> (time \<Rightarrow> string) \<Rightarrow> 'f shim_event \<Rightarrow> alert_manager_alert" where
  "event_to_alert dbg rfc e =
    \<lparr>ama_id = ev_id e,
     ama_labels = [(''source'', source e), (''severity'', severity_str e), (''event_type'', event_name e)],
     ama_annotations =
       [(''summary'', ''['' @ severity_str e @ ''] '' @ event_name e), (''description'', dbg (event e))],
     ama_severity = to_alert_severity (severity e), ama_source = source e,
     ama_correlation = correlation_id e, ama_timestamp = rfc (timestamp e),
     ama_event_type = event_name e\<rparr>"

definition build_webhook_payload :: "alert_manager \<Rightarrow> alert_manager_alert \<Rightarrow> alert_webhook \<Rightarrow> webhook_payload" where
  "build_webhook_payload m a w =
    (let grp = (case wh_group w of Some g \<Rightarrow> g | None \<Rightarrow> ''shim-alerts'') in
     \<lparr>wp_group = grp, wp_alerts = [a], wp_group_labels = [(''group'', grp)],
      wp_common_labels = [(''source'', ama_source a), (''severity'', alert_severity_display (ama_severity a))],
      wp_external_url = external_url m\<rparr>)"

definition dedup_key :: "'f shim_event \<Rightarrow> string" where
  "dedup_key e = source e @ '':'' @ event_name e @ '':'' @ severity_str e"

definition is_duplicate :: "time \<Rightarrow> string \<Rightarrow> alert_manager \<Rightarrow> bool" where
  "is_duplicate now k m =
    (case map_of (dedup_cache m) k of Some last_seen \<Rightarrow> max 0 (now - last_seen) < dedup_window m | None \<Rightarrow> False)"

fun forward ::
  "(alert_webhook \<Rightarrow> webhook_payload \<Rightarrow> bool) \<Rightarrow> alert_manager_alert \<Rightarrow> alert_webhook list \<Rightarrow> alert_manager
   \<Rightarrow> alert_manager" where
  "forward deliver a [] m = m"
| "forward deliver a (w # ws) m =
    forward deliver a ws
      (if deliver w (build_webhook_payload m a w) then m\<lparr>alerts_forwarded := alerts_forwarded m + 1\<rparr>
       else m\<lparr>delivery_failures := delivery_failures m + 1\<rparr>)"

definition drop_alert :: "alert_manager \<Rightarrow> alert_manager" where
  "drop_alert m = m\<lparr>alerts_dropped := alerts_dropped m + 1\<rparr>"

text \<open>The result is the manager after the call and the web hooks to which delivery was tried.\<close>

definition process_event ::
  "('f event_type \<Rightarrow> string) \<Rightarrow> (time \<Rightarrow> string) \<Rightarrow> (alert_webhook \<Rightarrow> webhook_payload \<Rightarrow> bool) \<Rightarrow> time
   \<Rightarrow> 'f shim_event \<Rightarrow> alert_manager \<Rightarrow> alert_manager \<times> alert_webhook list" where
  "process_event dbg rfc deliver now e m =
    (if \<not> is_alertable e then (drop_alert m, [])
     else if severity_rank (severity e) < severity_rank (am_min_severity m) then (drop_alert m, [])
     else if is_duplicate now (dedup_key e) m then (drop_alert m, [])
     else
       (let m1 = m\<lparr>dedup_cache := hm_insert (dedup_key e) now (dedup_cache m)\<rparr>;
            a = event_to_alert dbg rfc e;
            matching = filter (\<lambda>w. accepts w (ama_severity a)) (webhooks m1)
        in if matching = [] then (drop_alert m1, [])
           else (forward deliver a matching m1, matching)))"

definition convert_event ::
  "('f event_type \<Rightarrow> string) \<Rightarrow> (time \<Rightarrow> string) \<Rightarrow> 'f shim_event \<Rightarrow> alert_manager \<Rightarrow> webhook_payload" where
  "convert_event dbg rfc e m =
     build_webhook_payload m (event_to_alert dbg rfc e)
       (case webhooks m of
          w # _ \<Rightarrow> w
        | [] \<Rightarrow> \<lparr>wh_name = ''default'', wh_url = ''http://localhost:9093'', wh_min_severity = AInfo,
                 wh_headers = [], wh_group = None\<rparr>)"

definition cleanup_dedup_cache :: "time \<Rightarrow> alert_manager \<Rightarrow> alert_manager" where
  "cleanup_dedup_cache now m =
     m\<lparr>dedup_cache := filter (\<lambda>(_, ts). max 0 (now - ts) < dedup_window m) (dedup_cache m)\<rparr>"

text \<open>One iteration of the background loop, on what the bus subscription returns; \<^verbatim>\<open>None\<close> is
  the end of the loop.\<close>

definition alert_loop ::
  "('f event_type \<Rightarrow> string) \<Rightarrow> (time \<Rightarrow> string) \<Rightarrow> (alert_webhook \<Rightarrow> webhook_payload \<Rightarrow> bool) \<Rightarrow> time
   \<Rightarrow> recv_error + 'f shim_event \<Rightarrow> alert_manager \<Rightarrow> alert_manager option" where
  "alert_loop dbg rfc deliver now result m =
    (case result of
       Inr e \<Rightarrow> Some (fst (process_event dbg rfc deliver now e m))
     | Inl (Lagged n) \<Rightarrow> Some m
     | Inl Closed \<Rightarrow> None)"

section \<open>Deduplication\<close>

definition admits :: "time \<Rightarrow> 'f shim_event \<Rightarrow> alert_manager \<Rightarrow> bool" where
  "admits now e m \<longleftrightarrow> is_alertable e \<and> severity_rank (am_min_severity m) \<le> severity_rank (severity e)
     \<and> \<not> is_duplicate now (dedup_key e) m"

lemma forward_keeps [simp]:
  "dedup_cache (forward deliver a ws m) = dedup_cache m" "dedup_window (forward deliver a ws m) = dedup_window m"
  "alerts_dropped (forward deliver a ws m) = alerts_dropped m" "webhooks (forward deliver a ws m) = webhooks m"
  "am_min_severity (forward deliver a ws m) = am_min_severity m" "external_url (forward deliver a ws m) = external_url m"
  by (induction ws arbitrary: m) simp_all

lemma forward_counts:
  "alerts_forwarded (forward deliver a ws m) + delivery_failures (forward deliver a ws m)
    = alerts_forwarded m + delivery_failures m + length ws"
  by (induction ws arbitrary: m) simp_all

lemma process_event_keeps [simp]:
  "dedup_window (fst (process_event dbg rfc deliver now e m)) = dedup_window m"
  "am_min_severity (fst (process_event dbg rfc deliver now e m)) = am_min_severity m"
  "webhooks (fst (process_event dbg rfc deliver now e m)) = webhooks m"
  by (simp_all add: process_event_def drop_alert_def Let_def)

lemma process_event_cache:
  "dedup_cache (fst (process_event dbg rfc deliver now e m)) =
    (if admits now e m then hm_insert (dedup_key e) now (dedup_cache m) else dedup_cache m)"
  by (simp add: process_event_def admits_def drop_alert_def Let_def)

lemma process_event_attempts:
  "snd (process_event dbg rfc deliver now e m) =
    (if admits now e m then filter (\<lambda>w. accepts w (to_alert_severity (severity e))) (webhooks m) else [])"
  by (auto simp: process_event_def admits_def event_to_alert_def Let_def)

datatype 'f alert_op = AEvent time "'f shim_event" | ACleanup time

fun alert_op_time :: "'f alert_op \<Rightarrow> time" where
  "alert_op_time (AEvent now e) = now"
| "alert_op_time (ACleanup now) = now"

fun alert_step ::
  "('f event_type \<Rightarrow> string) \<Rightarrow> (time \<Rightarrow> string) \<Rightarrow> (alert_webhook \<Rightarrow> webhook_payload \<Rightarrow> bool) \<Rightarrow> 'f alert_op
   \<Rightarrow> alert_manager \<Rightarrow> alert_manager" where
  "alert_step dbg rfc deliver (AEvent now e) m = fst (process_event dbg rfc deliver now e m)"
| "alert_step dbg rfc deliver (ACleanup now) m = cleanup_dedup_cache now m"

text \<open>The time and key of an event that passes the filters.\<close>

fun alert_admit :: "'f alert_op \<Rightarrow> alert_manager \<Rightarrow> (time \<times> string) option" where
  "alert_admit (AEvent now e) m = (if admits now e m then Some (now, dedup_key e) else None)"
| "alert_admit (ACleanup now) m = None"

lemma cleanup_cache:
  assumes "hm_wf (dedup_cache m)"
  shows "hm_wf (dedup_cache (cleanup_dedup_cache now m))"
    "map_of (dedup_cache (cleanup_dedup_cache now m)) k =
      (case map_of (dedup_cache m) k of Some t \<Rightarrow> if max 0 (now - t) < dedup_window m then Some t else None | None \<Rightarrow> None)"
proof -
  show "hm_wf (dedup_cache (cleanup_dedup_cache now m))"
    using assms by (simp add: cleanup_dedup_cache_def)
  show "map_of (dedup_cache (cleanup_dedup_cache now m)) k =
      (case map_of (dedup_cache m) k of Some t \<Rightarrow> if max 0 (now - t) < dedup_window m then Some t else None | None \<Rightarrow> None)"
    unfolding cleanup_dedup_cache_def
    using map_of_filter_val [OF assms, of "\<lambda>_ t. max 0 (now - t) < dedup_window m" k] by (simp add: case_prod_beta)
qed

definition dedup_ok :: "alert_manager \<Rightarrow> bool" where
  "dedup_ok m = (0 < dedup_window m \<and> hm_wf (dedup_cache m))"

interpretation alerts: deduplicator alert_admit "alert_step dbg rfc deliver" alert_op_time
  "\<lambda>m. map_of (dedup_cache m)" dedup_window dedup_ok
proof (unfold_locales, goal_cases)
  case (1 m x)
  then show ?case
    by (cases x) (simp_all add: dedup_ok_def process_event_cache cleanup_cache cleanup_dedup_cache_def)
next
  case (2 m x)
  then show ?case
    by (cases x) (simp_all add: cleanup_dedup_cache_def)
next
  case (5 m x p u)
  then show ?case
    by (cases x) (auto simp: dedup_ok_def admits_def is_duplicate_def max_def split: if_splits)
next
  case (6 m x p)
  then show ?case
    by (cases x) (auto simp: process_event_cache split: if_splits)
next
  case (7 m x k u)
  then show ?case
    by (cases x) (auto simp: dedup_ok_def process_event_cache cleanup_cache max_def split: if_splits)
qed (auto simp: dedup_ok_def elim: alert_admit.elims split: if_splits)

text \<open>C23: Alerts are deduplicated: over any run of events and cache clean-ups, two events with the
  same source, name and severity that both reach the web hooks are at least the
  deduplication window apart, and delivery is tried for no other event.\<close>

theorem alerts_deduplicated:
  assumes "sorted (map alert_op_time ops)" "0 < dedup_window m" "dedup_cache m = []"
  shows "sorted_wrt (\<lambda>p q. snd p = snd q \<longrightarrow> fst p + dedup_window m \<le> fst q) (admissions alert_admit (alert_step dbg rfc deliver) ops m)
    \<and> (snd (process_event dbg rfc deliver now e m') \<noteq> [] \<longrightarrow> admits now e m')"
  using alerts.admissions_spaced [of m ops dbg rfc deliver] assms by (simp add: dedup_ok_def process_event_attempts)

definition sample_event :: "unit shim_event" where
  "sample_event = shim_event_new 1 0 ''queue-shim'' (BackupFailed ''db'' ''disk full'') Error"

theorem alerts_deduplicated_witness:
  "sorted_wrt (\<lambda>p q. snd p = snd q \<longrightarrow> fst p + 300 * second \<le> fst q)
     (admissions alert_admit (alert_step (\<lambda>_. []) (\<lambda>_. []) (\<lambda>_ _. True))
        [AEvent 0 sample_event, AEvent (10 * second) sample_event, ACleanup (400 * second), AEvent (500 * second) sample_event]
        (alert_manager_new []))"
  using alerts_deduplicated [of "[AEvent 0 sample_event, AEvent (10 * second) sample_event, ACleanup (400 * second),
        AEvent (500 * second) sample_event]" "alert_manager_new []" "\<lambda>_. []" "\<lambda>_. []" "\<lambda>_ _. True" 0 sample_event]
  by (simp add: alert_manager_new_def)

text \<open>Every event is accounted for: it is either dropped, or it is tried at each web hook that
  accepts its severity, and each try counts as forwarded or as failed.  The window
  starts before the delivery: when all tries fail, the same alert is dropped for the
  rest of the window, so a failed delivery loses the alert.\<close>

theorem alert_accounting:
  assumes "process_event dbg rfc deliver now e m = (m', tried)"
  shows "alerts_forwarded m' + delivery_failures m' = alerts_forwarded m + delivery_failures m + length tried
    \<and> alerts_dropped m' = alerts_dropped m + (if tried = [] then 1 else 0)
    \<and> (tried \<noteq> [] \<and> now \<le> later \<and> later < now + dedup_window m \<and> dedup_key e' = dedup_key e \<longrightarrow>
        process_event dbg rfc deliver' later e' m' = (drop_alert m', []))"
proof -
  have m': "m' = fst (process_event dbg rfc deliver now e m)" and tried: "tried = snd (process_event dbg rfc deliver now e m)"
    using assms by simp_all
  have counts: "alerts_forwarded m' + delivery_failures m' = alerts_forwarded m + delivery_failures m + length tried
    \<and> alerts_dropped m' = alerts_dropped m + (if tried = [] then 1 else 0)"
    unfolding m' tried by (auto simp: process_event_def drop_alert_def Let_def forward_counts)
  have "process_event dbg rfc deliver' later e' m' = (drop_alert m', [])"
    if "tried \<noteq> []" and time: "now \<le> later" "later < now + dedup_window m" and key: "dedup_key e' = dedup_key e"
  proof -
    have "admits now e m"
      using that(1) by (auto simp: tried process_event_attempts split: if_splits)
    then have "is_duplicate later (dedup_key e') m'"
      using time key by (simp add: m' is_duplicate_def process_event_cache)
    then show ?thesis
      by (simp add: process_event_def)
  qed
  then show ?thesis
    using counts by blast
qed

theorem alert_accounting_witness:
  "\<exists>m' tried. process_event (\<lambda>_. []) (\<lambda>_. []) (\<lambda>_ _. False) 0 sample_event
      (alert_manager_new [\<lparr>wh_name = ''ops'', wh_url = ''http://ops'', wh_min_severity = AWarning, wh_headers = [], wh_group = None\<rparr>])
      = (m', tried) \<and> length tried = 1 \<and> delivery_failures m' = 1
    \<and> process_event (\<lambda>_. []) (\<lambda>_. []) (\<lambda>_ _. True) second sample_event m' = (drop_alert m', [])"
proof -
  let ?m = "alert_manager_new [\<lparr>wh_name = ''ops'', wh_url = ''http://ops'', wh_min_severity = AWarning, wh_headers = [], wh_group = None\<rparr>]"
  obtain m' tried where run: "process_event (\<lambda>_. []) (\<lambda>_. []) (\<lambda>_ _. False) 0 sample_event ?m = (m', tried)"
    by (metis surj_pair)
  have len: "length tried = 1" and fails: "delivery_failures m' = 1"
    using run by (auto simp: process_event_def alert_manager_new_def sample_event_def shim_event_new_def is_alertable_def
        is_duplicate_def accepts_def event_to_alert_def Let_def)
  have "dedup_window ?m = 300 * second"
    by (simp add: alert_manager_new_def)
  then show ?thesis
    using alert_accounting [OF run, of second sample_event "\<lambda>_ _. True"] run len fails by auto
qed

section \<open>Sending\<close>

text \<open>What can happen to a request: the client cannot be built, sending fails, or an answer comes with its status, which the
  code does not look at.  The result is the error, if any.\<close>

datatype hook_reply = NoClient string | SendFailed string | Replied nat

record hook_request =
  hr_url :: string
  hr_headers :: "(string \<times> string) list"
  hr_body :: string

definition hook_request_for ::
  "((string, string) hmap \<Rightarrow> (string, string) hmap) \<Rightarrow> alert_webhook \<Rightarrow> string \<Rightarrow> hook_request" where
  "hook_request_for ord w body =
    \<lparr>hr_url = wh_url w, hr_headers = (''Content-Type'', ''application/json'') # hash_iter ord (wh_headers w), hr_body = body\<rparr>"

definition send_webhook ::
  "(webhook_payload \<Rightarrow> string + string) \<Rightarrow> ((string, string) hmap \<Rightarrow> (string, string) hmap) \<Rightarrow> (hook_request \<Rightarrow> hook_reply)
   \<Rightarrow> alert_webhook \<Rightarrow> webhook_payload \<Rightarrow> string option" where
  "send_webhook to_json ord post w p =
    (case to_json p of
       Inl e \<Rightarrow> Some (''serialization error: '' @ e)
     | Inr body \<Rightarrow>
         (case post (hook_request_for ord w body) of
            NoClient e \<Rightarrow> Some (''connection error: http client: '' @ e)
          | SendFailed e \<Rightarrow> Some (''connection error: webhook: '' @ e)
          | Replied code \<Rightarrow> None))"

text \<open>An alert that every web hook refuses counts as forwarded.\<close>

lemma refused_alert_forwarded:
  assumes "\<And>r. post r = Replied 500" and "\<And>p. \<exists>body. to_json p = Inr body"
  shows "alerts_forwarded (forward (\<lambda>w p. send_webhook to_json ord post w p = None) a ws m) = alerts_forwarded m + length ws"
proof (induction ws arbitrary: m)
  case (Cons w ws)
  have "send_webhook to_json ord post w p = None" for w p
    using assms(1) assms(2) [of p] by (auto simp: send_webhook_def)
  then show ?case
    using Cons.IH by simp
qed simp

end
