(* ===== verification/Wiring.thy ===== *)
theory Wiring
  imports Bus
begin

text \<open>
  \<^verbatim>\<open>shim-core/src/wiring.rs\<close>: the handlers that turn events of one shim into events for another
  and put them back on the same bus.  Each handler is a function from a received event to
  the emissions it makes; the health handler has a counter.  The pump delivers pending
  events one after the other to all handlers, as \<^verbatim>\<open>wire_all_handlers\<close> sets them up, and
  adds what they emit to the pending events; identifiers and times of new events are
  drawn from \<^verbatim>\<open>gen\<close>.  Subscriptions that lag behind and lose events are not modelled here.
\<close>

section \<open>Handlers\<close>

record health_failover_handler =
  failover_threshold :: nat
  unhealthy_count :: nat

definition health_failover_new :: "nat \<Rightarrow> health_failover_handler" where
  "health_failover_new threshold = \<lparr>failover_threshold = threshold, unhealthy_count = 0\<rparr>"

definition health_failover ::
  "'f event_type \<Rightarrow> health_failover_handler \<Rightarrow> health_failover_handler \<times> 'f emission list" where
  "health_failover evt h =
    (case evt of
       HealthStatusChanged previous current \<Rightarrow>
         (if current = ''unhealthy'' \<or> current = ''down'' then
            (let count = unhealthy_count h + 1 in
             if failover_threshold h \<le> count then
               (h\<lparr>unhealthy_count := 0\<rparr>,
                [(''failover-shim'', FailoverTriggered ''primary'' ''promoted'', Critical)])
             else (h\<lparr>unhealthy_count := count\<rparr>, []))
          else (h\<lparr>unhealthy_count := 0\<rparr>, []))
     | _ \<Rightarrow> (h, []))"

definition backup_encryption :: "'f event_type \<Rightarrow> 'f emission list" where
  "backup_encryption evt =
    (case evt of
       BackupCompleted nm size_bytes checksum \<Rightarrow>
         [(''encryption-shim'', EncryptionKeyRotated (''backup-'' @ nm) ''AES-256-GCM'', Info)]
     | _ \<Rightarrow> [])"

text \<open>The fan-in handler only writes to the log.\<close>

definition alert_fan_in :: "'f shim_event \<Rightarrow> string option" where
  "alert_fan_in e =
    (if is_alertable e
     then Some (''alert-fanin: ['' @ severity_str e @ ''] '' @ source e @ '' '' @ event_name e) else None)"

definition scheduler_backup :: "'f event_type \<Rightarrow> 'f emission list" where
  "scheduler_backup evt =
    (case evt of
       SchedulerTaskFired task_name schedule \<Rightarrow>
         (if contains task_name ''backup'' \<or> contains task_name ''daily''
          then [(''backup-shim'', BackupStarted task_name, Info)] else [])
     | _ \<Rightarrow> [])"

text \<open>The four handlers on one received event.\<close>

definition wire_event ::
  "'f event_type \<Rightarrow> health_failover_handler \<Rightarrow> health_failover_handler \<times> 'f emission list" where
  "wire_event evt h =
    (case health_failover evt h of
       (h', ems) \<Rightarrow> (h', ems @ backup_encryption evt @ scheduler_backup evt))"

definition wire_all_handlers :: health_failover_handler where
  "wire_all_handlers = health_failover_new 3"

section \<open>The pump\<close>

fun emit_all ::
  "('ch \<Rightarrow> 'f shim_event \<Rightarrow> 'ch) \<Rightarrow> (u64 \<Rightarrow> uuid \<times> time) \<Rightarrow> 'f emission list \<Rightarrow> 'ch shim_bus
   \<Rightarrow> 'ch shim_bus \<times> 'f shim_event list" where
  "emit_all send gen [] b = (b, [])"
| "emit_all send gen ((src, evt, sev) # ems) b =
    (let (uid, now) = gen (total_published b);
         (b1, e) = emit send uid now b src evt sev;
         (b2, es) = emit_all send gen ems b1
     in (b2, e # es))"

fun reactive :: "'f event_type \<Rightarrow> bool" where
  "reactive (HealthStatusChanged _ _) = True"
| "reactive (BackupCompleted _ _ _) = True"
| "reactive (SchedulerTaskFired _ _) = True"
| "reactive _ = False"

definition event_weight :: "'f shim_event \<Rightarrow> nat" where
  "event_weight e = (if reactive (event e) then 2 else 1)"

lemma wire_event_quiet: "\<not> reactive evt \<Longrightarrow> wire_event evt h = (h, [])"
  by (cases evt) (simp_all add: wire_event_def health_failover_def backup_encryption_def scheduler_backup_def)

lemma wire_event_once: "length (snd (wire_event evt h)) \<le> 1"
  by (cases evt) (simp_all add: wire_event_def health_failover_def backup_encryption_def scheduler_backup_def Let_def)

lemma wire_event_derived:
  "(src, evt', sev) \<in> set (snd (wire_event evt h)) \<Longrightarrow>
    \<not> reactive evt' \<and> src \<in> {''failover-shim'', ''encryption-shim'', ''backup-shim''}"
  by (cases evt) (auto simp: wire_event_def health_failover_def backup_encryption_def scheduler_backup_def Let_def
      split: if_splits)

lemma emit_event:
  "source (snd (emit send uid now b src evt sev)) = src" "event (snd (emit send uid now b src evt sev)) = evt"
  "severity (snd (emit send uid now b src evt sev)) = sev"
  by (simp_all add: emit_def publish_def shim_event_new_def with_sequence_def Let_def)

lemma emit_all_events:
  "map (\<lambda>e. (source e, event e, severity e)) (snd (emit_all send gen ems b)) = ems"
proof (induction ems arbitrary: b)
  case (Cons em ems)
  then show ?case
    by (cases em) (simp add: case_prod_beta Let_def emit_event)
qed simp

lemma emit_all_length [simp]: "length (snd (emit_all send gen ems b)) = length ems"
  using arg_cong [OF emit_all_events, of length send gen ems b] by simp

lemma derived_weight [termination_simp]:
  assumes "wire_event (event e) h = (h', ems)" "emit_all send gen ems b = (b', new)"
  shows "sum_list (map event_weight (es @ new)) < sum_list (map event_weight (e # es))"
proof (cases "reactive (event e)")
  case True
  have quiet: "\<not> reactive (event x)" if "x \<in> set new" for x
  proof -
    have "(source x, event x, severity x) \<in> set ems"
      using that emit_all_events [of send gen ems b] assms(2) by force
    then show ?thesis
      using wire_event_derived [of _ _ _ "event e" h] assms(1) by auto
  qed
  then have "sum_list (map event_weight new) = length new"
    by (induction new) (auto simp: event_weight_def)
  then show ?thesis
    using True wire_event_once [of "event e" h] assms emit_all_length [of send gen ems b] by (simp add: event_weight_def)
next
  case False
  then show ?thesis
    using assms wire_event_quiet [of "event e" h] by (auto simp: event_weight_def)
qed

function wire_pump ::
  "('ch \<Rightarrow> 'f shim_event \<Rightarrow> 'ch) \<Rightarrow> (u64 \<Rightarrow> uuid \<times> time) \<Rightarrow> 'f shim_event list
   \<Rightarrow> health_failover_handler \<Rightarrow> 'ch shim_bus
   \<Rightarrow> (health_failover_handler \<times> 'ch shim_bus) \<times> 'f shim_event list" where
  "wire_pump send gen [] h b = ((h, b), [])"
| "wire_pump send gen (e # es) h b =
    (case wire_event (event e) h of
       (h', ems) \<Rightarrow>
         (case emit_all send gen ems b of
            (b', new) \<Rightarrow>
              (case wire_pump send gen (es @ new) h' b' of
                 (st, derived) \<Rightarrow> (st, new @ derived))))"
  by pat_completeness auto
termination
proof (relation "measure (\<lambda>(send, gen, es, h, b). sum_list (map event_weight es))", goal_cases)
  case (2 send gen e es h b h' ems b' new)
  then show ?case
    using derived_weight [of e h h' ems send gen b b' new es] by simp
qed simp

section \<open>Properties\<close>

text \<open>C31: The wiring never feeds itself: for any pending events and any state of the bus the pump
  ends, it derives at most one event from each pending event of one of the three
  reactive kinds and none from any other, and no derived event triggers a handler.\<close>

theorem wiring_settles:
  assumes "wire_pump send gen es h b = ((h', b'), derived)"
  shows "length derived \<le> length (filter (reactive \<circ> event) es)
    \<and> (\<forall>e\<in>set derived. \<not> reactive (event e) \<and> source e \<in> {''failover-shim'', ''encryption-shim'', ''backup-shim''})"
  using assms
proof (induction send gen es h b arbitrary: derived rule: wire_pump.induct)
  case (2 send gen e es h b)
  obtain h1 ems where w: "wire_event (event e) h = (h1, ems)"
    by (cases "wire_event (event e) h")
  obtain b1 new where n: "emit_all send gen ems b = (b1, new)"
    by (cases "emit_all send gen ems b")
  obtain rest where r: "wire_pump send gen (es @ new) h1 b1 = ((h', b'), rest)" "derived = new @ rest"
    using "2.prems" w n by (auto split: prod.splits)
  have ev: "(source x, event x, severity x) \<in> set (snd (wire_event (event e) h))" if "x \<in> set new" for x
    using that emit_all_events [of send gen ems b] n w by force
  have quiet: "\<not> reactive (event x) \<and> source x \<in> {''failover-shim'', ''encryption-shim'', ''backup-shim''}"
    if "x \<in> set new" for x
    using wire_event_derived [OF ev [OF that]] .
  then have none: "filter (reactive \<circ> event) new = []"
    by (auto simp: filter_empty_conv)
  have "length new \<le> (if reactive (event e) then 1 else 0)"
    using wire_event_once [of "event e" h] wire_event_quiet [of "event e" h] w n emit_all_length [of send gen ems b]
    by (cases "reactive (event e)") auto
  then show ?case
    using "2.IH" [OF w [symmetric] n [symmetric] r(1)] r(2) none quiet by auto
qed simp

theorem wiring_settles_witness:
  "\<exists>st derived. wire_pump (\<lambda>ch _. ch) (\<lambda>n. (unat n, 0))
      [shim_event_new 1 0 ''scheduler-shim'' (SchedulerTaskFired ''daily-report'' ''0 3 * * *'') Info :: unit shim_event]
      wire_all_handlers (bus_new (\<lambda>_. ())) = (st, derived)
    \<and> length derived \<le> 1"
proof -
  obtain h b d where run: "wire_pump (\<lambda>ch _. ch) (\<lambda>n. (unat n, 0))
      [shim_event_new 1 0 ''scheduler-shim'' (SchedulerTaskFired ''daily-report'' ''0 3 * * *'') Info :: unit shim_event]
      wire_all_handlers (bus_new (\<lambda>_. ())) = ((h, b), d)"
    by (metis surj_pair)
  then show ?thesis
    using wiring_settles [OF run] by (auto simp: shim_event_new_def)
qed

fun health_run :: "bool list \<Rightarrow> health_failover_handler \<Rightarrow> nat \<times> health_failover_handler" where
  "health_run [] h = (0, h)"
| "health_run (bad # bs) h =
    (case health_failover (HealthStatusChanged [] (if bad then ''down'' else ''healthy'') :: unit event_type) h of
       (h', ems) \<Rightarrow> (case health_run bs h' of (n, h'') \<Rightarrow> (length ems + n, h'')))"

lemma health_step:
  "health_failover (HealthStatusChanged prev (if bad then ''down'' else ''healthy'')) h =
    (if \<not> bad then (h\<lparr>unhealthy_count := 0\<rparr>, [])
     else if failover_threshold h \<le> unhealthy_count h + 1 then
       (h\<lparr>unhealthy_count := 0\<rparr>, [(''failover-shim'', FailoverTriggered ''primary'' ''promoted'', Critical)])
     else (h\<lparr>unhealthy_count := unhealthy_count h + 1\<rparr>, []))"
  by (simp add: health_failover_def Let_def)

text \<open>The health handler asks for a failover once per threshold-many consecutive unhealthy
  reports: over any sequence the requests are paid for by unhealthy reports, and a run of
  \<^verbatim>\<open>n\<close> unhealthy reports from a fresh handler gives exactly \<^verbatim>\<open>n div threshold\<close> requests.\<close>

theorem health_failover_rate:
  assumes "0 < failover_threshold h" "unhealthy_count h < failover_threshold h" "health_run bs h = (n, h')"
  shows "n * failover_threshold h + unhealthy_count h' \<le> unhealthy_count h + length (filter (\<lambda>b. b) bs)
    \<and> ((\<forall>b\<in>set bs. b) \<longrightarrow> n = (unhealthy_count h + length bs) div failover_threshold h)"
  using assms
proof (induction bs arbitrary: h n)
  case (Cons bad bs)
  define h1 where "h1 = fst (health_failover (HealthStatusChanged [] (if bad then ''down'' else ''healthy'') :: unit event_type) h)"
  define k where "k = length (snd (health_failover (HealthStatusChanged [] (if bad then ''down'' else ''healthy'') :: unit event_type) h))"
  obtain n1 where n1: "health_run bs h1 = (n1, h')" "n = k + n1"
    using Cons.prems(3) by (auto simp: h1_def k_def split: prod.splits)
  have thr: "failover_threshold h1 = failover_threshold h"
    and cnt: "unhealthy_count h1 = (if bad \<and> unhealthy_count h + 1 < failover_threshold h then unhealthy_count h + 1 else 0)"
    and k: "k = (if bad \<and> failover_threshold h \<le> unhealthy_count h + 1 then 1 else 0)"
    by (auto simp: h1_def k_def health_step)
  have IH: "n1 * failover_threshold h + unhealthy_count h' \<le> unhealthy_count h1 + length (filter (\<lambda>b. b) bs)"
    "(\<forall>b\<in>set bs. b) \<longrightarrow> n1 = (unhealthy_count h1 + length bs) div failover_threshold h"
    using Cons.IH [of h1 n1] n1(1) thr cnt Cons.prems(1) by auto
  show ?case
  proof (cases "bad \<and> failover_threshold h \<le> unhealthy_count h + 1")
    case True
    then have T: "unhealthy_count h + 1 = failover_threshold h"
      using Cons.prems(2) by simp
    have len: "unhealthy_count h + length (bad # bs) = failover_threshold h + length bs"
      using T by simp
    have "n = 1 + n1" "unhealthy_count h1 = 0"
      using True n1(2) k cnt T by simp_all
    then show ?thesis
      unfolding len using IH True T Cons.prems(1) by (simp add: add.commute)
  next
    case False
    then have "n = n1"
      using n1(2) k by simp
    moreover have "unhealthy_count h1 = unhealthy_count h + 1" if bad
      using False cnt that by simp
    moreover have "unhealthy_count h1 = 0" if "\<not> bad"
      using cnt that by simp
    ultimately show ?thesis
      using IH by (cases bad) simp_all
  qed
qed simp

theorem health_failover_rate_witness:
  "fst (health_run [True, True, True, True, True, True, True] wire_all_handlers) = 2"
proof -
  obtain n h where run: "health_run [True, True, True, True, True, True, True] wire_all_handlers = (n, h)"
    by (metis surj_pair)
  then show ?thesis
    using health_failover_rate [OF _ _ run] by (simp add: wire_all_handlers_def health_failover_new_def)
qed

end
