(* ===== verification/Encryption.thy ===== *)
theory Encryption
  imports Prelude
begin

text \<open>
  \<^verbatim>\<open>encryption-shim/src/lib.rs\<close>: the key ring, envelope encryption and key rotation.  The
  ciphers (crates \<^verbatim>\<open>aes_gcm\<close> and \<^verbatim>\<open>chacha20poly1305\<close>) are the record \<^verbatim>\<open>aead\<close>, from method, key, nonce,
  associated data and message to a result; hexadecimal decoding (\<^verbatim>\<open>hex\<close>), reading the key
  file and parsing the previous keys (\<^verbatim>\<open>serde_json\<close>) are the record \<^verbatim>\<open>key_sources\<close>.
  Random bytes and the clock are arguments.  \<^verbatim>\<open>Nonce::from_slice\<close> panics on a slice that does not
  have 12 bytes.
\<close>

section \<open>Data\<close>

type_synonym bytes = "u8 list"

definition NONCE_SIZE :: nat where "NONCE_SIZE = 12"
definition KEY_SIZE :: nat where "KEY_SIZE = 32"

record encryption_key =
  key_id_of :: string
  material :: bytes
  key_created_at :: time
  active :: bool

record encrypted_payload =
  pl_key_id :: string
  pl_nonce :: bytes
  pl_ciphertext :: bytes
  pl_tag :: bytes
  pl_method :: string
  pl_aad :: "bytes option"

datatype encryption_method = AesGcm | ChaCha20

fun method_display :: "encryption_method \<Rightarrow> string" where
  "method_display AesGcm = ''aes-gcm''"
| "method_display ChaCha20 = ''chacha20''"

definition method_from_str :: "string \<Rightarrow> string + encryption_method" where
  "method_from_str s =
    (let l = to_lowercase s in
     if l = ''aes-gcm'' \<or> l = ''aes256gcm'' \<or> l = ''aes'' then Inr AesGcm
     else if l = ''chacha20'' \<or> l = ''chacha20poly1305'' \<or> l = ''chacha'' then Inr ChaCha20
     else Inl (''Unknown encryption method: '' @ s))"

record aead =
  seal :: "encryption_method \<Rightarrow> bytes \<Rightarrow> bytes \<Rightarrow> bytes \<Rightarrow> bytes \<Rightarrow> string + bytes"
  unseal :: "encryption_method \<Rightarrow> bytes \<Rightarrow> bytes \<Rightarrow> bytes \<Rightarrow> bytes \<Rightarrow> string + bytes"

record key_sources =
  read_key_file :: "string \<Rightarrow> string + bytes"
  decode_hex :: "string \<Rightarrow> string + bytes"
  parse_prev_keys :: "string \<Rightarrow> encryption_key list option"

record encryption_shim =
  enc_method :: encryption_method
  keys :: "(string, encryption_key) hmap"
  active_key_id :: "string option"
  aad_prefix :: "bytes option"
  encryptions_total :: nat
  decryptions_total :: nat
  rotation_hits :: nat

section \<open>Construction\<close>

definition load_primary_key ::
  "key_sources \<Rightarrow> env \<Rightarrow> bytes \<Rightarrow> time \<Rightarrow> encryption_shim \<Rightarrow> string + encryption_shim" where
  "load_primary_key src env rnd now s =
    (let key_id = env_str env ''ENCRYPTION_KEY_ID'' ''default'';
         got =
           (case env ''ENCRYPTION_KEY_PATH'' of
              Some path \<Rightarrow>
                (case read_key_file src path of
                   Inl e \<Rightarrow> Inl (''Cannot read encryption key file '' @ path @ '': '' @ e)
                 | Inr b \<Rightarrow> Inr b)
            | None \<Rightarrow>
                (case env ''ENCRYPTION_KEY'' of
                   Some hex_key \<Rightarrow>
                     (case decode_hex src hex_key of
                        Inl e \<Rightarrow> Inl (''Invalid ENCRYPTION_KEY hex: '' @ e)
                      | Inr b \<Rightarrow> Inr b)
                 | None \<Rightarrow> Inr rnd))
     in case got of
          Inl e \<Rightarrow> Inl e
        | Inr mat \<Rightarrow>
            if length mat \<noteq> KEY_SIZE then
              Inl (''ENCRYPTION_KEY must be '' @ show_nat KEY_SIZE @ '' bytes, got '' @ show_nat (length mat))
            else
              Inr (s\<lparr>active_key_id := Some key_id,
                keys := hm_insert key_id
                  \<lparr>key_id_of = key_id, material = mat, key_created_at = now, active = True\<rparr> (keys s)\<rparr>))"

definition load_previous_keys :: "key_sources \<Rightarrow> env \<Rightarrow> encryption_shim \<Rightarrow> encryption_shim" where
  "load_previous_keys src env s =
    (case env ''ENCRYPTION_PREV_KEYS'' of
       None \<Rightarrow> s
     | Some js \<Rightarrow>
         (case parse_prev_keys src js of
            None \<Rightarrow> s
          | Some ks \<Rightarrow>
              fold (\<lambda>k s. if length (material k) = KEY_SIZE
                          then s\<lparr>keys := hm_insert (key_id_of k) k (keys s)\<rparr> else s) ks s))"

definition try_new :: "key_sources \<Rightarrow> env \<Rightarrow> bytes \<Rightarrow> time \<Rightarrow> string + encryption_shim" where
  "try_new src env rnd now =
    (let meth = (case method_from_str (env_str env ''ENCRYPTION_METHOD'' ''aes-gcm'') of
                   Inr m \<Rightarrow> m | Inl _ \<Rightarrow> AesGcm);
         s0 = \<lparr>enc_method = meth, keys = [], active_key_id = None, aad_prefix = None,
               encryptions_total = 0, decryptions_total = 0, rotation_hits = 0\<rparr>
     in case load_primary_key src env rnd now s0 of
          Inl e \<Rightarrow> Inl e
        | Inr s1 \<Rightarrow>
            (let s2 = load_previous_keys src env s1
             in Inr (case env ''ENCRYPTION_AAD'' of
                       Some a \<Rightarrow> s2\<lparr>aad_prefix := Some (str_bytes a)\<rparr>
                     | None \<Rightarrow> s2)))"

section \<open>Operations\<close>

fun cipher_name :: "encryption_method \<Rightarrow> string" where
  "cipher_name AesGcm = ''AES-GCM''"
| "cipher_name ChaCha20 = ''ChaCha20-Poly1305''"

definition key_error :: "bytes \<Rightarrow> string" where
  "key_error k = ''Key must be '' @ show_nat KEY_SIZE @ '' bytes, got '' @ show_nat (length k)"

text \<open>The random nonce is the argument \<^verbatim>\<open>rnd\<close>.  A sealed message shorter than its tag would make the
  subtraction of 16 panic.\<close>

definition encrypt ::
  "aead \<Rightarrow> bytes \<Rightarrow> bytes \<Rightarrow> bytes option \<Rightarrow> encryption_shim
   \<Rightarrow> (encryption_shim \<times> (string + encrypted_payload)) outcome" where
  "encrypt c rnd plaintext nonce s =
    (case active_key_id s of
       None \<Rightarrow> Returns (s, Inl ''No active encryption key'')
     | Some key_id \<Rightarrow>
         (case map_of (keys s) key_id of
            None \<Rightarrow> Returns (s, Inl (''Key '' @ key_id @ '' not found''))
          | Some key \<Rightarrow>
              if length (material key) \<noteq> KEY_SIZE then Returns (s, Inl (key_error (material key)))
              else
                (let n = (case nonce of Some x \<Rightarrow> x | None \<Rightarrow> rnd);
                     aad = (case aad_prefix s of Some p \<Rightarrow> p | None \<Rightarrow> []) @ str_bytes key_id
                 in if length n \<noteq> NONCE_SIZE then Panics
                    else
                      (case seal c (enc_method s) (material key) n aad plaintext of
                         Inl e \<Rightarrow> Returns (s, Inl (cipher_name (enc_method s) @ '' encryption failed: '' @ e))
                       | Inr result \<Rightarrow>
                           if length result < 16 then Panics
                           else
                             (let tag_start = length result - 16
                              in Returns (s\<lparr>encryptions_total := encryptions_total s + 1\<rparr>,
                                   Inr \<lparr>pl_key_id = key_id, pl_nonce = n,
                                        pl_ciphertext = take tag_start result,
                                        pl_tag = drop tag_start result,
                                        pl_method = method_display (enc_method s),
                                        pl_aad = (if aad_prefix s \<noteq> None then Some aad else None)\<rparr>))))))"

definition decrypt ::
  "aead \<Rightarrow> encrypted_payload \<Rightarrow> encryption_shim \<Rightarrow> (encryption_shim \<times> (string + bytes)) outcome" where
  "decrypt c p s =
    (case map_of (keys s) (pl_key_id p) of
       None \<Rightarrow> Returns (s, Inl (''Decryption key '' @ pl_key_id p @ '' not found''))
     | Some key \<Rightarrow>
         if length (material key) \<noteq> KEY_SIZE then Returns (s, Inl (key_error (material key)))
         else
           (case method_from_str (pl_method p) of
              Inl e \<Rightarrow> Returns (s, Inl e)
            | Inr meth \<Rightarrow>
                if length (pl_nonce p) \<noteq> NONCE_SIZE then Panics
                else
                  (let aad = (case pl_aad p of Some a \<Rightarrow> a | None \<Rightarrow> []) @ str_bytes (pl_key_id p)
                   in case unseal c meth (material key) (pl_nonce p) aad (pl_ciphertext p @ pl_tag p) of
                        Inl e \<Rightarrow> Returns (s, Inl (cipher_name meth @ '' decryption failed: '' @ e))
                      | Inr plaintext \<Rightarrow>
                          (let s1 = (if active_key_id s \<noteq> Some (pl_key_id p)
                                     then s\<lparr>rotation_hits := rotation_hits s + 1\<rparr> else s)
                           in Returns (s1\<lparr>decryptions_total := decryptions_total s1 + 1\<rparr>, Inr plaintext)))))"

definition rotate_key :: "time \<Rightarrow> string \<Rightarrow> bytes \<Rightarrow> encryption_shim \<Rightarrow> encryption_shim \<times> (string + unit)" where
  "rotate_key now new_id new_material s =
    (if length new_material \<noteq> KEY_SIZE then (s, Inl (''New key must be '' @ show_nat KEY_SIZE @ '' bytes''))
     else
       (let s1 = (case active_key_id s of
                    Some old_id \<Rightarrow> s\<lparr>keys := hm_update old_id (\<lambda>k. k\<lparr>active := False\<rparr>) (keys s)\<rparr>
                  | None \<Rightarrow> s)
        in (s1\<lparr>active_key_id := Some new_id,
               keys := hm_insert new_id
                 \<lparr>key_id_of = new_id, material = new_material, key_created_at = now, active = True\<rparr> (keys s1)\<rparr>,
            Inr ())))"

definition list_keys ::
  "((string, encryption_key) hmap \<Rightarrow> (string, encryption_key) hmap) \<Rightarrow> encryption_shim \<Rightarrow> encryption_key list" where
  "list_keys ord s = map snd (hash_iter ord (keys s))"

definition encryption_metrics :: "encryption_shim \<Rightarrow> metric list" where
  "encryption_metrics s =
    [(''encryption_encryptions_total'', of_nat (encryptions_total s)),
     (''encryption_decryptions_total'', of_nat (decryptions_total s)),
     (''encryption_key_rotation_hits'', of_nat (rotation_hits s)),
     (''encryption_keys_total'', of_nat (length (keys s)))]"

section \<open>The key ring\<close>

declare map_of_eq_Some_iff [simp del]

definition ring_ok :: "encryption_shim \<Rightarrow> bool" where
  "ring_ok s \<longleftrightarrow> hm_wf (keys s) \<and> (\<forall>k key. map_of (keys s) k = Some key \<longrightarrow> length (material key) = KEY_SIZE)
     \<and> (\<exists>k. active_key_id s = Some k \<and> map_of (keys s) k \<noteq> None)"

datatype enc_op = Encrypt bytes bytes "bytes option" | Decrypt encrypted_payload | Rotate time string bytes

definition enc_exec :: "aead \<Rightarrow> enc_op \<Rightarrow> encryption_shim \<Rightarrow> encryption_shim" where
  "enc_exec c op s =
    (case op of
       Encrypt rnd pt nonce \<Rightarrow> (case encrypt c rnd pt nonce s of Returns (s', _) \<Rightarrow> s' | Panics \<Rightarrow> s)
     | Decrypt p \<Rightarrow> (case decrypt c p s of Returns (s', _) \<Rightarrow> s' | Panics \<Rightarrow> s)
     | Rotate now i mat \<Rightarrow> fst (rotate_key now i mat s))"

lemma encrypt_keeps:
  "encrypt c rnd pt nonce s = Returns (s', r) \<Longrightarrow>
    keys s' = keys s \<and> active_key_id s' = active_key_id s \<and> aad_prefix s' = aad_prefix s \<and> enc_method s' = enc_method s"
  by (auto simp: encrypt_def Let_def split: option.splits if_splits sum.splits)

lemma decrypt_keeps:
  "decrypt c p s = Returns (s', r) \<Longrightarrow>
    keys s' = keys s \<and> active_key_id s' = active_key_id s \<and> aad_prefix s' = aad_prefix s \<and> enc_method s' = enc_method s"
  by (auto simp: decrypt_def Let_def split: option.splits if_splits sum.splits)

lemma rotate_key_eq:
  assumes "length mat = KEY_SIZE"
  shows "map_of (keys (fst (rotate_key now i mat s))) k =
      (if k = i then Some \<lparr>key_id_of = i, material = mat, key_created_at = now, active = True\<rparr>
       else map_option (\<lambda>key. if active_key_id s = Some k then key\<lparr>active := False\<rparr> else key) (map_of (keys s) k))"
    "active_key_id (fst (rotate_key now i mat s)) = Some i"
  using assms by (auto simp: rotate_key_def Let_def option.map_ident split: option.split)

lemma rotate_key_wf: "hm_wf (keys s) \<Longrightarrow> hm_wf (keys (fst (rotate_key now i mat s)))"
  by (cases "active_key_id s") (simp_all add: rotate_key_def Let_def)

lemma rotate_key_ring:
  assumes "ring_ok s"
  shows "ring_ok (fst (rotate_key now i mat s))"
proof (cases "length mat = KEY_SIZE")
  case True
  have old: "length (material key) = KEY_SIZE" if "map_of (keys s) k = Some key" for k key
    using assms that by (simp add: ring_ok_def)
  have "length (material key) = KEY_SIZE" if k: "map_of (keys (fst (rotate_key now i mat s))) k = Some key" for k key
  proof (cases "k = i")
    case False
    then obtain key' where "map_of (keys s) k = Some key'" "material key = material key'"
      using k by (auto simp: rotate_key_eq [OF True] split: if_splits)
    then show ?thesis
      using old by simp
  qed (use k True in \<open>auto simp: rotate_key_eq [OF True]\<close>)
  moreover have "hm_wf (keys (fst (rotate_key now i mat s)))"
    using rotate_key_wf assms by (simp add: ring_ok_def)
  moreover have "\<exists>k. active_key_id (fst (rotate_key now i mat s)) = Some k \<and> map_of (keys (fst (rotate_key now i mat s))) k \<noteq> None"
    by (intro exI [of _ i]) (simp add: rotate_key_eq [OF True])
  ultimately show ?thesis
    unfolding ring_ok_def by blast
next
  case False
  then show ?thesis
    using assms by (simp add: rotate_key_def)
qed

lemma enc_exec_cases:
  obtains "keys (enc_exec c op s) = keys s" "active_key_id (enc_exec c op s) = active_key_id s"
  | now i mat where "op = Rotate now i mat" "enc_exec c op s = fst (rotate_key now i mat s)"
proof (cases op)
  case (Encrypt rnd pt nonce)
  have "keys (enc_exec c op s) = keys s \<and> active_key_id (enc_exec c op s) = active_key_id s"
  proof (cases "encrypt c rnd pt nonce s")
    case (Returns sr)
    then show ?thesis
      using encrypt_keeps [of c rnd pt nonce s "fst sr" "snd sr"] by (simp add: Encrypt enc_exec_def case_prod_beta)
  qed (simp add: Encrypt enc_exec_def)
  then show ?thesis
    using that(1) by blast
next
  case (Decrypt p)
  have "keys (enc_exec c op s) = keys s \<and> active_key_id (enc_exec c op s) = active_key_id s"
  proof (cases "decrypt c p s")
    case (Returns sr)
    then show ?thesis
      using decrypt_keeps [of c p s "fst sr" "snd sr"] by (simp add: Decrypt enc_exec_def case_prod_beta)
  qed (simp add: Decrypt enc_exec_def)
  then show ?thesis
    using that(1) by blast
next
  case (Rotate now i mat)
  then show ?thesis
    using that(2) by (simp add: enc_exec_def)
qed

interpretation key_ring: op_system "enc_exec c" ring_ok
proof
  fix op s
  assume "ring_ok s"
  then show "ring_ok (enc_exec c op s)"
  proof (cases rule: enc_exec_cases [of c op s])
    case 1
    then show ?thesis
      using \<open>ring_ok s\<close> by (simp add: ring_ok_def)
  next
    case 2
    then show ?thesis
      using \<open>ring_ok s\<close> by (simp add: rotate_key_ring)
  qed
qed

section \<open>Opening what was sealed\<close>

text \<open>What the ciphers promise: a sealed message carries its tag and opens under the same key, nonce
  and associated data; and it does not open under other associated data.\<close>

definition aead_ok :: "aead \<Rightarrow> bool" where
  "aead_ok c \<longleftrightarrow> (\<forall>m k n a msg ct. seal c m k n a msg = Inr ct \<longrightarrow> 16 \<le> length ct \<and> unseal c m k n a ct = Inr msg)"

definition aead_binds_aad :: "aead \<Rightarrow> bool" where
  "aead_binds_aad c \<longleftrightarrow>
    (\<forall>m k n a a' msg ct. seal c m k n a msg = Inr ct \<and> a' \<noteq> a \<longrightarrow> (\<exists>e. unseal c m k n a' ct = Inl e))"

lemma method_roundtrip [simp]: "method_from_str (method_display m) = Inr m"
  by (cases m) (simp_all add: method_from_str_def to_lowercase_def lower_char_def Let_def)

lemma encrypt_payload:
  assumes "encrypt c rnd pt nonce s = Returns (s1, Inr p)"
  shows "\<exists>key ct. active_key_id s = Some (pl_key_id p) \<and> map_of (keys s) (pl_key_id p) = Some key
    \<and> length (material key) = KEY_SIZE \<and> length (pl_nonce p) = NONCE_SIZE
    \<and> seal c (enc_method s) (material key) (pl_nonce p)
        ((case aad_prefix s of Some x \<Rightarrow> x | None \<Rightarrow> []) @ str_bytes (pl_key_id p)) pt = Inr ct
    \<and> pl_ciphertext p @ pl_tag p = ct \<and> pl_method p = method_display (enc_method s)
    \<and> pl_aad p = (case aad_prefix s of Some x \<Rightarrow> Some (x @ str_bytes (pl_key_id p)) | None \<Rightarrow> None)"
  using assms by (auto simp: encrypt_def Let_def split: option.splits if_splits sum.splits)

lemma decrypt_with:
  assumes "map_of (keys s) (pl_key_id p) = Some key" "length (material key) = KEY_SIZE" "length (pl_nonce p) = NONCE_SIZE"
    and "pl_method p = method_display m"
  shows "\<exists>s'. decrypt c p s = Returns (s',
    (case unseal c m (material key) (pl_nonce p) ((case pl_aad p of Some a \<Rightarrow> a | None \<Rightarrow> []) @ str_bytes (pl_key_id p))
        (pl_ciphertext p @ pl_tag p) of
       Inl e \<Rightarrow> Inl (cipher_name m @ '' decryption failed: '' @ e) | Inr x \<Rightarrow> Inr x))"
  using assms by (auto simp: decrypt_def Let_def split: sum.split)

fun rotates_to :: "enc_op \<Rightarrow> string option" where
  "rotates_to (Rotate now i mat) = Some i"
| "rotates_to _ = None"

lemma run_keeps_material:
  assumes "map_of (keys s) k = Some key" "\<forall>op\<in>set ops. rotates_to op \<noteq> Some k"
  shows "\<exists>key'. map_of (keys (fold (enc_exec c) ops s)) k = Some key' \<and> material key' = material key"
  using assms
proof (induction ops arbitrary: s key)
  case (Cons op ops)
  have "\<exists>key1. map_of (keys (enc_exec c op s)) k = Some key1 \<and> material key1 = material key"
  proof (cases rule: enc_exec_cases [of c op s])
    case 1
    then show ?thesis
      using Cons.prems(1) by simp
  next
    case (2 now i mat)
    then have "k \<noteq> i"
      using Cons.prems(2) by auto
    then show ?thesis
      using 2 Cons.prems(1) by (cases "length mat = KEY_SIZE") (simp_all add: rotate_key_eq, simp add: rotate_key_def)
  qed
  then show ?case
    using Cons.IH Cons.prems(2) by fastforce
qed simp

text \<open>C11: What was encrypted stays readable: without an associated-data prefix, a payload decrypts to
  the original bytes after any further encryptions, decryptions and key rotations, as
  long as no rotation reuses the identifier of its key.\<close>

theorem encryption_roundtrip:
  assumes "aead_ok c" "aad_prefix s = None" "encrypt c rnd pt nonce s = Returns (s1, Inr p)"
    and "\<forall>op\<in>set ops. rotates_to op \<noteq> Some (pl_key_id p)"
  shows "\<exists>s2. decrypt c p (fold (enc_exec c) ops s1) = Returns (s2, Inr pt)"
proof -
  obtain key ct where e: "map_of (keys s) (pl_key_id p) = Some key" "length (material key) = KEY_SIZE"
    "length (pl_nonce p) = NONCE_SIZE" "pl_ciphertext p @ pl_tag p = ct" "pl_method p = method_display (enc_method s)"
    "seal c (enc_method s) (material key) (pl_nonce p) (str_bytes (pl_key_id p)) pt = Inr ct" "pl_aad p = None"
    using encrypt_payload [OF assms(3)] assms(2) by auto
  have "map_of (keys s1) (pl_key_id p) = Some key"
    using e(1) encrypt_keeps [OF assms(3)] by simp
  then obtain key' where "map_of (keys (fold (enc_exec c) ops s1)) (pl_key_id p) = Some key'" "material key' = material key"
    using run_keeps_material [OF _ assms(4)] by blast
  then show ?thesis
    using decrypt_with [of "fold (enc_exec c) ops s1" p key' "enc_method s" c] e assms(1) by (auto simp: aead_ok_def)
qed

text \<open>With an associated-data prefix the shim cannot read its own payloads: encryption stores the
  prefix with the key identifier already appended, and decryption appends the
  identifier again, so the associated data differ and every decryption fails.\<close>

theorem aad_prefix_breaks_decryption:
  assumes "aead_binds_aad c" "aad_prefix s = Some x" "encrypt c rnd pt nonce s = Returns (s1, Inr p)" "pl_key_id p \<noteq> []"
  shows "\<exists>s2 e. decrypt c p s1 = Returns (s2, Inl e)"
proof -
  obtain key ct where e: "map_of (keys s) (pl_key_id p) = Some key" "length (material key) = KEY_SIZE"
    "length (pl_nonce p) = NONCE_SIZE" "pl_ciphertext p @ pl_tag p = ct" "pl_method p = method_display (enc_method s)"
    "seal c (enc_method s) (material key) (pl_nonce p) (x @ str_bytes (pl_key_id p)) pt = Inr ct"
    "pl_aad p = Some (x @ str_bytes (pl_key_id p))"
    using encrypt_payload [OF assms(3)] assms(2) by auto
  have "x @ str_bytes (pl_key_id p) @ str_bytes (pl_key_id p) \<noteq> x @ str_bytes (pl_key_id p)"
    using assms(4) by (simp add: str_bytes_def)
  then obtain err where "unseal c (enc_method s) (material key) (pl_nonce p)
      (x @ str_bytes (pl_key_id p) @ str_bytes (pl_key_id p)) ct = Inl err"
    using assms(1) e(6) unfolding aead_binds_aad_def by blast
  moreover have "map_of (keys s1) (pl_key_id p) = Some key"
    using e(1) encrypt_keeps [OF assms(3)] by simp
  ultimately show ?thesis
    using decrypt_with [of s1 p key "enc_method s" c] e by auto
qed

text \<open>C40: The key ring stays well formed: after construction from the environment and any sequence of
  encryptions, decryptions and rotations every key has 32 bytes and the active key is in
  the ring, so encryption never fails for want of a key.\<close>

theorem key_ring_ok:
  assumes "try_new src env rnd now = Inr s"
  shows "ring_ok (fold (enc_exec c) ops s)"
proof -
  have ins: "ring_ok s' \<Longrightarrow> length (material k) = KEY_SIZE \<Longrightarrow> ring_ok (s'\<lparr>keys := hm_insert (key_id_of k) k (keys s')\<rparr>)" for s' k
    by (auto simp: ring_ok_def split: if_splits)
  have "ring_ok s' \<Longrightarrow> ring_ok (fold (\<lambda>k s. if length (material k) = KEY_SIZE
      then s\<lparr>keys := hm_insert (key_id_of k) k (keys s)\<rparr> else s) ks s')" for ks s'
    by (induction ks arbitrary: s') (auto intro: ins)
  then have prev: "ring_ok s' \<Longrightarrow> ring_ok (load_previous_keys src env s')" for s'
    by (simp add: load_previous_keys_def split: option.split)
  have prim: "load_primary_key src env rnd now s' = Inr s'' \<Longrightarrow> keys s' = [] \<Longrightarrow> ring_ok s''" for s' s''
    by (auto simp: load_primary_key_def ring_ok_def Let_def hm_insert_def hm_remove_def split: sum.splits if_splits)
  have aad: "ring_ok (s'\<lparr>aad_prefix := a\<rparr>) = ring_ok s'" for s' a
    by (simp add: ring_ok_def)
  have "ring_ok s"
    using assms by (auto simp: try_new_def Let_def aad split: sum.splits option.splits intro!: prev elim!: prim)
  then show ?thesis
    by (rule key_ring.fold_inv)
qed

section \<open>Example\<close>

text \<open>A toy cipher that keeps its promises: it writes the length of the associated data in unary, the
  data and the message.\<close>

fun ones :: "bytes \<Rightarrow> nat" where
  "ones [] = 0"
| "ones (x # xs) = (if x = 1 then Suc (ones xs) else 0)"

definition toy_seal :: "bytes \<Rightarrow> bytes \<Rightarrow> bytes" where
  "toy_seal a msg = replicate (length a) 1 @ 0 # a @ msg @ replicate 16 0"

definition toy_unseal :: "bytes \<Rightarrow> bytes \<Rightarrow> string + bytes" where
  "toy_unseal a ct =
    (let k = ones ct; r = drop (k + 1) ct
     in if take k r = a then Inr (take (length r - k - 16) (drop k r)) else Inl ''aead::Error'')"

definition toy_aead :: aead where
  "toy_aead = \<lparr>seal = (\<lambda>m k n a msg. Inr (toy_seal a msg)), unseal = (\<lambda>m k n a ct. toy_unseal a ct)\<rparr>"

lemma ones_replicate: "ones (replicate n 1 @ 0 # xs) = n"
  by (induction n) simp_all

lemma toy_ok: "aead_ok toy_aead" "aead_binds_aad toy_aead"
  by (auto simp: aead_ok_def aead_binds_aad_def toy_aead_def toy_seal_def toy_unseal_def ones_replicate Let_def)

definition toy_shim :: "bytes option \<Rightarrow> encryption_shim" where
  "toy_shim aad = \<lparr>enc_method = AesGcm,
     keys = [(''k1'', \<lparr>key_id_of = ''k1'', material = replicate 32 7, key_created_at = 0, active = True\<rparr>)],
     active_key_id = Some ''k1'', aad_prefix = aad, encryptions_total = 0, decryptions_total = 0, rotation_hits = 0\<rparr>"

lemma toy_encrypt:
  "\<exists>s1 p. encrypt toy_aead (replicate 12 0) pt None (toy_shim aad) = Returns (s1, Inr p) \<and> pl_key_id p = ''k1''"
  by (simp add: encrypt_def toy_shim_def toy_aead_def toy_seal_def KEY_SIZE_def NONCE_SIZE_def)

theorem encryption_roundtrip_witness:
  "\<exists>s1 p s2. encrypt toy_aead (replicate 12 0) [1, 2, 3] None (toy_shim None) = Returns (s1, Inr p)
    \<and> decrypt toy_aead p (fold (enc_exec toy_aead) [Rotate 5 ''k2'' (replicate 32 9)] s1) = Returns (s2, Inr [1, 2, 3])"
proof -
  obtain s1 p where e: "encrypt toy_aead (replicate 12 0) [1, 2, 3] None (toy_shim None) = Returns (s1, Inr p)" "pl_key_id p = ''k1''"
    using toy_encrypt by blast
  have "aad_prefix (toy_shim None) = None"
    by (simp add: toy_shim_def)
  then show ?thesis
    using encryption_roundtrip [OF toy_ok(1) _ e(1), of "[Rotate 5 ''k2'' (replicate 32 9)]"] e by auto
qed

theorem aad_prefix_breaks_decryption_witness:
  "\<exists>s1 p s2 err. encrypt toy_aead (replicate 12 0) [1, 2, 3] None (toy_shim (Some [8])) = Returns (s1, Inr p)
    \<and> decrypt toy_aead p s1 = Returns (s2, Inl err)"
proof -
  obtain s1 p where e: "encrypt toy_aead (replicate 12 0) [1, 2, 3] None (toy_shim (Some [8])) = Returns (s1, Inr p)" "pl_key_id p = ''k1''"
    using toy_encrypt by blast
  have "aad_prefix (toy_shim (Some [8])) = Some [8]"
    by (simp add: toy_shim_def)
  then show ?thesis
    using aad_prefix_breaks_decryption [OF toy_ok(2) _ e(1)] e by auto
qed

theorem key_ring_ok_witness:
  "\<exists>s. try_new \<lparr>read_key_file = (\<lambda>_. Inl []), decode_hex = (\<lambda>_. Inl []), parse_prev_keys = (\<lambda>_. None)\<rparr> (\<lambda>_. None)
      (replicate 32 5) 0 = Inr s \<and> ring_ok (fold (enc_exec toy_aead) [Rotate 1 ''k2'' (replicate 32 9)] s)"
proof -
  obtain s where new: "try_new \<lparr>read_key_file = (\<lambda>_. Inl []), decode_hex = (\<lambda>_. Inl []), parse_prev_keys = (\<lambda>_. None)\<rparr> (\<lambda>_. None)
      (replicate 32 5) 0 = Inr s"
    by (auto simp: try_new_def load_primary_key_def load_previous_keys_def KEY_SIZE_def Let_def)
  then show ?thesis
    using key_ring_ok [OF new] by blast
qed

end
