(* ===== verification/Replication.thy ===== *)
theory Replication
  imports Bus Config
begin

text \<open>
  \<^verbatim>\<open>replication-shim\<close>: the table of replicas with their lag, the overall state derived from
  it, promotion, and the health-check loop.  What \<^verbatim>\<open>psql\<close> answers to a query on a host and
  port, and whether a TCP connection to an address succeeds, are arguments; time stamps are
  arguments too.  Lag in bytes is a \<^verbatim>\<open>u64\<close>, whose sums wrap around.
\<close>

section \<open>Data\<close>

datatype replication_state = Healthy | Degraded | Broken

fun replication_state_display :: "replication_state \<Rightarrow> string" where
  "replication_state_display Healthy = ''healthy''"
| "replication_state_display Degraded = ''degraded''"
| "replication_state_display Broken = ''broken''"

record replica_status =
  rs_addr :: string
  rs_state :: replication_state
  lag_bytes :: u64
  lag_seconds :: f64
  last_heartbeat :: time
  connected :: bool

record wal_position =
  lsn :: string
  segment :: nat
  wal_offset :: nat
  wal_timestamp :: time

record failover_result =
  old_primary :: string
  new_primary :: string
  promoted_at :: time
  success :: bool
  fr_error :: "string option"

record shared_state =
  sh_state :: replication_state
  replica_lag_bytes :: u64
  max_lag_seconds :: f64
  replicas_healthy :: nat
  replicas_broken :: nat
  failovers_total :: nat

definition shared_state_new :: shared_state where
  "shared_state_new = \<lparr>sh_state = Healthy, replica_lag_bytes = 0, max_lag_seconds = 0,
     replicas_healthy = 0, replicas_broken = 0, failovers_total = 0\<rparr>"

record replication_shim =
  primary :: string
  replicas :: "string list"
  mode :: string
  check_secs :: nat
  db_type :: string
  rp_slot_name :: string
  db_host :: string
  db_port :: nat
  db_user :: string
  db_password :: string
  db_name :: string
  lag_threshold_bytes :: u64
  shared :: shared_state
  replica_status :: "(string, replica_status) hmap"
  wal :: wal_position

definition replication_new :: "env \<Rightarrow> time \<Rightarrow> replication_shim" where
  "replication_new env now =
     \<lparr>primary = env_str env ''REPLICATION_PRIMARY'' [],
      replicas = split_commas (env_str env ''REPLICATION_REPLICAS'' []),
      mode = env_str env ''REPLICATION_MODE'' ''asynchronous'',
      check_secs = env_uint 64 env ''REPLICATION_CHECK_SECS'' 10,
      db_type = env_str env ''REPLICATION_DB_TYPE'' ''postgres'',
      rp_slot_name = env_str env ''REPLICATION_SLOT'' ''evergreen_shim'',
      db_host = env_str env ''REPLICATION_DB_HOST'' ''127.0.0.1'',
      db_port = env_uint 16 env ''REPLICATION_DB_PORT'' 5432,
      db_user = env_str env ''REPLICATION_DB_USER'' ''postgres'',
      db_password = env_str env ''REPLICATION_DB_PASSWORD'' [],
      db_name = env_str env ''REPLICATION_DB_NAME'' ''postgres'',
      lag_threshold_bytes = of_nat (env_uint 64 env ''REPLICATION_LAG_THRESHOLD_BYTES'' 1048576),
      shared = shared_state_new, replica_status = [],
      wal = \<lparr>lsn = ''0/0'', segment = 0, wal_offset = 0, wal_timestamp = now\<rparr>\<rparr>"

section \<open>The replica table\<close>

definition add_replica :: "time \<Rightarrow> string \<Rightarrow> replication_shim \<Rightarrow> replication_shim" where
  "add_replica now addr s =
    (let status = \<lparr>rs_addr = addr, rs_state = Healthy, lag_bytes = 0, lag_seconds = 0,
                   last_heartbeat = now, connected = False\<rparr>;
         s1 = s\<lparr>replica_status := hm_insert addr status (replica_status s)\<rparr>
     in if addr \<notin> set (replicas s1) then s1\<lparr>replicas := replicas s1 @ [addr]\<rparr> else s1)"

definition classify :: "f64 \<Rightarrow> replica_status \<Rightarrow> replica_status" where
  "classify secs st =
    (if 30 < secs then st\<lparr>rs_state := Broken\<rparr>
     else if 10 < secs then st\<lparr>rs_state := Degraded\<rparr>
     else st\<lparr>rs_state := Healthy, connected := True\<rparr>)"

definition update_replica_status ::
  "time \<Rightarrow> string \<Rightarrow> u64 \<Rightarrow> f64 \<Rightarrow> replication_shim \<Rightarrow> replication_shim \<times> bool" where
  "update_replica_status now addr bytes secs s =
    (case map_of (replica_status s) addr of
       Some st \<Rightarrow>
         (let st1 = st\<lparr>lag_bytes := bytes, lag_seconds := secs, last_heartbeat := now\<rparr>;
              prev_state = rs_state st1;
              st2 = classify secs st1
          in (s\<lparr>replica_status := hm_update addr (\<lambda>_. st2) (replica_status s)\<rparr>, rs_state st2 \<noteq> prev_state))
     | None \<Rightarrow> (s, False))"

definition mark_replica_disconnected :: "string \<Rightarrow> replication_shim \<Rightarrow> replication_shim" where
  "mark_replica_disconnected addr s =
     s\<lparr>replica_status :=
        hm_update addr (\<lambda>st. st\<lparr>connected := False, rs_state := Broken\<rparr>) (replica_status s)\<rparr>"

definition count_state :: "replication_state \<Rightarrow> (string, replica_status) hmap \<Rightarrow> nat" where
  "count_state x m = length (filter (\<lambda>(_, st). rs_state st = x) m)"

definition overall_state :: "nat \<Rightarrow> nat \<Rightarrow> nat \<Rightarrow> replication_state" where
  "overall_state n healthy broken =
    (if n = 0 \<or> healthy = n then Healthy
     else if 0 < broken \<and> healthy = 0 then Broken
     else Degraded)"

definition recalculate_state :: "replication_shim \<Rightarrow> replication_shim" where
  "recalculate_state s =
    (let m = replica_status s;
         healthy = count_state Healthy m;
         broken = count_state Broken m
     in s\<lparr>shared := (shared s)
           \<lparr>replicas_healthy := healthy, replicas_broken := broken,
            replica_lag_bytes := sum_list (map (\<lambda>(_, st). lag_bytes st) m),
            max_lag_seconds := fold (\<lambda>(_, st) mx. max mx (lag_seconds st)) m 0,
            sh_state := overall_state (length m) healthy broken\<rparr>\<rparr>)"

definition set_wal_position :: "time \<Rightarrow> string \<Rightarrow> nat \<Rightarrow> nat \<Rightarrow> replication_shim \<Rightarrow> replication_shim" where
  "set_wal_position now l seg off s =
     s\<lparr>wal := \<lparr>lsn = l, segment = seg, wal_offset = off, wal_timestamp = now\<rparr>\<rparr>"

definition promote ::
  "time \<Rightarrow> string \<Rightarrow> replication_shim \<Rightarrow> replication_shim \<times> (string + failover_result)" where
  "promote now addr s =
    (if map_of (replica_status s) addr = None then (s, Inl (''Replica '' @ addr @ '' not found''))
     else
       (let s1 = s\<lparr>replica_status := hm_remove addr (replica_status s), primary := addr\<rparr>;
            result = \<lparr>old_primary = primary s, new_primary = addr, promoted_at = now,
                      success = True, fr_error = None\<rparr>;
            s2 = s1\<lparr>shared := (shared s1)\<lparr>failovers_total := failovers_total (shared s1) + 1\<rparr>\<rparr>
        in (recalculate_state s2, Inr result)))"

definition replica_count :: "replication_shim \<Rightarrow> nat" where
  "replica_count s = length (replica_status s)"

definition get_replica :: "string \<Rightarrow> replication_shim \<Rightarrow> replica_status option" where
  "get_replica addr s = map_of (replica_status s) addr"

definition all_healthy :: "replication_shim \<Rightarrow> bool" where
  "all_healthy s = list_all (\<lambda>(_, st). rs_state st = Healthy) (replica_status s)"

definition lag_threshold :: "string \<Rightarrow> f64" where
  "lag_threshold md = (if md = ''synchronous'' then 1 else 10)"

section \<open>Queries to the database\<close>

type_synonym psql = "string \<Rightarrow> string \<Rightarrow> string \<Rightarrow> command_output"

definition wal_query :: string where
  "wal_query = ''SELECT pg_current_wal_lsn(), pg_current_wal_insert_lsn(), extract(epoch from now())::bigint''"

definition query_wal_position :: "psql \<Rightarrow> time \<Rightarrow> replication_shim \<Rightarrow> string + wal_position" where
  "query_wal_position psql now s =
    (case psql (db_host s) (show_nat (db_port s)) wal_query of
       NotRun e \<Rightarrow> Inl e
     | ExitFailure stderr \<Rightarrow> Inl (''psql WAL query failed: '' @ stderr)
     | ExitSuccess stdout \<Rightarrow>
         (let parts = split_on (CHR ''|'') (trim stdout) in
          if length parts < 2 then Inl (''Unexpected psql output: '' @ stdout)
          else Inr \<lparr>lsn = parts ! 0,
                    segment = (case parse_uint 64 (parts ! 1) of Some n \<Rightarrow> n | None \<Rightarrow> 0),
                    wal_offset = 0, wal_timestamp = now\<rparr>))"

text \<open>The part before and after the first colon of an address, as \<^verbatim>\<open>split(':')\<close> gives them.\<close>

definition host_port :: "string \<Rightarrow> string \<times> string" where
  "host_port addr =
    (let parts = split_on (CHR '':'') addr in (parts ! 0, if 2 \<le> length parts then parts ! 1 else ''5432''))"

definition replica_lag_query :: string where
  "replica_lag_query = ''SELECT CASE WHEN pg_last_wal_receive_lsn() = pg_last_wal_replay_lsn() THEN 0 ELSE EXTRACT(EPOCH FROM now() - pg_last_xact_replay_timestamp())::bigint END''"

definition query_replica_lag :: "psql \<Rightarrow> string \<Rightarrow> string + nat" where
  "query_replica_lag psql addr =
    (case host_port addr of (host, port) \<Rightarrow>
       (case psql host port replica_lag_query of
          NotRun e \<Rightarrow> Inl e
        | ExitFailure _ \<Rightarrow> Inr 0
        | ExitSuccess stdout \<Rightarrow>
            Inr (case parse_uint 64 (trim stdout) of Some n \<Rightarrow> n | None \<Rightarrow> 0)))"

section \<open>Lifecycle\<close>

definition replication_init :: "config \<Rightarrow> replication_shim \<Rightarrow> replication_shim" where
  "replication_init c s =
    (case replication c of
       Some rc \<Rightarrow>
         s\<lparr>primary := rep_primary rc, replicas := rep_replicas rc, mode := rep_mode rc,
           check_secs := rep_check_interval_secs rc, db_type := rep_db_type rc,
           rp_slot_name := (case slot_name rc of Some slot \<Rightarrow> slot | None \<Rightarrow> rp_slot_name s)\<rparr>
     | None \<Rightarrow> s)"

text \<open>What the health-check task copies when it is spawned.\<close>

record health_loop =
  hl_primary :: string
  hl_replicas :: "string list"
  hl_mode :: string
  hl_lag_threshold_bytes :: u64
  hl_bus :: bool

definition replication_start ::
  "((string, replica_status) hmap \<Rightarrow> (string, replica_status) hmap) \<Rightarrow> time \<Rightarrow> bool
   \<Rightarrow> replication_shim \<Rightarrow> replication_shim \<times> health_loop outcome" where
  "replication_start ord now bus s =
    (let s1 = fold (add_replica now) (replicas s) s
     in (s1, if check_secs s1 = 0 then Panics
             else Returns \<lparr>hl_primary = primary s1, hl_replicas = map fst (hash_iter ord (replica_status s1)),
                           hl_mode = mode s1, hl_lag_threshold_bytes = lag_threshold_bytes s1, hl_bus = bus\<rparr>))"

definition loop_lag_query :: string where
  "loop_lag_query = ''SELECT CASE WHEN pg_last_wal_receive_lsn() = pg_last_wal_replay_lsn() THEN 0 ELSE COALESCE(EXTRACT(EPOCH FROM now() - pg_last_xact_replay_timestamp())::bigint, 0) END''"

definition loop_lag :: "validators \<Rightarrow> psql \<Rightarrow> string \<Rightarrow> f64" where
  "loop_lag v psql addr =
    (case host_port addr of (host, port) \<Rightarrow>
       (case psql host port loop_lag_query of
          ExitSuccess stdout \<Rightarrow> (case parse_f64 v (trim stdout) of Some x \<Rightarrow> x | None \<Rightarrow> 0)
        | _ \<Rightarrow> 0))"

text \<open>The locals of one check: reachable and unreachable replicas, total and maximal lag,
  and what was emitted.\<close>

record check_acc =
  healthy_count :: nat
  broken_count :: nat
  total_lag :: u64
  max_lag_sec :: f64
  emitted :: "f64 emission list"

definition check_replica ::
  "validators \<Rightarrow> psql \<Rightarrow> (string \<Rightarrow> bool) \<Rightarrow> health_loop \<Rightarrow> string \<Rightarrow> check_acc \<Rightarrow> check_acc" where
  "check_replica v psql check_tcp l addr a =
    (if check_tcp addr then
       (let secs = loop_lag v psql addr;
            bytes = f64_as_u64 (secs * 1000000)
        in a\<lparr>healthy_count := healthy_count a + 1, total_lag := total_lag a + bytes,
             max_lag_sec := max (max_lag_sec a) secs,
             emitted := emitted a @
               (if hl_lag_threshold_bytes l < bytes \<and> hl_bus l
                then [(''replication-shim'',
                       ReplicationLagWarning (f64_as_u64 (secs * 1000)) (f64_as_u64 (lag_threshold (hl_mode l) * 1000)),
                       Warning)]
                else [])\<rparr>)
     else a\<lparr>broken_count := broken_count a + 1\<rparr>)"

definition check_all ::
  "validators \<Rightarrow> psql \<Rightarrow> (string \<Rightarrow> bool) \<Rightarrow> health_loop \<Rightarrow> check_acc" where
  "check_all v psql check_tcp l =
     fold (check_replica v psql check_tcp l) (hl_replicas l)
       \<lparr>healthy_count = 0, broken_count = 0, total_lag = 0, max_lag_sec = 0, emitted = []\<rparr>"

definition health_tick ::
  "validators \<Rightarrow> psql \<Rightarrow> (string \<Rightarrow> bool) \<Rightarrow> health_loop \<Rightarrow> shared_state \<Rightarrow> shared_state \<times> f64 emission list" where
  "health_tick v psql check_tcp l sh =
    (if \<not> check_tcp (hl_primary l) then
       (sh\<lparr>sh_state := Broken\<rparr>,
        if hl_bus l then [(''replication-shim'', ReplicationLagWarning 0 0, Error)] else [])
     else
       (let a = check_all v psql check_tcp l
        in (sh\<lparr>replicas_healthy := healthy_count a, replicas_broken := broken_count a,
               replica_lag_bytes := total_lag a, max_lag_seconds := max_lag_sec a,
               sh_state := overall_state (length (hl_replicas l)) (healthy_count a) (broken_count a)\<rparr>,
            emitted a)))"

definition replication_metrics :: "replication_shim \<Rightarrow> metric list" where
  "replication_metrics s =
    (let sh = shared s in
     [(''replication_state'', case sh_state sh of Healthy \<Rightarrow> 0 | Degraded \<Rightarrow> 1 | Broken \<Rightarrow> 2),
      (''replication_replicas_healthy'', of_nat (replicas_healthy sh)),
      (''replication_replicas_broken'', of_nat (replicas_broken sh)),
      (''replication_total_lag_bytes'', of_nat (unat (replica_lag_bytes sh))),
      (''replication_max_lag_seconds'', max_lag_seconds sh),
      (''replication_failovers_total'', of_nat (failovers_total sh))])"

section \<open>The table invariant\<close>

declare map_of_eq_Some_iff [simp del]

definition status_ok :: "replica_status \<Rightarrow> bool" where
  "status_ok st =
    (case rs_state st of
       Healthy \<Rightarrow> lag_seconds st \<le> 10
     | Degraded \<Rightarrow> 10 < lag_seconds st \<and> lag_seconds st \<le> 30
     | Broken \<Rightarrow> 30 < lag_seconds st \<or> \<not> connected st)"

definition replication_inv :: "replication_shim \<Rightarrow> bool" where
  "replication_inv s =
    (hm_wf (replica_status s) \<and>
     (\<forall>k st. map_of (replica_status s) k = Some st \<longrightarrow>
        k \<in> set (replicas s) \<and> rs_addr st = k \<and> status_ok st))"

datatype replication_op =
    RAdd time string
  | RUpdate time string u64 f64
  | RDisconnect string
  | RRecalculate
  | RPromote time string
  | RWal time string nat nat

fun replication_exec :: "replication_op \<Rightarrow> replication_shim \<Rightarrow> replication_shim" where
  "replication_exec (RAdd now addr) s = add_replica now addr s"
| "replication_exec (RUpdate now addr bytes secs) s = fst (update_replica_status now addr bytes secs s)"
| "replication_exec (RDisconnect addr) s = mark_replica_disconnected addr s"
| "replication_exec RRecalculate s = recalculate_state s"
| "replication_exec (RPromote now addr) s = fst (promote now addr s)"
| "replication_exec (RWal now l seg off) s = set_wal_position now l seg off s"

lemma add_replica_sel:
  "replica_status (add_replica now addr s) = hm_insert addr
     \<lparr>rs_addr = addr, rs_state = Healthy, lag_bytes = 0, lag_seconds = 0, last_heartbeat = now, connected = False\<rparr>
     (replica_status s)"
  "set (replicas (add_replica now addr s)) = insert addr (set (replicas s))"
  "primary (add_replica now addr s) = primary s"
  "check_secs (add_replica now addr s) = check_secs s"
  "mode (add_replica now addr s) = mode s"
  by (auto simp: add_replica_def Let_def)

lemma recalculate_keeps [simp]:
  "replica_status (recalculate_state s) = replica_status s"
  "replicas (recalculate_state s) = replicas s"
  "primary (recalculate_state s) = primary s"
  "check_secs (recalculate_state s) = check_secs s"
  by (simp_all add: recalculate_state_def Let_def)

lemma classify_ok:
  "status_ok (classify secs (st\<lparr>lag_bytes := bytes, lag_seconds := secs, last_heartbeat := now\<rparr>))"
  "rs_addr (classify secs st) = rs_addr st"
  by (auto simp: classify_def status_ok_def)

lemma add_replica_inv: "replication_inv s \<Longrightarrow> replication_inv (add_replica now addr s)"
  by (auto simp: replication_inv_def add_replica_sel status_ok_def simp del: keys_hm_insert)

lemma update_replica_inv:
  "replication_inv s \<Longrightarrow> replication_inv (fst (update_replica_status now addr bytes secs s))"
  by (auto simp: replication_inv_def update_replica_status_def Let_def classify_ok split: option.splits)

lemma disconnect_inv: "replication_inv s \<Longrightarrow> replication_inv (mark_replica_disconnected addr s)"
  by (auto simp: replication_inv_def mark_replica_disconnected_def status_ok_def split: if_splits)

lemma promote_inv: "replication_inv s \<Longrightarrow> replication_inv (fst (promote now addr s))"
  by (auto simp: replication_inv_def promote_def Let_def simp del: keys_hm_remove split: if_splits)

lemma replication_exec_inv: "replication_inv s \<Longrightarrow> replication_inv (replication_exec op s)"
  by (cases op)
    (simp_all add: add_replica_inv update_replica_inv disconnect_inv promote_inv,
     simp_all add: replication_inv_def set_wal_position_def)

interpretation replication_ops: op_system replication_exec replication_inv
  by unfold_locales (rule replication_exec_inv)

lemma replication_new_inv: "replication_inv (replication_new env now)"
  by (simp add: replication_inv_def replication_new_def)

lemma replication_run_inv: "replication_inv (fold replication_exec ops (replication_new env now))"
  by (rule replication_ops.fold_inv, rule replication_new_inv)

lemma promote_Some:
  "map_of (replica_status s) addr \<noteq> None \<Longrightarrow>
    \<exists>s1 res. promote now addr s = (s1, Inr res) \<and> check_secs s1 = check_secs s"
  by (simp add: promote_def Let_def)

lemma start_sel:
  "primary (fold (add_replica now) rs s) = primary s"
  "check_secs (fold (add_replica now) rs s) = check_secs s"
  "fst ` set (replica_status (fold (add_replica now) rs s)) = fst ` set (replica_status s) \<union> set rs"
  by (induction rs arbitrary: s) (auto simp: add_replica_sel hm_insert_def image_iff)

lemma start_fields:
  assumes "replication_start ord now bus s = (s', Returns l)"
  shows "hl_primary l = primary s"
    "set (hl_replicas l) = fst ` set (replica_status s) \<union> set (replicas s)"
proof -
  let ?s = "fold (add_replica now) (replicas s) s"
  have "hl_primary l = primary ?s" "hl_replicas l = map fst (hash_iter ord (replica_status ?s))"
    using assms by (auto simp: replication_start_def Let_def split: if_splits)
  then show "hl_primary l = primary s"
    "set (hl_replicas l) = fst ` set (replica_status s) \<union> set (replicas s)"
    by (simp_all only: start_sel set_map set_hash_iter)
qed

section \<open>The health check\<close>

lemma check_fold:
  "fold (check_replica v psql check_tcp l) rs a =
    (let up = filter check_tcp rs;
         bytes = (\<lambda>r. f64_as_u64 (loop_lag v psql r * 1000000))
     in a\<lparr>healthy_count := healthy_count a + length up,
          broken_count := broken_count a + length (filter (\<lambda>r. \<not> check_tcp r) rs),
          total_lag := total_lag a + sum_list (map bytes up),
          max_lag_sec := fold (\<lambda>r mx. max mx (loop_lag v psql r)) up (max_lag_sec a),
          emitted := emitted a @
            (if hl_bus l then
               map (\<lambda>r. (''replication-shim'',
                         ReplicationLagWarning (f64_as_u64 (loop_lag v psql r * 1000))
                           (f64_as_u64 (lag_threshold (hl_mode l) * 1000)), Warning))
                 (filter (\<lambda>r. hl_lag_threshold_bytes l < bytes r) up)
             else [])\<rparr>)"
proof (induction rs arbitrary: a)
  case (Cons r rs)
  show ?case
    by (cases "check_tcp r") (simp_all add: Cons check_replica_def [of v psql check_tcp l r a] Let_def add.assoc)
qed (simp add: Let_def)

lemma check_all_spec:
  "healthy_count (check_all v psql check_tcp l) = length (filter check_tcp (hl_replicas l))"
  "broken_count (check_all v psql check_tcp l) = length (filter (\<lambda>r. \<not> check_tcp r) (hl_replicas l))"
  "emitted (check_all v psql check_tcp l) =
    (if hl_bus l then
       map (\<lambda>r. (''replication-shim'',
                 ReplicationLagWarning (f64_as_u64 (loop_lag v psql r * 1000))
                   (f64_as_u64 (lag_threshold (hl_mode l) * 1000)), Warning))
         (filter (\<lambda>r. check_tcp r \<and> hl_lag_threshold_bytes l < f64_as_u64 (loop_lag v psql r * 1000000))
            (hl_replicas l))
     else [])"
  by (simp_all add: check_all_def check_fold Let_def conj_commute)

lemma overall_state_split:
  assumes "up + down = n"
  shows "overall_state n up down = Healthy \<longleftrightarrow> down = 0"
    and "overall_state n up down = Broken \<longleftrightarrow> 0 < down \<and> up = 0"
  using assms by (auto simp: overall_state_def)

lemma count_all: "list_all (\<lambda>(_, st). rs_state st = x) m \<Longrightarrow> count_state y m = (if y = x then length m else 0)"
  by (induction m) (auto simp: count_state_def)

section \<open>Properties\<close>

text \<open>One check of the health loop with a reachable primary: the state is healthy exactly
  when every monitored replica accepts a connection and broken exactly when there are replicas and none
  does; what the replicas report as lag has no influence on it.  With a bus attached,
  one warning is emitted for each reachable replica whose lag, taken as a million bytes per
  second, exceeds the threshold, in the order of the replicas.  With an unreachable primary the
  state is broken, one error event is emitted, and all other figures keep their old values.\<close>

theorem health_tick_spec:
  assumes "l = \<lparr>hl_primary = p, hl_replicas = rs, hl_mode = md, hl_lag_threshold_bytes = thr, hl_bus = True\<rparr>"
    and "health_tick v psql check_tcp l sh = (sh', out)"
  shows "(check_tcp p \<longrightarrow>
      (sh_state sh' = Healthy \<longleftrightarrow> (\<forall>r\<in>set rs. check_tcp r)) \<and>
      (sh_state sh' = Broken \<longleftrightarrow> rs \<noteq> [] \<and> (\<forall>r\<in>set rs. \<not> check_tcp r)) \<and>
      replicas_healthy sh' + replicas_broken sh' = length rs \<and>
      out = map (\<lambda>r. (''replication-shim'',
                      ReplicationLagWarning (f64_as_u64 (loop_lag v psql r * 1000)) (f64_as_u64 (lag_threshold md * 1000)),
                      Warning))
              (filter (\<lambda>r. check_tcp r \<and> thr < f64_as_u64 (loop_lag v psql r * 1000000)) rs)) \<and>
     (\<not> check_tcp p \<longrightarrow> sh' = sh\<lparr>sh_state := Broken\<rparr> \<and>
      out = [(''replication-shim'', ReplicationLagWarning 0 0, Error)])"
proof (rule conjI)
  let ?up = "length (filter check_tcp rs)" and ?down = "length (filter (\<lambda>r. \<not> check_tcp r) rs)"
  have sum: "?up + ?down = length rs"
    by (rule sum_length_filter_compl)
  have none: "?up = 0 \<longleftrightarrow> (\<forall>r\<in>set rs. \<not> check_tcp r)" "?down = 0 \<longleftrightarrow> (\<forall>r\<in>set rs. check_tcp r)"
    by (simp_all add: filter_empty_conv)
  have tick: "sh_state sh' = overall_state (length rs) ?up ?down" "replicas_healthy sh' = ?up"
    "replicas_broken sh' = ?down" "out = emitted (check_all v psql check_tcp l)" if "check_tcp p"
    using assms that by (auto simp: health_tick_def Let_def check_all_spec)
  have "sh_state sh' = Healthy \<longleftrightarrow> (\<forall>r\<in>set rs. check_tcp r)"
    "sh_state sh' = Broken \<longleftrightarrow> rs \<noteq> [] \<and> (\<forall>r\<in>set rs. \<not> check_tcp r)" if "check_tcp p"
    unfolding tick(1) [OF that] overall_state_split [OF sum] using sum none by auto
  moreover have "out = map (\<lambda>r. (''replication-shim'',
                      ReplicationLagWarning (f64_as_u64 (loop_lag v psql r * 1000)) (f64_as_u64 (lag_threshold md * 1000)),
                      Warning))
              (filter (\<lambda>r. check_tcp r \<and> thr < f64_as_u64 (loop_lag v psql r * 1000000)) rs)" if "check_tcp p"
    unfolding tick(4) [OF that] using assms(1) by (simp add: check_all_spec)
  ultimately show "check_tcp p \<longrightarrow>
      (sh_state sh' = Healthy \<longleftrightarrow> (\<forall>r\<in>set rs. check_tcp r)) \<and>
      (sh_state sh' = Broken \<longleftrightarrow> rs \<noteq> [] \<and> (\<forall>r\<in>set rs. \<not> check_tcp r)) \<and>
      replicas_healthy sh' + replicas_broken sh' = length rs \<and>
      out = map (\<lambda>r. (''replication-shim'',
                      ReplicationLagWarning (f64_as_u64 (loop_lag v psql r * 1000)) (f64_as_u64 (lag_threshold md * 1000)),
                      Warning))
              (filter (\<lambda>r. check_tcp r \<and> thr < f64_as_u64 (loop_lag v psql r * 1000000)) rs)"
    using tick(2,3) sum by simp
  show "\<not> check_tcp p \<longrightarrow> sh' = sh\<lparr>sh_state := Broken\<rparr> \<and>
      out = [(''replication-shim'', ReplicationLagWarning 0 0, Error)]"
    using assms by (auto simp: health_tick_def)
qed

definition sample_loop :: health_loop where
  "sample_loop = \<lparr>hl_primary = ''p'', hl_replicas = [''r''], hl_mode = ''asynchronous'',
     hl_lag_threshold_bytes = 1048576, hl_bus = True\<rparr>"

theorem health_tick_spec_witness:
  "snd (health_tick sample_validators (\<lambda>_ _ _. NotRun ''x'') (\<lambda>a. a = ''p'') sample_loop shared_state_new) = [] \<and>
   sh_state (fst (health_tick sample_validators (\<lambda>_ _ _. NotRun ''x'') (\<lambda>a. a = ''p'') sample_loop shared_state_new)) = Broken"
  using health_tick_spec [OF sample_loop_def surjective_pairing,
      where v = sample_validators and psql = "\<lambda>_ _ _. NotRun ''x''" and check_tcp = "\<lambda>a. a = ''p''"
        and sh = shared_state_new]
  by simp

text \<open>Two verdicts on the same replicas.  After any operations, if every replica in the
  table is more than thirty seconds behind, recalculation declares replication broken,
  while the health loop over the same addresses declares it healthy as long as they accept
  connections.\<close>

theorem lagging_replicas_two_verdicts:
  assumes "s = fold replication_exec ops (replication_new env now)"
    and "replica_status s \<noteq> []"
    and "\<forall>k st. map_of (replica_status s) k = Some st \<longrightarrow> 30 < lag_seconds st"
    and "check_tcp (hl_primary l)" and "\<forall>k\<in>set (hl_replicas l). check_tcp k"
  shows "sh_state (shared (recalculate_state s)) = Broken \<and>
    sh_state (fst (health_tick v psql check_tcp l (shared s))) = Healthy"
proof
  have inv: "replication_inv s"
    unfolding assms(1) by (rule replication_run_inv)
  have "rs_state st = Broken" if "(k, st) \<in> set (replica_status s)" for k st
  proof -
    have "map_of (replica_status s) k = Some st"
      using inv that by (simp add: replication_inv_def)
    then have "status_ok st" "30 < lag_seconds st"
      using inv assms(3) by (auto simp: replication_inv_def)
    then show ?thesis
      by (cases "rs_state st") (auto simp: status_ok_def)
  qed
  then have "list_all (\<lambda>(_, st). rs_state st = Broken) (replica_status s)"
    by (auto simp: list_all_iff)
  then show "sh_state (shared (recalculate_state s)) = Broken"
    using assms(2) by (simp add: recalculate_state_def Let_def count_all overall_state_def)
  show "sh_state (fst (health_tick v psql check_tcp l (shared s))) = Healthy"
    using assms(4,5) by (simp add: health_tick_def Let_def check_all_spec overall_state_def filter_id_conv)
qed

theorem lagging_replicas_two_verdicts_witness:
  "sh_state (shared (recalculate_state
      (fold replication_exec [RAdd 0 ''r'', RUpdate 1 ''r'' 5 60] (replication_new (\<lambda>_. None) 0)))) = Broken \<and>
   sh_state (fst (health_tick sample_validators (\<lambda>_ _ _. NotRun ''x'') (\<lambda>_. True) sample_loop (shared
      (fold replication_exec [RAdd 0 ''r'', RUpdate 1 ''r'' 5 60] (replication_new (\<lambda>_. None) 0))))) = Healthy"
  by (rule lagging_replicas_two_verdicts [OF refl])
    (simp_all add: replication_new_def add_replica_def update_replica_status_def hm_insert_def hm_remove_def
      hm_update_def classify_def Let_def)

text \<open>A promoted replica is not dropped from the configured addresses: after a
  successful promotion a restart of the shim enters the new primary in the replica table
  again and monitors it as a replica of itself, and the old primary is not monitored
  unless it was configured as a replica.\<close>

theorem promoted_primary_monitored_as_replica:
  assumes "s = fold replication_exec ops (replication_new env t0)"
    and "promote now addr s = (s1, Inr res)"
    and "replication_start ord now' bus s1 = (s2, Returns l)"
  shows "hl_primary l = addr \<and> addr \<in> set (hl_replicas l) \<and> old_primary res = primary s \<and>
    (primary s \<notin> set (replicas s) \<longrightarrow> primary s \<notin> set (hl_replicas l)) \<and>
    failovers_total (shared s1) = failovers_total (shared s) + 1"
proof -
  have inv: "replication_inv s"
    unfolding assms(1) by (rule replication_run_inv)
  have known: "map_of (replica_status s) addr \<noteq> None" and s1: "primary s1 = addr" "replicas s1 = replicas s"
    "replica_status s1 = hm_remove addr (replica_status s)" "old_primary res = primary s"
    "failovers_total (shared s1) = failovers_total (shared s) + 1"
    using assms(2) by (auto simp: promote_def Let_def recalculate_state_def split: if_splits)
  have l: "hl_primary l = addr" "set (hl_replicas l) = fst ` set (replica_status s1) \<union> set (replicas s)"
    using start_fields [OF assms(3)] s1(1,2) by simp_all
  have "addr \<in> set (replicas s)"
    using known inv by (auto simp: replication_inv_def)
  moreover have "k \<in> set (replicas s)" if "k \<in> fst ` set (replica_status s1)" for k
    using that inv s1(3) weak_map_of_SomeI [of k] by (fastforce simp: replication_inv_def)
  ultimately show ?thesis
    using l s1 by auto
qed

definition sample_shim :: replication_shim where
  "sample_shim = fold replication_exec [RAdd 0 ''r''] (replication_new (\<lambda>_. None) 0)"

theorem promoted_primary_monitored_as_replica_witness:
  "\<exists>s1 res s2 l. promote 2 ''r'' sample_shim = (s1, Inr res) \<and>
     replication_start id 3 True s1 = (s2, Returns l) \<and> hl_primary l = ''r'' \<and> ''r'' \<in> set (hl_replicas l)"
proof -
  have "map_of (replica_status sample_shim) ''r'' \<noteq> None" "check_secs sample_shim = 10"
    by (simp_all add: sample_shim_def add_replica_sel) (simp add: replication_new_def env_uint_def)
  then obtain s1 res where s1: "promote 2 ''r'' sample_shim = (s1, Inr res)" "check_secs s1 = 10"
    using promote_Some [of sample_shim "''r''" 2] by metis
  then obtain s2 l where l: "replication_start id 3 True s1 = (s2, Returns l)"
    by (simp add: replication_start_def Let_def start_sel)
  show ?thesis
    using s1 l promoted_primary_monitored_as_replica [OF sample_shim_def s1(1) l] by blast
qed

end
