(* ===== verification/Scheduler.thy ===== *)
theory Scheduler
  imports Prelude
begin

text \<open>
  \<^verbatim>\<open>scheduler-shim\<close>: the task table, retry delays and the loop that waits for the next task
  and runs it with retries.  Cron expressions are parsed and evaluated by the \<^verbatim>\<open>cron\<close> crate:
  \<^verbatim>\<open>from_str\<close> gives a schedule or an error text, \<^verbatim>\<open>upcoming s t\<close> the first time of \<^verbatim>\<open>s\<close> after \<^verbatim>\<open>t\<close>.
  \<^verbatim>\<open>from_json\<close> stands for \<^verbatim>\<open>serde_json\<close>.  Clock readings, random numbers, the results of the handler
  and the moments at which the shutdown channel fires are arguments.
\<close>

section \<open>Data\<close>

definition MAX_JITTER_SECS :: nat where
  "MAX_JITTER_SECS = 60"

datatype task_state = Pending | Running | Success | Failed

record retry_config =
  max_retries :: u32
  base_delay_secs :: u64
  max_delay_secs :: u64

definition retry_config_default :: retry_config where
  "retry_config_default = \<lparr>max_retries = 3, base_delay_secs = 5, max_delay_secs = 300\<rparr>"

record scheduled_task =
  st_name :: string
  schedule :: string
  command :: string
  args :: "string list"
  enabled :: bool
  timeout_secs :: nat
  retry :: retry_config

record task_runtime =
  state :: task_state
  last_run :: "time option"
  last_success :: "time option"
  last_failure :: "time option"
  consecutive_failures :: nat
  next_run :: "time option"

record 'c scheduler_shim =
  tasks :: "scheduled_task list"
  schedules :: "(string, 'c) hmap"
  runtime :: "(string, task_runtime) hmap"
  timezone :: string
  tasks_executed :: nat
  tasks_failed :: nat
  tasks_retried :: nat
  running :: bool
  has_handler :: bool

section \<open>Construction\<close>

definition load_tasks :: "(string \<Rightarrow> scheduled_task list option) \<Rightarrow> env \<Rightarrow> scheduled_task list" where
  "load_tasks from_json env =
     filter enabled (case Option.bind (env ''SCHEDULER_TASKS'') from_json of Some ts \<Rightarrow> ts | None \<Rightarrow> [])"

definition parse_schedules ::
  "(string \<Rightarrow> string + 'c) \<Rightarrow> scheduled_task list \<Rightarrow> (string, 'c) hmap" where
  "parse_schedules from_str ts =
     fold (\<lambda>t m. case from_str (schedule t) of Inr s \<Rightarrow> hm_insert (st_name t) s m | Inl _ \<Rightarrow> m) ts []"

definition next_fire :: "('c \<Rightarrow> time \<Rightarrow> time option) \<Rightarrow> (string, 'c) hmap \<Rightarrow> string \<Rightarrow> time \<Rightarrow> time option" where
  "next_fire upcoming ss nm now = Option.bind (map_of ss nm) (\<lambda>s. upcoming s now)"

definition scheduler_new ::
  "(string \<Rightarrow> scheduled_task list option) \<Rightarrow> (string \<Rightarrow> string + 'c) \<Rightarrow> ('c \<Rightarrow> time \<Rightarrow> time option)
   \<Rightarrow> env \<Rightarrow> time \<Rightarrow> 'c scheduler_shim" where
  "scheduler_new from_json from_str upcoming env now =
    (let ts = load_tasks from_json env;
         ss = parse_schedules from_str ts
     in \<lparr>tasks = ts, schedules = ss,
         runtime = fold (\<lambda>t m. hm_insert (st_name t)
             \<lparr>state = Pending, last_run = None, last_success = None, last_failure = None,
              consecutive_failures = 0, next_run = next_fire upcoming ss (st_name t) now\<rparr> m) ts [],
         timezone = env_str env ''SCHEDULER_TIMEZONE'' ''UTC'',
         tasks_executed = 0, tasks_failed = 0, tasks_retried = 0, running = False, has_handler = False\<rparr>)"

definition set_handler :: "'c scheduler_shim \<Rightarrow> 'c scheduler_shim" where
  "set_handler s = s\<lparr>has_handler := True\<rparr>"

section \<open>Delays\<close>

text \<open>\<^verbatim>\<open>2u32.saturating_pow(attempt.min(31))\<close> never saturates; the product is a \<^verbatim>\<open>u64\<close>.\<close>

definition backoff :: "nat \<Rightarrow> retry_config \<Rightarrow> u64" where
  "backoff attempt c = min (base_delay_secs c * 2 ^ min attempt 31) (max_delay_secs c)"

text \<open>\<^verbatim>\<open>rnd\<close> is the random number of the interval from 0 to 1.\<close>

definition retry_delay :: "f64 \<Rightarrow> nat \<Rightarrow> retry_config \<Rightarrow> u64" where
  "retry_delay rnd attempt c =
    (let capped = backoff attempt c
     in capped + f64_as_u64 (of_nat (unat capped) * (1 / 2) * rnd))"

definition jitter_offset :: "(nat \<Rightarrow> nat) \<Rightarrow> nat" where
  "jitter_offset rand_below = rand_below MAX_JITTER_SECS"

section \<open>Task states\<close>

definition task_state_of :: "'c scheduler_shim \<Rightarrow> string \<Rightarrow> task_state option" where
  "task_state_of s nm = map_option state (map_of (runtime s) nm)"

definition next_run_of :: "'c scheduler_shim \<Rightarrow> string \<Rightarrow> time option" where
  "next_run_of s nm = Option.bind (map_of (runtime s) nm) next_run"

definition mark_success :: "time \<Rightarrow> time option \<Rightarrow> task_runtime \<Rightarrow> task_runtime" where
  "mark_success now nxt r =
     r\<lparr>state := Success, last_success := Some now, consecutive_failures := 0, next_run := nxt\<rparr>"

definition mark_failed :: "time \<Rightarrow> time option \<Rightarrow> task_runtime \<Rightarrow> task_runtime" where
  "mark_failed now nxt r =
     r\<lparr>state := Failed, last_failure := Some now,
       consecutive_failures := consecutive_failures r + 1, next_run := nxt\<rparr>"

definition mark_running :: "time \<Rightarrow> task_runtime \<Rightarrow> task_runtime" where
  "mark_running now r = r\<lparr>state := Running, last_run := Some now\<rparr>"

definition update_task_state ::
  "('c \<Rightarrow> time \<Rightarrow> time option) \<Rightarrow> time \<Rightarrow> string \<Rightarrow> task_state \<Rightarrow> 'c scheduler_shim \<Rightarrow> 'c scheduler_shim" where
  "update_task_state upcoming now nm st s =
    (if map_of (runtime s) nm = None then s
     else
       (let nxt = next_fire upcoming (schedules s) nm now in
        case st of
          Success \<Rightarrow> s\<lparr>runtime := hm_update nm (mark_success now nxt) (runtime s),
                        tasks_executed := tasks_executed s + 1\<rparr>
        | Failed \<Rightarrow> s\<lparr>runtime := hm_update nm (mark_failed now nxt) (runtime s),
                       tasks_failed := tasks_failed s + 1\<rparr>
        | Running \<Rightarrow> s\<lparr>runtime := hm_update nm (mark_running now) (runtime s)\<rparr>
        | Pending \<Rightarrow> s\<lparr>runtime := hm_update nm (\<lambda>r. r\<lparr>state := Pending\<rparr>) (runtime s)\<rparr>))"

definition validate_schedules ::
  "(string \<Rightarrow> string + 'c) \<Rightarrow> 'c scheduler_shim \<Rightarrow> (string \<times> string) list" where
  "validate_schedules from_str s =
     List.map_filter (\<lambda>t. case from_str (schedule t) of Inl e \<Rightarrow> Some (st_name t, e) | Inr _ \<Rightarrow> None) (tasks s)"

record task_info =
  ti_name :: string
  ti_schedule :: string
  ti_runtime :: task_runtime

definition list_tasks :: "'c scheduler_shim \<Rightarrow> task_info list" where
  "list_tasks s =
     List.map_filter (\<lambda>t. map_option (\<lambda>r. \<lparr>ti_name = st_name t, ti_schedule = schedule t, ti_runtime = r\<rparr>)
       (map_of (runtime s) (st_name t))) (tasks s)"

section \<open>The loop\<close>

text \<open>The task works on copies of the table, with counters of its own.\<close>

record 'c sched_loop =
  valid_tasks :: "scheduled_task list"
  lp_schedules :: "(string, 'c) hmap"
  lp_runtime :: "(string, task_runtime) hmap"
  lp_executed :: nat
  lp_failed :: nat
  lp_retried :: nat

definition spawn_scheduler_loop :: "'c scheduler_shim \<Rightarrow> 'c sched_loop option" where
  "spawn_scheduler_loop s =
    (if \<not> has_handler s then None
     else
       (let valid = filter (\<lambda>t. map_of (schedules s) (st_name t) \<noteq> None) (tasks s) in
        if valid = [] then None
        else Some \<lparr>valid_tasks = valid, lp_schedules = schedules s, lp_runtime = runtime s,
                   lp_executed = 0, lp_failed = 0, lp_retried = 0\<rparr>))"

text \<open>The scan for the task to fire next; each task is looked at with a clock reading of its own.\<close>

fun earliest_task ::
  "('c \<Rightarrow> time \<Rightarrow> time option) \<Rightarrow> (string, 'c) hmap \<Rightarrow> (scheduled_task \<times> time) list
   \<Rightarrow> (time \<times> string) option \<Rightarrow> (time \<times> string) option" where
  "earliest_task upcoming ss [] best = best"
| "earliest_task upcoming ss ((t, now) # ts) best =
    earliest_task upcoming ss ts
      (case next_fire upcoming ss (st_name t) now of
         None \<Rightarrow> best
       | Some u \<Rightarrow>
           (case best of
              Some (u0, nm) \<Rightarrow> if u < u0 then Some (u, st_name t) else best
            | None \<Rightarrow> Some (u, st_name t)))"

text \<open>How long the loop sleeps before a task that is due in the future.\<close>

definition fire_wait :: "(nat \<Rightarrow> nat) \<Rightarrow> time \<Rightarrow> time \<Rightarrow> time" where
  "fire_wait rand_upto fire_time now =
    (let sleep_duration = fire_time - now;
         jitter = rand_upto (min MAX_JITTER_SECS (nat (sleep_duration div second) div 4))
     in sleep_duration + int jitter * second)"

text \<open>What happens from outside during one pass: the clock readings of the scan and before
  the wait, whether the shutdown channel fires while waiting, the attempts before which it fires, the results of
  the handler by attempt, and the clock when the run begins and ends.\<close>

record pass_env =
  scan_clock :: "time list"
  wait_clock :: time
  stop_waiting :: bool
  stop_before :: "nat \<Rightarrow> bool"
  handler_result :: "nat \<Rightarrow> string + unit"
  begin_clock :: time
  end_clock :: time

datatype attempts_end = Stopped | Finished "string option"

text \<open>The attempts \<^verbatim>\<open>k\<close>, \<^verbatim>\<open>k + 1\<close>, \dots as long as \<^verbatim>\<open>n\<close> remain: the number of handler calls and
  of retries, and how it ended.\<close>

fun run_attempts :: "pass_env \<Rightarrow> nat \<Rightarrow> nat \<Rightarrow> string option \<Rightarrow> nat \<times> nat \<times> attempts_end" where
  "run_attempts w 0 k err = (0, 0, Finished err)"
| "run_attempts w (Suc n) k err =
    (let retried = (if 0 < k then 1 else 0) in
     if 0 < k \<and> stop_before w k then (0, retried, Stopped)
     else
       (case handler_result w k of
          Inr _ \<Rightarrow> (1, retried, Finished None)
        | Inl e \<Rightarrow>
            (case run_attempts w n (k + 1) (Some e) of (c, r, out) \<Rightarrow> (c + 1, r + retried, out))))"

datatype pass_end = Continue | Exit

definition finish_task ::
  "('c \<Rightarrow> time \<Rightarrow> time option) \<Rightarrow> time \<Rightarrow> string \<Rightarrow> string option \<Rightarrow> 'c sched_loop \<Rightarrow> 'c sched_loop" where
  "finish_task upcoming now nm err l =
    (if map_of (lp_runtime l) nm = None then l
     else
       (let nxt = next_fire upcoming (lp_schedules l) nm now in
        case err of
          None \<Rightarrow> l\<lparr>lp_runtime := hm_update nm (mark_success now nxt) (lp_runtime l), lp_executed := lp_executed l + 1\<rparr>
        | Some _ \<Rightarrow> l\<lparr>lp_runtime := hm_update nm (mark_failed now nxt) (lp_runtime l), lp_failed := lp_failed l + 1\<rparr>))"

definition max_attempts :: "scheduled_task \<Rightarrow> nat" where
  "max_attempts t = unat (max_retries (retry t) + 1)"

text \<open>One pass of the loop: the state after it, the task that was fired with the number of handler
  calls, and whether the loop goes on.\<close>

definition loop_pass ::
  "('c \<Rightarrow> time \<Rightarrow> time option) \<Rightarrow> pass_env \<Rightarrow> 'c sched_loop
   \<Rightarrow> 'c sched_loop \<times> (string \<times> nat) option \<times> pass_end" where
  "loop_pass upcoming w l =
    (case earliest_task upcoming (lp_schedules l) (zip (valid_tasks l) (scan_clock w)) None of
       None \<Rightarrow> (l, None, if stop_waiting w then Exit else Continue)
     | Some (fire_time, nm) \<Rightarrow>
         if wait_clock w < fire_time \<and> stop_waiting w then (l, None, Exit)
         else
           (case find (\<lambda>t. st_name t = nm) (valid_tasks l) of
              None \<Rightarrow> (l, None, Continue)
            | Some t \<Rightarrow>
                (let l1 = l\<lparr>lp_runtime := hm_update nm (mark_running (begin_clock w)) (lp_runtime l)\<rparr> in
                 case run_attempts w (max_attempts t) 0 None of
                   (calls, retried, Stopped) \<Rightarrow>
                     (l1\<lparr>lp_retried := lp_retried l1 + retried\<rparr>, Some (nm, calls), Exit)
                 | (calls, retried, Finished err) \<Rightarrow>
                     (finish_task upcoming (end_clock w) nm err (l1\<lparr>lp_retried := lp_retried l1 + retried\<rparr>),
                      Some (nm, calls), Continue))))"

fun run_loop ::
  "('c \<Rightarrow> time \<Rightarrow> time option) \<Rightarrow> pass_env list \<Rightarrow> 'c sched_loop \<Rightarrow> 'c sched_loop \<times> (string \<times> nat) list" where
  "run_loop upcoming [] l = (l, [])"
| "run_loop upcoming (w # ws) l =
    (case loop_pass upcoming w l of
       (l', fired, Exit) \<Rightarrow> (l', case fired of Some f \<Rightarrow> [f] | None \<Rightarrow> [])
     | (l', fired, Continue) \<Rightarrow>
         (case run_loop upcoming ws l' of
            (l'', fs) \<Rightarrow> (l'', (case fired of Some f \<Rightarrow> [f] | None \<Rightarrow> []) @ fs)))"

section \<open>Capability\<close>

definition scheduler_start :: "'c scheduler_shim \<Rightarrow> 'c scheduler_shim \<times> 'c sched_loop option" where
  "scheduler_start s = (let s1 = s\<lparr>running := True\<rparr> in (s1, spawn_scheduler_loop s1))"

definition scheduler_stop :: "'c scheduler_shim \<Rightarrow> 'c scheduler_shim" where
  "scheduler_stop s = s\<lparr>running := False\<rparr>"

definition scheduler_metrics :: "'c scheduler_shim \<Rightarrow> metric list" where
  "scheduler_metrics s =
    [(''scheduler_tasks_total'', of_nat (length (tasks s))),
     (''scheduler_tasks_executed'', of_nat (tasks_executed s)),
     (''scheduler_tasks_failed'', of_nat (tasks_failed s)),
     (''scheduler_tasks_retried'', of_nat (tasks_retried s))]"

section \<open>Attempts\<close>

lemma run_attempts_spec:
  assumes "\<forall>j. \<not> stop_before w j" and "run_attempts w n k err = (calls, retried, out)" and "0 < n"
  shows "\<exists>e. out = Finished e \<and> 0 < calls \<and> calls \<le> n \<and> retried + (if k = 0 then 1 else 0) = calls \<and>
    (\<forall>j. k \<le> j \<longrightarrow> j + 1 < k + calls \<longrightarrow> isl (handler_result w j)) \<and>
    (e = None \<longleftrightarrow> \<not> isl (handler_result w (k + calls - 1))) \<and> (e \<noteq> None \<longrightarrow> calls = n)"
  using assms(2,3)
proof (induction n arbitrary: k err calls retried out)
  case (Suc n)
  show ?case
  proof (cases "handler_result w k")
    case (Inr u)
    then show ?thesis
      using Suc.prems assms(1) by (auto simp: Let_def split: if_splits)
  next
    case (Inl e)
    obtain c r o' where rec: "run_attempts w n (k + 1) (Some e) = (c, r, o')"
      by (cases "run_attempts w n (k + 1) (Some e)")
    then have out: "calls = c + 1" "out = o'" "retried = r + (if 0 < k then 1 else 0)"
      using Suc.prems(1) assms(1) Inl by (auto simp: Let_def split: if_splits)
    show ?thesis
    proof (cases "n = 0")
      case True
      then show ?thesis
        using rec out Inl by (auto simp: le_less_Suc_eq)
    next
      case False
      then have "0 < n"
        by simp
      from Suc.IH [OF rec this] obtain e' where e': "o' = Finished e'" "0 < c" "c \<le> n" "r + (if k + 1 = 0 then 1 else 0) = c"
        "\<forall>j. k + 1 \<le> j \<longrightarrow> j + 1 < k + 1 + c \<longrightarrow> isl (handler_result w j)"
        "e' = None \<longleftrightarrow> \<not> isl (handler_result w (k + 1 + c - 1))" "e' \<noteq> None \<longrightarrow> c = n"
        by (elim exE conjE) (rule that)
      have "isl (handler_result w j)" if "k \<le> j" "j + 1 < k + calls" for j
        using that e'(5) Inl out(1) by (cases "j = k") auto
      then have all: "\<forall>j. k \<le> j \<longrightarrow> j + 1 < k + calls \<longrightarrow> isl (handler_result w j)"
        by blast
      show ?thesis
      proof (intro exI conjI)
        show "out = Finished e'" "0 < calls" "calls \<le> Suc n"
          using e'(1,3) out(1,2) by simp_all
        show "retried + (if k = 0 then 1 else 0) = calls" "e' \<noteq> None \<longrightarrow> calls = Suc n"
          using e'(4,7) out(1,3) by simp_all
        show "(e' = None) = (\<not> isl (handler_result w (k + calls - 1)))"
          using e'(6) out(1) by simp
      qed (rule all)
    qed
  qed
qed simp

lemma max_attempts_Suc: "max_retries (retry t) \<noteq> - 1 \<Longrightarrow> max_attempts t = unat (max_retries (retry t)) + 1"
  using unatSuc [of "max_retries (retry t)"] by (simp add: max_attempts_def add.commute eq_neg_iff_add_eq_0)

text \<open>A task is attempted until the first success and at most \<^verbatim>\<open>max_retries\<close> plus one times; every
  attempt but the first is a retry; the run counts as a success exactly when the last
  attempt succeeded, and a failure is only reported after all attempts have been used.
  This fails only for the largest \<^verbatim>\<open>u32\<close> as the number of retries, where the sum wraps
  around: the handler is never called and the task is reported as successful.\<close>

theorem task_attempts:
  assumes "\<forall>j. \<not> stop_before w j" and "run_attempts w (max_attempts t) 0 None = (calls, retried, out)"
  shows "if max_retries (retry t) = - 1 then calls = 0 \<and> out = Finished None
    else \<exists>err. out = Finished err \<and> 0 < calls \<and> calls \<le> unat (max_retries (retry t)) + 1 \<and>
      retried = calls - 1 \<and> (\<forall>j<calls - 1. isl (handler_result w j)) \<and>
      (err = None \<longleftrightarrow> \<not> isl (handler_result w (calls - 1))) \<and>
      (err \<noteq> None \<longrightarrow> calls = unat (max_retries (retry t)) + 1)"
proof (cases "max_retries (retry t) = - 1")
  case True
  then show ?thesis
    using assms(2) by (simp add: max_attempts_def)
next
  case False
  then show ?thesis
    using run_attempts_spec [OF assms] by (auto simp: max_attempts_Suc)
qed

definition sample_task :: "string \<Rightarrow> scheduled_task" where
  "sample_task nm = \<lparr>st_name = nm, schedule = ''0 * * * * *'', command = ''true'', args = [], enabled = True,
     timeout_secs = 300, retry = retry_config_default\<rparr>"

definition sample_pass :: pass_env where
  "sample_pass = \<lparr>scan_clock = [0, 1], wait_clock = 2, stop_waiting = False, stop_before = (\<lambda>_. False),
     handler_result = (\<lambda>k. if k < 2 then Inl ''down'' else Inr ()), begin_clock = 61, end_clock = 62\<rparr>"

theorem task_attempts_witness:
  "\<exists>calls retried. run_attempts sample_pass (max_attempts (sample_task ''a'')) 0 None = (calls, retried, Finished None) \<and>
     0 < calls \<and> calls \<le> 4"
proof -
  have "max_attempts (sample_task ''a'') = Suc (Suc (Suc (Suc 0)))"
    by (simp add: max_attempts_def sample_task_def retry_config_default_def)
  then have run: "run_attempts sample_pass (max_attempts (sample_task ''a'')) 0 None = (3, 2, Finished None)"
    by (simp add: sample_pass_def)
  have "\<forall>j. \<not> stop_before sample_pass j"
    by (simp add: sample_pass_def)
  from task_attempts [OF this run] run show ?thesis
    by (simp add: sample_task_def retry_config_default_def)
qed

section \<open>Retry delays\<close>

lemma unat_f64_as_u64:
  assumes "0 \<le> x" and "x < 2 ^ 64"
  shows "int (unat (f64_as_u64 x)) = \<lfloor>x\<rfloor>"
proof -
  have "0 \<le> \<lfloor>x\<rfloor>" "\<lfloor>x\<rfloor> < 2 ^ 64"
    using assms by (auto simp: floor_less_iff)
  then show ?thesis
    using int_unat_f64_as_u64 [of x] by linarith
qed

text \<open>A retry delay lies between the capped exponential delay and one and a half times
  it, so it never exceeds one and a half times the configured maximum (maxima below half the
  range of \<^verbatim>\<open>u64\<close>, where the sum cannot wrap around).\<close>

theorem retry_delay_bounds:
  assumes "0 \<le> rnd" and "rnd \<le> 1" and "unat (max_delay_secs c) < 2 ^ 63"
  shows "unat (backoff k c) \<le> unat (retry_delay rnd k c) \<and>
    2 * unat (retry_delay rnd k c) \<le> 3 * unat (backoff k c) \<and>
    2 * unat (retry_delay rnd k c) \<le> 3 * unat (max_delay_secs c)"
proof -
  let ?b = "backoff k c"
  define b where "b = unat ?b"
  let ?x = "of_nat b * (1 / 2) * rnd :: rat"
  have cap: "b \<le> unat (max_delay_secs c)"
    by (simp add: b_def backoff_def word_le_nat_alt [symmetric])
  have x: "0 \<le> ?x" "?x \<le> of_nat b / 2"
    using assms(1,2) mult_left_le [of rnd "of_nat b / 2"] by simp_all
  then have lt: "?x < 2 ^ 64"
    using cap assms(3) by (simp add: field_simps)
  have "2 * \<lfloor>?x\<rfloor> \<le> int b"
  proof -
    have "of_int (2 * \<lfloor>?x\<rfloor>) \<le> (2 * ?x :: rat)"
      using of_int_floor_le [of ?x] by simp
    also have "\<dots> \<le> of_int (int b)"
      using x(2) by simp
    finally show ?thesis
      by (simp only: of_int_le_iff)
  qed
  then have j: "2 * unat (f64_as_u64 ?x) \<le> b"
    using unat_f64_as_u64 [OF x(1) lt] by linarith
  have "unat (?b + f64_as_u64 ?x) = unat ?b + unat (f64_as_u64 ?x)"
    using j cap assms(3) b_def by (intro unat_plus_simple [THEN iffD1] no_olen_add_nat [THEN iffD2]) simp
  then show ?thesis
    using j cap by (simp add: retry_delay_def Let_def b_def)
qed

theorem retry_delay_bounds_witness:
  "2 * unat (retry_delay (1 / 3) 2 retry_config_default) \<le> 3 * unat (max_delay_secs retry_config_default)"
  using retry_delay_bounds [of "1 / 3" retry_config_default 2] by (simp add: retry_config_default_def)

section \<open>Tasks with the same schedule\<close>

lemma earliest_task_first:
  "earliest_task upcoming ss ts best = Some (u, nm) \<Longrightarrow>
    best = Some (u, nm) \<or>
    (\<exists>i<length ts. st_name (fst (ts ! i)) = nm \<and> next_fire upcoming ss nm (snd (ts ! i)) = Some u \<and>
       (\<forall>j<i. \<forall>v. next_fire upcoming ss (st_name (fst (ts ! j))) (snd (ts ! j)) = Some v \<longrightarrow> u < v) \<and>
       (\<forall>v n. best = Some (v, n) \<longrightarrow> u < v))"
proof (induction upcoming ss ts best rule: earliest_task.induct)
  case (2 upcoming ss t now ts best)
  let ?best = "case next_fire upcoming ss (st_name t) now of None \<Rightarrow> best
     | Some u \<Rightarrow> (case best of Some (u0, nm) \<Rightarrow> if u < u0 then Some (u, st_name t) else best
                  | None \<Rightarrow> Some (u, st_name t))"
  have rec: "earliest_task upcoming ss ts ?best = Some (u, nm)"
    using "2.prems" by simp
  show ?case
  proof (cases "?best = Some (u, nm)")
    case True
    then show ?thesis
      by (auto simp: Let_def split: option.splits if_splits prod.splits intro!: exI [of _ 0])
  next
    case False
    then obtain i where i: "i < length ts" "st_name (fst (ts ! i)) = nm"
      "next_fire upcoming ss nm (snd (ts ! i)) = Some u"
      "\<forall>j<i. \<forall>v. next_fire upcoming ss (st_name (fst (ts ! j))) (snd (ts ! j)) = Some v \<longrightarrow> u < v"
      "\<forall>v n. ?best = Some (v, n) \<longrightarrow> u < v"
      using "2.IH" [OF rec] by blast
    have "u < v" if "next_fire upcoming ss (st_name t) now = Some v" for v
      using i(5) that by (force split: option.splits if_splits prod.splits)
    moreover have "u < v" if "best = Some (v, n)" for v n
      using i(5) that by (force split: option.splits if_splits prod.splits)
    ultimately show ?thesis
      using i(1-4) by (intro disjI2 exI [of _ "Suc i"]) (auto simp: less_Suc_eq_0_disj)
  qed
qed simp

lemma finish_task_keeps [simp]:
  "valid_tasks (finish_task upcoming now nm err l) = valid_tasks l"
  "lp_schedules (finish_task upcoming now nm err l) = lp_schedules l"
  by (simp_all add: finish_task_def Let_def split: option.splits)

lemma loop_pass_fired:
  assumes "loop_pass upcoming w l = (l', fired, out)"
  shows "valid_tasks l' = valid_tasks l" "lp_schedules l' = lp_schedules l"
    "fired = Some (nm, calls) \<Longrightarrow>
      \<exists>u. earliest_task upcoming (lp_schedules l) (zip (valid_tasks l) (scan_clock w)) None = Some (u, nm)"
  using assms
  by (auto simp: loop_pass_def Let_def split: option.splits prod.splits attempts_end.splits if_splits)

text \<open>Tasks with the same schedule starve each other.  With a clock that does not run backwards and a
  cron evaluation that is monotone in time, of two tasks with the same schedule the one
  listed later is never fired, however long the loop runs.\<close>

theorem equal_schedules_starve:
  assumes mono: "\<And>s t t' u u'. t \<le> t' \<Longrightarrow> upcoming s t = Some u \<Longrightarrow> upcoming s t' = Some u' \<Longrightarrow> u \<le> u'"
    and ended: "\<And>s t t'. t \<le> t' \<Longrightarrow> upcoming s t = None \<Longrightarrow> upcoming s t' = None"
    and clock: "\<forall>w\<in>set ws. sorted (scan_clock w)"
    and tasks: "distinct (map st_name (valid_tasks l))" "i < j" "j < length (valid_tasks l)"
    and same: "map_of (lp_schedules l) (st_name (valid_tasks l ! i)) = map_of (lp_schedules l) (st_name (valid_tasks l ! j))"
  shows "st_name (valid_tasks l ! j) \<notin> fst ` set (snd (run_loop upcoming ws l))"
  using clock tasks same
proof (induction ws arbitrary: l)
  case (Cons w ws)
  let ?n = "st_name (valid_tasks l ! j)" and ?ts = "zip (valid_tasks l) (scan_clock w)"
  have never: "earliest_task upcoming (lp_schedules l) ?ts None \<noteq> Some (u, ?n)" for u
  proof
    assume "earliest_task upcoming (lp_schedules l) ?ts None = Some (u, ?n)"
    then obtain k where k: "k < length ?ts" "st_name (fst (?ts ! k)) = ?n"
      "next_fire upcoming (lp_schedules l) ?n (snd (?ts ! k)) = Some u"
      "\<forall>m<k. \<forall>v. next_fire upcoming (lp_schedules l) (st_name (fst (?ts ! m))) (snd (?ts ! m)) = Some v \<longrightarrow> u < v"
      using earliest_task_first [of upcoming "lp_schedules l" ?ts None u ?n] by auto
    have "k = j"
      using k(1,2) Cons.prems(2,4) by (auto simp: distinct_conv_nth)
    moreover have "scan_clock w ! i \<le> scan_clock w ! j"
      using Cons.prems(1,3) k(1) \<open>k = j\<close> by (intro sorted_nth_mono) auto
    moreover obtain s where s: "map_of (lp_schedules l) ?n = Some s" "upcoming s (scan_clock w ! j) = Some u"
      using k(1,3) \<open>k = j\<close> by (auto simp: next_fire_def bind_eq_Some_conv)
    ultimately obtain v where v: "upcoming s (scan_clock w ! i) = Some v" "v \<le> u"
      using mono ended by (metis option.exhaust option.distinct(1))
    then have "u < v"
      using k(1,4) \<open>k = j\<close> Cons.prems(3,5) s by (simp add: next_fire_def)
    then show False
      using v by simp
  qed
  obtain l' fired out where p: "loop_pass upcoming w l = (l', fired, out)"
    by (cases "loop_pass upcoming w l")
  have "?n \<notin> fst ` set (snd (run_loop upcoming ws l'))"
    using Cons.IH [of l'] Cons.prems loop_pass_fired [OF p] by simp
  moreover have "fired = None \<or> (\<exists>m calls. fired = Some (m, calls) \<and> m \<noteq> ?n)"
    using never loop_pass_fired(3) [OF p] by (cases fired) auto
  ultimately show ?case
    by (cases out) (auto simp: p split: prod.splits)
qed simp

definition every_minute :: "unit \<Rightarrow> time \<Rightarrow> time option" where
  "every_minute _ t = Some ((t div (60 * second) + 1) * (60 * second))"

definition sample_sched_loop :: "unit sched_loop" where
  "sample_sched_loop = \<lparr>valid_tasks = [sample_task ''a'', sample_task ''b''], lp_schedules = [(''a'', ()), (''b'', ())],
     lp_runtime = [], lp_executed = 0, lp_failed = 0, lp_retried = 0\<rparr>"

theorem equal_schedules_starve_witness:
  "''b'' \<notin> fst ` set (snd (run_loop every_minute [sample_pass, sample_pass] sample_sched_loop))"
proof -
  have "st_name (valid_tasks sample_sched_loop ! 1) = ''b''"
    by (simp add: sample_sched_loop_def sample_task_def)
  moreover have "st_name (valid_tasks sample_sched_loop ! 1)
      \<notin> fst ` set (snd (run_loop every_minute [sample_pass, sample_pass] sample_sched_loop))"
    by (rule equal_schedules_starve [of _ _ _ 0])
      (auto simp: every_minute_def sample_sched_loop_def sample_task_def sample_pass_def zdiv_mono1)
  ultimately show ?thesis
    by simp
qed

end
