(* ===== verification/Audit_Trail.thy ===== *)
theory Audit_Trail
  imports Config "HOL-Library.Countable" "HOL-Library.Char_ord" "HOL-Library.List_Lexorder"
begin

text \<open>
  \<^verbatim>\<open>audit-shim\<close>: audit entries, their log in memory and the log files on disk, with rotation,
  loading, queries and statistics.  The log directory is a table of file contents, or absent.
  JSON encoding and decoding of an entry, the textual time stamps of \<^verbatim>\<open>chrono\<close>, the faults of the file
  system and of the webhook are arguments.  A write that fails may leave part of the text at the end of the file.
\<close>

section \<open>Data\<close>

record audit_entry =
  ae_id :: string
  ae_timestamp :: string
  ae_database :: string
  operation :: string
  table :: "string option"
  query_text :: "string option"
  duration_ms :: nat
  rows_affected :: "nat option"
  client_addr :: "string option"
  ae_user :: "string option"
  success :: bool
  ae_error :: "string option"

record audit_filter =
  fl_operation :: "string option"
  fl_table :: "string option"
  fl_success :: "bool option"
  fl_min_duration_ms :: "nat option"
  since :: "string option"
  fl_limit :: nat

definition audit_filter_default :: audit_filter where
  "audit_filter_default = \<lparr>fl_operation = None, fl_table = None, fl_success = None,
     fl_min_duration_ms = None, since = None, fl_limit = 100\<rparr>"

record audit_stats =
  total_entries :: nat
  success_count :: nat
  failure_count :: nat
  operations :: "(string, nat) hmap"
  avg_duration_ms :: f64
  st_max_duration_ms :: nat

record audit_shim =
  database :: string
  tables :: "string list"
  format :: string
  au_output :: string
  output_file :: "string option"
  webhook_url :: "string option"
  log_queries :: bool
  log_parameters :: bool
  min_duration_ms :: nat
  queries_logged :: nat
  queries_filtered :: nat
  total_duration_ms :: nat
  max_duration_ms :: nat
  last_log :: "time option"
  log :: "audit_entry list"
  entry_counter :: nat
  log_dir :: string
  max_entries :: nat
  http_client :: bool

definition audit_new :: "env \<Rightarrow> audit_shim" where
  "audit_new env =
     \<lparr>database = env_str env ''AUDIT_DATABASE'' [],
      tables = split_commas (env_str env ''AUDIT_TABLES'' []),
      format = env_str env ''AUDIT_FORMAT'' ''json'',
      au_output = env_str env ''AUDIT_OUTPUT'' ''stdout'',
      output_file = env ''AUDIT_OUTPUT_FILE'',
      webhook_url = env ''AUDIT_WEBHOOK_URL'',
      log_queries = env_flag env ''AUDIT_LOG_QUERIES'' False,
      log_parameters = env_flag env ''AUDIT_LOG_PARAMETERS'' False,
      min_duration_ms = env_uint 64 env ''AUDIT_MIN_DURATION_MS'' 0,
      queries_logged = 0, queries_filtered = 0, total_duration_ms = 0, max_duration_ms = 0,
      last_log = None, log = [], entry_counter = 0,
      log_dir = env_str env ''AUDIT_LOG_DIR'' ''/var/log/audit-shim'',
      max_entries = env_uint 64 env ''AUDIT_MAX_ENTRIES'' 100000, http_client = False\<rparr>"

definition audit_with_config :: "env \<Rightarrow> string \<Rightarrow> string \<Rightarrow> nat \<Rightarrow> audit_shim" where
  "audit_with_config env db dir cap = (audit_new env)\<lparr>database := db, log_dir := dir, max_entries := cap\<rparr>"

text \<open>The encodings the code takes from \<^verbatim>\<open>serde_json\<close> and \<^verbatim>\<open>chrono\<close>, and the faults of one call.\<close>

record codec =
  to_json :: "audit_entry \<Rightarrow> string"
  from_json :: "string \<Rightarrow> audit_entry option"
  rfc3339 :: "time \<Rightarrow> string"
  parse_rfc3339 :: "string \<Rightarrow> time option"
  fmt_date :: "time \<Rightarrow> string"
  fmt_time :: "time \<Rightarrow> string"

record faults =
  mkdir_err :: "string option"
  readdir_err :: "string option"
  read_err :: "string \<Rightarrow> string option"
  append_err :: "string \<Rightarrow> write_fault option"
  post_err :: "string option"

definition no_faults :: faults where
  "no_faults = \<lparr>mkdir_err = None, readdir_err = None, read_err = (\<lambda>_. None), append_err = (\<lambda>_. None),
     post_err = None\<rparr>"

lemma no_faults_sel [simp]:
  "mkdir_err no_faults = None" "readdir_err no_faults = None" "read_err no_faults nm = None"
  "append_err no_faults nm = None" "post_err no_faults = None"
  by (simp_all add: no_faults_def)

record audit_world =
  disk :: "(string, string) hmap option"
  posted :: "(string \<times> audit_entry) list"

section \<open>Loading\<close>

definition is_log_file :: "string \<Rightarrow> bool" where
  "is_log_file nm = (ends_with nm ''.log'' \<and> starts_with nm ''audit-'')"

definition parse_entries :: "codec \<Rightarrow> string \<Rightarrow> audit_entry list" where
  "parse_entries J content =
     List.map_filter (\<lambda>l. let t = trim l in if t = [] then None else from_json J t) (str_lines content)"

definition id_number :: "audit_entry \<Rightarrow> nat option" where
  "id_number e =
    (if starts_with (ae_id e) ''audit-'' then parse_uint 64 (drop 6 (ae_id e)) else None)"

definition max_id :: "audit_entry list \<Rightarrow> nat" where
  "max_id es = fold (\<lambda>e mx. case id_number e of Some n \<Rightarrow> if mx < n then n else mx | None \<Rightarrow> mx) es 0"

fun read_files ::
  "codec \<Rightarrow> faults \<Rightarrow> (string, string) hmap \<Rightarrow> string list \<Rightarrow> string + audit_entry list" where
  "read_files J f files [] = Inr []"
| "read_files J f files (nm # nms) =
    (case read_err f nm of
       Some e \<Rightarrow> Inl e
     | None \<Rightarrow>
         (case read_files J f files nms of
            Inl e \<Rightarrow> Inl e
          | Inr es \<Rightarrow> Inr (parse_entries J (case map_of files nm of Some c \<Rightarrow> c | None \<Rightarrow> []) @ es)))"

definition load_from_disk ::
  "codec \<Rightarrow> faults \<Rightarrow> audit_shim \<times> audit_world \<Rightarrow> (audit_shim \<times> audit_world) \<times> (string + unit)" where
  "load_from_disk J f sw =
    (case sw of (s, w) \<Rightarrow>
     (case disk w of
        None \<Rightarrow>
          (case mkdir_err f of
             Some e \<Rightarrow> ((s, w), Inl e)
           | None \<Rightarrow> ((s, w\<lparr>disk := Some []\<rparr>), Inr ()))
      | Some files \<Rightarrow>
          (case readdir_err f of
             Some e \<Rightarrow> ((s, w), Inl e)
           | None \<Rightarrow>
               (case read_files J f files (sort (filter is_log_file (map fst files))) of
                  Inl e \<Rightarrow> ((s, w), Inl e)
                | Inr es \<Rightarrow> ((s\<lparr>entry_counter := max_id es, log := es\<rparr>, w), Inr ())))))"

section \<open>Recording\<close>

definition should_audit_table :: "audit_shim \<Rightarrow> string \<Rightarrow> bool" where
  "should_audit_table s tbl = (tables s = [] \<or> list_ex (\<lambda>t. eq_ignore_ascii_case t tbl) (tables s))"

definition create_entry ::
  "codec \<Rightarrow> time \<Rightarrow> string \<Rightarrow> string option \<Rightarrow> string option \<Rightarrow> nat \<Rightarrow> nat option \<Rightarrow> string option
   \<Rightarrow> string option \<Rightarrow> bool \<Rightarrow> string option \<Rightarrow> audit_shim \<Rightarrow> audit_shim \<times> audit_entry" where
  "create_entry J now op tbl q dur rows addr usr ok err s =
    (let s1 = s\<lparr>entry_counter := entry_counter s + 1\<rparr>
     in (s1, \<lparr>ae_id = ''audit-'' @ show_nat_pad 10 (entry_counter s1), ae_timestamp = rfc3339 J now,
              ae_database = database s1, operation = op, table = tbl,
              query_text = (if log_queries s1 then q else None), duration_ms = dur, rows_affected = rows,
              client_addr = addr, ae_user = usr, success = ok, ae_error = err\<rparr>))"

definition append_file :: "string \<Rightarrow> string \<Rightarrow> (string, string) hmap \<Rightarrow> (string, string) hmap" where
  "append_file nm txt files =
    (case map_of files nm of
       Some _ \<Rightarrow> hm_update nm (\<lambda>c. c @ txt) files
     | None \<Rightarrow> hm_insert nm txt files)"

definition append_written ::
  "write_fault option \<Rightarrow> string \<Rightarrow> string \<Rightarrow> (string, string) hmap \<Rightarrow> (string, string) hmap" where
  "append_written fault nm txt files =
    (case written fault txt of None \<Rightarrow> files | Some t \<Rightarrow> append_file nm t files)"

lemma append_written_ok [simp]: "append_written None nm txt files = append_file nm txt files"
  by (simp add: append_written_def)

definition json_lines :: "codec \<Rightarrow> audit_entry list \<Rightarrow> string" where
  "json_lines J es = concat (map (\<lambda>l. l @ [newline]) (map (to_json J) es))"

definition dir_files :: "audit_world \<Rightarrow> (string, string) hmap" where
  "dir_files w = (case disk w of Some fs \<Rightarrow> fs | None \<Rightarrow> [])"

definition write_to_disk ::
  "codec \<Rightarrow> faults \<Rightarrow> time \<Rightarrow> audit_entry \<Rightarrow> audit_world \<Rightarrow> audit_world \<times> (string + unit)" where
  "write_to_disk J f now e w =
    (case mkdir_err f of
       Some x \<Rightarrow> (w, Inl x)
     | None \<Rightarrow>
         (let w1 = w\<lparr>disk := Some (dir_files w)\<rparr>;
              nm = ''audit-'' @ fmt_date J now @ ''.log''
          in (w1\<lparr>disk := Some (append_written (append_err f nm) nm (json_lines J [e]) (dir_files w1))\<rparr>,
              write_result (append_err f nm))))"

definition rotate_log ::
  "codec \<Rightarrow> faults \<Rightarrow> time \<Rightarrow> audit_shim \<times> audit_world \<Rightarrow> (audit_shim \<times> audit_world) \<times> (string + unit)" where
  "rotate_log J f now sw =
    (case sw of (s, w) \<Rightarrow>
     if log s = [] then ((s, w), Inr ())
     else
       (let nm = ''audit-'' @ fmt_date J now @ ''-rotate-'' @ fmt_time J now @ ''.log'' in
        case disk w of
          None \<Rightarrow> ((s, w), Inl ''No such file or directory (os error 2)'')
        | Some files \<Rightarrow>
            ((if append_err f nm = None then s\<lparr>log := []\<rparr> else s,
              w\<lparr>disk := Some (append_written (append_err f nm) nm (json_lines J (log s)) files)\<rparr>),
             write_result (append_err f nm))))"

definition send_webhook :: "faults \<Rightarrow> audit_shim \<Rightarrow> audit_entry \<Rightarrow> audit_world \<Rightarrow> audit_world \<times> (string + unit)" where
  "send_webhook f s e w =
    (case webhook_url s of
       Some url \<Rightarrow>
         (if http_client s then
            (case post_err f of
               Some x \<Rightarrow> (w, Inl x)
             | None \<Rightarrow> (w\<lparr>posted := posted w @ [(url, e)]\<rparr>, Inr ()))
          else (w, Inr ()))
     | None \<Rightarrow> (w, Inr ()))"

definition count_entry :: "time \<Rightarrow> audit_entry \<Rightarrow> audit_shim \<Rightarrow> audit_shim" where
  "count_entry now e s =
     s\<lparr>total_duration_ms := total_duration_ms s + duration_ms e,
       max_duration_ms := (if max_duration_ms s < duration_ms e then duration_ms e else max_duration_ms s),
       queries_logged := queries_logged s + 1, last_log := Some now\<rparr>"

definition log_entry ::
  "codec \<Rightarrow> faults \<Rightarrow> time \<Rightarrow> audit_entry \<Rightarrow> audit_shim \<times> audit_world
   \<Rightarrow> (audit_shim \<times> audit_world) \<times> (string + bool)" where
  "log_entry J f now e sw =
    (case sw of (s, w) \<Rightarrow>
     if duration_ms e < min_duration_ms s
     then ((s\<lparr>queries_filtered := queries_filtered s + 1\<rparr>, w), Inr False)
     else
       (let s1 = count_entry now e s in
        case write_to_disk J f now e w of
          (w1, Inl x) \<Rightarrow> ((s1, w1), Inl x)
        | (w1, Inr _) \<Rightarrow>
            (case (if au_output s1 = ''webhook'' then send_webhook f s1 e w1 else (w1, Inr ())) of
               (w2, Inl x) \<Rightarrow> ((s1, w2), Inl x)
             | (w2, Inr _) \<Rightarrow>
                 (let s2 = s1\<lparr>log := log s1 @ [e]\<rparr> in
                  if max_entries s2 < length (log s2) then
                    (case rotate_log J f now (s2, w2) of
                       (sw3, Inl x) \<Rightarrow> (sw3, Inl x)
                     | (sw3, Inr _) \<Rightarrow> (sw3, Inr True))
                  else ((s2, w2), Inr True)))))"

definition format_entry :: "codec \<Rightarrow> audit_shim \<Rightarrow> audit_entry \<Rightarrow> string" where
  "format_entry J s e =
    (if format s = ''json'' then to_json J e
     else if format s = ''cef'' then
       ''CEF:0|EvergreenShim|audit|1.0|'' @ (if success e then ''1'' else ''0'') @ ''|'' @ operation e @ ''|'' @
       show_nat (duration_ms e) @ ''|database='' @ ae_database e @ '' operation='' @ operation e @ '' table='' @
       (case table e of Some t \<Rightarrow> t | None \<Rightarrow> ''none'')
     else to_json J e)"

section \<open>Queries\<close>

definition filter_matches :: "codec \<Rightarrow> audit_filter \<Rightarrow> audit_entry \<Rightarrow> bool" where
  "filter_matches J fl e =
    (if (case fl_operation fl of Some op \<Rightarrow> \<not> eq_ignore_ascii_case (operation e) op | None \<Rightarrow> False) then False
     else if (case fl_table fl of
                Some tbl \<Rightarrow> (case table e of Some t \<Rightarrow> \<not> eq_ignore_ascii_case t tbl | None \<Rightarrow> True)
              | None \<Rightarrow> False) then False
     else if (case fl_success fl of Some ok \<Rightarrow> success e \<noteq> ok | None \<Rightarrow> False) then False
     else if (case fl_min_duration_ms fl of Some d \<Rightarrow> duration_ms e < d | None \<Rightarrow> False) then False
     else
       (case Option.bind (since fl) (parse_rfc3339 J) of
          Some t0 \<Rightarrow> (case parse_rfc3339 J (ae_timestamp e) of Some t \<Rightarrow> \<not> t < t0 | None \<Rightarrow> False)
        | None \<Rightarrow> True))"

definition audit_query :: "codec \<Rightarrow> audit_shim \<Rightarrow> audit_filter \<Rightarrow> audit_entry list" where
  "audit_query J s fl = take (fl_limit fl) (filter (filter_matches J fl) (log s))"

definition avg_duration :: "audit_shim \<Rightarrow> f64" where
  "avg_duration s =
    (if 0 < queries_logged s then of_nat (total_duration_ms s) / of_nat (queries_logged s) else 0)"

definition audit_stats_of :: "audit_shim \<Rightarrow> audit_stats" where
  "audit_stats_of s =
     \<lparr>total_entries = queries_logged s,
      success_count = length (filter success (log s)),
      failure_count = length (filter (\<lambda>e. \<not> success e) (log s)),
      operations = fold (\<lambda>e. hm_bump (operation e)) (log s) [],
      avg_duration_ms = avg_duration s,
      st_max_duration_ms = max_duration_ms s\<rparr>"

definition clear_log_before :: "codec \<Rightarrow> time \<Rightarrow> audit_shim \<Rightarrow> audit_shim" where
  "clear_log_before J retention s =
     s\<lparr>log := filter (\<lambda>e. case parse_rfc3339 J (ae_timestamp e) of Some t \<Rightarrow> retention \<le> t | None \<Rightarrow> True) (log s)\<rparr>"

definition entry_count :: "audit_shim \<Rightarrow> nat" where
  "entry_count s = length (log s)"

definition force_rotate ::
  "codec \<Rightarrow> faults \<Rightarrow> time \<Rightarrow> audit_shim \<times> audit_world \<Rightarrow> (audit_shim \<times> audit_world) \<times> (string + unit)" where
  "force_rotate J f now sw = rotate_log J f now sw"

section \<open>Capability\<close>

definition audit_init ::
  "codec \<Rightarrow> faults \<Rightarrow> string option \<Rightarrow> config \<Rightarrow> audit_shim \<times> audit_world
   \<Rightarrow> (audit_shim \<times> audit_world) \<times> (string + unit)" where
  "audit_init J f client_err c sw =
    (case sw of (s, w) \<Rightarrow>
     (let s1 = (case audit c of
                  Some ac \<Rightarrow> s\<lparr>database := audit_database ac, tables := audit_tables ac, format := audit_format ac\<rparr>
                | None \<Rightarrow> s)
      in case client_err of
           Some e \<Rightarrow> ((s1, w), Inl (''Failed to create HTTP client: '' @ e))
         | None \<Rightarrow>
             (let s2 = s1\<lparr>http_client := True\<rparr> in
              case mkdir_err f of
                Some e \<Rightarrow> ((s2, w), Inl e)
              | None \<Rightarrow> (fst (load_from_disk J f (s2, w\<lparr>disk := Some (dir_files w)\<rparr>)), Inr ()))))"

definition audit_metrics :: "audit_shim \<Rightarrow> metric list" where
  "audit_metrics s =
    [(''audit_queries_logged_total'', of_nat (queries_logged s)),
     (''audit_queries_filtered_total'', of_nat (queries_filtered s)),
     (''audit_avg_duration_ms'', avg_duration s),
     (''audit_max_duration_ms'', of_nat (max_duration_ms s))]"

section \<open>What a restart finds\<close>

declare map_of_eq_Some_iff [simp del]

text \<open>What the code relies on of \<^verbatim>\<open>serde_json\<close>: an encoded entry is one non-empty line without
  white space around it, and decodes to the entry.\<close>

definition codec_ok :: "codec \<Rightarrow> bool" where
  "codec_ok J =
    (\<forall>e. from_json J (to_json J e) = Some e \<and> newline \<notin> set (to_json J e) \<and> to_json J e \<noteq> [] \<and>
         trim (to_json J e) = to_json J e \<and> last (to_json J e) \<noteq> CHR 0x0D)"

lemma strip_cr_id: "last l \<noteq> CHR 0x0D \<Longrightarrow> strip_cr l = l"
  by (simp add: strip_cr_def)

lemma parse_json_lines:
  assumes "codec_ok J"
  shows "parse_entries J (json_lines J es) = es"
proof -
  have "str_lines (json_lines J es) = map (to_json J) es"
    unfolding json_lines_def using assms
    by (subst str_lines_concat) (auto simp: codec_ok_def strip_cr_id)
  moreover have "List.map_filter (\<lambda>l. let t = trim l in if t = [] then None else from_json J t) (map (to_json J) es) = es"
    using assms by (induction es) (simp_all add: codec_ok_def List.map_filter_simps Let_def)
  ultimately show ?thesis
    by (simp add: parse_entries_def)
qed

lemma json_lines_append: "json_lines J (a @ b) = json_lines J a @ json_lines J b"
  by (simp add: json_lines_def)

definition files_ok :: "codec \<Rightarrow> (string, string) hmap \<Rightarrow> bool" where
  "files_ok J files =
    (hm_wf files \<and> (\<forall>nm c. map_of files nm = Some c \<longrightarrow> is_log_file nm \<and> (\<exists>es. c = json_lines J es)))"

definition disk_entries :: "codec \<Rightarrow> (string, string) hmap \<Rightarrow> audit_entry multiset" where
  "disk_entries J files = (\<Sum>p\<leftarrow>files. mset (parse_entries J (snd p)))"

lemma sum_list_hm_update:
  "hm_wf m \<Longrightarrow> map_of m k = Some v \<Longrightarrow> g (f v) = g v + (d :: 'a :: comm_monoid_add) \<Longrightarrow>
    (\<Sum>p\<leftarrow>hm_update k f m. g (snd p)) = (\<Sum>p\<leftarrow>m. g (snd p)) + d"
proof (induction m)
  case (Cons p m)
  obtain k' v' where p: "p = (k', v')"
    by (cases p)
  show ?case
  proof (cases "k' = k")
    case True
    then have "hm_update k f m = m"
      using Cons.prems(1) p by (induction m) (auto simp: hm_update_def)
    then show ?thesis
      using Cons.prems True p by (simp add: hm_update_def add_ac)
  next
    case False
    then show ?thesis
      using Cons p by (simp add: hm_update_def add_ac)
  qed
qed simp

lemma append_file_ok:
  assumes "codec_ok J" and "files_ok J files" and "is_log_file nm"
  shows "files_ok J (append_file nm (json_lines J es) files)"
    and "disk_entries J (append_file nm (json_lines J es) files) = disk_entries J files + mset es"
proof -
  show "files_ok J (append_file nm (json_lines J es) files)"
    using assms(2,3) json_lines_append [of J]
    by (auto simp: append_file_def files_ok_def split: option.splits if_splits simp del: keys_hm_insert)
       (metis json_lines_append)+
  show "disk_entries J (append_file nm (json_lines J es) files) = disk_entries J files + mset es"
  proof (cases "map_of files nm")
    case None
    then show ?thesis
      by (simp add: append_file_def disk_entries_def hm_insert_def parse_json_lines [OF assms(1)])
  next
    case (Some c)
    obtain es0 where c: "c = json_lines J es0"
      using assms(2) Some by (auto simp: files_ok_def)
    have wf: "hm_wf files"
      using assms(2) by (simp add: files_ok_def)
    have "mset (parse_entries J (c @ json_lines J es)) = mset (parse_entries J c) + mset es"
      unfolding c json_lines_append [symmetric] parse_json_lines [OF assms(1)] by simp
    then show ?thesis
      using sum_list_hm_update [OF wf Some, of "\<lambda>c. mset (parse_entries J c)" "\<lambda>c. c @ json_lines J es" "mset es"] Some
      by (simp add: append_file_def disk_entries_def)
  qed
qed

lemma log_file_names:
  "is_log_file (''audit-'' @ d @ ''.log'')" "is_log_file (''audit-'' @ d @ ''-rotate-'' @ t @ ''.log'')"
proof -
  have "is_log_file (''audit-'' @ x @ ''.log'')" for x
    unfolding is_log_file_def ends_with_iff by (simp add: exI [of _ "''audit-'' @ x"])
  from this [of d] this [of "d @ ''-rotate-'' @ t"]
  show "is_log_file (''audit-'' @ d @ ''.log'')" "is_log_file (''audit-'' @ d @ ''-rotate-'' @ t @ ''.log'')"
    by (simp_all only: append_assoc)
qed

lemma write_to_disk_ok:
  assumes "codec_ok J" and "disk w = Some files" and "files_ok J files"
  obtains w1 files1 where "write_to_disk J no_faults now e w = (w1, Inr ())" "disk w1 = Some files1"
    "files_ok J files1" "disk_entries J files1 = disk_entries J files + {#e#}"
proof -
  let ?nm = "''audit-'' @ fmt_date J now @ ''.log''"
  have "write_to_disk J no_faults now e w =
      (w\<lparr>disk := Some (append_file ?nm (json_lines J [e]) files)\<rparr>, Inr ())"
    using assms(2) by (simp add: write_to_disk_def dir_files_def Let_def)
  then show ?thesis
    using that append_file_ok [OF assms(1,3) log_file_names(1), of "fmt_date J now" "[e]"] by simp
qed

lemma rotate_log_ok:
  assumes "codec_ok J" and "disk w = Some files" and "files_ok J files" and "log s \<noteq> []"
  obtains w1 files1 where "rotate_log J no_faults now (s, w) = ((s\<lparr>log := []\<rparr>, w1), Inr ())" "disk w1 = Some files1"
    "files_ok J files1" "disk_entries J files1 = disk_entries J files + mset (log s)"
proof -
  let ?nm = "''audit-'' @ fmt_date J now @ ''-rotate-'' @ fmt_time J now @ ''.log''"
  have "rotate_log J no_faults now (s, w) =
      ((s\<lparr>log := []\<rparr>, w\<lparr>disk := Some (append_file ?nm (json_lines J (log s)) files)\<rparr>), Inr ())"
    using assms(2,4) by (simp add: rotate_log_def Let_def)
  then show ?thesis
    using that append_file_ok [OF assms(1,3) log_file_names(2), of "fmt_date J now" "fmt_time J now" "log s"] by simp
qed

lemma send_webhook_ok: "\<exists>w1. send_webhook no_faults s e w = (w1, Inr ()) \<and> disk w1 = disk w"
  by (cases "webhook_url s") (simp_all add: send_webhook_def)

text \<open>The state of a run without faults after the entries \<^verbatim>\<open>kept\<close> have passed the duration filter:
  each of them is in a daily file, and a second time in memory or in a rotated file.\<close>

definition run_ok :: "codec \<Rightarrow> nat \<Rightarrow> nat \<Rightarrow> audit_entry list \<Rightarrow> audit_shim \<times> audit_world \<Rightarrow> bool" where
  "run_ok J cap lo kept sw =
    (case sw of (s, w) \<Rightarrow>
     max_entries s = cap \<and> min_duration_ms s = lo \<and> length (log s) \<le> cap \<and>
     (length kept \<le> cap \<longrightarrow> log s = kept) \<and>
     (\<exists>files. disk w = Some files \<and> files_ok J files \<and>
        disk_entries J files + mset (log s) = mset kept + mset kept))"

lemma log_entry_run_ok:
  assumes J: "codec_ok J" and run: "run_ok J cap lo kept (s, w)"
  shows "run_ok J cap lo (if duration_ms e < lo then kept else kept @ [e]) (fst (log_entry J no_faults now e (s, w)))"
proof (cases "duration_ms e < lo")
  case True
  then show ?thesis
    using run by (simp add: run_ok_def log_entry_def)
next
  case False
  obtain files where s: "max_entries s = cap" "min_duration_ms s = lo" "length (log s) \<le> cap"
    "length kept \<le> cap \<longrightarrow> log s = kept" "disk w = Some files" "files_ok J files"
    "disk_entries J files + mset (log s) = mset kept + mset kept"
    using run by (auto simp: run_ok_def)
  let ?s1 = "count_entry now e s"
  have s1: "max_entries ?s1 = cap" "log ?s1 = log s" "min_duration_ms ?s1 = lo"
    using s by (simp_all add: count_entry_def)
  obtain w1 files1 where w1: "write_to_disk J no_faults now e w = (w1, Inr ())" "disk w1 = Some files1"
    "files_ok J files1" "disk_entries J files1 = disk_entries J files + {#e#}"
    using write_to_disk_ok [OF J s(5,6)] .
  obtain w2 where w2: "(if au_output ?s1 = ''webhook'' then send_webhook no_faults ?s1 e w1 else (w1, Inr ())) = (w2, Inr ())"
    "disk w2 = Some files1"
    using send_webhook_ok [of ?s1 e w1] w1(2) by (cases "au_output ?s1 = ''webhook''") auto
  let ?s2 = "?s1\<lparr>log := log ?s1 @ [e]\<rparr>"
  have step: "log_entry J no_faults now e (s, w) =
      (if cap < length (log ?s2) then
         (case rotate_log J no_faults now (?s2, w2) of (sw3, Inl x) \<Rightarrow> (sw3, Inl x) | (sw3, Inr _) \<Rightarrow> (sw3, Inr True))
       else ((?s2, w2), Inr True))"
    using False s(2) w1(1) w2(1) s1 by (simp add: log_entry_def Let_def)
  have sum: "disk_entries J files1 + mset (log ?s2) = mset (kept @ [e]) + mset (kept @ [e])"
    using w1(4) s(7) s1 by simp
  show ?thesis
  proof (cases "cap < length (log ?s2)")
    case True
    obtain w3 files3 where r: "rotate_log J no_faults now (?s2, w2) = ((?s2\<lparr>log := []\<rparr>, w3), Inr ())" "disk w3 = Some files3"
      "files_ok J files3" "disk_entries J files3 = disk_entries J files1 + mset (log ?s2)"
      using rotate_log_ok [OF J w2(2) w1(3), of ?s2] by auto
    have "fst (log_entry J no_faults now e (s, w)) = (?s2\<lparr>log := []\<rparr>, w3)"
      using True r(1) unfolding step by simp
    moreover have "\<not> length (kept @ [e]) \<le> cap"
      using True s(4) s1 by auto
    ultimately show ?thesis
      using False r(2,3,4) s1 sum by (simp add: run_ok_def)
  next
    case nrot: False
    then have "fst (log_entry J no_faults now e (s, w)) = (?s2, w2)"
      unfolding step by simp
    moreover have "length (kept @ [e]) \<le> cap \<longrightarrow> log ?s2 = kept @ [e]"
      using s(4) s1 by simp
    ultimately show ?thesis
      using False nrot w2(2) w1(3) s1 sum by (simp add: run_ok_def)
  qed
qed

definition log_all :: "codec \<Rightarrow> (time \<times> audit_entry) list \<Rightarrow> audit_shim \<times> audit_world \<Rightarrow> audit_shim \<times> audit_world" where
  "log_all J ops sw = fold (\<lambda>(now, e) sw. fst (log_entry J no_faults now e sw)) ops sw"

lemma log_all_run_ok:
  "codec_ok J \<Longrightarrow> run_ok J cap lo kept sw \<Longrightarrow>
    run_ok J cap lo (kept @ filter (\<lambda>e. lo \<le> duration_ms e) (map snd ops)) (log_all J ops sw)"
proof (induction ops arbitrary: kept sw)
  case (Cons op ops)
  obtain now e where op: "op = (now, e)"
    by (cases op)
  obtain s w where sw: "sw = (s, w)"
    by (cases sw)
  show ?case
    using Cons.IH [OF Cons.prems(1) log_entry_run_ok [OF Cons.prems(1), of cap lo kept s w e now]] Cons.prems(2)
    by (cases "duration_ms e < lo") (simp_all add: op sw log_all_def)
qed (simp add: log_all_def)

lemma read_files_ok: "read_files J no_faults files nms =
    Inr (concat (map (\<lambda>nm. parse_entries J (case map_of files nm of Some c \<Rightarrow> c | None \<Rightarrow> [])) nms))"
  by (induction nms) simp_all

lemma loaded_entries:
  assumes "files_ok J files"
  shows "mset (concat (map (\<lambda>nm. parse_entries J (case map_of files nm of Some c \<Rightarrow> c | None \<Rightarrow> []))
      (sort (filter is_log_file (map fst files))))) = disk_entries J files"
proof -
  let ?g = "\<lambda>nm. mset (parse_entries J (case map_of files nm of Some c \<Rightarrow> c | None \<Rightarrow> []))"
  have all: "filter is_log_file (map fst files) = map fst files"
    using assms by (auto simp: files_ok_def filter_id_conv)
  have "(\<Sum>nm\<leftarrow>sort (map fst files). ?g nm) = (\<Sum>nm\<leftarrow>map fst files. ?g nm)"
    by (simp flip: sum_mset_sum_list add: image_mset.compositionality)
  also have "\<dots> = (\<Sum>p\<leftarrow>files. mset (parse_entries J (snd p)))"
    using assms by (auto simp: files_ok_def comp_def intro!: arg_cong [of _ _ sum_list] map_cong)
  finally show ?thesis
    by (simp add: all mset_concat comp_def disk_entries_def)
qed

text \<open>C13: What a restart finds.  Entries are logged without faults from an empty log
  directory; those shorter than the minimal duration are dropped.  The log in memory never exceeds
  \<^verbatim>\<open>max_entries\<close>.  A new process that loads the directory holds every kept entry once
  as long as no rotation took place; in general it holds each entry once and each entry
  that a rotation moved out of memory a second time: the loaded entries and those still in memory before the restart
  are together twice the kept ones.\<close>

theorem audit_restart:
  assumes "codec_ok J" and "log s = []" and "disk w = Some []"
    and "log_all J ops (s, w) = (s', w')"
    and "load_from_disk J no_faults (s0, w') = ((s1, w1), res)"
    and "kept = filter (\<lambda>e. min_duration_ms s \<le> duration_ms e) (map snd ops)"
  shows "res = Inr () \<and> length (log s') \<le> max_entries s \<and>
    (length kept \<le> max_entries s \<longrightarrow> mset (log s1) = mset kept) \<and>
    mset (log s1) + mset (log s') = mset kept + mset kept"
proof -
  have "run_ok J (max_entries s) (min_duration_ms s) [] (s, w)"
    using assms(2,3) by (simp add: run_ok_def files_ok_def disk_entries_def)
  from log_all_run_ok [OF assms(1) this, of ops] obtain files where r: "length (log s') \<le> max_entries s"
    "length kept \<le> max_entries s \<longrightarrow> log s' = kept" "disk w' = Some files" "files_ok J files"
    "disk_entries J files + mset (log s') = mset kept + mset kept"
    unfolding assms(4) assms(6) [symmetric] by (auto simp: run_ok_def)
  then have "res = Inr ()" "mset (log s1) = disk_entries J files"
    using assms(5) loaded_entries [OF r(4)] by (auto simp: load_from_disk_def read_files_ok)
  then show ?thesis
    using r by auto
qed

text \<open>An encoding with the laws above: an entry is written as a row of as many letters as its number.\<close>

definition entry_tuple where
  "entry_tuple e = (ae_id e, ae_timestamp e, ae_database e, operation e, table e, query_text e, duration_ms e,
     rows_affected e, client_addr e, ae_user e, success e, ae_error e)"

fun tuple_entry where
  "tuple_entry (a, b, c, d, e, f, g, h, i, j, k, l) =
     \<lparr>ae_id = a, ae_timestamp = b, ae_database = c, operation = d, table = e, query_text = f, duration_ms = g,
      rows_affected = h, client_addr = i, ae_user = j, success = k, ae_error = l\<rparr>"

definition unary_codec :: codec where
  "unary_codec =
     \<lparr>to_json = (\<lambda>e. replicate (Suc (to_nat (entry_tuple e))) (CHR ''x'')),
      from_json = (\<lambda>t. Some (tuple_entry (from_nat (length t - 1)))),
      rfc3339 = (\<lambda>_. ''2024-01-01T00:00:00Z''), parse_rfc3339 = (\<lambda>_. Some 0),
      fmt_date = (\<lambda>_. ''2024-01-01''), fmt_time = (\<lambda>_. ''000000'')\<rparr>"

lemma unary_codec_ok: "codec_ok unary_codec"
proof -
  have "dropWhile is_space (replicate (Suc n) (CHR ''x'')) = replicate (Suc n) (CHR ''x'')" for n
    by (simp add: is_space_def)
  then have "trim (replicate (Suc n) (CHR ''x'')) = replicate (Suc n) (CHR ''x'')" for n
    unfolding trim_def by (simp only: rev_replicate)
  moreover have "tuple_entry (entry_tuple e) = e" for e
    by (simp add: entry_tuple_def)
  ultimately show ?thesis
    by (simp add: codec_ok_def unary_codec_def del: replicate.simps)
qed

definition sample_entry :: "string \<Rightarrow> nat \<Rightarrow> audit_entry" where
  "sample_entry i d = \<lparr>ae_id = i, ae_timestamp = ''t'', ae_database = ''db'', operation = ''SELECT'', table = None,
     query_text = None, duration_ms = d, rows_affected = None, client_addr = None, ae_user = None, success = True,
     ae_error = None\<rparr>"

definition sample_ops :: "(time \<times> audit_entry) list" where
  "sample_ops = [(0, sample_entry ''audit-0000000001'' 5), (1, sample_entry ''audit-0000000002'' 6)]"

definition sample_start :: "audit_shim \<times> audit_world" where
  "sample_start = (audit_with_config (\<lambda>_. None) ''db'' ''/tmp'' 1, \<lparr>disk = Some [], posted = []\<rparr>)"

theorem audit_restart_witness:
  "mset (log (fst (fst (load_from_disk unary_codec no_faults (fst sample_start, snd (log_all unary_codec sample_ops sample_start))))))
     + mset (log (fst (log_all unary_codec sample_ops sample_start))) =
   mset (map snd sample_ops) + mset (map snd sample_ops)"
proof -
  let ?r = "log_all unary_codec sample_ops sample_start"
  let ?l = "load_from_disk unary_codec no_faults (fst sample_start, snd ?r)"
  have min: "min_duration_ms (fst sample_start) = 0"
    by (simp add: sample_start_def audit_with_config_def audit_new_def env_uint_def)
  have "log (fst sample_start) = []" "disk (snd sample_start) = Some []"
    by (simp_all add: sample_start_def audit_with_config_def audit_new_def)
  moreover have "?l = ((fst (fst ?l), snd (fst ?l)), snd ?l)"
    "log_all unary_codec sample_ops (fst sample_start, snd sample_start) = (fst ?r, snd ?r)"
    by simp_all
  ultimately show ?thesis
    using audit_restart [OF unary_codec_ok _ _ _ _ refl, of "fst sample_start" "snd sample_start" sample_ops "fst ?r" "snd ?r"
        "fst sample_start" "fst (fst ?l)" "snd (fst ?l)" "snd ?l"] min by simp
qed

section \<open>Identifiers\<close>

lemma max_id_ge:
  "e \<in> set es \<Longrightarrow> id_number e = Some n \<Longrightarrow> n \<le> max_id es"
proof -
  let ?step = "\<lambda>e mx. case id_number e of Some n \<Rightarrow> if mx < n then n else mx | None \<Rightarrow> mx"
  have grow: "mx \<le> fold ?step es mx" for es mx
  proof (induction es arbitrary: mx)
    case (Cons x es)
    have "mx \<le> ?step x mx"
      by (simp split: option.split)
    also have "\<dots> \<le> fold ?step es (?step x mx)"
      by (rule Cons.IH)
    finally show ?case
      by simp
  qed simp
  have "e \<in> set es \<Longrightarrow> id_number e = Some n \<Longrightarrow> n \<le> fold ?step es mx" for mx
  proof (induction es arbitrary: mx)
    case (Cons x es)
    then show ?case
      using grow [of "?step e mx" es] by (cases "x = e") (auto split: if_splits)
  qed simp
  then show "e \<in> set es \<Longrightarrow> id_number e = Some n \<Longrightarrow> n \<le> max_id es"
    by (simp add: max_id_def)
qed

text \<open>After a successful load the identifiers of new entries are fresh: whatever the log files held, no
  entry created afterwards has the identifier of a loaded one.\<close>

theorem audit_ids_fresh:
  assumes "disk w = Some files" and "load_from_disk J f (s, w) = ((s1, w1), Inr ())"
    and "entry_counter s1 \<le> entry_counter s2" and "entry_counter s2 + 1 < 2 ^ 64"
    and "create_entry J now op tbl q dur rows addr usr ok err s2 = (s3, e)"
  shows "\<forall>x\<in>set (log s1). ae_id x \<noteq> ae_id e"
proof
  fix x assume x: "x \<in> set (log s1)"
  have cnt: "entry_counter s1 = max_id (log s1)"
    using assms(1,2) by (auto simp: load_from_disk_def split: option.splits sum.splits)
  have id: "ae_id e = ''audit-'' @ show_nat_pad 10 (entry_counter s2 + 1)"
    using assms(5) by (auto simp: create_entry_def Let_def)
  show "ae_id x \<noteq> ae_id e"
  proof
    assume "ae_id x = ae_id e"
    then have "id_number x = Some (entry_counter s2 + 1)"
      using id assms(4) by (simp add: id_number_def parse_show_nat_pad)
    then show False
      using max_id_ge [OF x] cnt assms(3) by fastforce
  qed
qed

definition const_codec :: codec where
  "const_codec = unary_codec\<lparr>from_json := (\<lambda>_. Some (sample_entry ''audit-0000000007'' 5))\<rparr>"

definition sample_disk :: audit_world where
  "sample_disk = \<lparr>disk = Some [(''audit-1.log'', ''x'')], posted = []\<rparr>"

lemma sample_load:
  "load_from_disk const_codec no_faults (audit_new (\<lambda>_. None), sample_disk) =
     (((audit_new (\<lambda>_. None))\<lparr>entry_counter := 7, log := [sample_entry ''audit-0000000007'' 5]\<rparr>, sample_disk), Inr ())"
proof -
  have "is_log_file ''audit-1.log''" "id_number (sample_entry ''audit-0000000007'' 5) = Some 7"
    by (simp_all add: is_log_file_def ends_with_def id_number_def sample_entry_def parse_uint_def Let_def
        is_digit_def digit_val_def)
  moreover have "parse_entries const_codec ''x'' = [sample_entry ''audit-0000000007'' 5]"
    by (simp add: parse_entries_def const_codec_def str_lines_def Let_def strip_cr_def trim_def is_space_def
        List.map_filter_simps)
  ultimately show ?thesis
    by (simp add: load_from_disk_def sample_disk_def read_files_ok max_id_def)
qed

theorem audit_ids_fresh_witness:
  "ae_id (snd (create_entry const_codec 0 ''SELECT'' None None 1 None None None True None
     (fst (fst (load_from_disk const_codec no_faults (audit_new (\<lambda>_. None), sample_disk)))))) \<noteq> ''audit-0000000007''"
proof -
  let ?s = "(audit_new (\<lambda>_. None))\<lparr>entry_counter := 7, log := [sample_entry ''audit-0000000007'' 5]\<rparr>"
  have "disk sample_disk = Some [(''audit-1.log'', ''x'')]"
    by (simp add: sample_disk_def)
  from audit_ids_fresh [OF this sample_load, where ?s2.0 = ?s, OF _ _ surjective_pairing,
      of 0 "''SELECT''" None None 1 None None None True None]
  show ?thesis
    by (simp add: sample_load create_entry_def sample_entry_def Let_def)
qed

end
