(* ===== verification/Chaos.thy ===== *)
theory Chaos
  imports Config
begin

text \<open>
  \<^verbatim>\<open>chaos-shim\<close>: the fault-injection shim with its experiments, the commands behind
  real faults, and the orchestrator.  Random numbers, the clock, the textual time stamps of \<^verbatim>\<open>chrono\<close>
  (\<^verbatim>\<open>fmt\<close> and \<^verbatim>\<open>prs\<close>) and the results of system commands are arguments.  \<^verbatim>\<open>chrono\<close> panics when a
  duration exceeds its range of milliseconds.
\<close>

section \<open>Data\<close>

datatype fault_type = Latency | Error | Partition | Kill | PacketLoss

fun fault_type_display :: "fault_type \<Rightarrow> string" where
  "fault_type_display Latency = ''latency''"
| "fault_type_display Error = ''error''"
| "fault_type_display Partition = ''partition''"
| "fault_type_display Kill = ''kill''"
| "fault_type_display PacketLoss = ''packet_loss''"

record chaos_experiment =
  ex_id :: string
  ex_name :: string
  ex_fault_type :: fault_type
  ex_enabled :: bool
  ex_target :: string
  ex_blast_radius :: f64
  duration_secs :: u64
  started_at :: "string option"
  ended_at :: "string option"
  ex_faults_injected :: nat

record injection_result =
  injected :: bool
  ir_fault_type :: fault_type
  reason :: "string option"
  delay_ms :: nat

record chaos_shim =
  enabled :: bool
  latency_ms :: nat
  error_rate :: f64
  partition :: bool
  kill_probability :: f64
  target :: string
  blast_radius :: f64
  faults_injected :: nat
  faults_suppressed :: nat
  experiments :: "(string, chaos_experiment) hmap"
  experiment_counter :: nat

definition chaos_new :: "validators \<Rightarrow> env \<Rightarrow> chaos_shim" where
  "chaos_new v env =
     \<lparr>enabled = env_flag env ''CHAOS_ENABLED'' False,
      latency_ms = env_uint 64 env ''CHAOS_LATENCY_MS'' 0,
      error_rate = env_f64 v env ''CHAOS_ERROR_RATE'' 0,
      partition = env_flag env ''CHAOS_PARTITION'' False,
      kill_probability = env_f64 v env ''CHAOS_KILL_PROBABILITY'' 0,
      target = env_str env ''CHAOS_TARGET'' ''all'',
      blast_radius = env_f64 v env ''CHAOS_BLAST_RADIUS'' 1,
      faults_injected = 0, faults_suppressed = 0, experiments = [], experiment_counter = 0\<rparr>"

section \<open>Experiments of the shim\<close>

definition start_experiment ::
  "(time \<Rightarrow> string) \<Rightarrow> time \<Rightarrow> string \<Rightarrow> fault_type \<Rightarrow> string \<Rightarrow> f64 \<Rightarrow> u64 \<Rightarrow> chaos_shim
   \<Rightarrow> chaos_shim \<times> chaos_experiment" where
  "start_experiment fmt now nm ft tgt br dur s =
    (let n = experiment_counter s + 1;
         i = ''exp-'' @ show_nat_pad 3 n;
         e = \<lparr>ex_id = i, ex_name = nm, ex_fault_type = ft, ex_enabled = True, ex_target = tgt,
              ex_blast_radius = clamp br 0 1, duration_secs = dur, started_at = Some (fmt now), ended_at = None,
              ex_faults_injected = 0\<rparr>
     in (s\<lparr>experiment_counter := n, experiments := hm_insert i e (experiments s)\<rparr>, e))"

definition end_experiment :: "string \<Rightarrow> chaos_experiment \<Rightarrow> chaos_experiment" where
  "end_experiment ts e = e\<lparr>ex_enabled := False, ended_at := Some ts\<rparr>"

definition stop_experiment :: "(time \<Rightarrow> string) \<Rightarrow> time \<Rightarrow> string \<Rightarrow> chaos_shim \<Rightarrow> chaos_shim \<times> bool" where
  "stop_experiment fmt now i s =
    (case map_of (experiments s) i of
       Some _ \<Rightarrow> (s\<lparr>experiments := hm_update i (end_experiment (fmt now)) (experiments s)\<rparr>, True)
     | None \<Rightarrow> (s, False))"

text \<open>\<^verbatim>\<open>Duration::seconds(d as i64)\<close>: the cast reinterprets the bits; the seconds as milliseconds must fit
  in an \<^verbatim>\<open>i64\<close>.\<close>

definition chrono_seconds :: "u64 \<Rightarrow> time outcome" where
  "chrono_seconds d =
    (if abs (sint d) \<le> (2 ^ 63 - 1) div 1000 then Returns (sint d * second) else Panics)"

text \<open>Whether an enabled experiment has run its time; an unreadable start never expires.\<close>

definition experiment_expired :: "(string \<Rightarrow> time option) \<Rightarrow> time \<Rightarrow> chaos_experiment \<Rightarrow> bool outcome" where
  "experiment_expired prs now e =
    (if \<not> ex_enabled e then Returns False
     else
       (case Option.bind (started_at e) prs of
          None \<Rightarrow> Returns False
        | Some started \<Rightarrow>
            (case chrono_seconds (duration_secs e) of
               Panics \<Rightarrow> Panics
             | Returns d \<Rightarrow> Returns (d \<le> now - started))))"

definition stop_expired_experiments ::
  "(time \<Rightarrow> string) \<Rightarrow> (string \<Rightarrow> time option) \<Rightarrow> time \<Rightarrow> chaos_shim \<Rightarrow> chaos_shim outcome" where
  "stop_expired_experiments fmt prs now s =
    (if list_ex (\<lambda>(_, e). experiment_expired prs now e = Panics) (experiments s) then Panics
     else Returns (s\<lparr>experiments :=
       map (\<lambda>(i, e). (i, if experiment_expired prs now e = Returns True then end_experiment (fmt now) e else e))
         (experiments s)\<rparr>))"

section \<open>Injection\<close>

definition target_matches :: "chaos_shim \<Rightarrow> string \<Rightarrow> bool" where
  "target_matches s request_target = (target s = ''all'' \<or> eq_ignore_ascii_case (target s) request_target)"

definition active_fault_type :: "chaos_shim \<Rightarrow> fault_type" where
  "active_fault_type s =
    (if partition s then Partition
     else if 0 < latency_ms s then Latency
     else if 0 < error_rate s then Error
     else if 0 < kill_probability s then Kill
     else Latency)"

definition suppress :: "fault_type \<Rightarrow> string \<Rightarrow> chaos_shim \<Rightarrow> chaos_shim \<times> injection_result" where
  "suppress ft why s =
    (s\<lparr>faults_suppressed := faults_suppressed s + 1\<rparr>,
     \<lparr>injected = False, ir_fault_type = ft, reason = Some why, delay_ms = 0\<rparr>)"

text \<open>\<^verbatim>\<open>roll1\<close> and \<^verbatim>\<open>roll2\<close> are the numbers drawn for the blast radius and the error rate.\<close>

definition inject :: "f64 \<Rightarrow> f64 \<Rightarrow> string \<Rightarrow> chaos_shim \<Rightarrow> chaos_shim \<times> injection_result" where
  "inject roll1 roll2 request_target s =
    (if \<not> target_matches s request_target then suppress Latency ''Target mismatch'' s
     else if blast_radius s < 1 \<and> blast_radius s < roll1 then suppress Latency ''Blast radius exclusion'' s
     else
       (let ft = active_fault_type s;
            delay = (if ft = Latency then latency_ms s else 0)
        in if ft = Error \<and> error_rate s < roll2 \<and> error_rate s < 1
           then suppress Error ''Below error rate threshold'' s
           else (s\<lparr>faults_injected := faults_injected s + 1\<rparr>,
                 \<lparr>injected = True, ir_fault_type = ft, reason = None, delay_ms = delay\<rparr>)))"

definition evaluate ::
  "(time \<Rightarrow> string) \<Rightarrow> (string \<Rightarrow> time option) \<Rightarrow> time \<Rightarrow> f64 \<Rightarrow> f64 \<Rightarrow> string \<Rightarrow> chaos_shim
   \<Rightarrow> (chaos_shim \<times> injection_result) outcome" where
  "evaluate fmt prs now roll1 roll2 request_target s =
    (if \<not> enabled s then Returns (suppress Latency ''Chaos disabled globally'' s)
     else
       (case stop_expired_experiments fmt prs now s of
          Panics \<Rightarrow> Panics
        | Returns s1 \<Rightarrow> Returns (inject roll1 roll2 request_target s1)))"

definition set_enabled :: "bool \<Rightarrow> chaos_shim \<Rightarrow> chaos_shim" where
  "set_enabled b s = s\<lparr>enabled := b\<rparr>"

definition set_error_rate :: "f64 \<Rightarrow> chaos_shim \<Rightarrow> chaos_shim" where
  "set_error_rate r s = s\<lparr>error_rate := clamp r 0 1\<rparr>"

definition set_latency :: "nat \<Rightarrow> chaos_shim \<Rightarrow> chaos_shim" where
  "set_latency ms s = s\<lparr>latency_ms := ms\<rparr>"

definition get_experiment :: "chaos_shim \<Rightarrow> string \<Rightarrow> chaos_experiment option" where
  "get_experiment s i = map_of (experiments s) i"

definition active_experiments :: "chaos_shim \<Rightarrow> chaos_experiment list" where
  "active_experiments s = filter ex_enabled (map snd (experiments s))"

definition injection_rate :: "chaos_shim \<Rightarrow> f64" where
  "injection_rate s =
    (let n = faults_injected s + faults_suppressed s
     in if n = 0 then 0 else of_nat (faults_injected s) / of_nat n)"

definition is_active :: "chaos_shim \<Rightarrow> bool" where
  "is_active s = (enabled s \<and> active_experiments s \<noteq> [])"

definition apply_latency :: "injection_result \<Rightarrow> nat" where
  "apply_latency r = (if injected r \<and> 0 < delay_ms r then delay_ms r else 0)"

definition inject_error :: "injection_result \<Rightarrow> string + unit" where
  "inject_error r = (if injected r \<and> ir_fault_type r = Error then Inl ''Chaos-injected error'' else Inr ())"

definition chaos_stop :: "(time \<Rightarrow> string) \<Rightarrow> time \<Rightarrow> chaos_shim \<Rightarrow> chaos_shim" where
  "chaos_stop fmt now s =
     s\<lparr>experiments := map (\<lambda>(i, e). (i, if ex_enabled e then end_experiment (fmt now) e else e)) (experiments s)\<rparr>"

definition chaos_metrics :: "chaos_shim \<Rightarrow> metric list" where
  "chaos_metrics s =
    [(''chaos_enabled'', if enabled s then 1 else 0),
     (''chaos_faults_injected'', of_nat (faults_injected s)),
     (''chaos_faults_suppressed'', of_nat (faults_suppressed s)),
     (''chaos_active_experiments'', of_nat (length (active_experiments s))),
     (''chaos_injection_rate'', injection_rate s),
     (''chaos_error_rate'', error_rate s)]"

section \<open>Commands\<close>

type_synonym run = "string \<Rightarrow> string list \<Rightarrow> command_output"

definition checked :: "string \<Rightarrow> command_output \<Rightarrow> 'a \<Rightarrow> string + 'a" where
  "checked msg out r =
    (case out of NotRun e \<Rightarrow> Inl e | ExitFailure stderr \<Rightarrow> Inl (msg @ stderr) | ExitSuccess _ \<Rightarrow> Inr r)"

definition create_network_partition :: "run \<Rightarrow> string \<Rightarrow> string \<Rightarrow> string \<Rightarrow> string + string" where
  "create_network_partition run uuid_short target_ip chain =
    (let rule_id = ''chaos-'' @ uuid_short
     in checked ''Failed to create network partition: ''
          (run ''sudo'' [''iptables'', ''-A'', chain, ''-s'', target_ip, ''-j'', ''DROP'', ''-m'', ''comment'',
             ''--comment'', rule_id]) rule_id)"

definition remove_network_partition :: "run \<Rightarrow> string \<Rightarrow> string \<Rightarrow> string + unit" where
  "remove_network_partition run rule_id chain =
     checked ''Failed to remove network partition: ''
       (run ''sudo'' [''iptables'', ''-D'', chain, ''-m'', ''comment'', ''--comment'', rule_id, ''-j'', ''DROP'']) ()"

definition kill_process :: "run \<Rightarrow> nat \<Rightarrow> string + unit" where
  "kill_process run pid =
     checked (''Failed to kill process '' @ show_nat pid @ '': '') (run ''kill'' [''-9'', show_nat pid]) ()"

definition create_disk_fill :: "run \<Rightarrow> string \<Rightarrow> nat \<Rightarrow> string + unit" where
  "create_disk_fill run path size_mb =
    (case run ''fallocate'' [''-l'', show_nat size_mb @ ''M'', path] of
       NotRun e \<Rightarrow> Inl e
     | ExitFailure _ \<Rightarrow>
         checked ''Failed to create disk fill: ''
           (run ''dd'' [''if=/dev/zero'', ''of='' @ path, ''bs=1M'', ''count='' @ show_nat size_mb]) ()
     | ExitSuccess _ \<Rightarrow> Inr ())"

definition apply_cpu_stress :: "run \<Rightarrow> nat \<Rightarrow> nat \<Rightarrow> string + unit" where
  "apply_cpu_stress run cores secs =
     checked ''CPU stress failed: ''
       (run ''stress-ng'' [''--cpu'', show_nat cores, ''--timeout'', show_nat secs @ ''s'']) ()"

section \<open>Orchestrator\<close>

record experiment_schedule =
  cron :: string
  max_runs :: "nat option"
  run_count :: nat

record experiment_result =
  er_experiment_id :: string
  er_name :: string
  er_fault_type :: fault_type
  er_target :: string
  er_started_at :: string
  er_ended_at :: string
  er_faults_injected :: nat
  er_success :: bool

record chaos_orchestrator =
  or_enabled :: bool
  or_active :: "(string, chaos_experiment) hmap"
  experiment_history :: "experiment_result list"
  schedules :: "(string, experiment_schedule) hmap"
  or_counter :: nat
  total_faults_injected :: nat
  blast_radius_limit :: f64

definition orchestrator_new :: "env \<Rightarrow> chaos_orchestrator" where
  "orchestrator_new env =
     \<lparr>or_enabled = env_flag env ''CHAOS_ORCHESTRATOR_ENABLED'' False, or_active = [], experiment_history = [],
      schedules = [], or_counter = 0, total_faults_injected = 0, blast_radius_limit = 1\<rparr>"

definition set_blast_radius_limit :: "f64 \<Rightarrow> chaos_orchestrator \<Rightarrow> chaos_orchestrator" where
  "set_blast_radius_limit x s = s\<lparr>blast_radius_limit := clamp x 0 1\<rparr>"

definition orch_id :: "nat \<Rightarrow> string" where
  "orch_id n = ''orch-exp-'' @ show_nat_pad 4 n"

definition or_start ::
  "(time \<Rightarrow> string) \<Rightarrow> time \<Rightarrow> string \<Rightarrow> fault_type \<Rightarrow> string \<Rightarrow> f64 \<Rightarrow> u64 \<Rightarrow> chaos_orchestrator
   \<Rightarrow> chaos_orchestrator \<times> (string + string)" where
  "or_start fmt now nm ft tgt br dur s =
    (if \<not> or_enabled s then (s, Inl ''Orchestrator is disabled'')
     else
       (let n = or_counter s + 1;
            i = orch_id n;
            e = \<lparr>ex_id = i, ex_name = nm, ex_fault_type = ft, ex_enabled = True, ex_target = tgt,
                 ex_blast_radius = min br (blast_radius_limit s), duration_secs = dur,
                 started_at = Some (fmt now), ended_at = None, ex_faults_injected = 0\<rparr>
        in (s\<lparr>or_counter := n, or_active := hm_insert i e (or_active s)\<rparr>, Inr i)))"

definition or_stop :: "(time \<Rightarrow> string) \<Rightarrow> time \<Rightarrow> string \<Rightarrow> chaos_orchestrator \<Rightarrow> chaos_orchestrator \<times> bool" where
  "or_stop fmt now i s =
    (case map_of (or_active s) i of
       Some _ \<Rightarrow> (s\<lparr>or_active := hm_update i (end_experiment (fmt now)) (or_active s)\<rparr>, True)
     | None \<Rightarrow> (s, False))"

definition stop_all :: "(time \<Rightarrow> string) \<Rightarrow> time \<Rightarrow> chaos_orchestrator \<Rightarrow> chaos_orchestrator" where
  "stop_all fmt now s = fold (\<lambda>i s. fst (or_stop fmt now i s)) (map fst (or_active s)) s"

definition complete_experiment ::
  "(time \<Rightarrow> string) \<Rightarrow> time \<Rightarrow> string \<Rightarrow> bool \<Rightarrow> chaos_orchestrator \<Rightarrow> chaos_orchestrator \<times> bool" where
  "complete_experiment fmt now i ok s =
    (case map_of (or_active s) i of
       None \<Rightarrow> (s, False)
     | Some e \<Rightarrow>
         (let r = \<lparr>er_experiment_id = ex_id e, er_name = ex_name e, er_fault_type = ex_fault_type e,
                   er_target = ex_target e,
                   er_started_at = (case started_at e of Some t \<Rightarrow> t | None \<Rightarrow> []),
                   er_ended_at = (case ended_at e of Some t \<Rightarrow> t | None \<Rightarrow> fmt now),
                   er_faults_injected = ex_faults_injected e, er_success = ok\<rparr>
          in (s\<lparr>or_active := hm_remove i (or_active s),
                total_faults_injected := total_faults_injected s + er_faults_injected r,
                experiment_history := experiment_history s @ [r]\<rparr>, True)))"

definition register_schedule :: "string \<Rightarrow> string \<Rightarrow> nat option \<Rightarrow> chaos_orchestrator \<Rightarrow> chaos_orchestrator" where
  "register_schedule i c mx s =
     s\<lparr>schedules := hm_insert i \<lparr>cron = c, max_runs = mx, run_count = 0\<rparr> (schedules s)\<rparr>"

definition can_run_scheduled :: "chaos_orchestrator \<Rightarrow> string \<Rightarrow> bool" where
  "can_run_scheduled s i =
    (case map_of (schedules s) i of
       Some sc \<Rightarrow> (case max_runs sc of None \<Rightarrow> True | Some m \<Rightarrow> run_count sc < m)
     | None \<Rightarrow> False)"

definition record_scheduled_run :: "string \<Rightarrow> chaos_orchestrator \<Rightarrow> chaos_orchestrator" where
  "record_scheduled_run i s =
     s\<lparr>schedules := hm_update i (\<lambda>sc. sc\<lparr>run_count := run_count sc + 1\<rparr>) (schedules s)\<rparr>"

definition active_count :: "chaos_orchestrator \<Rightarrow> nat" where
  "active_count s = length (or_active s)"

definition completed_count :: "chaos_orchestrator \<Rightarrow> nat" where
  "completed_count s = length (experiment_history s)"

definition or_set_enabled :: "bool \<Rightarrow> chaos_orchestrator \<Rightarrow> chaos_orchestrator" where
  "or_set_enabled b s = s\<lparr>or_enabled := b\<rparr>"

definition tick_one :: "(time \<Rightarrow> string) \<Rightarrow> time \<Rightarrow> string \<Rightarrow> chaos_orchestrator \<Rightarrow> chaos_orchestrator" where
  "tick_one fmt now i s =
     fst (complete_experiment fmt now i True
       (s\<lparr>or_active := hm_update i (end_experiment (fmt now)) (or_active s)\<rparr>))"

definition tick ::
  "((string, chaos_experiment) hmap \<Rightarrow> (string, chaos_experiment) hmap) \<Rightarrow> (time \<Rightarrow> string)
   \<Rightarrow> (string \<Rightarrow> time option) \<Rightarrow> time \<Rightarrow> chaos_orchestrator \<Rightarrow> chaos_orchestrator outcome" where
  "tick ord fmt prs now s =
    (if list_ex (\<lambda>(_, e). experiment_expired prs now e = Panics) (or_active s) then Panics
     else Returns (fold (tick_one fmt now)
       (map fst (filter (\<lambda>(_, e). experiment_expired prs now e = Returns True) (hash_iter ord (or_active s)))) s))"

section \<open>The orchestrator's books\<close>

declare map_of_eq_Some_iff [simp del]

datatype orch_op =
    OStart time string fault_type string f64 u64
  | OStop time string
  | OStopAll time
  | OComplete time string bool
  | OSchedule string string "nat option"
  | ORan string
  | OEnable bool
  | OLimit f64
  | OTick time

fun orch_exec ::
  "((string, chaos_experiment) hmap \<Rightarrow> (string, chaos_experiment) hmap) \<Rightarrow> (time \<Rightarrow> string)
   \<Rightarrow> (string \<Rightarrow> time option) \<Rightarrow> orch_op \<Rightarrow> chaos_orchestrator \<Rightarrow> chaos_orchestrator" where
  "orch_exec ord fmt prs (OStart now nm ft tgt br dur) s = fst (or_start fmt now nm ft tgt br dur s)"
| "orch_exec ord fmt prs (OStop now i) s = fst (or_stop fmt now i s)"
| "orch_exec ord fmt prs (OStopAll now) s = stop_all fmt now s"
| "orch_exec ord fmt prs (OComplete now i ok) s = fst (complete_experiment fmt now i ok s)"
| "orch_exec ord fmt prs (OSchedule i c mx) s = register_schedule i c mx s"
| "orch_exec ord fmt prs (ORan i) s = record_scheduled_run i s"
| "orch_exec ord fmt prs (OEnable b) s = or_set_enabled b s"
| "orch_exec ord fmt prs (OLimit x) s = set_blast_radius_limit x s"
| "orch_exec ord fmt prs (OTick now) s = (case tick ord fmt prs now s of Returns s' \<Rightarrow> s' | Panics \<Rightarrow> s)"

text \<open>Every identifier handed out so far is in exactly one place: the active table or the history.\<close>

definition issued :: "nat \<Rightarrow> string list" where
  "issued n = map orch_id [1..<Suc n]"

lemma orch_id_inj: "inj orch_id"
  by (auto simp: inj_def orch_id_def dest: show_nat_pad_inj)

lemma issued_simps:
  "issued 0 = []" "issued (Suc n) = issued n @ [orch_id (Suc n)]" "length (issued n) = n"
  by (simp_all add: issued_def)

lemma issued_distinct: "distinct (issued n)"
  by (simp add: issued_def distinct_map inj_on_subset [OF orch_id_inj])

lemma set_issued: "set (issued n) = orch_id ` {1..n}"
  unfolding issued_def set_map set_upt atLeastLessThanSuc_atLeastAtMost ..

definition orch_inv :: "chaos_orchestrator \<Rightarrow> bool" where
  "orch_inv s =
    (mset (map fst (or_active s)) + mset (map er_experiment_id (experiment_history s)) =
       mset (issued (or_counter s)) \<and>
     (\<forall>i e. map_of (or_active s) i = Some e \<longrightarrow> ex_id e = i))"

lemma orch_ids_distinct:
  assumes "orch_inv s"
  shows "distinct (map fst (or_active s) @ map er_experiment_id (experiment_history s))"
    and "hm_wf (or_active s)"
    and "set (map fst (or_active s)) \<union> set (map er_experiment_id (experiment_history s)) = orch_id ` {1..or_counter s}"
proof -
  let ?all = "map fst (or_active s) @ map er_experiment_id (experiment_history s)"
  have eq: "mset ?all = mset (issued (or_counter s))"
    using assms by (simp add: orch_inv_def)
  show d: "distinct ?all"
    using mset_eq_imp_distinct_iff [OF eq] issued_distinct by blast
  then show "hm_wf (or_active s)"
    by simp
  show "set (map fst (or_active s)) \<union> set (map er_experiment_id (experiment_history s)) = orch_id ` {1..or_counter s}"
    using mset_eq_setD [OF eq] by (simp add: set_issued)
qed

lemma or_start_fresh:
  assumes "orch_inv s"
  shows "map_of (or_active s) (orch_id (or_counter s + 1)) = None"
proof -
  have "orch_id (or_counter s + 1) \<notin> orch_id ` {1..or_counter s}"
    using inj_eq [OF orch_id_inj] by auto
  then have "orch_id (or_counter s + 1) \<notin> set (map fst (or_active s))"
    using orch_ids_distinct(3) [OF assms] by blast
  then show ?thesis
    by (simp add: map_of_eq_None_iff)
qed

lemma or_start_inv: "orch_inv s \<Longrightarrow> orch_inv (fst (or_start fmt now nm ft tgt br dur s))"
  using or_start_fresh [of s]
  by (auto simp: orch_inv_def or_start_def Let_def hm_insert_def issued_simps map_add_def split: option.splits)

lemma update_inv:
  "(\<And>e. ex_id (f e) = ex_id e) \<Longrightarrow> orch_inv s \<Longrightarrow> orch_inv (s\<lparr>or_active := hm_update i f (or_active s)\<rparr>)"
  by (auto simp: orch_inv_def)

lemma end_experiment_id [simp]: "ex_id (end_experiment ts e) = ex_id e"
  by (simp add: end_experiment_def)

lemma or_stop_inv: "orch_inv s \<Longrightarrow> orch_inv (fst (or_stop fmt now i s))"
  by (auto simp: or_stop_def update_inv split: option.splits)

lemma complete_inv:
  assumes "orch_inv s"
  shows "orch_inv (fst (complete_experiment fmt now i ok s))"
proof (cases "map_of (or_active s) i")
  case (Some e)
  have "i \<in> set (map fst (or_active s))" "hm_wf (or_active s)"
    using Some map_of_eq_None_iff [of "or_active s" i] orch_ids_distinct(2) [OF assms] by auto
  then have "mset (map fst (or_active s)) = mset (map fst (hm_remove i (or_active s))) + {#i#}"
    by (simp only: keys_hm_remove distinct_remove1_removeAll [symmetric] mset_remove1) simp
  moreover have "ex_id e = i"
    using assms Some by (simp add: orch_inv_def)
  ultimately show ?thesis
    using assms Some by (auto simp: complete_experiment_def orch_inv_def Let_def)
qed (simp add: complete_experiment_def assms)

lemma tick_one_inv: "orch_inv s \<Longrightarrow> orch_inv (tick_one fmt now i s)"
  by (simp add: tick_one_def complete_inv update_inv)

lemma fold_orch_inv: "(\<And>x s. P s \<Longrightarrow> P (f x s)) \<Longrightarrow> P s \<Longrightarrow> P (fold f xs s)"
  by (induction xs arbitrary: s) auto

lemma tick_inv: "orch_inv s \<Longrightarrow> tick ord fmt prs now s = Returns s' \<Longrightarrow> orch_inv s'"
  by (auto simp: tick_def intro!: fold_orch_inv [where P = orch_inv] tick_one_inv split: if_splits)

lemma orch_exec_inv: "orch_inv s \<Longrightarrow> orch_inv (orch_exec ord fmt prs op s)"
proof (cases op)
  case (OStopAll now)
  then show "orch_inv s \<Longrightarrow> ?thesis"
    by (auto simp: stop_all_def intro!: fold_orch_inv [where P = orch_inv] or_stop_inv)
next
  case (OTick now)
  then show "orch_inv s \<Longrightarrow> ?thesis"
    using tick_inv [of s ord fmt prs now] by (cases "tick ord fmt prs now s") auto
qed (simp_all add: or_start_inv or_stop_inv complete_inv, simp_all add: orch_inv_def register_schedule_def
    record_scheduled_run_def or_set_enabled_def set_blast_radius_limit_def)

interpretation orch: op_system "orch_exec ord fmt prs" orch_inv
  by unfold_locales (rule orch_exec_inv)

lemma orchestrator_new_inv: "orch_inv (orchestrator_new env)"
  by (simp add: orch_inv_def orchestrator_new_def issued_simps)

text \<open>The orchestrator loses no experiment and invents none: over any sequence of calls the
  experiments started are, by their identifiers, exactly those in the active table and those in the history,
  each in one of the two and only once.\<close>

theorem orchestrator_books:
  assumes "s = fold (orch_exec ord fmt prs) ops (orchestrator_new env)"
  shows "active_count s + completed_count s = or_counter s \<and>
    distinct (map fst (or_active s) @ map er_experiment_id (experiment_history s)) \<and>
    set (map fst (or_active s)) \<union> set (map er_experiment_id (experiment_history s)) = orch_id ` {1..or_counter s}"
proof -
  have inv: "orch_inv s"
    unfolding assms by (rule orch.fold_inv, rule orchestrator_new_inv)
  then have "size (mset (map fst (or_active s)) + mset (map er_experiment_id (experiment_history s))) = or_counter s"
    by (simp add: orch_inv_def issued_simps)
  then have "active_count s + completed_count s = or_counter s"
    by (simp add: active_count_def completed_count_def)
  then show ?thesis
    using orch_ids_distinct(1,3) [OF inv] by blast
qed

definition sample_orch_ops :: "orch_op list" where
  "sample_orch_ops = [OEnable True, OStart 0 ''a'' Latency ''db'' 1 60, OStart 0 ''b'' Kill ''db'' 1 60, OStop 5 ''orch-exp-0001'',
     OTick (90 * second)]"

abbreviation sample_fmt :: "time \<Rightarrow> string" where
  "sample_fmt t \<equiv> show_nat (nat t)"

abbreviation sample_prs :: "string \<Rightarrow> time option" where
  "sample_prs x \<equiv> map_option int (parse_uint 64 x)"

theorem orchestrator_books_witness:
  "active_count (fold (orch_exec id sample_fmt sample_prs) sample_orch_ops (orchestrator_new (\<lambda>_. None))) +
   completed_count (fold (orch_exec id sample_fmt sample_prs) sample_orch_ops (orchestrator_new (\<lambda>_. None))) =
   or_counter (fold (orch_exec id sample_fmt sample_prs) sample_orch_ops (orchestrator_new (\<lambda>_. None)))"
  using orchestrator_books [OF refl, of id sample_fmt sample_prs sample_orch_ops "\<lambda>_. None"] by blast

section \<open>Stopped experiments\<close>

definition stopped :: "string \<Rightarrow> chaos_orchestrator \<Rightarrow> bool" where
  "stopped i s = (\<exists>e. map_of (or_active s) i = Some e \<and> \<not> ex_enabled e)"

lemma update_stopped: "stopped i s \<Longrightarrow> stopped i (s\<lparr>or_active := hm_update j (end_experiment ts) (or_active s)\<rparr>)"
  by (auto simp: stopped_def end_experiment_def)

lemma or_stop_stopped: "stopped i s \<Longrightarrow> stopped i (fst (or_stop fmt now j s))"
  by (auto simp: or_stop_def update_stopped split: option.splits)

lemma complete_stopped: "i \<noteq> j \<Longrightarrow> stopped i s \<Longrightarrow> stopped i (fst (complete_experiment fmt now j ok s))"
  by (auto simp: complete_experiment_def stopped_def Let_def split: option.splits)

lemma tick_one_stopped: "i \<noteq> j \<Longrightarrow> stopped i s \<Longrightarrow> stopped i (tick_one fmt now j s)"
  by (simp add: tick_one_def complete_stopped update_stopped)

lemma fold_tick_stopped: "i \<notin> set js \<Longrightarrow> stopped i s \<Longrightarrow> stopped i (fold (tick_one fmt now) js s)"
  by (induction js arbitrary: s) (auto simp: tick_one_stopped)

lemma tick_stopped:
  assumes "hm_wf (or_active s)" and "stopped i s" and "tick ord fmt prs now s = Returns s'"
  shows "stopped i s'"
proof -
  have "i \<notin> set (map fst (filter (\<lambda>(_, e). experiment_expired prs now e = Returns True) (hash_iter ord (or_active s))))"
    using assms(1,2) by (auto simp: stopped_def experiment_expired_def)
  then show ?thesis
    using assms(2,3) by (auto simp: tick_def fold_tick_stopped split: if_splits)
qed

lemma orch_exec_stopped:
  assumes "orch_inv s" and "stopped i s" and "\<forall>now ok. op \<noteq> OComplete now i ok"
  shows "stopped i (orch_exec ord fmt prs op s)"
proof (cases op)
  case (OStart now nm ft tgt br dur)
  then show ?thesis
    using assms(2) or_start_fresh [OF assms(1)] by (auto simp: or_start_def stopped_def Let_def)
next
  case (OStopAll now)
  then show ?thesis
    using assms(2) by (auto simp: stop_all_def intro!: fold_orch_inv [where P = "stopped i"] or_stop_stopped)
next
  case (OTick now)
  then show ?thesis
    using assms(2) tick_stopped [OF orch_ids_distinct(2) [OF assms(1)] assms(2), of ord fmt prs now]
    by (cases "tick ord fmt prs now s") auto
next
  case (OComplete now j ok)
  then show ?thesis
    using assms(2,3) by (auto intro: complete_stopped)
qed (use assms(2) in \<open>simp_all add: or_stop_stopped, simp_all add: stopped_def register_schedule_def
    record_scheduled_run_def or_set_enabled_def set_blast_radius_limit_def\<close>)

text \<open>An experiment that was stopped is never completed by itself: until someone completes it by
  name, no sequence of calls and ticks takes it out of the active table, it is counted as
  active forever, and it never reaches the history.\<close>

theorem stopped_experiment_stays_active:
  assumes "s = fold (orch_exec ord fmt prs) ops (orchestrator_new env)"
    and "or_stop fmt now i s = (s1, True)"
    and "\<forall>t ok. OComplete t i ok \<notin> set ops'"
  shows "stopped i (fold (orch_exec ord fmt prs) ops' s1) \<and>
    i \<notin> er_experiment_id ` set (experiment_history (fold (orch_exec ord fmt prs) ops' s1))"
proof -
  have inv: "orch_inv s1"
    using or_stop_inv [of s fmt now i] orch.fold_inv [OF orchestrator_new_inv, of ord fmt prs ops env] assms(1,2) by simp
  have "stopped i s1"
    using assms(2) by (auto simp: or_stop_def stopped_def end_experiment_def split: option.splits)
  then have "stopped i (fold (orch_exec ord fmt prs) ops' s1) \<and> orch_inv (fold (orch_exec ord fmt prs) ops' s1)"
    using inv assms(3)
  proof (induction ops' arbitrary: s1)
    case (Cons op ops')
    have "stopped i (orch_exec ord fmt prs op s1)"
      using Cons.prems by (intro orch_exec_stopped) auto
    then show ?case
      using Cons.IH [of "orch_exec ord fmt prs op s1"] Cons.prems orch_exec_inv by simp
  qed simp
  moreover from this have "i \<in> set (map fst (or_active (fold (orch_exec ord fmt prs) ops' s1)))"
    by (auto simp: stopped_def intro: map_of_SomeD [THEN image_eqI [rotated], of _ _ _ _ fst])
  ultimately show ?thesis
    using orch_ids_distinct(1) [of "fold (orch_exec ord fmt prs) ops' s1"] by auto
qed

definition sample_started :: chaos_orchestrator where
  "sample_started = fold (orch_exec id sample_fmt sample_prs) [OEnable True, OStart 0 ''a'' Latency ''db'' 1 60]
     (orchestrator_new (\<lambda>_. None))"

theorem stopped_experiment_stays_active_witness:
  "stopped (orch_id 1) (fold (orch_exec id sample_fmt sample_prs) [OTick (90 * second), OStopAll 1]
     (fst (or_stop sample_fmt 5 (orch_id 1) sample_started)))"
proof -
  have "or_stop sample_fmt 5 (orch_id 1) sample_started = (fst (or_stop sample_fmt 5 (orch_id 1) sample_started), True)"
    by (simp add: sample_started_def or_set_enabled_def orchestrator_new_def or_start_def or_stop_def hm_insert_def
        hm_remove_def Let_def)
  from stopped_experiment_stays_active [OF sample_started_def this, of "[OTick (90 * second), OStopAll 1]"] show ?thesis
    by simp
qed

section \<open>What decides an injection\<close>

text \<open>The decision on a request.  With chaos enabled, a fault is injected exactly when the
  target matches, the request falls within the blast radius and, for the error fault, the
  draw does not exceed the error rate; the kind of fault and the delay follow from the configuration alone.  Running
  experiments have no influence on it, and with nothing configured every request counts as
  an injected latency of zero.  Each call counts as exactly one injected or suppressed fault.\<close>

theorem evaluate_decision:
  assumes "enabled s" and "evaluate fmt prs now roll1 roll2 tgt s = Returns (s', r)"
  shows "(injected r \<longleftrightarrow> target_matches s tgt \<and> (1 \<le> blast_radius s \<or> roll1 \<le> blast_radius s) \<and>
      (active_fault_type s = Error \<longrightarrow> 1 \<le> error_rate s \<or> roll2 \<le> error_rate s)) \<and>
     (injected r \<longrightarrow> ir_fault_type r = active_fault_type s \<and>
      delay_ms r = (if active_fault_type s = Latency then latency_ms s else 0)) \<and>
     (faults_injected s' = faults_injected s + (if injected r then 1 else 0)) \<and>
     (faults_suppressed s' = faults_suppressed s + (if injected r then 0 else 1))"
proof (rule conjI [OF _ conjI [OF _ conjI]])
  obtain m where "inject roll1 roll2 tgt (s\<lparr>experiments := m\<rparr>) = (s', r)"
    using assms by (auto simp: evaluate_def stop_expired_experiments_def split: if_splits)
  moreover have "target_matches (s\<lparr>experiments := m\<rparr>) tgt = target_matches s tgt"
    "active_fault_type (s\<lparr>experiments := m\<rparr>) = active_fault_type s"
    by (simp_all add: target_matches_def active_fault_type_def)
  ultimately show "injected r \<longleftrightarrow> target_matches s tgt \<and> (1 \<le> blast_radius s \<or> roll1 \<le> blast_radius s) \<and>
      (active_fault_type s = Error \<longrightarrow> 1 \<le> error_rate s \<or> roll2 \<le> error_rate s)"
    "injected r \<longrightarrow> ir_fault_type r = active_fault_type s \<and>
      delay_ms r = (if active_fault_type s = Latency then latency_ms s else 0)"
    "faults_injected s' = faults_injected s + (if injected r then 1 else 0)"
    "faults_suppressed s' = faults_suppressed s + (if injected r then 0 else 1)"
    by (auto simp: inject_def suppress_def Let_def not_le split: if_splits)
qed

definition sample_chaos :: chaos_shim where
  "sample_chaos = set_enabled True (chaos_new sample_validators (\<lambda>_. None))"

theorem evaluate_decision_witness:
  "\<exists>s' r. evaluate sample_fmt sample_prs 0 (1 / 2) (1 / 2) ''db'' sample_chaos = Returns (s', r) \<and> injected r"
proof -
  have s: "enabled sample_chaos" "target_matches sample_chaos ''db''" "blast_radius sample_chaos = 1"
    "active_fault_type sample_chaos = Latency" "experiments sample_chaos = []"
    by (simp_all add: sample_chaos_def set_enabled_def chaos_new_def target_matches_def active_fault_type_def env_str_def
        env_flag_def env_uint_def env_f64_def)
  then obtain s' r where e: "evaluate sample_fmt sample_prs 0 (1 / 2) (1 / 2) ''db'' sample_chaos = Returns (s', r)"
    by (cases "inject (1 / 2) (1 / 2) ''db'' (sample_chaos\<lparr>experiments := []\<rparr>)")
      (simp add: evaluate_def stop_expired_experiments_def)
  then show ?thesis
    using evaluate_decision [OF s(1) e] s by simp
qed

end
