(* ===== verification/Blobkit.thy ===== *)
theory Blobkit
  imports Prelude
begin

text \<open>
  The object store as \<^verbatim>\<open>backup-shim\<close> and \<^verbatim>\<open>archival-shim\<close> use it.  The crate \<^verbatim>\<open>blobkit\<close> and the URL parser
  are a record of checks and outcomes, each an error text or none; the store itself is a
  table from bucket and key to the bytes.
\<close>

record s3_config =
  cfg_bucket :: string
  cfg_region :: string
  cfg_path_style :: bool
  cfg_endpoint :: "string option"
  cfg_credentials :: "(string \<times> string) option"

record s3_api =
  bucket_err :: "string \<Rightarrow> string option"
  key_err :: "string \<Rightarrow> string option"
  url_err :: "string \<Rightarrow> string option"
  client_err :: "s3_config \<Rightarrow> string option"
  put_err :: "string \<Rightarrow> string option"
  get_err :: "string \<Rightarrow> string option"
  delete_err :: "string \<Rightarrow> string option"

type_synonym object_table = "(string \<times> string, string) hmap"

text \<open>Both variables have to be set and not empty.\<close>

definition static_credentials :: "env \<Rightarrow> string \<Rightarrow> string \<Rightarrow> (string \<times> string) option" where
  "static_credentials env access secret =
    (case (env access, env secret) of
       (Some a, Some k) \<Rightarrow> if a \<noteq> [] \<and> k \<noteq> [] then Some (a, k) else None
     | _ \<Rightarrow> None)"

definition open_store ::
  "s3_api \<Rightarrow> string \<Rightarrow> string \<Rightarrow> bool \<Rightarrow> string \<Rightarrow> string option \<Rightarrow> (string \<times> string) option \<Rightarrow> string + s3_config" where
  "open_store api bucket region path_style var endpoint creds =
    (case bucket_err api bucket of
       Some e \<Rightarrow> Inl (''invalid bucket '' @ bucket @ '': '' @ e)
     | None \<Rightarrow>
         (case Option.bind endpoint (url_err api) of
            Some e \<Rightarrow> Inl (''invalid '' @ var @ '': '' @ e)
          | None \<Rightarrow>
              (let cfg = \<lparr>cfg_bucket = bucket, cfg_region = region, cfg_path_style = path_style,
                          cfg_endpoint = endpoint, cfg_credentials = creds\<rparr>
               in case client_err api cfg of
                    Some e \<Rightarrow> Inl (''failed to build S3 client: '' @ e)
                  | None \<Rightarrow> Inr cfg)))"

end
