(* ===== verification/Backup.thy ===== *)
theory Backup
  imports Config Blobkit
begin

text \<open>
  \<^verbatim>\<open>backup-shim\<close>: dumping a database with retries, the upload to S3, the history with its
  retention, validation and verification of a backup, and the scheduling loop.

  Files are a table from paths to byte strings.  The dump commands, the Redis
  connection, the object store of \<^verbatim>\<open>blobkit\<close>, the SHA-256 function and the faults of the file system are
  arguments, some of them indexed by the attempt.  Timers are exact, and a Redis query takes no time.
\<close>

section \<open>History\<close>

record backup_entry =
  filename :: string
  created_at :: time
  size_bytes :: nat
  checksum :: string

record backup_state =
  backup_success :: nat
  backup_failure :: nat
  backups_retained :: nat
  backups_expired :: nat
  last_backup :: "time option"
  last_backup_size :: nat
  backup_history :: "backup_entry list"

definition backup_state_new :: backup_state where
  "backup_state_new = \<lparr>backup_success = 0, backup_failure = 0, backups_retained = 0, backups_expired = 0,
     last_backup = None, last_backup_size = 0, backup_history = []\<rparr>"

definition record_backup :: "time \<Rightarrow> string \<Rightarrow> nat \<Rightarrow> string \<Rightarrow> backup_state \<Rightarrow> backup_state" where
  "record_backup now nm n cs st =
    (let h = backup_history st @ [\<lparr>filename = nm, created_at = now, size_bytes = n, checksum = cs\<rparr>]
     in st\<lparr>backup_history := h, backup_success := backup_success st + 1, last_backup := Some now,
           last_backup_size := n, backups_retained := length h\<rparr>)"

definition record_failure :: "backup_state \<Rightarrow> backup_state" where
  "record_failure st = st\<lparr>backup_failure := backup_failure st + 1\<rparr>"

abbreviation day :: time where
  "day \<equiv> 86400 * second"

text \<open>The subtraction panics when the cutoff lies before \<^verbatim>\<open>min_utc\<close>, the first time \<^verbatim>\<open>chrono\<close> represents.\<close>

definition cleanup_retention ::
  "time \<Rightarrow> time \<Rightarrow> nat \<Rightarrow> backup_state \<Rightarrow> (backup_state \<times> string list) outcome" where
  "cleanup_retention min_utc now days st =
    (let cutoff = now - int days * day;
         expired = map filename (filter (\<lambda>e. created_at e < cutoff) (backup_history st));
         h = filter (\<lambda>e. cutoff \<le> created_at e) (backup_history st)
     in if cutoff < min_utc then Panics
        else Returns (st\<lparr>backup_history := h,
            backups_expired := backups_expired st + (length (backup_history st) - length h),
            backups_retained := length h\<rparr>, expired))"

definition history_summary :: "time \<Rightarrow> backup_state \<Rightarrow> nat \<times> u64 \<times> u64" where
  "history_summary now st =
    (length (backup_history st),
     sum_list (map (\<lambda>e. of_nat (size_bytes e)) (backup_history st)),
     case backup_history st of [] \<Rightarrow> 0
     | e # _ \<Rightarrow> of_int (sgn (now - created_at e) * (\<bar>now - created_at e\<bar> div day)))"

section \<open>The shim\<close>

record backup_shim =
  bk_schedule :: string
  bk_storage :: string
  bk_path :: string
  bk_prefix :: string
  bk_retention_days :: nat
  bk_database :: string
  bk_db_type :: string
  bk_db_host :: string
  bk_db_port :: nat
  bk_db_user :: string
  bk_db_password :: string
  bk_compression :: string
  bk_timeout_secs :: nat
  bk_cmd :: string
  bk_output_dir :: string
  bk_redis_url :: string
  bk_redis_password :: string
  retry_max_attempts :: nat
  retry_base_delay_ms :: u64
  retry_max_delay_ms :: u64
  s3_bucket :: string
  s3_region :: string
  s3_endpoint :: "string option"
  s3_prefix :: string
  s3_force_path_style :: bool
  s3_server_side_encryption :: bool

definition backup_new :: "env \<Rightarrow> backup_shim" where
  "backup_new env =
     \<lparr>bk_schedule = env_str env ''BACKUP_SCHEDULE'' ''0 0 2 * * *'',
      bk_storage = env_str env ''BACKUP_STORAGE'' ''local'',
      bk_path = env_str env ''BACKUP_PATH'' ''/var/backups'',
      bk_prefix = env_str env ''BACKUP_PREFIX'' [],
      bk_retention_days = env_uint 32 env ''BACKUP_RETENTION_DAYS'' 30,
      bk_database = env_str env ''BACKUP_DATABASE'' [],
      bk_db_type = env_str env ''BACKUP_DB_TYPE'' ''postgres'',
      bk_db_host = env_str env ''BACKUP_DB_HOST'' ''127.0.0.1'',
      bk_db_port = env_uint 16 env ''BACKUP_DB_PORT'' 5432,
      bk_db_user = env_str env ''BACKUP_DB_USER'' ''postgres'',
      bk_db_password = env_str env ''BACKUP_DB_PASSWORD'' [],
      bk_compression = env_str env ''BACKUP_COMPRESSION'' ''gzip'',
      bk_timeout_secs = env_uint 64 env ''BACKUP_TIMEOUT_SECS'' 3600,
      bk_cmd = env_str env ''BACKUP_CMD'' ''pg_dump'',
      bk_output_dir = env_str env ''BACKUP_OUTPUT_DIR'' ''/tmp/backups'',
      bk_redis_url = env_str env ''REDIS_URL'' ''redis://localhost:6379'',
      bk_redis_password = env_str env ''REDIS_PASSWORD'' [],
      retry_max_attempts = env_uint 32 env ''BACKUP_RETRY_MAX_ATTEMPTS'' 3,
      retry_base_delay_ms = of_nat (env_uint 64 env ''BACKUP_RETRY_BASE_DELAY_MS'' 1000),
      retry_max_delay_ms = of_nat (env_uint 64 env ''BACKUP_RETRY_MAX_DELAY_MS'' 30000),
      s3_bucket = env_str env ''BACKUP_S3_BUCKET'' [],
      s3_region = env_str env ''BACKUP_S3_REGION'' ''us-east-1'',
      s3_endpoint = env ''BACKUP_S3_ENDPOINT'',
      s3_prefix = env_str env ''BACKUP_S3_PREFIX'' ''backups'',
      s3_force_path_style = env_flag env ''BACKUP_S3_FORCE_PATH_STYLE'' False,
      s3_server_side_encryption = env_flag env ''BACKUP_S3_SSE'' True\<rparr>"

definition backup_filename :: "string \<Rightarrow> backup_shim \<Rightarrow> string" where
  "backup_filename stamp s =
    (let ext = (if bk_compression s = ''gzip'' then ''sql.gz''
                else if bk_compression s = ''zstd'' then ''sql.zst'' else ''sql'')
     in bk_database s @ ''_'' @ stamp @ ''.'' @ ext)"

definition compute_checksum :: "(string \<Rightarrow> u8 list) \<Rightarrow> string \<Rightarrow> string" where
  "compute_checksum sha256 data = concat (map (\<lambda>b. show_hex 2 (unat b)) (sha256 data))"

section \<open>Object storage\<close>

definition build_s3_store :: "s3_api \<Rightarrow> env \<Rightarrow> backup_shim \<Rightarrow> string + s3_config" where
  "build_s3_store api env s =
     open_store api (s3_bucket s) (s3_region s) (s3_force_path_style s) ''BACKUP_S3_ENDPOINT'' (s3_endpoint s)
       (static_credentials env ''BACKUP_S3_ACCESS_KEY'' ''BACKUP_S3_SECRET_KEY'')"

definition object_key :: "backup_shim \<Rightarrow> string \<Rightarrow> string" where
  "object_key s nm =
    (if s3_prefix s = [] then bk_database s @ ''/'' @ nm else s3_prefix s @ ''/'' @ bk_database s @ ''/'' @ nm)"

record bk_world =
  files :: "(string, string) hmap"
  objects :: "(string \<times> string, string) hmap"

definition read_file :: "(string \<Rightarrow> string option) \<Rightarrow> string \<Rightarrow> bk_world \<Rightarrow> string + string" where
  "read_file read_err path w =
    (case read_err path of
       Some e \<Rightarrow> Inl e
     | None \<Rightarrow> (case map_of (files w) path of Some d \<Rightarrow> Inr d | None \<Rightarrow> Inl ''No such file or directory (os error 2)''))"

definition upload_to_s3 ::
  "s3_api \<Rightarrow> env \<Rightarrow> (string \<Rightarrow> string option) \<Rightarrow> backup_shim \<Rightarrow> string \<Rightarrow> string \<Rightarrow> bk_world
   \<Rightarrow> bk_world \<times> (string + string)" where
  "upload_to_s3 api env read_err s local_path nm w =
    (let key = object_key s nm in
     case bucket_err api (s3_bucket s) of
       Some e \<Rightarrow> (w, Inl (''invalid bucket '' @ s3_bucket s @ '': '' @ e))
     | None \<Rightarrow>
         (case key_err api key of
            Some e \<Rightarrow> (w, Inl (''invalid object key '' @ key @ '': '' @ e))
          | None \<Rightarrow>
              (case read_file read_err local_path w of
                 Inl e \<Rightarrow> (w, Inl (''Failed to read backup file for upload: '' @ local_path @ '': '' @ e))
               | Inr data \<Rightarrow>
                   (case build_s3_store api env s of
                      Inl e \<Rightarrow> (w, Inl e)
                    | Inr cfg \<Rightarrow>
                        (case put_err api key of
                           Some e \<Rightarrow> (w, Inl (''S3 upload failed: '' @ s3_bucket s @ ''/'' @ key @ '': '' @ e))
                         | None \<Rightarrow>
                             (w\<lparr>objects := hm_insert (s3_bucket s, key) data (objects w)\<rparr>,
                              Inr (''s3://'' @ s3_bucket s @ ''/'' @ key)))))))"

definition delete_from_s3 ::
  "s3_api \<Rightarrow> env \<Rightarrow> backup_shim \<Rightarrow> string \<Rightarrow> bk_world \<Rightarrow> bk_world \<times> (string + unit)" where
  "delete_from_s3 api env s nm w =
    (let key = object_key s nm in
     case bucket_err api (s3_bucket s) of
       Some e \<Rightarrow> (w, Inl (''invalid bucket '' @ s3_bucket s @ '': '' @ e))
     | None \<Rightarrow>
         (case key_err api key of
            Some e \<Rightarrow> (w, Inl (''invalid object key '' @ key @ '': '' @ e))
          | None \<Rightarrow>
              (case build_s3_store api env s of
                 Inl e \<Rightarrow> (w, Inl e)
               | Inr cfg \<Rightarrow>
                   (case delete_err api key of
                      Some e \<Rightarrow> (w, Inl (''S3 delete failed: '' @ s3_bucket s @ ''/'' @ key @ '': '' @ e))
                    | None \<Rightarrow> (w\<lparr>objects := hm_remove (s3_bucket s, key) (objects w)\<rparr>, Inr ())))))"

definition validate_backup :: "(string \<Rightarrow> u8 list) \<Rightarrow> backup_entry \<Rightarrow> string \<Rightarrow> bool" where
  "validate_backup sha256 e data =
    (if size_bytes e = 0 \<or> checksum e = [] \<or> length (checksum e) < 16 then False
     else compute_checksum sha256 data = checksum e \<and> length data = size_bytes e)"

section \<open>Dumps\<close>

text \<open>What the outside world does during the attempts of one backup.\<close>

record redis_link =
  open_err :: "string option"
  connect_err :: "string option"
  auth_err :: "string option"
  bgsave_err :: "string option"
  info_reply :: "nat \<Rightarrow> string + string"
  config_dir :: "string + string"
  config_dbfilename :: "string + string"
  rdb_content :: "string \<Rightarrow> string + string"

record bk_env =
  mkdir_fault :: "string option"
  run_cmd :: "nat \<Rightarrow> string \<Rightarrow> string list \<Rightarrow> command_output"
  dump_fault :: "nat \<Rightarrow> write_fault option"
  read_fault :: "string \<Rightarrow> string option"
  remove_fault :: "string option"
  redis :: "nat \<Rightarrow> redis_link"
  s3 :: s3_api

text \<open>Writing the file of a backup; a write that fails may leave part of it.\<close>

definition write_output :: "write_fault option \<Rightarrow> string \<Rightarrow> string \<Rightarrow> bk_world \<Rightarrow> bk_world \<times> (string + unit)" where
  "write_output fault path txt w =
    (case written fault txt of None \<Rightarrow> w | Some t \<Rightarrow> w\<lparr>files := hm_insert path t (files w)\<rparr>, write_result fault)"

definition write_dump ::
  "bk_env \<Rightarrow> nat \<Rightarrow> string \<Rightarrow> command_output \<Rightarrow> string \<Rightarrow> bk_world \<Rightarrow> bk_world \<times> (string + unit)" where
  "write_dump E k cmd out path w =
    (case out of
       NotRun e \<Rightarrow> (w, Inl e)
     | ExitFailure stderr \<Rightarrow> (w, Inl (cmd @ '' failed: '' @ stderr))
     | ExitSuccess stdout \<Rightarrow>
write_output (dump_fault E k) path stdout w)"

definition dump_postgres :: "bk_env \<Rightarrow> nat \<Rightarrow> backup_shim \<Rightarrow> string \<Rightarrow> bk_world \<Rightarrow> bk_world \<times> (string + unit)" where
  "dump_postgres E k s path w =
     write_dump E k (bk_cmd s)
       (run_cmd E k (bk_cmd s) [''-h'', bk_db_host s, ''-p'', show_nat (bk_db_port s), ''-U'', bk_db_user s, ''-d'',
          bk_database s, ''--no-owner'', ''--no-privileges'', ''-Fc'']) path w"

definition dump_mariadb :: "bk_env \<Rightarrow> nat \<Rightarrow> backup_shim \<Rightarrow> string \<Rightarrow> bk_world \<Rightarrow> bk_world \<times> (string + unit)" where
  "dump_mariadb E k s path w =
     write_dump E k ''mysqldump''
       (run_cmd E k ''mysqldump'' [''-h'', bk_db_host s, ''-P'', show_nat (bk_db_port s), ''-u'', bk_db_user s,
          bk_database s, ''--single-transaction'', ''--routines'', ''--triggers'']) path w"

text \<open>Waiting for \<^verbatim>\<open>BGSAVE\<close>, polling every 100 ms; times in milliseconds since the call.\<close>

function wait_bgsave :: "(nat \<Rightarrow> string + string) \<Rightarrow> nat \<Rightarrow> nat \<Rightarrow> string + unit" where
  "wait_bgsave info secs t =
    (case info t of
       Inl e \<Rightarrow> Inl (''Redis INFO failed: '' @ e)
     | Inr txt \<Rightarrow>
         if contains txt ''rdb_bgsave_in_progress:0'' then Inr ()
         else if secs * 1000 \<le> t then
           Inl (''Redis BGSAVE timed out after '' @ show_nat secs @ '' seconds'')
         else wait_bgsave info secs (t + 100))"
  by pat_completeness auto
termination
  by (relation "measure (\<lambda>(info, d, t). d * 1000 + 100 - t)") auto

declare wait_bgsave.simps [simp del]

definition err_or :: "string option \<Rightarrow> string \<Rightarrow> (string + 'a) \<Rightarrow> string + 'a" where
  "err_or e msg r = (case e of Some x \<Rightarrow> Inl (msg @ x) | None \<Rightarrow> r)"

definition redis_rdb :: "redis_link \<Rightarrow> backup_shim \<Rightarrow> string + string" where
  "redis_rdb R s =
     err_or (open_err R) ''Failed to create Redis client: ''
    (err_or (connect_err R) ''Failed to connect to Redis: ''
    (err_or (if bk_redis_password s \<noteq> [] then auth_err R else None) ''Redis AUTH failed: ''
    (err_or (bgsave_err R) ''Redis BGSAVE failed: ''
    (case wait_bgsave (info_reply R) (bk_timeout_secs s) 0 of
       Inl e \<Rightarrow> Inl e
     | Inr _ \<Rightarrow>
         (case config_dir R of
            Inl e \<Rightarrow> Inl (''Redis CONFIG GET dir failed: '' @ e)
          | Inr dir \<Rightarrow>
              (case config_dbfilename R of
                 Inl e \<Rightarrow> Inl (''Redis CONFIG GET dbfilename failed: '' @ e)
               | Inr nm \<Rightarrow> rdb_content R (trim dir @ ''/'' @ trim nm)))))))"

definition backup_redis :: "bk_env \<Rightarrow> nat \<Rightarrow> backup_shim \<Rightarrow> string \<Rightarrow> bk_world \<Rightarrow> bk_world \<times> (string + unit)" where
  "backup_redis E k s path w =
    (case redis_rdb (redis E k) s of
       Inl e \<Rightarrow> (w, Inl e)
     | Inr content \<Rightarrow> write_output (dump_fault E k) path content w)"

text \<open>One attempt: a dump that can be retried, or an error that leaves \<^verbatim>\<open>backup\<close> at once.
  \<^verbatim>\<open>mongodump\<close> writes a directory, whatever its exit status.\<close>

datatype dump_end = Dumped | Retry string | Leave string

definition dump_once :: "bk_env \<Rightarrow> nat \<Rightarrow> backup_shim \<Rightarrow> string \<Rightarrow> bk_world \<Rightarrow> bk_world \<times> dump_end" where
  "dump_once E k s path w =
    (let ok = (\<lambda>(w', r). (w', case r of Inr _ \<Rightarrow> Dumped | Inl e \<Rightarrow> Retry e)) in
     if bk_db_type s = ''postgres'' then ok (dump_postgres E k s path w)
     else if bk_db_type s = ''mariadb'' \<or> bk_db_type s = ''mysql'' then ok (dump_mariadb E k s path w)
     else if bk_db_type s = ''redis'' then ok (backup_redis E k s path w)
     else if bk_db_type s = ''mongo'' then
       (case run_cmd E k ''mongodump'' [''--uri'', ''mongodb://'' @ bk_db_host s, ''--out'', path] of
          NotRun e \<Rightarrow> (w, Leave e)
        | _ \<Rightarrow> (w, Dumped))
     else (w, Leave (''Unsupported database type: '' @ bk_db_type s)))"

text \<open>\<^verbatim>\<open>base * 2u64.pow(attempt - 1)\<close> in a release build, where both operations wrap around.\<close>

definition attempt_delay :: "backup_shim \<Rightarrow> nat \<Rightarrow> u64" where
  "attempt_delay s k = min (retry_base_delay_ms s * 2 ^ (k - 1)) (retry_max_delay_ms s)"

text \<open>What follows a dump: reading it back, the upload and the entry in the history.\<close>

definition after_dump ::
  "(string \<Rightarrow> u8 list) \<Rightarrow> bk_env \<Rightarrow> env \<Rightarrow> time \<Rightarrow> backup_shim \<Rightarrow> string \<Rightarrow> string \<Rightarrow> backup_state \<times> bk_world
   \<Rightarrow> (backup_state \<times> bk_world) \<times> (string + unit)" where
  "after_dump sha256 E env now s nm path stw =
    (case stw of (st, w) \<Rightarrow>
     (case read_file (read_fault E) path w of
        Inl e \<Rightarrow> ((st, w), Inl (''Failed to read backup file '' @ path @ '': '' @ e))
      | Inr data \<Rightarrow>
          (let cs = compute_checksum sha256 data;
               w1 = (if bk_storage s = ''s3'' \<and> s3_bucket s \<noteq> [] then
                       (case upload_to_s3 (s3 E) env (read_fault E) s path nm w of
                          (w', Inr _) \<Rightarrow>
                            if env_flag env ''BACKUP_S3_REMOVE_LOCAL'' False \<and> remove_fault E = None
                            then w'\<lparr>files := hm_remove path (files w')\<rparr> else w'
                        | (w', Inl _) \<Rightarrow> w')
                     else w)
           in ((record_backup now nm (length data) cs st, w1), Inr ()))))"

text \<open>The attempts from \<^verbatim>\<open>k\<close> on, as long as \<^verbatim>\<open>n\<close> remain, with the delays slept.\<close>

fun backup_attempts ::
  "(string \<Rightarrow> u8 list) \<Rightarrow> bk_env \<Rightarrow> env \<Rightarrow> time \<Rightarrow> backup_shim \<Rightarrow> string \<Rightarrow> string \<Rightarrow> nat \<Rightarrow> nat \<Rightarrow> string
   \<Rightarrow> backup_state \<times> bk_world \<Rightarrow> (backup_state \<times> bk_world) \<times> (string + unit) \<times> u64 list" where
  "backup_attempts sha256 E env now s nm path 0 k err (st, w) = ((record_failure st, w), Inl err, [])"
| "backup_attempts sha256 E env now s nm path (Suc n) k err (st, w) =
    (let slept = (if 0 < k then [attempt_delay s k] else []) in
     case dump_once E k s path w of
       (w1, Dumped) \<Rightarrow>
         (case after_dump sha256 E env now s nm path (st, w1) of (stw, r) \<Rightarrow> (stw, r, slept))
     | (w1, Leave e) \<Rightarrow> ((st, w1), Inl e, slept)
     | (w1, Retry e) \<Rightarrow>
         (case backup_attempts sha256 E env now s nm path n (k + 1) e (st, w1) of
            (stw, r, ds) \<Rightarrow> (stw, r, slept @ ds)))"

definition backup ::
  "(string \<Rightarrow> u8 list) \<Rightarrow> bk_env \<Rightarrow> env \<Rightarrow> time \<Rightarrow> string \<Rightarrow> backup_shim \<Rightarrow> backup_state \<times> bk_world
   \<Rightarrow> (backup_state \<times> bk_world) \<times> (string + unit) \<times> u64 list" where
  "backup sha256 E env now stamp s stw =
    (let nm = backup_filename stamp s;
         path = bk_output_dir s @ ''/'' @ nm
     in case mkdir_fault E of
          Some e \<Rightarrow> (stw, Inl e, [])
        | None \<Rightarrow> backup_attempts sha256 E env now s nm path (retry_max_attempts s + 1) 0
                    ''Backup failed after all retries'' stw)"

section \<open>Verification\<close>

record verification_result =
  vr_success :: bool
  file_exists :: bool
  file_size :: nat
  checksum_match :: "bool option"
  restore_test :: "bool option"
  errors :: "string list"

record backup_verifier =
  verify_after :: bool
  test_restore :: bool

definition verifier_from_env :: "env \<Rightarrow> backup_verifier" where
  "verifier_from_env env =
     \<lparr>verify_after = env_flag env ''BACKUP_VERIFY_AFTER'' True, test_restore = env_flag env ''BACKUP_VERIFY_RESTORE'' False\<rparr>"

definition test_restore_command :: "(string \<Rightarrow> string list \<Rightarrow> command_output) \<Rightarrow> string \<Rightarrow> string + bool" where
  "test_restore_command run path =
    (case run ''pg_restore'' [''--list'', path] of
       NotRun e \<Rightarrow> Inl e | ExitFailure _ \<Rightarrow> Inr False | ExitSuccess _ \<Rightarrow> Inr True)"

definition verify ::
  "(string \<Rightarrow> u8 list) \<Rightarrow> (string \<Rightarrow> string list \<Rightarrow> command_output) \<Rightarrow> (string \<Rightarrow> string option) \<Rightarrow> bk_world
   \<Rightarrow> backup_verifier \<Rightarrow> string \<Rightarrow> string \<Rightarrow> verification_result" where
  "verify sha256 run read_err w v path expected =
    (if \<not> verify_after v then
       \<lparr>vr_success = True, file_exists = True, file_size = 0, checksum_match = None, restore_test = None, errors = []\<rparr>
     else
       (case map_of (files w) path of
          None \<Rightarrow>
            \<lparr>vr_success = False, file_exists = False, file_size = 0, checksum_match = None, restore_test = None,
             errors = [''File not found: No such file or directory (os error 2)'']\<rparr>
        | Some content \<Rightarrow>
            (let n = length content in
             if n = 0 then
               \<lparr>vr_success = False, file_exists = True, file_size = 0, checksum_match = Some False, restore_test = None,
                errors = [''Backup file has zero size'']\<rparr>
             else
               (case read_file read_err path w of
                  Inl e \<Rightarrow>
                    \<lparr>vr_success = False, file_exists = True, file_size = n, checksum_match = None, restore_test = None,
                     errors = [''Failed to read backup file: '' @ e]\<rparr>
                | Inr data \<Rightarrow>
                    (let actual = compute_checksum sha256 data;
                         checksum_ok = (actual = expected);
                         errs1 = (if checksum_ok then [] else [''Checksum mismatch: expected='' @ expected @ '', actual='' @ actual]);
                         (restore_ok, errs2) =
                           (if test_restore v \<and> checksum_ok then
                              (case test_restore_command run path of
                                 Inr ok \<Rightarrow> (Some ok, errs1)
                               | Inl e \<Rightarrow> (Some False, errs1 @ [''Restore test failed: '' @ e]))
                            else (None, errs1))
                     in \<lparr>vr_success = (checksum_ok \<and> errs2 = []), file_exists = True, file_size = n,
                         checksum_match = Some checksum_ok, restore_test = restore_ok, errors = errs2\<rparr>)))))"

section \<open>Capability\<close>

definition backup_init :: "validators \<Rightarrow> env \<Rightarrow> config \<Rightarrow> backup_shim \<Rightarrow> string + backup_shim" where
  "backup_init v env c s =
    (let errs = (if validation_enabled env
                 then filter (\<lambda>e. starts_with (err_field e) ''backup.'') (validate v c) else [])
     in if errs \<noteq> [] then
          Inl (''backup config validation failed: '' @ join ''; '' (map config_error_display errs))
        else
          Inr (case config.backup c of
                 Some bc \<Rightarrow>
                   s\<lparr>bk_schedule := schedule bc, bk_storage := storage bc, bk_retention_days := retention_days bc,
                     bk_database := backup_database bc, bk_prefix := backup_prefix bc\<rparr>
               | None \<Rightarrow> s))"

text \<open>The shim that the loop builds for each run, and the seconds it sleeps before.\<close>

definition loop_shim :: "backup_shim \<Rightarrow> backup_shim" where
  "loop_shim s = s\<lparr>bk_path := [], bk_prefix := [], bk_retention_days := 30\<rparr>"

definition backup_schedule :: "(string \<Rightarrow> 'c option) \<Rightarrow> 'c \<Rightarrow> backup_shim \<Rightarrow> 'c" where
  "backup_schedule from_str dflt s = (case from_str (bk_schedule s) of Some c \<Rightarrow> c | None \<Rightarrow> dflt)"

definition loop_sleep :: "('c \<Rightarrow> time \<Rightarrow> time option) \<Rightarrow> 'c \<Rightarrow> time \<Rightarrow> nat" where
  "loop_sleep upcoming sched now =
    (let next_wake = (case upcoming sched now of Some t \<Rightarrow> t | None \<Rightarrow> now + 3600 * second)
     in nat ((next_wake - now) div second))"

text \<open>\<^verbatim>\<open>start\<close>: a first backup, then one per wake-up until shutdown.  Each run comes with its
  environment, time and file name stamp.\<close>

definition backup_start ::
  "(string \<Rightarrow> u8 list) \<Rightarrow> env \<Rightarrow> bk_env \<times> time \<times> string \<Rightarrow> (bk_env \<times> time \<times> string) list \<Rightarrow> backup_shim
   \<Rightarrow> backup_state \<times> bk_world \<Rightarrow> backup_state \<times> bk_world" where
  "backup_start sha256 env initial wakes s stw =
    (let run = (\<lambda>sh (E, now, stamp) stw. fst (backup sha256 E env now stamp sh stw))
     in fold (run (loop_shim s)) wakes (run s initial stw))"

definition backup_metrics :: "(time \<Rightarrow> f64) \<Rightarrow> backup_state \<Rightarrow> metric list" where
  "backup_metrics timestamp st =
    [(''backup_success_total'', of_nat (backup_success st)),
     (''backup_failure_total'', of_nat (backup_failure st)),
     (''backup_size_bytes'', of_nat (last_backup_size st)),
     (''backup_retained_total'', of_nat (backups_retained st)),
     (''backup_expired_total'', of_nat (backups_expired st))] @
    (case last_backup st of Some t \<Rightarrow> [(''backup_last_success_timestamp'', timestamp t)] | None \<Rightarrow> [])"

section \<open>What a successful backup leaves behind\<close>

declare map_of_eq_Some_iff [simp del]

lemma read_file_Inr: "read_file read_err path w = Inr data \<Longrightarrow> map_of (files w) path = Some data"
  by (auto simp: read_file_def split: option.splits)

lemma upload_result:
  assumes "upload_to_s3 api env read_err s path nm w = (w', r)" and "read_file read_err path w = Inr data"
  shows "files w' = files w" "r = Inr uri \<Longrightarrow> map_of (objects w') (s3_bucket s, object_key s nm) = Some data"
  using assms by (auto simp: upload_to_s3_def Let_def split: option.splits sum.splits)

definition kept :: "backup_shim \<Rightarrow> string \<Rightarrow> string \<Rightarrow> string \<Rightarrow> bk_world \<Rightarrow> bool" where
  "kept s nm path data w =
    (map_of (files w) path = Some data \<or> map_of (objects w) (s3_bucket s, object_key s nm) = Some data)"

lemma after_dump_Inr:
  assumes "after_dump sha256 E env now s nm path (st, w) = ((st', w'), Inr u)"
  obtains data where "st' = record_backup now nm (length data) (compute_checksum sha256 data) st" "kept s nm path data w'"
proof -
  obtain data where d: "read_file (read_fault E) path w = Inr data"
    using assms by (auto simp: after_dump_def split: sum.splits)
  obtain w1 r where up: "upload_to_s3 (s3 E) env (read_fault E) s path nm w = (w1, r)"
    by (cases "upload_to_s3 (s3 E) env (read_fault E) s path nm w")
  have "kept s nm path data w'"
    using assms d up read_file_Inr [OF d] upload_result [OF up d]
    by (cases r) (auto simp: after_dump_def kept_def Let_def split: if_splits)
  moreover have "st' = record_backup now nm (length data) (compute_checksum sha256 data) st"
    using assms d by (auto simp: after_dump_def Let_def)
  ultimately show ?thesis
    using that by blast
qed

lemma after_dump_Inl:
  "after_dump sha256 E env now s nm path (st, w) = ((st', w'), Inl e) \<Longrightarrow> st' = st"
  by (auto simp: after_dump_def Let_def split: sum.splits)

text \<open>How \<^verbatim>\<open>backup_attempts\<close> can end.\<close>

lemma backup_attempts_cases:
  assumes "backup_attempts sha256 E env now s nm path n k err (st, w) = ((st', w'), r, ds)"
  shows "(r = Inr () \<and> (\<exists>data. st' = record_backup now nm (length data) (compute_checksum sha256 data) st \<and>
            kept s nm path data w'))
    \<or> (isl r \<and> st' = st) \<or> (isl r \<and> st' = record_failure st)"
  using assms
proof (induction n arbitrary: k err w ds)
  case (Suc n)
  obtain w1 d where once: "dump_once E k s path w = (w1, d)"
    by (cases "dump_once E k s path w")
  show ?case
  proof (cases d)
    case Dumped
    obtain st1 w2 r1 where a: "after_dump sha256 E env now s nm path (st, w1) = ((st1, w2), r1)"
      by (metis prod.exhaust)
    then have "st' = st1" "w' = w2" "r = r1"
      using Suc.prems once Dumped by (auto simp: Let_def)
    then show ?thesis
    proof (cases r1)
      case (Inr u)
      obtain data where "st1 = record_backup now nm (length data) (compute_checksum sha256 data) st" "kept s nm path data w2"
        using after_dump_Inr [OF a [unfolded Inr]] .
      then show ?thesis
        using \<open>st' = st1\<close> \<open>w' = w2\<close> \<open>r = r1\<close> Inr by auto
    qed (use a after_dump_Inl in auto)
  next
    case (Retry e)
    then show ?thesis
      using Suc.prems once Suc.IH by (auto simp: Let_def split: prod.splits)
  next
    case (Leave e)
    then show ?thesis
      using Suc.prems once by (auto simp: Let_def)
  qed
qed auto

lemma backup_cases:
  assumes "backup sha256 E env now stamp s (st, w) = ((st', w'), r, ds)"
  shows "(r = Inr () \<and> (\<exists>data. st' = record_backup now (backup_filename stamp s) (length data) (compute_checksum sha256 data) st \<and>
            kept s (backup_filename stamp s) (bk_output_dir s @ ''/'' @ backup_filename stamp s) data w'))
    \<or> (isl r \<and> st' = st) \<or> (isl r \<and> st' = record_failure st)"
proof (cases "mkdir_fault E")
  case None
  then have "backup_attempts sha256 E env now s (backup_filename stamp s) (bk_output_dir s @ ''/'' @ backup_filename stamp s)
      (retry_max_attempts s + 1) 0 ''Backup failed after all retries'' (st, w) = ((st', w'), r, ds)"
    using assms by (simp add: backup_def Let_def del: backup_attempts.simps)
  then show ?thesis
    by (rule backup_attempts_cases)
qed (use assms in \<open>auto simp: backup_def Let_def\<close>)

lemma length_checksum: "length (sha256 d) = 32 \<Longrightarrow> length (compute_checksum sha256 d) = 64"
proof -
  have "length (concat (map (\<lambda>b. show_hex 2 (unat b)) bs)) = 2 * length bs" for bs :: "u8 list"
    by (induction bs) simp_all
  then show "length (sha256 d) = 32 \<Longrightarrow> length (compute_checksum sha256 d) = 64"
    by (simp add: compute_checksum_def)
qed

text \<open>C8: A backup that is reported as done exists and is described correctly: its bytes are in the output directory
  or, after an upload, in the object store under the key of the file name, the new last entry of
  the history records their length and checksum, and validating them against that entry succeeds if and
  only if the dump is not empty: a dump command that exits with success and prints nothing
  counts as a backup too (\<^verbatim>\<open>empty_dump_succeeds\<close>).\<close>

theorem successful_backup_validates:
  assumes "\<forall>d. length (sha256 d) = 32"
    and "backup sha256 E env now stamp s (st, w) = ((st', w'), Inr u, ds)"
  shows "\<exists>data e. backup_history st' = backup_history st @ [e] \<and> filename e = backup_filename stamp s \<and>
    kept s (filename e) (bk_output_dir s @ ''/'' @ filename e) data w' \<and>
    size_bytes e = length data \<and> (validate_backup sha256 e data \<longleftrightarrow> data \<noteq> [])"
proof -
  obtain data where d: "st' = record_backup now (backup_filename stamp s) (length data) (compute_checksum sha256 data) st"
    "kept s (backup_filename stamp s) (bk_output_dir s @ ''/'' @ backup_filename stamp s) data w'"
    using backup_cases [OF assms(2)] by auto
  have "length (compute_checksum sha256 data) = 64"
    using assms(1) by (simp add: length_checksum)
  then show ?thesis
    using d by (intro exI [of _ data] exI [of _ "\<lparr>filename = backup_filename stamp s, created_at = now,
        size_bytes = length data, checksum = compute_checksum sha256 data\<rparr>"])
      (auto simp: record_backup_def Let_def validate_backup_def)
qed

definition sample_bk_env :: bk_env where
  "sample_bk_env = \<lparr>mkdir_fault = None, run_cmd = (\<lambda>k _ _. if k = 0 then ExitFailure ''busy'' else ExitSuccess ''dump''),
     dump_fault = (\<lambda>_. None), read_fault = (\<lambda>_. None), remove_fault = None,
     redis = (\<lambda>_. \<lparr>open_err = None, connect_err = None, auth_err = None, bgsave_err = None, info_reply = (\<lambda>_. Inr []),
       config_dir = Inr [], config_dbfilename = Inr [], rdb_content = (\<lambda>_. Inr [])\<rparr>),
     s3 = \<lparr>bucket_err = (\<lambda>_. None), key_err = (\<lambda>_. None), url_err = (\<lambda>_. None), client_err = (\<lambda>_. None),
       put_err = (\<lambda>_. None), get_err = (\<lambda>_. None), delete_err = (\<lambda>_. None)\<rparr>\<rparr>"

definition empty_world :: bk_world where
  "empty_world = \<lparr>files = [], objects = []\<rparr>"

lemma sample_backup:
  "\<exists>st' w' ds. backup (\<lambda>_. replicate 32 0) sample_bk_env (\<lambda>_. None) 0 ''t'' (backup_new (\<lambda>_. None)) (backup_state_new, empty_world)
     = ((st', w'), Inr (), ds)"
proof -
  have s: "bk_db_type (backup_new (\<lambda>_. None)) = ''postgres''" "bk_storage (backup_new (\<lambda>_. None)) = ''local''"
    "retry_max_attempts (backup_new (\<lambda>_. None)) = Suc (Suc (Suc 0))"
    by (simp_all add: backup_new_def env_str_def env_uint_def)
  then have d: "dump_once sample_bk_env 0 (backup_new (\<lambda>_. None)) p w = (w, Retry (bk_cmd (backup_new (\<lambda>_. None)) @ '' failed: busy''))"
    "dump_once sample_bk_env (Suc 0) (backup_new (\<lambda>_. None)) p w = (w\<lparr>files := hm_insert p ''dump'' (files w)\<rparr>, Dumped)" for p w
    by (simp_all add: dump_once_def dump_postgres_def write_dump_def write_output_def sample_bk_env_def)
  have "mkdir_fault sample_bk_env = None" "read_fault sample_bk_env p = None" for p
    by (simp_all add: sample_bk_env_def)
  then show ?thesis
    using s by (simp add: backup_def d Let_def after_dump_def read_file_def)
qed

theorem successful_backup_validates_witness:
  "\<exists>st' w' ds e. backup (\<lambda>_. replicate 32 0) sample_bk_env (\<lambda>_. None) 0 ''t'' (backup_new (\<lambda>_. None)) (backup_state_new, empty_world)
     = ((st', w'), Inr (), ds) \<and> backup_history st' = [e]"
proof -
  obtain st' w' ds where b: "backup (\<lambda>_. replicate 32 0) sample_bk_env (\<lambda>_. None) 0 ''t'' (backup_new (\<lambda>_. None))
      (backup_state_new, empty_world) = ((st', w'), Inr (), ds)"
    using sample_backup by blast
  have "\<forall>d. length ((\<lambda>_ :: string. replicate 32 (0 :: u8)) d) = 32"
    by simp
  from successful_backup_validates [OF this b] b show ?thesis
    by (auto simp: backup_state_new_def)
qed

text \<open>An empty dump is reported as a success, counted, and does not validate.\<close>

lemma empty_dump_succeeds:
  "\<exists>st' w' e. backup (\<lambda>_. replicate 32 0) (sample_bk_env\<lparr>run_cmd := \<lambda>_ _ _. ExitSuccess []\<rparr>) (\<lambda>_. None) 0 ''t''
      (backup_new (\<lambda>_. None)) (backup_state_new, empty_world) = ((st', w'), Inr (), [])
    \<and> backup_success st' = 1 \<and> backup_history st' = [e] \<and> size_bytes e = 0
    \<and> \<not> validate_backup (\<lambda>_. replicate 32 0) e []"
proof -
  let ?E = "sample_bk_env\<lparr>run_cmd := \<lambda>_ _ _. ExitSuccess []\<rparr>"
  have s: "bk_db_type (backup_new (\<lambda>_. None)) = ''postgres''" "bk_storage (backup_new (\<lambda>_. None)) = ''local''"
    "retry_max_attempts (backup_new (\<lambda>_. None)) = Suc (Suc (Suc 0))"
    by (simp_all add: backup_new_def env_str_def env_uint_def)
  then have "dump_once ?E 0 (backup_new (\<lambda>_. None)) p w = (w\<lparr>files := hm_insert p [] (files w)\<rparr>, Dumped)" for p w
    by (simp add: dump_once_def dump_postgres_def write_dump_def write_output_def sample_bk_env_def)
  moreover have "mkdir_fault ?E = None" "read_fault ?E p = None" for p
    by (simp_all add: sample_bk_env_def)
  ultimately show ?thesis
    using s by (simp add: backup_def Let_def after_dump_def read_file_def record_backup_def validate_backup_def
        backup_state_new_def)
qed

section \<open>Counters\<close>

definition backup_inv :: "backup_state \<Rightarrow> bool" where
  "backup_inv st =
    (backups_retained st = length (backup_history st) \<and>
     backup_success st = backups_retained st + backups_expired st)"

datatype backup_op =
    BRun bk_env time string
  | BRecord time string nat string
  | BFail
  | BCleanup time nat

fun backup_exec ::
  "(string \<Rightarrow> u8 list) \<Rightarrow> env \<Rightarrow> time \<Rightarrow> backup_shim \<Rightarrow> backup_op \<Rightarrow> backup_state \<times> bk_world \<Rightarrow> backup_state \<times> bk_world" where
  "backup_exec sha256 env min_utc s (BRun E now stamp) stw = fst (backup sha256 E env now stamp s stw)"
| "backup_exec sha256 env min_utc s (BRecord now nm n cs) (st, w) = (record_backup now nm n cs st, w)"
| "backup_exec sha256 env min_utc s BFail (st, w) = (record_failure st, w)"
| "backup_exec sha256 env min_utc s (BCleanup now days) (st, w) =
    (case cleanup_retention min_utc now days st of Returns (st', _) \<Rightarrow> (st', w) | Panics \<Rightarrow> (st, w))"

lemma record_backup_inv: "backup_inv st \<Longrightarrow> backup_inv (record_backup now nm n cs st)"
  by (simp add: backup_inv_def record_backup_def Let_def)

lemma record_failure_inv: "backup_inv st \<Longrightarrow> backup_inv (record_failure st)"
  by (simp add: backup_inv_def record_failure_def)

lemma expired_count:
  "length xs + b = length (filter P xs) + (b + length xs - length (filter P xs))"
  using length_filter_le [of P xs] by linarith

lemma cleanup_inv:
  "backup_inv st \<Longrightarrow> cleanup_retention min_utc now days st = Returns (st', ex) \<Longrightarrow> backup_inv st'"
  by (auto simp: backup_inv_def cleanup_retention_def Let_def expired_count split: if_splits)

lemma backup_exec_inv:
  "backup_inv (fst stw) \<Longrightarrow> backup_inv (fst (backup_exec sha256 env min_utc s op stw))"
proof (cases op)
  case (BRun E now stamp)
  obtain st w st' w' r ds where b: "stw = (st, w)" "backup sha256 E env now stamp s (st, w) = ((st', w'), r, ds)"
    by (metis prod.exhaust)
  then show "backup_inv (fst stw) \<Longrightarrow> ?thesis"
    using BRun backup_cases [OF b(2)] by (auto simp: record_backup_inv record_failure_inv)
next
  case (BCleanup now days)
  obtain st w where stw: "stw = (st, w)"
    by (cases stw)
  then show "backup_inv (fst stw) \<Longrightarrow> ?thesis"
    using BCleanup cleanup_inv [of st min_utc now days]
    by (cases "cleanup_retention min_utc now days st") auto
qed (cases stw, simp add: record_backup_inv record_failure_inv)+

interpretation backup_ops: op_system "backup_exec sha256 env min_utc s" "\<lambda>stw. backup_inv (fst stw)"
  by unfold_locales (rule backup_exec_inv)

text \<open>The books of the backup history: over any sequence of backups, records, failures and
  retention runs, the number of successful backups is the number retained plus the
  number expired, and the number retained is the length of the history.\<close>

theorem backup_books:
  assumes "(st, w') = fold (backup_exec sha256 env min_utc s) ops (backup_state_new, w)"
  shows "backups_retained st = length (backup_history st) \<and> backup_success st = backups_retained st + backups_expired st"
proof -
  have "backup_inv (fst (backup_state_new, w))"
    by (simp add: backup_inv_def backup_state_new_def)
  from backup_ops.fold_inv [OF this, of sha256 env min_utc s ops] show ?thesis
    unfolding assms [symmetric] by (simp add: backup_inv_def)
qed

theorem backup_books_witness:
  "backup_success (fst (fold (backup_exec (\<lambda>_. []) (\<lambda>_. None) 0 (backup_new (\<lambda>_. None))) [BRecord 0 ''f'' 1 ''c'', BFail, BCleanup (90 * day) 30]
     (backup_state_new, empty_world))) =
   backups_retained (fst (fold (backup_exec (\<lambda>_. []) (\<lambda>_. None) 0 (backup_new (\<lambda>_. None))) [BRecord 0 ''f'' 1 ''c'', BFail, BCleanup (90 * day) 30]
     (backup_state_new, empty_world))) +
   backups_expired (fst (fold (backup_exec (\<lambda>_. []) (\<lambda>_. None) 0 (backup_new (\<lambda>_. None))) [BRecord 0 ''f'' 1 ''c'', BFail, BCleanup (90 * day) 30]
     (backup_state_new, empty_world)))"
  using backup_books [OF surjective_pairing [symmetric], of "\<lambda>_. []" "\<lambda>_. None" 0 "backup_new (\<lambda>_. None)"
      "[BRecord 0 ''f'' 1 ''c'', BFail, BCleanup (90 * day) 30]" empty_world] by blast

section \<open>Verification of a file\<close>

text \<open>When verification succeeds.  A verifier that is switched off always reports success and an
  existing file.  Otherwise it reports success exactly when the file exists, is not
  empty, can be read and has the expected checksum, and the restore command, if asked for,
  could be started; that the restore test itself failed does not matter.\<close>

theorem verify_success:
  "vr_success (verify sha256 run read_err w v path expected) \<longleftrightarrow>
    (verify_after v \<longrightarrow>
      (\<exists>data. map_of (files w) path = Some data \<and> data \<noteq> [] \<and> read_err path = None \<and>
         compute_checksum sha256 data = expected \<and>
         (test_restore v \<longrightarrow> (\<forall>e. run ''pg_restore'' [''--list'', path] \<noteq> NotRun e))))"
  by (auto simp: verify_def Let_def read_file_def test_restore_command_def
      split: option.splits command_output.splits)

definition sample_files :: bk_world where
  "sample_files = \<lparr>files = [(''p'', ''dump'')], objects = []\<rparr>"

theorem verify_success_witness:
  "vr_success (verify (\<lambda>_. []) (\<lambda>_ _. ExitFailure ''corrupt'') (\<lambda>_. None) sample_files \<lparr>verify_after = True, test_restore = True\<rparr> ''p'' [])"
  unfolding verify_success by (simp add: sample_files_def compute_checksum_def)

end
