(* ===== verification/Archival.thy ===== *)
theory Archival
  imports Blobkit
begin

text \<open>
  \<^verbatim>\<open>archival-shim\<close>: archiving batches, retention, the lifecycle of storage tiers and the object
  store.  Time stamps are texts written and read by \<^verbatim>\<open>chrono\<close> (\<^verbatim>\<open>fmt\<close>, \<^verbatim>\<open>prs\<close>); adding to a time panics beyond
  \<^verbatim>\<open>max_utc\<close>.  Files are a table from paths to bytes; \<^verbatim>\<open>mkdir_err\<close> and \<^verbatim>\<open>copy_err\<close> are the faults of the file
  system.  The estimated sizes are computed with exact rationals.
\<close>

section \<open>Data\<close>

datatype storage_tier = Hot | Warm | Cold

fun storage_tier_display :: "storage_tier \<Rightarrow> string" where
  "storage_tier_display Hot = ''hot''"
| "storage_tier_display Warm = ''warm''"
| "storage_tier_display Cold = ''cold''"

record archived_record =
  ar_id :: string
  ar_table :: string
  original_size_bytes :: nat
  archived_size_bytes :: nat
  ar_path :: string
  archived_at :: string
  tier :: storage_tier
  retention_until :: string
  compressed :: bool

record retention_rule =
  rule_table :: string
  rule_age_days :: nat
  rule_lifecycle_days :: nat
  rule_tier :: storage_tier

record archival_summary =
  tables_archived :: "(string, nat) hmap"
  total_records :: nat
  total_bytes_saved :: nat
  sum_compression_ratio :: f64

record archival_shim =
  schedule :: string
  tables :: "string list"
  age_days :: nat
  storage :: string
  bucket :: string
  compression :: string
  lifecycle_days :: u32
  hot_days :: u32
  warm_days :: u32
  cold_days :: u32
  retention_days :: nat
  archive_path :: string
  compression_ratio :: f64
  records_archived :: nat
  bytes_archived :: nat
  bytes_saved :: nat
  last_archival :: "time option"
  retention_rules :: "(string, retention_rule) hmap"
  archive_log :: "archived_record list"
  record_counter :: nat
  s3_region :: string
  s3_endpoint :: "string option"
  s3_prefix :: string
  s3_force_path_style :: bool
  s3_server_side_encryption :: bool

definition ratio_for :: "string \<Rightarrow> f64" where
  "ratio_for c = (if c = ''gzip'' then 3 / 10 else if c = ''zstd'' then 1 / 4 else 1)"

definition archival_new :: "env \<Rightarrow> archival_shim" where
  "archival_new env =
     \<lparr>schedule = env_str env ''ARCHIVAL_SCHEDULE'' ''0 3 * * *'',
      tables = split_commas (env_str env ''ARCHIVAL_TABLES'' []),
      age_days = env_uint 32 env ''ARCHIVAL_AGE_DAYS'' 90,
      storage = env_str env ''ARCHIVAL_STORAGE'' ''s3'',
      bucket = env_str env ''ARCHIVAL_BUCKET'' [],
      compression = env_str env ''ARCHIVAL_COMPRESSION'' ''zstd'',
      lifecycle_days = of_nat (env_uint 32 env ''ARCHIVAL_LIFECYCLE_DAYS'' 0),
      hot_days = of_nat (env_uint 32 env ''ARCHIVAL_HOT_DAYS'' 0),
      warm_days = of_nat (env_uint 32 env ''ARCHIVAL_WARM_DAYS'' 0),
      cold_days = of_nat (env_uint 32 env ''ARCHIVAL_COLD_DAYS'' 0),
      retention_days = env_uint 32 env ''ARCHIVAL_RETENTION_DAYS'' 365,
      archive_path = env_str env ''ARCHIVAL_ARCHIVE_PATH'' ''/var/lib/archival'',
      compression_ratio = ratio_for (env_str env ''ARCHIVAL_COMPRESSION'' ''zstd''),
      records_archived = 0, bytes_archived = 0, bytes_saved = 0, last_archival = None,
      retention_rules = [], archive_log = [], record_counter = 0,
      s3_region = env_str env ''ARCHIVAL_S3_REGION'' ''us-east-1'',
      s3_endpoint = env ''ARCHIVAL_S3_ENDPOINT'',
      s3_prefix = env_str env ''ARCHIVAL_S3_PREFIX'' ''archives'',
      s3_force_path_style = env_flag env ''ARCHIVAL_S3_FORCE_PATH_STYLE'' False,
      s3_server_side_encryption = env_flag env ''ARCHIVAL_S3_SSE'' True\<rparr>"

section \<open>Archiving\<close>

definition add_retention_rule :: "retention_rule \<Rightarrow> archival_shim \<Rightarrow> archival_shim" where
  "add_retention_rule r s = s\<lparr>retention_rules := hm_insert (rule_table r) r (retention_rules s)\<rparr>"

abbreviation day :: time where
  "day \<equiv> 86400 * second"

text \<open>The record of a batch of \<^verbatim>\<open>size\<close> bytes and the bookkeeping that follows it; the counter has already been
  increased.\<close>

definition add_record ::
  "(time \<Rightarrow> string) \<Rightarrow> time \<Rightarrow> time \<Rightarrow> string \<Rightarrow> nat \<Rightarrow> nat \<Rightarrow> string \<Rightarrow> archival_shim
   \<Rightarrow> (archival_shim \<times> archived_record) outcome" where
  "add_record fmt max_utc now tbl cnt n dest s =
    (let archived = unat (f64_as_u64 (of_nat n * compression_ratio s));
         saved = saturating_sub n archived;
         days = (case map_of (retention_rules s) tbl of Some r \<Rightarrow> rule_age_days r | None \<Rightarrow> retention_days s);
         tr = (case map_of (retention_rules s) tbl of Some r \<Rightarrow> rule_tier r | None \<Rightarrow> Cold);
         until = now + int days * day;
         r = \<lparr>ar_id = ''arc-'' @ show_nat_pad 10 (record_counter s), ar_table = tbl, original_size_bytes = n,
              archived_size_bytes = archived, ar_path = dest, archived_at = fmt now, tier = tr,
              retention_until = fmt until, compressed = (compression s \<noteq> ''none'')\<rparr>
     in if max_utc < until then Panics
        else Returns (s\<lparr>records_archived := records_archived s + cnt,
            bytes_archived := bytes_archived s + archived, bytes_saved := bytes_saved s + saved,
            last_archival := Some now, archive_log := archive_log s @ [r]\<rparr>, r))"

definition archive_dest :: "archival_shim \<Rightarrow> string \<Rightarrow> string" where
  "archive_dest s tbl = archive_path s @ ''/'' @ tbl @ ''/archive-'' @ show_nat (record_counter s) @ ''.dat''"

definition archive_batch ::
  "(time \<Rightarrow> string) \<Rightarrow> time \<Rightarrow> string option \<Rightarrow> string option \<Rightarrow> time \<Rightarrow> string \<Rightarrow> nat \<Rightarrow> nat \<Rightarrow> string option
   \<Rightarrow> archival_shim \<times> (string, string) hmap
   \<Rightarrow> ((archival_shim \<times> (string, string) hmap) \<times> archived_record option) outcome" where
  "archive_batch fmt max_utc mkdir_err copy_err now tbl cnt orig source_path sf =
    (case sf of (s, files) \<Rightarrow>
     if mkdir_err \<noteq> None then Returns ((s, files), None)
     else
       (case source_path of
          Some src \<Rightarrow>
            (case map_of files src of
               None \<Rightarrow> Returns ((s, files), None)
             | Some content \<Rightarrow>
                 (let s1 = s\<lparr>record_counter := record_counter s + 1\<rparr>;
                      dest = archive_dest s1 tbl
                  in if copy_err \<noteq> None then Returns ((s1, files), None)
                     else
                       (case add_record fmt max_utc now tbl cnt (length content) dest s1 of
                          Panics \<Rightarrow> Panics
                        | Returns (s2, r) \<Rightarrow> Returns ((s2, hm_insert dest content files), Some r))))
        | None \<Rightarrow>
            (let s1 = s\<lparr>record_counter := record_counter s + 1\<rparr> in
             case add_record fmt max_utc now tbl cnt orig (archive_dest s1 tbl) s1 of
               Panics \<Rightarrow> Panics
             | Returns (s2, r) \<Rightarrow> Returns ((s2, files), Some r))))"

definition is_retention_expired :: "(string \<Rightarrow> time option) \<Rightarrow> time \<Rightarrow> archived_record \<Rightarrow> bool" where
  "is_retention_expired prs now r = (case prs (retention_until r) of Some u \<Rightarrow> u < now | None \<Rightarrow> False)"

text \<open>The clock is read anew for every record of the log.\<close>

definition purge_expired :: "(string \<Rightarrow> time option) \<Rightarrow> (nat \<Rightarrow> time) \<Rightarrow> archival_shim \<Rightarrow> archival_shim \<times> nat" where
  "purge_expired prs clock s =
    (let kept = map fst (filter (\<lambda>(r, i). case prs (retention_until r) of Some u \<Rightarrow> clock i \<le> u | None \<Rightarrow> True)
                  (zip (archive_log s) [0..<length (archive_log s)]))
     in (s\<lparr>archive_log := kept\<rparr>, saturating_sub (length (archive_log s)) (length kept)))"

text \<open>\<^verbatim>\<open>num_days() as u32\<close>: whole days, truncated towards zero, then the low 32 bits.\<close>

definition age_in_days :: "time \<Rightarrow> time \<Rightarrow> u32" where
  "age_in_days now t = of_int (sgn (now - t) * (\<bar>now - t\<bar> div day))"

definition next_tier :: "archival_shim \<Rightarrow> u32 \<Rightarrow> storage_tier option" where
  "next_tier s age =
    (if 0 < hot_days s \<and> hot_days s \<le> age then Some Cold
     else if 0 < warm_days s \<and> warm_days s \<le> age then Some Warm
     else if hot_days s = 0 \<and> warm_days s = 0 \<and> 0 < lifecycle_days s then
       (if lifecycle_days s \<le> age then Some Cold
        else if lifecycle_days s div 2 \<le> age then Some Warm else None)
     else None)"

definition step_record :: "(string \<Rightarrow> time option) \<Rightarrow> time \<Rightarrow> archival_shim \<Rightarrow> archived_record \<Rightarrow> archived_record \<times> nat" where
  "step_record prs now s r =
    (if tier r = Hot then
       (case prs (archived_at r) of
          Some t \<Rightarrow> (case next_tier s (age_in_days now t) of Some x \<Rightarrow> (r\<lparr>tier := x\<rparr>, 1) | None \<Rightarrow> (r, 0))
        | None \<Rightarrow> (r, 0))
     else (r, 0))"

definition apply_lifecycle :: "(string \<Rightarrow> time option) \<Rightarrow> time \<Rightarrow> archival_shim \<Rightarrow> archival_shim \<times> nat" where
  "apply_lifecycle prs now s =
    (let rs = map (step_record prs now s) (archive_log s)
     in (s\<lparr>archive_log := map fst rs\<rparr>, sum_list (map snd rs)))"

definition archival_summary_of :: "archival_shim \<Rightarrow> archival_summary" where
  "archival_summary_of s =
     \<lparr>tables_archived = fold (\<lambda>r. hm_bump (ar_table r)) (archive_log s) [],
      total_records = length (archive_log s),
      total_bytes_saved = bytes_saved s,
      sum_compression_ratio =
        (if 0 < bytes_archived s then of_nat (bytes_archived s) / of_nat (bytes_archived s + bytes_saved s) else 1)\<rparr>"

definition archive_count :: "archival_shim \<Rightarrow> nat" where
  "archive_count s = length (archive_log s)"

definition archival_metrics :: "archival_shim \<Rightarrow> metric list" where
  "archival_metrics s =
    [(''archival_records_total'', of_nat (records_archived s)),
     (''archival_bytes_total'', of_nat (bytes_archived s)),
     (''archival_bytes_saved'', of_nat (bytes_saved s)),
     (''archival_archive_count'', of_nat (length (archive_log s)))]"

section \<open>Object storage\<close>

definition build_s3_store :: "s3_api \<Rightarrow> env \<Rightarrow> archival_shim \<Rightarrow> string + s3_config" where
  "build_s3_store api env s =
     open_store api (bucket s) (s3_region s) (s3_force_path_style s) ''ARCHIVAL_S3_ENDPOINT'' (s3_endpoint s)
       (static_credentials env ''ARCHIVAL_S3_ACCESS_KEY'' ''ARCHIVAL_S3_SECRET_KEY'')"

definition archive_key :: "archival_shim \<Rightarrow> string \<Rightarrow> string \<Rightarrow> string" where
  "archive_key s tbl record_id = s3_prefix s @ ''/'' @ tbl @ ''/'' @ record_id @ ''.dat''"

text \<open>The checks that every request makes before it reaches the store.\<close>

definition request :: "s3_api \<Rightarrow> env \<Rightarrow> archival_shim \<Rightarrow> string \<Rightarrow> string + s3_config" where
  "request api env s key =
    (case bucket_err api (bucket s) of
       Some e \<Rightarrow> Inl (''invalid bucket '' @ bucket s @ '': '' @ e)
     | None \<Rightarrow>
         (case key_err api key of
            Some e \<Rightarrow> Inl (''invalid object key '' @ key @ '': '' @ e)
          | None \<Rightarrow> build_s3_store api env s))"

definition upload_to_s3 ::
  "s3_api \<Rightarrow> env \<Rightarrow> archival_shim \<Rightarrow> string \<Rightarrow> string \<Rightarrow> string \<Rightarrow> object_table \<Rightarrow> object_table \<times> (string + string)" where
  "upload_to_s3 api env s tbl record_id data objs =
    (let key = archive_key s tbl record_id in
     case request api env s key of
       Inl e \<Rightarrow> (objs, Inl e)
     | Inr cfg \<Rightarrow>
         (case put_err api key of
            Some e \<Rightarrow> (objs, Inl (''blob upload failed: '' @ bucket s @ ''/'' @ key @ '': '' @ e))
          | None \<Rightarrow> (hm_insert (bucket s, key) data objs, Inr (''s3://'' @ bucket s @ ''/'' @ key))))"

definition delete_from_s3 ::
  "s3_api \<Rightarrow> env \<Rightarrow> archival_shim \<Rightarrow> string \<Rightarrow> string \<Rightarrow> object_table \<Rightarrow> object_table \<times> (string + unit)" where
  "delete_from_s3 api env s tbl record_id objs =
    (let key = archive_key s tbl record_id in
     case request api env s key of
       Inl e \<Rightarrow> (objs, Inl e)
     | Inr cfg \<Rightarrow>
         (case delete_err api key of
            Some e \<Rightarrow> (objs, Inl (''blob delete failed: '' @ bucket s @ ''/'' @ key @ '': '' @ e))
          | None \<Rightarrow> (hm_remove (bucket s, key) objs, Inr ())))"

definition get_from_s3 ::
  "s3_api \<Rightarrow> env \<Rightarrow> archival_shim \<Rightarrow> string \<Rightarrow> string \<Rightarrow> object_table \<Rightarrow> string + string" where
  "get_from_s3 api env s tbl record_id objs =
    (let key = archive_key s tbl record_id in
     case request api env s key of
       Inl e \<Rightarrow> Inl e
     | Inr cfg \<Rightarrow>
         (case (get_err api key, map_of objs (bucket s, key)) of
            (None, Some d) \<Rightarrow> Inr d
          | (None, None) \<Rightarrow> Inl (''S3 get failed: '' @ bucket s @ ''/'' @ key @ '': not found'')
          | (Some e, _) \<Rightarrow> Inl (''S3 get failed: '' @ bucket s @ ''/'' @ key @ '': '' @ e)))"

section \<open>Properties\<close>

text \<open>What a lifecycle run does.  Records are neither lost nor reordered; the number returned is the number of records
  whose tier changed; only hot records move and none becomes hot, so a warm record
  stays warm forever.  If the hot threshold is set and does not exceed the warm threshold, hot records
  go straight to cold and none becomes warm.\<close>

theorem lifecycle_moves_hot_only:
  assumes "apply_lifecycle prs now s = (s', n)"
  shows "(length (archive_log s') = length (archive_log s)) \<and>
     (n = length (filter (\<lambda>(r, r'). tier r \<noteq> tier r') (zip (archive_log s) (archive_log s')))) \<and>
     (\<forall>i<length (archive_log s). tier (archive_log s ! i) \<noteq> tier (archive_log s' ! i) \<longrightarrow>
      tier (archive_log s ! i) = Hot \<and>
      (tier (archive_log s' ! i) = Cold \<or>
       tier (archive_log s' ! i) = Warm \<and> \<not> (0 < hot_days s \<and> hot_days s \<le> warm_days s)))"
proof (rule conjI [OF _ conjI])
  have log: "archive_log s' = map (\<lambda>r. fst (step_record prs now s r)) (archive_log s)"
    and n: "n = sum_list (map (\<lambda>r. snd (step_record prs now s r)) (archive_log s))"
    using assms by (auto simp: apply_lifecycle_def Let_def comp_def)
  have not_hot: "next_tier s age \<noteq> Some Hot" for age
    by (simp add: next_tier_def)
  then have moved: "snd (step_record prs now s r) = (if tier (fst (step_record prs now s r)) = tier r then 0 else 1)" for r
    by (auto simp: step_record_def split: option.splits)
  have counted: "sum_list (map (\<lambda>r. snd (step_record prs now s r)) rs) =
      length (filter (\<lambda>(r, r'). tier r \<noteq> tier r') (zip rs (map (\<lambda>r. fst (step_record prs now s r)) rs)))" for rs
    by (induction rs) (auto simp: moved)
  show "length (archive_log s') = length (archive_log s)"
    by (simp add: log)
  show "n = length (filter (\<lambda>(r, r'). tier r \<noteq> tier r') (zip (archive_log s) (archive_log s')))"
    unfolding n log by (rule counted)
  have "tier r = Hot \<and> (tier r' = Cold \<or> tier r' = Warm \<and> \<not> (0 < hot_days s \<and> hot_days s \<le> warm_days s))"
    if "r' = fst (step_record prs now s r)" "tier r \<noteq> tier r'" for r r'
    using that not_hot
    by (auto simp: step_record_def next_tier_def split: option.splits if_splits)
  then show "\<forall>i<length (archive_log s). tier (archive_log s ! i) \<noteq> tier (archive_log s' ! i) \<longrightarrow>
      tier (archive_log s ! i) = Hot \<and>
      (tier (archive_log s' ! i) = Cold \<or>
       tier (archive_log s' ! i) = Warm \<and> \<not> (0 < hot_days s \<and> hot_days s \<le> warm_days s))"
    by (simp add: log)
qed

definition sample_record :: "storage_tier \<Rightarrow> archived_record" where
  "sample_record x = \<lparr>ar_id = ''arc-0000000001'', ar_table = ''t'', original_size_bytes = 4, archived_size_bytes = 1,
     ar_path = ''p'', archived_at = ''a'', tier = x, retention_until = ''u'', compressed = True\<rparr>"

definition sample_archive :: archival_shim where
  "sample_archive = (archival_new (\<lambda>_. None))\<lparr>hot_days := 7, warm_days := 30, archive_log := [sample_record Hot, sample_record Warm]\<rparr>"

theorem lifecycle_moves_hot_only_witness:
  "snd (apply_lifecycle (\<lambda>_. Some 0) (60 * day) sample_archive) = 1 \<and>
   tier (archive_log (fst (apply_lifecycle (\<lambda>_. Some 0) (60 * day) sample_archive)) ! 1) = Warm"
proof -
  let ?r = "apply_lifecycle (\<lambda>_. Some 0) (60 * day) sample_archive"
  have run: "?r = (sample_archive\<lparr>archive_log := [sample_record Cold, sample_record Warm]\<rparr>, 1)"
    by (simp add: apply_lifecycle_def sample_archive_def step_record_def sample_record_def age_in_days_def next_tier_def)
  show ?thesis
    unfolding run using lifecycle_moves_hot_only [OF run] by (simp add: sample_record_def)
qed

lemma floor_scaled:
  assumes "0 \<le> q" and "q \<le> 1"
  shows "unat (f64_as_u64 (of_nat n * q)) \<le> n"
proof -
  have "\<lfloor>of_nat n * q\<rfloor> \<le> int n" "0 \<le> \<lfloor>of_nat n * q\<rfloor>"
    using assms mult_left_le [OF assms(2), of "of_nat n"] by (simp_all add: floor_le_iff)
  then show ?thesis
    using int_unat_f64_as_u64 [of "of_nat n * q"] by linarith
qed

lemma add_record_size:
  assumes "add_record fmt max_utc now tbl cnt n dest s = Returns (s', r)" "0 \<le> compression_ratio s" "compression_ratio s \<le> 1"
  shows "archive_log s' = archive_log s @ [r]" "original_size_bytes r = n" "archived_size_bytes r \<le> n"
    "bytes_archived s' + bytes_saved s' = bytes_archived s + bytes_saved s + n"
    "bytes_archived s' = bytes_archived s + archived_size_bytes r"
proof -
  have "unat (f64_as_u64 (of_nat n * compression_ratio s)) \<le> n"
    using assms(2,3) by (rule floor_scaled)
  then show "archive_log s' = archive_log s @ [r]" "original_size_bytes r = n" "archived_size_bytes r \<le> n"
    "bytes_archived s' + bytes_saved s' = bytes_archived s + bytes_saved s + n"
    "bytes_archived s' = bytes_archived s + archived_size_bytes r"
    using assms(1) by (auto simp: add_record_def Let_def split: if_splits)
qed

text \<open>Archiving a batch either changes no size figure (and adds nothing to the log), or adds one
  record at the end of the log, whose estimated archived size is at most the original
  one, and the bytes archived and saved together grow by exactly the original size.  With a
  source the copy holds the bytes of the source, which stays where it is.\<close>

theorem archive_batch_accounting:
  assumes "0 \<le> compression_ratio s" and "compression_ratio s \<le> 1"
    and "archive_batch fmt max_utc me ce now tbl cnt orig src (s, files) = Returns ((s', files'), res)"
  shows "case res of
      None \<Rightarrow> archive_log s' = archive_log s \<and> bytes_archived s' = bytes_archived s \<and> bytes_saved s' = bytes_saved s \<and> files' = files
    | Some r \<Rightarrow> archive_log s' = archive_log s @ [r] \<and> archived_size_bytes r \<le> original_size_bytes r \<and>
        bytes_archived s' + bytes_saved s' = bytes_archived s + bytes_saved s + original_size_bytes r \<and>
        (\<forall>p. src = Some p \<longrightarrow> p \<noteq> ar_path r \<longrightarrow> map_of files' p = map_of files p \<and> map_of files' (ar_path r) = map_of files p)"
proof (cases res)
  case None
  then show ?thesis
    using assms(3) by (auto simp: archive_batch_def Let_def split: if_splits option.splits outcome.splits prod.splits)
next
  case (Some r)
  let ?s1 = "s\<lparr>record_counter := record_counter s + 1\<rparr>"
  obtain n dest where add: "add_record fmt max_utc now tbl cnt n dest ?s1 = Returns (s', r)"
    and copy: "\<And>p. src = Some p \<Longrightarrow> \<exists>c. map_of files p = Some c \<and> files' = hm_insert dest c files"
    using assms(3) Some
    by (auto simp: archive_batch_def Let_def split: if_splits option.splits outcome.splits prod.splits)
  have "ar_path r = dest"
    using add by (auto simp: add_record_def Let_def split: if_splits)
  then show ?thesis
    using add_record_size [OF add] assms(1,2) Some copy by fastforce
qed

theorem archive_batch_accounting_witness:
  "\<exists>s' files' r. archive_batch (\<lambda>_. ''t'') (1000 * day) None None 0 ''t'' 1 100 None (archival_new (\<lambda>_. None), []) =
     Returns ((s', files'), Some r) \<and> bytes_archived s' + bytes_saved s' = 100"
proof -
  let ?s = "archival_new (\<lambda>_. None)"
  have s: "0 \<le> compression_ratio ?s" "compression_ratio ?s \<le> 1" "bytes_archived ?s = 0" "bytes_saved ?s = 0"
    "retention_rules ?s = []" "retention_days ?s = 365"
    by (simp_all add: archival_new_def ratio_for_def env_uint_def)
  obtain s' r where b: "archive_batch (\<lambda>_. ''t'') (1000 * day) None None 0 ''t'' 1 100 None (?s, []) = Returns ((s', []), Some r)"
    and o: "original_size_bytes r = 100"
    using s(5,6) by (simp add: archive_batch_def add_record_def Let_def)
  show ?thesis
    using archive_batch_accounting [OF s(1,2) b] b o s(3,4) by auto
qed

end
