(* ===== verification/Cost.thy ===== *)
theory Cost
  imports Config "HOL-Library.Char_ord" "HOL-Library.List_Lexorder"
begin

text \<open>
  \<^verbatim>\<open>cost-shim\<close>: budgets and metered usage per tenant, alerts and projections, and the optimizer with
  its recommendations.  Amounts are exact rationals.  Time stamps are texts of \<^verbatim>\<open>chrono\<close>
  (\<^verbatim>\<open>fmt\<close>, \<^verbatim>\<open>prs\<close>), numbers in descriptions are formatted by \<^verbatim>\<open>fmt1\<close> and \<^verbatim>\<open>fmt0\<close> (fixed digits) and \<^verbatim>\<open>fmtd\<close>.
\<close>

section \<open>Budgets\<close>

datatype resource_type =
  Cpu | Memory | Storage | NetworkIn | NetworkOut | Requests | DatabaseReads | DatabaseWrites

fun resource_type_display :: "resource_type \<Rightarrow> string" where
  "resource_type_display Cpu = ''cpu''"
| "resource_type_display Memory = ''memory''"
| "resource_type_display Storage = ''storage''"
| "resource_type_display NetworkIn = ''network_in''"
| "resource_type_display NetworkOut = ''network_out''"
| "resource_type_display Requests = ''requests''"
| "resource_type_display DatabaseReads = ''db_reads''"
| "resource_type_display DatabaseWrites = ''db_writes''"

record resource_usage =
  resource_type :: resource_type
  amount :: f64
  ru_unit :: string
  cost_per_unit :: f64
  recorded_at :: string

definition total_cost :: "resource_usage \<Rightarrow> f64" where
  "total_cost u = amount u * cost_per_unit u"

record budget =
  tenant_id :: string
  limit :: f64
  spent :: f64
  bu_currency :: string
  period_start :: string
  period_end :: string

definition remaining :: "budget \<Rightarrow> f64" where
  "remaining b = max (limit b - spent b) 0"

definition usage_percent :: "budget \<Rightarrow> f64" where
  "usage_percent b = (if 0 < limit b then (spent b / limit b) * 100 else 100)"

definition budget_over :: "budget \<Rightarrow> bool" where
  "budget_over b = (limit b < spent b)"

definition is_near_limit :: "f64 \<Rightarrow> budget \<Rightarrow> bool" where
  "is_near_limit threshold b = (threshold \<le> usage_percent b)"

record cost_projection =
  cp_tenant_id :: string
  current_cost :: f64
  projected_monthly :: f64
  budget_limit :: f64
  projected_over_budget :: bool
  days_remaining :: int

record cost_shim =
  enabled :: bool
  tenant_key :: string
  report_schedule :: string
  budget_default :: f64
  alert_threshold :: f64
  currency :: string
  tenants_tracked :: nat
  resources_tracked :: nat
  budgets :: "(string, budget) hmap"
  usage_log :: "resource_usage list"
  alert_threshold_triggered :: nat

definition cost_new :: "validators \<Rightarrow> env \<Rightarrow> cost_shim" where
  "cost_new v env =
     \<lparr>enabled = env_flag env ''COST_TRACKING_ENABLED'' True,
      tenant_key = env_str env ''COST_TENANT_KEY'' ''X-Tenant-ID'',
      report_schedule = env_str env ''COST_REPORT_SCHEDULE'' ''daily'',
      budget_default = env_f64 v env ''COST_BUDGET_DEFAULT'' 100,
      alert_threshold = env_f64 v env ''COST_ALERT_THRESHOLD'' 80,
      currency = env_str env ''COST_CURRENCY'' ''USD'',
      tenants_tracked = 0, resources_tracked = 0, budgets = [], usage_log = [], alert_threshold_triggered = 0\<rparr>"

abbreviation day :: time where
  "day \<equiv> 86400 * second"

definition create_budget :: "(time \<Rightarrow> string) \<Rightarrow> time \<Rightarrow> string \<Rightarrow> f64 \<Rightarrow> cost_shim \<Rightarrow> cost_shim" where
  "create_budget fmt now tid lmt s =
    (let bs = hm_insert tid \<lparr>tenant_id = tid, limit = lmt, spent = 0, bu_currency = currency s,
                period_start = fmt now, period_end = fmt (now + 30 * day)\<rparr> (budgets s)
     in s\<lparr>budgets := bs, tenants_tracked := length bs\<rparr>)"

definition record_usage ::
  "(time \<Rightarrow> string) \<Rightarrow> time \<Rightarrow> string \<Rightarrow> resource_type \<Rightarrow> f64 \<Rightarrow> string \<Rightarrow> f64 \<Rightarrow> cost_shim \<Rightarrow> cost_shim \<times> f64" where
  "record_usage fmt now tid rt amt un cpu s =
    (let cost = amt * cpu
     in (s\<lparr>budgets := hm_update tid (\<lambda>b. b\<lparr>spent := spent b + cost\<rparr>) (budgets s),
           usage_log := usage_log s @ [\<lparr>resource_type = rt, amount = amt, ru_unit = un, cost_per_unit = cpu, recorded_at = fmt now\<rparr>],
           resources_tracked := resources_tracked s + 1\<rparr>, cost))"

definition get_budget :: "cost_shim \<Rightarrow> string \<Rightarrow> budget option" where
  "get_budget s tid = map_of (budgets s) tid"

definition is_over_budget :: "cost_shim \<Rightarrow> string \<Rightarrow> bool" where
  "is_over_budget s tid = (case map_of (budgets s) tid of Some b \<Rightarrow> budget_over b | None \<Rightarrow> False)"

definition check_alerts ::
  "((string, budget) hmap \<Rightarrow> (string, budget) hmap) \<Rightarrow> cost_shim \<Rightarrow> cost_shim \<times> string list" where
  "check_alerts ord s =
    (let alerted = map fst (filter (\<lambda>(_, b). is_near_limit (alert_threshold s) b) (hash_iter ord (budgets s)))
     in (s\<lparr>alert_threshold_triggered := alert_threshold_triggered s + length alerted\<rparr>, alerted))"

text \<open>Whole seconds and days of a difference, truncated towards zero.\<close>

definition whole :: "time \<Rightarrow> time \<Rightarrow> int" where
  "whole u d = sgn d * (\<bar>d\<bar> div u)"

definition project_cost :: "(string \<Rightarrow> time option) \<Rightarrow> time \<Rightarrow> cost_shim \<Rightarrow> string \<Rightarrow> cost_projection option" where
  "project_cost prs now s tid =
    (case map_of (budgets s) tid of
       None \<Rightarrow> None
     | Some b \<Rightarrow>
         (case (prs (period_start b), prs (period_end b)) of
            (Some t0, Some t1) \<Rightarrow>
              (let elapsed_secs = of_int (max (whole second (now - t0)) 1);
                   rate = spent b / elapsed_secs;
                   monthly = rate * 30 * 86400
               in Some \<lparr>cp_tenant_id = tid, current_cost = spent b, projected_monthly = monthly,
                        budget_limit = limit b, projected_over_budget = (limit b < monthly),
                        days_remaining = max (whole day (t1 - now)) 0\<rparr>)
          | _ \<Rightarrow> None))"

definition total_spend :: "cost_shim \<Rightarrow> f64" where
  "total_spend s = sum_list (map (\<lambda>(_, b). spent b) (budgets s))"

definition tenant_count :: "cost_shim \<Rightarrow> nat" where
  "tenant_count s = length (budgets s)"

definition usage_count :: "cost_shim \<Rightarrow> nat" where
  "usage_count s = length (usage_log s)"

definition reset_budgets :: "(time \<Rightarrow> string) \<Rightarrow> time \<Rightarrow> cost_shim \<Rightarrow> cost_shim" where
  "reset_budgets fmt now s =
     s\<lparr>budgets := map (\<lambda>(k, b). (k, b\<lparr>spent := 0, period_start := fmt now, period_end := fmt (now + 30 * day)\<rparr>)) (budgets s)\<rparr>"

definition cost_metrics :: "cost_shim \<Rightarrow> metric list" where
  "cost_metrics s =
    [(''cost_tenants_tracked'', of_nat (tenants_tracked s)),
     (''cost_resources_tracked'', of_nat (resources_tracked s)),
     (''cost_total_spend'', total_spend s),
     (''cost_alerts_triggered'', of_nat (alert_threshold_triggered s))]"

section \<open>Optimizer\<close>

datatype recommendation_type = RightSizeDown | RightSizeUp | IdleResource | ReservedCapacity

fun recommendation_type_display :: "recommendation_type \<Rightarrow> string" where
  "recommendation_type_display RightSizeDown = ''right_size_down''"
| "recommendation_type_display RightSizeUp = ''right_size_up''"
| "recommendation_type_display IdleResource = ''idle_resource''"
| "recommendation_type_display ReservedCapacity = ''reserved_capacity''"

record cost_recommendation =
  cr_resource_id :: string
  recommendation_type :: recommendation_type
  description :: string
  current_value :: f64
  suggested_value :: f64
  cr_unit :: string
  estimated_savings_monthly :: f64
  cr_severity :: string

record usage_data_point =
  resource_id :: string
  metric_name :: string
  dp_value :: f64
  dp_recorded_at :: string

record cost_optimizer =
  op_enabled :: bool
  usage_history :: "usage_data_point list"
  recommendations :: "cost_recommendation list"
  underutilized_threshold :: f64
  overutilized_threshold :: f64
  analysis_window_days :: nat

definition optimizer_new :: "env \<Rightarrow> cost_optimizer" where
  "optimizer_new env =
     \<lparr>op_enabled = env_flag env ''COST_OPTIMIZER_ENABLED'' True, usage_history = [], recommendations = [],
      underutilized_threshold = 10, overutilized_threshold = 80, analysis_window_days = 7\<rparr>"

definition op_record_usage :: "(time \<Rightarrow> string) \<Rightarrow> time \<Rightarrow> string \<Rightarrow> string \<Rightarrow> f64 \<Rightarrow> cost_optimizer \<Rightarrow> cost_optimizer" where
  "op_record_usage fmt now rid nm x z =
     z\<lparr>usage_history := usage_history z @ [\<lparr>resource_id = rid, metric_name = nm, dp_value = x, dp_recorded_at = fmt now\<rparr>]\<rparr>"

definition unique_resources :: "cost_optimizer \<Rightarrow> string list" where
  "unique_resources z = sort (remdups (map resource_id (usage_history z)))"

definition estimate_savings :: "f64 \<Rightarrow> f64 \<Rightarrow> f64" where
  "estimate_savings current suggested =
    (if current \<le> suggested then 0 else (current - suggested) / 10 * 50)"

definition estimate_memory_savings :: "f64 \<Rightarrow> f64 \<Rightarrow> f64" where
  "estimate_memory_savings current suggested =
    (if current \<le> suggested then 0 else (current - suggested) / (1024 * 1024 * 1024) * 30)"

definition points :: "cost_optimizer \<Rightarrow> string \<Rightarrow> string \<Rightarrow> f64 list" where
  "points z rid nm =
     map dp_value (filter (\<lambda>p. resource_id p = rid \<and> metric_name p = nm) (usage_history z))"

definition average :: "f64 list \<Rightarrow> f64" where
  "average xs = sum_list xs / of_nat (length xs)"

abbreviation ceil :: "f64 \<Rightarrow> f64" where
  "ceil x \<equiv> of_int \<lceil>x\<rceil>"

record formats =
  fmt1 :: "f64 \<Rightarrow> string"
  fmt0 :: "f64 \<Rightarrow> string"
  fmtd :: "f64 \<Rightarrow> string"

definition cpu_recommendations :: "formats \<Rightarrow> cost_optimizer \<Rightarrow> string \<Rightarrow> f64 list \<Rightarrow> cost_recommendation list" where
  "cpu_recommendations F z rid xs =
    (if xs = [] then []
     else
       (let avg = average xs;
            below = length (filter (\<lambda>x. x < underutilized_threshold z) xs);
            above = length (filter (\<lambda>x. overutilized_threshold z < x) xs);
            idle = length (filter (\<lambda>x. x < 1) xs);
            w = analysis_window_days z;
            down = min (ceil (avg * 2)) 100;
            up = min (ceil (avg * (3 / 2))) 100
        in (if w \<le> below then
              [\<lparr>cr_resource_id = rid, recommendation_type = RightSizeDown,
                description = ''CPU averaging '' @ fmt1 F avg @ ''% over '' @ show_nat below @ '' days, below '' @
                  fmtd F (underutilized_threshold z) @ ''% threshold. Consider reducing allocated CPU cores.'',
                current_value = avg, suggested_value = down, cr_unit = ''percent'',
                estimated_savings_monthly = estimate_savings avg down, cr_severity = ''low''\<rparr>]
            else []) @
           (if w \<le> above then
              [\<lparr>cr_resource_id = rid, recommendation_type = RightSizeUp,
                description = ''CPU averaging '' @ fmt1 F avg @ ''% over '' @ show_nat above @ '' days, above '' @
                  fmtd F (overutilized_threshold z) @ ''% threshold. Consider increasing allocated CPU cores.'',
                current_value = avg, suggested_value = up, cr_unit = ''percent'',
                estimated_savings_monthly = 0, cr_severity = ''high''\<rparr>]
            else []) @
           (if w \<le> idle \<and> w \<le> length xs then
              [\<lparr>cr_resource_id = rid, recommendation_type = IdleResource,
                description = ''Resource idle (CPU < 1%) for '' @ show_nat idle @
                  '' days. Consider shutting down or consolidating.'',
                current_value = avg, suggested_value = 0, cr_unit = ''percent'',
                estimated_savings_monthly = estimate_savings avg 0, cr_severity = ''medium''\<rparr>]
            else [])))"

definition mem_recommendations :: "formats \<Rightarrow> cost_optimizer \<Rightarrow> string \<Rightarrow> f64 list \<Rightarrow> cost_recommendation list" where
  "mem_recommendations F z rid xs =
    (if xs = [] then []
     else
       (let avg = average xs;
            low = length (filter (\<lambda>x. x < underutilized_threshold z) xs);
            suggested = ceil (avg * 2)
        in if analysis_window_days z \<le> low then
             [\<lparr>cr_resource_id = rid, recommendation_type = RightSizeDown,
               description = ''Memory usage averaging '' @ fmt0 F avg @ '' bytes over '' @ show_nat low @
                 '' days, consistently low. Consider reducing allocated memory.'',
               current_value = avg, suggested_value = suggested, cr_unit = ''bytes'',
               estimated_savings_monthly = estimate_memory_savings avg suggested, cr_severity = ''low''\<rparr>]
           else []))"

definition analyze :: "formats \<Rightarrow> cost_optimizer \<Rightarrow> cost_optimizer \<times> cost_recommendation list" where
  "analyze F z =
    (if \<not> op_enabled z then (z, [])
     else
       (let rs = concat (map (\<lambda>rid. cpu_recommendations F z rid (points z rid ''cpu_percent'') @
                                    mem_recommendations F z rid (points z rid ''memory_bytes'')) (unique_resources z))
        in (z\<lparr>recommendations := rs\<rparr>, rs)))"

definition set_underutilized_threshold :: "f64 \<Rightarrow> cost_optimizer \<Rightarrow> cost_optimizer" where
  "set_underutilized_threshold x z = z\<lparr>underutilized_threshold := x\<rparr>"

definition set_overutilized_threshold :: "f64 \<Rightarrow> cost_optimizer \<Rightarrow> cost_optimizer" where
  "set_overutilized_threshold x z = z\<lparr>overutilized_threshold := x\<rparr>"

definition set_analysis_window :: "nat \<Rightarrow> cost_optimizer \<Rightarrow> cost_optimizer" where
  "set_analysis_window d z = z\<lparr>analysis_window_days := d\<rparr>"

definition clear_history :: "cost_optimizer \<Rightarrow> cost_optimizer" where
  "clear_history z = z\<lparr>usage_history := [], recommendations := []\<rparr>"

section \<open>The ledger\<close>

declare map_of_eq_Some_iff [simp del]

datatype cost_op =
    CCreate time string f64
  | CUse time string resource_type f64 string f64
  | CReset time
  | CAlerts

fun cost_exec ::
  "((string, budget) hmap \<Rightarrow> (string, budget) hmap) \<Rightarrow> (time \<Rightarrow> string) \<Rightarrow> cost_op \<Rightarrow> cost_shim \<Rightarrow> cost_shim" where
  "cost_exec ord fmt (CCreate now tid lmt) s = create_budget fmt now tid lmt s"
| "cost_exec ord fmt (CUse now tid rt amt un cpu) s = fst (record_usage fmt now tid rt amt un cpu s)"
| "cost_exec ord fmt (CReset now) s = reset_budgets fmt now s"
| "cost_exec ord fmt CAlerts s = fst (check_alerts ord s)"

text \<open>The abstract ledger: what each tenant with a budget has spent in the current period.\<close>

fun ledger_step :: "cost_op \<Rightarrow> (string \<rightharpoonup> f64) \<Rightarrow> (string \<rightharpoonup> f64)" where
  "ledger_step (CCreate _ tid _) m = m(tid \<mapsto> 0)"
| "ledger_step (CUse _ tid _ amt _ cpu) m = m(tid := map_option (\<lambda>x. x + amt * cpu) (m tid))"
| "ledger_step (CReset _) m = (\<lambda>t. map_option (\<lambda>_. 0) (m t))"
| "ledger_step CAlerts m = m"

definition ledger :: "cost_shim \<Rightarrow> (string \<rightharpoonup> f64)" where
  "ledger s tid = map_option spent (map_of (budgets s) tid)"

definition cost_inv :: "cost_shim \<Rightarrow> bool" where
  "cost_inv s = (hm_wf (budgets s) \<and> tenants_tracked s = length (budgets s) \<and> resources_tracked s = length (usage_log s))"

lemma reset_lookup:
  "map_of (map (\<lambda>(k, b). (k, f b)) m) k = map_option f (map_of m k)"
  by (induction m) auto

lemma ledger_exec: "ledger (cost_exec ord fmt op s) = ledger_step op (ledger s)"
  by (cases op) (auto simp: ledger_def create_budget_def record_usage_def reset_budgets_def check_alerts_def Let_def
      fun_eq_iff reset_lookup option.map_comp comp_def)

lemma cost_exec_inv: "cost_inv s \<Longrightarrow> cost_inv (cost_exec ord fmt op s)"
  by (cases op) (auto simp: cost_inv_def create_budget_def record_usage_def reset_budgets_def check_alerts_def Let_def
      comp_def case_prod_beta simp del: keys_hm_insert, simp add: hm_update_def)

interpretation cost_ops: op_system "cost_exec ord fmt" cost_inv
  by unfold_locales (rule cost_exec_inv)

lemma cost_new_inv: "cost_inv (cost_new v env)"
  by (simp add: cost_inv_def cost_new_def)

lemma ledger_run: "ledger (fold (cost_exec ord fmt) ops s) = fold ledger_step ops (ledger s)"
  by (induction ops arbitrary: s) (simp_all add: ledger_exec)

lemma sum_over_keys:
  "hm_wf m \<Longrightarrow> sum_list (map (\<lambda>(_, v). f v) m) = (\<Sum>k\<in>dom (map_of m). f (the (map_of m k)) :: 'b :: comm_monoid_add)"
proof (induction m)
  case (Cons p m)
  obtain k v where p: "p = (k, v)"
    by (cases p)
  have k: "k \<notin> dom (map_of m)"
    using Cons.prems p by (auto simp: dom_map_of_conv_image_fst)
  have "(\<Sum>x\<in>dom (map_of m). f (the (map_of (p # m) x))) = (\<Sum>x\<in>dom (map_of m). f (the (map_of m x)))"
    using k p by (intro sum.cong) auto
  moreover have "dom (map_of m) \<inter> {x. x \<noteq> k} = dom (map_of m)"
    using k by auto
  ultimately show ?case
    using Cons k p by (simp add: dom_if finite_dom_map_of)
qed simp

text \<open>C36: The budgets are a ledger.  Over any sequence of calls, what the shim records as spent is what the abstract
  ledger computes: a new budget starts at zero (also when it replaces one), usage is added to the tenant's budget if it
  has one and lost otherwise, and a reset sets all budgets to zero.  The total spend and the tenant count
  reported are those of the ledger.\<close>

theorem cost_refines_ledger:
  assumes "s = fold (cost_exec ord fmt) ops (cost_new v env)"
  shows "(ledger s = fold ledger_step ops Map.empty) \<and>
     (total_spend s = (\<Sum>t\<in>dom (ledger s). the (ledger s t))) \<and>
     (tenants_tracked s = card (dom (ledger s)))"
proof (rule conjI [OF _ conjI])
  have inv: "cost_inv s"
    unfolding assms by (rule cost_ops.fold_inv, rule cost_new_inv)
  have dom: "dom (ledger s) = dom (map_of (budgets s))"
    by (auto simp: ledger_def dom_def)
  have "ledger (cost_new v env) = Map.empty"
    by (simp add: ledger_def cost_new_def fun_eq_iff)
  then show "ledger s = fold ledger_step ops Map.empty"
    unfolding assms by (simp add: ledger_run)
  have "the (ledger s t) = spent (the (map_of (budgets s) t))" if "t \<in> dom (map_of (budgets s))" for t
    using that by (auto simp: ledger_def)
  then show "total_spend s = (\<Sum>t\<in>dom (ledger s). the (ledger s t))"
    unfolding total_spend_def dom using inv sum_over_keys [of "budgets s" spent] by (simp add: cost_inv_def)
  have "card (dom (map_of (budgets s))) = length (budgets s)"
    using inv distinct_card [of "map fst (budgets s)"] by (simp add: cost_inv_def dom_map_of_conv_image_fst)
  then show "tenants_tracked s = card (dom (ledger s))"
    unfolding dom using inv by (simp add: cost_inv_def)
qed

definition sample_cost_ops :: "cost_op list" where
  "sample_cost_ops = [CCreate 0 ''a'' 10, CUse 1 ''a'' Cpu 2 ''h'' 3, CUse 2 ''b'' Cpu 2 ''h'' 3]"

theorem cost_refines_ledger_witness:
  "ledger (fold (cost_exec id (\<lambda>_. [])) sample_cost_ops (cost_new sample_validators (\<lambda>_. None))) ''a'' = Some 6 \<and>
   ledger (fold (cost_exec id (\<lambda>_. [])) sample_cost_ops (cost_new sample_validators (\<lambda>_. None))) ''b'' = None"
  unfolding conjunct1 [OF cost_refines_ledger [OF refl]] by (simp add: sample_cost_ops_def)

section \<open>Recommendations\<close>

lemma average_bounds:
  assumes "xs \<noteq> []" and "\<forall>x\<in>set xs. lo \<le> x \<and> x \<le> hi"
  shows "lo \<le> average xs" "average xs \<le> hi"
proof -
  have "of_nat (length xs) * lo \<le> sum_list xs \<and> sum_list xs \<le> of_nat (length xs) * hi"
    using assms(2) by (induction xs) (auto simp: algebra_simps)
  then show "lo \<le> average xs" "average xs \<le> hi"
    using assms(1) by (simp_all add: average_def field_simps)
qed

lemma average_nonneg: "\<forall>x\<in>set xs. 0 \<le> x \<Longrightarrow> 0 \<le> average xs"
  by (simp add: average_def sum_list_nonneg)

text \<open>Advice to downsize saves nothing.  If all measurements are plausible (no negative values, CPU at most 100
  percent), every recommendation to reduce a resource suggests at least the current
  average and promises savings of zero.\<close>

theorem downsizing_saves_nothing:
  assumes "\<forall>p\<in>set (usage_history z). 0 \<le> dp_value p \<and> (metric_name p = ''cpu_percent'' \<longrightarrow> dp_value p \<le> 100)"
    and "r \<in> set (snd (analyze F z))" and "recommendation_type r = RightSizeDown"
  shows "current_value r \<le> suggested_value r \<and> estimated_savings_monthly r = 0"
proof -
  have double: "x \<le> ceil (x * 2)" if "0 \<le> x" for x :: rat
    using le_of_int_ceiling [of "x * 2"] that by linarith
  obtain rid where r: "r \<in> set (cpu_recommendations F z rid (points z rid ''cpu_percent'')) \<or>
      r \<in> set (mem_recommendations F z rid (points z rid ''memory_bytes''))"
    using assms(2) by (auto simp: analyze_def Let_def split: if_splits)
  have cpu: "\<forall>x\<in>set (points z rid ''cpu_percent''). 0 \<le> x \<and> x \<le> 100"
    and mem: "\<forall>x\<in>set (points z rid ''memory_bytes''). 0 \<le> x"
    using assms(1) by (auto simp: points_def)
  from r show ?thesis
  proof
    assume "r \<in> set (cpu_recommendations F z rid (points z rid ''cpu_percent''))"
    moreover from this have "points z rid ''cpu_percent'' \<noteq> []"
      by (auto simp: cpu_recommendations_def)
    ultimately show ?thesis
      using average_bounds [OF _ cpu] double assms(3)
      by (auto simp: cpu_recommendations_def Let_def estimate_savings_def split: if_splits)
  next
    assume "r \<in> set (mem_recommendations F z rid (points z rid ''memory_bytes''))"
    then show ?thesis
      using average_nonneg [OF mem] double
      by (auto simp: mem_recommendations_def Let_def estimate_memory_savings_def split: if_splits)
  qed
qed

definition sample_optimizer :: cost_optimizer where
  "sample_optimizer = set_analysis_window 1 (op_record_usage (\<lambda>_. []) 0 ''vm'' ''cpu_percent'' 5 (optimizer_new (\<lambda>_. None)))"

definition sample_formats :: formats where
  "sample_formats = \<lparr>fmt1 = (\<lambda>_. []), fmt0 = (\<lambda>_. []), fmtd = (\<lambda>_. [])\<rparr>"

theorem downsizing_saves_nothing_witness:
  "\<exists>r. r \<in> set (snd (analyze sample_formats sample_optimizer)) \<and> recommendation_type r = RightSizeDown \<and>
     estimated_savings_monthly r = 0"
proof -
  have z: "usage_history sample_optimizer = [\<lparr>resource_id = ''vm'', metric_name = ''cpu_percent'', dp_value = 5, dp_recorded_at = []\<rparr>]"
    "op_enabled sample_optimizer" "analysis_window_days sample_optimizer = 1" "underutilized_threshold sample_optimizer = 10"
    by (simp_all add: sample_optimizer_def op_record_usage_def set_analysis_window_def optimizer_new_def env_flag_def)
  have "\<exists>r\<in>set (snd (analyze sample_formats sample_optimizer)). recommendation_type r = RightSizeDown"
    by (simp add: analyze_def z unique_resources_def points_def cpu_recommendations_def Let_def)
  then obtain r where r: "r \<in> set (snd (analyze sample_formats sample_optimizer))" "recommendation_type r = RightSizeDown"
    by blast
  then show ?thesis
    using downsizing_saves_nothing [OF _ r] z(1) by auto
qed

end
