(* ===== verification/Compliance.thy ===== *)
theory Compliance
  imports Prelude
begin

text \<open>
  \<^verbatim>\<open>compliance-shim\<close>: checks with severities, the run that turns failed checks into
  violations, reports, the fixed rule sets and their evaluation on a database.  Scalar
  queries to the database (\<^verbatim>\<open>sqlx\<close>), TOML parsing and file access are arguments.
\<close>

section \<open>Severities\<close>

datatype severity = Info | Low | Medium | High | Critical

fun severity_rank :: "severity \<Rightarrow> nat" where
  "severity_rank Info = 0"
| "severity_rank Low = 1"
| "severity_rank Medium = 2"
| "severity_rank High = 3"
| "severity_rank Critical = 4"

lemma check_severity_rank_inj: "severity_rank a = severity_rank b \<Longrightarrow> a = b"
  by (cases a; cases b) simp_all

text \<open>The derived \<^verbatim>\<open>PartialOrd\<close> orders the constructors as they are declared.\<close>

instantiation severity :: linorder
begin

definition less_eq_severity :: "severity \<Rightarrow> severity \<Rightarrow> bool" where
  "a \<le> b \<longleftrightarrow> severity_rank a \<le> severity_rank b"

definition less_severity :: "severity \<Rightarrow> severity \<Rightarrow> bool" where
  "a < b \<longleftrightarrow> severity_rank a < severity_rank b"

instance
  by standard (auto simp: less_eq_severity_def less_severity_def intro: check_severity_rank_inj)

end

fun severity_display :: "severity \<Rightarrow> string" where
  "severity_display Info = ''info''"
| "severity_display Low = ''low''"
| "severity_display Medium = ''medium''"
| "severity_display High = ''high''"
| "severity_display Critical = ''critical''"

definition severity_from_str :: "string \<Rightarrow> string + severity" where
  "severity_from_str s =
    (let t = to_lowercase s in
     if t = ''info'' then Inr Info
     else if t = ''low'' then Inr Low
     else if t = ''medium'' then Inr Medium
     else if t = ''high'' then Inr High
     else if t = ''critical'' then Inr Critical
     else Inl (''Unknown severity: '' @ s))"

section \<open>Checks and violations\<close>

record compliance_check =
  cc_id :: string
  cc_description :: string
  cc_benchmark :: string
  cc_severity :: severity
  passed :: bool
  evidence :: string
  remediation :: string

record violation =
  check_id :: string
  vi_description :: string
  vi_severity :: severity
  detected_at :: string
  vi_evidence :: string
  vi_remediation :: string
  resolved :: bool

record compliance_report =
  rp_benchmark :: string
  rp_db_type :: string
  generated_at :: string
  total_checks :: nat
  rp_passed :: nat
  failed :: nat
  score :: f64
  rp_violations :: "violation list"

record compliance_shim =
  benchmark :: string
  db_type :: string
  report_format :: string
  sh_output :: string
  min_severity :: severity
  checks_passed :: nat
  checks_failed :: nat
  checks_total :: nat
  compliance_score :: f64
  last_check :: "time option"
  violations :: "violation list"
  checks :: "compliance_check list"

definition compliance_new :: "env \<Rightarrow> compliance_shim" where
  "compliance_new env =
     \<lparr>benchmark = env_str env ''COMPLIANCE_BENCHMARK'' ''cis'',
      db_type = env_str env ''COMPLIANCE_DB_TYPE'' ''postgres'',
      report_format = env_str env ''COMPLIANCE_REPORT'' ''json'',
      sh_output = env_str env ''COMPLIANCE_OUTPUT'' ''stdout'',
      min_severity = (case env ''COMPLIANCE_SEVERITY'' of
          Some t \<Rightarrow> (case severity_from_str t of Inr x \<Rightarrow> x | Inl _ \<Rightarrow> Info)
        | None \<Rightarrow> Info),
      checks_passed = 0, checks_failed = 0, checks_total = 0, compliance_score = 0, last_check = None,
      violations = [], checks = []\<rparr>"

definition add_check :: "compliance_check \<Rightarrow> compliance_shim \<Rightarrow> compliance_shim" where
  "add_check c s = s\<lparr>checks := checks s @ [c]\<rparr>"

definition violation_of :: "string \<Rightarrow> compliance_check \<Rightarrow> violation" where
  "violation_of now c =
     \<lparr>check_id = cc_id c, vi_description = cc_description c, vi_severity = cc_severity c, detected_at = now,
      vi_evidence = evidence c, vi_remediation = remediation c, resolved = False\<rparr>"

text \<open>One turn of the loop over the checks.\<close>

definition run_check :: "string \<Rightarrow> compliance_check \<Rightarrow> compliance_shim \<Rightarrow> compliance_shim" where
  "run_check now c s =
    (if passed c then s\<lparr>checks_passed := checks_passed s + 1\<rparr>
     else if min_severity s \<le> cc_severity c then
       s\<lparr>checks_failed := checks_failed s + 1, violations := violations s @ [violation_of now c]\<rparr>
     else s)"

definition run_checks :: "(time \<Rightarrow> string) \<Rightarrow> time \<Rightarrow> compliance_shim \<Rightarrow> compliance_shim" where
  "run_checks fmt now s =
    (let s1 = s\<lparr>checks_total := length (checks s), checks_passed := 0, checks_failed := 0, violations := []\<rparr>;
         s2 = fold (run_check (fmt now)) (checks s1) s1
     in s2\<lparr>compliance_score :=
             (if 0 < checks_total s2 then of_nat (checks_passed s2) / of_nat (checks_total s2) * 100 else 100),
           last_check := Some now\<rparr>)"

definition violations_by_severity :: "severity \<Rightarrow> compliance_shim \<Rightarrow> violation list" where
  "violations_by_severity x s = filter (\<lambda>v. x \<le> vi_severity v \<and> \<not> resolved v) (violations s)"

fun resolve_first :: "string \<Rightarrow> violation list \<Rightarrow> violation list \<times> bool" where
  "resolve_first i [] = ([], False)"
| "resolve_first i (v # vs) =
    (if check_id v = i then (v\<lparr>resolved := True\<rparr> # vs, True)
     else (case resolve_first i vs of (vs', ok) \<Rightarrow> (v # vs', ok)))"

definition resolve_violation :: "string \<Rightarrow> compliance_shim \<Rightarrow> compliance_shim \<times> bool" where
  "resolve_violation i s =
    (case resolve_first i (violations s) of (vs, ok) \<Rightarrow> (s\<lparr>violations := vs\<rparr>, ok))"

definition unresolved :: "compliance_shim \<Rightarrow> violation list" where
  "unresolved s = filter (\<lambda>v. \<not> resolved v) (violations s)"

definition generate_report :: "string \<Rightarrow> compliance_shim \<Rightarrow> compliance_report" where
  "generate_report now s =
     \<lparr>rp_benchmark = benchmark s, rp_db_type = db_type s, generated_at = now,
      total_checks = length (checks s), rp_passed = length (filter passed (checks s)),
      failed = length (unresolved s), score = compliance_score s, rp_violations = unresolved s\<rparr>"

definition unresolved_count :: "compliance_shim \<Rightarrow> nat" where
  "unresolved_count s = length (unresolved s)"

definition violation_counts :: "compliance_shim \<Rightarrow> (severity, nat) hmap" where
  "violation_counts s = fold (\<lambda>v m. if \<not> resolved v then hm_bump (vi_severity v) m else m) (violations s) []"

definition meets_threshold :: "f64 \<Rightarrow> compliance_shim \<Rightarrow> bool" where
  "meets_threshold t s = (t \<le> compliance_score s)"

definition compliance_metrics :: "compliance_shim \<Rightarrow> metric list" where
  "compliance_metrics s =
    [(''compliance_checks_passed'', of_nat (checks_passed s)),
     (''compliance_checks_failed'', of_nat (checks_failed s)),
     (''compliance_score'', compliance_score s),
     (''compliance_violations_total'', of_nat (unresolved_count s))]"

section \<open>Rule sets\<close>

abbreviation quote :: char where
  "quote \<equiv> CHR 39"

definition rule :: "string \<Rightarrow> string \<Rightarrow> string \<Rightarrow> severity \<Rightarrow> string \<Rightarrow> compliance_check" where
  "rule bm i d sev r =
     \<lparr>cc_id = i, cc_description = d, cc_benchmark = bm, cc_severity = sev, passed = False, evidence = [], remediation = r\<rparr>"

definition postgres_cis_rules :: "string \<Rightarrow> compliance_check list" where
  "postgres_cis_rules bm =
    [rule bm ''CIS-POSTGRES-001'' ''Superuser access restricted to named admin accounts'' Critical
       ''Restrict superuser access. Review pg_roles for shared accounts.'',
     rule bm ''CIS-POSTGRES-002'' ''Password authentication uses SCRAM-SHA-256'' High
       ''Set password_encryption = 'scram-sha-256' in postgresql.conf.'',
     rule bm ''CIS-POSTGRES-003'' ''Log connections and disconnections enabled'' Medium
       ''Set log_connections = on and log_disconnections = on.'',
     rule bm ''CIS-POSTGRES-004'' ''Failed login attempts are logged'' Medium
       ''Set log_failed_login_attempts > 0 in postgresql.conf.'',
     rule bm ''CIS-POSTGRES-005'' ''SSL enabled for client connections'' High
       ''Set ssl = on in postgresql.conf. Update pg_hba.conf to require hostssl.'',
     rule bm ''CIS-POSTGRES-006'' ''pg_hba.conf does not use trust authentication'' Critical
       ''Replace trust entries with scram-sha-256 or cert.'',
     rule bm ''CIS-POSTGRES-007'' ''Data directory permissions are 0700'' High
       ''Run: chmod 0700 $(pg_config --pkglibdir)/../data'',
     rule bm ''CIS-POSTGRES-008'' ''Log line prefix includes user and database'' Medium
       ''Set log_line_prefix = '%m [%p] %q%u@%d ' in postgresql.conf.'',
     rule bm ''CIS-POSTGRES-009'' ''Statement timeout configured'' Medium
       ''Set statement_timeout = 60000 (60s) in postgresql.conf.'',
     rule bm ''CIS-POSTGRES-010'' ''Idle-in-transaction timeout configured'' Medium
       ''Set idle_in_transaction_session_timeout = 60000 in postgresql.conf.'',
     rule bm ''CIS-POSTGRES-011'' ''Max connections is reasonable (< 500)'' Low
       ''Set max_connections based on available memory. Use PgBouncer for pooling.'',
     rule bm ''CIS-POSTGRES-012'' ''Shared buffers tuned for workload'' Low
       ''Set shared_buffers to ~25% of system RAM for dedicated servers.'']"

definition mariadb_cis_rules :: "string \<Rightarrow> compliance_check list" where
  "mariadb_cis_rules bm =
    [rule bm ''CIS-MYSQL-001'' ''Anonymous accounts removed'' Critical
       (''DELETE FROM mysql.user WHERE User='' @ [quote] @ [quote] @ ''; FLUSH PRIVILEGES;''),
     rule bm ''CIS-MYSQL-002'' ''Root login restricted to localhost'' Critical
       ''DELETE FROM mysql.user WHERE User='root' AND Host NOT IN ('localhost','127.0.0.1','::1');'',
     rule bm ''CIS-MYSQL-003'' ''SHA-256 password authentication plugin'' High
       ''Set default_authentication_plugin = 'caching_sha2_password' in my.cnf.'',
     rule bm ''CIS-MYSQL-004'' ''Local-infile disabled'' High
       ''Set local_infile = 0 in my.cnf.'',
     rule bm ''CIS-MYSQL-005'' ''Symbolic-links disabled'' Medium
       ''Set symbolic-links = 0 in my.cnf.'',
     rule bm ''CIS-MYSQL-006'' ''SQL mode includes strict settings'' Medium
       ''Set sql_mode = 'STRICT_TRANS_TABLES,ERROR_FOR_DIVISION_BY_ZERO,NO_ENGINE_SUBSTITUTION'.'',
     rule bm ''CIS-MYSQL-007'' ''Audit logging enabled'' Medium
       ''Install and configure the audit_log plugin.'',
     rule bm ''CIS-MYSQL-008'' ''Max connections is reasonable (< 500)'' Low
       ''Set max_connections based on available memory.'']"

definition redis_stig_rules :: "string \<Rightarrow> compliance_check list" where
  "redis_stig_rules bm =
    [rule bm ''STIG-REDIS-001'' ''Redis requires authentication'' Critical
       ''Set requirepass in redis.conf or use ACLs.'',
     rule bm ''STIG-REDIS-002'' ''Redis not bound to all interfaces'' High
       ''Set bind to specific interfaces: bind 127.0.0.1 <internal-ip>'',
     rule bm ''STIG-REDIS-003'' ''Dangerous commands renamed'' High
       ''Rename FLUSHALL, FLUSHDB, DEBUG, CONFIG commands.'',
     rule bm ''STIG-REDIS-004'' ''Protected mode enabled'' High
       ''Set protected-mode yes in redis.conf.'',
     rule bm ''STIG-REDIS-005'' ''TLS configured for transit encryption'' Medium
       ''Configure tls-port, tls-cert-file, tls-key-file in redis.conf.'',
     rule bm ''STIG-REDIS-006'' ''maxmemory configured'' Medium
       ''Set maxmemory to a reasonable limit based on available RAM.'',
     rule bm ''STIG-REDIS-007'' ''maxmemory-policy set'' Low
       ''Set maxmemory-policy to allkeys-lru or volatile-lru.'',
     rule bm ''STIG-REDIS-008'' ''Dangerous Lua commands restricted'' Medium
       ''Set lua-time-limit and restrict eval via ACLs.'']"

definition generate_cis_checks :: "compliance_shim \<Rightarrow> compliance_check list" where
  "generate_cis_checks s =
    (if db_type s = ''postgres'' then postgres_cis_rules (benchmark s)
     else if db_type s = ''mariadb'' \<or> db_type s = ''mysql'' then mariadb_cis_rules (benchmark s)
     else if db_type s = ''redis'' then redis_stig_rules (benchmark s)
     else [])"

section \<open>Checks on a database\<close>

text \<open>A connection answers scalar queries with a number or a text, or an error.\<close>

record connection =
  query_int :: "string \<Rightarrow> string + int"
  query_str :: "string \<Rightarrow> string + string"

definition superuser_query :: string where
  "superuser_query = ''SELECT count(*)::int FROM pg_roles WHERE rolsuper = true AND rolname NOT IN ('postgres', 'rds_superuser')''"

definition postgres_result :: "connection \<Rightarrow> string \<Rightarrow> (string + bool \<times> string) option" where
  "postgres_result c i =
    (if i = ''CIS-POSTGRES-001'' then
       Some (case query_int c superuser_query of
               Inr n \<Rightarrow> Inr (n = 0, show_int n @ '' non-admin superusers'') | Inl e \<Rightarrow> Inl e)
     else if i = ''CIS-POSTGRES-002'' then
       Some (case query_str c ''SHOW password_encryption'' of
               Inr v \<Rightarrow> Inr (v = ''scram-sha-256'', ''password_encryption = '' @ v) | Inl e \<Rightarrow> Inl e)
     else if i = ''CIS-POSTGRES-003'' then
       Some (case query_str c ''SHOW log_connections'' of
               Inr v \<Rightarrow> Inr (v = ''on'', ''log_connections = '' @ v) | Inl e \<Rightarrow> Inl e)
     else if i = ''CIS-POSTGRES-005'' then
       Some (case query_str c ''SHOW ssl'' of Inr v \<Rightarrow> Inr (v = ''on'', ''ssl = '' @ v) | Inl e \<Rightarrow> Inl e)
     else if i = ''CIS-POSTGRES-011'' then
       Some (case query_str c ''SHOW max_connections'' of
               Inr v \<Rightarrow>
                 (let n = (case parse_int 64 v of Some x \<Rightarrow> x | None \<Rightarrow> 0)
                  in Inr (n < 500, ''max_connections = '' @ show_int n))
             | Inl e \<Rightarrow> Inl e)
     else None)"

definition mariadb_result :: "connection \<Rightarrow> string \<Rightarrow> (string + bool \<times> string) option" where
  "mariadb_result c i =
    (if i = ''CIS-MYSQL-001'' then
       Some (case query_int c (''SELECT count(*) FROM mysql.user WHERE User = '' @ [quote, quote]) of
               Inr n \<Rightarrow> Inr (n = 0, show_int n @ '' anonymous accounts'') | Inl e \<Rightarrow> Inl e)
     else if i = ''CIS-MYSQL-004'' then
       Some (case query_str c (''SHOW VARIABLES LIKE 'local_infile'' @ [quote]) of
               Inr v \<Rightarrow> Inr (v = ''OFF'', ''local_infile = '' @ v) | Inl e \<Rightarrow> Inl e)
     else None)"

definition apply_result :: "(string + bool \<times> string) option \<Rightarrow> compliance_check \<Rightarrow> compliance_check" where
  "apply_result r k =
    (case r of
       None \<Rightarrow> k
     | Some (Inr (ok, ev)) \<Rightarrow> k\<lparr>passed := ok, evidence := ev\<rparr>
     | Some (Inl e) \<Rightarrow> k\<lparr>evidence := ''Query failed: '' @ e\<rparr>)"

definition check_postgres_rule :: "connection \<Rightarrow> compliance_check \<Rightarrow> compliance_check" where
  "check_postgres_rule c k = apply_result (postgres_result c (cc_id k)) k"

definition check_mariadb_rule :: "connection \<Rightarrow> compliance_check \<Rightarrow> compliance_check" where
  "check_mariadb_rule c k = apply_result (mariadb_result c (cc_id k)) k"

definition run_database_checks :: "(string \<Rightarrow> connection option) \<Rightarrow> string \<Rightarrow> compliance_shim \<Rightarrow> compliance_check list" where
  "run_database_checks connect url s =
    (let ks = generate_cis_checks s in
     if db_type s = ''postgres'' then
       (case connect url of Some c \<Rightarrow> map (check_postgres_rule c) ks | None \<Rightarrow> ks)
     else if db_type s = ''mariadb'' \<or> db_type s = ''mysql'' then
       (case connect url of Some c \<Rightarrow> map (check_mariadb_rule c) ks | None \<Rightarrow> ks)
     else ks)"

record rule_toml =
  rt_id :: string
  rt_description :: string
  rt_severity :: string
  rt_remediation :: string

definition into_check :: "rule_toml \<Rightarrow> compliance_check" where
  "into_check r =
     rule ''custom'' (rt_id r) (rt_description r)
       (case severity_from_str (rt_severity r) of Inr x \<Rightarrow> x | Inl _ \<Rightarrow> Medium) (rt_remediation r)"

definition load_rules_from_file ::
  "(string \<Rightarrow> string + string) \<Rightarrow> (string \<Rightarrow> string + rule_toml list) \<Rightarrow> string \<Rightarrow> string + compliance_check list" where
  "load_rules_from_file read_to_string from_toml path =
    (case read_to_string path of
       Inl e \<Rightarrow> Inl e
     | Inr txt \<Rightarrow> (case from_toml txt of Inl e \<Rightarrow> Inl e | Inr rs \<Rightarrow> Inr (map into_check rs)))"

section \<open>Properties\<close>

lemma run_check_fold:
  "fold (run_check now) ks s =
    s\<lparr>checks_passed := checks_passed s + length (filter passed ks),
      checks_failed := checks_failed s + length (filter (\<lambda>k. \<not> passed k \<and> min_severity s \<le> cc_severity k) ks),
      violations := violations s @ map (violation_of now) (filter (\<lambda>k. \<not> passed k \<and> min_severity s \<le> cc_severity k) ks)\<rparr>"
proof (induction ks arbitrary: s)
  case (Cons k ks)
  show ?case
    by (simp add: Cons run_check_def [of now k s])
qed simp

text \<open>What a run of the checks leaves.  The violations are the failed checks of at least the minimal severity,
  in order and unresolved, whatever was there before; passed and failed counts add up to the total only if no
  failed check is below that severity, and the score lies between 0 and 100 and counts those silent failures against it:
  it is 100 exactly when every check passed.\<close>

theorem run_checks_spec:
  assumes "s' = run_checks fmt now s"
  shows "(violations s' = map (violation_of (fmt now)) (filter (\<lambda>k. \<not> passed k \<and> min_severity s \<le> cc_severity k) (checks s))) \<and>
     (checks_passed s' + checks_failed s' +
      length (filter (\<lambda>k. \<not> passed k \<and> cc_severity k < min_severity s) (checks s)) = checks_total s') \<and>
     (0 \<le> compliance_score s' \<and> compliance_score s' \<le> 100) \<and>
     (compliance_score s' = 100 \<longleftrightarrow> list_all passed (checks s))"
proof (rule conjI [OF _ conjI [OF _ conjI]])
  let ?p = "length (filter passed (checks s))" and ?n = "length (checks s)"
  have s': "violations s' = map (violation_of (fmt now)) (filter (\<lambda>k. \<not> passed k \<and> min_severity s \<le> cc_severity k) (checks s))"
    "checks_passed s' = ?p" "checks_total s' = ?n"
    "checks_failed s' = length (filter (\<lambda>k. \<not> passed k \<and> min_severity s \<le> cc_severity k) (checks s))"
    "compliance_score s' = (if 0 < ?n then of_nat ?p / of_nat ?n * 100 else 100)"
    using assms by (simp_all add: run_checks_def run_check_fold Let_def)
  have split: "length (filter passed ks) + length (filter (\<lambda>k. \<not> passed k \<and> min_severity s \<le> cc_severity k) ks) +
      length (filter (\<lambda>k. \<not> passed k \<and> cc_severity k < min_severity s) ks) = length ks" for ks
    by (induction ks) auto
  show "violations s' = map (violation_of (fmt now)) (filter (\<lambda>k. \<not> passed k \<and> min_severity s \<le> cc_severity k) (checks s))"
    by (rule s'(1))
  show "checks_passed s' + checks_failed s' +
      length (filter (\<lambda>k. \<not> passed k \<and> cc_severity k < min_severity s) (checks s)) = checks_total s'"
    unfolding s' by (rule split)
  have le: "?p \<le> ?n"
    by (rule length_filter_le)
  then show "0 \<le> compliance_score s' \<and> compliance_score s' \<le> 100"
    unfolding s'(5) by (simp add: field_simps)
  have "?p = ?n \<longleftrightarrow> list_all passed (checks s)"
    by (metis filter_True length_filter_less less_irrefl list_all_iff)
  moreover have "compliance_score s' = 100 \<longleftrightarrow> ?p = ?n"
    unfolding s'(5) using le by (auto simp: field_simps)
  ultimately show "compliance_score s' = 100 \<longleftrightarrow> list_all passed (checks s)"
    by simp
qed

definition sample_check :: "bool \<Rightarrow> severity \<Rightarrow> compliance_check" where
  "sample_check ok x = (rule ''cis'' ''C-1'' ''d'' x ''r'')\<lparr>passed := ok\<rparr>"

definition sample_compliance :: compliance_shim where
  "sample_compliance = (compliance_new (\<lambda>_. None))\<lparr>min_severity := High, checks := [sample_check True Low, sample_check False Low]\<rparr>"

theorem run_checks_spec_witness:
  "violations (run_checks (\<lambda>_. []) 0 sample_compliance) = [] \<and> compliance_score (run_checks (\<lambda>_. []) 0 sample_compliance) \<noteq> 100"
  using run_checks_spec [OF refl, of "\<lambda>_. []" 0 sample_compliance]
  by (simp add: sample_compliance_def sample_check_def rule_def less_eq_severity_def)

lemma apply_result_id [simp]: "cc_id (apply_result r k) = cc_id k"
  by (simp add: apply_result_def split: option.splits sum.splits prod.splits)

definition queried_rules :: "string list" where
  "queried_rules = [''CIS-POSTGRES-001'', ''CIS-POSTGRES-002'', ''CIS-POSTGRES-003'', ''CIS-POSTGRES-005'', ''CIS-POSTGRES-011'',
     ''CIS-MYSQL-001'', ''CIS-MYSQL-004'']"

lemma unqueried_rule:
  "cc_id k \<notin> set queried_rules \<Longrightarrow> check_postgres_rule c k = k \<and> check_mariadb_rule c k = k"
  by (simp add: check_postgres_rule_def check_mariadb_rule_def postgres_result_def mariadb_result_def apply_result_def
      queried_rules_def)

lemma rules_unchecked: "k \<in> set (generate_cis_checks s) \<Longrightarrow> \<not> passed k"
  by (auto simp: generate_cis_checks_def postgres_cis_rules_def mariadb_cis_rules_def redis_stig_rules_def rule_def
      split: if_splits)

lemma filter_queried:
  "length (filter (\<lambda>i. i \<in> set queried_rules) (map cc_id (postgres_cis_rules bm))) = 5"
  "length (filter (\<lambda>i. i \<in> set queried_rules) (map cc_id (mariadb_cis_rules bm))) = 2"
  "length (postgres_cis_rules bm) = 12" "length (mariadb_cis_rules bm) = 8"
  by (simp_all add: postgres_cis_rules_def mariadb_cis_rules_def rule_def queried_rules_def)

lemma passed_at_most:
  assumes "\<And>k. k \<in> set ks \<Longrightarrow> \<not> passed k" "\<And>k. cc_id k \<notin> set queried_rules \<Longrightarrow> f k = k"
  shows "length (filter passed (map f ks)) \<le> length (filter (\<lambda>i. i \<in> set queried_rules) (map cc_id ks))"
  using assms(1)
proof (induction ks)
  case (Cons k ks)
  then show ?case
    using assms(2) [of k] by (cases "cc_id k \<in> set queried_rules") auto
qed simp

text \<open>Most rules are never evaluated.  Whatever the database answers, at most five of the twelve PostgreSQL rules, two of
  the eight MariaDB rules and none of the Redis rules can be reported as passed: the
  others keep their initial state, failed and without evidence.\<close>

theorem database_checks_capped:
  assumes "db_type s \<in> {''postgres'', ''mariadb'', ''mysql'', ''redis''}"
  shows "(length (filter passed (run_database_checks connect url s)) \<le>
      (if db_type s = ''postgres'' then 5 else if db_type s = ''redis'' then 0 else 2)) \<and>
     (length (run_database_checks connect url s) = (if db_type s = ''postgres'' then 12 else 8))"
proof (rule conjI)
  have none: "length (filter passed (generate_cis_checks s)) = 0"
    using rules_unchecked by (simp add: filter_empty_conv)
  have f: "length (filter passed (map (check_postgres_rule c) (generate_cis_checks s))) \<le>
      length (filter (\<lambda>i. i \<in> set queried_rules) (map cc_id (generate_cis_checks s)))"
    "length (filter passed (map (check_mariadb_rule c) (generate_cis_checks s))) \<le>
      length (filter (\<lambda>i. i \<in> set queried_rules) (map cc_id (generate_cis_checks s)))" for c
    using rules_unchecked unqueried_rule by (intro passed_at_most; blast)+
  have gen: "db_type s = ''postgres'' \<Longrightarrow> generate_cis_checks s = postgres_cis_rules (benchmark s)"
    "db_type s = ''mariadb'' \<or> db_type s = ''mysql'' \<Longrightarrow> generate_cis_checks s = mariadb_cis_rules (benchmark s)"
    "db_type s = ''redis'' \<Longrightarrow> generate_cis_checks s = redis_stig_rules (benchmark s)"
    by (auto simp: generate_cis_checks_def)
  consider (pg) "db_type s = ''postgres''" | (my) "db_type s = ''mariadb'' \<or> db_type s = ''mysql''" | (rd) "db_type s = ''redis''"
    using assms by auto
  then show "length (filter passed (run_database_checks connect url s)) \<le>
      (if db_type s = ''postgres'' then 5 else if db_type s = ''redis'' then 0 else 2)"
  proof cases
    case pg
    then show ?thesis
      using none f(1) [unfolded gen(1) [OF pg] filter_queried]
      by (cases "connect url") (auto simp: run_database_checks_def gen(1) [OF pg])
  next
    case my
    then show ?thesis
      using none f(2) [unfolded gen(2) [OF my] filter_queried]
      by (cases "connect url") (auto simp: run_database_checks_def gen(2) [OF my])
  next
    case rd
    then show ?thesis
      using none by (simp add: run_database_checks_def)
  qed
  show "length (run_database_checks connect url s) = (if db_type s = ''postgres'' then 12 else 8)"
    using assms gen filter_queried(3,4)
    by (auto simp: run_database_checks_def Let_def redis_stig_rules_def split: option.splits)
qed

theorem database_checks_capped_witness:
  "length (filter passed (run_database_checks (\<lambda>_. Some \<lparr>query_int = (\<lambda>_. Inr 0), query_str = (\<lambda>_. Inr ''on'')\<rparr>) ''u''
     (compliance_new (\<lambda>_. None)))) \<le> 5"
  using database_checks_capped [of "compliance_new (\<lambda>_. None)"] by (simp add: compliance_new_def env_str_def)

end
