(* ===== verification/Cdc.thy ===== *)
theory Cdc
  imports Prelude
begin

text \<open>
  \<^verbatim>\<open>cdc-shim\<close>: capture of change events into a pending list, publication of batches by webhook or
  log, the write-ahead-log position, and the three polling loops (PostgreSQL, MariaDB, Redis),
  one function per pass.  The JSON writer of \<^verbatim>\<open>serde_json\<close>, the retry helper \<^verbatim>\<open>with_backoff\<close> of
  \<^verbatim>\<open>loop_retry\<close>, HTTP replies, query results and the Redis server are parameters.  A clock read
  is given by its two renderings, RFC 3339 text and milliseconds.
\<close>

section \<open>Data\<close>

definition WAL_SEGMENT_SIZE :: u64 where "WAL_SEGMENT_SIZE = 0x1000000"
definition DEFAULT_RING_CAPACITY :: nat where "DEFAULT_RING_CAPACITY = 1000"

datatype webhook_error = Http nat | HttpRetryable nat | Transport string

definition webhook_error_display :: "webhook_error \<Rightarrow> string" where
  "webhook_error_display e =
    (case e of Http st \<Rightarrow> ''HTTP '' @ show_nat st
     | HttpRetryable st \<Rightarrow> ''HTTP '' @ show_nat st @ '' (retryable)''
     | Transport msg \<Rightarrow> msg)"

definition is_retryable :: "webhook_error \<Rightarrow> bool" where
  "is_retryable e = (case e of Http _ \<Rightarrow> False | _ \<Rightarrow> True)"

datatype cdc_operation = Insert | Update | Delete

definition operation_display :: "cdc_operation \<Rightarrow> string" where
  "operation_display c = (case c of Insert \<Rightarrow> ''insert'' | Update \<Rightarrow> ''update'' | Delete \<Rightarrow> ''delete'')"

definition operation_from_str :: "string \<Rightarrow> string + cdc_operation" where
  "operation_from_str s =
    (let l = to_lowercase s in
     if l = ''insert'' \<or> l = ''i'' then Inr Insert
     else if l = ''update'' \<or> l = ''u'' then Inr Update
     else if l = ''delete'' \<or> l = ''d'' then Inr Delete
     else Inl (''Unknown CDC operation: '' @ s))"

record cdc_event =
  event_id :: string
  ev_lsn :: string
  timestamp :: string
  table :: string
  operation :: cdc_operation
  before :: "json option"
  after :: "json option"
  published :: bool

record wal_position =
  lsn :: string
  segment :: u64
  offset :: u64
  last_flush :: string

record cdc_stats =
  st_captured :: nat
  st_published :: nat
  st_failed :: nat
  events_by_table :: "(string, nat) hmap"
  events_by_operation :: "(string, nat) hmap"
  st_lag_seconds :: f64

record cdc_shim =
  output_kind :: string
  tables :: "string list"
  event_format :: string
  compression :: string
  kafka_brokers :: "string option"
  kafka_topic :: "string option"
  webhook_url :: "string option"
  db_type :: string
  batch_size :: nat
  publish_interval_secs :: nat
  events_captured :: nat
  events_published :: nat
  events_failed :: nat
  lag_seconds :: f64
  wal :: wal_position
  pending_events :: "cdc_event list"
  published_ring :: "cdc_event list"
  ring_capacity :: nat
  event_counter :: nat
  table_filter_enabled :: bool
  http_client :: bool
  shutdown_tx :: bool

text \<open>A clock read: its RFC 3339 text and its milliseconds since the epoch.\<close>

record clock =
  rfc3339 :: string
  millis :: nat

section \<open>Capture\<close>

definition cdc_new :: "env \<Rightarrow> clock \<Rightarrow> cdc_shim" where
  "cdc_new env t =
    (let tbls = split_commas (env_str env ''CDC_TABLES'' []) in
     \<lparr>output_kind = env_str env ''CDC_OUTPUT'' ''kafka'', tables = tbls,
      event_format = env_str env ''CDC_FORMAT'' ''json'',
      compression = env_str env ''CDC_COMPRESSION'' ''none'',
      kafka_brokers = env ''CDC_KAFKA_BROKERS'', kafka_topic = env ''CDC_KAFKA_TOPIC'',
      webhook_url = env ''CDC_WEBHOOK_URL'', db_type = env_str env ''CDC_DB_TYPE'' ''postgres'',
      batch_size = env_uint 64 env ''CDC_BATCH_SIZE'' 100,
      publish_interval_secs = env_uint 64 env ''CDC_PUBLISH_INTERVAL'' 10,
      events_captured = 0, events_published = 0, events_failed = 0, lag_seconds = 0,
      wal = \<lparr>lsn = ''0/0'', segment = 0, offset = 0, last_flush = rfc3339 t\<rparr>,
      pending_events = [], published_ring = [], ring_capacity = DEFAULT_RING_CAPACITY,
      event_counter = 0, table_filter_enabled = (tbls \<noteq> []),
      http_client = False, shutdown_tx = False\<rparr>)"

definition should_capture :: "string \<Rightarrow> cdc_shim \<Rightarrow> bool" where
  "should_capture tbl s =
    (\<not> table_filter_enabled s \<or> list_ex (\<lambda>t. eq_ignore_ascii_case t tbl) (tables s))"

definition create_event ::
  "clock \<Rightarrow> string \<Rightarrow> cdc_operation \<Rightarrow> json option \<Rightarrow> json option \<Rightarrow> cdc_shim \<Rightarrow> cdc_shim \<times> cdc_event" where
  "create_event t tbl opr bef aft s =
    (let s1 = s\<lparr>event_counter := event_counter s + 1\<rparr> in
     (s1, \<lparr>event_id = ''cdc-'' @ show_nat_pad 10 (event_counter s1), ev_lsn = lsn (wal s1),
           timestamp = rfc3339 t, table = tbl, operation = opr, before = bef, after = aft,
           published = False\<rparr>))"

definition capture :: "cdc_event \<Rightarrow> cdc_shim \<Rightarrow> cdc_shim \<times> bool" where
  "capture e s =
    (if \<not> should_capture (table e) s then (s, False)
     else (s\<lparr>events_captured := events_captured s + 1,
             pending_events := pending_events s @ [e\<lparr>ev_lsn := lsn (wal s)\<rparr>]\<rparr>, True))"

section \<open>Publication\<close>

text \<open>What the code knows of \<^verbatim>\<open>with_backoff\<close>: it runs the attempt, given by its number, up to
  \<^verbatim>\<open>max_retries\<close> more times.\<close>

record retry_config =
  max_retries :: nat
  initial_delay :: time
  max_delay :: time
  backoff_multiplier :: f64
  jitter :: bool

type_synonym backoff = "retry_config \<Rightarrow> (nat \<Rightarrow> webhook_error + unit) \<Rightarrow> webhook_error + unit"

datatype http_reply = SendError string | Status nat

text \<open>The environment of a publication: the JSON writer, the retry helper, and the reply to the
  request with the given event number, attempt, URL and body.\<close>

record transport =
  to_json :: "cdc_event \<Rightarrow> string + string"
  with_backoff :: backoff
  post :: "nat \<Rightarrow> nat \<Rightarrow> string \<Rightarrow> string \<Rightarrow> http_reply"

definition is_success :: "nat \<Rightarrow> bool" where
  "is_success st = (200 \<le> st \<and> st < 300)"

definition serialize_event :: "transport \<Rightarrow> cdc_event \<Rightarrow> string + string" where
  "serialize_event tr e = to_json tr e"

definition webhook_retry_config :: retry_config where
  "webhook_retry_config =
    \<lparr>max_retries = 2, initial_delay = second, max_delay = 4 * second, backoff_multiplier = 2,
     jitter = False\<rparr>"

definition webhook_attempt :: "http_reply \<Rightarrow> webhook_error + unit" where
  "webhook_attempt r =
    (case r of SendError e \<Rightarrow> Inl (Transport e)
     | Status st \<Rightarrow>
         (if is_success st then Inr ()
          else if st = 429 \<or> 500 \<le> st then Inl (HttpRetryable st) else Inl (Http st)))"

text \<open>The events of a batch that the endpoint accepted, one after the other.\<close>

definition webhook_delivers :: "transport \<Rightarrow> string \<Rightarrow> nat \<Rightarrow> cdc_event \<Rightarrow> bool" where
  "webhook_delivers tr url i e =
    (case serialize_event tr e of Inl _ \<Rightarrow> False
     | Inr payload \<Rightarrow>
         (case with_backoff tr webhook_retry_config (\<lambda>k. webhook_attempt (post tr i k url payload)) of
            Inl _ \<Rightarrow> False | Inr _ \<Rightarrow> True))"

fun webhook_loop :: "transport \<Rightarrow> string \<Rightarrow> nat \<Rightarrow> cdc_event list \<Rightarrow> nat \<Rightarrow> nat" where
  "webhook_loop tr url i [] acc = acc"
| "webhook_loop tr url i (e # es) acc =
    webhook_loop tr url (Suc i) es (if webhook_delivers tr url i e then acc + 1 else acc)"

definition publish_via_webhook :: "transport \<Rightarrow> cdc_shim \<Rightarrow> cdc_event list \<Rightarrow> nat" where
  "publish_via_webhook tr s es =
    (case webhook_url s of None \<Rightarrow> 0
     | Some url \<Rightarrow> (if \<not> http_client s then 0 else webhook_loop tr url 0 es 0))"

definition push_to_ring :: "cdc_event \<Rightarrow> cdc_shim \<Rightarrow> cdc_shim" where
  "push_to_ring e s =
    (let r = (if ring_capacity s \<le> length (published_ring s) then tl (published_ring s)
              else published_ring s)
     in s\<lparr>published_ring := r @ [e]\<rparr>)"

definition mark_webhook :: "nat \<Rightarrow> cdc_event \<Rightarrow> cdc_shim \<Rightarrow> cdc_shim" where
  "mark_webhook n e s =
    (if 0 < n then push_to_ring e (s\<lparr>events_published := events_published s + 1\<rparr>)
     else s\<lparr>events_failed := events_failed s + 1\<rparr>)"

definition mark_logged :: "transport \<Rightarrow> cdc_event \<Rightarrow> cdc_shim \<Rightarrow> cdc_shim" where
  "mark_logged tr e s =
    push_to_ring e
      (case serialize_event tr e of
         Inr _ \<Rightarrow> s\<lparr>events_published := events_published s + 1\<rparr>
       | Inl _ \<Rightarrow> s\<lparr>events_failed := events_failed s + 1\<rparr>)"

definition publish_batch :: "transport \<Rightarrow> clock \<Rightarrow> cdc_shim \<Rightarrow> cdc_shim \<times> nat" where
  "publish_batch tr t s =
    (let n = min (batch_size s) (length (pending_events s));
         batch = take n (pending_events s);
         s1 = s\<lparr>pending_events := drop n (pending_events s)\<rparr>
     in if batch = [] then (s1, 0)
        else (let s2 = (if output_kind s1 = ''webhook''
                        then fold (mark_webhook (publish_via_webhook tr s1 batch)) batch s1
                        else fold (mark_logged tr) batch s1)
              in (s2\<lparr>wal := (wal s2)\<lparr>last_flush := rfc3339 t\<rparr>\<rparr>, length batch)))"

definition fail_pending :: "cdc_shim \<Rightarrow> cdc_shim \<times> nat" where
  "fail_pending s =
    (let count = length (pending_events s) in
     (s\<lparr>events_failed := events_failed s + count, pending_events := []\<rparr>, count))"

text \<open>The transports that nothing calls: Kafka by its REST proxy, NATS by HTTP, the log.\<close>

definition publish_via_log :: "transport \<Rightarrow> cdc_event list \<Rightarrow> nat" where
  "publish_via_log tr es =
    length (filter (\<lambda>e. case to_json tr e of Inr _ \<Rightarrow> True | Inl _ \<Rightarrow> False) es)"

definition replied_success :: "http_reply \<Rightarrow> bool" where
  "replied_success r = (case r of Status st \<Rightarrow> is_success st | SendError _ \<Rightarrow> False)"

fun rest_loop :: "transport \<Rightarrow> (cdc_event \<Rightarrow> string \<Rightarrow> string) \<Rightarrow> string option \<Rightarrow> nat \<Rightarrow> cdc_event list \<Rightarrow> nat \<Rightarrow> nat" where
  "rest_loop tr body url i [] acc = acc"
| "rest_loop tr body url i (e # es) acc =
    rest_loop tr body url (Suc i) es
      (case to_json tr e of Inl _ \<Rightarrow> acc
       | Inr payload \<Rightarrow>
           (case url of None \<Rightarrow> acc + 1
            | Some u \<Rightarrow> if replied_success (post tr i 0 u (body e payload)) then acc + 1 else acc))"

definition publish_via_kafka :: "transport \<Rightarrow> (string \<Rightarrow> string) \<Rightarrow> env \<Rightarrow> cdc_event list \<Rightarrow> nat" where
  "publish_via_kafka tr records env es =
    (case env ''CDC_KAFKA_BROKERS'' of None \<Rightarrow> publish_via_log tr es
     | Some _ \<Rightarrow>
         (case env ''CDC_KAFKA_TOPIC'' of None \<Rightarrow> publish_via_log tr es
          | Some topic \<Rightarrow>
              rest_loop tr (\<lambda>_. records)
                (map_option (\<lambda>u. u @ ''/topics/'' @ topic) (env ''CDC_KAFKA_REST_URL'')) 0 es 0))"

definition publish_via_nats :: "transport \<Rightarrow> env \<Rightarrow> cdc_event list \<Rightarrow> nat" where
  "publish_via_nats tr env es =
    (case env ''CDC_NATS_URL'' of None \<Rightarrow> publish_via_log tr es
     | Some u \<Rightarrow>
         rest_loop tr (\<lambda>_ p. p)
           (Some (u @ ''/pub/'' @ env_str env ''CDC_NATS_SUBJECT'' ''cdc.events'')) 0 es 0)"

section \<open>Positions and statistics\<close>

definition set_wal_position :: "clock \<Rightarrow> string \<Rightarrow> u64 \<Rightarrow> u64 \<Rightarrow> cdc_shim \<Rightarrow> cdc_shim" where
  "set_wal_position t l sg off s =
    s\<lparr>wal := \<lparr>lsn = l, segment = sg, offset = off, last_flush = rfc3339 t\<rparr>\<rparr>"

definition advance_wal :: "u64 \<Rightarrow> cdc_shim \<Rightarrow> cdc_shim" where
  "advance_wal delta s =
    (let w = (wal s)\<lparr>offset := offset (wal s) + delta\<rparr>;
         w1 = (if WAL_SEGMENT_SIZE \<le> offset w then w\<lparr>segment := segment w + 1, offset := 0\<rparr> else w)
     in s\<lparr>wal := w1\<lparr>lsn := show_nat (unat (segment w1)) @ ''/'' @ show_nat (unat (offset w1))\<rparr>\<rparr>)"

definition set_lag :: "f64 \<Rightarrow> cdc_shim \<Rightarrow> cdc_shim" where
  "set_lag sec s = s\<lparr>lag_seconds := sec\<rparr>"

definition pending_count :: "cdc_shim \<Rightarrow> nat" where
  "pending_count s = length (pending_events s)"

definition stats :: "cdc_shim \<Rightarrow> cdc_stats" where
  "stats s =
    \<lparr>st_captured = events_captured s, st_published = events_published s, st_failed = events_failed s,
     events_by_table = fold (\<lambda>e m. hm_bump (table e) m) (pending_events s) [],
     events_by_operation = fold (\<lambda>e m. hm_bump (operation_display (operation e)) m) (pending_events s) [],
     st_lag_seconds = lag_seconds s\<rparr>"

definition recent_published :: "cdc_shim \<Rightarrow> cdc_event list" where
  "recent_published s = published_ring s"

section \<open>Polling\<close>

unbundle bit_operations_syntax

definition parse_lsn :: "string \<Rightarrow> u64" where
  "parse_lsn l =
    (let parts = split_on (CHR ''/'') l in
     if length parts = 2 then
       (case (parse_uint 64 (parts ! 0), parse_uint 64 (parts ! 1)) of
          (Some upper, Some lower) \<Rightarrow> push_bit 32 (of_nat upper) OR of_nat lower
        | _ \<Rightarrow> 0)
     else 0)"

definition poll_interval :: "env \<Rightarrow> nat \<Rightarrow> nat" where
  "poll_interval env d = env_uint 64 env ''CDC_POLL_INTERVAL_SECS'' d"

text \<open>Connecting and creating the replication slot; the database is the connect call, the query
  for the slot and the statement that creates it.  The result is the slot, the interval and
  whether the slot was created.\<close>

definition pg_setup ::
  "env \<Rightarrow> (string \<Rightarrow> string option) \<Rightarrow> (string \<Rightarrow> string + bool) \<Rightarrow> (string \<Rightarrow> string option) \<Rightarrow>
    string + string \<times> nat \<times> bool" where
  "pg_setup env connect slot_exists execute =
    (case env ''CDC_DB_URL'' of None \<Rightarrow> Inl ''CDC_DB_URL not set''
     | Some db_url \<Rightarrow>
         (let slot = env_str env ''CDC_SLOT'' ''evergreen_cdc_slot'' in
          case connect db_url of Some e \<Rightarrow> Inl e
          | None \<Rightarrow>
              (case slot_exists slot of Inl e \<Rightarrow> Inl e
               | Inr True \<Rightarrow> Inr (slot, poll_interval env 1, False)
               | Inr False \<Rightarrow>
                   (case execute (''SELECT pg_create_logical_replication_slot('' @ [CHR 39] @ slot @
                                  [CHR 39] @ '', '' @ [CHR 39] @ ''pgoutput'' @ [CHR 39] @ '')'') of
                      Some e \<Rightarrow> Inl e
                    | None \<Rightarrow> Inr (slot, poll_interval env 1, True)))))"

text \<open>The PostgreSQL loop: what it does with the rows of the query, and one pass (an error of the
  query ends the loop).  The position seen last is a local variable.\<close>

definition pg_observe :: "clock \<Rightarrow> string list \<Rightarrow> u64 \<times> cdc_shim \<Rightarrow> u64 \<times> cdc_shim" where
  "pg_observe t rows st =
    (case rows of [] \<Rightarrow> st
     | l # _ \<Rightarrow>
         (let pos = fst st; new_position = parse_lsn l in
          if pos < new_position then
            (new_position,
             fst (capture
               \<lparr>event_id = ''pg-cdc-'' @ show_nat (millis t), ev_lsn = l,
                timestamp = rfc3339 t, table = ''pg_stat_replication'', operation = Update,
                before = None,
                after = Some (JObj [(''lsn'', JStr l),
                          (''bytes_advanced'', JNum (uint (new_position - pos)))]),
                published = False\<rparr> (snd st)))
          else st))"

definition pg_pass ::
  "transport \<Rightarrow> clock \<Rightarrow> string + string list \<Rightarrow> u64 \<times> cdc_shim \<Rightarrow> string + u64 \<times> cdc_shim" where
  "pg_pass tr t rows st =
    (case rows of Inl e \<Rightarrow> Inl e
     | Inr rs \<Rightarrow> (let st1 = pg_observe t rs st in Inr (fst st1, fst (publish_batch tr t (snd st1)))))"

definition mariadb_setup :: "env \<Rightarrow> (string \<Rightarrow> string option) \<Rightarrow> string + nat" where
  "mariadb_setup env connect =
    (case env ''CDC_DB_URL'' of None \<Rightarrow> Inl ''CDC_DB_URL not set''
     | Some db_url \<Rightarrow>
         (case connect db_url of Some e \<Rightarrow> Inl e | None \<Rightarrow> Inr (poll_interval env 1)))"

definition mariadb_observe :: "clock \<Rightarrow> string list \<Rightarrow> nat \<times> cdc_shim \<Rightarrow> nat \<times> cdc_shim" where
  "mariadb_observe t rows st =
    (case rows of [] \<Rightarrow> st
     | file_pos # _ \<Rightarrow>
         (let last_pos = fst st; parts = split_on (CHR 0x09) file_pos in
          if 2 \<le> length parts then
            (case parse_uint 64 (parts ! 1) of None \<Rightarrow> st
             | Some pos \<Rightarrow>
                 (if last_pos < pos then
                    (pos,
                     fst (capture
                       \<lparr>event_id = ''mysql-cdc-'' @ show_nat (millis t),
                        ev_lsn = parts ! 0 @ '':'' @ show_nat pos, timestamp = rfc3339 t,
                        table = ''binlog'', operation = Update, before = None,
                        after = Some (JObj [(''binlog_file'', JStr (parts ! 0)),
                                  (''position'', JNum (int pos)),
                                  (''bytes_advanced'', JNum (int (pos - last_pos)))]),
                        published = False\<rparr> (snd st)))
                  else st))
          else st))"

definition mariadb_pass ::
  "transport \<Rightarrow> clock \<Rightarrow> string + string list \<Rightarrow> nat \<times> cdc_shim \<Rightarrow> string + nat \<times> cdc_shim" where
  "mariadb_pass tr t rows st =
    (case rows of Inl e \<Rightarrow> Inl e
     | Inr rs \<Rightarrow> (let st1 = mariadb_observe t rs st in Inr (fst st1, fst (publish_batch tr t (snd st1)))))"

text \<open>The Redis server: replies to \<^verbatim>\<open>SCAN\<close> (cursor and keys), \<^verbatim>\<open>TTL\<close> and \<^verbatim>\<open>TYPE\<close>; no value is a failed
  call.  Its state changes with every call.\<close>

record 'r redis_server =
  scan :: "nat \<Rightarrow> string \<Rightarrow> 'r \<Rightarrow> (nat \<times> string list) option \<times> 'r"
  ttl_of :: "string \<Rightarrow> 'r \<Rightarrow> int option \<times> 'r"
  type_of :: "string \<Rightarrow> 'r \<Rightarrow> string option \<times> 'r"

type_synonym 'r redis_state = "(string, string) hmap \<times> cdc_shim \<times> 'r"

definition redis_key :: "'r redis_server \<Rightarrow> clock \<Rightarrow> string \<Rightarrow> 'r redis_state \<Rightarrow> 'r redis_state" where
  "redis_key srv t key st =
    (let (prev, s, r) = st;
         (ttl, r1) = ttl_of srv key r; ttlv = (case ttl of Some v \<Rightarrow> v | None \<Rightarrow> -1);
         (ty, r2) = type_of srv key r1; val_type = (case ty of Some v \<Rightarrow> v | None \<Rightarrow> []);
         checksum = val_type @ '':'' @ show_int ttlv
     in if map_of prev key = Some checksum then (prev, s, r2)
        else (hm_insert key checksum prev,
              fst (capture
                \<lparr>event_id = ''redis-cdc-'' @ show_nat (millis t), ev_lsn = ''redis:'' @ key,
                 timestamp = rfc3339 t, table = ''redis'',
                 operation = (if map_of prev key = None then Insert else Update),
                 before = map_option (\<lambda>c. JObj [(''checksum'', JStr c)]) (map_of prev key),
                 after = Some (JObj [(''key'', JStr key), (''type'', JStr val_type),
                                     (''ttl'', JNum ttlv)]),
                 published = False\<rparr> s), r2))"

definition scan_page ::
  "'r redis_server \<Rightarrow> clock \<Rightarrow> string \<Rightarrow> nat \<Rightarrow> 'r redis_state \<Rightarrow> nat \<times> 'r redis_state" where
  "scan_page srv t pattern cursor st =
    (let (prev, s, r) = st;
         (reply, r1) = scan srv cursor pattern r;
         (cursor1, keys) = (case reply of Some x \<Rightarrow> x | None \<Rightarrow> (0, []))
     in (cursor1, fold (redis_key srv t) keys (prev, s, r1)))"

partial_function (option) redis_scan ::
  "'r redis_server \<Rightarrow> clock \<Rightarrow> string \<Rightarrow> nat \<Rightarrow> 'r redis_state \<Rightarrow> 'r redis_state option" where
  "redis_scan srv t pattern cursor st =
    (let page = scan_page srv t pattern cursor st in
     if fst page = 0 then Some (snd page) else redis_scan srv t pattern (fst page) (snd page))"

fun redis_patterns :: "'r redis_server \<Rightarrow> clock \<Rightarrow> string list \<Rightarrow> 'r redis_state \<Rightarrow> 'r redis_state option" where
  "redis_patterns srv t [] st = Some st"
| "redis_patterns srv t (p # ps) st =
    (case redis_scan srv t p 0 st of None \<Rightarrow> None | Some st1 \<Rightarrow> redis_patterns srv t ps st1)"

definition redis_setup :: "env \<Rightarrow> (string \<Rightarrow> string option) \<Rightarrow> string + string list \<times> nat" where
  "redis_setup env connect =
    (case connect (env_str env ''CDC_REDIS_URL'' ''redis://localhost:6379'') of Some e \<Rightarrow> Inl e
     | None \<Rightarrow> Inr (map trim (split_on (CHR '','') (env_str env ''CDC_REDIS_PATTERNS'' ''*'')),
                    poll_interval env 5))"

definition redis_pass ::
  "transport \<Rightarrow> 'r redis_server \<Rightarrow> clock \<Rightarrow> string list \<Rightarrow> 'r redis_state \<Rightarrow> 'r redis_state option" where
  "redis_pass tr srv t patterns st =
    (case redis_patterns srv t patterns st of None \<Rightarrow> None
     | Some (prev, s, r) \<Rightarrow> Some (prev, fst (publish_batch tr t s), r))"

section \<open>Capability\<close>

definition cdc_init :: "string option \<Rightarrow> cdc_shim \<Rightarrow> string + cdc_shim" where
  "cdc_init build_error s =
    (if output_kind s = ''webhook'' then
       (case build_error of
          Some e \<Rightarrow> Inl (''Failed to create HTTP client: '' @ e)
        | None \<Rightarrow> Inr (s\<lparr>http_client := True\<rparr>))
     else Inr s)"

definition cdc_start :: "cdc_shim \<Rightarrow> cdc_shim" where
  "cdc_start s = s\<lparr>shutdown_tx := True\<rparr>"

definition cdc_stop :: "cdc_shim \<Rightarrow> cdc_shim" where
  "cdc_stop s = s\<lparr>shutdown_tx := False\<rparr>"

definition cdc_metrics :: "cdc_shim \<Rightarrow> metric list" where
  "cdc_metrics s =
    [(''cdc_events_captured_total'', of_nat (events_captured s)),
     (''cdc_events_published_total'', of_nat (events_published s)),
     (''cdc_events_failed_total'', of_nat (events_failed s)),
     (''cdc_lag_seconds'', lag_seconds s),
     (''cdc_pending_events'', of_nat (length (pending_events s)))]"

section \<open>Runs\<close>

datatype 'r cdc_op =
    Create clock string cdc_operation "json option" "json option"
  | Capture cdc_event
  | Publish transport clock
  | FailPending
  | SetWal clock string u64 u64
  | AdvanceWal u64
  | SetLag f64
  | Init "string option"
  | Start
  | Stop
  | PgPass transport clock "string + string list" u64
  | MariadbPass transport clock "string + string list" nat
  | RedisPass transport "'r redis_server" clock "string list" "(string, string) hmap" 'r

fun cdc_exec :: "'r cdc_op \<Rightarrow> cdc_shim \<Rightarrow> cdc_shim" where
  "cdc_exec (Create t tbl opr bef aft) s = fst (create_event t tbl opr bef aft s)"
| "cdc_exec (Capture e) s = fst (capture e s)"
| "cdc_exec (Publish tr t) s = fst (publish_batch tr t s)"
| "cdc_exec FailPending s = fst (fail_pending s)"
| "cdc_exec (SetWal t l sg off) s = set_wal_position t l sg off s"
| "cdc_exec (AdvanceWal d) s = advance_wal d s"
| "cdc_exec (SetLag x) s = set_lag x s"
| "cdc_exec (Init b) s = (case cdc_init b s of Inl _ \<Rightarrow> s | Inr s1 \<Rightarrow> s1)"
| "cdc_exec Start s = cdc_start s"
| "cdc_exec Stop s = cdc_stop s"
| "cdc_exec (PgPass tr t rows pos) s =
    (case pg_pass tr t rows (pos, s) of Inl _ \<Rightarrow> s | Inr (_, s1) \<Rightarrow> s1)"
| "cdc_exec (MariadbPass tr t rows pos) s =
    (case mariadb_pass tr t rows (pos, s) of Inl _ \<Rightarrow> s | Inr (_, s1) \<Rightarrow> s1)"
| "cdc_exec (RedisPass tr srv t ps prev r) s =
    (case redis_pass tr srv t ps (prev, s, r) of None \<Rightarrow> s | Some (_, s1, _) \<Rightarrow> s1)"

definition cdc_inv :: "cdc_shim \<Rightarrow> bool" where
  "cdc_inv s =
    (events_captured s = events_published s + events_failed s + length (pending_events s) \<and>
     length (published_ring s) \<le> DEFAULT_RING_CAPACITY \<and> ring_capacity s = DEFAULT_RING_CAPACITY)"

text \<open>What \<^verbatim>\<open>with_backoff\<close> documents: it succeeds when an attempt within the bound succeeds and every
  attempt before it failed in a way that may be retried.\<close>

definition backoff_ok :: "backoff \<Rightarrow> bool" where
  "backoff_ok bk = (\<forall>cfg att. bk cfg att = Inr () \<longleftrightarrow>
     (\<exists>k\<le>max_retries cfg. att k = Inr () \<and> (\<forall>j<k. \<exists>e. att j = Inl e \<and> is_retryable e)))"

text \<open>An event reached the endpoint at attempt \<^verbatim>\<open>k\<close>.\<close>

definition retryable_reply :: "http_reply \<Rightarrow> bool" where
  "retryable_reply r = (case r of SendError _ \<Rightarrow> True | Status st \<Rightarrow> st = 429 \<or> 500 \<le> st)"

definition received_at :: "transport \<Rightarrow> string \<Rightarrow> nat \<Rightarrow> cdc_event \<Rightarrow> nat \<Rightarrow> bool" where
  "received_at tr url i e k =
    (case to_json tr e of Inl _ \<Rightarrow> False
     | Inr p \<Rightarrow> k \<le> 2 \<and> replied_success (post tr i k url p) \<and>
                (\<forall>j<k. retryable_reply (post tr i j url p)))"

section \<open>Lemmas\<close>

lemma push_to_ring_sel [simp]:
  "events_captured (push_to_ring e s) = events_captured s"
  "events_published (push_to_ring e s) = events_published s"
  "events_failed (push_to_ring e s) = events_failed s"
  "pending_events (push_to_ring e s) = pending_events s"
  "ring_capacity (push_to_ring e s) = ring_capacity s"
  by (simp_all add: push_to_ring_def Let_def)

lemma push_to_ring_bound:
  "0 < ring_capacity s \<Longrightarrow> length (published_ring s) \<le> ring_capacity s \<Longrightarrow>
    length (published_ring (push_to_ring e s)) \<le> ring_capacity s"
  by (auto simp: push_to_ring_def Let_def)

text \<open>What publishing one event does to the books, whatever the transport: one count goes up by one.\<close>

definition one_more :: "cdc_shim \<Rightarrow> cdc_shim \<Rightarrow> bool" where
  "one_more s s' =
    (events_captured s' = events_captured s \<and> pending_events s' = pending_events s \<and>
     ring_capacity s' = ring_capacity s \<and>
     events_published s' + events_failed s' = events_published s + events_failed s + 1 \<and>
     (0 < ring_capacity s \<longrightarrow> length (published_ring s) \<le> ring_capacity s \<longrightarrow>
        length (published_ring s') \<le> ring_capacity s))"

lemma mark_one_more: "one_more s (mark_webhook n e s)" "one_more s (mark_logged tr e s)"
  using push_to_ring_bound [of "s\<lparr>events_published := Suc (events_published s)\<rparr>" e]
    push_to_ring_bound [of "s\<lparr>events_failed := Suc (events_failed s)\<rparr>" e]
  by (auto simp: one_more_def mark_webhook_def mark_logged_def split: sum.splits)

lemma fold_one_more:
  "(\<And>e s. one_more s (f e s)) \<Longrightarrow> ring_capacity s = DEFAULT_RING_CAPACITY \<Longrightarrow>
    length (published_ring s) \<le> DEFAULT_RING_CAPACITY \<Longrightarrow>
    events_captured (fold f es s) = events_captured s \<and>
    pending_events (fold f es s) = pending_events s \<and>
    ring_capacity (fold f es s) = DEFAULT_RING_CAPACITY \<and>
    events_published (fold f es s) + events_failed (fold f es s) =
      events_published s + events_failed s + length es \<and>
    length (published_ring (fold f es s)) \<le> DEFAULT_RING_CAPACITY"
proof (induction es arbitrary: s)
  case (Cons e es)
  have "one_more s (f e s)"
    by (rule Cons.prems(1))
  then show ?case
    using Cons.IH [of "f e s"] Cons.prems by (simp add: one_more_def DEFAULT_RING_CAPACITY_def)
qed simp

lemma capture_inv [inv_intros]: "cdc_inv s \<Longrightarrow> cdc_inv (fst (capture e s))"
  by (simp add: capture_def cdc_inv_def)

lemma fold_mark_inv:
  assumes "cdc_inv s" and "pending_events s = es @ rest" and "\<And>e a. one_more a (f e a)"
  shows "cdc_inv (fold f es (s\<lparr>pending_events := rest\<rparr>))"
  using fold_one_more [of f "s\<lparr>pending_events := rest\<rparr>" es, OF assms(3)] assms(1,2)
  by (auto simp: cdc_inv_def)

lemma publish_batch_inv [inv_intros]:
  assumes "cdc_inv s"
  shows "cdc_inv (fst (publish_batch tr t s))"
proof -
  let ?n = "min (batch_size s) (length (pending_events s))"
  let ?b = "take ?n (pending_events s)" and ?s1 = "s\<lparr>pending_events := drop ?n (pending_events s)\<rparr>"
  have inv: "cdc_inv (fold (mark_webhook k) ?b ?s1)" "cdc_inv (fold (mark_logged tr) ?b ?s1)" for k
    by (rule fold_mark_inv [OF assms append_take_drop_id [symmetric]], rule mark_one_more)+
  have "cdc_inv (s2\<lparr>wal := w\<rparr>)" if "cdc_inv s2" for s2 w
    using that by (simp add: cdc_inv_def)
  then show ?thesis
    using inv assms unfolding publish_batch_def Let_def by (simp add: cdc_inv_def)
qed

lemma pg_observe_inv: "cdc_inv (snd st) \<Longrightarrow> cdc_inv (snd (pg_observe t rows st))"
  by (simp add: pg_observe_def Let_def capture_inv split: list.split)

lemma mariadb_observe_inv: "cdc_inv (snd st) \<Longrightarrow> cdc_inv (snd (mariadb_observe t rows st))"
  by (simp add: mariadb_observe_def Let_def capture_inv split: list.split option.split)

text \<open>What holds of the shim and is kept by every key is kept by a scan.\<close>

lemma scan_page_keeps:
  assumes "\<And>key st. P (fst (snd st)) \<Longrightarrow> P (fst (snd (redis_key srv t key st)))" and "P (fst (snd st))"
  shows "P (fst (snd (snd (scan_page srv t p c st))))"
proof -
  have "P (fst (snd (fold (redis_key srv t) keys st)))" if "P (fst (snd st))" for keys st
    using that by (induction keys arbitrary: st) (simp_all add: assms(1))
  then show ?thesis
    using assms(2) by (auto simp: scan_page_def split: prod.split)
qed

lemma redis_scan_keeps:
  assumes "redis_scan srv t p c st = Some st1"
    and keeps: "\<And>key st. P (fst (snd st)) \<Longrightarrow> P (fst (snd (redis_key srv t key st)))" and "P (fst (snd st))"
  shows "P (fst (snd st1))"
  using assms
proof (induction srv t p c st st1 rule: redis_scan.raw_induct [rotated 1, consumes 1])
  case (1 rec srv t p c st st1)
  have "P (fst (snd (snd (scan_page srv t p c st))))"
    by (rule scan_page_keeps [OF 1(3,4)])
  then show ?case
    using 1(1-3) by (auto simp: Let_def split: if_splits)
qed

lemma redis_patterns_keeps:
  assumes "redis_patterns srv t ps st = Some st1"
    and "\<And>key st. P (fst (snd st)) \<Longrightarrow> P (fst (snd (redis_key srv t key st)))" and "P (fst (snd st))"
  shows "P (fst (snd st1))"
  using assms
proof (induction ps arbitrary: st)
  case (Cons p ps)
  then obtain st2 where "redis_scan srv t p 0 st = Some st2" "redis_patterns srv t ps st2 = Some st1"
    by (auto split: option.splits)
  then show ?case
    using Cons.IH [of st2] Cons.prems(2,3) redis_scan_keeps [of srv t p 0 st st2 P] by blast
qed simp

lemma redis_key_inv: "cdc_inv (fst (snd st)) \<Longrightarrow> cdc_inv (fst (snd (redis_key srv t key st)))"
  by (auto simp: redis_key_def Let_def intro: capture_inv split: prod.splits)

lemma redis_pass_inv:
  "redis_pass tr srv t ps (prev, s, r) = Some (prev1, s1, r1) \<Longrightarrow> cdc_inv s \<Longrightarrow> cdc_inv s1"
  using redis_patterns_keeps [where P = cdc_inv and st = "(prev, s, r)", OF _ redis_key_inv]
  by (fastforce simp: redis_pass_def intro: publish_batch_inv split: option.splits)

lemma cdc_exec_inv: "cdc_inv s \<Longrightarrow> cdc_inv (cdc_exec c s)"
proof (cases c)
  case (PgPass tr t rows pos)
  then show "cdc_inv s \<Longrightarrow> ?thesis"
    using pg_observe_inv [of "(pos, s)"] by (auto simp: pg_pass_def Let_def publish_batch_inv split: sum.split)
next
  case (MariadbPass tr t rows pos)
  then show "cdc_inv s \<Longrightarrow> ?thesis"
    using mariadb_observe_inv [of "(pos, s)"] by (auto simp: mariadb_pass_def Let_def publish_batch_inv split: sum.split)
next
  case (RedisPass tr srv t ps prev r)
  then show "cdc_inv s \<Longrightarrow> ?thesis"
    by (auto dest: redis_pass_inv split: option.split)
next
  case (Publish tr t)
  then show "cdc_inv s \<Longrightarrow> ?thesis"
    by (simp add: publish_batch_inv)
qed (auto simp: capture_def create_event_def fail_pending_def set_wal_position_def
    advance_wal_def set_lag_def cdc_init_def cdc_start_def cdc_stop_def cdc_inv_def Let_def split: option.split)

lemma cdc_new_inv: "cdc_inv (cdc_new env t)"
  by (simp add: cdc_inv_def cdc_new_def Let_def)

interpretation cdc: op_system cdc_exec cdc_inv
  by unfold_locales (rule cdc_exec_inv)

lemma webhook_delivers_iff:
  assumes "backoff_ok (with_backoff tr)"
  shows "webhook_delivers tr url i e \<longleftrightarrow> (\<exists>k. received_at tr url i e k)"
proof (cases "to_json tr e")
  case (Inr p)
  have att: "webhook_attempt r = Inr () \<longleftrightarrow> replied_success r"
    "(\<exists>x. webhook_attempt r = Inl x \<and> is_retryable x) \<longleftrightarrow> retryable_reply r" for r
    by (auto simp: webhook_attempt_def replied_success_def retryable_reply_def is_retryable_def is_success_def
        split: http_reply.split)
  have "webhook_delivers tr url i e \<longleftrightarrow>
      with_backoff tr webhook_retry_config (\<lambda>k. webhook_attempt (post tr i k url p)) = Inr ()"
    by (simp add: webhook_delivers_def serialize_event_def Inr split: sum.split)
  also have "\<dots> \<longleftrightarrow> (\<exists>k. received_at tr url i e k)"
    using assms unfolding backoff_ok_def received_at_def Inr by (simp add: webhook_retry_config_def att)
  finally show ?thesis .
qed (simp add: webhook_delivers_def serialize_event_def received_at_def)

lemma webhook_loop_count:
  "webhook_loop tr url i es acc = acc + length (filter (\<lambda>(j, e). webhook_delivers tr url j e) (enumerate i es))"
  by (induction es arbitrary: i acc) simp_all

lemma webhook_loop_pos: "0 < webhook_loop tr url 0 es 0 \<longleftrightarrow> (\<exists>i<length es. webhook_delivers tr url i (es ! i))"
  unfolding webhook_loop_count by (auto simp: filter_empty_conv in_set_enumerate_eq)

lemma fold_mark_webhook:
  "events_published (fold (mark_webhook n) es s) = events_published s + (if 0 < n then length es else 0)"
  "events_failed (fold (mark_webhook n) es s) = events_failed s + (if 0 < n then 0 else length es)"
  by (induction es arbitrary: s) (simp_all add: mark_webhook_def)

section \<open>Properties\<close>

text \<open>C30: No captured event is dropped from the books: whatever sequence of calls and polling passes runs, the
  number of captured events is the number published plus the number failed plus the number still
  pending, and the ring of recent events never holds more than 1000.\<close>

theorem cdc_books:
  assumes "s = fold cdc_exec ops (cdc_new env t)"
  shows "events_captured s = events_published s + events_failed s + pending_count s \<and>
    length (recent_published s) \<le> 1000"
proof -
  have "cdc_inv s"
    unfolding assms by (rule cdc.fold_inv, rule cdc_new_inv)
  then show ?thesis
    by (simp add: cdc_inv_def pending_count_def recent_published_def DEFAULT_RING_CAPACITY_def)
qed

definition sample_clock :: clock where
  "sample_clock = \<lparr>rfc3339 = ''t'', millis = 0\<rparr>"

definition sample_event :: cdc_event where
  "sample_event = \<lparr>event_id = ''e'', ev_lsn = [], timestamp = [], table = ''users'', operation = Insert,
     before = None, after = None, published = False\<rparr>"

theorem cdc_books_witness:
  "events_captured (fold cdc_exec [Capture sample_event, FailPending, Capture sample_event] (cdc_new (\<lambda>_. None) sample_clock)) =
     (2 :: nat) \<and>
   events_failed (fold cdc_exec [Capture sample_event, FailPending, Capture sample_event] (cdc_new (\<lambda>_. None) sample_clock)) = 1 \<and>
   pending_count (fold cdc_exec [Capture sample_event, FailPending, Capture sample_event] (cdc_new (\<lambda>_. None) sample_clock)) = 1"
  using cdc_books [OF refl, of "[Capture sample_event, FailPending, Capture sample_event]" "\<lambda>_. None" sample_clock]
  by (simp add: capture_def should_capture_def fail_pending_def pending_count_def cdc_new_def Let_def env_str_def
      split_commas_def)

text \<open>A webhook batch is booked as a whole.  If the endpoint received at least one event of the batch
  (within three attempts, each earlier one failing with a transport error, 429 or 5xx), all of the batch
  counts as published, also the events that were never received; otherwise all of it counts as failed.\<close>

theorem webhook_batch_booked_whole:
  assumes "backoff_ok (with_backoff tr)" and "output_kind s = ''webhook''"
    and "webhook_url s = Some url" and "http_client s"
    and "batch = take (batch_size s) (pending_events s)" and "batch \<noteq> []"
    and "any \<longleftrightarrow> (\<exists>i<length batch. \<exists>k. received_at tr url i (batch ! i) k)"
  shows "snd (publish_batch tr t s) = length batch \<and>
    events_published (fst (publish_batch tr t s)) = events_published s + (if any then length batch else 0) \<and>
    events_failed (fst (publish_batch tr t s)) = events_failed s + (if any then 0 else length batch)"
proof -
  let ?n = "min (batch_size s) (length (pending_events s))"
  have b: "take ?n (pending_events s) = batch"
    using assms(5) by (cases "batch_size s \<le> length (pending_events s)") simp_all
  have p: "0 < publish_via_webhook tr (s\<lparr>pending_events := rest\<rparr>) batch \<longleftrightarrow> any" for rest
    unfolding assms(7) by (simp add: publish_via_webhook_def assms(3,4) webhook_loop_pos webhook_delivers_iff [OF assms(1)])
  show ?thesis
    unfolding publish_batch_def Let_def b using assms(2,6) by (simp add: fold_mark_webhook p)
qed

text \<open>A reference version of the retry helper.\<close>

fun retry_from :: "nat \<Rightarrow> nat \<Rightarrow> (nat \<Rightarrow> webhook_error + unit) \<Rightarrow> webhook_error + unit" where
  "retry_from 0 k att = att k"
| "retry_from (Suc n) k att =
    (case att k of Inr _ \<Rightarrow> Inr () | Inl e \<Rightarrow> if is_retryable e then retry_from n (Suc k) att else Inl e)"

lemma retry_from_ok:
  "retry_from n k att = Inr () \<longleftrightarrow>
    (\<exists>m\<le>n. att (k + m) = Inr () \<and> (\<forall>j<m. \<exists>e. att (k + j) = Inl e \<and> is_retryable e))"
proof (induction n arbitrary: k)
  case (Suc n)
  have ex: "(\<exists>m\<le>Suc n. Q m) \<longleftrightarrow> Q 0 \<or> (\<exists>m\<le>n. Q (Suc m))" for Q
    by (metis (full_types) Suc_le_mono le0 not0_implies_Suc)
  have all: "(\<forall>j<Suc m. R j) \<longleftrightarrow> R 0 \<and> (\<forall>j<m. R (Suc j))" for m R
    by (auto simp: less_Suc_eq_0_disj)
  show ?case
    unfolding ex all by (cases "att k") (simp_all add: Suc.IH)
qed simp

definition sample_transport :: transport where
  "sample_transport = \<lparr>to_json = (\<lambda>e. Inr (event_id e)), with_backoff = (\<lambda>cfg. retry_from (max_retries cfg) 0),
     post = (\<lambda>i k url p. if i = 0 then Status 200 else Status 400)\<rparr>"

definition sample_cdc :: cdc_shim where
  "sample_cdc = (cdc_new (\<lambda>_. None) sample_clock)\<lparr>output_kind := ''webhook'', webhook_url := Some ''u'', http_client := True,
     pending_events := [sample_event, sample_event]\<rparr>"

theorem webhook_batch_booked_whole_witness:
  "events_published (fst (publish_batch sample_transport sample_clock sample_cdc)) = 2 \<and>
   \<not> (\<exists>k. received_at sample_transport ''u'' 1 sample_event k)"
proof -
  have ok: "backoff_ok (with_backoff sample_transport)"
    by (simp add: backoff_ok_def sample_transport_def retry_from_ok)
  have got: "received_at sample_transport ''u'' 0 sample_event 0"
    and lost: "\<not> received_at sample_transport ''u'' 1 sample_event k" for k
    by (simp_all add: received_at_def sample_transport_def replied_success_def is_success_def)
  have any: "True \<longleftrightarrow> (\<exists>i<length [sample_event, sample_event]. \<exists>k.
      received_at sample_transport ''u'' i ([sample_event, sample_event] ! i) k)"
    using got by (intro iffI exI [of _ 0] conjI TrueI) simp_all
  have sel: "output_kind sample_cdc = ''webhook''" "webhook_url sample_cdc = Some ''u''" "http_client sample_cdc"
    "[sample_event, sample_event] = take (batch_size sample_cdc) (pending_events sample_cdc)"
    "events_published sample_cdc = 0"
    by (simp_all add: sample_cdc_def cdc_new_def Let_def env_uint_def)
  show ?thesis
    using webhook_batch_booked_whole [OF ok sel(1-4) _ any, of sample_clock] sel(5) lost by simp
qed

text \<open>The PostgreSQL loop does not see positions that need a hexadecimal letter.  The server writes
  positions in hexadecimal and the code reads them as decimal numbers, so a pass over a position with a letter
  behaves as if the log had not moved: no event is captured and the remembered position stays.\<close>

theorem pg_pass_blind_to_hex:
  assumes "c \<in> set l" and "c \<in> set ''ABCDEF''"
  shows "pg_pass tr t (Inr (l # rows)) (pos, s) = Inr (pos, fst (publish_batch tr t s))"
proof -
  have part: "\<exists>p\<in>set (split_on d x). c \<in> set p" if "c \<in> set x" "c \<noteq> d" for d x
    using that by (induction x) (auto split: list.split)
  have "c \<noteq> CHR ''/''" "c \<noteq> CHR ''+''" "\<not> is_digit c"
    using assms(2) by (auto simp: is_digit_def)
  then have "\<exists>p\<in>set (split_on (CHR ''/'') l). parse_uint 64 p = None"
    using part [OF assms(1)] parse_uint_chars by (metis not_Some_eq)
  then have "parse_lsn l = 0"
    by (auto simp: parse_lsn_def Let_def in_set_conv_nth less_Suc_eq numeral_2_eq_2 split: option.split)
  then show ?thesis
    by (simp add: pg_pass_def pg_observe_def)
qed

theorem pg_pass_blind_to_hex_witness:
  "pg_pass sample_transport sample_clock (Inr [''0/16B3748'']) (0, sample_cdc) =
     Inr (0, fst (publish_batch sample_transport sample_clock sample_cdc)) \<and>
   parse_lsn ''0/1633748'' = 1633748"
proof
  show "pg_pass sample_transport sample_clock (Inr [''0/16B3748'']) (0, sample_cdc) =
     Inr (0, fst (publish_batch sample_transport sample_clock sample_cdc))"
    by (rule pg_pass_blind_to_hex [of "CHR ''B''"]) simp_all
qed (simp add: parse_lsn_def parse_uint_def is_digit_def digit_val_def)

text \<open>The MariaDB loop captures nothing from a status whose first column has no tab, which is how the server
  names its log files.\<close>

lemma mariadb_pass_no_tab:
  assumes "CHR 0x09 \<notin> set nm"
  shows "mariadb_pass tr t (Inr (nm # rows)) (pos, s) = Inr (pos, fst (publish_batch tr t s))"
proof -
  have "split_on (CHR 0x09) nm = [nm]"
    using assms by (induction nm) auto
  then show ?thesis
    by (simp add: mariadb_pass_def mariadb_observe_def)
qed

text \<open>The Redis loop reports no deletion, whatever the server answers: a key that disappears is never looked at again.\<close>

lemma redis_patterns_no_delete:
  assumes "redis_patterns srv t ps (prev, s, r) = Some (prev1, s1, r1)"
    and "\<forall>e\<in>set (pending_events s). operation e \<noteq> Delete"
  shows "\<forall>e\<in>set (pending_events s1). operation e \<noteq> Delete"
proof -
  let ?P = "\<lambda>s. \<forall>e\<in>set (pending_events s). operation e \<noteq> Delete"
  have "?P (fst (snd (redis_key srv t key st)))" if "?P (fst (snd st))" for key st
    using that by (auto simp: redis_key_def capture_def Let_def split: prod.splits if_splits)
  then have "?P (fst (snd (prev1, s1, r1)))"
    using assms(2) by (intro redis_patterns_keeps [OF assms(1), of ?P]) auto
  then show ?thesis
    by simp
qed

text \<open>A scan of the Redis keys ends if the server's cursor does: with any bound on the pages a server
  has left, which each page lowers and which looking at keys does not raise, every pattern list is worked through.\<close>

theorem redis_patterns_end:
  fixes left :: "'r \<Rightarrow> nat"
  assumes page: "\<And>c p r x r1. scan srv c p r = (x, r1) \<Longrightarrow>
      (case x of Some (c1, ks) \<Rightarrow> c1 \<noteq> 0 | None \<Rightarrow> False) \<Longrightarrow> left r1 < left r"
    and calls: "\<And>k r. left (snd (ttl_of srv k r)) \<le> left r \<and> left (snd (type_of srv k r)) \<le> left r"
  shows "\<exists>st1. redis_patterns srv t ps st = Some st1"
proof -
  have key: "left (snd (snd (redis_key srv t k st))) \<le> left (snd (snd st))" for k st
    using calls [of k "snd (snd st)"] calls [of k "snd (ttl_of srv k (snd (snd st)))"]
    by (auto simp: redis_key_def Let_def split: prod.splits)
  have keys: "left (snd (snd (fold (redis_key srv t) ks st))) \<le> left (snd (snd st))" for ks st
    by (induction ks arbitrary: st) (use key le_trans in fastforce)+
  have shrinks: "left (snd (snd (snd (scan_page srv t p c st)))) < left (snd (snd st))"
    if nz: "fst (scan_page srv t p c st) \<noteq> 0" for p c st
  proof -
    obtain prev s r where st: "st = (prev, s, r)"
      by (cases st)
    obtain x r1 where sc: "scan srv c p r = (x, r1)"
      by fastforce
    then obtain c1 ks where x: "x = Some (c1, ks)" "c1 \<noteq> 0"
      using nz by (cases x) (auto simp: scan_page_def st sc)
    then show ?thesis
      using page [OF sc] keys [of ks "(prev, s, r1)"] by (simp add: scan_page_def st sc)
  qed
  have "\<exists>st1. redis_scan srv t p c st = Some st1" for p c st
  proof (induction "left (snd (snd st))" arbitrary: c st rule: less_induct)
    case less
    show ?case
      using less.hyps [OF shrinks, of p c]
      by (subst redis_scan.simps) (simp add: Let_def del: split_paired_Ex)
  qed
  then show ?thesis
    by (induction ps arbitrary: st) (auto, metis option.simps(5))
qed

definition sample_server :: "nat redis_server" where
  "sample_server = \<lparr>scan = (\<lambda>c p r. (Some (r, [''k'']), r - 1)), ttl_of = (\<lambda>k r. (Some 5, r)),
     type_of = (\<lambda>k r. (Some ''string'', r))\<rparr>"

theorem redis_patterns_end_witness:
  "\<exists>st1. redis_patterns sample_server sample_clock [''*''] ([], sample_cdc, 3) = Some st1"
  by (rule redis_patterns_end [where left = "\<lambda>r. r"]) (auto simp: sample_server_def split: option.splits)

end
