(* ===== verification/Pem.thy ===== *)
theory Pem
  imports Prelude
begin

text \<open>
  The PEM and base64 codecs of \<^verbatim>\<open>tls-shim\<close> on words and strings, and their round trip.
\<close>

section \<open>Base64 and PEM\<close>

unbundle bit_operations_syntax

definition CHARS :: string where
  "CHARS = ''ABCDEFGHIJKLMNOPQRSTUVWXYZabcdefghijklmnopqrstuvwxyz0123456789+/''"

definition sextet :: "nat \<Rightarrow> u32 \<Rightarrow> char" where
  "sextet k triple = CHARS ! unat (drop_bit k triple AND 0x3F)"

definition encode_chunk :: "u8 list \<Rightarrow> string" where
  "encode_chunk chunk =
    (let b0 = ucast (chunk ! 0);
         b1 = (if 1 < length chunk then ucast (chunk ! 1) else 0);
         b2 = (if 2 < length chunk then ucast (chunk ! 2) else 0);
         triple = push_bit 16 b0 OR push_bit 8 b1 OR b2
     in [sextet 18 triple, sextet 12 triple,
         if 1 < length chunk then sextet 6 triple else CHR ''='',
         if 2 < length chunk then sextet 0 triple else CHR ''=''])"

definition base64_encode :: "u8 list \<Rightarrow> string" where
  "base64_encode data = concat (map encode_chunk (chunks 3 data))"

definition base64_char_to_val :: "char \<Rightarrow> u8 option" where
  "base64_char_to_val ch =
    (let c = (of_char ch :: nat) in
     if 65 \<le> c \<and> c \<le> 90 then Some (of_nat (c - 65))
     else if 97 \<le> c \<and> c \<le> 122 then Some (of_nat (c - 97 + 26))
     else if 48 \<le> c \<and> c \<le> 57 then Some (of_nat (c - 48 + 52))
     else if c = 43 then Some 62
     else if c = 47 then Some 63
     else None)"

definition pad_val :: "char \<Rightarrow> u8 option" where
  "pad_val ch = (if ch = CHR ''='' then Some 0 else base64_char_to_val ch)"

definition decode_chunk :: "string \<Rightarrow> u8 list option" where
  "decode_chunk chunk =
    (case (base64_char_to_val (chunk ! 0), base64_char_to_val (chunk ! 1), pad_val (chunk ! 2), pad_val (chunk ! 3)) of
       (Some c0, Some c1, Some c2, Some c3) \<Rightarrow>
         (let triple = push_bit 18 (ucast c0) OR push_bit 12 (ucast c1) OR push_bit 6 (ucast c2) OR (ucast c3 :: u32)
          in Some ([ucast (drop_bit 16 triple AND 0xFF)] @
                   (if chunk ! 2 \<noteq> CHR ''='' then [ucast (drop_bit 8 triple AND 0xFF)] else []) @
                   (if chunk ! 3 \<noteq> CHR ''='' then [ucast (triple AND 0xFF)] else [])))
     | _ \<Rightarrow> None)"

fun decode_chunks :: "string list \<Rightarrow> u8 list option" where
  "decode_chunks [] = Some []"
| "decode_chunks (c # cs) =
    (case decode_chunk c of None \<Rightarrow> None
     | Some bs \<Rightarrow> (case decode_chunks cs of None \<Rightarrow> None | Some r \<Rightarrow> Some (bs @ r)))"

definition base64_decode :: "string \<Rightarrow> u8 list option" where
  "base64_decode inp =
    (let s = filter (\<lambda>c. \<not> is_space c) inp in
     if length s mod 4 \<noteq> 0 then None else decode_chunks (chunks 4 s))"

text \<open>\<^verbatim>\<open>str::find\<close>: the position of the first occurrence.\<close>

fun str_find :: "string \<Rightarrow> string \<Rightarrow> nat option" where
  "str_find [] p = (if p = [] then Some 0 else None)"
| "str_find (c # s) p = (if starts_with (c # s) p then Some 0 else map_option Suc (str_find s p))"

definition begin_label :: "string \<Rightarrow> string" where
  "begin_label label = ''-----BEGIN '' @ label @ ''-----''"

definition end_label :: "string \<Rightarrow> string" where
  "end_label label = ''-----END '' @ label @ ''-----''"

definition pem_encode :: "u8 list \<Rightarrow> string \<Rightarrow> string" where
  "pem_encode der label =
    begin_label label @ [newline] @
    concat (map (\<lambda>chunk. chunk @ [newline]) (chunks 64 (base64_encode der))) @
    end_label label @ [newline]"

text \<open>Slicing panics when the end label stands before the begin label.\<close>

definition pem_decode :: "string \<Rightarrow> string \<Rightarrow> u8 list option outcome" where
  "pem_decode pem label =
    (case str_find pem (begin_label label) of None \<Rightarrow> Returns None
     | Some b \<Rightarrow>
         (let st = b + length (begin_label label) in
          case str_find pem (end_label label) of None \<Rightarrow> Returns None
          | Some en \<Rightarrow>
              (if en < st then Panics
               else Returns (base64_decode
                      (filter (\<lambda>c. c \<noteq> newline \<and> c \<noteq> CHR 0x0D) (trim (drop st (take en pem))))))))"

section \<open>Lemmas on the codecs\<close>

lemma base64_char_to_val_nth:
  assumes "i < 64"
  shows "base64_char_to_val (CHARS ! i) = Some (of_nat i)"
proof -
  have vals: "map base64_char_to_val CHARS = map (\<lambda>i. Some (of_nat i)) [0..<64]"
    by (simp add: CHARS_def base64_char_to_val_def upt_conv_Cons)
  moreover have "length CHARS = 64"
    by (simp add: CHARS_def)
  ultimately show ?thesis
    using assms by (metis (no_types, lifting) add_0 length_upt minus_nat.diff_0 nth_map nth_upt)
qed

lemma sextet_val: "base64_char_to_val (sextet k t) = Some (ucast (drop_bit k t AND 0x3F))"
proof -
  have "drop_bit k t AND 0x3F = take_bit 6 (drop_bit k t)"
    by (simp add: take_bit_eq_mask mask_eq_exp_minus_1)
  moreover from this have "unat (drop_bit k t AND 0x3F) < 2 ^ 6"
    by (metis take_bit_nat_less_exp unsigned_take_bit_eq)
  ultimately show ?thesis
    by (simp add: sextet_def base64_char_to_val_nth)
qed

lemma and_sextet: "x AND 0x3F = take_bit 6 x" for x :: u32
  by (simp add: take_bit_eq_mask mask_eq_exp_minus_1)

lemma and_byte: "x AND 0xFF = take_bit 8 x" for x :: u32
  by (simp add: take_bit_eq_mask mask_eq_exp_minus_1)

definition triple_of :: "u8 \<Rightarrow> u8 \<Rightarrow> u8 \<Rightarrow> u32" where
  "triple_of b0 b1 b2 = push_bit 16 (ucast b0) OR push_bit 8 (ucast b1) OR ucast b2"

lemma bit_triple_of:
  "bit (triple_of b0 b1 b2) n \<longleftrightarrow>
    16 \<le> n \<and> bit b0 (n - 16) \<or> 8 \<le> n \<and> bit b1 (n - 8) \<or> bit b2 n"
  by (auto simp: triple_of_def bit_simps dest: bit_imp_le_length)

lemma bit_u8: "bit (b :: u8) n \<Longrightarrow> n < 8"
  using bit_imp_le_length [of b n] by simp

lemma triple_of_24: "bit (triple_of b0 b1 b2) n \<Longrightarrow> n < 24"
  by (auto simp: bit_triple_of dest: bit_u8)

text \<open>Putting the four groups of six bits together again gives the triple.\<close>

definition of_sextets :: "u8 \<Rightarrow> u8 \<Rightarrow> u8 \<Rightarrow> u8 \<Rightarrow> u32" where
  "of_sextets c0 c1 c2 c3 = push_bit 18 (ucast c0) OR push_bit 12 (ucast c1) OR push_bit 6 (ucast c2) OR ucast c3"

definition sextet_bits :: "nat \<Rightarrow> u32 \<Rightarrow> u8" where
  "sextet_bits k t = ucast (drop_bit k t AND 0x3F)"

lemma bit_sextet_bits: "bit (sextet_bits k t) n \<longleftrightarrow> n < 6 \<and> bit t (k + n)"
  unfolding sextet_bits_def and_sextet by (auto simp: bit_simps dest: bit_imp_le_length)

lemma bit_of_sextets:
  "bit (of_sextets c0 c1 c2 c3) n \<longleftrightarrow>
    18 \<le> n \<and> bit c0 (n - 18) \<or> 12 \<le> n \<and> bit c1 (n - 12) \<or> 6 \<le> n \<and> bit c2 (n - 6) \<or> bit c3 n"
  by (auto simp: of_sextets_def bit_simps dest: bit_u8)

lemma regroup:
  assumes "\<And>n. bit t n \<Longrightarrow> n < 24"
  shows "of_sextets (sextet_bits 18 t) (sextet_bits 12 t) (sextet_bits 6 t) (sextet_bits 0 t) = t"
proof (rule bit_word_eqI, goal_cases)
  case (1 n)
  show ?case
    using assms [of n]
    by (cases "18 \<le> n"; cases "12 \<le> n"; cases "6 \<le> n") (auto simp: bit_of_sextets bit_sextet_bits)
qed

lemma regroup_triple:
  fixes b0 b1 b2 :: u8
  defines "t \<equiv> triple_of b0 b1 b2"
  shows "of_sextets (sextet_bits 18 t) (sextet_bits 12 t) (sextet_bits 6 t) (sextet_bits 0 t) = triple_of b0 b1 b2"
  unfolding t_def by (rule regroup, rule triple_of_24)

lemma triple_bytes:
  "ucast (drop_bit 16 (triple_of b0 b1 b2) AND 0xFF) = b0"
  "ucast (drop_bit 8 (triple_of b0 b1 b2) AND 0xFF) = b1"
  "ucast (triple_of b0 b1 b2 AND 0xFF) = b2"
  unfolding and_byte
  by (rule bit_word_eqI; auto simp: bit_simps bit_triple_of dest: bit_u8)+

lemma encode_chunk_cases:
  "encode_chunk [b0] = [sextet 18 (triple_of b0 0 0), sextet 12 (triple_of b0 0 0), CHR ''='', CHR ''='']"
  "encode_chunk [b0, b1] =
     [sextet 18 (triple_of b0 b1 0), sextet 12 (triple_of b0 b1 0), sextet 6 (triple_of b0 b1 0), CHR ''='']"
  "encode_chunk [b0, b1, b2] =
     [sextet 18 (triple_of b0 b1 b2), sextet 12 (triple_of b0 b1 b2), sextet 6 (triple_of b0 b1 b2),
      sextet 0 (triple_of b0 b1 b2)]"
  by (simp_all add: encode_chunk_def triple_of_def Let_def)

lemma low_sextets_zero:
  "sextet_bits 0 (triple_of b0 b1 0) = 0" "sextet_bits 6 (triple_of b0 0 0) = 0"
  by (rule bit_word_eqI; auto simp: bit_sextet_bits bit_triple_of)+

lemma sextet_not_pad: "sextet k t \<noteq> CHR ''=''"
proof
  assume "sextet k t = CHR ''=''"
  moreover have "base64_char_to_val (CHR ''='') = None"
    by (simp add: base64_char_to_val_def)
  ultimately show False
    using sextet_val [of k t] by simp
qed

lemma decode_chunk_eq:
  assumes "base64_char_to_val x0 = Some c0" "base64_char_to_val x1 = Some c1" "pad_val x2 = Some c2" "pad_val x3 = Some c3"
    and "of_sextets c0 c1 c2 c3 = triple_of b0 b1 b2"
  shows "decode_chunk [x0, x1, x2, x3] =
    Some (b0 # (if x2 \<noteq> CHR ''='' then [b1] else []) @ (if x3 \<noteq> CHR ''='' then [b2] else []))"
  using assms triple_bytes [of b0 b1 b2] by (simp add: decode_chunk_def of_sextets_def [symmetric] Let_def)

lemma decode_encode_chunk:
  assumes "chunk \<noteq> []" and "length chunk \<le> 3"
  shows "decode_chunk (encode_chunk chunk) = Some chunk"
proof -
  have vals: "base64_char_to_val (sextet k t) = Some (sextet_bits k t)" "pad_val (sextet k t) = Some (sextet_bits k t)"
    "pad_val (CHR ''='') = Some 0" for k t
    by (simp_all add: pad_val_def sextet_val sextet_not_pad sextet_bits_def)
  note eq = decode_chunk_eq [OF vals(1) vals(1)]
  consider b0 where "chunk = [b0]" | b0 b1 where "chunk = [b0, b1]" | b0 b1 b2 where "chunk = [b0, b1, b2]"
    using assms by (auto simp: neq_Nil_conv le_Suc_eq numeral_3_eq_3 length_Suc_conv)
  then show ?thesis
  proof cases
    case 1
    then show ?thesis
      using eq [OF vals(3) vals(3) regroup_triple [of b0 0 0, unfolded low_sextets_zero]]
      by (simp add: encode_chunk_cases)
  next
    case 2
    then show ?thesis
      using eq [OF vals(2) vals(3) regroup_triple [of b0 b1 0, unfolded low_sextets_zero]]
      by (simp add: encode_chunk_cases sextet_not_pad)
  next
    case 3
    then show ?thesis
      using eq [OF vals(2) vals(2) regroup_triple [of b0 b1 b2]]
      by (simp add: encode_chunk_cases sextet_not_pad)
  qed
qed

lemma length_encode_chunk [simp]: "length (encode_chunk chunk) = 4"
  by (simp add: encode_chunk_def Let_def)

lemma chunks_pieces: "c \<in> set (chunks n xs) \<Longrightarrow> 0 < n \<Longrightarrow> c \<noteq> [] \<and> length c \<le> n"
  by (induction n xs rule: chunks.induct) auto

lemma chunks_concat:
  "0 < n \<Longrightarrow> \<forall>c\<in>set cs. length c = n \<Longrightarrow> chunks n (concat cs) = cs"
proof (induction cs)
  case (Cons c cs)
  then obtain x xs where "c = x # xs" "length xs = n - 1"
    by (cases c) auto
  then show ?case
    using Cons by simp
qed simp

lemma decode_chunks_map:
  "\<forall>c\<in>set cs. decode_chunk (f c) = Some c \<Longrightarrow> decode_chunks (map f cs) = Some (concat cs)"
  by (induction cs) simp_all

lemma sextet_in_CHARS: "sextet k t \<in> set CHARS"
proof -
  have "unat (drop_bit k t AND 0x3F) < 2 ^ 6"
    unfolding and_sextet by (metis take_bit_nat_less_exp unsigned_take_bit_eq)
  moreover have "length CHARS = 64"
    by (simp add: CHARS_def)
  ultimately show ?thesis
    by (simp add: sextet_def)
qed

lemma base64_encode_chars: "set (base64_encode data) \<subseteq> insert (CHR ''='') (set CHARS)"
  using sextet_in_CHARS by (auto simp: base64_encode_def encode_chunk_def Let_def split: if_splits)

lemma base64_encode_plain:
  "c \<in> set (base64_encode data) \<Longrightarrow> \<not> is_space c \<and> c \<noteq> CHR ''-''"
  using base64_encode_chars [of data] by (auto simp: CHARS_def is_space_def)

lemma base64_roundtrip: "base64_decode (base64_encode data) = Some data"
proof -
  have "filter (\<lambda>c. \<not> is_space c) (base64_encode data) = base64_encode data"
    using base64_encode_plain by (simp add: filter_id_conv)
  moreover have "chunks 4 (base64_encode data) = map encode_chunk (chunks 3 data)"
    unfolding base64_encode_def by (rule chunks_concat) auto
  moreover have "length (base64_encode data) mod 4 = 0"
    by (simp add: base64_encode_def length_concat comp_def sum_list_triv)
  moreover have "decode_chunks (map encode_chunk (chunks 3 data)) = Some (concat (chunks 3 data))"
    using chunks_pieces [of _ 3 data] by (intro decode_chunks_map) (auto intro: decode_encode_chunk)
  ultimately show ?thesis
    by (simp add: base64_decode_def)
qed

lemma str_find_skip:
  "p \<noteq> [] \<Longrightarrow> hd p \<notin> set u \<Longrightarrow> str_find (u @ s) p = map_option (\<lambda>n. length u + n) (str_find s p)"
proof (induction u)
  case (Cons c u)
  then have "\<not> starts_with (c # u @ s) p"
    by (cases p) auto
  then show ?case
    using Cons by (simp add: option.map_comp comp_def)
qed (cases "str_find s p"; simp)

lemma str_find_hit: "p \<noteq> [] \<Longrightarrow> str_find (p @ s) p = Some 0"
  by (cases p) (simp_all add: starts_with_iff)

lemma filter_dropWhile:
  "\<forall>c\<in>set s. Q c \<longrightarrow> \<not> P c \<Longrightarrow> filter P (dropWhile Q s) = filter P s"
  by (induction s) auto

lemma filter_trim:
  assumes "\<forall>c\<in>set s. is_space c \<longrightarrow> \<not> P c"
  shows "filter P (trim s) = filter P s"
proof -
  have "filter P (trim s) = rev (filter P (dropWhile is_space (rev (dropWhile is_space s))))"
    by (simp add: trim_def rev_filter)
  also have "\<dots> = rev (filter P (rev (dropWhile is_space s)))"
    using assms by (subst filter_dropWhile) (auto dest: set_dropWhileD)
  also have "\<dots> = filter P s"
    using assms by (simp add: rev_filter filter_dropWhile)
  finally show ?thesis .
qed

lemma filter_lines:
  "\<forall>c\<in>set cs. \<forall>x\<in>set c. P x \<Longrightarrow> \<not> P newline \<Longrightarrow>
    filter P (concat (map (\<lambda>c. c @ [newline]) cs)) = concat cs"
  by (induction cs) (simp_all add: filter_id_conv)

text \<open>C16: Encoding to PEM and decoding gives the bytes back, for every byte string and every label without a
  dash: the base64 digits of each three bytes, the padding of the last group and the lines of 64
  characters all invert.\<close>

theorem pem_roundtrip:
  assumes "CHR ''-'' \<notin> set label"
  shows "pem_decode (pem_encode der label) label = Returns (Some der)"
proof -
  define b64 where "b64 = base64_encode der"
  define body where "body = concat (map (\<lambda>chunk. chunk @ [newline]) (chunks 64 b64))"
  have plain: "\<not> is_space c \<and> c \<noteq> CHR ''-''" if "c \<in> set b64" for c
    using base64_encode_plain that by (simp add: b64_def)
  have spaces: "is_space newline" "is_space (CHR 0x0D)"
    by (simp_all add: is_space_def)
  have chars: "set (chunks 64 b64) \<subseteq> {c. set c \<subseteq> set b64}"
    using concat_chunks [of 64 b64] by (metis (mono_tags, lifting) UN_upper mem_Collect_eq set_concat subsetI)
  have body_chars: "c = newline \<or> c \<in> set b64" if "c \<in> set body" for c
    using that chars by (auto simp: body_def split: if_splits)
  have no_dash: "CHR ''-'' \<notin> set body"
    using body_chars plain by fastforce
  have pem: "pem_encode der label = begin_label label @ newline # body @ end_label label @ [newline]"
    by (simp add: pem_encode_def body_def b64_def)
  have b: "str_find (pem_encode der label) (begin_label label) = Some 0"
    unfolding pem by (rule str_find_hit) (simp add: begin_label_def)
  have "str_find (body @ end_label label @ [newline]) (end_label label) = Some (length body)"
    using no_dash str_find_hit [of "end_label label" "[newline]"]
    by (subst str_find_skip) (simp_all add: end_label_def)
  then have e: "str_find (pem_encode der label) (end_label label) = Some (length (begin_label label) + 1 + length body)"
    using assms str_find_skip [of "end_label label" label] unfolding pem
    by (simp add: begin_label_def end_label_def)
  have "filter (\<lambda>c. c \<noteq> newline \<and> c \<noteq> CHR 0x0D) (trim (newline # body)) = b64"
  proof -
    have "filter (\<lambda>c. c \<noteq> newline \<and> c \<noteq> CHR 0x0D) (trim (newline # body)) =
        filter (\<lambda>c. c \<noteq> newline \<and> c \<noteq> CHR 0x0D) body"
      using body_chars plain by (subst filter_trim) auto
    also have "\<dots> = concat (chunks 64 b64)"
      unfolding body_def using chars plain spaces by (intro filter_lines) blast+
    finally show ?thesis
      by simp
  qed
  moreover have "drop (length (begin_label label)) (take (length (begin_label label) + 1 + length body) (pem_encode der label)) =
      newline # body"
    by (simp add: pem)
  ultimately show ?thesis
    using base64_roundtrip [of der] by (simp add: pem_decode_def b e b64_def)
qed

theorem pem_roundtrip_witness:
  "pem_decode (pem_encode [1, 2, 255, 0] ''CERTIFICATE'') ''CERTIFICATE'' = Returns (Some [1, 2, 255, 0])"
  by (rule pem_roundtrip) simp

text \<open>A text whose end label comes first makes the decoder panic.\<close>

lemma pem_decode_panics:
  "pem_decode (end_label ''CERTIFICATE'' @ begin_label ''CERTIFICATE'') ''CERTIFICATE'' = Panics"
  by (simp add: pem_decode_def end_label_def begin_label_def)

end
