(* ===== verification/Tls.thy ===== *)
theory Tls
  imports Config Pem
begin

text \<open>
  \<^verbatim>\<open>tls-shim\<close>: managed certificates, the renewal decision, the three providers, loading from and saving
  to disk, start and the daily check.  Key generation (\<^verbatim>\<open>rcgen\<close>), the ACME client, the replies of Vault,
  SHA-256 and the rendering of dates are parameters; the disk is a map from paths to contents whose
  calls can fail.
\<close>

section \<open>Data\<close>

record cert_info =
  ci_domain :: string
  issuer :: string
  not_before :: string
  not_after :: string
  serial :: string
  fingerprint :: string
  days_until_expiry :: int
  cert_pem :: "string option"
  key_pem :: "string option"

datatype tls_version = Tls1_0 | Tls1_1 | Tls1_2 | Tls1_3

fun version_rank :: "tls_version \<Rightarrow> nat" where
  "version_rank Tls1_0 = 0"
| "version_rank Tls1_1 = 1"
| "version_rank Tls1_2 = 2"
| "version_rank Tls1_3 = 3"

instantiation tls_version :: linorder
begin

definition less_eq_tls_version :: "tls_version \<Rightarrow> tls_version \<Rightarrow> bool" where
  "less_eq_tls_version a b = (version_rank a \<le> version_rank b)"

definition less_tls_version :: "tls_version \<Rightarrow> tls_version \<Rightarrow> bool" where
  "less_tls_version a b = (version_rank a < version_rank b)"

instance
proof
  fix a b :: tls_version
  show "a \<le> b \<Longrightarrow> b \<le> a \<Longrightarrow> a = b"
    by (cases a; cases b) (simp_all add: less_eq_tls_version_def)
qed (auto simp: less_eq_tls_version_def less_tls_version_def)

end

definition version_display :: "tls_version \<Rightarrow> string" where
  "version_display v =
    (case v of Tls1_0 \<Rightarrow> ''TLSv1.0'' | Tls1_1 \<Rightarrow> ''TLSv1.1'' | Tls1_2 \<Rightarrow> ''TLSv1.2'' | Tls1_3 \<Rightarrow> ''TLSv1.3'')"

definition version_from_str :: "string \<Rightarrow> string + tls_version" where
  "version_from_str s =
    (let l = to_lowercase s in
     if l \<in> set [''tlsv1.0'', ''tls1.0'', ''1.0''] then Inr Tls1_0
     else if l \<in> set [''tlsv1.1'', ''tls1.1'', ''1.1''] then Inr Tls1_1
     else if l \<in> set [''tlsv1.2'', ''tls1.2'', ''1.2''] then Inr Tls1_2
     else if l \<in> set [''tlsv1.3'', ''tls1.3'', ''1.3''] then Inr Tls1_3
     else Inl (''Unknown TLS version: '' @ s))"

record cert_validation =
  valid :: bool
  errors :: "string list"
  warnings :: "string list"

record tls_state =
  certs_renewed :: nat
  certs_failed :: nat
  last_renewal :: "time option"
  managed_certs :: "(string, cert_info) hmap"

record tls_shim =
  ts_provider :: string
  ts_domain :: string
  ts_email :: string
  ts_renew_before_secs :: nat
  cert_file :: "string option"
  key_file :: "string option"
  listen :: string
  data_dir :: string
  min_version :: tls_version
  ts_vault_addr :: string
  ts_vault_role :: string
  vault_token :: "string option"
  state :: tls_state
  shutdown_tx :: bool

text \<open>The disk, the failures of its calls, and the code the shim calls.  \<^verbatim>\<open>acme\<close> registers an account (its
  key) and, after the challenge, gives certificate and key; \<^verbatim>\<open>vault_post\<close> is the reply to a request.\<close>

type_synonym files = "string \<Rightarrow> string option"

datatype vault_reply = SendError string | Refused string string | Answered "string + json"

record tls_world =
  sha256 :: "u8 list \<Rightarrow> u8 list"
  rfc3339 :: "time \<Rightarrow> string"
  self_signed :: "string \<Rightarrow> string + string \<times> string"
  mkdir_error :: "string \<Rightarrow> string option"
  write_error :: "string \<Rightarrow> write_fault option"
  client_error :: "string option"
  vault_post :: "string \<Rightarrow> string \<Rightarrow> json \<Rightarrow> vault_reply"
  acme_register :: "bool \<Rightarrow> string \<Rightarrow> string + string"
  acme_order :: "string \<Rightarrow> string + string \<times> string"

section \<open>Certificates\<close>

definition tls_new :: "env \<Rightarrow> tls_shim" where
  "tls_new env =
    \<lparr>ts_provider = env_str env ''TLS_PROVIDER'' ''letsencrypt'', ts_domain = env_str env ''TLS_DOMAIN'' [],
     ts_email = env_str env ''TLS_EMAIL'' [],
     ts_renew_before_secs = env_uint 64 env ''TLS_RENEW_BEFORE'' 259200,
     cert_file = env ''TLS_CERT_FILE'', key_file = env ''TLS_KEY_FILE'',
     listen = env_str env ''TLS_LISTEN'' '':80'', data_dir = env_str env ''TLS_DATA_DIR'' ''/etc/tls'',
     min_version = (case env ''TLS_MIN_VERSION'' of
         None \<Rightarrow> Tls1_2 | Some s \<Rightarrow> (case version_from_str s of Inr v \<Rightarrow> v | Inl _ \<Rightarrow> Tls1_2)),
     ts_vault_addr = env_str env ''TLS_VAULT_ADDR'' ''https://127.0.0.1:8200'',
     ts_vault_role = env_str env ''TLS_VAULT_ROLE'' ''pki'', vault_token = env ''TLS_VAULT_TOKEN'',
     state = \<lparr>certs_renewed = 0, certs_failed = 0, last_renewal = None, managed_certs = []\<rparr>,
     shutdown_tx = False\<rparr>"

definition upper_hex_char :: "nat \<Rightarrow> char" where
  "upper_hex_char d = (if d < 10 then char_of (48 + d) else char_of (55 + d))"

definition byte_hex :: "u8 \<Rightarrow> string" where
  "byte_hex b = [upper_hex_char (unat b div 16), upper_hex_char (unat b mod 16)]"

definition cert_der :: "string \<Rightarrow> u8 list outcome" where
  "cert_der pem =
    (case pem_decode pem ''CERTIFICATE'' of Panics \<Rightarrow> Panics
     | Returns None \<Rightarrow> Returns [] | Returns (Some bs) \<Rightarrow> Returns bs)"

definition compute_fingerprint :: "tls_world \<Rightarrow> string \<Rightarrow> string outcome" where
  "compute_fingerprint w pem =
    (case cert_der pem of Panics \<Rightarrow> Panics
     | Returns der \<Rightarrow> Returns (join '':'' (map byte_hex (sha256 w der))))"

definition extract_serial :: "tls_world \<Rightarrow> string \<Rightarrow> string outcome" where
  "extract_serial w pem =
    (case cert_der pem of Panics \<Rightarrow> Panics
     | Returns der \<Rightarrow> Returns (concat (map byte_hex (take 16 (sha256 w der)))))"

abbreviation day :: time where
  "day \<equiv> 86400 * second"

definition not_after_from_cert :: "time \<Rightarrow> string \<Rightarrow> time" where
  "not_after_from_cert now pem = now + 365 * day"

text \<open>The record made for a certificate; the clock is read at \<^verbatim>\<open>t1\<close> for the end of its life and at \<^verbatim>\<open>t2\<close>
  afterwards.\<close>

definition make_cert_info ::
  "tls_world \<Rightarrow> time \<Rightarrow> time \<Rightarrow> string \<Rightarrow> string \<Rightarrow> string \<Rightarrow> string \<Rightarrow> cert_info outcome" where
  "make_cert_info w t1 t2 dm iss cpem kpem =
    (case (compute_fingerprint w cpem, extract_serial w cpem) of
       (Returns fp, Returns sn) \<Rightarrow>
         (let na = not_after_from_cert t1 cpem; days = num_days (na - t2) in
          Returns \<lparr>ci_domain = dm, issuer = iss, not_before = rfc3339 w (t2 - (365 - days) * day),
                   not_after = rfc3339 w na, serial = sn, fingerprint = fp, days_until_expiry = days,
                   cert_pem = Some cpem, key_pem = Some kpem\<rparr>)
     | _ \<Rightarrow> Panics)"

definition cert_path :: "tls_shim \<Rightarrow> string" where
  "cert_path s = data_dir s @ ''/'' @ ts_domain s @ ''.pem''"

definition key_path :: "tls_shim \<Rightarrow> string" where
  "key_path s = data_dir s @ ''/'' @ ts_domain s @ ''.key''"

definition load_cert_from_disk :: "tls_world \<Rightarrow> time \<Rightarrow> time \<Rightarrow> files \<Rightarrow> tls_shim \<Rightarrow> cert_info option outcome" where
  "load_cert_from_disk w t1 t2 fs s =
    (case (fs (cert_path s), fs (key_path s)) of
       (Some cpem, Some kpem) \<Rightarrow>
         (case make_cert_info w t1 t2 (ts_domain s) ''loaded from disk'' cpem kpem of
            Panics \<Rightarrow> Panics | Returns c \<Rightarrow> Returns (Some c))
     | _ \<Rightarrow> Returns None)"

text \<open>Writing stops at the first failure, which may leave part of a file.\<close>

definition write_file :: "tls_world \<Rightarrow> string \<Rightarrow> string \<Rightarrow> files \<Rightarrow> files \<times> (string + unit)" where
  "write_file w path content fs =
    (case written (write_error w path) content of None \<Rightarrow> fs | Some txt \<Rightarrow> fs(path \<mapsto> txt),
     write_result (write_error w path))"

definition save_cert_to_disk ::
  "tls_world \<Rightarrow> tls_shim \<Rightarrow> string \<Rightarrow> string \<Rightarrow> files \<Rightarrow> files \<times> (string + unit)" where
  "save_cert_to_disk w s cpem kpem fs =
    (case mkdir_error w (data_dir s) of Some e \<Rightarrow> (fs, Inl e)
     | None \<Rightarrow>
         (case write_file w (cert_path s) cpem fs of
            (fs1, Inl e) \<Rightarrow> (fs1, Inl e)
          | (fs1, Inr _) \<Rightarrow> write_file w (key_path s) kpem fs1))"

text \<open>\<^verbatim>\<open>renew_before_secs as i64 / 86400\<close>: the cast wraps and the division truncates.\<close>

definition renew_days :: "nat \<Rightarrow> int" where
  "renew_days n =
    (let i = sint (of_nat n :: u64) in if 0 \<le> i then i div 86400 else - ((- i) div 86400))"

definition needs_renewal :: "tls_shim \<Rightarrow> cert_info \<Rightarrow> bool" where
  "needs_renewal s c = (days_until_expiry c < renew_days (ts_renew_before_secs s))"

definition issue :: "bool \<Rightarrow> string \<Rightarrow> string list" where
  "issue b msg = (if b then [msg] else [])"

definition validate_cert :: "cert_info \<Rightarrow> cert_validation outcome" where
  "validate_cert c =
    (let errs = issue (ci_domain c = []) ''Domain is empty'' @ issue (issuer c = []) ''Issuer is empty'' @
           issue (not_after c = []) ''Not-after date is empty'' @
           issue (fingerprint c = []) ''Fingerprint is empty'' @
           issue (days_until_expiry c < 0) ''Certificate has expired'';
         warns = issue (days_until_expiry c < 7) ''Certificate expires in less than 7 days'' @
           issue (days_until_expiry c < 30) ''Certificate expires in less than 30 days''
     in case (case cert_pem c of None \<Rightarrow> Returns (Some []) | Some pem \<Rightarrow> pem_decode pem ''CERTIFICATE'') of
          Panics \<Rightarrow> Panics
        | Returns r \<Rightarrow>
            (let errs1 = errs @ issue (r = None) ''Invalid certificate PEM'' in
             Returns \<lparr>valid = (errs1 = []), errors = errs1, warnings = warns\<rparr>))"

definition register_cert :: "cert_info \<Rightarrow> tls_shim \<Rightarrow> tls_shim" where
  "register_cert c s =
    s\<lparr>state := (state s)\<lparr>managed_certs := hm_insert (ci_domain c) c (managed_certs (state s))\<rparr>\<rparr>"

definition get_cert :: "string \<Rightarrow> tls_shim \<Rightarrow> cert_info option" where
  "get_cert dm s = map_of (managed_certs (state s)) dm"

definition remove_cert :: "string \<Rightarrow> tls_shim \<Rightarrow> tls_shim \<times> bool" where
  "remove_cert dm s =
    (s\<lparr>state := (state s)\<lparr>managed_certs := hm_remove dm (managed_certs (state s))\<rparr>\<rparr>,
     map_of (managed_certs (state s)) dm \<noteq> None)"

definition expiring_soon ::
  "((string, cert_info) hmap \<Rightarrow> (string, cert_info) hmap) \<Rightarrow> int \<Rightarrow> tls_shim \<Rightarrow> string list" where
  "expiring_soon ord threshold s =
    map (\<lambda>(d, c). d @ '' ('' @ show_int (days_until_expiry c) @ ''d)'')
      (filter (\<lambda>(_, c). days_until_expiry c \<le> threshold) (hash_iter ord (managed_certs (state s))))"

section \<open>Providers\<close>

definition save_issued ::
  "tls_world \<Rightarrow> tls_shim \<Rightarrow> string \<times> string \<Rightarrow> files \<Rightarrow> files \<times> (string + string \<times> string)" where
  "save_issued w s ck fs =
    (case save_cert_to_disk w s (fst ck) (snd ck) fs of
       (fs1, Inl e) \<Rightarrow> (fs1, Inl e) | (fs1, Inr _) \<Rightarrow> (fs1, Inr ck))"

definition generate_internal_ca_cert :: "tls_world \<Rightarrow> tls_shim \<Rightarrow> files \<Rightarrow> files \<times> (string + string \<times> string)" where
  "generate_internal_ca_cert w s fs =
    (case self_signed w (ts_domain s) of Inl e \<Rightarrow> (fs, Inl e) | Inr ck \<Rightarrow> save_issued w s ck fs)"

definition request_vault_cert :: "tls_world \<Rightarrow> tls_shim \<Rightarrow> files \<Rightarrow> files \<times> (string + string \<times> string)" where
  "request_vault_cert w s fs =
    (case vault_token s of None \<Rightarrow> (fs, Inl ''TLS_VAULT_TOKEN required for vault-pki provider'')
     | Some token \<Rightarrow>
         (case client_error w of Some e \<Rightarrow> (fs, Inl e)
          | None \<Rightarrow>
              (case vault_post w
                      (trim_end_matches (ts_vault_addr s) ''/'' @ ''/v1/pki/issue/'' @ ts_vault_role s) token
                      (JObj [(''common_name'', JStr (ts_domain s)), (''alt_names'', JStr (ts_domain s))]) of
                 SendError e \<Rightarrow> (fs, Inl (''Vault request failed: '' @ e))
               | Refused st body \<Rightarrow> (fs, Inl (''Vault PKI returned '' @ st @ '': '' @ body))
               | Answered (Inl e) \<Rightarrow> (fs, Inl (''Failed to parse Vault response: '' @ e))
               | Answered (Inr body) \<Rightarrow>
                   (case json_str (json_field ''certificate'' (json_field ''data'' body)) of
                      None \<Rightarrow> (fs, Inl ''No certificate in Vault response'')
                    | Some cpem \<Rightarrow>
                        (case json_str (json_field ''private_key'' (json_field ''data'' body)) of
                           None \<Rightarrow> (fs, Inl ''No private key in Vault response'')
                         | Some kpem \<Rightarrow> save_issued w s (cpem, kpem) fs)))))"

text \<open>What the challenge server answers to a request.\<close>

definition challenge_response :: "string \<Rightarrow> string \<Rightarrow> string \<Rightarrow> string" where
  "challenge_response token proof_text request =
    (let crlf = [CHR 0x0D, CHR 0x0A] in
     if contains request (''/.well-known/acme-challenge/'' @ token)
     then ''HTTP/1.1 200 OK'' @ crlf @ ''Content-Type: text/plain'' @ crlf @ ''Content-Length: '' @
          show_nat (length proof_text) @ crlf @ crlf @ proof_text
     else ''HTTP/1.1 404 Not Found'' @ crlf @ ''Content-Length: 0'' @ crlf @ crlf)"

definition obtain_letsencrypt_cert ::
  "tls_world \<Rightarrow> env \<Rightarrow> tls_shim \<Rightarrow> files \<Rightarrow> files \<times> (string + string \<times> string)" where
  "obtain_letsencrypt_cert w env s fs =
    (if ts_domain s = [] then (fs, Inl (''Domain required for Let'' @ [CHR 39] @ ''s Encrypt''))
     else if ts_email s = [] then (fs, Inl (''Email required for Let'' @ [CHR 39] @ ''s Encrypt''))
     else (case acme_register w (env_flag env ''TLS_LETSENCRYPT_PROD'' False) (''mailto:'' @ ts_email s) of
             Inl e \<Rightarrow> (fs, Inl e)
           | Inr account_key \<Rightarrow>
               (case write_file w (''/tmp/.acme_account_key_'' @ ts_domain s) account_key fs of
                  (fs1, Inl e) \<Rightarrow> (fs1, Inl e)
                | (fs1, Inr _) \<Rightarrow>
                    (case acme_order w (ts_domain s) of Inl e \<Rightarrow> (fs1, Inl e)
                     | Inr ck \<Rightarrow> save_issued w s ck fs1))))"

definition provider_issuer :: "tls_shim \<Rightarrow> string" where
  "provider_issuer s =
    (if ts_provider s = ''letsencrypt'' then ''Let'' @ [CHR 39] @ ''s Encrypt''
     else if ts_provider s = ''internal-ca'' then ''Internal CA (self-signed)''
     else if ts_provider s = ''vault-pki'' then ''Vault PKI ('' @ ts_vault_role s @ '')''
     else ''Unknown'')"

definition issue_cert :: "tls_world \<Rightarrow> env \<Rightarrow> tls_shim \<Rightarrow> files \<Rightarrow> files \<times> (string + string \<times> string)" where
  "issue_cert w env s fs =
    (if ts_provider s = ''internal-ca'' then generate_internal_ca_cert w s fs
     else if ts_provider s = ''letsencrypt'' then obtain_letsencrypt_cert w env s fs
     else if ts_provider s = ''vault-pki'' then request_vault_cert w s fs
     else (fs, Inl (''Unknown TLS provider: '' @ ts_provider s)))"

definition renew_certificate_async ::
  "tls_world \<Rightarrow> env \<Rightarrow> time \<Rightarrow> time \<Rightarrow> files \<Rightarrow> tls_shim \<Rightarrow> (files \<times> tls_shim \<times> (string + unit)) outcome" where
  "renew_certificate_async w env t1 t2 fs s =
    (case issue_cert w env s fs of
       (fs1, Inl e) \<Rightarrow> Returns (fs1, s, Inl e)
     | (fs1, Inr (cpem, kpem)) \<Rightarrow>
         (case make_cert_info w t1 t2 (ts_domain s) (provider_issuer s) cpem kpem of Panics \<Rightarrow> Panics
          | Returns c \<Rightarrow>
              (let s1 = register_cert c s in
               Returns (fs1, s1\<lparr>state := (state s1)\<lparr>certs_renewed := certs_renewed (state s1) + 1,
                                                    last_renewal := Some t2\<rparr>\<rparr>, Inr ()))))"

definition version_allowed :: "tls_version \<Rightarrow> tls_shim \<Rightarrow> bool" where
  "version_allowed v s = (min_version s \<le> v)"

definition cert_count :: "tls_shim \<Rightarrow> nat" where
  "cert_count s = length (managed_certs (state s))"

section \<open>Capability\<close>

definition tls_init :: "validators \<Rightarrow> env \<Rightarrow> config \<Rightarrow> tls_shim \<Rightarrow> string + tls_shim" where
  "tls_init v env cfg s =
    (let errs = filter (\<lambda>e. starts_with (err_field e) ''tls.'') (validate v cfg) in
     if validation_enabled env \<and> errs \<noteq> []
     then Inl (''tls config validation failed: '' @ join ''; '' (map config_error_display errs))
     else Inr (case tls cfg of None \<Rightarrow> s
               | Some t \<Rightarrow> s\<lparr>ts_provider := provider t, ts_domain := domain t, ts_email := email t,
                              ts_renew_before_secs := renew_before_secs t\<rparr>))"

definition try_renew ::
  "tls_world \<Rightarrow> env \<Rightarrow> time \<Rightarrow> time \<Rightarrow> files \<Rightarrow> tls_shim \<Rightarrow> (files \<times> tls_shim) outcome" where
  "try_renew w env t1 t2 fs s =
    (case renew_certificate_async w env t1 t2 fs s of Panics \<Rightarrow> Panics
     | Returns (fs1, s1, Inr _) \<Rightarrow> Returns (fs1, s1)
     | Returns (fs1, s1, Inl e) \<Rightarrow>
         Returns (fs1, s1\<lparr>state := (state s1)\<lparr>certs_failed := certs_failed (state s1) + 1\<rparr>\<rparr>))"

definition initial_cert ::
  "tls_world \<Rightarrow> env \<Rightarrow> time \<Rightarrow> time \<Rightarrow> files \<Rightarrow> tls_shim \<Rightarrow> (files \<times> tls_shim) outcome" where
  "initial_cert w env t1 t2 fs s =
    (if ts_domain s = [] then Returns (fs, s)
     else (case load_cert_from_disk w t1 t2 fs s of Panics \<Rightarrow> Panics
           | Returns None \<Rightarrow> try_renew w env t1 t2 fs s
           | Returns (Some c) \<Rightarrow>
               (let s1 = register_cert c s in
                if needs_renewal s1 c then try_renew w env t1 t2 fs s1 else Returns (fs, s1))))"

definition tls_start ::
  "tls_world \<Rightarrow> env \<Rightarrow> time \<Rightarrow> time \<Rightarrow> files \<Rightarrow> tls_shim \<Rightarrow> (files \<times> tls_shim) outcome" where
  "tls_start w env t1 t2 fs s =
    (case initial_cert w env t1 t2 fs s of Panics \<Rightarrow> Panics
     | Returns (fs1, s1) \<Rightarrow> Returns (fs1, s1\<lparr>shutdown_tx := True\<rparr>))"

text \<open>The daily check of the spawned task: it decides whether renewal is due and only logs the answer.\<close>

definition daily_check :: "string \<Rightarrow> nat \<Rightarrow> tls_state \<Rightarrow> bool" where
  "daily_check dm secs st =
    (case map_of (managed_certs st) dm of
       None \<Rightarrow> False | Some c \<Rightarrow> days_until_expiry c < renew_days secs)"

definition tls_stop :: "tls_shim \<Rightarrow> tls_shim" where
  "tls_stop s = s\<lparr>shutdown_tx := False\<rparr>"

definition get_metrics :: "tls_shim \<Rightarrow> nat \<times> nat \<times> nat \<times> time option" where
  "get_metrics s =
    (certs_renewed (state s), certs_failed (state s), length (managed_certs (state s)), last_renewal (state s))"

definition tls_metrics :: "tls_shim \<Rightarrow> metric list" where
  "tls_metrics s =
    (case get_metrics s of (renewed, failed, n, last_time) \<Rightarrow>
       [(''tls_certs_renewed_total'', of_nat renewed), (''tls_certs_failed_total'', of_nat failed),
        (''tls_managed_certs'', of_nat n)] @
       (case last_time of None \<Rightarrow> []
        | Some t \<Rightarrow> [(''tls_last_renewal_timestamp'', of_int (t div second))]))"

section \<open>Lemmas\<close>

lemma paths_differ: "cert_path s \<noteq> key_path s"
  by (simp add: cert_path_def key_path_def)

lemma make_cert_info_sel:
  assumes "make_cert_info w t1 t2 dm iss cpem kpem = Returns c"
  shows "ci_domain c = dm" "cert_pem c = Some cpem" "key_pem c = Some kpem"
    "days_until_expiry c = num_days (t1 + 365 * day - t2)"
    "compute_fingerprint w cpem = Returns (fingerprint c)" "extract_serial w cpem = Returns (serial c)"
  using assms by (auto simp: make_cert_info_def not_after_from_cert_def Let_def split: outcome.splits)

lemma make_cert_info_returns:
  assumes "compute_fingerprint w cpem = Returns fp" and "extract_serial w cpem = Returns sn"
  shows "\<exists>c. make_cert_info w t1 t2 dm iss cpem kpem = Returns c \<and> cert_pem c = Some cpem \<and>
    key_pem c = Some kpem \<and> fingerprint c = fp \<and> serial c = sn"
  using assms by (simp add: make_cert_info_def Let_def)

lemma save_issued_ok:
  assumes "save_issued w s ck fs = (fs', Inr ck')"
  shows "ck' = ck" "fs' (cert_path s) = Some (fst ck)" "fs' (key_path s) = Some (snd ck)"
  using assms paths_differ [of s]
  by (auto simp: save_issued_def save_cert_to_disk_def write_file_def split: option.splits prod.splits sum.splits)

lemma provider_saves:
  "generate_internal_ca_cert w s fs = (fs', Inr ck) \<Longrightarrow> \<exists>ck1 fs1. save_issued w s ck1 fs1 = (fs', Inr ck)"
  "obtain_letsencrypt_cert w env s fs = (fs', Inr ck) \<Longrightarrow> \<exists>ck1 fs1. save_issued w s ck1 fs1 = (fs', Inr ck)"
  "request_vault_cert w s fs = (fs', Inr ck) \<Longrightarrow> \<exists>ck1 fs1. save_issued w s ck1 fs1 = (fs', Inr ck)"
  by (auto simp: generate_internal_ca_cert_def split: sum.splits)
    (auto simp: obtain_letsencrypt_cert_def split: if_splits sum.splits prod.splits,
     auto simp: request_vault_cert_def split: option.splits vault_reply.splits sum.splits)

lemma issue_cert_ok:
  assumes "issue_cert w env s fs = (fs', Inr ck)"
  shows "fs' (cert_path s) = Some (fst ck) \<and> fs' (key_path s) = Some (snd ck)"
proof -
  from assms have "generate_internal_ca_cert w s fs = (fs', Inr ck) \<or> obtain_letsencrypt_cert w env s fs = (fs', Inr ck) \<or>
      request_vault_cert w s fs = (fs', Inr ck)"
    by (simp add: issue_cert_def split: if_splits)
  then obtain ck1 fs1 where "save_issued w s ck1 fs1 = (fs', Inr ck)"
    using provider_saves by blast
  then show ?thesis
    using save_issued_ok [of w s ck1 fs1 fs' ck] by simp
qed

lemma register_cert_sel [simp]:
  "get_cert d (register_cert c s) = (if d = ci_domain c then Some c else get_cert d s)"
  "ts_domain (register_cert c s) = ts_domain s" "data_dir (register_cert c s) = data_dir s"
  "ts_renew_before_secs (register_cert c s) = ts_renew_before_secs s"
  "certs_renewed (state (register_cert c s)) = certs_renewed (state s)"
  by (simp_all add: register_cert_def get_cert_def)

lemma renew_days_small: "n < 2 ^ 63 \<Longrightarrow> renew_days n = int n div 86400"
proof -
  assume "n < 2 ^ 63"
  then have "sint (of_nat n :: u64) = int n"
    by (simp add: signed_of_nat signed_take_bit_int_eq_self)
  then show ?thesis
    by (simp add: renew_days_def Let_def)
qed

lemma fresh_days:
  assumes "t1 \<le> t2" and "t2 - t1 < day"
  shows "364 \<le> num_days (t1 + 365 * day - t2)"
  using assms zdiv_mono1 [of "364 * day" "t1 + 365 * day - t2" day] by (simp add: num_days_def)

text \<open>The certificates are filed under their domains.\<close>

definition tls_inv :: "tls_shim \<Rightarrow> bool" where
  "tls_inv s = (hm_wf (managed_certs (state s)) \<and> (\<forall>(d, c)\<in>set (managed_certs (state s)). ci_domain c = d))"

datatype tls_op =
    Register cert_info
  | Remove string
  | Renew tls_world env time time files
  | Start tls_world env time time files
  | Init validators env config
  | Stop

fun tls_exec :: "tls_op \<Rightarrow> tls_shim \<Rightarrow> tls_shim" where
  "tls_exec (Register c) s = register_cert c s"
| "tls_exec (Remove d) s = fst (remove_cert d s)"
| "tls_exec (Renew w env t1 t2 fs) s =
    (case renew_certificate_async w env t1 t2 fs s of Panics \<Rightarrow> s | Returns (_, s1, _) \<Rightarrow> s1)"
| "tls_exec (Start w env t1 t2 fs) s =
    (case tls_start w env t1 t2 fs s of Panics \<Rightarrow> s | Returns (_, s1) \<Rightarrow> s1)"
| "tls_exec (Init v env cfg) s = (case tls_init v env cfg s of Inl _ \<Rightarrow> s | Inr s1 \<Rightarrow> s1)"
| "tls_exec Stop s = tls_stop s"

lemma register_cert_inv: "tls_inv s \<Longrightarrow> tls_inv (register_cert c s)"
  by (auto simp: tls_inv_def register_cert_def hm_insert_def hm_remove_def distinct_map_filter
      intro: hm_wf_insert [unfolded hm_insert_def hm_remove_def])

lemma renew_inv:
  assumes "tls_inv s" and "renew_certificate_async w env t1 t2 fs s = Returns (fs', s', r)"
  shows "tls_inv s'"
proof -
  consider "s' = s" | c where "s' = (register_cert c s)\<lparr>state := (state (register_cert c s))\<lparr>
      certs_renewed := certs_renewed (state (register_cert c s)) + 1, last_renewal := Some t2\<rparr>\<rparr>"
    using assms(2) by (auto simp: renew_certificate_async_def Let_def split: prod.splits sum.splits outcome.splits)
  then show ?thesis
    using assms(1) register_cert_inv by cases (auto simp: tls_inv_def)
qed

lemma try_renew_inv: "tls_inv s \<Longrightarrow> try_renew w env t1 t2 fs s = Returns (fs', s') \<Longrightarrow> tls_inv s'"
  using renew_inv [of s w env t1 t2 fs]
  by (fastforce simp: try_renew_def tls_inv_def split: outcome.splits prod.splits sum.splits)

lemma initial_cert_inv: "tls_inv s \<Longrightarrow> initial_cert w env t1 t2 fs s = Returns (fs', s') \<Longrightarrow> tls_inv s'"
  by (auto simp: initial_cert_def Let_def register_cert_inv
      elim!: try_renew_inv [rotated] split: if_splits outcome.splits option.splits)

lemma tls_exec_inv: "tls_inv s \<Longrightarrow> tls_inv (tls_exec op s)"
proof (cases op)
  case (Start w env t1 t2 fs)
  then show "tls_inv s \<Longrightarrow> ?thesis"
    using initial_cert_inv [of s w env t1 t2 fs]
    by (auto simp: tls_start_def tls_inv_def split: outcome.splits prod.splits)
next
  case (Renew w env t1 t2 fs)
  then show "tls_inv s \<Longrightarrow> ?thesis"
    by (auto split: outcome.splits prod.splits elim: renew_inv)
next
  case (Register c)
  then show "tls_inv s \<Longrightarrow> ?thesis"
    by (simp add: register_cert_inv)
qed (auto simp: remove_cert_def tls_init_def tls_stop_def tls_inv_def Let_def hm_wf_remove
    set_hm_remove split: option.splits)

interpretation tls_ops: op_system tls_exec tls_inv
  by unfold_locales (rule tls_exec_inv)

section \<open>Properties\<close>

text \<open>The table of certificates is well formed after any sequence of calls: every domain has at most one
  certificate, and looking a domain up gives a certificate for that domain.\<close>

theorem certs_filed_by_domain:
  assumes "s = fold tls_exec ops (tls_new env)"
  shows "distinct (map fst (managed_certs (state s))) \<and> (get_cert d s = Some c \<longrightarrow> ci_domain c = d)"
proof -
  have "tls_inv s"
    unfolding assms by (rule tls_ops.fold_inv) (simp add: tls_inv_def tls_new_def)
  then show ?thesis
    by (auto simp: tls_inv_def get_cert_def dest: map_of_SomeD)
qed

text \<open>A certificate that was renewed is the one found after a restart: when renewal succeeds, certificate and key
  are on disk, and loading them at any later time gives the same certificate, key, serial number and
  fingerprint as the certificate in use.\<close>

theorem renewed_cert_reloads:
  assumes "renew_certificate_async w env t1 t2 fs s = Returns (fs', s', Inr ())"
  shows "\<exists>c c'. get_cert (ts_domain s) s' = Some c \<and> load_cert_from_disk w t3 t4 fs' s' = Returns (Some c') \<and>
    cert_pem c' = cert_pem c \<and> key_pem c' = key_pem c \<and> serial c' = serial c \<and> fingerprint c' = fingerprint c"
proof -
  obtain cpem kpem where issued: "issue_cert w env s fs = (fs', Inr (cpem, kpem))"
    using assms by (auto simp: renew_certificate_async_def Let_def split: prod.splits sum.splits outcome.splits)
  then obtain c where c: "make_cert_info w t1 t2 (ts_domain s) (provider_issuer s) cpem kpem = Returns c"
    and s': "s' = (register_cert c s)\<lparr>state := (state (register_cert c s))\<lparr>
      certs_renewed := certs_renewed (state (register_cert c s)) + 1, last_renewal := Some t2\<rparr>\<rparr>"
    using assms by (auto simp: renew_certificate_async_def Let_def split: outcome.splits)
  note sel = make_cert_info_sel [OF c]
  have "cert_path s' = cert_path s" "key_path s' = key_path s" "ts_domain s' = ts_domain s"
    by (simp_all add: s' cert_path_def key_path_def)
  moreover obtain c' where "make_cert_info w t3 t4 (ts_domain s) ''loaded from disk'' cpem kpem = Returns c'"
    "cert_pem c' = Some cpem" "key_pem c' = Some kpem" "fingerprint c' = fingerprint c" "serial c' = serial c"
    using make_cert_info_returns [OF sel(5,6)] by blast
  moreover have "get_cert (ts_domain s) s' = Some c"
    using sel(1) by (simp add: s' get_cert_def register_cert_def)
  ultimately show ?thesis
    using issue_cert_ok [OF issued] sel(2,3) by (simp add: load_cert_from_disk_def)
qed

text \<open>A certificate found on disk is never renewed, however old it is.  The end of its life is taken to be a year
  from now whatever the certificate says, so with any renewal window below 364 days \<^verbatim>\<open>start\<close> keeps
  it, reports at least 364 days left, asks no provider, and the daily check finds nothing to do.\<close>

theorem disk_cert_never_renewed:
  assumes "fs (cert_path s) = Some cpem" and "fs (key_path s) = Some kpem" and "ts_domain s \<noteq> []"
    and "t1 \<le> t2" and "t2 - t1 < day" and "ts_renew_before_secs s < 364 * 86400"
    and "tls_start w env t1 t2 fs s = Returns (fs', s')"
  shows "fs' = fs \<and> certs_renewed (state s') = certs_renewed (state s) \<and>
    (\<exists>c. get_cert (ts_domain s) s' = Some c \<and> cert_pem c = Some cpem \<and> 364 \<le> days_until_expiry c) \<and>
    \<not> daily_check (ts_domain s) (ts_renew_before_secs s) (state s')"
proof -
  obtain c where c: "make_cert_info w t1 t2 (ts_domain s) ''loaded from disk'' cpem kpem = Returns c"
    using assms(1-3,7) by (auto simp: tls_start_def initial_cert_def load_cert_from_disk_def split: outcome.splits)
  note sel = make_cert_info_sel [OF c]
  have days: "364 \<le> days_until_expiry c"
    unfolding sel(4) by (rule fresh_days [OF assms(4,5)])
  have "renew_days (ts_renew_before_secs s) = int (ts_renew_before_secs s) div 86400"
    using assms(6) by (intro renew_days_small) simp
  moreover have "int (ts_renew_before_secs s) div 86400 \<le> 364"
    using assms(6) zdiv_mono1 [of "int (ts_renew_before_secs s)" "364 * 86400" 86400] by simp
  ultimately have late: "\<not> days_until_expiry c < renew_days (ts_renew_before_secs s)"
    using days by simp
  then have "fs' = fs" and s': "s' = (register_cert c s)\<lparr>shutdown_tx := True\<rparr>"
    using assms(1-3,7) c by (auto simp: tls_start_def initial_cert_def load_cert_from_disk_def needs_renewal_def Let_def)
  have "map_of (managed_certs (state s')) (ts_domain s) = Some c"
    using register_cert_sel(1) [of "ts_domain s" c s] by (simp add: s' get_cert_def sel(1))
  then show ?thesis
    using \<open>fs' = fs\<close> late days sel(2) by (simp add: s' daily_check_def get_cert_def)
qed

definition sample_world :: tls_world where
  "sample_world = \<lparr>sha256 = id, rfc3339 = (\<lambda>_. ''t''), self_signed = (\<lambda>d. Inr (''c'', ''k'')),
     mkdir_error = (\<lambda>_. None), write_error = (\<lambda>_. None), client_error = None,
     vault_post = (\<lambda>_ _ _. SendError ''no''), acme_register = (\<lambda>_ _. Inl ''no''), acme_order = (\<lambda>_. Inl ''no'')\<rparr>"

definition sample_tls :: tls_shim where
  "sample_tls = (tls_new (\<lambda>_. None))\<lparr>ts_domain := ''d'', ts_provider := ''internal-ca''\<rparr>"

lemma sample_cert_der: "cert_der ''c'' = Returns []"
  by (simp add: cert_der_def pem_decode_def begin_label_def)

theorem certs_filed_by_domain_witness:
  "distinct (map fst (managed_certs (state (fold tls_exec
     [Renew sample_world (\<lambda>_. None) 0 1 Map.empty, Remove ''d''] (tls_new (\<lambda>_. None))))))"
  by (rule certs_filed_by_domain [OF refl, THEN conjunct1])

theorem renewed_cert_reloads_witness:
  "\<exists>fs' s' c. renew_certificate_async sample_world (\<lambda>_. None) 0 1 Map.empty sample_tls = Returns (fs', s', Inr ()) \<and>
     load_cert_from_disk sample_world 5 6 fs' s' = Returns (Some c)"
proof -
  have "make_cert_info sample_world 0 1 d i ''c'' ''k'' \<noteq> Panics" for d i
    by (simp add: make_cert_info_def compute_fingerprint_def extract_serial_def sample_cert_der Let_def)
  then have "\<exists>fs' s'. renew_certificate_async sample_world (\<lambda>_. None) 0 1 Map.empty sample_tls = Returns (fs', s', Inr ())"
    by (auto simp: renew_certificate_async_def issue_cert_def generate_internal_ca_cert_def save_issued_def Let_def
        save_cert_to_disk_def write_file_def sample_world_def sample_tls_def split: outcome.split)
  then obtain fs' s' where "renew_certificate_async sample_world (\<lambda>_. None) 0 1 Map.empty sample_tls = Returns (fs', s', Inr ())"
    by blast
  with renewed_cert_reloads [OF this, of 5 6] show ?thesis
    by blast
qed

theorem disk_cert_never_renewed_witness:
  "\<exists>fs' s'. tls_start sample_world (\<lambda>_. None) 0 1 (\<lambda>p. Some ''c'') sample_tls = Returns (fs', s') \<and>
     certs_renewed (state s') = 0"
proof -
  have "\<exists>c. make_cert_info sample_world 0 1 d i ''c'' ''c'' = Returns c \<and> \<not> needs_renewal sample_tls c" for d i
    by (simp add: make_cert_info_def compute_fingerprint_def extract_serial_def sample_cert_der Let_def
        needs_renewal_def renew_days_def not_after_from_cert_def num_days_def sample_tls_def tls_new_def env_uint_def)
  then obtain c where c: "make_cert_info sample_world 0 1 ''d'' ''loaded from disk'' ''c'' ''c'' = Returns c"
    "\<not> needs_renewal sample_tls c"
    by blast
  have dm: "ts_domain sample_tls = ''d''" "ts_renew_before_secs sample_tls = 259200"
    by (simp_all add: sample_tls_def tls_new_def env_uint_def)
  have "\<exists>fs' s'. tls_start sample_world (\<lambda>_. None) 0 1 (\<lambda>p. Some ''c'') sample_tls = Returns (fs', s')"
    using c by (simp add: tls_start_def initial_cert_def load_cert_from_disk_def dm Let_def needs_renewal_def)
  then obtain fs' s' where st: "tls_start sample_world (\<lambda>_. None) 0 1 (\<lambda>p. Some ''c'') sample_tls = Returns (fs', s')"
    by blast
  have "certs_renewed (state s') = certs_renewed (state sample_tls)"
    using disk_cert_never_renewed [OF refl refl _ _ _ _ st] dm by simp
  then show ?thesis
    using st by (simp add: sample_tls_def tls_new_def)
qed

end
