(* ===== verification/Management.thy ===== *)
theory Management
  imports Prelude
begin

text \<open>
  \<^verbatim>\<open>management-api\<close>: the rate limiter in front of the gRPC service, request validation and
  sanitisation, and the four calls of the service.  The generated message types are records; the gRPC
  server and the parsing of addresses are not modelled.  The limiter is proved to be the sliding window
  it stands for.
\<close>

section \<open>Rate limiter\<close>

record rate_limiter =
  timestamps :: "time list"
  max_requests :: nat
  window :: time

definition limiter_new :: "nat \<Rightarrow> rate_limiter" where
  "limiter_new n = \<lparr>timestamps = [], max_requests = n, window = 60 * second\<rparr>"

fun drop_expired :: "time \<Rightarrow> time \<Rightarrow> time list \<Rightarrow> time list" where
  "drop_expired now win [] = []"
| "drop_expired now win (t # ts) = (if win < now - t then drop_expired now win ts else t # ts)"

definition allow :: "time \<Rightarrow> rate_limiter \<Rightarrow> rate_limiter \<times> bool" where
  "allow now l =
    (let l1 = l\<lparr>timestamps := drop_expired now (window l) (timestamps l)\<rparr> in
     if max_requests l1 \<le> length (timestamps l1) then (l1, False)
     else (l1\<lparr>timestamps := timestamps l1 @ [now]\<rparr>, True))"

definition rate_limit_from_env :: "env \<Rightarrow> nat" where
  "rate_limit_from_env env = env_uint 64 env ''MGMT_RATE_LIMIT_RPM'' 60"

text \<open>A status of gRPC: its code and message.\<close>

datatype code = InvalidArgument | ResourceExhausted

type_synonym status = "code \<times> string"

text \<open>The service behind the limiter.\<close>

definition limited_call :: "('q \<Rightarrow> status + 'r) \<Rightarrow> time \<Rightarrow> 'q \<Rightarrow> rate_limiter \<Rightarrow> rate_limiter \<times> (status + 'r)" where
  "limited_call svc now req l =
    (case allow now l of
       (l1, False) \<Rightarrow> (l1, Inl (ResourceExhausted, ''rate limit exceeded''))
     | (l1, True) \<Rightarrow> (l1, svc req))"

section \<open>Validation and sanitisation\<close>

definition MAX_STRING_LENGTH :: nat where "MAX_STRING_LENGTH = 1024"
definition MAX_PORT :: nat where "MAX_PORT = 65535"
definition MAX_INPUT_LENGTH :: nat where "MAX_INPUT_LENGTH = 1024"

abbreviation nul :: char where
  "nul \<equiv> CHR 0x00"

definition is_alphanumeric :: "char \<Rightarrow> bool" where
  "is_alphanumeric c =
    (let n = (of_char c :: nat) in 48 \<le> n \<and> n \<le> 57 \<or> 65 \<le> n \<and> n \<le> 90 \<or> 97 \<le> n \<and> n \<le> 122)"

definition is_valid_metric_name :: "string \<Rightarrow> bool" where
  "is_valid_metric_name nm =
    (nm \<noteq> [] \<and> length nm \<le> MAX_STRING_LENGTH \<and>
     list_all (\<lambda>c. is_alphanumeric c \<or> c = CHR ''_'' \<or> c = CHR ''.'') nm)"

definition validate_string_field :: "string \<Rightarrow> string \<Rightarrow> bool \<Rightarrow> status + unit" where
  "validate_string_field v field_name required =
    (if v = [] then
       (if required then Inl (InvalidArgument, field_name @ '' must not be empty'') else Inr ())
     else if MAX_STRING_LENGTH < length v then
       Inl (InvalidArgument, field_name @ '' exceeds maximum length of '' @ show_nat MAX_STRING_LENGTH)
     else if nul \<in> set v then Inl (InvalidArgument, field_name @ '' contains null byte'')
     else Inr ())"

definition validate_port :: "nat \<Rightarrow> status + unit" where
  "validate_port port =
    (if port = 0 \<or> MAX_PORT < port
     then Inl (InvalidArgument, ''port must be between 1 and '' @ show_nat MAX_PORT @ '', got '' @ show_nat port)
     else Inr ())"

definition validate_metric_name :: "string \<Rightarrow> status + unit" where
  "validate_metric_name nm =
    (if \<not> is_valid_metric_name nm
     then Inl (InvalidArgument, ''invalid metric name: '' @ [CHR 39] @ nm @ [CHR 39]) else Inr ())"

text \<open>\<^verbatim>\<open>char::is_control\<close> on the ASCII range.\<close>

definition is_control :: "char \<Rightarrow> bool" where
  "is_control c = (let n = (of_char c :: nat) in n < 32 \<or> n = 127)"

definition keeps_char :: "char \<Rightarrow> bool" where
  "keeps_char c = (\<not> is_control c \<or> c = newline \<or> c = CHR 0x09)"

definition sanitize_input :: "string \<Rightarrow> string + string" where
  "sanitize_input inp =
    (if nul \<in> set inp then Inl ''input contains null byte''
     else Inr (take MAX_INPUT_LENGTH (filter keeps_char inp)))"

definition sanitize_string_field :: "string \<Rightarrow> string \<Rightarrow> status + string" where
  "sanitize_string_field v field_name =
    (case sanitize_input v of Inr s \<Rightarrow> Inr s
     | Inl msg \<Rightarrow> Inl (InvalidArgument, field_name @ '': '' @ msg))"

section \<open>The service\<close>

datatype metric_type = Counter | Gauge | Histogram | Summary
datatype health_status = Healthy | Degraded | Unhealthy

record api_metric =
  m_name :: string
  m_value :: f64
  m_labels :: "(string, string) hmap"
  m_type :: metric_type

record capability_info =
  cap_name :: string
  cap_enabled :: bool
  cap_version :: string
  dependencies :: "string list"
  metadata :: "(string, string) hmap"

record capability_status =
  cs_name :: string
  cs_enabled :: bool
  healthy :: bool
  last_error :: string

record shim_state =
  start_time :: time
  metrics :: "(string, api_metric) hmap"
  capabilities :: "capability_info list"

record status_response =
  health :: health_status
  resp_version :: string
  uptime_seconds :: string
  resp_capabilities :: "capability_status list"

record reload_response =
  success :: bool
  message :: string
  warnings :: "string list"

definition counter_metric :: "string \<Rightarrow> f64 \<Rightarrow> metric_type \<Rightarrow> api_metric" where
  "counter_metric nm v ty = \<lparr>m_name = nm, m_value = v, m_labels = [], m_type = ty\<rparr>"

definition shim_state_new :: "string \<Rightarrow> time \<Rightarrow> shim_state" where
  "shim_state_new ver now =
    \<lparr>start_time = now,
     metrics = [(''shim_events_published_total'', counter_metric ''shim_events_published_total'' 0 Counter),
                (''shim_health_status'', counter_metric ''shim_health_status'' 1 Gauge),
                (''shim_uptime_seconds'', counter_metric ''shim_uptime_seconds'' 0 Gauge)],
     capabilities =
       [\<lparr>cap_name = ''health'', cap_enabled = True, cap_version = ver, dependencies = [],
         metadata = [(''critical'', ''true'')]\<rparr>,
        \<lparr>cap_name = ''metrics'', cap_enabled = True, cap_version = ver, dependencies = [''health''],
         metadata = []\<rparr>]\<rparr>"

text \<open>The peer of a request by its header; parsing an address is a parameter.\<close>

definition extract_peer :: "(string \<Rightarrow> 'ip option) \<Rightarrow> 'ip \<Rightarrow> string option \<Rightarrow> 'ip" where
  "extract_peer parse unspecified forwarded =
    (case forwarded of None \<Rightarrow> unspecified
     | Some v \<Rightarrow> (case parse (trim (hd (split_on (CHR '','') v))) of Some ip \<Rightarrow> ip | None \<Rightarrow> unspecified))"

definition uptime :: "time \<Rightarrow> shim_state \<Rightarrow> nat" where
  "uptime now s = nat (num_seconds (now - start_time s))"

definition get_status :: "string \<Rightarrow> time \<Rightarrow> shim_state \<Rightarrow> status + status_response" where
  "get_status ver now s =
    Inr \<lparr>health = Healthy, resp_version = ver, uptime_seconds = show_nat (uptime now s),
         resp_capabilities = map (\<lambda>c. \<lparr>cs_name = cap_name c, cs_enabled = cap_enabled c, healthy = True,
           last_error = []\<rparr>) (capabilities s)\<rparr>"

definition get_metrics ::
  "((string, api_metric) hmap \<Rightarrow> (string, api_metric) hmap) \<Rightarrow> time \<Rightarrow> shim_state \<Rightarrow> status + api_metric list" where
  "get_metrics ord now s =
    Inr (map snd (hash_iter ord (metrics s)) @
         [counter_metric ''shim_uptime_seconds'' (of_nat (uptime now s)) Gauge])"

definition reload_config :: "string \<Rightarrow> shim_state \<Rightarrow> status + reload_response" where
  "reload_config config_path s =
    (case validate_string_field config_path ''config_path'' False of Inl e \<Rightarrow> Inl e
     | Inr _ \<Rightarrow>
         (case sanitize_string_field config_path ''config_path'' of Inl e \<Rightarrow> Inl e
          | Inr path \<Rightarrow>
              Inr \<lparr>success = True, message = ''Configuration reload triggered successfully'',
                   warnings = (if path = [] then [''No config path specified, reloading current config''] else [])\<rparr>))"

definition list_capabilities :: "shim_state \<Rightarrow> status + capability_info list" where
  "list_capabilities s = Inr (capabilities s)"

section \<open>The sliding window\<close>

text \<open>The calls a limiter accepts, in order, and the specification: a call is accepted when fewer than
  the limit were accepted within the window that ends with it.\<close>

fun accepted_calls :: "time list \<Rightarrow> rate_limiter \<Rightarrow> time list" where
  "accepted_calls [] l = []"
| "accepted_calls (t # ts) l =
    (case allow t l of (l1, ok) \<Rightarrow> (if ok then [t] else []) @ accepted_calls ts l1)"

definition recent :: "time \<Rightarrow> time \<Rightarrow> time list \<Rightarrow> time list" where
  "recent now win acc = filter (\<lambda>x. now - x \<le> win) acc"

fun window_calls :: "nat \<Rightarrow> time \<Rightarrow> time list \<Rightarrow> time list \<Rightarrow> time list" where
  "window_calls n win acc [] = []"
| "window_calls n win acc (t # ts) =
    (if length (recent t win acc) < n then t # window_calls n win (acc @ [t]) ts
     else window_calls n win acc ts)"

text \<open>A limiter holds the recent part of the calls it accepted.\<close>

definition holds_recent :: "time list \<Rightarrow> rate_limiter \<Rightarrow> time \<Rightarrow> bool" where
  "holds_recent acc l now =
    (sorted acc \<and> (\<forall>x\<in>set acc. x \<le> now) \<and>
     (\<exists>old. acc = old @ timestamps l \<and> (\<forall>x\<in>set old. window l < now - x)))"

lemma drop_expired_dropWhile: "drop_expired now win ts = dropWhile (\<lambda>x. win < now - x) ts"
  by (induction ts) simp_all

lemma drop_expired_recent: "sorted ts \<Longrightarrow> drop_expired now win ts = recent now win ts"
proof (induction ts)
  case (Cons t ts)
  have "filter (\<lambda>x. now - x \<le> win) ts = ts" if "\<not> win < now - t"
    using Cons.prems that by (fastforce simp: filter_id_conv)
  then show ?case
    using Cons by (cases "win < now - t") (auto simp: recent_def)
qed (simp add: recent_def)

lemma allow_decides:
  assumes "holds_recent acc l now" and "now \<le> t"
  shows "timestamps (l\<lparr>timestamps := drop_expired t (window l) (timestamps l)\<rparr>) = recent t (window l) acc"
proof -
  obtain old where acc: "acc = old @ timestamps l" and old: "\<forall>x\<in>set old. window l < now - x"
    using assms(1) by (auto simp: holds_recent_def)
  have "sorted (timestamps l)"
    using assms(1) by (simp add: holds_recent_def acc sorted_append)
  moreover have "recent t (window l) old = []"
    using old assms(2) by (fastforce simp: recent_def filter_empty_conv)
  ultimately show ?thesis
    by (simp add: drop_expired_recent acc) (simp add: recent_def)
qed

lemma allow_step:
  assumes "holds_recent acc l now" and "now \<le> t" and "allow t l = (l1, ok)"
  shows "ok \<longleftrightarrow> length (recent t (window l) acc) < max_requests l"
    and "holds_recent (acc @ (if ok then [t] else [])) l1 t"
    and "window l1 = window l" "max_requests l1 = max_requests l"
proof -
  define r where "r = recent t (window l) acc"
  have ts: "drop_expired t (window l) (timestamps l) = r"
    using allow_decides [OF assms(1,2)] by (simp add: r_def)
  show ok: "ok \<longleftrightarrow> length (recent t (window l) acc) < max_requests l"
    and keep: "window l1 = window l" "max_requests l1 = max_requests l"
    using assms(3) by (auto simp: allow_def Let_def ts r_def [symmetric] split: if_splits)
  have l1: "timestamps l1 = r @ (if ok then [t] else [])"
    using assms(3) by (auto simp: allow_def Let_def ts split: if_splits)
  have srt: "sorted acc" "\<forall>x\<in>set acc. x \<le> t"
    using assms(1,2) by (auto simp: holds_recent_def)
  have "acc = takeWhile (\<lambda>x. window l < t - x) acc @ r"
  proof -
    have "dropWhile (\<lambda>x. window l < t - x) acc = r"
      using srt(1) drop_expired_recent [of acc t "window l"] unfolding r_def
      by (metis drop_expired_dropWhile)
    then show ?thesis
      by (metis takeWhile_dropWhile_id)
  qed
  then have split: "acc @ (if ok then [t] else []) = takeWhile (\<lambda>x. window l < t - x) acc @ timestamps l1"
    by (simp add: l1)
  show "holds_recent (acc @ (if ok then [t] else [])) l1 t"
    unfolding holds_recent_def keep
  proof (intro conjI exI)
    show "acc @ (if ok then [t] else []) = takeWhile (\<lambda>x. window l < t - x) acc @ timestamps l1"
      by (rule split)
  qed (use srt in \<open>auto simp: sorted_append dest: set_takeWhileD\<close>)
qed

lemma accepted_calls_window:
  assumes "holds_recent acc l now" and "sorted (now # ts)"
  shows "accepted_calls ts l = window_calls (max_requests l) (window l) acc ts"
  using assms
proof (induction ts arbitrary: acc l now)
  case (Cons t ts)
  obtain l1 ok where a: "allow t l = (l1, ok)"
    by fastforce
  note step = allow_step [OF Cons.prems(1) _ a]
  have "accepted_calls ts l1 = window_calls (max_requests l1) (window l1) (acc @ (if ok then [t] else [])) ts"
    using Cons.prems(2) by (intro Cons.IH [of _ _ t] step(2)) auto
  then show ?case
    using step(1,3,4) Cons.prems(2) by (auto simp: a)
qed simp

lemma length_filter_weaker:
  "(\<And>x. P x \<Longrightarrow> Q x) \<Longrightarrow> length (filter P xs) \<le> length (filter Q xs)"
  by (induction xs) (auto simp: le_SucI)

lemma window_calls_bound:
  assumes "sorted (acc @ ts)" and "\<And>a. length (filter (\<lambda>x. a \<le> x \<and> x \<le> a + win) acc) \<le> n"
  shows "length (filter (\<lambda>x. a \<le> x \<and> x \<le> a + win) (acc @ window_calls n win acc ts)) \<le> n"
  using assms
proof (induction ts arbitrary: acc)
  case (Cons t ts)
  show ?case
  proof (cases "length (recent t win acc) < n")
    case True
    have "length (filter (\<lambda>x. b \<le> x \<and> x \<le> b + win) (acc @ [t])) \<le> n" for b
    proof (cases "b \<le> t \<and> t \<le> b + win")
      case inside: True
      have "length (filter (\<lambda>x. b \<le> x \<and> x \<le> b + win) acc) \<le> length (recent t win acc)"
        unfolding recent_def using inside by (intro length_filter_weaker) auto
      then show ?thesis
        using True inside by simp
    qed (use Cons.prems(2) [of b] in auto)
    then show ?thesis
      using Cons.IH [of "acc @ [t]"] Cons.prems(1) True by simp
  next
    case False
    then show ?thesis
      using Cons.IH [of acc] Cons.prems by (simp add: sorted_append)
  qed
qed simp

section \<open>Properties\<close>

text \<open>C24: The limiter is an exact sliding window.  On calls in order of time it accepts exactly those before
  which fewer than the limit were accepted in the last 60 seconds; so in any period of 60 seconds,
  wherever it starts, at most the configured number of calls is accepted.\<close>

theorem limiter_is_sliding_window:
  assumes "sorted ts"
  shows "accepted_calls ts (limiter_new n) = window_calls n (60 * second) [] ts \<and>
    length (filter (\<lambda>x. a \<le> x \<and> x \<le> a + 60 * second) (accepted_calls ts (limiter_new n))) \<le> n"
proof (cases ts)
  case (Cons t ts')
  have "holds_recent [] (limiter_new n) t"
    by (simp add: holds_recent_def limiter_new_def)
  then have "accepted_calls ts (limiter_new n) = window_calls n (60 * second) [] ts"
    using assms Cons accepted_calls_window [of "[]" "limiter_new n" t ts] by (simp add: limiter_new_def)
  then show ?thesis
    using window_calls_bound [of "[]" ts "60 * second" n a] assms by simp
qed simp

theorem limiter_is_sliding_window_witness:
  "accepted_calls [0, 1, 2, 61 * second] (limiter_new 2) = [0, 1, 61 * second]"
  by (subst conjunct1 [OF limiter_is_sliding_window]) (simp_all add: recent_def)

text \<open>What a reload request is answered: an argument error exactly when the path has more than 1024 bytes or
  contains a zero byte; otherwise success, with the warning about the current configuration exactly
  when no printable character, newline or tab is left of the path.\<close>

theorem reload_config_answers:
  "(case reload_config path s of
      Inl e \<Rightarrow> fst e = InvalidArgument \<and> (1024 < length path \<or> nul \<in> set path)
    | Inr r \<Rightarrow> length path \<le> 1024 \<and> nul \<notin> set path \<and> success r \<and>
        (warnings r \<noteq> [] \<longleftrightarrow> list_all (\<lambda>c. \<not> keeps_char c) path))"
  by (auto simp: reload_config_def validate_string_field_def sanitize_string_field_def sanitize_input_def
      MAX_STRING_LENGTH_def MAX_INPUT_LENGTH_def list_all_iff filter_empty_conv)

text \<open>The answer to a metrics request has the uptime twice, the stored one never changing.\<close>

lemma uptime_reported_twice:
  assumes "get_metrics ord now (shim_state_new ver t0) = Inr ms"
  shows "length (filter (\<lambda>m. m_name m = ''shim_uptime_seconds'') ms) = 2"
proof -
  define h where "h = hash_iter ord (metrics (shim_state_new ver t0))"
  have "mset h = mset (metrics (shim_state_new ver t0))"
    by (simp add: h_def mset_hash_iter)
  then have "mset (filter (\<lambda>m. m_name m = ''shim_uptime_seconds'') (map snd h)) =
      mset (filter (\<lambda>m. m_name m = ''shim_uptime_seconds'') (map snd (metrics (shim_state_new ver t0))))"
    by (simp add: mset_filter)
  from arg_cong [OF this, of size]
  have "length (filter (\<lambda>m. m_name m = ''shim_uptime_seconds'') (map snd h)) =
      length (filter (\<lambda>m. m_name m = ''shim_uptime_seconds'') (map snd (metrics (shim_state_new ver t0))))"
    by (simp only: size_mset)
  also have "\<dots> = 1"
    by (simp add: shim_state_new_def counter_metric_def)
  finally show ?thesis
    using assms by (auto simp: get_metrics_def h_def [symmetric] counter_metric_def)
qed

end
