(* ===== verification/Config_Watch.thy ===== *)
theory Config_Watch
  imports Prelude
begin

text \<open>
  \<^verbatim>\<open>config-shim\<close>: watching a configuration file by its SHA-256 hash and reloading it (validate, back up,
  remember the hash, signal the child).  The digest, the validation command, the copy and \<^verbatim>\<open>kill\<close> are
  parameters; files are a map from paths to contents; the signals sent are a list.
\<close>

section \<open>Data\<close>

datatype signal = SIGHUP | SIGUSR1 | SIGUSR2 | SIGTERM | OtherSignal int

record reload_event =
  ev_timestamp :: time
  ev_path :: string
  old_hash :: string
  new_hash :: string
  ev_success :: bool
  ev_error :: "string option"
  backup_path :: "string option"

record config_shim =
  config_path :: string
  watch_enabled :: bool
  reload_signal :: signal
  reload_debounce_secs :: nat
  validate_cmd :: "string option"
  keep_backup :: bool
  child_pid :: "nat option"
  reloads_total :: nat
  reloads_success :: nat
  reloads_failed :: nat
  last_reload :: "time option"
  last_hash :: "string option"
  reload_tx :: bool
  shutdown_tx :: bool

type_synonym files = "string \<Rightarrow> string option"

text \<open>The rendered digest, the validation command on its arguments, errors of copying and of \<^verbatim>\<open>kill\<close>, and the
  signal of a number.\<close>

record config_world =
  sha256_hex :: "string \<Rightarrow> string"
  run_sh :: "string \<Rightarrow> string \<Rightarrow> command_output"
  copy_error :: "string \<Rightarrow> string \<Rightarrow> string option"
  kill_error :: "int \<Rightarrow> signal \<Rightarrow> string option"
  signal_of_number :: "int \<Rightarrow> signal option"

section \<open>Operations\<close>

definition upper_char :: "char \<Rightarrow> char" where
  "upper_char c = (let n = (of_char c :: nat) in if 97 \<le> n \<and> n \<le> 122 then char_of (n - 32) else c)"

definition parse_signal :: "config_world \<Rightarrow> string \<Rightarrow> signal option" where
  "parse_signal w s =
    (let u = map upper_char s in
     if u = ''SIGHUP'' then Some SIGHUP
     else if u = ''SIGUSR1'' then Some SIGUSR1
     else if u = ''SIGUSR2'' then Some SIGUSR2
     else if u = ''SIGTERM'' then Some SIGTERM
     else (case parse_int 32 s of None \<Rightarrow> None | Some n \<Rightarrow> signal_of_number w n))"

definition config_new :: "config_world \<Rightarrow> env \<Rightarrow> config_shim" where
  "config_new w env =
    \<lparr>config_path = env_str env ''CONFIG_PATH'' ''/etc/app/config.toml'',
     watch_enabled = env_flag env ''CONFIG_WATCH'' True,
     reload_signal = (case parse_signal w (env_str env ''CONFIG_RELOAD_SIGNAL'' ''SIGHUP'') of
         Some sg \<Rightarrow> sg | None \<Rightarrow> SIGHUP),
     reload_debounce_secs = env_uint 64 env ''CONFIG_RELOAD_DEBOUNCE'' 5,
     validate_cmd = env ''CONFIG_VALIDATE_CMD'', keep_backup = env_flag env ''CONFIG_BACKUP'' True,
     child_pid = None, reloads_total = 0, reloads_success = 0, reloads_failed = 0, last_reload = None,
     last_hash = None, reload_tx = False, shutdown_tx = False\<rparr>"

definition set_child_pid :: "nat \<Rightarrow> config_shim \<Rightarrow> config_shim" where
  "set_child_pid pid s = s\<lparr>child_pid := Some pid\<rparr>"

definition file_hash :: "config_world \<Rightarrow> files \<Rightarrow> string \<Rightarrow> string option" where
  "file_hash w fs path = map_option (sha256_hex w) (fs path)"

definition validate :: "config_world \<Rightarrow> config_shim \<Rightarrow> string \<Rightarrow> string + unit" where
  "validate w s path =
    (case validate_cmd s of None \<Rightarrow> Inr ()
     | Some cmd \<Rightarrow>
         (case run_sh w cmd path of NotRun e \<Rightarrow> Inl e
          | ExitFailure err \<Rightarrow> Inl (''Config validation failed: '' @ trim err)
          | ExitSuccess _ \<Rightarrow> Inr ()))"

text \<open>\<^verbatim>\<open>Path::with_extension\<close> on a path that names a file: the part of the name before its last dot (unless
  the dot comes first) with the new extension.\<close>

definition with_extension :: "string \<Rightarrow> string \<Rightarrow> string" where
  "with_extension path ext =
    (let r = rev path; nm = takeWhile (\<lambda>c. c \<noteq> CHR ''/'') r; dir = rev (drop (length nm) r);
         before = drop 1 (dropWhile (\<lambda>c. c \<noteq> CHR ''.'') nm);
         stem = rev (if before = [] then nm else before)
     in dir @ stem @ ''.'' @ ext)"

definition backup :: "config_world \<Rightarrow> config_shim \<Rightarrow> files \<Rightarrow> files \<times> (string + string option)" where
  "backup w s fs =
    (if \<not> keep_backup s then (fs, Inr None)
     else (let dst = with_extension (config_path s) ''toml.bak'' in
           case fs (config_path s) of None \<Rightarrow> (fs, Inr None)
           | Some content \<Rightarrow>
               (case copy_error w (config_path s) dst of Some e \<Rightarrow> (fs, Inl e)
                | None \<Rightarrow> (fs(dst \<mapsto> content), Inr (Some dst)))))"

text \<open>The process number becomes signed; a successful call adds to the signals sent.\<close>

definition send_signal :: "config_world \<Rightarrow> config_shim \<Rightarrow> (int \<times> signal) list \<times> (string + unit)" where
  "send_signal w s =
    (case child_pid s of None \<Rightarrow> ([], Inr ())
     | Some p \<Rightarrow>
         (let pid = sint (of_nat p :: u32) in
          case kill_error w pid (reload_signal s) of Some e \<Rightarrow> ([], Inl e)
          | None \<Rightarrow> ([(pid, reload_signal s)], Inr ())))"

type_synonym reload_result = "config_shim \<times> files \<times> (int \<times> signal) list \<times> (string + reload_event)"

definition reload_event_of :: "time \<Rightarrow> config_shim \<Rightarrow> string \<Rightarrow> string option \<Rightarrow> reload_event" where
  "reload_event_of now s h bp =
    \<lparr>ev_timestamp = now, ev_path = config_path s,
     old_hash = (case last_hash s of Some x \<Rightarrow> x | None \<Rightarrow> []), new_hash = h, ev_success = True,
     ev_error = None, backup_path = bp\<rparr>"

definition reload :: "config_world \<Rightarrow> time \<Rightarrow> files \<Rightarrow> config_shim \<Rightarrow> reload_result" where
  "reload w now fs s =
    (case file_hash w fs (config_path s) of
       None \<Rightarrow> (s, fs, [], Inl (''Cannot read config file: '' @ config_path s))
     | Some h \<Rightarrow>
         (if Some h = last_hash s then (s, fs, [], Inr (reload_event_of now s h None))
          else (case validate w s (config_path s) of Inl e \<Rightarrow> (s, fs, [], Inl e)
                | Inr _ \<Rightarrow>
                    (case backup w s fs of (fs1, Inl e) \<Rightarrow> (s, fs1, [], Inl e)
                     | (fs1, Inr bp) \<Rightarrow>
                         (let s1 = s\<lparr>last_hash := Some h\<rparr> in
                          case send_signal w s1 of (sent, Inl e) \<Rightarrow> (s1, fs1, sent, Inl e)
                          | (sent, Inr _) \<Rightarrow>
                              (s1\<lparr>reloads_total := reloads_total s1 + 1,
                                  reloads_success := reloads_success s1 + 1, last_reload := Some now\<rparr>,
                               fs1, sent, Inr (reload_event_of now s h bp)))))))"

section \<open>Capability\<close>

definition config_start :: "config_world \<Rightarrow> files \<Rightarrow> config_shim \<Rightarrow> config_shim" where
  "config_start w fs s =
    (let s1 = (if fs (config_path s) \<noteq> None then s\<lparr>last_hash := file_hash w fs (config_path s)\<rparr> else s);
         s2 = s1\<lparr>reload_tx := True\<rparr>
     in if watch_enabled s2 then s2\<lparr>shutdown_tx := True\<rparr> else s2)"

text \<open>One pass of the watch task over the hash it remembers; it reports whether the file changed.\<close>

definition watch_pass :: "config_world \<Rightarrow> files \<Rightarrow> string \<Rightarrow> string option \<Rightarrow> string option \<times> bool" where
  "watch_pass w fs path seen =
    (let current = file_hash w fs path in if current \<noteq> seen then (current, True) else (seen, False))"

definition config_stop :: "config_shim \<Rightarrow> config_shim" where
  "config_stop s = s\<lparr>shutdown_tx := False\<rparr>"

definition config_metrics :: "config_shim \<Rightarrow> metric list" where
  "config_metrics s =
    [(''config_reloads_total'', of_nat (reloads_total s)), (''config_reloads_success'', of_nat (reloads_success s)),
     (''config_reloads_failed'', of_nat (reloads_failed s))] @
    (case last_reload s of None \<Rightarrow> []
     | Some t \<Rightarrow> [(''config_last_reload_timestamp'', of_int (t div second))])"

section \<open>Runs\<close>

text \<open>Reloads one after the other, each in the world and on the files found at that time; the signals sent
  and the answers are collected.\<close>

fun reloads :: "(config_world \<times> time \<times> files) list \<Rightarrow> config_shim \<Rightarrow> config_shim \<times> (int \<times> signal) list \<times> (string + reload_event) list" where
  "reloads [] s = (s, [], [])"
| "reloads ((w, now, fs) # xs) s =
    (case reload w now fs s of (s1, fs1, sent, r) \<Rightarrow>
       (case reloads xs s1 of (s2, sent2, rs) \<Rightarrow> (s2, sent @ sent2, r # rs)))"

lemma reload_books:
  assumes "reload w now fs s = (s', fs', sent, r)"
  shows "reloads_failed s' = reloads_failed s" "length sent \<le> 1"
    "reloads_success s' + reloads_total s = reloads_total s' + reloads_success s"
    "\<exists>e. r = Inl e \<Longrightarrow> reloads_total s' = reloads_total s"
  using assms
  by (auto simp: reload_def send_signal_def Let_def split: option.splits if_splits sum.splits prod.splits)

lemma reloads_failed_never: "reloads_failed (fst (reloads xs s)) = reloads_failed s"
  by (induction xs s rule: reloads.induct) (auto dest: reload_books(1) split: prod.splits)

lemma backup_only_new:
  assumes "backup w s fs = (fs', Inr (Some p))"
  shows "fs' p = fs (config_path s)"
  using assms by (auto simp: backup_def Let_def split: if_splits option.splits)

lemma backup_path_differs:
  assumes "ends_with path ''.toml''"
  shows "with_extension path ''toml.bak'' \<noteq> path"
proof
  assume "with_extension path ''toml.bak'' = path"
  moreover have "last (with_extension path ''toml.bak'') = CHR ''k''"
    by (simp add: with_extension_def Let_def)
  moreover obtain r where "path = r @ ''.toml''"
    using assms by (auto simp: ends_with_iff)
  ultimately show False
    by simp
qed

section \<open>Properties\<close>

text \<open>A reload whose signal fails is never made up for.  The hash is remembered before the child is
  signalled, so while the file stays as it is, every later reload answers success and sends no signal: the
  application keeps running on the old configuration.\<close>

theorem failed_signal_never_repeated:
  assumes "reload w now fs s = (s', fs', sent, Inl e)" and "last_hash s' \<noteq> last_hash s"
    and "\<forall>(w', t, fs'')\<in>set later. sha256_hex w' = sha256_hex w \<and> fs'' (config_path s) = fs (config_path s)"
  shows "sent = [] \<and> fst (snd (reloads later s')) = [] \<and>
    (\<forall>r\<in>set (snd (snd (reloads later s'))). \<exists>ev. r = Inr ev \<and> ev_success ev)"
proof -
  obtain h where h: "file_hash w fs (config_path s) = Some h" and s': "s' = s\<lparr>last_hash := Some h\<rparr>" and "sent = []"
    using assms(1,2)
    by (auto simp: reload_def send_signal_def Let_def split: option.splits if_splits sum.splits prod.splits)
  have "reload w' t fs'' s' = (s', fs'', [], Inr (reload_event_of t s' h None))"
    if "(w', t, fs'') \<in> set later" for w' t fs''
    using that assms(3) h by (auto simp: reload_def file_hash_def s')
  then have "fst (snd (reloads later s')) = [] \<and>
    (\<forall>r\<in>set (snd (snd (reloads later s'))). \<exists>ev. r = Inr ev \<and> ev_success ev)"
    by (induction later) (auto simp: reload_event_of_def split: prod.splits)
  then show ?thesis
    using \<open>sent = []\<close> by simp
qed

text \<open>The backup holds the new configuration.  A reload that makes a backup copies the file after it was
  changed, so the backup equals the file that was just loaded and not the version before it; the answer
  names the backup, and signals go out at most once.\<close>

theorem backup_is_new_config:
  assumes "reload w now fs s = (s', fs', sent, Inr ev)" and "backup_path ev = Some p"
  shows "fs' p = fs (config_path s) \<and> last_hash s' = file_hash w fs (config_path s) \<and> length sent \<le> 1"
proof -
  have "backup w s fs = (fs', Inr (Some p)) \<and> last_hash s' = file_hash w fs (config_path s)"
    using assms
    by (auto simp: reload_def reload_event_of_def Let_def split: option.splits if_splits sum.splits prod.splits)
  then show ?thesis
    using backup_only_new [of w s fs fs' p] reload_books(2) [OF assms(1)] by simp
qed

definition sample_world :: "bool \<Rightarrow> config_world" where
  "sample_world ok = \<lparr>sha256_hex = id, run_sh = (\<lambda>_ _. ExitSuccess []), copy_error = (\<lambda>_ _. None),
     kill_error = (\<lambda>_ _. if ok then None else Some ''ESRCH''), signal_of_number = (\<lambda>_. None)\<rparr>"

definition sample_config :: config_shim where
  "sample_config = set_child_pid 7 (config_new (sample_world True) (\<lambda>_. None))"

lemma sample_config_sel:
  "config_path sample_config = ''/etc/app/config.toml''" "last_hash sample_config = None"
  "child_pid sample_config = Some 7" "validate_cmd sample_config = None" "keep_backup sample_config"
  by (simp_all add: sample_config_def set_child_pid_def config_new_def env_str_def env_flag_def)

theorem failed_signal_never_repeated_witness:
  "\<exists>s'. fst (reload (sample_world False) 0 (\<lambda>_. Some ''new'') sample_config) = s' \<and>
     fst (snd (reloads [(sample_world True, 1, \<lambda>_. Some ''new'')] s')) = []"
proof -
  obtain s' fs' sent e where r: "reload (sample_world False) 0 (\<lambda>_. Some ''new'') sample_config = (s', fs', sent, Inl e)"
    and "last_hash s' \<noteq> last_hash sample_config"
    by (simp add: reload_def file_hash_def validate_def backup_def send_signal_def sample_config_sel sample_world_def Let_def)
  then show ?thesis
    using failed_signal_never_repeated [OF r, of "[(sample_world True, 1, \<lambda>_. Some ''new'')]"]
    by (simp add: sample_world_def)
qed

theorem backup_is_new_config_witness:
  "\<exists>s' fs' sent ev p. reload (sample_world True) 0 (\<lambda>_. Some ''new'') sample_config = (s', fs', sent, Inr ev) \<and>
     backup_path ev = Some p \<and> fs' p = Some ''new''"
proof -
  obtain s' fs' sent ev p where r: "reload (sample_world True) 0 (\<lambda>_. Some ''new'') sample_config = (s', fs', sent, Inr ev)"
    and p: "backup_path ev = Some p"
    by (simp add: reload_def file_hash_def validate_def backup_def send_signal_def sample_config_sel sample_world_def
        reload_event_of_def Let_def)
  with backup_is_new_config [OF this] show ?thesis
    by blast
qed

end
