(* ===== verification/Alert_Hooks.thy ===== *)
theory Alert_Hooks
  imports Dedup
begin

text \<open>
  \<^verbatim>\<open>alerting-shim\<close>: routing of alerts to web hooks by severity, deduplication, three attempts per web hook,
  and the books kept about failing endpoints.  The outcome of each attempt is a parameter; parsing the
  list of web hooks is one too.
\<close>

section \<open>Data\<close>

definition DEFAULT_DEDUP_WINDOW_SECS :: nat where "DEFAULT_DEDUP_WINDOW_SECS = 300"
definition DEFAULT_BACKOFF_BASE_SECS :: nat where "DEFAULT_BACKOFF_BASE_SECS = 30"
definition DEFAULT_BACKOFF_MAX_SECS :: nat where "DEFAULT_BACKOFF_MAX_SECS = 3600"
definition WEBHOOK_RETRY_COUNT :: nat where "WEBHOOK_RETRY_COUNT = 2"

datatype severity = Info | Warning | Critical

fun severity_rank :: "severity \<Rightarrow> nat" where
  "severity_rank Info = 0"
| "severity_rank Warning = 1"
| "severity_rank Critical = 2"

definition severity_parse :: "string \<Rightarrow> string + severity" where
  "severity_parse s =
    (let l = to_lowercase s in
     if l = ''info'' then Inr Info
     else if l = ''warning'' \<or> l = ''warn'' then Inr Warning
     else if l = ''critical'' \<or> l = ''fatal'' \<or> l = ''error'' then Inr Critical
     else Inl (''Unknown severity: '' @ l))"

definition severity_display :: "severity \<Rightarrow> string" where
  "severity_display s = (case s of Info \<Rightarrow> ''info'' | Warning \<Rightarrow> ''warning'' | Critical \<Rightarrow> ''critical'')"

record webhook_config =
  wh_name :: string
  url :: string
  channel :: string
  min_severity :: string
  headers :: "(string, string) hmap"

definition accepts :: "webhook_config \<Rightarrow> severity \<Rightarrow> bool" where
  "accepts w sev =
    (let least = (case severity_parse (min_severity w) of Inr s \<Rightarrow> s | Inl _ \<Rightarrow> Info)
     in severity_rank least \<le> severity_rank sev)"

record alert =
  al_id :: string
  title :: string
  message :: string
  al_severity :: severity
  al_source :: string
  labels :: "(string, string) hmap"
  al_timestamp :: time

record endpoint_state =
  consecutive_failures :: nat
  last_attempt :: "time option"
  backoff_until :: "time option"

record alerting_shim =
  webhooks :: "webhook_config list"
  dedup_window :: time
  backoff_base :: u64
  backoff_max :: u64
  alerts_sent :: nat
  alerts_failed :: nat
  alerts_deduplicated :: nat
  shutdown_tx :: bool
  dedup_cache :: "(string, time) hmap"
  endpoint_states :: "(string, endpoint_state) hmap"
  http_client :: bool

definition dedup_key :: "alert \<Rightarrow> string" where
  "dedup_key a = al_source a @ '':'' @ title a @ '':'' @ severity_display (al_severity a)"

section \<open>Operations\<close>

definition alerting_new :: "(string \<Rightarrow> webhook_config list option) \<Rightarrow> env \<Rightarrow> alerting_shim" where
  "alerting_new parse env =
    \<lparr>webhooks = (case env ''ALERTING_WEBHOOKS'' of None \<Rightarrow> []
        | Some s \<Rightarrow> (case parse s of Some ws \<Rightarrow> ws | None \<Rightarrow> [])),
     dedup_window = int (env_uint 64 env ''ALERTING_DEDUP_WINDOW'' DEFAULT_DEDUP_WINDOW_SECS) * second,
     backoff_base = of_nat (env_uint 64 env ''ALERTING_BACKOFF_BASE'' DEFAULT_BACKOFF_BASE_SECS),
     backoff_max = of_nat (env_uint 64 env ''ALERTING_BACKOFF_MAX'' DEFAULT_BACKOFF_MAX_SECS),
     alerts_sent = 0, alerts_failed = 0, alerts_deduplicated = 0, shutdown_tx = False, dedup_cache = [],
     endpoint_states = [], http_client = False\<rparr>"

definition is_duplicate :: "time \<Rightarrow> alert \<Rightarrow> alerting_shim \<Rightarrow> bool" where
  "is_duplicate now a s =
    (case map_of (dedup_cache s) (dedup_key a) of None \<Rightarrow> False
     | Some last_seen \<Rightarrow> max 0 (now - last_seen) < dedup_window s)"

definition record_alert :: "time \<Rightarrow> alert \<Rightarrow> alerting_shim \<Rightarrow> alerting_shim" where
  "record_alert now a s = s\<lparr>dedup_cache := hm_insert (dedup_key a) now (dedup_cache s)\<rparr>"

text \<open>The product is taken at 64 bits.\<close>

definition calculate_backoff :: "nat \<Rightarrow> alerting_shim \<Rightarrow> u64" where
  "calculate_backoff failures s = min (backoff_base s * 2 ^ min failures 10) (backoff_max s)"

definition is_in_backoff :: "time \<Rightarrow> string \<Rightarrow> alerting_shim \<Rightarrow> bool" where
  "is_in_backoff now nm s =
    (case map_of (endpoint_states s) nm of None \<Rightarrow> False
     | Some st \<Rightarrow> (case backoff_until st of None \<Rightarrow> False | Some until \<Rightarrow> now < until))"

definition record_success :: "time \<Rightarrow> string \<Rightarrow> alerting_shim \<Rightarrow> alerting_shim" where
  "record_success now nm s =
    s\<lparr>endpoint_states := hm_insert nm
       \<lparr>consecutive_failures = 0, last_attempt = Some now, backoff_until = None\<rparr> (endpoint_states s)\<rparr>"

definition record_failure :: "time \<Rightarrow> string \<Rightarrow> alerting_shim \<Rightarrow> alerting_shim" where
  "record_failure now nm s =
    (let st = (case map_of (endpoint_states s) nm of Some st \<Rightarrow> st
               | None \<Rightarrow> \<lparr>consecutive_failures = 0, last_attempt = None, backoff_until = None\<rparr>);
         n = consecutive_failures st + 1
     in s\<lparr>endpoint_states := hm_insert nm
           \<lparr>consecutive_failures = n, last_attempt = Some now,
            backoff_until = Some (now + uint (calculate_backoff n s) * second)\<rparr> (endpoint_states s)\<rparr>)"

definition route :: "alert \<Rightarrow> alerting_shim \<Rightarrow> webhook_config list" where
  "route a s = filter (\<lambda>w. accepts w (al_severity a)) (webhooks s)"

text \<open>Sending: the reply to a request with its URL, headers and fields is a parameter; no client is an error.\<close>

type_synonym sender = "string \<Rightarrow> (string, string) hmap \<Rightarrow> alert \<Rightarrow> string \<Rightarrow> bool"

definition send_webhook :: "sender \<Rightarrow> alerting_shim \<Rightarrow> webhook_config \<Rightarrow> alert \<Rightarrow> bool" where
  "send_webhook snd_req s w a = (http_client s \<and> snd_req (url w) (headers w) a (channel w))"

text \<open>The attempts at one web hook, numbered, up to the first that succeeds; the times at which each target
  is worked on and the replies per target and attempt are parameters.\<close>

fun attempts :: "(nat \<Rightarrow> bool) \<Rightarrow> nat \<Rightarrow> nat \<Rightarrow> nat \<times> bool" where
  "attempts try k 0 = (k, False)"
| "attempts try k (Suc n) = (if try k then (Suc k, True) else attempts try (Suc k) n)"

definition deliver_to ::
  "(nat \<Rightarrow> sender) \<Rightarrow> time \<Rightarrow> alert \<Rightarrow> string \<Rightarrow> alerting_shim \<Rightarrow> alerting_shim \<times> nat" where
  "deliver_to replies now a nm s =
    (case find (\<lambda>w. wh_name w = nm) (webhooks s) of None \<Rightarrow> (s, 0)
     | Some w \<Rightarrow>
         (case attempts (\<lambda>k. send_webhook (replies k) s w a) 0 (WEBHOOK_RETRY_COUNT + 1) of
            (n, True) \<Rightarrow> (record_success now nm (s\<lparr>alerts_sent := alerts_sent s + 1\<rparr>), n)
          | (n, False) \<Rightarrow> (record_failure now nm (s\<lparr>alerts_failed := alerts_failed s + 1\<rparr>), n)))"

text \<open>All targets; the second result lists the number of requests made to each.\<close>

fun deliver_all ::
  "(nat \<Rightarrow> nat \<Rightarrow> sender) \<Rightarrow> (nat \<Rightarrow> time) \<Rightarrow> alert \<Rightarrow> nat \<Rightarrow> string list \<Rightarrow> alerting_shim \<Rightarrow> alerting_shim \<times> nat list" where
  "deliver_all replies clock a i [] s = (s, [])"
| "deliver_all replies clock a i (nm # nms) s =
    (case deliver_to (replies i) (clock i) a nm s of (s1, n) \<Rightarrow>
       (case deliver_all replies clock a (Suc i) nms s1 of (s2, ns) \<Rightarrow> (s2, n # ns)))"

definition log_one :: "(nat \<Rightarrow> time) \<Rightarrow> nat \<times> string \<Rightarrow> alerting_shim \<Rightarrow> alerting_shim" where
  "log_one clock p s = record_success (clock (fst p)) (snd p) (s\<lparr>alerts_sent := alerts_sent s + 1\<rparr>)"

definition log_only :: "(nat \<Rightarrow> time) \<Rightarrow> string list \<Rightarrow> alerting_shim \<Rightarrow> alerting_shim" where
  "log_only clock nms s = fold (log_one clock) (enumerate 0 nms) s"

text \<open>The result is the shim, the number of targets, and the requests made.\<close>

definition process_alert ::
  "(nat \<Rightarrow> nat \<Rightarrow> sender) \<Rightarrow> (nat \<Rightarrow> time) \<Rightarrow> time \<Rightarrow> alert \<Rightarrow> alerting_shim \<Rightarrow> alerting_shim \<times> nat \<times> nat list" where
  "process_alert replies clock now a s =
    (if is_duplicate now a s then (s\<lparr>alerts_deduplicated := alerts_deduplicated s + 1\<rparr>, 0, [])
     else (let s1 = record_alert now a s; nms = map wh_name (route a s1) in
           if http_client s1 then
             (case deliver_all replies clock a 0 nms s1 of (s2, ns) \<Rightarrow> (s2, length nms, ns))
           else (log_only clock nms s1, length nms, [])))"

definition clear_dedup_cache :: "alerting_shim \<Rightarrow> alerting_shim" where
  "clear_dedup_cache s = s\<lparr>dedup_cache := []\<rparr>"

text \<open>One pass of the cleaner.\<close>

definition clean_dedup :: "time \<Rightarrow> alerting_shim \<Rightarrow> alerting_shim" where
  "clean_dedup now s =
    s\<lparr>dedup_cache := filter (\<lambda>(_, ts). max 0 (now - ts) < dedup_window s) (dedup_cache s)\<rparr>"

definition alerting_init :: "string option \<Rightarrow> alerting_shim \<Rightarrow> string + alerting_shim" where
  "alerting_init build_error s =
    (case build_error of Some e \<Rightarrow> Inl (''Failed to build HTTP client'') | None \<Rightarrow> Inr (s\<lparr>http_client := True\<rparr>))"

definition alerting_start :: "alerting_shim \<Rightarrow> alerting_shim" where
  "alerting_start s = s\<lparr>shutdown_tx := True\<rparr>"

definition alerting_stop :: "alerting_shim \<Rightarrow> alerting_shim" where
  "alerting_stop s = s\<lparr>shutdown_tx := False\<rparr>"

definition alerting_metrics :: "alerting_shim \<Rightarrow> metric list" where
  "alerting_metrics s =
    [(''alerting_sent_total'', of_nat (alerts_sent s)), (''alerting_failed_total'', of_nat (alerts_failed s)),
     (''alerting_deduplicated_total'', of_nat (alerts_deduplicated s))]"

section \<open>Lemmas\<close>

declare map_of_eq_Some_iff [simp del]

lemma record_sel [simp]:
  "webhooks (record_success t nm s) = webhooks s" "webhooks (record_failure t nm s) = webhooks s"
  "dedup_cache (record_success t nm s) = dedup_cache s" "dedup_cache (record_failure t nm s) = dedup_cache s"
  "dedup_window (record_success t nm s) = dedup_window s" "dedup_window (record_failure t nm s) = dedup_window s"
  "http_client (record_success t nm s) = http_client s" "http_client (record_failure t nm s) = http_client s"
  "alerts_sent (record_success t nm s) = alerts_sent s" "alerts_sent (record_failure t nm s) = alerts_sent s"
  "alerts_failed (record_success t nm s) = alerts_failed s" "alerts_failed (record_failure t nm s) = alerts_failed s"
  "alerts_deduplicated (record_success t nm s) = alerts_deduplicated s"
  "alerts_deduplicated (record_failure t nm s) = alerts_deduplicated s"
  by (simp_all add: record_success_def record_failure_def Let_def)

text \<open>What delivery leaves alone.\<close>

definition same_setup :: "alerting_shim \<Rightarrow> alerting_shim \<Rightarrow> bool" where
  "same_setup s s' =
    (webhooks s' = webhooks s \<and> dedup_cache s' = dedup_cache s \<and> dedup_window s' = dedup_window s \<and>
     http_client s' = http_client s \<and> alerts_deduplicated s' = alerts_deduplicated s)"

lemma deliver_to_spec:
  assumes "nm \<in> wh_name ` set (webhooks s)"
  shows "same_setup s (fst (deliver_to replies now a nm s))"
    "alerts_sent (fst (deliver_to replies now a nm s)) + alerts_failed (fst (deliver_to replies now a nm s)) =
      alerts_sent s + alerts_failed s + 1"
proof -
  obtain w where "find (\<lambda>w. wh_name w = nm) (webhooks s) = Some w"
    using assms by (cases "find (\<lambda>w. wh_name w = nm) (webhooks s)") (auto simp: find_None_iff)
  then show "same_setup s (fst (deliver_to replies now a nm s))"
    "alerts_sent (fst (deliver_to replies now a nm s)) + alerts_failed (fst (deliver_to replies now a nm s)) =
      alerts_sent s + alerts_failed s + 1"
    by (auto simp: deliver_to_def same_setup_def split: prod.split bool.split)
qed

lemma deliver_all_spec:
  assumes "set nms \<subseteq> wh_name ` set (webhooks s)" and "deliver_all replies clock a i nms s = (s', ns)"
  shows "same_setup s s' \<and> alerts_sent s' + alerts_failed s' = alerts_sent s + alerts_failed s + length nms \<and>
    length ns = length nms"
  using assms
proof (induction nms arbitrary: i s ns)
  case (Cons nm nms)
  define s1 where "s1 = fst (deliver_to (replies i) (clock i) a nm s)"
  obtain ns1 where rest: "deliver_all replies clock a (Suc i) nms s1 = (s', ns1)" and ns: "length ns = Suc (length ns1)"
    using Cons.prems(2) by (auto simp: s1_def split: prod.splits)
  note one = deliver_to_spec [of nm s "replies i" "clock i" a, folded s1_def]
  have nm: "nm \<in> wh_name ` set (webhooks s)" and "set nms \<subseteq> wh_name ` set (webhooks s1)"
    using Cons.prems(1) one(1) by (auto simp: same_setup_def)
  from Cons.IH [OF this(2) rest] one [OF nm] ns show ?case
    by (auto simp: same_setup_def)
qed (simp add: same_setup_def)

lemma log_only_spec:
  "same_setup s (log_only clock nms s) \<and>
    alerts_sent (log_only clock nms s) + alerts_failed (log_only clock nms s) = alerts_sent s + alerts_failed s + length nms"
proof -
  have one: "same_setup s (log_one clock p s)" "alerts_sent (log_one clock p s) = alerts_sent s + 1"
    "alerts_failed (log_one clock p s) = alerts_failed s" for p s
    by (simp_all add: log_one_def same_setup_def)
  have "same_setup s (fold (log_one clock) xs s) \<and>
    alerts_sent (fold (log_one clock) xs s) + alerts_failed (fold (log_one clock) xs s) =
      alerts_sent s + alerts_failed s + length xs" for xs
  proof (induction xs arbitrary: s)
    case (Cons x xs)
    show ?case
      using Cons.IH [of "log_one clock x s"] one [where s = s and p = x] by (simp add: same_setup_def)
  qed (simp add: same_setup_def)
  from this [of "enumerate 0 nms"] show ?thesis
    by (simp add: log_only_def)
qed

lemma process_alert_spec:
  assumes "process_alert replies clock now a s = (s', n, ns)"
  shows "alerts_sent s' + alerts_failed s' = alerts_sent s + alerts_failed s + n"
    "alerts_deduplicated s' = alerts_deduplicated s + (if is_duplicate now a s then 1 else 0)"
    "n = (if is_duplicate now a s then 0 else length (route a s))"
    "dedup_cache s' = (if is_duplicate now a s then dedup_cache s else hm_insert (dedup_key a) now (dedup_cache s))"
    "dedup_window s' = dedup_window s"
proof -
  define s1 where "s1 = record_alert now a s"
  have s1: "alerts_sent s1 = alerts_sent s" "alerts_failed s1 = alerts_failed s" "route a s1 = route a s"
    "alerts_deduplicated s1 = alerts_deduplicated s" "dedup_window s1 = dedup_window s"
    "dedup_cache s1 = hm_insert (dedup_key a) now (dedup_cache s)" "webhooks s1 = webhooks s"
    by (simp_all add: s1_def record_alert_def route_def)
  have "set (map wh_name (route a s)) \<subseteq> wh_name ` set (webhooks s1)"
    by (auto simp: route_def s1)
  note all = deliver_all_spec [OF this] and log = log_only_spec [of s1 clock "map wh_name (route a s)"]
  show "alerts_sent s' + alerts_failed s' = alerts_sent s + alerts_failed s + n"
    "alerts_deduplicated s' = alerts_deduplicated s + (if is_duplicate now a s then 1 else 0)"
    "n = (if is_duplicate now a s then 0 else length (route a s))"
    "dedup_cache s' = (if is_duplicate now a s then dedup_cache s else hm_insert (dedup_key a) now (dedup_cache s))"
    "dedup_window s' = dedup_window s"
    using assms log
    by (auto simp: process_alert_def Let_def s1_def [symmetric] s1 same_setup_def dest!: all split: if_splits prod.splits)
qed

section \<open>Deduplication\<close>

datatype alert_call = Process "nat \<Rightarrow> nat \<Rightarrow> sender" "nat \<Rightarrow> time" time alert | Clean time

fun call_time :: "alert_call \<Rightarrow> time" where
  "call_time (Process replies clock now a) = now"
| "call_time (Clean now) = now"

fun call_step :: "alert_call \<Rightarrow> alerting_shim \<Rightarrow> alerting_shim" where
  "call_step (Process replies clock now a) s = fst (process_alert replies clock now a s)"
| "call_step (Clean now) s = clean_dedup now s"

fun call_admit :: "alert_call \<Rightarrow> alerting_shim \<Rightarrow> (time \<times> string) option" where
  "call_admit (Process replies clock now a) s = (if is_duplicate now a s then None else Some (now, dedup_key a))"
| "call_admit (Clean now) s = None"

definition hooks_ok :: "alerting_shim \<Rightarrow> bool" where
  "hooks_ok s = (0 < dedup_window s \<and> hm_wf (dedup_cache s))"

lemma process_step:
  "dedup_cache (fst (process_alert replies clock now a s)) =
     (if is_duplicate now a s then dedup_cache s else hm_insert (dedup_key a) now (dedup_cache s))"
  "dedup_window (fst (process_alert replies clock now a s)) = dedup_window s"
  using process_alert_spec(4,5) [of replies clock now a s] by (metis prod.collapse)+

lemma clean_seen:
  assumes "hm_wf (dedup_cache s)" and "map_of (dedup_cache s) k = Some u"
  shows "map_of (dedup_cache (clean_dedup now s)) k = Some u \<or> dedup_window s \<le> max 0 (now - u)"
  using assms map_of_filter_val [OF assms(1), of "\<lambda>_ t. max 0 (now - t) < dedup_window s" k]
  by (auto simp: clean_dedup_def case_prod_beta)

interpretation hooks: deduplicator call_admit call_step call_time "\<lambda>s. map_of (dedup_cache s)" dedup_window hooks_ok
proof (unfold_locales, goal_cases)
  case (1 s x)
  then show ?case
    by (cases x) (simp_all add: hooks_ok_def process_step clean_dedup_def)
next
  case (2 s x)
  then show ?case
    by (cases x) (simp_all add: process_step clean_dedup_def)
next
  case (5 s x p u)
  then show ?case
    by (cases x) (auto simp: hooks_ok_def is_duplicate_def max_def split: if_splits)
next
  case (6 s x p)
  then show ?case
    by (cases x) (auto simp: process_step split: if_splits)
next
  case (7 s x k u)
  then show ?case
    using clean_seen [of s k u "call_time x"]
    by (cases x) (auto simp: hooks_ok_def process_step max_def split: if_splits)
qed (auto simp: hooks_ok_def elim: call_admit.elims split: if_splits)

section \<open>Endpoint states\<close>

definition forget :: "alerting_shim \<Rightarrow> alerting_shim" where
  "forget s = s\<lparr>endpoint_states := []\<rparr>"

lemma forget_record [simp]:
  "forget (record_success t nm s) = forget s" "forget (record_failure t nm s) = forget s"
  "forget (s\<lparr>endpoint_states := x\<rparr>) = forget s"
  by (simp_all add: forget_def record_success_def record_failure_def Let_def)

lemma forget_sel:
  assumes "forget s = forget s'"
  shows "webhooks s = webhooks s'" "http_client s = http_client s'" "alerts_sent s = alerts_sent s'"
    "alerts_failed s = alerts_failed s'" "dedup_cache s = dedup_cache s'" "dedup_window s = dedup_window s'"
    "alerts_deduplicated s = alerts_deduplicated s'"
  using assms by (cases s; cases s'; simp add: forget_def)+

lemma forget_upd:
  assumes "forget s = forget s'"
  shows "forget (s\<lparr>alerts_sent := x\<rparr>) = forget (s'\<lparr>alerts_sent := x\<rparr>)"
    "forget (s\<lparr>alerts_failed := x\<rparr>) = forget (s'\<lparr>alerts_failed := x\<rparr>)"
    "forget (s\<lparr>dedup_cache := c\<rparr>) = forget (s'\<lparr>dedup_cache := c\<rparr>)"
    "forget (s\<lparr>alerts_deduplicated := x\<rparr>) = forget (s'\<lparr>alerts_deduplicated := x\<rparr>)"
  using assms by (cases s; cases s'; simp add: forget_def)+

lemma deliver_to_forget:
  assumes "forget s = forget s'"
  shows "forget (fst (deliver_to r t a nm s)) = forget (fst (deliver_to r t a nm s')) \<and>
    snd (deliver_to r t a nm s) = snd (deliver_to r t a nm s')"
  using assms forget_sel [OF assms] forget_upd [OF assms]
  by (simp add: deliver_to_def send_webhook_def split: option.split prod.split bool.split)

lemma deliver_all_forget:
  "forget s = forget s' \<Longrightarrow>
    forget (fst (deliver_all r c a i nms s)) = forget (fst (deliver_all r c a i nms s')) \<and>
    snd (deliver_all r c a i nms s) = snd (deliver_all r c a i nms s')"
proof (induction nms arbitrary: i s s')
  case (Cons nm nms)
  show ?case
    using Cons.IH [OF conjunct1 [OF deliver_to_forget [OF Cons.prems]]] deliver_to_forget [OF Cons.prems]
    by (simp add: case_prod_beta)
qed simp

lemma log_only_forget:
  assumes "forget s = forget s'"
  shows "forget (log_only c nms s) = forget (log_only c nms s')"
proof -
  have one: "forget (log_one c p s) = forget (log_one c p s')" if "forget s = forget s'" for p s s'
    using forget_sel(3) [OF that] forget_upd(1) [OF that] by (simp add: log_one_def)
  have "forget (fold (log_one c) xs s) = forget (fold (log_one c) xs s')" if "forget s = forget s'" for xs s s'
    using that
  proof (induction xs arbitrary: s s')
    case (Cons x xs)
    show ?case
      using Cons.IH [OF one [OF Cons.prems]] by simp
  qed simp
  then show ?thesis
    unfolding log_only_def using assms by blast
qed

lemma process_alert_forget:
  assumes "forget s = forget s'"
  shows "forget (fst (process_alert r c t a s)) = forget (fst (process_alert r c t a s')) \<and>
    snd (process_alert r c t a s) = snd (process_alert r c t a s')"
proof -
  have rec: "forget (record_alert t a s) = forget (record_alert t a s')"
    using forget_sel(5) [OF assms] forget_upd(3) [OF assms] by (simp add: record_alert_def)
  have "is_duplicate t a s = is_duplicate t a s'" "route a (record_alert t a s) = route a (record_alert t a s')"
    "http_client (record_alert t a s) = http_client (record_alert t a s')"
    using forget_sel [OF assms] by (simp_all add: is_duplicate_def route_def record_alert_def split: option.split)
  then show ?thesis
    using deliver_all_forget [OF rec] log_only_forget [OF rec] forget_upd(4) [OF assms] forget_sel(7) [OF assms]
    by (simp add: process_alert_def Let_def case_prod_beta)
qed

section \<open>Properties\<close>

text \<open>Two alerts with the same source, title and severity that are both routed are at least the deduplication
  window apart, over any run of alerts and cleaning passes; and every alert is either counted as a duplicate
  or tried at each web hook that accepts its severity, each of these ending as sent or as failed.\<close>

theorem hook_alerts_spaced_and_counted:
  assumes "sorted (map call_time cs)" and "0 < dedup_window s" and "dedup_cache s = []"
    and "process_alert replies clock now a s' = (s'', n, ns)"
  shows "sorted_wrt (\<lambda>p q. snd p = snd q \<longrightarrow> fst p + dedup_window s \<le> fst q) (admissions call_admit call_step cs s) \<and>
    alerts_sent s'' + alerts_failed s'' = alerts_sent s' + alerts_failed s' + n \<and>
    (if n = 0 \<and> is_duplicate now a s' then alerts_deduplicated s'' = alerts_deduplicated s' + 1
     else n = length (route a s') \<and> alerts_deduplicated s'' = alerts_deduplicated s')"
  using hooks.admissions_spaced [of s cs] process_alert_spec [OF assms(4)] assms(1-3) by (simp add: hooks_ok_def)

text \<open>Backoff has no effect.  Whatever is recorded about an endpoint (its failures, the time until which it
  should be left alone), an alert is routed to the same web hooks, makes the same requests to each and ends
  in the same counts.\<close>

theorem backoff_has_no_effect:
  "snd (process_alert replies clock now a (s\<lparr>endpoint_states := x\<rparr>)) = snd (process_alert replies clock now a s) \<and>
   alerts_sent (fst (process_alert replies clock now a (s\<lparr>endpoint_states := x\<rparr>))) =
     alerts_sent (fst (process_alert replies clock now a s)) \<and>
   alerts_failed (fst (process_alert replies clock now a (s\<lparr>endpoint_states := x\<rparr>))) =
     alerts_failed (fst (process_alert replies clock now a s))"
proof -
  note same = process_alert_forget [of "s\<lparr>endpoint_states := x\<rparr>" s replies clock now a, simplified]
  show ?thesis
    using same forget_sel [OF conjunct1 [OF same]] by simp
qed

text \<open>The delay grows with the failures and stays below its bound as long as 1024 times the base fits 64 bits;
  from the tenth failure on it does not change any more.  With a larger base the product wraps and the delay can
  be zero.\<close>

theorem backoff_delay_bounds:
  assumes "unat (backoff_base s) * 1024 < 2 ^ 64"
  shows "unat (calculate_backoff n s) = min (unat (backoff_base s) * 2 ^ min n 10) (unat (backoff_max s)) \<and>
    (m \<le> n \<longrightarrow> calculate_backoff m s \<le> calculate_backoff n s)"
proof -
  have exact: "unat (backoff_base s * 2 ^ min k 10) = unat (backoff_base s) * 2 ^ min k 10" for k
  proof -
    have "(2 :: nat) ^ min k 10 \<le> 2 ^ 10"
      by (rule power_increasing) simp_all
    then have "unat (backoff_base s) * 2 ^ min k 10 < 2 ^ 64" "(2 :: nat) ^ min k 10 < 2 ^ 64"
      using assms le_less_trans [OF mult_le_mono2] by (fastforce, simp)
    moreover from this(2) have "unat (of_nat (2 ^ min k 10) :: u64) = 2 ^ min k 10"
      unfolding unat_of_nat by simp
    then have "unat ((2 :: u64) ^ min k 10) = 2 ^ min k 10"
      by (simp only: of_nat_power of_nat_numeral)
    ultimately show ?thesis
      using unat_mult_lem [of "backoff_base s" "2 ^ min k 10"] by simp
  qed
  have exact_min: "unat (calculate_backoff k s) = min (unat (backoff_base s) * 2 ^ min k 10) (unat (backoff_max s))" for k
    using exact [of k] by (simp add: calculate_backoff_def min_def word_le_nat_alt)
  have "unat (backoff_base s) * 2 ^ min m 10 \<le> unat (backoff_base s) * 2 ^ min n 10" if "m \<le> n"
    using that by (intro mult_le_mono2 power_increasing) auto
  then show ?thesis
    unfolding word_le_nat_alt exact_min by (auto simp: min_le_iff_disj)
qed

definition sample_hooks :: alerting_shim where
  "sample_hooks = alerting_new (\<lambda>_. None) (\<lambda>_. None)"

definition sample_alert :: alert where
  "sample_alert = \<lparr>al_id = ''1'', title = ''t'', message = [], al_severity = Critical, al_source = ''s'', labels = [],
     al_timestamp = 0\<rparr>"

theorem hook_alerts_spaced_and_counted_witness:
  "\<exists>s'' n ns. process_alert (\<lambda>_ _ _ _ _ _. True) (\<lambda>_. 0) 0 sample_alert sample_hooks = (s'', n, ns) \<and>
     alerts_sent s'' + alerts_failed s'' = n"
proof -
  obtain s'' n ns where p: "process_alert (\<lambda>_ _ _ _ _ _. True) (\<lambda>_. 0) 0 sample_alert sample_hooks = (s'', n, ns)"
    by (metis prod_cases3)
  have "alerts_sent s'' + alerts_failed s'' = alerts_sent sample_hooks + alerts_failed sample_hooks + n"
    using hook_alerts_spaced_and_counted [of "[]" sample_hooks, OF _ _ _ p]
    by (simp add: sample_hooks_def alerting_new_def env_uint_def DEFAULT_DEDUP_WINDOW_SECS_def)
  then show ?thesis
    using p by (simp add: sample_hooks_def alerting_new_def)
qed

theorem backoff_delay_bounds_witness: "unat (calculate_backoff 3 sample_hooks) = 240"
proof -
  have "unat (backoff_base sample_hooks) = 30" "unat (backoff_max sample_hooks) = 3600"
    by (simp_all add: sample_hooks_def alerting_new_def env_uint_def DEFAULT_BACKOFF_BASE_SECS_def DEFAULT_BACKOFF_MAX_SECS_def)
  then show ?thesis
    using backoff_delay_bounds [of sample_hooks 3] by simp
qed

end
