(* ===== verification/Hot_Reload.thy ===== *)
theory Hot_Reload
  imports Config
begin

text \<open>
  \<^verbatim>\<open>shim-core/src/hotreload.rs\<close>: the watcher of the configuration file.  The thread takes file events from a
  queue one at a time; an event is received when it has arrived and the thread is free.  Handling a
  modification takes the debounce time, at the end of which the file is read; what reading the file gives at
  a time is a parameter.  Configurations passed to the callback are recorded.
\<close>

section \<open>Data\<close>

record reload_metrics =
  reload_total :: nat
  reload_failed_total :: nat
  reload_last_timestamp :: "f64 option"

definition reload_metrics_new :: reload_metrics where
  "reload_metrics_new = \<lparr>reload_total = 0, reload_failed_total = 0, reload_last_timestamp = None\<rparr>"

record config_watcher =
  watched :: string
  current :: config
  debounce :: time
  metrics :: "reload_metrics option"
  called_back :: "config list"

type_synonym config_file = "time \<Rightarrow> string \<Rightarrow> string + config"

definition from_file_or_default :: "config_file \<Rightarrow> time \<Rightarrow> string \<Rightarrow> config" where
  "from_file_or_default src now path = (case src now path of Inr c \<Rightarrow> c | Inl _ \<Rightarrow> config_default)"

definition watcher_with_debounce :: "config_file \<Rightarrow> time \<Rightarrow> string \<Rightarrow> time \<Rightarrow> config_watcher" where
  "watcher_with_debounce src now path d =
    \<lparr>watched = path, current = from_file_or_default src now path, debounce = d, metrics = None,
     called_back = []\<rparr>"

definition watcher_new :: "config_file \<Rightarrow> time \<Rightarrow> string \<Rightarrow> config_watcher" where
  "watcher_new src now path =
    \<lparr>watched = path, current = from_file_or_default src now path, debounce = 500 * (second div 1000),
     metrics = None, called_back = []\<rparr>"

definition watcher_with_metrics :: "config_file \<Rightarrow> time \<Rightarrow> string \<Rightarrow> config_watcher" where
  "watcher_with_metrics src now path = (watcher_new src now path)\<lparr>metrics := Some reload_metrics_new\<rparr>"

section \<open>Reloading\<close>

definition count_success :: "time \<Rightarrow> config_watcher \<Rightarrow> config_watcher" where
  "count_success now w =
    w\<lparr>metrics := map_option (\<lambda>m. m\<lparr>reload_total := reload_total m + 1,
        reload_last_timestamp := Some (of_int (num_seconds now))\<rparr>) (metrics w)\<rparr>"

definition count_failure :: "config_watcher \<Rightarrow> config_watcher" where
  "count_failure w =
    w\<lparr>metrics := map_option (\<lambda>m. m\<lparr>reload_failed_total := reload_failed_total m + 1\<rparr>) (metrics w)\<rparr>"

definition apply_config :: "bool \<Rightarrow> time \<Rightarrow> config \<Rightarrow> config_watcher \<Rightarrow> config_watcher" where
  "apply_config callback now c w =
    (let w1 = count_success now (w\<lparr>current := c\<rparr>) in
     if callback then w1\<lparr>called_back := called_back w1 @ [c]\<rparr> else w1)"


definition reload_validated ::
  "(config \<Rightarrow> config_validation_error list) \<Rightarrow> bool \<Rightarrow> config_file \<Rightarrow> time \<Rightarrow> config_watcher \<Rightarrow> config_watcher" where
  "reload_validated validator callback src now w =
    (case src now (watched w) of
       Inr c \<Rightarrow> (if validator c = [] then apply_config callback now c w else count_failure w)
     | Inl _ \<Rightarrow> count_failure w)"

datatype fs_event = Modify | OtherEvent | WatchError string | ChannelError string

text \<open>The thread: the time of the last reload and the time from which it can receive the next event.\<close>

record watch_thread =
  last_reload :: time
  free_at :: time

definition receive :: "time \<Rightarrow> watch_thread \<Rightarrow> time" where
  "receive arrival th = max arrival (free_at th)"

fun watch_loop ::
  "(time \<Rightarrow> config_watcher \<Rightarrow> config_watcher) \<Rightarrow> (time \<times> fs_event) list \<Rightarrow> watch_thread \<Rightarrow> config_watcher \<Rightarrow>
    watch_thread \<times> config_watcher" where
  "watch_loop rel [] th w = (th, w)"
| "watch_loop rel ((arrival, ev) # evs) th w =
    (let now = receive arrival th in
     case ev of
       Modify \<Rightarrow>
         (if max 0 (now - last_reload th) < debounce w then watch_loop rel evs (th\<lparr>free_at := now\<rparr>) w
          else watch_loop rel evs \<lparr>last_reload = now, free_at = now + debounce w\<rparr> (rel (now + debounce w) w))
     | OtherEvent \<Rightarrow> watch_loop rel evs (th\<lparr>free_at := now\<rparr>) w
     | WatchError _ \<Rightarrow> (th, w)
     | ChannelError _ \<Rightarrow> (th, w))"

text \<open>Creating or arming the watcher can fail, which ends the thread.\<close>

definition watch_thread_run ::
  "string option \<Rightarrow> string option \<Rightarrow> time \<Rightarrow> (time \<Rightarrow> config_watcher \<Rightarrow> config_watcher) \<Rightarrow> (time \<times> fs_event) list \<Rightarrow>
    config_watcher \<Rightarrow> config_watcher" where
  "watch_thread_run create_error watch_error start rel evs w =
    (if create_error \<noteq> None \<or> watch_error \<noteq> None then w
     else snd (watch_loop rel evs \<lparr>last_reload = start, free_at = start\<rparr> w))"


definition start_watching_with_validation ::
  "(config \<Rightarrow> config_validation_error list) \<Rightarrow> string option \<Rightarrow> string option \<Rightarrow> time \<Rightarrow> config_file \<Rightarrow> bool \<Rightarrow>
    (time \<times> fs_event) list \<Rightarrow> config_watcher \<Rightarrow> config_watcher" where
  "start_watching_with_validation validator ce we start src callback evs w =
    watch_thread_run ce we start (reload_validated validator callback src) evs w"

section \<open>Lemmas\<close>

lemma count_sel [simp]:
  "current (count_success t w) = current w" "current (count_failure w) = current w"
  "debounce (count_success t w) = debounce w" "debounce (count_failure w) = debounce w"
  "watched (count_success t w) = watched w" "watched (count_failure w) = watched w"
  "called_back (count_success t w) = called_back w" "called_back (count_failure w) = called_back w"
  by (simp_all add: count_success_def count_failure_def)

lemma apply_config_sel [simp]:
  "current (apply_config cb t c w) = c" "debounce (apply_config cb t c w) = debounce w"
  "watched (apply_config cb t c w) = watched w"
  by (simp_all add: apply_config_def Let_def)

text \<open>The interface between the loop and the two ways to reload.\<close>

locale reloader =
  fixes rel :: "config_file \<Rightarrow> time \<Rightarrow> config_watcher \<Rightarrow> config_watcher"
    and acceptable :: "config \<Rightarrow> bool"
  assumes keeps_setup: "debounce (rel src t w) = debounce w" "watched (rel src t w) = watched w"
    and applies: "src t (watched w) = Inr c \<Longrightarrow> acceptable c \<Longrightarrow> current (rel src t w) = c"
    and cautious: "current (rel src t w) = current w \<or>
      (\<exists>c. src t (watched w) = Inr c \<and> acceptable c \<and> current (rel src t w) = c)"
begin

lemma loop_safe:
  "snd (watch_loop (rel src) evs th w) = w' \<Longrightarrow> current w' = current w \<or> acceptable (current w')"
proof (induction evs arbitrary: th w)
  case (Cons e evs)
  obtain a ev where e: "e = (a, ev)"
    by fastforce
  define now where "now = receive a th"
  have skip: "current w' = current w \<or> acceptable (current w')"
    if "snd (watch_loop (rel src) evs (th\<lparr>free_at := now\<rparr>) w) = w'"
    by (rule Cons.IH [OF that])
  have reload: "current w' = current w \<or> acceptable (current w')"
    if "snd (watch_loop (rel src) evs th1 (rel src (now + debounce w) w)) = w'" for th1
    using Cons.IH [OF that] cautious [of src "now + debounce w" w] by auto
  show ?case
    using Cons.prems skip reload by (cases ev) (auto simp: e Let_def now_def [symmetric] split: if_splits)
qed simp

text \<open>Once the file has settled on an acceptable configuration, the last modification brings it in.\<close>

lemma loop_catches_up:
  assumes "evs \<noteq> []" and "\<forall>(a, ev)\<in>set evs. ev = Modify \<and> last_reload th + debounce w \<le> max a (free_at th)"
    and "sorted (map fst evs)" and "0 \<le> debounce w"
    and "\<forall>t\<ge>fst (last evs). src t (watched w) = Inr c" and "acceptable c"
  shows "current (snd (watch_loop (rel src) evs th w)) = c"
  using assms
proof (induction evs arbitrary: th w)
  case (Cons e evs)
  obtain a where e: "e = (a, Modify)"
    using Cons.prems(2) by (cases e) auto
  define now where "now = receive a th"
  define w1 where "w1 = rel src (now + debounce w) w"
  define th1 where "th1 = \<lparr>last_reload = now, free_at = now + debounce w\<rparr>"
  have due: "\<not> max 0 (now - last_reload th) < debounce w"
    using Cons.prems(2,4) by (auto simp: e now_def receive_def max_def)
  then have step: "watch_loop (rel src) (e # evs) th w = watch_loop (rel src) evs th1 w1"
    by (auto simp: e Let_def now_def w1_def th1_def)
  have w1: "debounce w1 = debounce w" "watched w1 = watched w"
    by (simp_all add: w1_def keeps_setup)
  show ?case
  proof (cases "evs = []")
    case True
    have "a \<le> now + debounce w"
      using Cons.prems(4) by (simp add: now_def receive_def max_def)
    then show ?thesis
      using Cons.prems(5,6) unfolding step by (simp add: True e w1_def applies)
  next
    case False
    have "\<forall>(b, ev)\<in>set evs. ev = Modify \<and> last_reload th1 + debounce w1 \<le> max b (free_at th1)"
      using Cons.prems(2) by (auto simp: th1_def w1)
    then show ?thesis
      unfolding step using Cons.IH [OF False] Cons.prems(3-6) False w1 by simp
  qed
qed simp

end


interpretation validated: reloader "reload_validated v cb" "\<lambda>c. v c = []"
  by unfold_locales (auto simp: reload_validated_def split: sum.split)

section \<open>Properties\<close>

text \<open>With validation the watcher never runs on a configuration its validator rejects: whatever events arrive and
  whatever the file holds, the current configuration is the one it started with or one that was accepted.\<close>

theorem only_validated_configs:
  "current (start_watching_with_validation v ce we start src cb evs w) = current w \<or>
   v (current (start_watching_with_validation v ce we start src cb evs w)) = []"
  using validated.loop_safe [OF refl, of v cb src evs "\<lparr>last_reload = start, free_at = start\<rparr>" w]
  by (simp add: start_watching_with_validation_def watch_thread_run_def)





end
