(* ===== verification/Health_Probe.thy ===== *)
theory Health_Probe
  imports Prelude
begin

text \<open>
  \<^verbatim>\<open>shim-core/src/health.rs\<close>: health commands and startup probes.  What a connection attempt, an HTTP request or
  a child process does, and after how many milliseconds, is a parameter; \<^verbatim>\<open>timeout\<close> cuts it off.
\<close>

section \<open>Health commands\<close>

datatype health_status = Healthy | Unhealthy | Unknown

definition status_display :: "health_status \<Rightarrow> string" where
  "status_display h = (case h of Healthy \<Rightarrow> ''healthy'' | Unhealthy \<Rightarrow> ''unhealthy'' | Unknown \<Rightarrow> ''unknown'')"

definition is_ready :: "health_status \<Rightarrow> bool" where
  "is_ready h = (h = Healthy)"

text \<open>The outside world of one command: each action with the milliseconds it takes.\<close>

record probe_world =
  tcp_connect :: "string \<Rightarrow> nat \<times> bool"
  http_get :: "string \<Rightarrow> (nat \<times> (string + nat)) option"
  run_command :: "string list \<Rightarrow> nat \<times> command_output"

text \<open>\<^verbatim>\<open>tokio::time::timeout\<close>: the result if it comes in time, and the time spent.\<close>

definition with_timeout :: "nat \<Rightarrow> nat \<times> 'a \<Rightarrow> nat \<times> 'a option" where
  "with_timeout secs r = (if fst r \<le> secs * 1000 then (fst r, Some (snd r)) else (secs * 1000, None))"

definition strip_prefix :: "string \<Rightarrow> string \<Rightarrow> string option" where
  "strip_prefix s p = (if starts_with s p then Some (drop (length p) s) else None)"

definition exit_status :: "(string \<Rightarrow> bool) \<Rightarrow> nat \<times> command_output option \<Rightarrow> nat \<times> health_status" where
  "exit_status ok r =
    (fst r, case snd r of Some (ExitSuccess out) \<Rightarrow> (if ok out then Healthy else Unhealthy) | _ \<Rightarrow> Unhealthy)"

definition tcp_status :: "nat \<times> bool option \<Rightarrow> nat \<times> health_status" where
  "tcp_status r = (fst r, if snd r = Some True then Healthy else Unhealthy)"

definition http_status :: "nat \<times> (string + nat) option \<Rightarrow> nat \<times> health_status" where
  "http_status r =
    (fst r, case snd r of Some (Inr st) \<Rightarrow> (if 200 \<le> st \<and> st < 300 then Healthy else Unhealthy) | _ \<Rightarrow> Unhealthy)"

text \<open>The status of a command and the milliseconds until it is known.  Without the feature \<^verbatim>\<open>http\<close> the
  world has no answer to an HTTP request.\<close>

definition execute_health_cmd :: "probe_world \<Rightarrow> string \<Rightarrow> nat \<Rightarrow> nat \<times> health_status" where
  "execute_health_cmd w cmd secs =
    (case strip_prefix cmd ''tcp:'' of
       Some addr \<Rightarrow> tcp_status (with_timeout secs (tcp_connect w addr))
     | None \<Rightarrow>
         (case strip_prefix cmd ''http:'' of
            Some url \<Rightarrow>
              (case http_get w url of None \<Rightarrow> (0, Unknown)
               | Some r \<Rightarrow> http_status (with_timeout secs r))
          | None \<Rightarrow>
              (if starts_with cmd ''pg_isready'' then
                 exit_status (\<lambda>_. True) (with_timeout secs (run_command w (split_ws [] cmd)))
               else if starts_with cmd ''redis-cli'' then
                 exit_status (\<lambda>out. contains out ''PONG'') (with_timeout secs (run_command w (split_ws [] cmd)))
               else (case strip_prefix cmd ''exec:'' of
                       Some exec_cmd \<Rightarrow>
                         (if exec_cmd = ''true'' then (0, Healthy)
                          else if exec_cmd = ''false'' then (0, Unhealthy)
                          else exit_status (\<lambda>_. True) (with_timeout secs (run_command w [''sh'', ''-c'', exec_cmd])))
                     | None \<Rightarrow> (0, Unknown)))))"

record command_health_check =
  liveness_cmd :: string
  readiness_cmd :: string
  ck_timeout_secs :: nat

definition liveness :: "probe_world \<Rightarrow> command_health_check \<Rightarrow> health_status" where
  "liveness w c = snd (execute_health_cmd w (liveness_cmd c) (ck_timeout_secs c))"

definition readiness :: "probe_world \<Rightarrow> command_health_check \<Rightarrow> health_status" where
  "readiness w c = snd (execute_health_cmd w (readiness_cmd c) (ck_timeout_secs c))"

section \<open>Startup probes\<close>

record startup_probe =
  check_cmd :: string
  pr_timeout_secs :: nat
  max_retries :: nat
  retry_delay_secs :: nat

definition probe_new :: "string \<Rightarrow> nat \<Rightarrow> startup_probe" where
  "probe_new cmd secs = \<lparr>check_cmd = cmd, pr_timeout_secs = secs, max_retries = 10, retry_delay_secs = 2\<rparr>"

definition with_max_retries :: "nat \<Rightarrow> startup_probe \<Rightarrow> startup_probe" where
  "with_max_retries n p = p\<lparr>max_retries := n\<rparr>"

definition with_retry_delay_secs :: "nat \<Rightarrow> startup_probe \<Rightarrow> startup_probe" where
  "with_retry_delay_secs n p = p\<lparr>retry_delay_secs := n\<rparr>"

text \<open>The attempts from number \<^verbatim>\<open>k\<close> on, \<^verbatim>\<open>left\<close> retries remaining, each in the world of its time.  The result is the
  time spent, the attempts made and the status.\<close>

fun probe_attempts :: "(nat \<Rightarrow> probe_world) \<Rightarrow> startup_probe \<Rightarrow> nat \<Rightarrow> nat \<Rightarrow> nat \<times> nat \<times> health_status" where
  "probe_attempts ws p k left =
    (case execute_health_cmd (ws k) (check_cmd p) (pr_timeout_secs p) of (t, st) \<Rightarrow>
       if st = Healthy then (t, k + 1, Healthy)
       else (case left of 0 \<Rightarrow> (t, k + 1, Unhealthy)
             | Suc l \<Rightarrow>
                 (case probe_attempts ws p (Suc k) l of (t', n, r) \<Rightarrow>
                    (t + retry_delay_secs p * 1000 + t', n, r))))"

definition probe_check :: "(nat \<Rightarrow> probe_world) \<Rightarrow> startup_probe \<Rightarrow> nat \<times> nat \<times> health_status" where
  "probe_check ws p = probe_attempts ws p 0 (max_retries p)"

definition postgres_startup_probe :: "string \<Rightarrow> nat \<Rightarrow> startup_probe" where
  "postgres_startup_probe host port =
    with_retry_delay_secs 1 (with_max_retries 30
      (probe_new (''pg_isready -h '' @ host @ '' -p '' @ show_nat port) 5))"

definition redis_startup_probe :: "string \<Rightarrow> startup_probe" where
  "redis_startup_probe addr =
    (let parts = split_on (CHR '':'') addr;
         port = (if 1 < length parts then parts ! 1 else ''6379'')
     in with_retry_delay_secs 1 (with_max_retries 30 (probe_new (''redis-cli -p '' @ port @ '' ping'') 3)))"

definition startup_probe_from_env :: "env \<Rightarrow> startup_probe" where
  "startup_probe_from_env env =
    (let ty = env_str env ''STARTUP_PROBE_TYPE'' ''tcp'';
         secs = env_uint 64 env ''STARTUP_TIMEOUT_SECS'' 60;
         host = env_str env ''FAILOVER_DB_HOST'' ''localhost'';
         port = env_uint 16 env ''FAILOVER_DB_PORT'' 5432
     in if ty = ''postgres'' \<or> ty = ''pg'' then with_retry_delay_secs 1 (postgres_startup_probe host port)
        else if ty = ''redis'' then with_retry_delay_secs 1 (redis_startup_probe (''localhost:'' @ show_nat 6379))
        else with_retry_delay_secs 1 (with_max_retries 30
               (probe_new (''tcp:'' @ host @ '':'' @ show_nat port) secs)))"

section \<open>Lemmas\<close>

declare probe_attempts.simps [simp del]

lemma with_timeout_bound: "fst (with_timeout secs r) \<le> secs * 1000"
  by (simp add: with_timeout_def)

lemma execute_bound: "fst (execute_health_cmd w cmd secs) \<le> secs * 1000"
  by (simp add: execute_health_cmd_def exit_status_def tcp_status_def http_status_def with_timeout_bound split: option.split)

definition attempt_ok :: "(nat \<Rightarrow> probe_world) \<Rightarrow> startup_probe \<Rightarrow> nat \<Rightarrow> bool" where
  "attempt_ok ws p k = (snd (execute_health_cmd (ws k) (check_cmd p) (pr_timeout_secs p)) = Healthy)"

lemma probe_attempts_time:
  "fst (probe_attempts ws p k left) \<le> (left + 1) * (pr_timeout_secs p * 1000) + left * (retry_delay_secs p * 1000)"
proof (induction left arbitrary: k)
  case 0
  then show ?case
    using execute_bound [of "ws k" "check_cmd p" "pr_timeout_secs p"]
    by (simp add: probe_attempts.simps [of ws p k 0] case_prod_beta)
next
  case (Suc left)
  have "fst (probe_attempts ws p k (Suc left)) \<le>
      pr_timeout_secs p * 1000 + retry_delay_secs p * 1000 + fst (probe_attempts ws p (Suc k) left)"
    using execute_bound [of "ws k" "check_cmd p" "pr_timeout_secs p"]
    by (simp add: probe_attempts.simps [of ws p k "Suc left"] case_prod_beta)
  also have "\<dots> \<le> (Suc left + 1) * (pr_timeout_secs p * 1000) + Suc left * (retry_delay_secs p * 1000)"
    using Suc.IH [of "Suc k"] by simp
  finally show ?case .
qed

lemma probe_attempts_spec:
  assumes "probe_attempts ws p k left = (t, n, st)"
  shows "k < n \<and> n \<le> k + left + 1 \<and> (\<forall>j. k \<le> j \<and> j + 1 < n \<longrightarrow> \<not> attempt_ok ws p j) \<and>
    (st = Healthy \<longleftrightarrow> attempt_ok ws p (n - 1)) \<and>
    (st \<noteq> Healthy \<longrightarrow> st = Unhealthy \<and> n = k + left + 1)"
  using assms
proof (induction left arbitrary: k t)
  case 0
  then show ?case
    by (cases "attempt_ok ws p k") (auto simp: probe_attempts.simps [of ws p k 0] case_prod_beta attempt_ok_def)
next
  case (Suc left)
  show ?case
  proof (cases "attempt_ok ws p k")
    case True
    then show ?thesis
      using Suc.prems by (auto simp: probe_attempts.simps [of ws p k "Suc left"] case_prod_beta attempt_ok_def)
  next
    case False
    then obtain t1 where r: "probe_attempts ws p (Suc k) left = (t1, n, st)"
      using Suc.prems by (auto simp: probe_attempts.simps [of ws p k "Suc left"] case_prod_beta prod_eq_iff attempt_ok_def)
    from Suc.IH [OF r] have IH: "Suc k < n" "n \<le> Suc k + left + 1" "\<forall>j. Suc k \<le> j \<and> j + 1 < n \<longrightarrow> \<not> attempt_ok ws p j"
      "st = Healthy \<longleftrightarrow> attempt_ok ws p (n - 1)" "st \<noteq> Healthy \<longrightarrow> st = Unhealthy \<and> n = Suc k + left + 1"
      by blast+
    have "\<not> attempt_ok ws p j" if "k \<le> j" "j + 1 < n" for j
      using IH(3) that False by (metis Suc_leI le_neq_implies_less)
    moreover have "st \<noteq> Healthy \<longrightarrow> st = Unhealthy \<and> n = k + Suc left + 1"
      using IH(5) by (metis add_Suc add_Suc_right)
    moreover have "k < n" "n \<le> k + Suc left + 1"
      using IH(1,2) by linarith+
    ultimately show ?thesis
      using IH(4) by blast
  qed
qed

section \<open>Properties\<close>

text \<open>C32: A startup probe ends in bounded time with the right answer: it makes at most one attempt more than the
  retries, spends at most the timeout on each and the delay between them, stops at the first healthy attempt, and
  reports unhealthy only after all attempts.  Its total time can exceed the configured timeout many times over.\<close>

theorem startup_probe_bounded:
  assumes "probe_check ws p = (t, n, st)"
  shows "t \<le> (max_retries p + 1) * (pr_timeout_secs p * 1000) + max_retries p * (retry_delay_secs p * 1000) \<and>
    n \<le> max_retries p + 1 \<and>
    (st = Healthy \<longleftrightarrow> (\<exists>k\<le>max_retries p. attempt_ok ws p k)) \<and>
    (st = Healthy \<longrightarrow> (\<forall>j<n - 1. \<not> attempt_ok ws p j)) \<and> (st \<noteq> Healthy \<longrightarrow> st = Unhealthy)"
proof -
  from probe_attempts_spec [OF assms [unfolded probe_check_def]]
  have n: "0 < n" "n \<le> max_retries p + 1" and before: "\<forall>j. j + 1 < n \<longrightarrow> \<not> attempt_ok ws p j"
    and st: "st = Healthy \<longleftrightarrow> attempt_ok ws p (n - 1)" "st \<noteq> Healthy \<longrightarrow> st = Unhealthy \<and> n = max_retries p + 1"
    unfolding add_0 using le0 by blast+
  have "st = Healthy" if k: "k \<le> max_retries p" "attempt_ok ws p k" for k
  proof (rule ccontr)
    assume bad: "st \<noteq> Healthy"
    then have "n = max_retries p + 1"
      using st(2) by blast
    then have "k = n - 1 \<or> k + 1 < n"
      using k(1) by linarith
    then show False
      using before st(1) k(2) bad by blast
  qed
  moreover have "n - 1 \<le> max_retries p"
    using n by linarith
  ultimately have "st = Healthy \<longleftrightarrow> (\<exists>k\<le>max_retries p. attempt_ok ws p k)"
    using st(1) by blast
  moreover have "t \<le> (max_retries p + 1) * (pr_timeout_secs p * 1000) + max_retries p * (retry_delay_secs p * 1000)"
    using probe_attempts_time [of ws p 0 "max_retries p"] assms by (simp add: probe_check_def)
  moreover have "\<forall>j<n - 1. \<not> attempt_ok ws p j"
    using before by (simp add: less_diff_conv)
  ultimately show ?thesis
    using n(2) st(2) by blast
qed

definition sample_probe_world :: "bool \<Rightarrow> probe_world" where
  "sample_probe_world up = \<lparr>tcp_connect = (\<lambda>_. (7, up)), http_get = (\<lambda>_. None), run_command = (\<lambda>_. (1, NotRun []))\<rparr>"

theorem startup_probe_bounded_witness:
  "snd (snd (probe_check (\<lambda>k. sample_probe_world (2 \<le> k)) (probe_new ''tcp:db:5432'' 5))) = Healthy"
proof -
  let ?ws = "\<lambda>k. sample_probe_world (2 \<le> k)" and ?p = "probe_new ''tcp:db:5432'' 5"
  obtain t n st where r: "probe_check ?ws ?p = (t, n, st)"
    by (metis prod_cases3)
  have "attempt_ok ?ws ?p 2"
    by (simp add: attempt_ok_def execute_health_cmd_def strip_prefix_def with_timeout_def tcp_status_def sample_probe_world_def
        probe_new_def)
  then have "st = Healthy"
    using startup_probe_bounded [OF r] by (auto simp: probe_new_def)
  then show ?thesis
    by (simp add: r)
qed

text \<open>A command that is not recognised is never healthy.\<close>

lemma unknown_command:
  assumes "\<not> starts_with cmd ''tcp:''" "\<not> starts_with cmd ''http:''" "\<not> starts_with cmd ''pg_isready''"
    "\<not> starts_with cmd ''redis-cli''" "\<not> starts_with cmd ''exec:''"
  shows "execute_health_cmd w cmd secs = (0, Unknown)"
  using assms by (simp add: execute_health_cmd_def strip_prefix_def)

text \<open>The Redis probe asks the local server whatever host it is given.\<close>

lemma redis_probe_ignores_host:
  assumes "CHR '':'' \<notin> set host" and "CHR '':'' \<notin> set host'"
  shows "redis_startup_probe (host @ '':'' @ port) = redis_startup_probe (host' @ '':'' @ port)"
  using assms by (simp add: redis_startup_probe_def split_on_append)

end
