(* ===== verification/Resource.thy ===== *)
theory Resource
  imports Config
begin

text \<open>
  \<^verbatim>\<open>shim-core/src/resource.rs\<close>: the resource monitor.  The three files of \<^verbatim>\<open>/proc/self\<close> it reads and the clock are a
  record; everything the code does with their text is here.  Gauges hold rationals.
\<close>

section \<open>Reading /proc\<close>

record proc_fs =
  status_text :: "string option"
  fd_entries :: "nat option"
  stat_text :: "string option"
  read_at :: time
  stored_at :: time

fun rss_of_lines :: "string list \<Rightarrow> nat option" where
  "rss_of_lines [] = None"
| "rss_of_lines (l # ls) =
    (if starts_with l ''VmRSS:'' then
       (case split_ws [] l of
          _ # v # _ \<Rightarrow> map_option (\<lambda>n. n * 1024 mod 2 ^ 64) (parse_uint 64 v)
        | _ \<Rightarrow> None)
     else rss_of_lines ls)"

definition read_vm_rss_static :: "proc_fs \<Rightarrow> nat option" where
  "read_vm_rss_static fs = Option.bind (status_text fs) (\<lambda>content. rss_of_lines (str_lines content))"

definition read_fd_count_static :: "proc_fs \<Rightarrow> nat option" where
  "read_fd_count_static fs = map_option (\<lambda>n. n mod 2 ^ 32) (fd_entries fs)"

definition read_cpu_times_static :: "proc_fs \<Rightarrow> (nat \<times> nat) option" where
  "read_cpu_times_static fs =
    Option.bind (stat_text fs) (\<lambda>content.
      (let fields = split_ws [] content in
       if 21 < length fields then
         Option.bind (parse_uint 64 (fields ! 13)) (\<lambda>user.
           map_option (\<lambda>system. (user, system)) (parse_uint 64 (fields ! 14)))
       else None))"

section \<open>The monitor\<close>

record resource_usage =
  memory_bytes :: "nat option"
  cpu_percent :: "f64 option"
  open_files :: "nat option"
  cpu_user_time :: "nat option"
  cpu_system_time :: "nat option"

definition usage_default :: resource_usage where
  "usage_default = \<lparr>memory_bytes = None, cpu_percent = None, open_files = None, cpu_user_time = None, cpu_system_time = None\<rparr>"

record resource_metrics =
  m_memory_bytes :: f64
  m_cpu_percent :: f64
  m_open_files :: f64
  m_cpu_user_time :: f64
  m_cpu_system_time :: f64

definition resource_metric_names :: "string list" where
  "resource_metric_names =
    [''resource_memory_bytes'', ''resource_cpu_percent'', ''resource_open_files'', ''resource_cpu_user_time_us'',
     ''resource_cpu_system_time_us'']"

text \<open>Registering a name that the registry already has is an error, on which the constructor panics.\<close>

definition resource_metrics_new :: "string set \<Rightarrow> (resource_metrics \<times> string set) outcome" where
  "resource_metrics_new registry =
    (if list_all (\<lambda>n. n \<notin> registry) resource_metric_names
     then Returns (\<lparr>m_memory_bytes = 0, m_cpu_percent = 0, m_open_files = 0, m_cpu_user_time = 0, m_cpu_system_time = 0\<rparr>,
       registry \<union> set resource_metric_names)
     else Panics)"

record resource_monitor =
  quota :: resource_quota
  gauges :: "resource_metrics option"
  prev_cpu_user :: "nat option"
  prev_cpu_system :: "nat option"
  prev_wall_time :: "time option"
  running :: bool
  tasks :: nat

definition monitor_new :: "resource_quota \<Rightarrow> resource_monitor" where
  "monitor_new q = \<lparr>quota = q, gauges = None, prev_cpu_user = None, prev_cpu_system = None, prev_wall_time = None,
     running = False, tasks = 0\<rparr>"

definition monitor_with_metrics :: "resource_quota \<Rightarrow> string set \<Rightarrow> (resource_monitor \<times> string set) outcome" where
  "monitor_with_metrics q registry =
    (case resource_metrics_new registry of
       Returns (m, registry') \<Rightarrow> Returns ((monitor_new q)\<lparr>gauges := Some m\<rparr>, registry')
     | Panics \<Rightarrow> Panics)"

text \<open>What the process has used of the CPU since the last reading, in percent of the elapsed microseconds.\<close>

definition cpu_delta :: "resource_monitor \<Rightarrow> nat \<Rightarrow> nat \<Rightarrow> time \<Rightarrow> f64 option" where
  "cpu_delta mon user system now =
    (case (prev_cpu_user mon, prev_cpu_system mon, prev_wall_time mon) of
       (Some pu, Some ps, Some pw) \<Rightarrow>
         (let delta_wall = nat (now - pw) div 1000 mod 2 ^ 64;
              total_cpu = (saturating_sub user pu + saturating_sub system ps) mod 2 ^ 64
          in if 0 < delta_wall then Some (of_nat total_cpu / of_nat delta_wall * 100) else None)
     | _ \<Rightarrow> None)"

definition read_usage :: "proc_fs \<Rightarrow> resource_monitor \<Rightarrow> resource_usage \<times> resource_monitor" where
  "read_usage fs mon =
    (let u = usage_default\<lparr>memory_bytes := read_vm_rss_static fs, open_files := read_fd_count_static fs\<rparr> in
     case read_cpu_times_static fs of
       None \<Rightarrow> (u, mon)
     | Some (user, system) \<Rightarrow>
         (u\<lparr>cpu_user_time := Some user, cpu_system_time := Some system, cpu_percent := cpu_delta mon user system (read_at fs)\<rparr>,
          mon\<lparr>prev_cpu_user := Some user, prev_cpu_system := Some system, prev_wall_time := Some (stored_at fs)\<rparr>))"

definition read_usage_snapshot :: "proc_fs \<Rightarrow> resource_usage" where
  "read_usage_snapshot fs =
    (let u = usage_default\<lparr>memory_bytes := read_vm_rss_static fs, open_files := read_fd_count_static fs\<rparr> in
     case read_cpu_times_static fs of
       None \<Rightarrow> u
     | Some (user, system) \<Rightarrow> u\<lparr>cpu_user_time := Some user, cpu_system_time := Some system\<rparr>)"

text \<open>A gauge keeps its value when the usage is unknown.\<close>

definition set_gauges :: "resource_usage \<Rightarrow> resource_metrics \<Rightarrow> resource_metrics" where
  "set_gauges u m =
    \<lparr>m_memory_bytes = (case memory_bytes u of Some x \<Rightarrow> of_nat x | None \<Rightarrow> m_memory_bytes m),
     m_cpu_percent = (case cpu_percent u of Some x \<Rightarrow> x | None \<Rightarrow> m_cpu_percent m),
     m_open_files = (case open_files u of Some x \<Rightarrow> of_nat x | None \<Rightarrow> m_open_files m),
     m_cpu_user_time = (case cpu_user_time u of Some x \<Rightarrow> of_nat x | None \<Rightarrow> m_cpu_user_time m),
     m_cpu_system_time = (case cpu_system_time u of Some x \<Rightarrow> of_nat x | None \<Rightarrow> m_cpu_system_time m)\<rparr>"

definition set_cpu_percent :: "f64 \<Rightarrow> resource_monitor \<Rightarrow> resource_monitor" where
  "set_cpu_percent p mon = mon\<lparr>gauges := map_option (\<lambda>m. m\<lparr>m_cpu_percent := p\<rparr>) (gauges mon)\<rparr>"

section \<open>Quotas\<close>

datatype quota_level = Within | Warned | Exceeded

text \<open>The comparison of \<^verbatim>\<open>used / max\<close> with 1 and 0.8.  In \<^verbatim>\<open>f64\<close> a quota of zero gives infinity, or \<^verbatim>\<open>NaN\<close> when nothing
  is used, which is above no bound.\<close>

definition quota_check :: "nat \<Rightarrow> nat \<Rightarrow> quota_level" where
  "quota_check used limit =
    (if limit = 0 then (if 0 < used then Exceeded else Within)
     else (let ratio = of_nat used / of_nat limit :: f64 in
       if 1 < ratio then Exceeded else if 8 / 10 < ratio then Warned else Within))"

definition level_of :: "nat option \<Rightarrow> nat option \<Rightarrow> quota_level" where
  "level_of used limit = (case (used, limit) of (Some u, Some l) \<Rightarrow> quota_check u l | _ \<Rightarrow> Within)"

text \<open>The verdict, what is logged for memory and open files, and the new state.\<close>

definition check_quotas :: "proc_fs \<Rightarrow> resource_monitor \<Rightarrow> (bool \<times> quota_level \<times> quota_level) \<times> resource_monitor" where
  "check_quotas fs mon =
    (let (u, mon1) = read_usage fs mon;
         mem = level_of (memory_bytes u) (rq_max_memory_bytes (quota mon1));
         fds = level_of (open_files u) (rq_max_open_files (quota mon1))
     in ((mem \<noteq> Exceeded \<and> fds \<noteq> Exceeded, mem, fds), mon1\<lparr>gauges := map_option (set_gauges u) (gauges mon1)\<rparr>))"

section \<open>Periodic monitoring\<close>

definition DEFAULT_RESOURCE_INTERVAL_SECS :: nat where "DEFAULT_RESOURCE_INTERVAL_SECS = 10"

definition resource_interval :: "env \<Rightarrow> nat" where
  "resource_interval env = env_uint 64 env ''SHIM_RESOURCE_INTERVAL_SECS'' DEFAULT_RESOURCE_INTERVAL_SECS"

text \<open>The task is spawned, and dies at once when the interval is zero, for which \<^verbatim>\<open>tokio::time::interval\<close> panics.\<close>

definition start_periodic_monitoring :: "env \<Rightarrow> resource_monitor \<Rightarrow> resource_monitor" where
  "start_periodic_monitoring env mon =
    mon\<lparr>running := True, tasks := (if resource_interval env = 0 then tasks mon else tasks mon + 1)\<rparr>"

definition stop_periodic_monitoring :: "resource_monitor \<Rightarrow> resource_monitor" where
  "stop_periodic_monitoring mon = mon\<lparr>running := False\<rparr>"

text \<open>A tick of one of the tasks: it leaves its loop when the flag is off.\<close>

definition periodic_tick :: "proc_fs \<Rightarrow> resource_monitor \<Rightarrow> resource_monitor" where
  "periodic_tick fs mon =
    (if tasks mon = 0 then mon
     else if \<not> running mon then mon\<lparr>tasks := tasks mon - 1\<rparr>
     else mon\<lparr>gauges := map_option (set_gauges (read_usage_snapshot fs)) (gauges mon)\<rparr>)"

lemmas parse_simps = is_space_def parse_uint_def is_digit_def digit_val_def

section \<open>Quotas are enforced as numbers\<close>

lemma quota_check_iff:
  "quota_check used limit = Exceeded \<longleftrightarrow> limit < used"
  "quota_check used limit = Warned \<longleftrightarrow> used \<le> limit \<and> 8 * limit < 10 * used"
proof -
  have conv: "(1 < (of_nat used / of_nat limit :: f64)) \<longleftrightarrow> limit < used"
    "(8 / 10 < (of_nat used / of_nat limit :: f64)) \<longleftrightarrow> 8 * limit < 10 * used" if "limit \<noteq> 0"
  proof -
    have "(8 / 10 < (of_nat used / of_nat limit :: f64)) \<longleftrightarrow> (of_nat (8 * limit) :: f64) < of_nat (10 * used)"
      using that by (simp add: field_simps)
    then show "(8 / 10 < (of_nat used / of_nat limit :: f64)) \<longleftrightarrow> 8 * limit < 10 * used"
      by (simp only: of_nat_less_iff)
  qed (use that in simp)
  show "quota_check used limit = Exceeded \<longleftrightarrow> limit < used"
    using conv by (cases "limit = 0") (simp_all add: quota_check_def Let_def)
  show "quota_check used limit = Warned \<longleftrightarrow> used \<le> limit \<and> 8 * limit < 10 * used"
    using conv by (cases "limit = 0") (auto simp: quota_check_def Let_def)
qed

lemma level_of_iff:
  "level_of used limit = Exceeded \<longleftrightarrow> (\<exists>u l. used = Some u \<and> limit = Some l \<and> l < u)"
  "level_of used limit = Warned \<longleftrightarrow> (\<exists>u l. used = Some u \<and> limit = Some l \<and> u \<le> l \<and> 8 * l < 10 * u)"
  by (simp_all add: level_of_def quota_check_iff split: option.splits)

lemma read_usage_facts [simp]:
  "memory_bytes (fst (read_usage fs mon)) = read_vm_rss_static fs"
  "open_files (fst (read_usage fs mon)) = read_fd_count_static fs"
  "quota (snd (read_usage fs mon)) = quota mon"
  "gauges (snd (read_usage fs mon)) = gauges mon"
  by (simp_all add: read_usage_def Let_def usage_default_def split: option.splits prod.splits)

text \<open>The verdict of the quota check is the comparison of the two numbers: it is negative exactly when the
  resident memory or the number of open files is known, has a limit and is above it.  A warning is logged exactly
  when more than four fifths of a limit are used and the limit is kept.  The CPU quota and the connection quota have
  no influence.\<close>

theorem check_quotas_compares:
  "(fst (fst (check_quotas fs mon)) \<longleftrightarrow>
      (\<forall>used limit. read_vm_rss_static fs = Some used \<and> rq_max_memory_bytes (quota mon) = Some limit \<longrightarrow> used \<le> limit) \<and>
      (\<forall>used limit. read_fd_count_static fs = Some used \<and> rq_max_open_files (quota mon) = Some limit \<longrightarrow> used \<le> limit))
   \<and> (fst (snd (fst (check_quotas fs mon))) = Warned \<longleftrightarrow>
      (\<exists>used limit. read_vm_rss_static fs = Some used \<and> rq_max_memory_bytes (quota mon) = Some limit \<and> used \<le> limit \<and> 8 * limit < 10 * used))
   \<and> fst (check_quotas fs (mon\<lparr>quota := (quota mon)\<lparr>rq_max_cpu_percent := c, rq_max_connections := n\<rparr>\<rparr>)) = fst (check_quotas fs mon)"
  by (simp add: check_quotas_def Let_def case_prod_unfold level_of_iff) (meson linorder_not_less)

theorem check_quotas_compares_witness:
  "fst (fst (check_quotas \<lparr>status_text = Some ''Name: shim
VmRSS:      4 kB
'', fd_entries = Some 3, stat_text = None, read_at = 0, stored_at = 0\<rparr>
      (monitor_new (resource_quota_default\<lparr>rq_max_memory_bytes := Some 4096, rq_max_open_files := Some 3\<rparr>))))"
proof -
  let ?fs = "\<lparr>status_text = Some ''Name: shim
VmRSS:      4 kB
'', fd_entries = Some 3, stat_text = None, read_at = 0, stored_at = 0\<rparr>"
  let ?mon = "monitor_new (resource_quota_default\<lparr>rq_max_memory_bytes := Some 4096, rq_max_open_files := Some 3\<rparr>)"
  have "read_vm_rss_static ?fs = Some 4096" "read_fd_count_static ?fs = Some 3"
    by (simp_all add: read_vm_rss_static_def read_fd_count_static_def parse_simps str_lines_def strip_cr_def)
  then show ?thesis
    using check_quotas_compares [of ?fs ?mon] by (simp add: monitor_new_def)
qed

section \<open>The CPU percentage\<close>

text \<open>The CPU times of \<^verbatim>\<open>/proc/self/stat\<close> are clock ticks, of which there are usually 100 in a second, but the monitor
  divides them by microseconds.  The percentage it reports is the true one divided by ten thousand: a process that
  keeps one processor busy is reported at a hundredth of a percent.\<close>

theorem cpu_percent_understated:
  assumes prev: "prev_cpu_user mon = Some pu" "prev_cpu_system mon = Some ps" "prev_wall_time mon = Some pw"
    and ticks: "read_cpu_times_static fs = Some (pu + du, ps + ds)" "du + ds < 2 ^ 64"
    and wall: "read_at fs - pw = 1000 * int micros" "0 < micros" "micros < 2 ^ 64"
  shows "cpu_percent (fst (read_usage fs mon)) =
    Some (((of_nat (du + ds) / 100) / (of_nat micros / 1000000) * 100) / 10000)"
proof -
  have "nat (read_at fs - pw) div 1000 mod 2 ^ 64 = micros"
    using wall by (simp add: nat_mult_distrib)
  then show ?thesis
    using assms by (simp add: read_usage_def Let_def cpu_delta_def field_simps)
qed

theorem cpu_percent_understated_witness:
  "cpu_percent (fst (read_usage
      \<lparr>status_text = None, fd_entries = None,
       stat_text = Some ''7 (shim) S 1 7 7 0 -1 0 0 0 0 0 180 20 0 0 20 0 1 0 0 0'', read_at = second, stored_at = second\<rparr>
      ((monitor_new resource_quota_default)\<lparr>prev_cpu_user := Some 90, prev_cpu_system := Some 10, prev_wall_time := Some 0\<rparr>)))
   = Some (1 / 100)"
proof -
  let ?fs = "\<lparr>status_text = None, fd_entries = None,
       stat_text = Some ''7 (shim) S 1 7 7 0 -1 0 0 0 0 0 180 20 0 0 20 0 1 0 0 0'', read_at = second, stored_at = second\<rparr>"
  have "read_cpu_times_static ?fs = Some (180, 20)"
    by (simp add: read_cpu_times_static_def parse_simps)
  then show ?thesis
    using cpu_percent_understated [of
      "(monitor_new resource_quota_default)\<lparr>prev_cpu_user := Some 90, prev_cpu_system := Some 10, prev_wall_time := Some 0\<rparr>"
      90 10 0 ?fs 90 10 1000000]
    by simp
qed

text \<open>The name of the program is the second field and may hold a space, which shifts every later field: what is read as
  user time is then the number of major page faults of the children.\<close>

lemma stat_name_with_space:
  "read_cpu_times_static (fs\<lparr>stat_text := Some ''7 (my shim) S 1 7 7 0 -1 0 0 0 0 55 180 20 0 0 20 0 1 0 0 0 0''\<rparr>)
   = Some (55, 180)"
proof -
  have "split_ws [] ''7 (my shim) S 1 7 7 0 -1 0 0 0 0 55 180 20 0 0 20 0 1 0 0 0 0'' =
    [''7'', ''(my'', ''shim)'', ''S'', ''1'', ''7'', ''7'', ''0'', ''-1'', ''0'', ''0'', ''0'', ''0'', ''55'', ''180'', ''20'',
     ''0'', ''0'', ''20'', ''0'', ''1'', ''0'', ''0'', ''0'', ''0'']"
    by (simp add: is_space_def)
  moreover have "parse_uint 64 ''55'' = Some 55" "parse_uint 64 ''180'' = Some 180"
    by (simp_all add: parse_simps)
  ultimately show ?thesis
    by (simp add: read_cpu_times_static_def)
qed

section \<open>The periodic task\<close>

text \<open>After a stop every task ends at its next tick, unless monitoring is started again before: then the old task goes on
  beside the new one.\<close>

lemma stopped_tasks_end:
  "\<not> running mon \<Longrightarrow> tasks ((periodic_tick fs ^^ n) mon) = tasks mon - n"
proof (induction n)
  case (Suc n)
  have "running ((periodic_tick fs ^^ n) mon) = running mon"
    by (induction n) (simp_all add: periodic_tick_def)
  then have "tasks (periodic_tick fs ((periodic_tick fs ^^ n) mon)) = tasks ((periodic_tick fs ^^ n) mon) - 1"
    using Suc.prems by (simp add: periodic_tick_def)
  then show ?case
    using Suc by simp
qed simp

lemma restarted_task_doubles:
  "resource_interval env \<noteq> 0 \<Longrightarrow>
    tasks (start_periodic_monitoring env (stop_periodic_monitoring (start_periodic_monitoring env (monitor_new q)))) = 2"
  by (simp add: start_periodic_monitoring_def stop_periodic_monitoring_def monitor_new_def)

text \<open>A tick never touches the CPU percentage.\<close>

lemma tick_keeps_cpu_percent:
  "map_option m_cpu_percent (gauges (periodic_tick fs mon)) = map_option m_cpu_percent (gauges mon)"
  by (cases "gauges mon")
    (simp_all add: periodic_tick_def set_gauges_def read_usage_snapshot_def usage_default_def Let_def
      split: option.splits prod.splits)

end
