(* ===== verification/Child_Process.thy ===== *)
theory Child_Process
  imports Config Shutdown
begin

text \<open>
  \<^verbatim>\<open>shim-core/src/process.rs\<close>: the supervised child process, and \<^verbatim>\<open>shim-core/src/signal.rs\<close>: the signal handler of the
  shim.  The operating system's side is a record beside the manager: the open process file descriptors, the signals
  delivered and the background reapers that were spawned.
\<close>

section \<open>State\<close>

datatype process_state = Stopped | Starting | Running | Stopping | Failed

record child_process =
  cp_config :: process_config
  cp_pid :: "nat option"
  cp_child :: bool
  cp_state :: process_state
  cp_db_type :: database_type
  exit_code :: "int option"
  pidfd :: "nat option"

record os_side =
  open_pidfds :: "nat list"
  reapers :: "nat list"
  sent :: "(nat \<times> string) list"

type_synonym supervisor = "child_process \<times> os_side"

definition with_db_type :: "process_config \<Rightarrow> database_type \<Rightarrow> child_process" where
  "with_db_type c db = \<lparr>cp_config = c, cp_pid = None, cp_child = False, cp_state = Stopped, cp_db_type = db,
     exit_code = None, pidfd = None\<rparr>"

definition child_new :: "process_config \<Rightarrow> child_process" where
  "child_new c = with_db_type c Generic"

definition set_db_type :: "database_type \<Rightarrow> child_process \<Rightarrow> child_process" where
  "set_db_type db p = p\<lparr>cp_db_type := db\<rparr>"

section \<open>Start\<close>

text \<open>What \<^verbatim>\<open>spawn\<close> gives is an error or the process id, which is absent for a child that was already waited for;
  \<^verbatim>\<open>pidfd_open\<close> gives a descriptor or fails.\<close>

definition start :: "string + nat option \<Rightarrow> nat option \<Rightarrow> supervisor \<Rightarrow> (string option) \<times> supervisor" where
  "start spawned fd s =
    (case s of (p, os) \<Rightarrow>
      (case spawned of
         Inl e \<Rightarrow> (Some e, s)
       | Inr child_id \<Rightarrow>
           (let n = (case child_id of Some i \<Rightarrow> i | None \<Rightarrow> 0) in
            if n = 0 then (Some ''child process has no valid PID'', s)
            else
              (None,
               p\<lparr>cp_pid := Some n, cp_child := True, cp_state := Running,
                 pidfd := (case fd of Some f \<Rightarrow> Some f | None \<Rightarrow> pidfd p)\<rparr>,
               os\<lparr>open_pidfds := (case fd of Some f \<Rightarrow> f # open_pidfds os | None \<Rightarrow> open_pidfds os),
                  reapers := n # reapers os\<rparr>))))"

text \<open>One round of the background reaper: it takes zombies until none is left, then sleeps for 100 ms.\<close>

datatype wait_result = Exited nat int | Signaled nat string | StillAlive | WaitError | OtherStatus

fun reap_round :: "nat \<Rightarrow> wait_result list \<Rightarrow> (bool \<times> nat) list" where
  "reap_round main (Exited n code # ws) = (n = main, n) # reap_round main ws"
| "reap_round main (Signaled n sig # ws) = (n = main, n) # reap_round main ws"
| "reap_round main _ = []"

section \<open>Observing and signalling\<close>

fun state_of_lines :: "string list \<Rightarrow> bool" where
  "state_of_lines [] = True"
| "state_of_lines (l # ls) = (if starts_with l ''State:'' then \<not> contains l ''(zombie)'' else state_of_lines ls)"

text \<open>The argument is \<^verbatim>\<open>/proc/<pid>/status\<close>, if it can be read.\<close>

definition is_running :: "string option \<Rightarrow> child_process \<Rightarrow> bool" where
  "is_running status p =
    (case cp_pid p of
       None \<Rightarrow> False
     | Some _ \<Rightarrow> (case status of Some content \<Rightarrow> state_of_lines (str_lines content) | None \<Rightarrow> False))"

definition signal_child :: "string option \<Rightarrow> string \<Rightarrow> supervisor \<Rightarrow> (string option) \<times> supervisor" where
  "signal_child kill_err sig s =
    (case s of (p, os) \<Rightarrow>
      (case cp_pid p of
         None \<Rightarrow> (None, s)
       | Some n \<Rightarrow> (case kill_err of Some e \<Rightarrow> (Some e, s) | None \<Rightarrow> (None, p, os\<lparr>sent := (n, sig) # sent os\<rparr>))))"

definition close_pidfd :: "supervisor \<Rightarrow> supervisor" where
  "close_pidfd s =
    (case s of (p, os) \<Rightarrow>
      (case pidfd p of
         Some f \<Rightarrow> (p\<lparr>pidfd := None\<rparr>, os\<lparr>open_pidfds := remove1 f (open_pidfds os)\<rparr>)
       | None \<Rightarrow> s))"

definition drop_child :: "supervisor \<Rightarrow> supervisor" where
  "drop_child s = close_pidfd s"

section \<open>Stop\<close>

text \<open>The sequence of the shutdown manager, whose result says whether the child went and how many signals were
  delivered; \<^verbatim>\<open>status\<close> is what \<^verbatim>\<open>/proc\<close> says afterwards.  The manager counts no operations, so it does not
  drain.\<close>

definition signals_of :: "nat \<Rightarrow> nat \<Rightarrow> (nat \<times> string) list" where
  "signals_of n k = (if 2 \<le> k then [(n, ''SIGKILL'')] else []) @ (if 1 \<le> k then [(n, ''SIGTERM'')] else [])"

definition stop :: "env \<Rightarrow> Shutdown.process \<Rightarrow> string option \<Rightarrow> supervisor \<Rightarrow> supervisor" where
  "stop env proc status s =
    (case s of (p, os) \<Rightarrow>
      (case cp_pid p of
         None \<Rightarrow> s
       | Some n \<Rightarrow>
           (let p1 = p\<lparr>cp_state := Stopping\<rparr>;
                mgr = shutdown_manager_new env (cp_db_type p1) (shutdown_timeout_secs (cp_config p1));
                result = snd (manager_shutdown (\<lambda>_. (0, 0)) (\<lambda>_. proc\<lparr>pid := n\<rparr>) mgr);
                os1 = os\<lparr>sent := signals_of n (signals_sent result) @ sent os\<rparr>;
                os2 = (if \<not> clean_exit result \<and> is_running status p1 \<and> kill_error proc = None
                       then os1\<lparr>sent := (n, ''SIGKILL'') # sent os1\<rparr> else os1);
                (p3, os3) = close_pidfd (p1\<lparr>cp_child := False, cp_pid := None\<rparr>, os2)
            in (p3\<lparr>cp_state := Stopped\<rparr>, os3))))"

section \<open>The signal handler of the shim\<close>

datatype signal = SigTerm | SigInt | SigHup

record signal_handler =
  shutdown_flag :: bool
  broadcast :: "signal list"

definition signal_handler_new :: signal_handler where
  "signal_handler_new = \<lparr>shutdown_flag = False, broadcast = []\<rparr>"

definition handle_signal :: "signal \<Rightarrow> signal_handler \<Rightarrow> signal_handler" where
  "handle_signal sg h =
    \<lparr>shutdown_flag = (shutdown_flag h \<or> sg \<noteq> SigHup), broadcast = broadcast h @ [sg]\<rparr>"

definition is_shutdown :: "signal_handler \<Rightarrow> bool" where
  "is_shutdown h = shutdown_flag h"

lemma shutdown_on_termination:
  "is_shutdown (fold handle_signal sgs signal_handler_new) \<longleftrightarrow> SigTerm \<in> set sgs \<or> SigInt \<in> set sgs"
proof -
  have "is_shutdown (fold handle_signal sgs h) \<longleftrightarrow> is_shutdown h \<or> SigTerm \<in> set sgs \<or> SigInt \<in> set sgs" for h
  proof (induction sgs arbitrary: h)
    case (Cons sg sgs)
    then show ?case
      by (cases sg) (auto simp: handle_signal_def is_shutdown_def)
  qed simp
  then show ?thesis
    by (simp add: signal_handler_new_def is_shutdown_def)
qed

section \<open>Lifecycle\<close>

datatype child_op =
    Start "string + nat option" "nat option"
  | Stop env Shutdown.process "string option"
  | Signal "string option" string
  | SetDb database_type

fun exec_child :: "child_op \<Rightarrow> supervisor \<Rightarrow> supervisor" where
  "exec_child (Start spawned fd) s = snd (start spawned fd s)"
| "exec_child (Stop env proc status) s = stop env proc status s"
| "exec_child (Signal kill_err sig) s = snd (signal_child kill_err sig s)"
| "exec_child (SetDb db) s = (set_db_type db (fst s), snd s)"

definition child_ok :: "supervisor \<Rightarrow> bool" where
  "child_ok s =
    (case s of (p, os) \<Rightarrow>
      cp_state p = (if cp_pid p = None then Stopped else Running)
      \<and> cp_child p = (cp_pid p \<noteq> None)
      \<and> cp_pid p \<noteq> Some 0
      \<and> (cp_pid p = None \<longrightarrow> pidfd p = None)
      \<and> (\<forall>f. pidfd p = Some f \<longrightarrow> f \<in> set (open_pidfds os))
      \<and> exit_code p = None)"

lemma close_pidfd_fields [simp]:
  "cp_pid (fst (close_pidfd s)) = cp_pid (fst s)"
  "cp_child (fst (close_pidfd s)) = cp_child (fst s)"
  "exit_code (fst (close_pidfd s)) = exit_code (fst s)"
  "pidfd (fst (close_pidfd s)) = None"
  "reapers (snd (close_pidfd s)) = reapers (snd s)"
  by (simp_all add: close_pidfd_def split: option.splits prod.splits)

lemma start_ok: "child_ok s \<Longrightarrow> child_ok (snd (start spawned fd s))"
  by (auto simp: child_ok_def start_def Let_def split: sum.splits option.splits prod.splits)

lemma stop_stopped:
  "cp_pid (fst s) \<noteq> None \<Longrightarrow>
    cp_pid (fst (stop env proc status s)) = None \<and> \<not> cp_child (fst (stop env proc status s))
    \<and> cp_state (fst (stop env proc status s)) = Stopped \<and> pidfd (fst (stop env proc status s)) = None
    \<and> exit_code (fst (stop env proc status s)) = exit_code (fst s)"
  by (auto simp: stop_def Let_def case_prod_unfold)

lemma stop_ok: "child_ok s \<Longrightarrow> child_ok (stop env proc status s)"
  using stop_stopped [of s env proc status]
  by (cases "cp_pid (fst s) = None") (auto simp: child_ok_def case_prod_unfold stop_def)

lemma signal_child_ok: "child_ok s \<Longrightarrow> child_ok (snd (signal_child kill_err sig s))"
  by (auto simp: child_ok_def signal_child_def split: option.splits prod.splits)

lemma exec_child_ok: "child_ok s \<Longrightarrow> child_ok (exec_child op s)"
proof (cases op)
  case (SetDb db)
  then show "child_ok s \<Longrightarrow> ?thesis"
    by (simp add: child_ok_def set_db_type_def case_prod_unfold)
qed (simp_all add: start_ok stop_ok signal_child_ok)

interpretation child: op_system exec_child child_ok
  by unfold_locales (rule exec_child_ok)

definition supervisor_init :: "process_config \<Rightarrow> database_type \<Rightarrow> supervisor" where
  "supervisor_init c db = (with_db_type c db, \<lparr>open_pidfds = [], reapers = [], sent = []\<rparr>)"

lemma supervisor_init_ok [intro]: "child_ok (supervisor_init c db)"
  by (simp add: child_ok_def supervisor_init_def with_db_type_def)

section \<open>Descriptors\<close>

text \<open>A run in which the child is started only while none is running.\<close>

fun alternating :: "child_op list \<Rightarrow> supervisor \<Rightarrow> bool" where
  "alternating [] s = True"
| "alternating (op # ops) s =
    ((case op of Start _ _ \<Rightarrow> cp_pid (fst s) = None | _ \<Rightarrow> True) \<and> alternating ops (exec_child op s))"

definition tidy :: "supervisor \<Rightarrow> bool" where
  "tidy s = (open_pidfds (snd s) = (case pidfd (fst s) of Some f \<Rightarrow> [f] | None \<Rightarrow> []))"

lemma tidy_close: "tidy (p, os) \<Longrightarrow> open_pidfds (snd (close_pidfd (p, os))) = []"
  by (auto simp: tidy_def close_pidfd_def split: option.splits)

lemma tidy_stop:
  assumes "child_ok s" "tidy s"
  shows "tidy (stop env proc status s)"
proof (cases "cp_pid (fst s) = None")
  case True
  then show ?thesis
    using assms by (simp add: stop_def case_prod_unfold)
next
  case False
  then obtain n where n: "cp_pid (fst s) = Some n"
    by auto
  have close: "open_pidfds (snd (close_pidfd (p, os))) = []"
    if "pidfd p = pidfd (fst s)" "open_pidfds os = open_pidfds (snd s)" for p os
    using assms(2) that tidy_close [of p os] by (simp add: tidy_def)
  show ?thesis
    using n by (auto simp: tidy_def stop_def Let_def case_prod_unfold close)
qed

lemma tidy_exec:
  assumes "child_ok s" "tidy s" "case op of Start _ _ \<Rightarrow> cp_pid (fst s) = None | _ \<Rightarrow> True"
  shows "tidy (exec_child op s)"
proof (cases op)
  case (Start spawned fd)
  then show ?thesis
    using assms
    by (auto simp: tidy_def child_ok_def start_def Let_def case_prod_unfold split: sum.splits option.splits)
next
  case (Stop env proc status)
  then show ?thesis
    using assms tidy_stop by simp
qed (use assms in \<open>auto simp: tidy_def signal_child_def set_db_type_def case_prod_unfold split: option.splits\<close>)

text \<open>Descriptors do not leak in a run in which the child is started only while none is running: the open ones are
  exactly the one held, so that none is open after a stop.  A start while a child is running, on the other hand,
  overwrites the descriptor of that child, which stays open for good.\<close>

theorem no_pidfd_leak:
  assumes "alternating ops (supervisor_init c db)"
  shows "tidy (fold exec_child ops (supervisor_init c db))"
proof -
  have "child_ok s \<Longrightarrow> tidy s \<Longrightarrow> alternating ops s \<Longrightarrow> tidy (fold exec_child ops s)" for s
  proof (induction ops arbitrary: s)
    case (Cons op ops)
    then show ?case
      using tidy_exec [of s op] exec_child_ok [of s op] by simp
  qed simp
  moreover have "tidy (supervisor_init c db)"
    by (simp add: tidy_def supervisor_init_def with_db_type_def)
  ultimately show ?thesis
    using assms supervisor_init_ok by blast
qed

definition sample_run :: "child_op list" where
  "sample_run = [Start (Inr (Some 42)) (Some 7), Stop (\<lambda>_. None) (sample_process 500) None, Start (Inr (Some 43)) (Some 8)]"

theorem no_pidfd_leak_witness:
  "open_pidfds (snd (fold exec_child sample_run (supervisor_init process_config_default Generic))) = [8]"
proof -
  let ?i = "supervisor_init process_config_default Generic"
  have none: "cp_pid (fst (stop (\<lambda>_. None) (sample_process 500) None s)) = None" for s
    using stop_stopped [of s "\<lambda>_. None" "sample_process 500" None]
    by (cases "cp_pid (fst s) = None") (auto simp: stop_def case_prod_unfold)
  have "alternating sample_run ?i"
    using none by (simp add: sample_run_def supervisor_init_def with_db_type_def)
  then have "tidy (fold exec_child sample_run ?i)"
    by (rule no_pidfd_leak)
  moreover have "pidfd (fst (fold exec_child sample_run ?i)) = Some 8"
    by (simp add: sample_run_def start_def Let_def case_prod_unfold)
  ultimately show ?thesis
    by (simp add: tidy_def)
qed

lemma second_start_leaks:
  "fold exec_child [Start (Inr (Some 42)) (Some 7), Start (Inr (Some 43)) (Some 8)] (supervisor_init c db) = s \<Longrightarrow>
    pidfd (fst s) = Some 8 \<and> cp_pid (fst s) = Some 43 \<and> open_pidfds (snd s) = [8, 7]"
  by (auto simp: start_def supervisor_init_def with_db_type_def)

text \<open>Every start adds a reaper, and none ever ends.\<close>

lemma reapers_accumulate:
  "\<exists>new. reapers (snd (exec_child op s)) = new @ reapers (snd s)"
proof (cases op)
  case (Stop env proc status)
  then show ?thesis
    by (cases "cp_pid (fst s)") (simp_all add: stop_def Let_def case_prod_unfold)
qed (auto simp: start_def signal_child_def Let_def case_prod_unfold split: sum.splits option.splits)

section \<open>What a stop does to the child\<close>

lemma close_pidfd_sent [simp]: "sent (snd (close_pidfd s)) = sent (snd s)"
  by (simp add: close_pidfd_def split: option.splits prod.splits)

lemma handler_signals:
  "(1 \<le> signals_sent (shutdown_handler db p secs) \<longleftrightarrow> term_error p = None)
   \<and> ((\<forall>t. alive_at p t) \<longrightarrow> \<not> clean_exit (shutdown_handler db p secs))"
  by (cases db; cases "term_error p")
    (auto simp: shutdown_handler_def postgres_shutdown_def redis_shutdown_def generic_shutdown_def term_failed_def
      result_of_def Let_def)

text \<open>A child that has gone by the first look, after a quarter of the timeout at the earliest, is not killed.\<close>

lemma handler_quick_exit:
  assumes "term_error p = None" "\<forall>t \<ge> secs div 4 * 1000. \<not> alive_at p t"
  shows "clean_exit (shutdown_handler db p secs) \<and> signals_sent (shutdown_handler db p secs) = 1"
proof (cases db)
  case Redis
  have "secs div 4 * 1000 \<le> secs div 3 * 1000"
    by (intro mult_le_mono div_le_mono2) simp_all
  then have "\<not> alive_at p (secs div 3 * 1000)"
    using assms(2) by blast
  then show ?thesis
    using assms(1) Redis by (simp add: shutdown_handler_def redis_shutdown_def result_of_def Let_def)
next
  case Generic
  have "secs div 4 * 1000 \<le> secs * 1000"
    by simp
  then have "\<not> alive_at p (fst (poll_while (alive_at p) 0 (secs * 1000)))"
    using poll_while_spec [of 0 "secs * 1000" "alive_at p"] assms(2) by fastforce
  then show ?thesis
    using assms(1) Generic by (simp add: shutdown_handler_def generic_shutdown_def result_of_def Let_def)
qed (use assms in \<open>simp add: shutdown_handler_def postgres_shutdown_def result_of_def Let_def\<close>)

lemma manager_signals:
  assumes "mgr = shutdown_manager_new env db secs" and "r = snd (manager_shutdown (\<lambda>_. (0, 0)) (\<lambda>_. proc\<lparr>pid := n\<rparr>) mgr)"
  shows "(1 \<le> signals_sent r \<longleftrightarrow> term_error proc = None) \<and> ((\<forall>t. alive_at proc t) \<longrightarrow> \<not> clean_exit r)
    \<and> (term_error proc = None \<and> (\<forall>t \<ge> secs div 4 * 1000. \<not> alive_at proc t) \<longrightarrow> clean_exit r \<and> signals_sent r = 1)"
  using handler_signals [of db "proc\<lparr>pid := n\<rparr>" secs] handler_quick_exit [of "proc\<lparr>pid := n\<rparr>" secs db] assms
  by (simp add: manager_shutdown_def shutdown_manager_new_def Let_def)

text \<open>The signals of a stop: \<^verbatim>\<open>SIGTERM\<close> when it can be delivered, and then \<^verbatim>\<open>SIGKILL\<close> to a child that does not go.\<close>

lemma stop_signals:
  assumes n: "cp_pid (fst s) = Some n"
  shows "\<exists>kills. sent (snd (stop env proc status s)) =
      kills @ (if term_error proc = None then [(n, ''SIGTERM'')] else []) @ sent (snd s)
    \<and> set kills \<subseteq> {(n, ''SIGKILL'')}
    \<and> (term_error proc = None \<and> (\<forall>t \<ge> shutdown_timeout_secs (cp_config (fst s)) div 4 * 1000. \<not> alive_at proc t)
        \<longrightarrow> kills = [])
    \<and> ((\<forall>t. alive_at proc t) \<and> is_running status (fst s) \<and> kill_error proc = None \<longrightarrow> kills \<noteq> [])"
proof -
  let ?r = "snd (manager_shutdown (\<lambda>_. (0, 0)) (\<lambda>_. proc\<lparr>pid := n\<rparr>)
      (shutdown_manager_new env (cp_db_type (fst s)) (shutdown_timeout_secs (cp_config (fst s)))))"
  let ?kill = "\<not> clean_exit ?r \<and> is_running status (fst s) \<and> kill_error proc = None"
  let ?kills = "(if ?kill then [(n, ''SIGKILL'')] else []) @ (if 2 \<le> signals_sent ?r then [(n, ''SIGKILL'')] else [])"
  note r = manager_signals [OF refl refl, where env = env and db = "cp_db_type (fst s)"
      and secs = "shutdown_timeout_secs (cp_config (fst s))" and proc = proc and n = n]
  have running: "is_running status (fst s\<lparr>cp_state := Stopping\<rparr>) = is_running status (fst s)"
    by (simp add: is_running_def)
  have "sent (snd (stop env proc status s)) = ?kills @ (if term_error proc = None then [(n, ''SIGTERM'')] else []) @ sent (snd s)"
    using r by (simp add: stop_def n Let_def case_prod_unfold running signals_of_def)
  then show ?thesis
    using r by (intro exI [of _ ?kills]) auto
qed

text \<open>The descriptors that are lost: those of a child over which another one was started.\<close>

fun lost_fds :: "child_op list \<Rightarrow> supervisor \<Rightarrow> nat list" where
  "lost_fds [] s = []"
| "lost_fds (op # ops) s =
    (case op of
       Start spawned fd \<Rightarrow>
         (if fst (start spawned fd s) = None \<and> fd \<noteq> None
          then (case pidfd (fst s) of Some f \<Rightarrow> [f] | None \<Rightarrow> []) else [])
     | _ \<Rightarrow> []) @ lost_fds ops (exec_child op s)"

definition held_fd :: "supervisor \<Rightarrow> nat multiset" where
  "held_fd s = (case pidfd (fst s) of Some f \<Rightarrow> {#f#} | None \<Rightarrow> {#})"

definition fds_are :: "nat multiset \<Rightarrow> supervisor \<Rightarrow> bool" where
  "fds_are L s \<longleftrightarrow> mset (open_pidfds (snd s)) = held_fd s + L"

lemma close_fds: "fds_are L (p, os) \<Longrightarrow> mset (open_pidfds (snd (close_pidfd (p, os)))) = L"
  by (auto simp: fds_are_def held_fd_def close_pidfd_def split: option.splits)

lemma stop_fds:
  assumes "fds_are L s"
  shows "fds_are L (stop env proc status s)"
proof (cases "cp_pid (fst s)")
  case (Some n)
  have close: "mset (open_pidfds (snd (close_pidfd (p, os)))) = L"
    if "pidfd p = pidfd (fst s)" "open_pidfds os = open_pidfds (snd s)" for p os
    using assms that by (intro close_fds) (simp add: fds_are_def held_fd_def)
  show ?thesis
    using Some by (auto simp: fds_are_def held_fd_def stop_def Let_def case_prod_unfold close)
qed (use assms in \<open>simp add: stop_def case_prod_unfold\<close>)

lemma run_fds:
  "fds_are L s \<Longrightarrow> fds_are (mset (lost_fds ops s) + L) (fold exec_child ops s)"
proof (induction ops arbitrary: s L)
  case (Cons op ops)
  have "fds_are (mset (lost_fds [op] s) + L) (exec_child op s)"
  proof (cases op)
    case (Start spawned fd)
    then show ?thesis
      using Cons.prems
      by (auto simp: fds_are_def held_fd_def start_def Let_def case_prod_unfold split: sum.splits option.splits)
  next
    case (Stop env proc status)
    then show ?thesis
      using Cons.prems stop_fds by simp
  qed (use Cons.prems in \<open>auto simp: fds_are_def held_fd_def signal_child_def set_db_type_def case_prod_unfold
      split: option.splits\<close>)
  then have "fds_are (mset (lost_fds ops (exec_child op s)) + (mset (lost_fds [op] s) + L)) (fold exec_child ops (exec_child op s))"
    by (rule Cons.IH)
  then show ?case
    by (simp add: ac_simps)
qed simp

lemma alternating_loses_nothing:
  "child_ok s \<Longrightarrow> alternating ops s \<Longrightarrow> lost_fds ops s = []"
proof (induction ops arbitrary: s)
  case (Cons op ops)
  have "pidfd (fst s) = None" if "cp_pid (fst s) = None"
    using Cons.prems(1) that by (simp add: child_ok_def case_prod_unfold)
  then show ?case
    using Cons.IH [of "exec_child op s"] Cons.prems exec_child_ok [of s op] by (auto split: child_op.splits)
qed simp

text \<open>C34: The life of the child.  After any sequence of calls the supervisor's view is consistent: the state
  is running exactly when there is a process id, the id is never zero, the states \<^verbatim>\<open>Starting\<close>, \<^verbatim>\<open>Stopping\<close> and
  \<^verbatim>\<open>Failed\<close> are never seen between calls, and the exit code is never set.  A stop then does nothing when there is no
  child; otherwise it sends \<^verbatim>\<open>SIGTERM\<close> to the child (unless that cannot be delivered), and \<^verbatim>\<open>SIGKILL\<close> when the child never
  goes, \<^verbatim>\<open>/proc\<close> still shows it and the signal can be delivered, but not to a child that has gone within a quarter of
  its timeout, and no signal to anybody else; it leaves no id and no
  handle, and closes the child's descriptor: the descriptors still open are exactly those of children
  over which another one was started, none if the child was only started while none was running.\<close>

theorem child_lifecycle:
  assumes "s = fold exec_child ops (supervisor_init c db)" "s' = exec_child (Stop env proc status) s"
  shows "cp_state (fst s) = (if cp_pid (fst s) = None then Stopped else Running)
    \<and> cp_child (fst s) = (cp_pid (fst s) \<noteq> None) \<and> cp_pid (fst s) \<noteq> Some 0 \<and> exit_code (fst s) = None
    \<and> cp_pid (fst s') = None \<and> cp_state (fst s') = Stopped \<and> \<not> cp_child (fst s') \<and> pidfd (fst s') = None
    \<and> mset (open_pidfds (snd s')) = mset (lost_fds ops (supervisor_init c db))
    \<and> (alternating ops (supervisor_init c db) \<longrightarrow> open_pidfds (snd s') = [])
    \<and> (case cp_pid (fst s) of
         None \<Rightarrow> s' = s
       | Some n \<Rightarrow>
           (\<exists>kills. sent (snd s') = kills @ (if term_error proc = None then [(n, ''SIGTERM'')] else []) @ sent (snd s)
             \<and> set kills \<subseteq> {(n, ''SIGKILL'')}
             \<and> (term_error proc = None \<and> (\<forall>t \<ge> shutdown_timeout_secs (cp_config (fst s)) div 4 * 1000. \<not> alive_at proc t)
                 \<longrightarrow> kills = [])
             \<and> ((\<forall>t. alive_at proc t) \<and> is_running status (fst s) \<and> kill_error proc = None \<longrightarrow> kills \<noteq> [])))"
proof -
  have ok: "child_ok s"
    unfolding assms(1) by (rule child.fold_inv) (rule supervisor_init_ok)
  then have ok': "child_ok s'"
    unfolding assms(2) by (rule exec_child_ok)
  have none: "cp_pid (fst s') = None"
    using stop_stopped [of s env proc status] assms(2)
    by (cases "cp_pid (fst s) = None") (auto simp: stop_def case_prod_unfold)
  have idle: "s' = s" if "cp_pid (fst s) = None"
    using that assms(2) by (simp add: stop_def case_prod_unfold)
  have "fds_are {#} (supervisor_init c db)"
    by (simp add: fds_are_def held_fd_def supervisor_init_def with_db_type_def)
  then have "fds_are (mset (lost_fds ops (supervisor_init c db))) s'"
    using run_fds [of "{#}"] stop_fds unfolding assms by fastforce
  moreover have "held_fd s' = {#}"
    using ok' none by (simp add: held_fd_def child_ok_def case_prod_unfold)
  ultimately have fds: "mset (open_pidfds (snd s')) = mset (lost_fds ops (supervisor_init c db))"
    by (simp add: fds_are_def)
  have "open_pidfds (snd s') = []" if "alternating ops (supervisor_init c db)"
    using fds alternating_loses_nothing [OF supervisor_init_ok that] by simp
  moreover have "case cp_pid (fst s) of
         None \<Rightarrow> s' = s
       | Some n \<Rightarrow>
           (\<exists>kills. sent (snd s') = kills @ (if term_error proc = None then [(n, ''SIGTERM'')] else []) @ sent (snd s)
             \<and> set kills \<subseteq> {(n, ''SIGKILL'')}
             \<and> (term_error proc = None \<and> (\<forall>t \<ge> shutdown_timeout_secs (cp_config (fst s)) div 4 * 1000. \<not> alive_at proc t)
                 \<longrightarrow> kills = [])
             \<and> ((\<forall>t. alive_at proc t) \<and> is_running status (fst s) \<and> kill_error proc = None \<longrightarrow> kills \<noteq> []))"
  proof (cases "cp_pid (fst s)")
    case (Some n)
    then show ?thesis
      using stop_signals [OF Some, of env proc status] unfolding assms(2) by (simp only: option.case exec_child.simps)
  qed (use idle in simp)
  ultimately show ?thesis
    using ok ok' none fds unfolding child_ok_def case_prod_unfold by (intro conjI) (simp_all only:, simp_all)
qed

theorem child_lifecycle_witness:
  "open_pidfds (snd (fold exec_child [Start (Inr (Some 42)) (Some 7), Stop (\<lambda>_. None) (sample_process 500) None]
     (supervisor_init process_config_default Generic))) = []"
proof -
  have "alternating [Start (Inr (Some 42)) (Some 7)] (supervisor_init process_config_default Generic)"
    by (simp add: supervisor_init_def with_db_type_def)
  then show ?thesis
    using child_lifecycle [OF refl refl, of "[Start (Inr (Some 42)) (Some 7)]" process_config_default Generic
        "\<lambda>_. None" "sample_process 500" None]
    by simp
qed

end
