(* ===== verification/Vault.thy ===== *)
theory Vault
  imports Config
begin

text \<open>
  \<^verbatim>\<open>vault-shim/src/lib.rs\<close>: credentials fetched from Vault and written to a file, once at the start and then in a loop.
  Each rotation happens in a world that says what Vault answers to the two requests (an error of the transport or of
  the status, or the JSON of the body), whether and how far the file can be written, and what time it is.  The addition of
  seconds to a time is \<^verbatim>\<open>chrono\<close>'s, which panics outside its range.
\<close>

section \<open>Data\<close>

record credentials =
  username :: string
  password :: string
  fetched_at :: time
  expires_at :: "time option"

datatype vault_error = HttpError string | DecodeError | WriteError string | NotConfigured

record vault_world =
  vault_get :: "string \<Rightarrow> string \<Rightarrow> string + json"
  vault_post :: "string \<Rightarrow> string \<Rightarrow> string + json"
  file_fault :: "write_fault option"
  add_seconds :: "int \<Rightarrow> time \<Rightarrow> time option"
  vault_now :: time

record vault_shim =
  vs_addr :: string
  vs_token :: string
  vs_role :: string
  vs_secret :: string
  vs_key :: string
  vs_mount :: string
  output_file :: "string option"
  vs_rotation_secs :: nat
  tls_skip_verify :: bool
  last_rotation :: "time option"
  rotation_success :: nat
  rotation_failure :: nat

text \<open>The files of the host, and the requests that were sent.\<close>

record vault_host =
  vfiles :: "(string, string) hmap"
  requests :: "string list"

definition vault_new :: "env \<Rightarrow> vault_shim" where
  "vault_new env =
    \<lparr>vs_addr = env_str env ''VAULT_ADDR'' ''https://127.0.0.1:8200'',
     vs_token = env_str env ''VAULT_TOKEN'' [],
     vs_role = env_str env ''VAULT_ROLE'' [],
     vs_secret = env_str env ''VAULT_SECRET'' [],
     vs_key = env_str env ''VAULT_KEY'' ''password'',
     vs_mount = env_str env ''VAULT_MOUNT'' ''secret'',
     output_file = env ''VAULT_OUTPUT_FILE'',
     vs_rotation_secs = env_uint 64 env ''VAULT_ROTATION_SECS'' 3600,
     tls_skip_verify = (case env ''VAULT_TLS_SKIP_VERIFY'' of Some v \<Rightarrow> v = ''true'' \<or> v = ''1'' | None \<Rightarrow> False),
     last_rotation = None, rotation_success = 0, rotation_failure = 0\<rparr>"

section \<open>Fetching\<close>

definition str_field :: "json \<Rightarrow> string \<Rightarrow> string \<Rightarrow> string" where
  "str_field j k d = (case Option.bind (json_get j k) json_str of Some s \<Rightarrow> s | None \<Rightarrow> d)"

text \<open>The body as a \<^verbatim>\<open>VaultResponse\<close>: an object with an object \<^verbatim>\<open>data\<close> with an object \<^verbatim>\<open>data\<close>.\<close>

definition vault_response :: "json \<Rightarrow> json option" where
  "vault_response j =
    Option.bind (json_get j ''data'') (\<lambda>d. Option.bind (json_get d ''data'') (\<lambda>m. case m of JObj _ \<Rightarrow> Some m | _ \<Rightarrow> None))"

definition secret_url :: "vault_shim \<Rightarrow> string \<Rightarrow> string" where
  "secret_url s path = vs_addr s @ ''/v1/'' @ vs_mount s @ ''/'' @ path"

definition read_secret :: "vault_world \<Rightarrow> string \<Rightarrow> vault_shim \<Rightarrow> vault_error + credentials" where
  "read_secret w path s =
    (case vault_get w (secret_url s path) (vs_token s) of
       Inl e \<Rightarrow> Inl (HttpError e)
     | Inr body \<Rightarrow>
         (case vault_response body of
            None \<Rightarrow> Inl DecodeError
          | Some d \<Rightarrow> Inr \<lparr>username = str_field d ''username'' ''postgres'', password = str_field d (vs_key s) [],
              fetched_at = vault_now w, expires_at = None\<rparr>))"

definition dynamic_url :: "vault_shim \<Rightarrow> string" where
  "dynamic_url s = vs_addr s @ ''/v1/database/creds/'' @ vs_role s"

text \<open>The lease is cast to \<^verbatim>\<open>i64\<close>.\<close>

definition lease_i64 :: "json \<Rightarrow> int" where
  "lease_i64 body =
    (let lease = (case Option.bind (json_get body ''lease_duration'') json_u64 of Some n \<Rightarrow> n | None \<Rightarrow> 3600)
     in if lease < 2 ^ 63 then int lease else int lease - 2 ^ 64)"

definition generate_dynamic :: "vault_world \<Rightarrow> vault_shim \<Rightarrow> (vault_error + credentials) outcome" where
  "generate_dynamic w s =
    (case vault_post w (dynamic_url s) (vs_token s) of
       Inl e \<Rightarrow> Returns (Inl (HttpError e))
     | Inr body \<Rightarrow>
         (let d = (case json_get body ''data'' of Some x \<Rightarrow> x | None \<Rightarrow> JNull) in
          case add_seconds w (lease_i64 body) (vault_now w) of
            None \<Rightarrow> Panics
          | Some t \<Rightarrow> Returns (Inr \<lparr>username = str_field d ''username'' [], password = str_field d ''password'' [],
              fetched_at = vault_now w, expires_at = Some t\<rparr>)))"

section \<open>Rotation\<close>

definition credentials_line :: "credentials \<Rightarrow> string" where
  "credentials_line c = username c @ '':'' @ password c @ [CHR 0x0A]"

text \<open>\<^verbatim>\<open>fs::write\<close> empties the file before it writes.\<close>

definition write_credentials :: "vault_world \<Rightarrow> vault_shim \<Rightarrow> credentials \<Rightarrow> vault_host \<Rightarrow> vault_error option \<times> vault_host" where
  "write_credentials w s c h =
    (case output_file s of
       None \<Rightarrow> (None, h)
     | Some path \<Rightarrow>
         (case write_result (file_fault w) of Inl e \<Rightarrow> Some (WriteError e) | Inr _ \<Rightarrow> None,
          case written (file_fault w) (credentials_line c) of
            None \<Rightarrow> h
          | Some txt \<Rightarrow> h\<lparr>vfiles := hm_insert path txt (vfiles h)\<rparr>))"

text \<open>The credentials of a rotation, with the request that was sent.\<close>

definition fetch :: "vault_world \<Rightarrow> vault_shim \<Rightarrow> (vault_error + credentials) outcome \<times> string list" where
  "fetch w s =
    (if vs_role s \<noteq> [] then (generate_dynamic w s, [dynamic_url s])
     else if vs_secret s \<noteq> [] then (Returns (read_secret w (vs_secret s) s), [secret_url s (vs_secret s)])
     else (Returns (Inl NotConfigured), []))"

definition rotate_shim :: "vault_world \<Rightarrow> vault_shim \<times> vault_host \<Rightarrow> (vault_error option \<times> vault_shim \<times> vault_host) outcome" where
  "rotate_shim w sh =
    (case sh of (s, h) \<Rightarrow>
      (let (r, sent) = fetch w s; h1 = h\<lparr>requests := requests h @ sent\<rparr> in
       case r of
         Panics \<Rightarrow> Panics
       | Returns (Inl e) \<Rightarrow> Returns (Some e, s, h1)
       | Returns (Inr c) \<Rightarrow>
           (case write_credentials w s c h1 of
              (Some e, h2) \<Rightarrow> Returns (Some e, s, h2)
            | (None, h2) \<Rightarrow>
                Returns (None, s\<lparr>last_rotation := Some (vault_now w), rotation_success := rotation_success s + 1\<rparr>, h2))))"

text \<open>A failure is counted.\<close>

definition rotate_counted :: "vault_world \<Rightarrow> vault_shim \<times> vault_host \<Rightarrow> (vault_shim \<times> vault_host) outcome" where
  "rotate_counted w sh =
    (case rotate_shim w sh of
       Panics \<Rightarrow> Panics
     | Returns (None, sh') \<Rightarrow> Returns sh'
     | Returns (Some e, s, h) \<Rightarrow> Returns (s\<lparr>rotation_failure := rotation_failure s + 1\<rparr>, h))"

section \<open>Capability\<close>

definition vault_init :: "validators \<Rightarrow> env \<Rightarrow> config \<Rightarrow> vault_shim \<Rightarrow> string + vault_shim" where
  "vault_init v env cfg s =
    (let errs = filter (\<lambda>e. starts_with (err_field e) ''vault.'') (validate v cfg) in
     if validation_enabled env \<and> errs \<noteq> []
     then Inl (''vault config validation failed: '' @ join ''; '' (map config_error_display errs))
     else Inr (case vault cfg of None \<Rightarrow> s
               | Some c \<Rightarrow> s\<lparr>vs_addr := vault_addr c, vs_role := vault_role c, vs_secret := vault_secret c,
                              vs_rotation_secs := rotation_secs c\<rparr>))"

text \<open>The loop: a tick rotates; a stop, or a panic, ends it.  The worlds are those of the ticks, the first of which comes
  at once.\<close>

datatype vault_event = VTick vault_world | VShutdown

fun rotation_loop :: "vault_event list \<Rightarrow> vault_shim \<times> vault_host \<Rightarrow> vault_shim \<times> vault_host" where
  "rotation_loop [] sh = sh"
| "rotation_loop (VShutdown # es) sh = sh"
| "rotation_loop (VTick w # es) sh =
    (case rotate_counted w sh of Panics \<Rightarrow> sh | Returns sh' \<Rightarrow> rotation_loop es sh')"

text \<open>The loop works on a shim of its own, whose counters start at zero.  A rotation interval of zero makes
  \<^verbatim>\<open>tokio::time::interval\<close> panic in the spawned task, which then does nothing.\<close>

definition loop_shim :: "vault_shim \<Rightarrow> vault_shim" where
  "loop_shim s = s\<lparr>last_rotation := None, rotation_success := 0, rotation_failure := 0\<rparr>"

text \<open>The shim that the metrics are read from, the shim of the loop, and the host, after the start and the events of
  the loop.\<close>

definition vault_start ::
  "vault_world \<Rightarrow> vault_event list \<Rightarrow> vault_shim \<times> vault_host \<Rightarrow> (vault_shim \<times> vault_shim \<times> vault_host) outcome" where
  "vault_start w es sh =
    (case rotate_counted w sh of
       Panics \<Rightarrow> Panics
     | Returns (s, h) \<Rightarrow>
         Returns (s, if vs_rotation_secs s = 0 then (loop_shim s, h) else rotation_loop es (loop_shim s, h)))"

definition vault_metrics :: "vault_shim \<Rightarrow> metric list" where
  "vault_metrics s =
    [(''vault_rotation_success_total'', of_nat (rotation_success s)),
     (''vault_rotation_failure_total'', of_nat (rotation_failure s))] @
    (case last_rotation s of
       Some t \<Rightarrow> [(''vault_rotation_last_success_timestamp'', of_int (t div second))]
     | None \<Rightarrow> [])"

section \<open>A rotation\<close>

text \<open>What a rotation leaves in the file, if it touches it; and the line it leaves if it succeeds.\<close>

definition left_line :: "vault_shim \<Rightarrow> vault_world \<Rightarrow> string option" where
  "left_line s w =
    (case fst (fetch w s) of Returns (Inr c) \<Rightarrow> written (file_fault w) (credentials_line c) | _ \<Rightarrow> None)"

definition rotated_line :: "vault_shim \<Rightarrow> vault_world \<Rightarrow> string option" where
  "rotated_line s w =
    (case fst (fetch w s) of
       Returns (Inr c) \<Rightarrow> (if file_fault w = None then Some (credentials_line c) else None)
     | _ \<Rightarrow> None)"

lemma rotate_shim_spec:
  assumes "rotate_shim w (s, h) = Returns (r, s', h')"
  shows "(r = None \<longleftrightarrow> (\<exists>c. fst (fetch w s) = Returns (Inr c)) \<and> (output_file s \<noteq> None \<longrightarrow> file_fault w = None))
    \<and> vfiles h' = (case (output_file s, left_line s w) of (Some path, Some txt) \<Rightarrow> hm_insert path txt (vfiles h) | _ \<Rightarrow> vfiles h)
    \<and> s' = (if r = None then s\<lparr>last_rotation := Some (vault_now w), rotation_success := rotation_success s + 1\<rparr> else s)
    \<and> requests h' = requests h @ snd (fetch w s)"
proof (cases "fst (fetch w s)")
  case (Returns x)
  note unf = rotate_shim_def left_line_def Let_def case_prod_unfold
  show ?thesis
  proof (cases x)
    case (Inl e)
    then show ?thesis
      using assms [symmetric] Returns by (simp add: unf split: option.split)
  next
    case (Inr c)
    note eq = assms [symmetric] Returns Inr
    show ?thesis
    proof (cases "output_file s")
      case None
      then show ?thesis
        using eq by (simp add: unf write_credentials_def)
    next
      case (Some path)
      show ?thesis
        using eq Some by (cases "file_fault w" rule: write_result.cases) (simp_all add: unf write_credentials_def)
    qed
  qed
qed (use assms in \<open>simp add: rotate_shim_def Let_def case_prod_unfold\<close>)

definition same_settings :: "vault_shim \<Rightarrow> vault_shim \<Rightarrow> bool" where
  "same_settings s s' = (loop_shim s = loop_shim s')"

lemma same_settings_fetch: "same_settings s s' \<Longrightarrow> fetch w s = fetch w s' \<and> output_file s = output_file s'"
proof -
  assume a: "same_settings s s'"
  then have fields: "vs_addr s = vs_addr s'" "vs_token s = vs_token s'" "vs_role s = vs_role s'" "vs_secret s = vs_secret s'"
    "vs_key s = vs_key s'" "vs_mount s = vs_mount s'" "output_file s = output_file s'"
    by (cases s; cases s'; simp add: same_settings_def loop_shim_def)+
  show ?thesis
    unfolding fetch_def generate_dynamic_def read_secret_def secret_url_def dynamic_url_def fields by (intro conjI refl)
qed

lemma rotate_counted_returns:
  assumes "fst (fetch w s) \<noteq> Panics"
  shows "\<exists>s' h'. rotate_counted w (s, h) = Returns (s', h')"
proof -
  have "rotate_shim w (s, h) \<noteq> Panics"
    using assms by (auto simp: rotate_shim_def Let_def case_prod_unfold split: outcome.splits sum.splits option.splits)
  then obtain r s' h' where "rotate_shim w (s, h) = Returns (r, s', h')"
    by (metis outcome.exhaust prod_cases3)
  then show ?thesis
    by (cases r) (simp_all add: rotate_counted_def)
qed

lemma rotate_countedE:
  assumes "rotate_counted w (s, h) = Returns (s', h')"
  obtains r s1 where "rotate_shim w (s, h) = Returns (r, s1, h')"
    "s' = (if r = None then s1 else s1\<lparr>rotation_failure := rotation_failure s1 + 1\<rparr>)"
proof -
  have "rotate_shim w (s, h) \<noteq> Panics"
    using assms by (auto simp: rotate_counted_def)
  then obtain r s1 h1 where r: "rotate_shim w (s, h) = Returns (r, s1, h1)"
    by (metis outcome.exhaust prod_cases3)
  then have "h1 = h' \<and> s' = (if r = None then s1 else s1\<lparr>rotation_failure := rotation_failure s1 + 1\<rparr>)"
    using assms by (cases r) (simp_all add: rotate_counted_def)
  then show thesis
    using r by (auto intro: that)
qed

lemma same_settings_secs: "same_settings s s' \<Longrightarrow> vs_rotation_secs s' = vs_rotation_secs s"
  by (cases s; cases s') (simp add: same_settings_def loop_shim_def)

lemma rotate_counted_settings:
  assumes "rotate_counted w (s, h) = Returns (s', h')"
  shows "same_settings s s'"
proof -
  obtain r s1 where r: "rotate_shim w (s, h) = Returns (r, s1, h')"
    and s': "s' = (if r = None then s1 else s1\<lparr>rotation_failure := rotation_failure s1 + 1\<rparr>)"
    using assms by (rule rotate_countedE)
  show ?thesis
    using rotate_shim_spec [OF r] s' by (cases r) (simp_all add: same_settings_def loop_shim_def)
qed

lemma lines_same: "same_settings s s' \<Longrightarrow> left_line s' = left_line s"
  using same_settings_fetch [of s s'] by (simp add: left_line_def fun_eq_iff)

lemma left_rotated:
  assumes "\<And>n e. file_fault w \<noteq> Some (Cut_Short n e)"
  shows "left_line s w = rotated_line s w"
proof (cases "file_fault w" rule: write_result.cases)
  case (3 n e)
  then show ?thesis
    using assms [of n e] by simp
qed (simp_all add: left_line_def rotated_line_def split: outcome.split sum.split)

lemma rotate_counted_file:
  assumes "rotate_counted w (s, h) = Returns (s', h')" "output_file s = Some path"
  shows "map_of (vfiles h') path = (case left_line s w of Some l \<Rightarrow> Some l | None \<Rightarrow> map_of (vfiles h) path)"
proof -
  obtain r s1 where r: "rotate_shim w (s, h) = Returns (r, s1, h')"
    using assms(1) by (rule rotate_countedE)
  show ?thesis
    using rotate_shim_spec [OF r] assms(2) by (simp split: option.split)
qed

section \<open>The file follows the last success\<close>

fun live_ticks :: "vault_event list \<Rightarrow> vault_world list" where
  "live_ticks (VTick w # es) = w # live_ticks es"
| "live_ticks _ = []"

definition last_some :: "'a option list \<Rightarrow> 'a option \<Rightarrow> 'a option" where
  "last_some xs d = fold (\<lambda>x acc. case x of Some y \<Rightarrow> Some y | None \<Rightarrow> acc) xs d"

lemma rotation_loop_file:
  assumes "output_file s = Some path" "\<And>w. w \<in> set (live_ticks es) \<Longrightarrow> fst (fetch w s) \<noteq> Panics"
  shows "map_of (vfiles (snd (rotation_loop es (s, h)))) path
    = last_some (map (left_line s) (live_ticks es)) (map_of (vfiles h) path)"
  using assms
proof (induction es arbitrary: s h)
  case (Cons e es)
  show ?case
  proof (cases e)
    case (VTick w)
    obtain s' h' where step: "rotate_counted w (s, h) = Returns (s', h')"
      using rotate_counted_returns [of w s h] Cons.prems(2) [of w] VTick by auto
    have same: "same_settings s s'"
      using step by (rule rotate_counted_settings)
    have "map_of (vfiles (snd (rotation_loop es (s', h')))) path
        = last_some (map (left_line s') (live_ticks es)) (map_of (vfiles h') path)"
      using Cons.prems VTick same_settings_fetch [OF same] by (intro Cons.IH) auto
    then show ?thesis
      using step VTick rotate_counted_file [OF step Cons.prems(1)] lines_same [OF same]
      by (simp add: last_some_def)
  next
    case VShutdown
    then show ?thesis
      by (simp add: last_some_def)
  qed
qed (simp add: last_some_def)

text \<open>C27: What the credentials file holds after a start and any run of the loop in which no lease makes the
  time arithmetic panic: what the last rotation that opened the file left in it, the credentials
  of that rotation or, if its write was cut short, the part written.  So as long as no write is cut
  short, the file holds what the last successful rotation got: whatever else fails in between -- Vault does
  not answer, the body is not what is expected, the file cannot be opened -- leaves the previous
  credentials in place, and the loop goes on to the next rotation.  (A write that is cut short
  destroys them: \<^verbatim>\<open>cut_short_destroys\<close>.)\<close>

theorem vault_file_last_success:
  assumes "output_file s = Some path" "vs_rotation_secs s \<noteq> 0"
    and "\<And>w'. w' \<in> set (w # live_ticks es) \<Longrightarrow> fst (fetch w' s) \<noteq> Panics"
  shows "\<exists>s1 s2 h2. vault_start w es (s, h) = Returns (s1, s2, h2)
    \<and> map_of (vfiles h2) path = last_some (map (left_line s) (w # live_ticks es)) (map_of (vfiles h) path)
    \<and> ((\<forall>w' \<in> set (w # live_ticks es). \<forall>n e. file_fault w' \<noteq> Some (Cut_Short n e)) \<longrightarrow>
        map_of (vfiles h2) path = last_some (map (rotated_line s) (w # live_ticks es)) (map_of (vfiles h) path))"
proof -
  obtain s1 h1 where step: "rotate_counted w (s, h) = Returns (s1, h1)"
    using rotate_counted_returns [of w s h] assms(3) [of w] by auto
  have same: "same_settings s (loop_shim s1)"
    using rotate_counted_settings [OF step] by (simp add: same_settings_def loop_shim_def)
  have secs: "vs_rotation_secs s1 = vs_rotation_secs s"
    using rotate_counted_settings [OF step] by (rule same_settings_secs)
  have "map_of (vfiles (snd (rotation_loop es (loop_shim s1, h1)))) path
      = last_some (map (left_line (loop_shim s1)) (live_ticks es)) (map_of (vfiles h1) path)"
    using assms(1,3) same_settings_fetch [OF same] by (intro rotation_loop_file) auto
  also have "\<dots> = last_some (map (left_line s) (w # live_ticks es)) (map_of (vfiles h) path)"
    using rotate_counted_file [OF step assms(1)] lines_same [OF same] by (simp add: last_some_def)
  finally have held: "map_of (vfiles (snd (rotation_loop es (loop_shim s1, h1)))) path
      = last_some (map (left_line s) (w # live_ticks es)) (map_of (vfiles h) path)" .
  have whole: "map (left_line s) (w # live_ticks es) = map (rotated_line s) (w # live_ticks es)"
    if "\<forall>w' \<in> set (w # live_ticks es). \<forall>n e. file_fault w' \<noteq> Some (Cut_Short n e)"
    using that by (intro map_cong refl left_rotated) blast
  have "vault_start w es (s, h) = Returns (s1, rotation_loop es (loop_shim s1, h1))"
    using step assms(2) secs by (simp add: vault_start_def)
  then show ?thesis
    using held whole
    by (intro exI [of _ s1] exI [of _ "fst (rotation_loop es (loop_shim s1, h1))"]
        exI [of _ "snd (rotation_loop es (loop_shim s1, h1))"] conjI impI) (simp_all only: prod.collapse)
qed

definition sample_vault_body :: "string \<Rightarrow> json" where
  "sample_vault_body pw = JObj [(''data'', JObj [(''data'', JObj [(''username'', JStr ''app''), (''password'', JStr pw)])])]"

definition sample_vault_world :: "string + json \<Rightarrow> vault_world" where
  "sample_vault_world r = \<lparr>vault_get = (\<lambda>_ _. r), vault_post = (\<lambda>_ _. Inl ''404''), file_fault = None,
     add_seconds = (\<lambda>n t. Some (t + n * second)), vault_now = 0\<rparr>"

definition sample_vault :: vault_shim where
  "sample_vault = (vault_new (\<lambda>_. None))\<lparr>vs_secret := ''data/pg'', output_file := Some ''/run/pgpass''\<rparr>"

theorem vault_file_last_success_witness:
  "\<exists>s1 s2 h2. vault_start (sample_vault_world (Inr (sample_vault_body ''one'')))
      [VTick (sample_vault_world (Inr (sample_vault_body ''two''))), VTick (sample_vault_world (Inl ''503''))]
      (sample_vault, \<lparr>vfiles = [], requests = []\<rparr>) = Returns (s1, s2, h2)
    \<and> map_of (vfiles h2) ''/run/pgpass'' = Some (''app:two'' @ [CHR 0x0A])"
proof -
  let ?w1 = "sample_vault_world (Inr (sample_vault_body ''one''))"
  let ?w2 = "sample_vault_world (Inr (sample_vault_body ''two''))"
  let ?w3 = "sample_vault_world (Inl ''503'')"
  have role: "vs_role sample_vault = []" "vs_secret sample_vault \<noteq> []" "output_file sample_vault = Some ''/run/pgpass''"
    "vs_rotation_secs sample_vault \<noteq> 0" "vs_key sample_vault = ''password''"
    by (simp_all add: sample_vault_def vault_new_def env_str_def env_uint_def)
  have nopanic: "fst (fetch w sample_vault) \<noteq> Panics" for w
    using role by (simp add: fetch_def)
  have faults: "file_fault (sample_vault_world r) = None" for r
    by (simp add: sample_vault_world_def)
  have lines: "rotated_line sample_vault ?w1 = Some (''app:one'' @ [CHR 0x0A])"
    "rotated_line sample_vault ?w2 = Some (''app:two'' @ [CHR 0x0A])" "rotated_line sample_vault ?w3 = None"
    using role
    by (simp_all add: rotated_line_def fetch_def read_secret_def sample_vault_world_def sample_vault_body_def
        vault_response_def json_get_def str_field_def json_str_def credentials_line_def)
  show ?thesis
    using vault_file_last_success [of sample_vault "''/run/pgpass''" ?w1 "[VTick ?w2, VTick ?w3]"
        "\<lparr>vfiles = [], requests = []\<rparr>"] role nopanic
    by (auto simp add: lines faults last_some_def)
qed

text \<open>A write that fails after opening the file destroys the credentials a successful rotation put there.\<close>

lemma cut_short_destroys:
  assumes "output_file s = Some path" "fst (fetch w s) = Returns (Inr c)" "file_fault w = Some (Cut_Short 0 e)"
  shows "\<exists>s' h'. rotate_counted w (s, h) = Returns (s', h') \<and> map_of (vfiles h') path = Some []
    \<and> rotation_failure s' = rotation_failure s + 1"
  using assms by (simp add: rotate_counted_def rotate_shim_def write_credentials_def Let_def case_prod_unfold)

section \<open>What goes unnoticed\<close>

text \<open>The metrics of the shim are those of the start: no rotation of the loop, successful or failed, is ever counted,
  and the time of the last success stays that of the start.\<close>

theorem vault_metrics_frozen:
  assumes "vault_start w es sh = Returns (s1, l1)" "vault_start w es' sh = Returns (s2, l2)"
  shows "vault_metrics s1 = vault_metrics s2 \<and> rotation_success s1 + rotation_failure s1 = rotation_success (fst sh) + rotation_failure (fst sh) + 1"
proof -
  obtain s h where sh: "sh = (s, h)"
    by (cases sh)
  obtain h1 where step: "rotate_counted w (s, h) = Returns (s1, h1)" and "s1 = s2"
    using assms by (auto simp: sh vault_start_def split: outcome.splits)
  obtain r s' where r: "rotate_shim w (s, h) = Returns (r, s', h1)"
    and s1: "s1 = (if r = None then s' else s'\<lparr>rotation_failure := rotation_failure s' + 1\<rparr>)"
    using step by (rule rotate_countedE)
  show ?thesis
    using rotate_shim_spec [OF r] s1 \<open>s1 = s2\<close> sh by auto
qed

theorem vault_metrics_frozen_witness:
  "\<exists>s1 l1 s2 l2. vault_start (sample_vault_world (Inl ''503'')) [] (sample_vault, \<lparr>vfiles = [], requests = []\<rparr>) = Returns (s1, l1)
    \<and> vault_start (sample_vault_world (Inl ''503'')) [VTick (sample_vault_world (Inr (sample_vault_body ''two'')))]
        (sample_vault, \<lparr>vfiles = [], requests = []\<rparr>) = Returns (s2, l2)
    \<and> vault_metrics s1 = vault_metrics s2"
proof -
  let ?w = "sample_vault_world (Inl ''503'')" and ?sh = "(sample_vault, \<lparr>vfiles = [], requests = []\<rparr>)"
  have "fst (fetch ?w sample_vault) \<noteq> Panics"
    by (simp add: fetch_def sample_vault_def vault_new_def env_str_def)
  then obtain s h where "rotate_counted ?w ?sh = Returns (s, h)"
    using rotate_counted_returns by blast
  then obtain s1 l1 s2 l2 where "vault_start ?w [] ?sh = Returns (s1, l1)"
    "vault_start ?w [VTick (sample_vault_world (Inr (sample_vault_body ''two'')))] ?sh = Returns (s2, l2)"
    by (simp add: vault_start_def)
  then show ?thesis
    using vault_metrics_frozen by blast
qed

text \<open>The first tick of the loop comes at once, so that a start with a role asks Vault for two sets of dynamic credentials;
  the first set is overwritten and lives on until its lease ends.\<close>

lemma start_generates_twice:
  assumes "vs_role s \<noteq> []" "vs_rotation_secs s \<noteq> 0"
    and "vault_start w [VTick w'] (s, h) = Returns (s1, s2, h2)" "fst (fetch w' s) \<noteq> Panics"
  shows "requests h2 = requests h @ [dynamic_url s, dynamic_url s]"
proof -
  obtain h1 where step: "rotate_counted w (s, h) = Returns (s1, h1)"
    using assms(3) by (auto simp: vault_start_def split: outcome.splits)
  have same: "same_settings s (loop_shim s1)"
    using rotate_counted_settings [OF step] by (simp add: same_settings_def loop_shim_def)
  have secs: "vs_rotation_secs s1 = vs_rotation_secs s"
    using rotate_counted_settings [OF step] by (rule same_settings_secs)
  have reqs: "requests h'' = requests h' @ snd (fetch v t)" if run: "rotate_counted v (t, h') = Returns (t', h'')" for v t t' h' h''
  proof -
    obtain r t1 where "rotate_shim v (t, h') = Returns (r, t1, h'')"
      using run by (rule rotate_countedE)
    then show ?thesis
      using rotate_shim_spec by blast
  qed
  obtain s3 h3 where loop: "rotate_counted w' (loop_shim s1, h1) = Returns (s3, h3)"
    using rotate_counted_returns [of w' "loop_shim s1" h1] assms(4) same_settings_fetch [OF same, of w'] by auto
  then have "h2 = h3"
    using assms(2,3) step secs by (simp add: vault_start_def)
  moreover have "snd (fetch v s) = [dynamic_url s]" for v
    using assms(1) by (simp add: fetch_def)
  moreover have "fetch w' (loop_shim s1) = fetch w' s"
    using same_settings_fetch [OF same, of w'] by simp
  ultimately show ?thesis
    using reqs [OF loop] reqs [OF step] by simp
qed

text \<open>A secret without the configured key is written with an empty password, and counts as a success.\<close>

lemma missing_key_empty_password:
  assumes "vault_get w (secret_url s path) (vs_token s) = Inr body" "vault_response body = Some (JObj kvs)"
    "map_of kvs (vs_key s) = None"
  shows "\<exists>c. read_secret w path s = Inr c \<and> password c = []"
  using assms by (simp add: read_secret_def str_field_def json_get_def)

text \<open>The documented form of \<^verbatim>\<open>VAULT_SECRET\<close> names the mount already, which the URL then has twice.\<close>

lemma documented_secret_url:
  "secret_url (vault_new (\<lambda>_. None)) ''secret/data/postgres/creds''
   = ''https://127.0.0.1:8200/v1/secret/secret/data/postgres/creds''"
  by (simp add: secret_url_def vault_new_def env_str_def)

end
