(* ===== verification/Health_Server.thy ===== *)
theory Health_Server
  imports Config Health_Probe
begin

text \<open>
  \<^verbatim>\<open>health-shim/src\<close>: the checker, the HTTP server with its five routes, the shim that starts it, and the exporter that
  pushes the status to a webhook.  A health command runs in a \<^typ>\<open>probe_world\<close>.
\<close>

section \<open>Checker\<close>

record health_checker =
  health_check :: command_health_check
  last_liveness :: health_status
  last_readiness :: health_status

definition checker_new :: "command_health_check \<Rightarrow> health_checker" where
  "checker_new c = \<lparr>health_check = c, last_liveness = Unknown, last_readiness = Unknown\<rparr>"

definition check_liveness :: "probe_world \<Rightarrow> health_checker \<Rightarrow> health_status \<times> health_checker" where
  "check_liveness w c = (let st = liveness w (health_check c) in (st, c\<lparr>last_liveness := st\<rparr>))"

definition check_readiness :: "probe_world \<Rightarrow> health_checker \<Rightarrow> health_status \<times> health_checker" where
  "check_readiness w c = (let st = readiness w (health_check c) in (st, c\<lparr>last_readiness := st\<rparr>))"

definition checker_metrics :: "health_checker \<Rightarrow> metric list" where
  "checker_metrics c =
    [(''health_liveness'', if last_liveness c = Healthy then 1 else 0),
     (''health_readiness'', if last_readiness c = Healthy then 1 else 0)]"

section \<open>Server\<close>

record capability_health =
  cap_name :: string
  healthy :: bool
  cap_message :: "string option"

type_synonym capabilities = "(string, capability_health) hmap"

record health_state =
  checker :: health_checker
  capabilities :: capabilities
  start_time :: time
  initialized :: bool
  liveness_failures :: nat
  readiness_failures :: nat

record health_server =
  hs_state :: health_state
  hs_listen :: string

definition server_with_initialization ::
  "health_checker \<Rightarrow> string \<Rightarrow> capabilities \<Rightarrow> bool \<Rightarrow> time \<Rightarrow> health_server" where
  "server_with_initialization c addr caps ini now =
    \<lparr>hs_state = \<lparr>checker = c, capabilities = caps, start_time = now, initialized = ini,
       liveness_failures = 0, readiness_failures = 0\<rparr>, hs_listen = addr\<rparr>"

definition server_new :: "health_checker \<Rightarrow> string \<Rightarrow> capabilities \<Rightarrow> time \<Rightarrow> health_server" where
  "server_new c addr caps now = server_with_initialization c addr caps True now"

definition all_healthy :: "capabilities \<Rightarrow> bool" where
  "all_healthy caps = list_all healthy (map snd caps)"

definition liveness_handler :: "probe_world \<Rightarrow> health_state \<Rightarrow> nat \<times> health_state" where
  "liveness_handler w s =
    (case check_liveness w (checker s) of (st, c) \<Rightarrow>
       (case st of
          Healthy \<Rightarrow> (200, s\<lparr>checker := c\<rparr>)
        | Unhealthy \<Rightarrow> (503, s\<lparr>checker := c, liveness_failures := liveness_failures s + 1\<rparr>)
        | Unknown \<Rightarrow> (200, s\<lparr>checker := c\<rparr>)))"

definition readiness_handler :: "probe_world \<Rightarrow> health_state \<Rightarrow> nat \<times> health_state" where
  "readiness_handler w s =
    (if \<not> initialized s then (503, s)
     else if \<not> all_healthy (capabilities s) then (503, s\<lparr>readiness_failures := readiness_failures s + 1\<rparr>)
     else (case check_readiness w (checker s) of (st, c) \<Rightarrow>
       (case st of
          Healthy \<Rightarrow> (200, s\<lparr>checker := c\<rparr>)
        | Unhealthy \<Rightarrow> (503, s\<lparr>checker := c, readiness_failures := readiness_failures s + 1\<rparr>)
        | Unknown \<Rightarrow> (200, s\<lparr>checker := c\<rparr>))))"

definition startup_handler :: "health_state \<Rightarrow> nat" where
  "startup_handler s = (if initialized s then 200 else 503)"

definition liveness_word :: "bool \<Rightarrow> bool \<Rightarrow> string" where
  "liveness_word ok ini = (if ok \<and> ini then ''healthy'' else if ini then ''degraded'' else ''starting'')"

definition readiness_word :: "bool \<Rightarrow> bool \<Rightarrow> string" where
  "readiness_word ok ini = (if ok \<and> ini then ''ready'' else ''not_ready'')"

definition startup_word :: "bool \<Rightarrow> string" where
  "startup_word ini = (if ini then ''complete'' else ''in_progress'')"

definition capability_json :: "capability_health \<Rightarrow> json" where
  "capability_json c =
    JObj [(''name'', JStr (cap_name c)), (''healthy'', JBool (healthy c)),
      (''message'', case cap_message c of Some m \<Rightarrow> JStr m | None \<Rightarrow> JNull)]"

definition health_handler :: "time \<Rightarrow> health_state \<Rightarrow> json" where
  "health_handler now s =
    (let ok = all_healthy (capabilities s); ini = initialized s in
     JObj [(''liveness'', JStr (liveness_word ok ini)), (''readiness'', JStr (readiness_word ok ini)),
       (''startup'', JStr (startup_word ini)),
       (''capabilities'', JArr (map (capability_json \<circ> snd) (capabilities s))),
       (''uptime_secs'', JNum ((now - start_time s) div second)), (''initialized'', JBool ini),
       (''liveness_failures'', JNum (int (liveness_failures s))),
       (''readiness_failures'', JNum (int (readiness_failures s)))])"

text \<open>The metrics as name and value; the labels are always empty.\<close>

definition metrics_handler :: "health_state \<Rightarrow> metric list" where
  "metrics_handler s = checker_metrics (checker s)"

datatype route = Livez probe_world | Readyz probe_world | Startupz | Healthz time | MetricsRoute

fun serve :: "route \<Rightarrow> health_state \<Rightarrow> nat \<times> health_state" where
  "serve (Livez w) s = liveness_handler w s"
| "serve (Readyz w) s = readiness_handler w s"
| "serve Startupz s = (startup_handler s, s)"
| "serve (Healthz now) s = (200, s)"
| "serve MetricsRoute s = (200, s)"

section \<open>The shim\<close>

record health_shim =
  sh_checker :: "health_checker option"
  sh_listen :: string
  sh_capabilities :: capabilities
  sh_initialized :: bool

definition health_shim_new :: health_shim where
  "health_shim_new = \<lparr>sh_checker = None, sh_listen = ''0.0.0.0:9101'', sh_capabilities = [], sh_initialized = False\<rparr>"

definition register_capability :: "string \<Rightarrow> health_shim \<Rightarrow> health_shim" where
  "register_capability n s =
    s\<lparr>sh_capabilities := hm_insert n \<lparr>cap_name = n, healthy = True, cap_message = Some ''registered''\<rparr> (sh_capabilities s)\<rparr>"

definition set_capability_health :: "string \<Rightarrow> bool \<Rightarrow> string option \<Rightarrow> health_shim \<Rightarrow> health_shim" where
  "set_capability_health n h m s =
    s\<lparr>sh_capabilities := hm_update n (\<lambda>c. c\<lparr>healthy := h, cap_message := m\<rparr>) (sh_capabilities s)\<rparr>"

record detailed_status =
  ds_liveness :: string
  ds_readiness :: string
  ds_startup :: string
  ds_capabilities :: "capability_health list"
  ds_uptime_secs :: nat
  ds_initialized :: bool

definition shim_detailed_status :: "nat \<Rightarrow> health_shim \<Rightarrow> detailed_status" where
  "shim_detailed_status uptime s =
    (let ok = all_healthy (sh_capabilities s); ini = sh_initialized s in
     \<lparr>ds_liveness = liveness_word ok ini, ds_readiness = readiness_word ok ini, ds_startup = startup_word ini,
      ds_capabilities = map snd (sh_capabilities s), ds_uptime_secs = uptime, ds_initialized = ini\<rparr>)"

definition health_init :: "validators \<Rightarrow> env \<Rightarrow> config \<Rightarrow> health_shim \<Rightarrow> string + health_shim" where
  "health_init v env cfg s =
    (let errs = filter (\<lambda>e. starts_with (err_field e) ''health.'') (validate v cfg) in
     if validation_enabled env \<and> errs \<noteq> []
     then Inl (''health config validation failed: '' @ join ''; '' (map config_error_display errs))
     else Inr (s\<lparr>sh_listen := listen (health cfg),
       sh_checker := Some (checker_new
         \<lparr>command_health_check.liveness_cmd = health_config.liveness_cmd (health cfg),
          readiness_cmd = health_config.readiness_cmd (health cfg), ck_timeout_secs = timeout_secs (health cfg)\<rparr>),
       sh_initialized := True\<rparr>))"

text \<open>The server that is spawned, if the checker has not been taken yet.\<close>

definition health_start :: "time \<Rightarrow> health_shim \<Rightarrow> health_server option \<times> health_shim" where
  "health_start now s =
    (case sh_checker s of
       Some c \<Rightarrow> (Some (server_new c (sh_listen s) (sh_capabilities s) now), s\<lparr>sh_checker := None\<rparr>)
     | None \<Rightarrow> (None, s))"

section \<open>Webhook exporter\<close>

record health_payload =
  pl_liveness :: string
  pl_readiness :: string
  pl_timestamp :: time
  pl_shim :: string

record health_exporter =
  webhook_url :: string
  ex_interval_secs :: nat

definition exporter_from_env :: "env \<Rightarrow> health_exporter option" where
  "exporter_from_env env =
    (case env ''HEALTH_WEBHOOK_URL'' of
       None \<Rightarrow> None
     | Some url \<Rightarrow>
         (if url = [] then None
          else Some \<lparr>webhook_url = url, ex_interval_secs = env_uint 64 env ''HEALTH_WEBHOOK_INTERVAL_SECS'' 30\<rparr>))"

definition build_payload :: "string \<Rightarrow> string \<Rightarrow> time \<Rightarrow> health_payload" where
  "build_payload l r now = \<lparr>pl_liveness = l, pl_readiness = r, pl_timestamp = now, pl_shim = ''health''\<rparr>"

definition status_debug :: "health_status \<Rightarrow> string" where
  "status_debug h = (case h of Healthy \<Rightarrow> ''Healthy'' | Unhealthy \<Rightarrow> ''Unhealthy'' | Unknown \<Rightarrow> ''Unknown'')"

text \<open>The request fails, or the answer has a status.\<close>

definition push :: "string + nat \<Rightarrow> string option" where
  "push r =
    (case r of
       Inl e \<Rightarrow> Some e
     | Inr st \<Rightarrow> (if 200 \<le> st \<and> st < 300 then None else Some (''Webhook returned status '' @ show_nat st)))"

text \<open>A tick of the background task: the payload it pushes; a failed push is logged and has no other effect.\<close>

definition export_tick :: "probe_world \<Rightarrow> probe_world \<Rightarrow> time \<Rightarrow> health_checker \<Rightarrow> health_payload \<times> health_checker" where
  "export_tick w w' now c =
    (let (l, c1) = check_liveness w c; (r, c2) = check_readiness w' c1
     in (build_payload (to_lowercase (status_debug l)) (to_lowercase (status_debug r)) now, c2))"

section \<open>Answers and counters\<close>

lemma serve_keeps:
  "health_check (checker (snd (serve r s))) = health_check (checker s)"
  "capabilities (snd (serve r s)) = capabilities s" "initialized (snd (serve r s)) = initialized s"
  "start_time (snd (serve r s)) = start_time s"
  by (cases r; auto simp: liveness_handler_def readiness_handler_def check_liveness_def check_readiness_def Let_def
      split: health_status.splits)+

fun serve_all :: "route list \<Rightarrow> health_state \<Rightarrow> nat list \<times> health_state" where
  "serve_all [] s = ([], s)"
| "serve_all (r # rs) s =
    (let (code, s1) = serve r s; (codes, s2) = serve_all rs s1 in (code # codes, s2))"

text \<open>The reference: what each route answers, as a function of the commands and the capabilities alone.\<close>

definition answer :: "command_health_check \<Rightarrow> capabilities \<Rightarrow> bool \<Rightarrow> route \<Rightarrow> nat" where
  "answer chk caps ini r =
    (case r of
       Livez w \<Rightarrow> (if liveness w chk = Unhealthy then 503 else 200)
     | Readyz w \<Rightarrow> (if ini \<and> all_healthy caps \<and> readiness w chk \<noteq> Unhealthy then 200 else 503)
     | Startupz \<Rightarrow> (if ini then 200 else 503)
     | _ \<Rightarrow> 200)"

definition is_livez :: "route \<Rightarrow> bool" where
  "is_livez r = (case r of Livez _ \<Rightarrow> True | _ \<Rightarrow> False)"

definition is_readyz :: "route \<Rightarrow> bool" where
  "is_readyz r = (case r of Readyz _ \<Rightarrow> True | _ \<Rightarrow> False)"

lemma serve_answer: "fst (serve r s) = answer (health_check (checker s)) (capabilities s) (initialized s) r"
  by (cases r)
    (simp_all add: answer_def liveness_handler_def readiness_handler_def startup_handler_def check_liveness_def
      check_readiness_def Let_def split: health_status.splits)

lemma serve_counts:
  "liveness_failures (snd (serve r s)) = liveness_failures s + (if is_livez r \<and> fst (serve r s) = 503 then 1 else 0)"
  "initialized s \<Longrightarrow>
    readiness_failures (snd (serve r s)) = readiness_failures s + (if is_readyz r \<and> fst (serve r s) = 503 then 1 else 0)"
  by (cases r;
      simp add: is_livez_def is_readyz_def liveness_handler_def readiness_handler_def check_liveness_def
        check_readiness_def Let_def split: health_status.splits)+

definition failed_answers :: "(route \<Rightarrow> bool) \<Rightarrow> command_health_check \<Rightarrow> capabilities \<Rightarrow> route list \<Rightarrow> nat" where
  "failed_answers P chk caps rs = length (filter (\<lambda>r. P r \<and> answer chk caps True r = 503) rs)"

text \<open>C28: The server is a function of its commands and of the capabilities it was started with: every request gets the
  answer of the reference, in any order and however often the others were asked, and the two failure counters are the
  numbers of 503 answers given on the two routes.\<close>

theorem health_server_answers:
  assumes "hs_state (server_new c addr caps now) = s"
  shows "fst (serve_all rs s) = map (answer (health_check c) caps True) rs
    \<and> liveness_failures (snd (serve_all rs s)) = failed_answers is_livez (health_check c) caps rs
    \<and> readiness_failures (snd (serve_all rs s)) = failed_answers is_readyz (health_check c) caps rs"
proof -
  have "fst (serve_all rs s) = map (answer (health_check (checker s)) (capabilities s) True) rs
    \<and> liveness_failures (snd (serve_all rs s)) =
        liveness_failures s + failed_answers is_livez (health_check (checker s)) (capabilities s) rs
    \<and> readiness_failures (snd (serve_all rs s)) =
        readiness_failures s + failed_answers is_readyz (health_check (checker s)) (capabilities s) rs"
    if "initialized s" for s
    using that
  proof (induction rs arbitrary: s)
    case (Cons r rs)
    show ?case
      using Cons.IH [of "snd (serve r s)"] Cons.prems serve_counts(1) [of r s] serve_counts(2) [of s r] serve_answer [of r s]
      by (auto simp: serve_keeps failed_answers_def case_prod_unfold Let_def)
  qed (simp add: failed_answers_def)
  then show ?thesis
    using assms by (auto simp: server_new_def server_with_initialization_def)
qed

theorem health_server_answers_witness:
  "\<forall>w. fst (serve_all [Readyz w, Startupz, Readyz w]
     (hs_state (server_new (checker_new \<lparr>command_health_check.liveness_cmd = [], readiness_cmd = [], ck_timeout_secs = 1\<rparr>) []
       [(''db'', \<lparr>cap_name = ''db'', healthy = False, cap_message = None\<rparr>)] 0))) = [503, 200, 503]"
  using health_server_answers [OF refl, of "[Readyz _, Startupz, Readyz _]"
      "checker_new \<lparr>command_health_check.liveness_cmd = [], readiness_cmd = [], ck_timeout_secs = 1\<rparr>" "[]"
      "[(''db'', \<lparr>cap_name = ''db'', healthy = False, cap_message = None\<rparr>)]" 0]
  by (simp add: answer_def all_healthy_def)

section \<open>What the server does not see\<close>

text \<open>The server gets a copy of the capabilities when it starts.  Whatever is reported to the shim afterwards is
  never seen by a client: every later answer is the one it would have been without the reports.\<close>

theorem later_reports_unseen:
  assumes "health_start now s = (Some srv, s')"
  shows "fst (serve_all rs (hs_state srv)) = map (answer (health_check (the (sh_checker s))) (sh_capabilities s) True) rs
    \<and> fst (health_start now' (fold (\<lambda>(n, h, m). set_capability_health n h m) reports s')) = None"
proof -
  obtain c where c: "sh_checker s = Some c" "srv = server_new c (sh_listen s) (sh_capabilities s) now" "s' = s\<lparr>sh_checker := None\<rparr>"
    using assms by (auto simp: health_start_def split: option.splits)
  have "sh_checker (fold (\<lambda>(n, h, m). set_capability_health n h m) reports t) = sh_checker t" for t
    by (induction reports arbitrary: t) (auto simp: set_capability_health_def)
  then have "fst (health_start now' (fold (\<lambda>(n, h, m). set_capability_health n h m) reports s')) = None"
    using c(3) by (simp add: health_start_def)
  then show ?thesis
    using health_server_answers [OF refl, of rs c "sh_listen s" "sh_capabilities s" now] c(1,2) by simp
qed

theorem later_reports_unseen_witness:
  "\<exists>srv s'. health_start 0 (register_capability ''db'' (health_shim_new\<lparr>sh_checker :=
        Some (checker_new \<lparr>command_health_check.liveness_cmd = [], readiness_cmd = [], ck_timeout_secs = 1\<rparr>)\<rparr>)) = (Some srv, s')
    \<and> \<not> all_healthy (sh_capabilities (set_capability_health ''db'' False None s'))
    \<and> (\<forall>w. fst (serve_all [Readyz w] (hs_state srv)) = [200])"
proof -
  let ?s = "register_capability ''db'' (health_shim_new\<lparr>sh_checker :=
        Some (checker_new \<lparr>command_health_check.liveness_cmd = [], readiness_cmd = [], ck_timeout_secs = 1\<rparr>)\<rparr>)"
  obtain srv s' where st: "health_start 0 ?s = (Some srv, s')"
    by (simp add: health_start_def register_capability_def health_shim_new_def)
  have "s' = ?s\<lparr>sh_checker := None\<rparr>"
    using st by (auto simp: health_start_def register_capability_def health_shim_new_def)
  moreover have "readiness w \<lparr>command_health_check.liveness_cmd = [], readiness_cmd = [], ck_timeout_secs = 1\<rparr> = Unknown" for w
    by (simp add: readiness_def unknown_command)
  ultimately show ?thesis
    using st later_reports_unseen [OF st, of "[Readyz _]" 0 "[]"]
    by (simp add: answer_def all_healthy_def register_capability_def set_capability_health_def health_shim_new_def
        hm_insert_def hm_remove_def hm_update_def checker_new_def)
qed

text \<open>The two views of the liveness are unrelated: the route for probes says 503 while the detailed status says healthy.\<close>

lemma two_views_of_liveness:
  assumes "liveness w chk = Unhealthy"
  shows "fst (liveness_handler w (hs_state (server_new (checker_new chk) addr [] now))) = 503
    \<and> (\<exists>rest. health_handler now' (hs_state (server_new (checker_new chk) addr [] now)) = JObj ((''liveness'', JStr ''healthy'') # rest))"
  using assms
  by (simp add: liveness_handler_def check_liveness_def server_new_def server_with_initialization_def checker_new_def
      health_handler_def liveness_word_def all_healthy_def Let_def)

text \<open>A command that is not recognised counts as alive and ready.\<close>

lemma unrecognised_command_passes:
  assumes "\<And>w. execute_health_cmd w (command_health_check.liveness_cmd chk) (ck_timeout_secs chk) = (0, Unknown)"
  shows "fst (liveness_handler w (hs_state (server_new (checker_new chk) addr caps now))) = 200"
  using assms
  by (simp add: liveness_handler_def check_liveness_def server_new_def server_with_initialization_def checker_new_def
      liveness_def Let_def)

text \<open>The payload pushes three words, of which the documentation knows two.\<close>

lemma status_debug_lower: "to_lowercase (status_debug h) = status_display h"
proof -
  have "to_lowercase ''Healthy'' = ''healthy''" "to_lowercase ''Unhealthy'' = ''unhealthy''" "to_lowercase ''Unknown'' = ''unknown''"
    by code_simp+
  then show ?thesis
    by (simp add: status_debug_def status_display_def split: health_status.splits)
qed

lemma payload_words:
  "pl_liveness (fst (export_tick w w' now c)) = status_display (liveness w (health_check c))
   \<and> pl_readiness (fst (export_tick w w' now c)) = status_display (readiness w' (health_check c))"
  by (simp add: export_tick_def check_liveness_def check_readiness_def build_payload_def status_debug_lower Let_def)

text \<open>The detailed status of the shim says ready exactly when it is initialised and every capability is healthy.\<close>

lemma detailed_ready_iff:
  "ds_readiness (shim_detailed_status u s) = ''ready'' \<longleftrightarrow>
    sh_initialized s \<and> (\<forall>c \<in> snd ` set (sh_capabilities s). healthy c)"
  by (auto simp: shim_detailed_status_def readiness_word_def all_healthy_def list_all_iff Let_def)

end
