(* ===== verification/Operator.thy ===== *)
theory Operator
  imports Config
begin

text \<open>
  \<^verbatim>\<open>shim-operator/src\<close>: the controller of the \<^verbatim>\<open>ShimConfig\<close> resources.  A reconciliation is the sequence of requests it sends
  to the API server and its result, as a function of what the server answers; an error of the server is the text it
  is displayed with.  Of a deployment the code touches the list of containers; the rest is kept as it is.
\<close>

section \<open>Resources\<close>

record resource_spec =
  rs_cpu :: "string option"
  rs_memory :: "string option"

record resource_requirements =
  rr_requests :: "resource_spec option"
  rr_limits :: "resource_spec option"

record shim_options =
  log_level :: string
  json_logging :: bool
  metrics_port :: nat
  health_port :: nat
  otel_endpoint :: "string option"

definition shim_options_default :: shim_options where
  "shim_options_default = \<lparr>log_level = ''info'', json_logging = False, metrics_port = 9090, health_port = 9091, otel_endpoint = None\<rparr>"

record shim_spec =
  child_command :: string
  child_args :: "string list"
  features :: "string list"
  sp_resources :: "resource_requirements option"
  shim_config :: "shim_options option"

record shim_condition =
  condition_type :: string
  cond_status :: string
  last_transition_time :: time
  reason :: string
  cond_message :: string

definition condition_new :: "string \<Rightarrow> string \<Rightarrow> string \<Rightarrow> string \<Rightarrow> time \<Rightarrow> shim_condition" where
  "condition_new ty st r m now =
    \<lparr>condition_type = ty, cond_status = st, last_transition_time = now, reason = r, cond_message = m\<rparr>"

record shim_status =
  conditions :: "shim_condition list"
  ready_replicas :: "nat option"
  observed_generation :: "int option"

text \<open>The custom resource, with the metadata that the code reads.\<close>

record shim_resource =
  sr_name :: "string option"
  sr_namespace :: "string option"
  sr_generation :: "int option"
  sr_spec :: shim_spec

section \<open>Errors\<close>

datatype operator_error =
    Kubernetes string
  | Validation string
  | Reconcile string
  | Serialization string
  | ConfigMapGen string
  | DeploymentUpdate string
  | Io string

datatype error_class = Transient | Permanent

definition transient_patterns :: "string list" where
  "transient_patterns = [''connection'', ''timeout'', ''reset'', ''broken pipe'', ''request send'', ''response'', ''recv'']"

definition is_transient_kube_error :: "string \<Rightarrow> bool" where
  "is_transient_kube_error msg = (let lower = to_lowercase msg in list_ex (contains lower) transient_patterns)"

definition classify :: "operator_error \<Rightarrow> error_class" where
  "classify e =
    (case e of
       Kubernetes msg \<Rightarrow> (if is_transient_kube_error msg then Transient else Permanent)
     | Validation _ \<Rightarrow> Permanent
     | Reconcile _ \<Rightarrow> Transient
     | Serialization _ \<Rightarrow> Permanent
     | ConfigMapGen _ \<Rightarrow> Permanent
     | DeploymentUpdate _ \<Rightarrow> Transient
     | Io _ \<Rightarrow> Transient)"

datatype action = Requeue nat | AwaitChange


section \<open>ConfigMap\<close>

definition CONFIGMAP_PREFIX :: string where "CONFIGMAP_PREFIX = ''shim-config''"

definition show_bool :: "bool \<Rightarrow> string" where
  "show_bool b = (if b then ''true'' else ''false'')"

definition options_of :: "shim_spec \<Rightarrow> shim_options" where
  "options_of spec = (case shim_config spec of Some o' \<Rightarrow> o' | None \<Rightarrow> shim_options_default)"

definition generate_configmap_data :: "shim_spec \<Rightarrow> (string, string) hmap" where
  "generate_configmap_data spec =
    (let opts = options_of spec in
     [(''SHIM_CHILD_COMMAND'', child_command spec),
      (''SHIM_CHILD_ARGS'', join '','' (child_args spec)),
      (''SHIM_FEATURES'', join '','' (features spec)),
      (''SHIM_LOG_LEVEL'', log_level opts),
      (''SHIM_JSON_LOGGING'', show_bool (json_logging opts)),
      (''SHIM_METRICS_PORT'', show_nat (metrics_port opts)),
      (''SHIM_HEALTH_PORT'', show_nat (health_port opts))] @
     (case otel_endpoint opts of Some e \<Rightarrow> [(''SHIM_OTEL_ENDPOINT'', e)] | None \<Rightarrow> []))"

record configmap =
  cm_name :: string
  cm_namespace :: string
  cm_labels :: "(string \<times> string) list"
  cm_data :: "(string, string) hmap"

definition configmap_name :: "string \<Rightarrow> string" where
  "configmap_name n = CONFIGMAP_PREFIX @ ''-'' @ n"

definition generate_configmap :: "string \<Rightarrow> string \<Rightarrow> shim_spec \<Rightarrow> operator_error + configmap" where
  "generate_configmap n ns spec =
    Inr \<lparr>cm_name = configmap_name n, cm_namespace = ns,
      cm_labels = [(''app.kubernetes.io/managed-by'', ''shim-operator''), (''evergreen.dev/shim-config'', n)],
      cm_data = generate_configmap_data spec\<rparr>"

section \<open>Sidecar\<close>

definition parse_quantity :: "string \<Rightarrow> string option" where
  "parse_quantity s = (if s = [] then None else Some s)"

definition quantities :: "resource_spec \<Rightarrow> (string \<times> string) list" where
  "quantities r =
    (case Option.bind (rs_cpu r) parse_quantity of Some q \<Rightarrow> [(''cpu'', q)] | None \<Rightarrow> []) @
    (case Option.bind (rs_memory r) parse_quantity of Some q \<Rightarrow> [(''memory'', q)] | None \<Rightarrow> [])"

record container =
  c_name :: string
  c_image :: string
  c_env :: "(string \<times> string) list"
  c_resources :: "((string \<times> string) list option \<times> (string \<times> string) list option) option"
  c_ports :: "(string \<times> nat) list"

definition sidecar_env :: "shim_spec \<Rightarrow> (string \<times> string) list" where
  "sidecar_env spec =
    [(''SHIM_CHILD_COMMAND'', child_command spec)] @
    (if child_args spec \<noteq> [] then [(''SHIM_CHILD_ARGS'', join '','' (child_args spec))] else []) @
    (if features spec \<noteq> [] then [(''SHIM_FEATURES'', join '','' (features spec))] else [])"

definition build_sidecar_container :: "shim_spec \<Rightarrow> container" where
  "build_sidecar_container spec =
    \<lparr>c_name = ''evergreen-shim'', c_image = ''ghcr.io/wyattau/evergreen-shim:latest'',
     c_env = sidecar_env spec,
     c_resources = map_option (\<lambda>r. (map_option quantities (rr_requests r), map_option quantities (rr_limits r))) (sp_resources spec),
     c_ports =
       [(''metrics'', case shim_config spec of Some o' \<Rightarrow> metrics_port o' | None \<Rightarrow> 9090),
        (''health'', case shim_config spec of Some o' \<Rightarrow> health_port o' | None \<Rightarrow> 9091)]\<rparr>"

text \<open>The containers are absent when the deployment has no specification or its template has none.\<close>

record deployment =
  containers :: "container list option"
  d_rest :: json

definition inject_sidecar :: "shim_spec \<Rightarrow> deployment \<Rightarrow> deployment" where
  "inject_sidecar spec d =
    d\<lparr>containers := map_option (\<lambda>cs.
        if list_ex (\<lambda>c. c_name c = ''evergreen-shim'') cs then cs else cs @ [build_sidecar_container spec]) (containers d)\<rparr>"

section \<open>Reconciliation\<close>

datatype request =
    PublishEvent string string
  | ApplyConfigMap configmap
  | GetDeployment string
  | ApplyDeployment string deployment
  | PatchStatus string shim_status
  | DeleteConfigMap string
  | RemoveFinalizers string

text \<open>What the API server answers to the requests of one reconciliation; events are sent without looking at the answer.\<close>

record api =
  on_apply_cm :: "string option"
  on_get_deployment :: "string + deployment option"
  on_apply_deployment :: "string option"
  on_patch_status :: "string option"
  on_delete_cm :: "string option"
  on_remove_finalizers :: "string option"
  api_now :: time

definition reconciled_status :: "int \<Rightarrow> time \<Rightarrow> shim_status" where
  "reconciled_status g now =
    \<lparr>conditions =
       [condition_new ''Ready'' ''True'' ''Reconciled'' ''ShimConfig reconciled successfully'' now,
        condition_new ''Reconciling'' ''False'' ''Reconciled'' ''Reconciliation complete'' now],
     ready_replicas = Some 1, observed_generation = Some g\<rparr>"

definition or_empty :: "string option \<Rightarrow> string" where
  "or_empty x = (case x of Some s \<Rightarrow> s | None \<Rightarrow> [])"

definition deployment_name :: "string \<Rightarrow> string" where
  "deployment_name n = n @ ''-deployment''"

text \<open>The step that updates the deployment: an error or an absent deployment is passed over in silence.\<close>

definition deployment_step :: "api \<Rightarrow> string \<Rightarrow> shim_spec \<Rightarrow> request list \<times> operator_error option" where
  "deployment_step a n spec =
    (case on_get_deployment a of
       Inr (Some d) \<Rightarrow>
         ([GetDeployment (deployment_name n), ApplyDeployment (deployment_name n) (inject_sidecar spec d)],
          map_option Kubernetes (on_apply_deployment a))
     | _ \<Rightarrow> ([GetDeployment (deployment_name n)], None))"

definition reconcile_shim_config :: "api \<Rightarrow> shim_resource \<Rightarrow> request list \<times> (operator_error + action)" where
  "reconcile_shim_config a sc =
    (let ns = or_empty (sr_namespace sc);
         n = or_empty (sr_name sc);
         g = (case sr_generation sc of Some x \<Rightarrow> x | None \<Rightarrow> 0);
         spec = sr_spec sc;
         begun = [PublishEvent ''Reconciling'' (''Reconciling ShimConfig '' @ n)]
     in case generate_configmap n ns spec of
          Inl e \<Rightarrow> (begun, Inl e)
        | Inr cm \<Rightarrow>
            (let applied = begun @ [ApplyConfigMap cm] in
             case on_apply_cm a of
               Some e \<Rightarrow> (applied, Inl (Kubernetes e))
             | None \<Rightarrow>
                 (case deployment_step a n spec of (reqs, err) \<Rightarrow>
                    (case err of
                       Some e \<Rightarrow> (applied @ reqs, Inl e)
                     | None \<Rightarrow>
                         (let patched = applied @ reqs @ [PatchStatus n (reconciled_status g (api_now a))] in
                          case on_patch_status a of
                            Some e \<Rightarrow> (patched, Inl (Kubernetes e))
                          | None \<Rightarrow>
                              (patched @ [PublishEvent ''Reconciled'' (''ShimConfig '' @ n @ '' reconciled successfully'')],
                               Inr (Requeue 300)))))))"

definition cleanup_shim_config :: "api \<Rightarrow> shim_resource \<Rightarrow> request list \<times> (operator_error + action)" where
  "cleanup_shim_config a sc =
    (let n = or_empty (sr_name sc);
         reqs = [DeleteConfigMap (configmap_name n), RemoveFinalizers n]
     in (reqs, case on_remove_finalizers a of Some e \<Rightarrow> Inl (Kubernetes e) | None \<Rightarrow> Inr AwaitChange))"


section \<open>Outcome of a reconciliation\<close>





section \<open>Convergence\<close>

lemma inject_idempotent: "inject_sidecar spec' (inject_sidecar spec d) = inject_sidecar spec d"
  by (cases "containers d") (auto simp: inject_sidecar_def build_sidecar_container_def)

definition sidecars :: "deployment \<Rightarrow> nat" where
  "sidecars d = (case containers d of Some cs \<Rightarrow> length (filter (\<lambda>c. c_name c = ''evergreen-shim'') cs) | None \<Rightarrow> 0)"

lemma sidecars_inject:
  "sidecars (inject_sidecar spec d) = (if containers d = None then 0 else max 1 (sidecars d))"
proof (cases "containers d")
  case (Some cs)
  show ?thesis
  proof (cases "list_ex (\<lambda>c. c_name c = ''evergreen-shim'') cs")
    case True
    then obtain c where "c \<in> set cs" "c_name c = ''evergreen-shim''"
      by (auto simp: list_ex_iff)
    then have "filter (\<lambda>c. c_name c = ''evergreen-shim'') cs \<noteq> []"
      by (auto simp: filter_empty_conv)
    then have "1 \<le> length (filter (\<lambda>c. c_name c = ''evergreen-shim'') cs)"
      by (simp add: Suc_le_eq)
    then show ?thesis
      using Some True by (simp add: sidecars_def inject_sidecar_def)
  next
    case False
    then have "filter (\<lambda>c. c_name c = ''evergreen-shim'') cs = []"
      by (auto simp: list_ex_iff filter_empty_conv)
    then show ?thesis
      using Some False by (simp add: sidecars_def inject_sidecar_def build_sidecar_container_def)
  qed
qed (simp add: sidecars_def inject_sidecar_def)

text \<open>Reconciling converges.  When the server gives back the deployment that was applied, a second reconciliation sends
  the same requests as the first: the deployment has one sidecar, and no further one is added.\<close>

theorem reconcile_converges:
  assumes "on_get_deployment a = Inr (Some d)" "sidecars d \<le> 1"
  shows "fst (reconcile_shim_config (a\<lparr>on_get_deployment := Inr (Some (inject_sidecar (sr_spec sc) d))\<rparr>) sc) =
      fst (reconcile_shim_config a sc)
    \<and> sidecars (inject_sidecar (sr_spec sc) d) \<le> 1"
proof -
  have step: "deployment_step (a\<lparr>on_get_deployment := Inr (Some (inject_sidecar (sr_spec sc) d))\<rparr>) n (sr_spec sc)
      = deployment_step a n (sr_spec sc)" for n
    using assms by (simp add: deployment_step_def inject_idempotent)
  have rest: "on_apply_cm (a\<lparr>on_get_deployment := x\<rparr>) = on_apply_cm a"
    "on_patch_status (a\<lparr>on_get_deployment := x\<rparr>) = on_patch_status a" "api_now (a\<lparr>on_get_deployment := x\<rparr>) = api_now a" for x
    by simp_all
  have "reconcile_shim_config (a\<lparr>on_get_deployment := Inr (Some (inject_sidecar (sr_spec sc) d))\<rparr>) sc =
      reconcile_shim_config a sc"
    unfolding reconcile_shim_config_def Let_def step rest by (rule refl)
  then show ?thesis
    using assms(2) by (simp add: sidecars_inject)
qed

definition sample_spec :: shim_spec where
  "sample_spec = \<lparr>child_command = ''postgres'', child_args = [''-D'', ''/data''], features = [''health''],
     sp_resources = None, shim_config = None\<rparr>"

definition sample_api :: "deployment \<Rightarrow> api" where
  "sample_api d = \<lparr>on_apply_cm = None, on_get_deployment = Inr (Some d), on_apply_deployment = None, on_patch_status = None,
     on_delete_cm = None, on_remove_finalizers = None, api_now = 0\<rparr>"

theorem reconcile_converges_witness:
  "sidecars (inject_sidecar sample_spec \<lparr>containers = Some [], d_rest = JNull\<rparr>) \<le> 1
   \<and> sidecars (inject_sidecar sample_spec \<lparr>containers = Some [], d_rest = JNull\<rparr>) = 1"
  using reconcile_converges [of "sample_api \<lparr>containers = Some [], d_rest = JNull\<rparr>" "\<lparr>containers = Some [], d_rest = JNull\<rparr>"
      "\<lparr>sr_name = Some ''pg'', sr_namespace = Some ''default'', sr_generation = Some 1, sr_spec = sample_spec\<rparr>"]
  by (simp add: sample_api_def sidecars_inject) (simp add: sidecars_def)

text \<open>The other side of it: once a deployment has a sidecar, a change of the specification never reaches it.\<close>

lemma later_spec_ignored:
  assumes "containers d = Some cs" "list_ex (\<lambda>c. c_name c = ''evergreen-shim'') cs"
  shows "inject_sidecar spec d = d"
  using assms by (simp add: inject_sidecar_def)

section \<open>The settings that reach the shim\<close>

text \<open>The environment of the sidecar: that of the image, overridden by the container's variables.\<close>

definition container_env :: "env \<Rightarrow> container \<Rightarrow> env" where
  "container_env base c = (\<lambda>k. case map_of (c_env c) k of Some v \<Rightarrow> Some v | None \<Rightarrow> base k)"

lemma sidecar_env_other:
  assumes "k \<notin> {''SHIM_CHILD_COMMAND'', ''SHIM_CHILD_ARGS'', ''SHIM_FEATURES''}"
  shows "container_env base (build_sidecar_container spec) k = base k"
  using assms by (simp add: container_env_def build_sidecar_container_def sidecar_env_def)

text \<open>None of the settings of a \<^verbatim>\<open>ShimConfig\<close> reaches the shim in the sidecar.  The variables that the operator sets are
  not among those that the configuration is read from, so that the configuration of the sidecar is the one of the bare
  image, whatever command, arguments, features or options the resource names.\<close>

theorem sidecar_settings_unread:
  "from_env v (container_env base (build_sidecar_container spec)) = from_env v base"
  by (simp add: from_env_def env_tenant_def env_str_def env_uint_def env_f64_def sidecar_env_other
      split: option.split)

text \<open>Arguments are joined with commas, so that one with a comma cannot be told from two.\<close>

lemma args_not_injective:
  "generate_configmap_data (spec\<lparr>child_args := [''a,b'']\<rparr>) = generate_configmap_data (spec\<lparr>child_args := [''a'', ''b'']\<rparr>)"
  by (simp add: generate_configmap_data_def options_of_def)

text \<open>The text of an API error that shows its response is transient, whatever its status code.\<close>

lemma contains_append: "contains s p \<Longrightarrow> contains (r @ s) p"
proof (induction r)
  case (Cons c r)
  then show ?case by simp
qed simp

lemma contains_prefix: "contains (p @ s) p"
  by (cases p; cases s) (simp_all add: starts_with_iff)

lemma response_errors_transient:
  "classify (Kubernetes (pre @ ''ErrorResponse'' @ post)) = Transient"
proof -
  have "to_lowercase (pre @ ''ErrorResponse'' @ post) = (to_lowercase pre @ ''error'') @ ''response'' @ to_lowercase post"
  proof -
    have "to_lowercase ''ErrorResponse'' = ''error'' @ ''response''"
      by code_simp
    then show ?thesis
      by (simp add: to_lowercase_def)
  qed
  then have "contains (to_lowercase (pre @ ''ErrorResponse'' @ post)) ''response''"
    using contains_append [OF contains_prefix, of "to_lowercase pre @ ''error''" "''response''" "to_lowercase post"] by simp
  then show ?thesis
    by (simp add: classify_def is_transient_kube_error_def transient_patterns_def Let_def)
qed

text \<open>The configuration map names the options of the resource, or the defaults.\<close>

lemma configmap_ports:
  "map_of (generate_configmap_data spec) ''SHIM_METRICS_PORT'' = Some (show_nat (metrics_port (options_of spec)))
   \<and> map_of (generate_configmap_data spec) ''SHIM_HEALTH_PORT'' = Some (show_nat (health_port (options_of spec)))
   \<and> map_of (c_ports (build_sidecar_container spec)) ''metrics'' = Some (metrics_port (options_of spec))
   \<and> map_of (c_ports (build_sidecar_container spec)) ''health'' = Some (health_port (options_of spec))"
  by (simp add: generate_configmap_data_def build_sidecar_container_def options_of_def shim_options_default_def Let_def
      split: option.splits)

end
