(* ===== verification/Wasm.thy ===== *)
theory Wasm
  imports Config
begin

text \<open>
  \<^verbatim>\<open>shim-core/src/wasm.rs\<close>: the WASM shim, and the runtime that loads modules and gives them three host functions.  The
  linear memory of a module is a list of bytes whose length is a multiple of the page size, the addresses it passes
  are 32-bit words, and the host computes with 64-bit words that wrap around.  What wasmtime does -- compiling,
  instantiating, running \<^verbatim>\<open>_start\<close> -- is a parameter.
\<close>

section \<open>The shim\<close>

record wasm_shim =
  ws_name :: string
  ws_config :: "config option"
  ws_counters :: "(string, nat) hmap"

definition wasm_shim_new :: "string \<Rightarrow> wasm_shim" where
  "wasm_shim_new n = \<lparr>ws_name = n, ws_config = None, ws_counters = []\<rparr>"

definition increment_counter :: "string \<Rightarrow> wasm_shim \<Rightarrow> wasm_shim" where
  "increment_counter k s = s\<lparr>ws_counters := hm_bump k (ws_counters s)\<rparr>"

definition wasm_counter :: "string \<Rightarrow> wasm_shim \<Rightarrow> nat" where
  "wasm_counter k s = (case map_of (ws_counters s) k of Some n \<Rightarrow> n | None \<Rightarrow> 0)"

text \<open>The results of the hook \<^verbatim>\<open>wasm_init\<close> and of \<^verbatim>\<open>init\<close> of the inner capability are arguments.\<close>

definition wasm_shim_init :: "string option \<Rightarrow> string option \<Rightarrow> config \<Rightarrow> wasm_shim \<Rightarrow> string option \<times> wasm_shim" where
  "wasm_shim_init hook inner cfg s =
    (let s1 = s\<lparr>ws_config := Some cfg\<rparr> in case hook of Some e \<Rightarrow> (Some e, s1) | None \<Rightarrow> (inner, s1))"

definition wasm_shim_metrics :: "metric list \<Rightarrow> nat \<Rightarrow> nat \<Rightarrow> wasm_shim \<Rightarrow> metric list" where
  "wasm_shim_metrics inner mem cpu s =
    inner @ [(''wasm_memory_bytes'', of_nat mem), (''wasm_cpu_time_us'', of_nat cpu)] @
    map (\<lambda>(k, v). (''wasm_counter_'' @ k, of_nat v)) (ws_counters s)"

section \<open>Decoding text\<close>

text \<open>\<^verbatim>\<open>String::from_utf8_lossy\<close>: an invalid sequence becomes one replacement character per maximal prefix of a
  character.  A leading byte gives the width and the range of the second byte.\<close>

definition utf8_lead :: "nat \<Rightarrow> (nat \<times> nat \<times> nat) option" where
  "utf8_lead b =
    (if 0xC2 \<le> b \<and> b \<le> 0xDF then Some (1, 0x80, 0xBF)
     else if b = 0xE0 then Some (2, 0xA0, 0xBF)
     else if b = 0xED then Some (2, 0x80, 0x9F)
     else if 0xE1 \<le> b \<and> b \<le> 0xEF then Some (2, 0x80, 0xBF)
     else if b = 0xF0 then Some (3, 0x90, 0xBF)
     else if 0xF1 \<le> b \<and> b \<le> 0xF3 then Some (3, 0x80, 0xBF)
     else if b = 0xF4 then Some (3, 0x80, 0x8F)
     else None)"

fun valid_conts :: "nat \<Rightarrow> nat \<Rightarrow> nat \<Rightarrow> nat list \<Rightarrow> nat" where
  "valid_conts (Suc k) lo hi (b # bs) = (if lo \<le> b \<and> b \<le> hi then Suc (valid_conts k 0x80 0xBF bs) else 0)"
| "valid_conts _ _ _ _ = 0"

definition replacement :: "nat list" where
  "replacement = [0xEF, 0xBF, 0xBD]"

function lossy :: "nat list \<Rightarrow> nat list" where
  "lossy [] = []"
| "lossy (b # bs) =
    (if b < 0x80 then b # lossy bs
     else (case utf8_lead b of
         None \<Rightarrow> replacement @ lossy bs
       | Some (k, lo, hi) \<Rightarrow>
           (let n = valid_conts k lo hi bs in
            (if n = k then b # take n bs else replacement) @ lossy (drop n bs))))"
  by pat_completeness auto
termination
  by (relation "measure length") auto

definition from_utf8_lossy :: "u8 list \<Rightarrow> string" where
  "from_utf8_lossy bs = map char_of (lossy (map unat bs))"

section \<open>Memory of a module\<close>

abbreviation page :: nat where
  "page \<equiv> 65536"

record wasm_config =
  max_memory_pages :: "nat option"
  fuel_limit :: "nat option"

definition wasm_config_default :: wasm_config where
  "wasm_config_default = \<lparr>max_memory_pages = Some 256, fuel_limit = Some 1000000\<rparr>"

definition memory_growing :: "nat option \<Rightarrow> nat \<Rightarrow> bool" where
  "memory_growing limit desired = (case limit of Some m \<Rightarrow> desired div page mod 2 ^ 32 \<le> m | None \<Rightarrow> True)"

record store_state =
  log_buffer :: "string list"
  st_metrics :: "(string, f64) hmap"
  st_config :: "(string, string) hmap"
  st_max_pages :: "nat option"
  mem :: "u8 list"
  declared_max :: "nat option"

text \<open>\<^verbatim>\<open>memory.grow\<close> asks the limiter, and stays within the maximum the module declares and the 32-bit address space.\<close>

definition grow :: "nat \<Rightarrow> store_state \<Rightarrow> store_state option" where
  "grow delta st =
    (let desired = length (mem st) + delta * page in
     if memory_growing (st_max_pages st) desired
        \<and> (case declared_max st of Some m \<Rightarrow> desired \<le> m * page | None \<Rightarrow> True) \<and> desired \<le> 2 ^ 32
     then Some (st\<lparr>mem := mem st @ replicate (delta * page) 0\<rparr>) else None)"

section \<open>Host functions\<close>

text \<open>\<^verbatim>\<open>ptr as usize\<close> extends the sign.  The slice \<^verbatim>\<open>data[start..end]\<close> panics when it starts after its end.\<close>

definition as_usize :: "32 word \<Rightarrow> u64" where
  "as_usize p = word_of_int (sint p)"

definition guest_slice :: "u8 list \<Rightarrow> 32 word \<Rightarrow> 32 word \<Rightarrow> u8 list option outcome" where
  "guest_slice d ptr len =
    (let s = as_usize ptr; e = s + as_usize len in
     if unat e \<le> length d then
       (if e < s then Panics else Returns (Some (take (unat e - unat s) (drop (unat s) d))))
     else Returns None)"

definition host_log :: "32 word \<Rightarrow> 32 word \<Rightarrow> store_state \<Rightarrow> store_state outcome" where
  "host_log ptr len st =
    (case guest_slice (mem st) ptr len of
       Panics \<Rightarrow> Panics
     | Returns None \<Rightarrow> Returns st
     | Returns (Some bs) \<Rightarrow> Returns (st\<lparr>log_buffer := log_buffer st @ [from_utf8_lossy bs]\<rparr>))"

definition log_level_str :: "32 word \<Rightarrow> string" where
  "log_level_str lv =
    (if lv = 0 then ''TRACE'' else if lv = 1 then ''DEBUG'' else if lv = 2 then ''INFO'' else if lv = 3 then ''WARN'' else ''ERROR'')"

definition host_metrics_set :: "32 word \<Rightarrow> 32 word \<Rightarrow> f64 \<Rightarrow> store_state \<Rightarrow> store_state outcome" where
  "host_metrics_set ptr len v st =
    (case guest_slice (mem st) ptr len of
       Panics \<Rightarrow> Panics
     | Returns None \<Rightarrow> Returns st
     | Returns (Some bs) \<Rightarrow> Returns (st\<lparr>st_metrics := hm_insert (from_utf8_lossy bs) v (st_metrics st)\<rparr>))"

definition le_bytes :: "nat \<Rightarrow> u8 list" where
  "le_bytes n = map (\<lambda>i. of_nat (n div 256 ^ i)) [0..<4]"

definition overwrite :: "nat \<Rightarrow> 'a list \<Rightarrow> 'a list \<Rightarrow> 'a list" where
  "overwrite p bs d = take p d @ bs @ drop (p + length bs) d"

text \<open>The value goes to the end of the memory, its length before it.\<close>

definition write_value :: "u8 list \<Rightarrow> store_state \<Rightarrow> (32 word \<times> store_state) outcome" where
  "write_value vb st =
    (if length (mem st) < length vb + 4 then Panics
     else (let p = length (mem st) - length vb - 4 in
       Returns (of_nat p, st\<lparr>mem := overwrite p (le_bytes (length vb mod 2 ^ 32) @ vb) (mem st)\<rparr>)))"

definition host_config_get :: "32 word \<Rightarrow> 32 word \<Rightarrow> store_state \<Rightarrow> (32 word \<times> store_state) outcome" where
  "host_config_get ptr len st =
    (case guest_slice (mem st) ptr len of
       Panics \<Rightarrow> Panics
     | Returns None \<Rightarrow> Returns (- 1, st)
     | Returns (Some bs) \<Rightarrow>
         (case map_of (st_config st) (from_utf8_lossy bs) of
            None \<Rightarrow> Returns (- 1, st)
          | Some v \<Rightarrow>
              (let vb = str_bytes v;
                   current_pages = length (mem st) mod 2 ^ 32 div page;
                   needed = (length (mem st) + length vb + 4) mod 2 ^ 32 div page + 1
               in if current_pages < needed then
                    (case grow (needed - current_pages) st of
                       None \<Rightarrow> Returns (- 1, st)
                     | Some st1 \<Rightarrow> write_value vb st1)
                  else write_value vb st)))"

section \<open>Loading and running\<close>

datatype wasm_error =
    EngineCreate string
  | Compile string string
  | Instantiate string
  | NoMemory
  | NoStart
  | Execution string
  | HostFunction string

record wasm_capability =
  wc_name :: string
  wc_store :: store_state
  wc_fuel :: nat
  wc_config :: wasm_config
  has_start :: bool
  poisoned :: bool

definition host_values :: "config \<Rightarrow> (string, string) hmap" where
  "host_values c =
    [(''version'', case version c of Some v \<Rightarrow> v | None \<Rightarrow> []),
     (''health.listen'', listen (health c)),
     (''health.interval_secs'', show_nat (interval_secs (health c))),
     (''health.timeout_secs'', show_nat (timeout_secs (health c))),
     (''process.command'', command (process c))]"

definition store_state_new :: "wasm_config \<Rightarrow> config \<Rightarrow> store_state" where
  "store_state_new wc c = \<lparr>log_buffer = [], st_metrics = [], st_config = host_values c,
     st_max_pages = max_memory_pages wc, mem = [], declared_max = None\<rparr>"

text \<open>A compiled module: the error of its instantiation, or the memory it exports, if it does, with its declared maximum,
  and whether it exports \<^verbatim>\<open>_start\<close>.\<close>

record wasm_module =
  link_error :: "string option"
  exported_memory :: "(u8 list \<times> nat option) option"
  exports_start :: bool

definition instantiate_module :: "wasm_module \<Rightarrow> wasm_config \<Rightarrow> config \<Rightarrow> string \<Rightarrow> wasm_error + wasm_capability" where
  "instantiate_module m wc c nm =
    (case link_error m of
       Some e \<Rightarrow> Inl (Instantiate e)
     | None \<Rightarrow>
         (case exported_memory m of
            None \<Rightarrow> Inl NoMemory
          | Some (d, mx) \<Rightarrow>
              Inr \<lparr>wc_name = nm, wc_store = (store_state_new wc c)\<lparr>mem := d, declared_max := mx\<rparr>,
                wc_fuel = (case fuel_limit wc of Some f \<Rightarrow> f | None \<Rightarrow> 0), wc_config = wc,
                has_start = exports_start m, poisoned = False\<rparr>))"

definition load_shim_bytes ::
  "(u8 list \<Rightarrow> string + wasm_module) \<Rightarrow> string \<Rightarrow> u8 list \<Rightarrow> wasm_config \<Rightarrow> config \<Rightarrow> wasm_error + wasm_capability" where
  "load_shim_bytes compile nm bs wc c =
    (case compile bs of Inl e \<Rightarrow> Inl (Compile nm e) | Inr m \<Rightarrow> instantiate_module m wc c nm)"

definition load_shim ::
  "(string \<Rightarrow> string + u8 list) \<Rightarrow> (u8 list \<Rightarrow> string + wasm_module) \<Rightarrow> string \<Rightarrow> wasm_config \<Rightarrow> config \<Rightarrow> wasm_error + wasm_capability" where
  "load_shim read compile path wc c =
    (case read path of Inl e \<Rightarrow> Inl (Compile path e) | Inr bs \<Rightarrow> load_shim_bytes compile path bs wc c)"

text \<open>How a call of \<^verbatim>\<open>_start\<close> ends, with the fuel that is left and the store; a panic of a host function unwinds through
  it.\<close>

datatype guest_end = Finished | Trapped string | HostPanic

record execution_result =
  fuel_used :: u64
  er_log :: "string list"
  er_metrics :: "(string, f64) hmap"

definition wasm_run ::
  "(nat \<Rightarrow> store_state \<Rightarrow> guest_end \<times> nat \<times> store_state) \<Rightarrow> wasm_capability \<Rightarrow> (wasm_error + execution_result) outcome \<times> wasm_capability" where
  "wasm_run exec c =
    (if poisoned c then (Returns (Inl (Execution ''poisoned lock: another task failed inside'')), c)
     else
       (let fuel0 = (case fuel_limit (wc_config c) of Some f \<Rightarrow> f | None \<Rightarrow> wc_fuel c);
            c1 = c\<lparr>wc_fuel := fuel0\<rparr>
        in if \<not> has_start c1 then (Returns (Inl NoStart), c1)
           else
             (case exec fuel0 (wc_store c1) of (r, left, st) \<Rightarrow>
               (let c2 = c1\<lparr>wc_fuel := left, wc_store := st\<rparr> in
                case r of
                  Finished \<Rightarrow>
                    (Returns (Inr \<lparr>fuel_used = of_nat (case fuel_limit (wc_config c) of Some f \<Rightarrow> f | None \<Rightarrow> 0) - of_nat left,
                       er_log = log_buffer st, er_metrics = st_metrics st\<rparr>), c2)
                | Trapped e \<Rightarrow> (Returns (Inl (Execution e)), c2)
                | HostPanic \<Rightarrow> (Panics, c2\<lparr>poisoned := True\<rparr>)))))"

definition fuel_consumed :: "wasm_capability \<Rightarrow> u64" where
  "fuel_consumed c =
    (if poisoned c then 0
     else of_nat (case fuel_limit (wc_config c) of Some f \<Rightarrow> f | None \<Rightarrow> 0) - of_nat (wc_fuel c))"

section \<open>Reading guest memory\<close>

lemma unat_of_int_word: "unat (word_of_int k :: u64) = nat (k mod 2 ^ 64)"
proof -
  have "uint (word_of_int k :: u64) = take_bit 64 k"
    by (subst uint_word_of_int_eq) simp
  then show ?thesis
    by (simp only: unat_eq_nat_uint take_bit_eq_mod)
qed

lemma as_usize_add: "as_usize p + as_usize n = word_of_int (sint p + sint n)"
  unfolding as_usize_def by (simp only: wi_hom_add)

lemma sint32_range: "- (2 ^ 31) \<le> sint (p :: 32 word)" "sint (p :: 32 word) < 2 ^ 31"
  using sint_greater_eq [of p] sint_less [of p] by simp_all

lemma mod_wrap:
  fixes k :: int
  assumes "- (2 ^ 63) \<le> k" "k < 2 ^ 63"
  shows "k mod 2 ^ 64 = (if 0 \<le> k then k else k + 2 ^ 64)"
proof (cases "0 \<le> k")
  case False
  then have "k mod 2 ^ 64 = (k + 2 ^ 64) mod 2 ^ 64"
    by simp
  also have "\<dots> = k + 2 ^ 64"
    using False assms by (intro mod_pos_pos_trivial) simp_all
  finally show ?thesis
    using False by simp
qed (use assms in simp)

lemma unat_as_usize: "unat (as_usize p) = nat (if 0 \<le> sint p then sint p else sint p + 2 ^ 64)"
  using mod_wrap [of "sint p"] sint32_range [of p] by (simp only: as_usize_def unat_of_int_word) simp

lemma unat_usize_add:
  "unat (as_usize p + as_usize n) = nat (if 0 \<le> sint p + sint n then sint p + sint n else sint p + sint n + 2 ^ 64)"
  using mod_wrap [of "sint p + sint n"] sint32_range [of p] sint32_range [of n]
  by (simp only: as_usize_add unat_of_int_word) simp

text \<open>C9: What the host functions read from the memory of a module, as arithmetic on integers: the text is read exactly
  when address and length are not negative and the text lies within the memory.  But a negative address or length
  whose sum falls into the memory is not rejected: the sum wraps around, passes the test for the end, and the slice
  panics inside the host.\<close>

theorem guest_slice_spec:
  assumes "length d \<le> 2 ^ 32"
  shows "guest_slice d ptr len =
    (let p = sint ptr; n = sint len in
     if 0 \<le> p + n \<and> p + n \<le> int (length d)
     then if 0 \<le> p \<and> 0 \<le> n then Returns (Some (take (nat n) (drop (nat p) d))) else Panics
     else Returns None)"
proof -
  note r = sint32_range [of ptr] sint32_range [of len]
  have less: "as_usize ptr + as_usize len < as_usize ptr \<longleftrightarrow> unat (as_usize ptr + as_usize len) < unat (as_usize ptr)"
    by (rule word_less_nat_alt)
  show ?thesis
  proof (cases "0 \<le> sint ptr + sint len")
    case False
    then have "\<not> unat (as_usize ptr + as_usize len) \<le> length d"
      using assms r by (simp add: unat_usize_add)
    then show ?thesis
      using False by (simp add: guest_slice_def Let_def)
  next
    case True
    then have e: "unat (as_usize ptr + as_usize len) = nat (sint ptr + sint len)"
      by (simp add: unat_usize_add)
    show ?thesis
    proof (cases "0 \<le> sint ptr \<and> 0 \<le> sint len")
      case nonneg: True
      then have s: "unat (as_usize ptr) = nat (sint ptr)"
        by (simp add: unat_as_usize)
      have "nat (sint ptr + sint len) - nat (sint ptr) = nat (sint len)"
        using nonneg by (simp add: nat_add_distrib)
      then show ?thesis
        using True nonneg less e s by (auto simp: guest_slice_def Let_def)
    next
      case neg: False
      then have "nat (sint ptr + sint len) < unat (as_usize ptr)"
        using True r by (auto simp: unat_as_usize)
      then show ?thesis
        using True neg less e by (auto simp: guest_slice_def Let_def)
    qed
  qed
qed

theorem guest_slice_spec_witness:
  "guest_slice [104, 105, 33] 1 2 = Returns (Some [105, 33]) \<and> guest_slice [104, 105, 33] (- 1) 1 = Panics
   \<and> guest_slice [104, 105, 33] 2 5 = Returns None"
  using guest_slice_spec [of "[104, 105, 33]" 1 2] guest_slice_spec [of "[104, 105, 33]" "- 1" 1]
    guest_slice_spec [of "[104, 105, 33]" 2 5]
  by simp

section \<open>Values of the configuration\<close>

definition from_le :: "u8 list \<Rightarrow> nat" where
  "from_le bs = foldr (\<lambda>b acc. unat b + 256 * acc) bs 0"

lemma unat_byte: "unat (of_nat x :: u8) = x mod 256"
  by (simp add: unat_of_nat)

lemma from_le_bytes:
  assumes "n < 2 ^ 32"
  shows "from_le (le_bytes n) = n"
proof -
  have split: "x = x mod 256 + 256 * (x div 256)" for x :: nat
    by simp
  have bytes: "le_bytes n = [of_nat n, of_nat (n div 256), of_nat (n div 256 div 256), of_nat (n div 256 div 256 div 256)]"
  proof -
    have "n div 65536 = n div 256 div 256" "n div 16777216 = n div 256 div 256 div 256"
      by (simp_all flip: div_mult2_eq)
    then show ?thesis
      by (simp add: le_bytes_def upt_rec flip: numeral_2_eq_2)
  qed
  have top: "n div 256 div 256 div 256 mod 256 = n div 256 div 256 div 256"
    using assms by (simp flip: div_mult2_eq)
  have "from_le (le_bytes n) = n mod 256 + 256 * (n div 256 mod 256 + 256 * (n div 256 div 256 mod 256 + 256 * (n div 256 div 256 div 256)))"
    unfolding bytes from_le_def by (simp only: foldr.simps o_apply id_apply unat_byte top mult_0_right add_0_right)
  then show ?thesis
    using split [of "n div 256 div 256"] split [of "n div 256"] split [of n] by simp
qed

lemma length_le_bytes [simp]: "length (le_bytes n) = 4"
  by (simp add: le_bytes_def)

lemma length_str_bytes [simp]: "length (str_bytes s) = length s"
  by (simp add: str_bytes_def)

text \<open>The number of pages after a value has been handed out.\<close>

definition pages_after :: "store_state \<Rightarrow> string \<Rightarrow> nat" where
  "pages_after st v = (length (mem st) + length v + 4) div page + 1"

lemma pages_after_room: "length (mem st) + length v + 4 < pages_after st v * page"
  unfolding pages_after_def using dividend_less_div_times [of page "length (mem st) + length v + 4"] by simp

definition handed_out :: "store_state \<Rightarrow> string \<Rightarrow> store_state" where
  "handed_out st v =
    st\<lparr>mem := mem st @ replicate (pages_after st v * page - length v - 4 - length (mem st)) 0 @ le_bytes (length v) @ str_bytes v\<rparr>"

lemma overwrite_end:
  "length bs \<le> n \<Longrightarrow> overwrite (length d + n - length bs) bs (d @ replicate n x) = d @ replicate (n - length bs) x @ bs"
  by (simp add: overwrite_def min_def)

lemma host_config_get_value:
  assumes slice: "guest_slice (mem st) kp kl = Returns (Some bs)"
    and val: "map_of (st_config st) (from_utf8_lossy bs) = Some v"
    and pages: "length (mem st) = n * page" and small: "length (mem st) + length v + 4 < 2 ^ 32"
  shows "host_config_get kp kl st =
    (if grow (pages_after st v - n) st = None then Returns (- 1, st)
     else Returns (of_nat (pages_after st v * page - length v - 4), handed_out st v))"
proof -
  have cur: "length (mem st) mod 2 ^ 32 div page = n"
    using pages small by simp
  have need: "(length (mem st) + length (str_bytes v) + 4) mod 2 ^ 32 div page + 1 = pages_after st v"
    using small by (simp add: pages_after_def)
  have more: "n < pages_after st v"
    using pages by (simp add: pages_after_def)
  have whole: "n * page + (pages_after st v - n) * page = pages_after st v * page"
    using more by (simp flip: add_mult_distrib)
  have room: "length (mem st) + length v + 4 \<le> pages_after st v * page"
    using pages_after_room [of st v] by simp
  have step: "host_config_get kp kl st =
      (case grow (pages_after st v - n) st of None \<Rightarrow> Returns (- 1, st) | Some st1 \<Rightarrow> write_value (str_bytes v) st1)"
    unfolding host_config_get_def slice outcome.case option.case val Let_def cur need using more by simp
  show ?thesis
  proof (cases "grow (pages_after st v - n) st")
    case None
    then show ?thesis
      by (simp add: step)
  next
    case (Some st1)
    let ?z = "(pages_after st v - n) * page"
    have st1: "st1 = st\<lparr>mem := mem st @ replicate ?z 0\<rparr>"
      using Some by (simp add: grow_def Let_def split: if_splits)
    have len: "length (mem st1) = pages_after st v * page"
      using st1 pages whole by simp
    have z: "length v + 4 \<le> ?z" "?z = pages_after st v * page - length (mem st)"
      using room pages whole by linarith+
    have small_v: "length v mod 2 ^ 32 = length v"
      using small by simp
    have "overwrite (length (mem st) + ?z - length (le_bytes (length v) @ str_bytes v)) (le_bytes (length v) @ str_bytes v)
        (mem st @ replicate ?z 0) = mem st @ replicate (?z - length (le_bytes (length v) @ str_bytes v)) 0 @ le_bytes (length v) @ str_bytes v"
      using z(1) by (intro overwrite_end) simp
    moreover have "length (mem st) + ?z - length (le_bytes (length v) @ str_bytes v) = pages_after st v * page - length v - 4"
      using z room by simp
    moreover have "?z - length (le_bytes (length v) @ str_bytes v) = pages_after st v * page - length v - 4 - length (mem st)"
      using z(2) by simp
    ultimately have "overwrite (pages_after st v * page - length v - 4) (le_bytes (length v mod 2 ^ 32) @ str_bytes v) (mem st1)
        = mem (handed_out st v)"
      using st1 small_v by (simp add: handed_out_def)
    moreover have "\<not> length (mem st1) < length v + 4"
      using len room by simp
    ultimately have "write_value (str_bytes v) st1 = Returns (of_nat (pages_after st v * page - length v - 4), handed_out st v)"
      using len st1 by (simp add: write_value_def Let_def handed_out_def)
    then show ?thesis
      using Some by (simp add: step)
  qed
qed

text \<open>What a module finds at a pointer: the value whose length comes first.\<close>

definition read_value :: "nat \<Rightarrow> u8 list \<Rightarrow> u8 list" where
  "read_value p d = take (from_le (take 4 (drop p d))) (drop (p + 4) d)"

text \<open>C18: A value of the configuration round trips through the memory of the module.  When the memory can grow, the pointer
  that is returned leads to the value, nothing the module had in its memory is changed, and the memory has grown by at
  least a page; when it cannot, the result is -1 and nothing happens.\<close>

theorem config_value_roundtrip:
  assumes slice: "guest_slice (mem st) kp kl = Returns (Some bs)"
    and val: "map_of (st_config st) (from_utf8_lossy bs) = Some v"
    and pages: "length (mem st) = n * page" and small: "length (mem st) + length v + 4 + page < 2 ^ 31"
  shows "if grow (pages_after st v - n) st = None then host_config_get kp kl st = Returns (- 1, st)
    else \<exists>r st'. host_config_get kp kl st = Returns (r, st')
      \<and> read_value (unat r) (mem st') = str_bytes v \<and> unat r < 2 ^ 31
      \<and> take (length (mem st)) (mem st') = mem st \<and> length (mem st') = pages_after st v * page \<and> n < pages_after st v"
proof (cases "grow (pages_after st v - n) st = None")
  case True
  then show ?thesis
    using host_config_get_value [OF slice val pages] small by simp
next
  case False
  let ?p = "pages_after st v * page - length v - 4"
  have get: "host_config_get kp kl st = Returns (of_nat ?p, handed_out st v)"
    using host_config_get_value [OF slice val pages] small False by simp
  have room: "length (mem st) + length v + 4 < pages_after st v * page"
    by (rule pages_after_room)
  have "pages_after st v * page \<le> length (mem st) + length v + 4 + page"
    unfolding pages_after_def using div_times_less_eq_dividend [of "length (mem st) + length v + 4" page] by simp
  then have "pages_after st v * page < 2 ^ 31"
    using small by linarith
  then have bound: "?p < 2 ^ 31"
    by linarith
  then have unat: "unat (of_nat ?p :: 32 word) = ?p"
    by (simp add: unat_of_nat)
  have dr: "drop ?p (mem (handed_out st v)) = le_bytes (length v) @ str_bytes v"
    using room by (simp add: handed_out_def)
  have "drop (?p + 4) (mem (handed_out st v)) = drop 4 (drop ?p (mem (handed_out st v)))"
    by (simp only: drop_drop add.commute)
  then have dr4: "drop (?p + 4) (mem (handed_out st v)) = str_bytes v"
    by (simp only: dr) simp
  have "read_value ?p (mem (handed_out st v)) = str_bytes v"
    using small by (simp only: read_value_def dr dr4) (simp add: from_le_bytes)
  moreover have "take (length (mem st)) (mem (handed_out st v)) = mem st"
    "length (mem (handed_out st v)) = pages_after st v * page"
    using room by (simp_all add: handed_out_def)
  moreover have "n < pages_after st v"
    using pages by (simp add: pages_after_def)
  ultimately have "host_config_get kp kl st = Returns (of_nat ?p, handed_out st v)
      \<and> read_value (unat (of_nat ?p :: 32 word)) (mem (handed_out st v)) = str_bytes v \<and> unat (of_nat ?p :: 32 word) < 2 ^ 31
      \<and> take (length (mem st)) (mem (handed_out st v)) = mem st \<and> length (mem (handed_out st v)) = pages_after st v * page
      \<and> n < pages_after st v"
    using get bound by (simp only: unat)
  then show ?thesis
    using False by auto
qed

definition sample_store :: store_state where
  "sample_store = \<lparr>log_buffer = [], st_metrics = [], st_config = [(''k'', ''on'')], st_max_pages = Some 256,
     mem = 107 # replicate 65535 0, declared_max = None\<rparr>"

lemma sample_slice: "guest_slice (mem sample_store) 0 1 = Returns (Some [107])"
proof -
  have "length (mem sample_store) = page"
    by (simp add: sample_store_def)
  then have "guest_slice (mem sample_store) 0 1 = Returns (Some (take 1 (drop 0 (mem sample_store))))"
    using guest_slice_spec [of "mem sample_store" 0 1] by simp
  then show ?thesis
    by (simp add: sample_store_def)
qed

lemma sample_key: "from_utf8_lossy [107] = ''k''"
  by (simp add: from_utf8_lossy_def) code_simp

theorem config_value_roundtrip_witness:
  "\<exists>r st'. host_config_get 0 1 sample_store = Returns (r, st') \<and> read_value (unat r) (mem st') = str_bytes ''on''
    \<and> length (mem st') = 2 * page"
proof -
  have pages: "pages_after sample_store ''on'' = 2"
    by (simp add: pages_after_def sample_store_def)
  have grown: "grow 1 sample_store \<noteq> None"
    by (simp add: grow_def sample_store_def memory_growing_def Let_def)
  have val: "map_of (st_config sample_store) (from_utf8_lossy [107]) = Some ''on''"
    by (simp add: sample_key) (simp add: sample_store_def)
  have len: "length (mem sample_store) = 1 * page"
    by (simp add: sample_store_def)
  have "length (mem sample_store) + length ''on'' + 4 + page < 2 ^ 31"
    by (simp only: len) simp
  then show ?thesis
    using config_value_roundtrip [OF sample_slice val len] grown by (auto simp: pages)
qed

section \<open>The memory runs out\<close>

text \<open>A sequence of calls of \<^verbatim>\<open>config_get\<close>: the number of those that return a value, and the final store.\<close>

fun config_calls :: "(32 word \<times> 32 word) list \<Rightarrow> store_state \<Rightarrow> nat \<times> store_state" where
  "config_calls [] st = (0, st)"
| "config_calls ((kp, kl) # cs) st =
    (case host_config_get kp kl st of
       Panics \<Rightarrow> (0, st)
     | Returns (r, st1) \<Rightarrow>
         (case config_calls cs st1 of (k, st2) \<Rightarrow> (if r = - 1 then k else k + 1, st2)))"

definition short_values :: "store_state \<Rightarrow> bool" where
  "short_values st = (\<forall>(k, v) \<in> set (st_config st). length v < 2 ^ 30)"

lemma config_get_step:
  assumes get: "host_config_get kp kl st = Returns (r, st')" and "short_values st"
    and pages: "length (mem st) = n * page" "n \<le> M" "st_max_pages st = Some M" "M < 2 ^ 14"
  shows "st' = st \<and> r = - 1 \<or>
    st_config st' = st_config st \<and> st_max_pages st' = Some M \<and> (\<exists>n'. length (mem st') = n' * page \<and> n < n' \<and> n' \<le> M)"
proof -
  consider "st' = st" "r = - 1" | bs v where "guest_slice (mem st) kp kl = Returns (Some bs)"
    "map_of (st_config st) (from_utf8_lossy bs) = Some v"
    using get by (auto simp: host_config_get_def split: outcome.splits option.splits)
  then show ?thesis
  proof cases
    case 2
    have "length v < 2 ^ 30"
      using 2(2) assms(2) by (auto simp: short_values_def dest: map_of_SomeD)
    moreover have "length (mem st) < 2 ^ 14 * page"
      using pages by simp
    ultimately have small: "length (mem st) + length v + 4 < 2 ^ 32"
      by simp
    note getv = host_config_get_value [OF 2 pages(1) small]
    show ?thesis
    proof (cases "grow (pages_after st v - n) st")
      case None
      then show ?thesis
        using getv get by simp
    next
      case (Some st1)
      have more: "n < pages_after st v"
        using pages(1) by (simp add: pages_after_def)
      have "length (mem st) + (pages_after st v - n) * page = pages_after st v * page"
        using more pages(1) by (simp flip: add_mult_distrib)
      then have "pages_after st v mod 2 ^ 32 \<le> M"
        using Some pages(3) by (auto simp: grow_def memory_growing_def Let_def split: if_splits)
      moreover have "pages_after st v < 2 ^ 32"
        using small by (simp add: pages_after_def)
      ultimately have "pages_after st v \<le> M"
        by simp
      moreover have "length (mem (handed_out st v)) = pages_after st v * page"
        using pages_after_room [of st v] by (simp add: handed_out_def)
      ultimately show ?thesis
        using getv get Some more pages(3) by (auto simp: handed_out_def)
    qed
  qed simp
qed

text \<open>The memory is used up by reading the configuration.  The test whether it has to grow always says yes, so that every
  value costs at least one page and is never given back: a module with \<^verbatim>\<open>n\<close> pages under a limit of \<^verbatim>\<open>M\<close> gets at most
  \<^verbatim>\<open>M - n\<close> values, and -1 for ever after.\<close>

theorem config_calls_exhaust:
  assumes "short_values st" "length (mem st) = n * page" "n \<le> M" "st_max_pages st = Some M" "M < 2 ^ 14"
  shows "fst (config_calls cs st) \<le> M - n"
  using assms
proof (induction cs arbitrary: st n)
  case (Cons c cs)
  obtain kp kl where c: "c = (kp, kl)"
    by (cases c)
  show ?case
  proof (cases "host_config_get kp kl st")
    case (Returns x)
    obtain r st1 where x: "x = (r, st1)"
      by (cases x)
    obtain k st2 where rest: "config_calls cs st1 = (k, st2)"
      by (cases "config_calls cs st1")
    have get: "host_config_get kp kl st = Returns (r, st1)"
      using Returns x by simp
    consider "st1 = st" "r = - 1" | n' where "st_config st1 = st_config st" "st_max_pages st1 = Some M"
      "length (mem st1) = n' * page" "n < n'" "n' \<le> M"
      using config_get_step [OF get Cons.prems] by blast
    then show ?thesis
    proof cases
      case 1
      then show ?thesis
        using Cons.IH [OF Cons.prems] c get rest by simp
    next
      case 2
      have "k \<le> M - n'"
        using Cons.IH [of st1 n'] Cons.prems 2 rest by (simp add: short_values_def)
      then have "k + 1 \<le> M - n"
        using 2 by arith
      then show ?thesis
        using c get rest by simp
    qed
  qed (simp add: c)
qed simp

theorem config_calls_exhaust_witness:
  "fst (config_calls (replicate 1000 (0, 1)) sample_store) \<le> 255"
  using config_calls_exhaust [of sample_store 1 256 "replicate 1000 (0, 1)"]
  by (simp add: sample_store_def short_values_def)

section \<open>Running\<close>

text \<open>After a panic of a host function the lock of the store is poisoned: the module never runs again.\<close>

lemma panic_poisons:
  assumes "fst (wasm_run exec c) = Panics"
  shows "fst (wasm_run exec' (snd (wasm_run exec c))) = Returns (Inl (Execution ''poisoned lock: another task failed inside''))"
proof -
  have "poisoned (snd (wasm_run exec c))"
    using assms by (auto simp: wasm_run_def Let_def split: if_splits prod.splits guest_end.splits)
  then show ?thesis
    by (simp add: wasm_run_def)
qed

text \<open>The fuel a run reports is what it took from the limit.\<close>

lemma run_within_fuel:
  assumes "\<And>f st. fst (snd (exec f st)) \<le> f" "fuel_limit (wc_config c) = Some f" "f < 2 ^ 64"
    and "fst (wasm_run exec c) = Returns (Inr r)"
  shows "unat (fuel_used r) \<le> f"
proof -
  have nz: "fuel_used r = of_nat f - of_nat (fst (snd (exec f (wc_store c))))"
    using assms(2,4) by (auto simp: wasm_run_def Let_def split: if_splits prod.splits guest_end.splits)
  have le: "fst (snd (exec f (wc_store c))) \<le> f"
    by (rule assms(1))
  then have "fuel_used r = of_nat (f - fst (snd (exec f (wc_store c))))"
    using nz by (simp add: of_nat_diff)
  moreover have "f - fst (snd (exec f (wc_store c))) < 2 ^ 64"
    using assms(3) by linarith
  ultimately have "unat (fuel_used r) = f - fst (snd (exec f (wc_store c)))"
    by (simp add: unat_of_nat)
  then show ?thesis
    by simp
qed

text \<open>Without a fuel limit a module has no fuel at all, since the engine meters it anyway: if running without fuel traps, it
  never runs.\<close>

lemma unlimited_module_traps:
  assumes "instantiate_module m wc cfg nm = Inr c" "fuel_limit wc = None" "exports_start m"
    and "\<And>st. exec 0 st = (Trapped e, 0, st)"
  shows "fst (wasm_run exec c) = Returns (Inl (Execution e)) \<and> snd (wasm_run exec c) = c"
  using assms
  by (auto simp: instantiate_module_def wasm_run_def Let_def split: option.splits)

text \<open>The log of a run contains the logs of the runs before it.\<close>

lemma logs_accumulate:
  assumes "exec (case fuel_limit (wc_config c) of Some f \<Rightarrow> f | None \<Rightarrow> wc_fuel c) (wc_store c) = (Finished, left, st)"
    and "log_buffer st = log_buffer (wc_store c) @ new" "has_start c" "\<not> poisoned c"
  shows "\<exists>r. fst (wasm_run exec c) = Returns (Inr r) \<and> er_log r = log_buffer (wc_store c) @ new"
  using assms by (simp add: wasm_run_def Let_def)

section \<open>Text\<close>

lemma lossy_ascii: "list_all (\<lambda>b. b < 128) bs \<Longrightarrow> lossy bs = bs"
  by (induction bs) simp_all

text \<open>ASCII text is read as it is.\<close>

lemma from_utf8_lossy_ascii:
  assumes "list_all (\<lambda>c. (of_char c :: nat) < 128) s"
  shows "from_utf8_lossy (str_bytes s) = s"
proof -
  have "map unat (str_bytes s) = map of_char s"
    by (simp add: str_bytes_def unat_of_nat)
  moreover have "lossy (map of_char s) = map of_char s"
    using assms by (intro lossy_ascii) (simp add: list_all_iff)
  ultimately show ?thesis
    by (simp add: from_utf8_lossy_def o_def)
qed

end
