(* ===== verification/Plugins.thy ===== *)
theory Plugins
  imports Config
begin

text \<open>
  \<^verbatim>\<open>shim-plugin/src/loader.rs\<close>: plugins from shared libraries.  The dynamic linker is a parameter: what a library exports,
  and what its functions return (a null pointer is \<^const>\<open>None\<close>).
\<close>

section \<open>A plugin\<close>

text \<open>The functions of the table: the name as a C string, the status codes, and the metrics as text.  Text is absent when it
  is not valid UTF-8.\<close>

record plugin_vtable =
  v_name :: "string option option"
  v_init :: "string \<Rightarrow> int"
  v_start :: int
  v_stop :: int
  v_metrics :: "string option option"

text \<open>A library that opens exports \<^verbatim>\<open>shim_plugin_init\<close> or not; the function returns a table or null.\<close>

datatype library = Unopenable string | NoSymbol string | NullTable | Table plugin_vtable

record plugin_instance =
  vtable :: plugin_vtable
  plugin_name :: string

definition plugin_load :: "(string \<Rightarrow> library) \<Rightarrow> string \<Rightarrow> string + plugin_instance" where
  "plugin_load linker path =
    (case linker path of
       Unopenable e \<Rightarrow> Inl (''failed to load shared library: '' @ path)
     | NoSymbol e \<Rightarrow> Inl (''shared library '' @ path @ '' does not export `shim_plugin_init`'')
     | NullTable \<Rightarrow> Inl (''`shim_plugin_init` returned null in '' @ path)
     | Table t \<Rightarrow>
         (case v_name t of
            None \<Rightarrow> Inl (''plugin name function returned null in '' @ path)
          | Some None \<Rightarrow> Inl ''plugin name is not valid UTF-8''
          | Some (Some n) \<Rightarrow> Inr \<lparr>vtable = t, plugin_name = n\<rparr>))"

definition plugin_failed :: "string \<Rightarrow> plugin_instance \<Rightarrow> int \<Rightarrow> string option" where
  "plugin_failed what p status =
    (if status \<noteq> 0 then Some (''plugin '' @ plugin_name p @ '' '' @ what @ '' failed with status '' @ show_int status) else None)"

text \<open>The configuration is passed as JSON, the serialiser being a parameter; a null byte cannot be passed.\<close>

definition plugin_init :: "(config \<Rightarrow> string + string) \<Rightarrow> config \<Rightarrow> plugin_instance \<Rightarrow> string option" where
  "plugin_init to_json c p =
    (case to_json c of
       Inl e \<Rightarrow> Some (''failed to serialize config: '' @ e)
     | Inr js \<Rightarrow>
         (if CHR 0x00 \<in> set js then Some ''config contains null byte''
          else plugin_failed ''init'' p (v_init (vtable p) js)))"

definition plugin_start :: "plugin_instance \<Rightarrow> string option" where
  "plugin_start p = plugin_failed ''start'' p (v_start (vtable p))"

definition plugin_stop :: "plugin_instance \<Rightarrow> string option" where
  "plugin_stop p = plugin_failed ''stop'' p (v_stop (vtable p))"

definition plugin_metrics :: "(string \<Rightarrow> metric list option) \<Rightarrow> plugin_instance \<Rightarrow> metric list" where
  "plugin_metrics from_json p =
    (case v_metrics (vtable p) of
       Some (Some js) \<Rightarrow> (case from_json js of Some ms \<Rightarrow> ms | None \<Rightarrow> [])
     | _ \<Rightarrow> [])"

section \<open>The loader\<close>

record plugin_loader =
  plugin_dir :: string
  loaded :: "plugin_instance list"

definition plugin_loader_new :: "string \<Rightarrow> plugin_loader" where
  "plugin_loader_new d = \<lparr>plugin_dir = d, loaded = []\<rparr>"

definition library_extensions :: "string list" where
  "library_extensions = [''so'']"

text \<open>\<^verbatim>\<open>Path::extension\<close>: what follows the last dot of the file name, if something precedes that dot.\<close>

definition file_name :: "string \<Rightarrow> string" where
  "file_name p = last (split_on (CHR ''/'') p)"

definition extension :: "string \<Rightarrow> string option" where
  "extension p =
    (let parts = split_on (CHR ''.'') (file_name p) in
     if length parts < 2 \<or> parts = [[], []] \<or> (length parts = 2 \<and> hd parts = []) then None else Some (last parts))"

definition is_library :: "string \<Rightarrow> bool" where
  "is_library p = (case extension p of Some x \<Rightarrow> x \<in> set library_extensions | None \<Rightarrow> False)"

text \<open>\<^verbatim>\<open>Ord\<close> on paths, here on the bytes of the entries of one directory.\<close>

definition path_le :: "string \<Rightarrow> string \<Rightarrow> bool" where
  "path_le a b = (a = b \<or> (a, b) \<in> lexord {(x, y). (of_char x :: nat) < of_char y})"

fun insert_path :: "string \<Rightarrow> string list \<Rightarrow> string list" where
  "insert_path p [] = [p]"
| "insert_path p (q # qs) = (if path_le p q then p # q # qs else q # insert_path p qs)"

definition sort_paths :: "string list \<Rightarrow> string list" where
  "sort_paths ps = foldr insert_path ps []"

fun load_each :: "(string \<Rightarrow> library) \<Rightarrow> string list \<Rightarrow> plugin_instance list \<times> string list" where
  "load_each linker [] = ([], [])"
| "load_each linker (p # ps) =
    (let (ok, errs) = load_each linker ps in
     case plugin_load linker p of
       Inr i \<Rightarrow> (i # ok, errs)
     | Inl e \<Rightarrow> (ok, (p @ '': '' @ e) # errs))"

text \<open>The directory is absent, cannot be read, or has entries.\<close>

datatype directory = NoDirectory | Unreadable string | Entries "string list"

definition load_all :: "(string \<Rightarrow> library) \<Rightarrow> directory \<Rightarrow> plugin_loader \<Rightarrow> string option \<times> plugin_loader" where
  "load_all linker d l =
    (case d of
       NoDirectory \<Rightarrow> (Some (''plugin directory does not exist: '' @ plugin_dir l), l)
     | Unreadable e \<Rightarrow> (Some (''failed to read plugin directory: '' @ plugin_dir l), l)
     | Entries ps \<Rightarrow> (None, l\<lparr>loaded := loaded l @ fst (load_each linker (sort_paths (filter is_library ps)))\<rparr>))"

definition plugin_count :: "plugin_loader \<Rightarrow> nat" where
  "plugin_count l = length (loaded l)"

section \<open>What is loaded\<close>

lemma mset_insert_path: "mset (insert_path p qs) = add_mset p (mset qs)"
  by (induction qs) auto

lemma mset_sort_paths: "mset (sort_paths ps) = mset ps"
  by (induction ps) (simp_all add: sort_paths_def mset_insert_path)

lemma path_le_total: "path_le a b \<or> path_le b a"
proof -
  have "\<forall>a b. (a, b) \<in> {(x :: char, y). (of_char x :: nat) < of_char y} \<or> a = b \<or> (b, a) \<in> {(x, y). (of_char x :: nat) < of_char y}"
    by (auto simp: not_less le_less of_char_eq_iff)
  then have "(a, b) \<in> lexord {(x, y). (of_char x :: nat) < of_char y} \<or> a = b \<or> (b, a) \<in> lexord {(x, y). (of_char x :: nat) < of_char y}"
    by (rule lexord_linear)
  then show ?thesis
    by (auto simp: path_le_def)
qed

lemma path_le_trans: "path_le a b \<Longrightarrow> path_le b c \<Longrightarrow> path_le a c"
  unfolding path_le_def
  by (metis (no_types, lifting) lexord_trans transI case_prodD case_prodI mem_Collect_eq less_trans)

lemma sorted_insert_path: "sorted_wrt path_le qs \<Longrightarrow> sorted_wrt path_le (insert_path p qs)"
proof (induction qs)
  case (Cons q qs)
  have "set (insert_path p qs) = insert p (set qs)"
    using mset_insert_path [of p qs] by (metis set_mset_add_mset_insert set_mset_mset)
  then show ?case
    using Cons path_le_total [of p q] by (auto intro: path_le_trans)
qed simp

lemma load_each_spec:
  "fst (load_each linker ps) = List.map_filter (\<lambda>p. case plugin_load linker p of Inr i \<Rightarrow> Some i | Inl _ \<Rightarrow> None) ps
   \<and> length (fst (load_each linker ps)) + length (snd (load_each linker ps)) = length ps"
  by (induction ps) (auto simp: Let_def map_filter_simps split: sum.splits prod.splits)

text \<open>A scan loads the plugins that can be loaded, in the order of their paths: the libraries of the directory, sorted,
  each exactly once, less those that fail, and a failure of one does not keep another from being loaded.  They are
  added to what was loaded before, so that a second scan loads every plugin again.\<close>

theorem load_all_loads:
  "\<exists>order. mset order = mset (filter is_library ps) \<and> sorted_wrt path_le order
    \<and> load_all linker (Entries ps) l =
        (None, l\<lparr>loaded := loaded l @
           List.map_filter (\<lambda>p. case plugin_load linker p of Inr i \<Rightarrow> Some i | Inl _ \<Rightarrow> None) order\<rparr>)"
proof -
  have "sorted_wrt path_le (sort_paths qs)" for qs
    by (induction qs) (simp_all add: sort_paths_def sorted_insert_path)
  then show ?thesis
    using mset_sort_paths load_each_spec by (intro exI [of _ "sort_paths (filter is_library ps)"]) (simp add: load_all_def)
qed

lemma second_scan_doubles:
  "plugin_count (snd (load_all linker d (snd (load_all linker d (plugin_loader_new dir))))) =
    2 * plugin_count (snd (load_all linker d (plugin_loader_new dir)))"
  by (cases d) (simp_all add: load_all_def plugin_count_def plugin_loader_new_def)

text \<open>Hidden files and files without a name before the dot are no libraries.\<close>

lemma library_examples:
  "is_library ''/plugins/health.so'' \<and> is_library ''/plugins/health.v2.so'' \<and> \<not> is_library ''/plugins/.so''
   \<and> \<not> is_library ''/plugins/health.so.bak'' \<and> \<not> is_library ''/plugins/so''"
  by (simp add: is_library_def extension_def file_name_def library_extensions_def)

text \<open>A status other than zero is an error that names the plugin.\<close>

lemma plugin_status:
  "plugin_start p = None \<longleftrightarrow> v_start (vtable p) = 0" "plugin_stop p = None \<longleftrightarrow> v_stop (vtable p) = 0"
  by (simp_all add: plugin_start_def plugin_stop_def plugin_failed_def)

end
