(* ===== verification/Redis_Bridge.thy ===== *)
theory Redis_Bridge
  imports Bus
begin

text \<open>
  \<^verbatim>\<open>shim-core/src/redis_bridge.rs\<close>: the bridge between the local bus and a Redis stream.  Redis answers as a parameter:
  errors, and the replies to \<^verbatim>\<open>XREADGROUP\<close>; the JSON form of an event is a parameter too.
\<close>

section \<open>Data\<close>

definition STREAM_PREFIX :: string where "STREAM_PREFIX = ''evergreen:shimbus:events''"
definition CONSUMER_GROUP :: string where "CONSUMER_GROUP = ''evergreen-shims''"
definition MAX_STREAM_LEN :: nat where "MAX_STREAM_LEN = 10000"

record bridge_metrics =
  events_published :: nat
  events_consumed :: nat
  bridge_errors :: nat

definition bridge_metrics_new :: "string set \<Rightarrow> (bridge_metrics \<times> string set) outcome" where
  "bridge_metrics_new registry =
    (let names = {''redis_bridge_events_published'', ''redis_bridge_events_consumed'', ''redis_bridge_errors''} in
     if registry \<inter> names = {} then Returns (\<lparr>events_published = 0, events_consumed = 0, bridge_errors = 0\<rparr>, registry \<union> names)
     else Panics)"

record redis_bridge =
  instance_id :: string
  stream_key :: string
  rb_metrics :: "bridge_metrics option"

definition bridge_new :: "string option \<Rightarrow> string \<Rightarrow> string \<Rightarrow> string + redis_bridge" where
  "bridge_new open_error me ns =
    (case open_error of
       Some e \<Rightarrow> Inl (''redis connect: '' @ e)
     | None \<Rightarrow> Inr \<lparr>instance_id = me, stream_key = STREAM_PREFIX @ '':'' @ ns, rb_metrics = None\<rparr>)"

definition bridge_with_metrics ::
  "string option \<Rightarrow> string \<Rightarrow> string \<Rightarrow> string set \<Rightarrow> ((string + redis_bridge) \<times> string set) outcome" where
  "bridge_with_metrics open_error me ns registry =
    (case bridge_new open_error me ns of
       Inl e \<Rightarrow> Returns (Inl e, registry)
     | Inr b \<Rightarrow>
         (case bridge_metrics_new registry of
            Panics \<Rightarrow> Panics
          | Returns (m, registry') \<Rightarrow> Returns (Inr (b\<lparr>rb_metrics := Some m\<rparr>), registry')))"

definition on_metrics :: "(bridge_metrics \<Rightarrow> bridge_metrics) \<Rightarrow> redis_bridge \<Rightarrow> redis_bridge" where
  "on_metrics f b = b\<lparr>rb_metrics := map_option f (rb_metrics b)\<rparr>"

section \<open>Group and publishing\<close>

text \<open>The group exists already when the error says so.\<close>

definition init_group :: "string option \<Rightarrow> string option \<Rightarrow> string option" where
  "init_group conn_error xgroup_error =
    (case conn_error of
       Some e \<Rightarrow> Some (''redis connection: '' @ e)
     | None \<Rightarrow>
         (case xgroup_error of
            None \<Rightarrow> None
          | Some msg \<Rightarrow> (if contains msg ''BUSYGROUP'' then None else Some (''XGROUP CREATE: '' @ msg))))"

type_synonym entry = "string \<times> (string \<times> string) list"

text \<open>The fields of the entry that is added, the result, and the bridge.\<close>

definition bridge_publish ::
  "('f shim_event \<Rightarrow> string + string) \<Rightarrow> string option \<Rightarrow> string option \<Rightarrow> 'f shim_event \<Rightarrow> redis_bridge
   \<Rightarrow> (string + (string \<times> string) list) \<times> redis_bridge" where
  "bridge_publish to_json conn_error xadd_error e b =
    (case conn_error of
       Some er \<Rightarrow> (Inl (''redis connection: '' @ er), b)
     | None \<Rightarrow>
         (case to_json e of
            Inl er \<Rightarrow> (Inl (''event serialization: '' @ er), b)
          | Inr js \<Rightarrow>
              (case xadd_error of
                 Some er \<Rightarrow> (Inl (''XADD: '' @ er), on_metrics (\<lambda>m. m\<lparr>bridge_errors := bridge_errors m + 1\<rparr>) b)
               | None \<Rightarrow>
                   (Inr [(''source'', source e), (''json'', js)],
                    on_metrics (\<lambda>m. m\<lparr>events_published := events_published m + 1\<rparr>) b))))"

definition relay_to_redis :: "'f shim_event \<Rightarrow> string option" where
  "relay_to_redis e = None"

section \<open>Consuming\<close>

text \<open>A reply: absent when the request failed or nothing came in time, otherwise the entries per stream.\<close>

type_synonym reply = "(string \<times> entry list) list option"

definition reply_entries :: "reply \<Rightarrow> entry list" where
  "reply_entries r = (case r of None \<Rightarrow> [] | Some streams \<Rightarrow> concat (map snd streams))"

text \<open>The event of an entry that is not the bridge's own.\<close>

definition decoded :: "(string \<Rightarrow> 'f shim_event option) \<Rightarrow> entry \<Rightarrow> 'f shim_event option option" where
  "decoded from_json en = map_option (\<lambda>(k, js). from_json js) (find (\<lambda>(k, _). k = ''json'') (snd en))"

definition foreign :: "(string \<Rightarrow> 'f shim_event option) \<Rightarrow> string \<Rightarrow> entry \<Rightarrow> 'f shim_event option" where
  "foreign from_json me en =
    (case decoded from_json en of Some (Some e) \<Rightarrow> (if source e \<noteq> me then Some e else None) | _ \<Rightarrow> None)"

definition consume_entry ::
  "('ch \<Rightarrow> 'f shim_event \<Rightarrow> 'ch) \<Rightarrow> (string \<Rightarrow> 'f shim_event option) \<Rightarrow> string \<Rightarrow> entry \<Rightarrow> 'ch shim_bus \<Rightarrow> 'ch shim_bus" where
  "consume_entry send from_json me en bus =
    (case foreign from_json me en of Some e \<Rightarrow> fst (publish send bus e) | None \<Rightarrow> bus)"

text \<open>One turn of the loop: the bus, the last identifier seen and the identifier that is acknowledged.\<close>

definition last_seen :: "entry list \<Rightarrow> string \<Rightarrow> string" where
  "last_seen es d = fold (\<lambda>en _. fst en) es d"

definition consume_turn ::
  "('ch \<Rightarrow> 'f shim_event \<Rightarrow> 'ch) \<Rightarrow> (string \<Rightarrow> 'f shim_event option) \<Rightarrow> string \<Rightarrow> reply \<Rightarrow> 'ch shim_bus \<times> string \<times> string list
   \<Rightarrow> 'ch shim_bus \<times> string \<times> string list" where
  "consume_turn send from_json me r s =
    (case s of (bus, last_id, acked) \<Rightarrow>
      (let bus1 = fold (consume_entry send from_json me) (reply_entries r) bus;
           last1 = last_seen (reply_entries r) last_id
       in (bus1, last1, if last1 \<noteq> ''0-0'' then acked @ [last1] else acked)))"

definition start_consuming ::
  "('ch \<Rightarrow> 'f shim_event \<Rightarrow> 'ch) \<Rightarrow> (string \<Rightarrow> 'f shim_event option) \<Rightarrow> redis_bridge \<Rightarrow> reply list \<Rightarrow> 'ch shim_bus
   \<Rightarrow> 'ch shim_bus \<times> string \<times> string list" where
  "start_consuming send from_json b rs bus = fold (consume_turn send from_json (instance_id b)) rs (bus, ''0-0'', [])"

text \<open>With a handler, which also counts what it consumes and what it cannot decode.\<close>

definition handle_entry ::
  "('f shim_event \<Rightarrow> 's \<Rightarrow> 's) \<Rightarrow> (string \<Rightarrow> 'f shim_event option) \<Rightarrow> entry \<Rightarrow> redis_bridge \<times> 's \<Rightarrow> redis_bridge \<times> 's" where
  "handle_entry handler from_json en s =
    (case s of (b, h) \<Rightarrow>
      (case decoded from_json en of
         None \<Rightarrow> (b, h)
       | Some None \<Rightarrow> (on_metrics (\<lambda>m. m\<lparr>bridge_errors := bridge_errors m + 1\<rparr>) b, h)
       | Some (Some e) \<Rightarrow>
           (if source e \<noteq> instance_id b
            then (on_metrics (\<lambda>m. m\<lparr>events_consumed := events_consumed m + 1\<rparr>) b, handler e h)
            else (b, h))))"

definition start_consuming_with_handler ::
  "('f shim_event \<Rightarrow> 's \<Rightarrow> 's) \<Rightarrow> (string \<Rightarrow> 'f shim_event option) \<Rightarrow> reply list \<Rightarrow> redis_bridge \<times> 's \<Rightarrow> redis_bridge \<times> 's" where
  "start_consuming_with_handler handler from_json rs s =
    fold (handle_entry handler from_json) (concat (map reply_entries rs)) s"

text \<open>The relay publishes each event and counts it.\<close>

definition relay_to_local_bus ::
  "('ch \<Rightarrow> 'f shim_event \<Rightarrow> 'ch) \<Rightarrow> (string \<Rightarrow> 'f shim_event option) \<Rightarrow> reply list \<Rightarrow> redis_bridge \<Rightarrow> 'ch shim_bus
   \<Rightarrow> redis_bridge \<times> 'ch shim_bus \<times> nat" where
  "relay_to_local_bus send from_json rs b bus =
    start_consuming_with_handler (\<lambda>e (bus, n). (fst (publish send bus e), n + 1)) from_json rs (b, bus, 0)"

section \<open>What reaches the bus\<close>

lemma fold_consume:
  "fold (consume_entry send from_json me) es bus = publish_all send bus (List.map_filter (foreign from_json me) es)"
  by (induction es arbitrary: bus) (simp_all add: consume_entry_def publish_all_def map_filter_simps split: option.splits)

lemma publish_all_append: "publish_all send bus (xs @ ys) = publish_all send (publish_all send bus xs) ys"
  by (simp add: publish_all_def)

lemma map_filter_append: "List.map_filter f (xs @ ys) = List.map_filter f xs @ List.map_filter f ys"
  by (simp add: List.map_filter_def)

lemma consume_bus:
  "fst (fold (consume_turn send from_json me) rs s) =
    publish_all send (fst s) (List.map_filter (foreign from_json me) (concat (map reply_entries rs)))"
proof (induction rs arbitrary: s)
  case Nil
  then show ?case
    by (simp add: publish_all_def List.map_filter_def)
next
  case (Cons r rs)
  have "fst (consume_turn send from_json me r s) =
      publish_all send (fst s) (List.map_filter (foreign from_json me) (reply_entries r))"
    by (cases s) (simp add: consume_turn_def fold_consume Let_def)
  then show ?case
    using Cons.IH [of "consume_turn send from_json me r s"] by (simp add: map_filter_append publish_all_append)
qed

lemma on_metrics_id [simp]: "instance_id (on_metrics f b) = instance_id b"
  by (simp add: on_metrics_def)

lemma start_consuming_bus:
  "fst (start_consuming send from_json b rs bus) =
     publish_all send bus (List.map_filter (foreign from_json (instance_id b)) (concat (map reply_entries rs)))"
  unfolding start_consuming_def consume_bus by simp

lemma handle_entry_step:
  "\<exists>b'. instance_id b' = instance_id b \<and> handle_entry handler from_json en (b, h) =
    (b', case foreign from_json (instance_id b) en of Some e \<Rightarrow> handler e h | None \<Rightarrow> h)"
  by (auto simp: handle_entry_def foreign_def split: option.splits)

lemma handler_fold:
  "snd (fold (handle_entry handler from_json) es (b, h)) =
    fold handler (List.map_filter (foreign from_json (instance_id b)) es) h"
proof (induction es arbitrary: b h)
  case (Cons en es)
  obtain b' where "instance_id b' = instance_id b" "handle_entry handler from_json en (b, h) =
    (b', case foreign from_json (instance_id b) en of Some e \<Rightarrow> handler e h | None \<Rightarrow> h)"
    using handle_entry_step [of b handler from_json en h] by blast
  then show ?case
    using Cons.IH [of b'] by (simp add: map_filter_simps split: option.splits)
qed (simp add: List.map_filter_def)

lemma relay_count:
  "fold (\<lambda>e (bus, n). (fst (publish send bus e), n + 1)) es (bus, k) = (publish_all send bus es, k + length es)"
  by (induction es arbitrary: bus k) (simp_all add: publish_all_def)

text \<open>C21: Both ways of consuming put the same events on the local bus: the decodable events of all replies whose source is
  not the bridge's name, each once and in the order of the stream, stamped anew by the bus.  The relay counts exactly
  these.\<close>

theorem bridge_relays_foreign_events:
  "fst (start_consuming send from_json b rs bus) =
     publish_all send bus (List.map_filter (foreign from_json (instance_id b)) (concat (map reply_entries rs)))
   \<and> snd (relay_to_local_bus send from_json rs b bus) =
     (fst (start_consuming send from_json b rs bus),
      length (List.map_filter (foreign from_json (instance_id b)) (concat (map reply_entries rs))))"
proof -
  have "snd (relay_to_local_bus send from_json rs b bus) =
      (publish_all send bus (List.map_filter (foreign from_json (instance_id b)) (concat (map reply_entries rs))),
       0 + length (List.map_filter (foreign from_json (instance_id b)) (concat (map reply_entries rs))))"
    unfolding relay_to_local_bus_def start_consuming_with_handler_def
    by (simp only: handler_fold relay_count)
  then show ?thesis
    by (simp only: start_consuming_bus) simp
qed

section \<open>From one bus to another\<close>

text \<open>An event that one bridge publishes arrives on the bus of another with everything but its sequence number, which
  the receiving bus gives it -- and it arrives as well on the bus it came from when it is read back there, unless its
  source happens to be the name of the bridge: events carry the names of shims, not of bridges.\<close>

theorem bridge_roundtrip:
  assumes pub: "bridge_publish to_json None None e a = (Inr flds, a')"
    and json: "\<And>js. to_json e = Inr js \<Longrightarrow> from_json js = Some e"
    and other: "source e \<noteq> instance_id b"
  shows "fst (start_consuming send from_json b [Some [(stream_key a, [(n, flds)])]] bus) = fst (publish send bus e)"
proof -
  obtain js where js: "to_json e = Inr js" "flds = [(''source'', source e), (''json'', js)]"
    using pub by (auto simp: bridge_publish_def split: sum.splits)
  have "foreign from_json (instance_id b) (n, flds) = Some e"
    using js json [OF js(1)] other by (simp add: foreign_def decoded_def)
  then show ?thesis
    by (simp add: start_consuming_bus reply_entries_def map_filter_simps publish_all_def)
qed

definition sample_bridge :: "string \<Rightarrow> redis_bridge" where
  "sample_bridge n = \<lparr>instance_id = n, stream_key = STREAM_PREFIX @ '':prod'', rb_metrics = None\<rparr>"

theorem bridge_roundtrip_witness:
  "fst (start_consuming (\<lambda>ch e. ch @ [sequence e]) (\<lambda>_. Some (hd sample_events)) (sample_bridge ''pod-1'')
      [Some [(stream_key (sample_bridge ''pod-1''), [(''1-0'', [(''source'', source (hd sample_events)), (''json'', ''{}'')])])]]
      (bus_new (\<lambda>_. []))) =
   fst (publish (\<lambda>ch e. ch @ [sequence e]) (bus_new (\<lambda>_. [])) (hd sample_events))"
proof -
  have "bridge_publish (\<lambda>_. Inr ''{}'') None None (hd sample_events) (sample_bridge ''pod-1'') =
      (Inr [(''source'', source (hd sample_events)), (''json'', ''{}'')], sample_bridge ''pod-1'')"
    by (simp add: bridge_publish_def on_metrics_def sample_bridge_def)
  moreover have "source (hd sample_events) \<noteq> instance_id (sample_bridge ''pod-1'')"
    by (simp add: sample_events_def sample_bridge_def shim_event_new_def)
  ultimately show ?thesis
    by (intro bridge_roundtrip [where to_json = "\<lambda>_. Inr ''{}''"]) simp_all
qed

section \<open>Acknowledgements\<close>

lemma last_seen_last: "last_seen es d = (if es = [] then d else fst (last es))"
proof (cases es rule: rev_cases)
  case (snoc ys y)
  then show ?thesis
    by (simp add: last_seen_def)
qed (simp add: last_seen_def)

lemma acked_are_last:
  "set (snd (snd (fold (consume_turn send from_json me) rs (bus, i, acked)))) \<subseteq>
    set acked \<union> {i} \<union> {fst (last (reply_entries r)) | r. r \<in> set rs \<and> reply_entries r \<noteq> []}"
proof (induction rs arbitrary: bus i acked)
  case (Cons r rs)
  obtain bus' i' acked' where s: "consume_turn send from_json me r (bus, i, acked) = (bus', i', acked')"
    by (metis surj_pair)
  have "i' = (if reply_entries r = [] then i else fst (last (reply_entries r)))" "set acked' \<subseteq> insert i' (set acked)"
    using s by (auto simp: consume_turn_def Let_def last_seen_last split: if_splits)
  then show ?case
    using Cons.IH [of bus' i' acked'] s by (auto split: if_splits)
qed auto

text \<open>Only the last entry of a reply is ever acknowledged.  An entry that comes before another in its reply stays in the
  group's list of pending entries for good, although its event has been put on the bus.\<close>

theorem earlier_entries_never_acked:
  assumes "distinct (map fst (concat (map reply_entries rs)))" "r \<in> set rs"
    and "reply_entries r = es @ [en]" "en' \<in> set es" "fst en' \<noteq> ''0-0''"
  shows "fst en' \<notin> set (snd (snd (start_consuming send from_json b rs bus)))"
proof
  assume "fst en' \<in> set (snd (snd (start_consuming send from_json b rs bus)))"
  then obtain r' where r': "r' \<in> set rs" "reply_entries r' \<noteq> []" "fst en' = fst (last (reply_entries r'))"
    using acked_are_last [of send from_json "instance_id b" rs bus "''0-0''" "[]"] assms(5)
    unfolding start_consuming_def by auto
  have inj: "inj_on fst (set (concat (map reply_entries rs)))"
    using assms(1) by (simp only: distinct_map)
  have dist: "distinct (concat (map reply_entries rs))"
    using assms(1) by (simp only: distinct_map)
  have mem: "en' \<in> set (reply_entries r)" "last (reply_entries r') \<in> set (reply_entries r')"
    using assms(3,4) r'(2) by simp_all
  then have eq: "en' = last (reply_entries r')"
    using inj r'(1,3) assms(2) by (auto dest!: inj_onD [where x = en'])
  have "distinct (reply_entries r)"
    using dist assms(2) by (simp add: distinct_concat_iff)
  then have "en' \<noteq> last (reply_entries r)"
    using assms(3,4) by auto
  then have "reply_entries r \<noteq> reply_entries r'"
    using eq by metis
  then have "set (reply_entries r) \<inter> set (reply_entries r') = {}"
    using dist assms(2) r'(1) unfolding distinct_concat_iff by auto
  then show False
    using mem eq by auto
qed

theorem earlier_entries_never_acked_witness:
  "''1-0'' \<notin> set (snd (snd (start_consuming (\<lambda>ch e. ch @ [sequence e]) (\<lambda>_. Some (hd sample_events)) (sample_bridge ''pod-1'')
      [Some [(''s'', [(''1-0'', []), (''2-0'', [])])]] (bus_new (\<lambda>_. [])))))"
  using earlier_entries_never_acked [of "[Some [(''s'', [(''1-0'', []), (''2-0'', [])])]]" "Some [(''s'', [(''1-0'', []), (''2-0'', [])])]"
      "[(''1-0'', [])]" "(''2-0'', [])" "(''1-0'', [])" "\<lambda>ch e. ch @ [sequence e]" "\<lambda>_. Some (hd sample_events)"
      "sample_bridge ''pod-1''" "bus_new (\<lambda>_. [])"]
  by (simp add: reply_entries_def)

section \<open>Several bridges\<close>

text \<open>All bridges of a namespace read as consumers of the one group \<^const>\<open>CONSUMER_GROUP\<close>, and Redis gives an entry of a
  stream to one consumer of a group only.  So however many bridges there are, the events that reach their buses are at most as
  many as the entries: an event is handed to one of the buses, not to all.\<close>

definition relayed :: "(string \<Rightarrow> 'f shim_event option) \<Rightarrow> redis_bridge \<times> reply list \<Rightarrow> 'f shim_event list" where
  "relayed from_json br =
    List.map_filter (foreign from_json (instance_id (fst br))) (concat (map reply_entries (snd br)))"

definition taken :: "(redis_bridge \<times> reply list) list \<Rightarrow> entry list" where
  "taken brs = concat (map (\<lambda>br. concat (map reply_entries (snd br))) brs)"

lemma length_map_filter_le: "length (List.map_filter f xs) \<le> length xs"
  by (simp add: List.map_filter_def)

lemma relayed_taken: "sum_list (map (\<lambda>br. length (relayed from_json br)) brs) \<le> length (taken brs)"
proof (induction brs)
  case (Cons br brs)
  then show ?case
    using length_map_filter_le [of "foreign from_json (instance_id (fst br))" "concat (map reply_entries (snd br))"]
    by (simp add: taken_def relayed_def)
qed (simp add: taken_def)

text \<open>The buses of any number of bridges get together at most one event for each entry of the stream.\<close>

theorem group_splits_events:
  assumes "distinct (taken brs)" and "set (taken brs) \<subseteq> set stream"
  shows "sum_list (map (\<lambda>br. snd (snd (relay_to_local_bus send from_json (snd br) (fst br) bus))) brs) \<le> length stream"
proof -
  have same: "map (\<lambda>br. snd (snd (relay_to_local_bus send from_json (snd br) (fst br) bus))) brs =
      map (\<lambda>br. length (relayed from_json br)) brs"
    unfolding relay_to_local_bus_def start_consuming_with_handler_def
    by (simp only: handler_fold relay_count relayed_def snd_conv add_0)
  have "length (taken brs) \<le> length stream"
  proof -
    have "length (taken brs) = card (set (taken brs))"
      using assms(1) by (simp only: distinct_card)
    also have "\<dots> \<le> card (set stream)"
      by (rule card_mono [OF finite_set assms(2)])
    also have "\<dots> \<le> length stream"
      by (rule card_length)
    finally show ?thesis .
  qed
  then show ?thesis
    unfolding same using relayed_taken [of from_json brs] by linarith
qed

end
