(* ===== verification/Shim_Main.thy ===== *)
theory Shim_Main
  imports Config Child_Process
begin

text \<open>
  \<^verbatim>\<open>evergreen-shim/src/main.rs\<close>: the binary.  It puts the configuration together, starts the capabilities, runs the child
  process of \<^verbatim>\<open>Child_Process\<close> until a signal comes or the child dies, and stops everything.  Each capability is the
  results of its calls; each turn of the waiting loop has a record of what it observes.
\<close>

section \<open>Health check command\<close>

text \<open>\<^verbatim>\<open>trim_start_matches\<close> removes a prefix as often as it is there.\<close>

function trim_start_matches :: "string \<Rightarrow> string \<Rightarrow> string" where
  "trim_start_matches s p = (if p \<noteq> [] \<and> starts_with s p then trim_start_matches (drop (length p) s) p else s)"
  by pat_completeness auto
termination
proof (relation "measure (\<lambda>(s, p). length s)")
  fix s p :: string
  assume "p \<noteq> [] \<and> starts_with s p"
  then show "((drop (length p) s, p), s, p) \<in> measure (\<lambda>(s, p). length s)"
    by (auto simp: starts_with_iff)
qed simp

declare trim_start_matches.simps [simp del]

datatype exit_how = ExitWith int | ReturnErr string | ReturnOk

text \<open>The connection attempt: \<^const>\<open>None\<close> when the text is no socket address.\<close>

definition connect_exit :: "(string \<Rightarrow> bool option) \<Rightarrow> string \<Rightarrow> exit_how" where
  "connect_exit connect addr =
    (case connect addr of
       None \<Rightarrow> ReturnErr ''invalid socket address syntax''
     | Some ok \<Rightarrow> ExitWith (if ok then 0 else 1))"

definition http_host_port :: "string \<Rightarrow> string" where
  "http_host_port url =
    hd (split_on (CHR ''/'') (trim_start_matches (trim_start_matches url ''http://'') ''https://''))"

definition run_healthcheck :: "(string \<Rightarrow> bool option) \<Rightarrow> string option \<Rightarrow> string option \<Rightarrow> exit_how" where
  "run_healthcheck connect tcp http =
    (case tcp of
       Some addr \<Rightarrow> connect_exit connect addr
     | None \<Rightarrow>
         (case http of
            Some url \<Rightarrow> connect_exit connect (http_host_port url)
          | None \<Rightarrow> ExitWith 2))"

section \<open>Configuration\<close>

definition cli_override :: "string option \<Rightarrow> string list \<Rightarrow> config \<Rightarrow> config" where
  "cli_override cmd extra c =
    (case cmd of
       None \<Rightarrow> c
     | Some s \<Rightarrow>
         (let parts = split_ws [] s in
          if 1 < length parts then
            c\<lparr>process := (process c)\<lparr>command := hd parts, args := tl parts @ extra\<rparr>\<rparr>
          else
            c\<lparr>process := (process c)\<lparr>command := s, args := (if extra \<noteq> [] then extra else args (process c))\<rparr>\<rparr>))"

text \<open>The file is absent, cannot be read, or holds a configuration.\<close>

definition effective_config ::
  "validators \<Rightarrow> env \<Rightarrow> (string + config) option \<Rightarrow> string option \<Rightarrow> string list \<Rightarrow> string + config" where
  "effective_config v env from_file cmd extra =
    (let finish = (\<lambda>c. Inr (cli_override cmd extra (merge env c (from_env v env)))) in
     case from_file of
       None \<Rightarrow> finish config_default
     | Some (Inl e) \<Rightarrow> Inl e
     | Some (Inr c) \<Rightarrow> finish c)"

section \<open>Capabilities\<close>

definition CRITICAL_CAPABILITIES :: "string list" where
  "CRITICAL_CAPABILITIES = [''health'', ''migration'']"

definition capability_order :: "string list" where
  "capability_order =
    [''health'', ''vault'', ''backup'', ''migration'', ''audit'', ''tls'', ''config'', ''failover'', ''replication'', ''cache'',
     ''cdc'', ''sharding'', ''archival'', ''auth'', ''encryption'', ''compliance'', ''scheduler'', ''queue'', ''alerting'',
     ''chaos'', ''cost'', ''mongodb'', ''cockroachdb'', ''dynamodb'', ''elasticsearch'', ''cassandra'']"

text \<open>The capabilities of a build, by the features it was compiled with.\<close>

definition build_capabilities :: "(string \<Rightarrow> bool) \<Rightarrow> string list" where
  "build_capabilities feature = filter feature capability_order"

record capability_calls =
  on_init :: "string option"
  on_start :: "string option"
  on_stop :: "string option"

record capability_outcome =
  oc_name :: string
  started :: bool
  oc_error :: "string option"

text \<open>Starting the capabilities in order: the outcomes, the names of those that started, and the error that aborts.  What
  was started before an abort is lost: nothing stops it.\<close>

fun start_all ::
  "(string \<Rightarrow> capability_calls) \<Rightarrow> string list \<Rightarrow> capability_outcome list \<Rightarrow> string list
   \<Rightarrow> (string + unit) \<times> capability_outcome list \<times> string list" where
  "start_all calls [] outs ok = (Inr (), outs, ok)"
| "start_all calls (n # ns) outs ok =
    (case on_init (calls n) of
       Some e \<Rightarrow>
         (let outs1 = outs @ [\<lparr>oc_name = n, started = False, oc_error = Some (''init failed: '' @ e)\<rparr>] in
          if n \<in> set CRITICAL_CAPABILITIES
          then (Inl (''Critical capability '' @ n @ '' failed to initialize: '' @ e), outs1, ok)
          else start_all calls ns outs1 ok)
     | None \<Rightarrow>
         (case on_start (calls n) of
            Some e \<Rightarrow>
              (let outs1 = outs @ [\<lparr>oc_name = n, started = False, oc_error = Some (''start failed: '' @ e)\<rparr>] in
               if n \<in> set CRITICAL_CAPABILITIES
               then (Inl (''Critical capability '' @ n @ '' failed to start: '' @ e), outs1, ok)
               else start_all calls ns outs1 ok)
          | None \<Rightarrow> start_all calls ns (outs @ [\<lparr>oc_name = n, started = True, oc_error = None\<rparr>]) (ok @ [n])))"

definition all_critical_healthy :: "string list \<Rightarrow> bool" where
  "all_critical_healthy ok = list_all (\<lambda>c. c \<in> set ok) CRITICAL_CAPABILITIES"

text \<open>Stopping, in reverse order, up to the first that fails: those that were asked to stop, and the error.\<close>

fun stop_each :: "(string \<Rightarrow> capability_calls) \<Rightarrow> string list \<Rightarrow> string list \<times> string option" where
  "stop_each calls [] = ([], None)"
| "stop_each calls (n # ns) =
    (case on_stop (calls n) of
       Some e \<Rightarrow> ([n], Some e)
     | None \<Rightarrow> (case stop_each calls ns of (asked, r) \<Rightarrow> (n # asked, r)))"

definition stop_all :: "(string \<Rightarrow> capability_calls) \<Rightarrow> string list \<Rightarrow> string list \<times> string option" where
  "stop_all calls ok = stop_each calls (rev ok)"

section \<open>Waiting\<close>

text \<open>What wakes the loop: a signal of the broadcast channel (or an error of it), the process descriptor or the
  timer.\<close>

datatype wake = CtrlC | Signalled signal | ChannelError | ChildReadable | Nothing

record turn =
  shutdown_requested :: bool
  t_status :: "string option"
  elapsed_secs :: nat
  t_env :: env
  stop_proc :: Shutdown.process
  stop_status :: "string option"
  respawn :: "string + nat option"
  refd :: "nat option"
  woken :: wake

datatype loop_end = BySignal | ByChildDeath

type_synonym main_state = "supervisor \<times> bool"

text \<open>The child has exited: it is started again once, within its grace period.\<close>

definition child_exited :: "turn \<Rightarrow> main_state \<Rightarrow> main_state + main_state \<times> loop_end" where
  "child_exited t s =
    (case s of (sv, retried) \<Rightarrow>
      (if elapsed_secs t < startup_grace_secs (cp_config (fst sv)) \<and> \<not> retried then
         (let sv1 = stop (t_env t) (stop_proc t) (stop_status t) sv in
          case start (respawn t) (refd t) sv1 of
            (None, sv2) \<Rightarrow> Inl (sv2, True)
          | (Some e, sv2) \<Rightarrow> Inr ((sv2, True), ByChildDeath))
       else Inr (s, ByChildDeath)))"

text \<open>One turn: to go on (\<^const>\<open>Inl\<close>) or to leave the loop.  \<^verbatim>\<open>use_fd\<close> says whether there was a process descriptor when
  the loop began.\<close>

definition main_turn :: "bool \<Rightarrow> turn \<Rightarrow> main_state \<Rightarrow> main_state + main_state \<times> loop_end" where
  "main_turn use_fd t s =
    (if shutdown_requested t then Inr (s, BySignal)
     else if \<not> is_running (t_status t) (fst (fst s)) then child_exited t s
     else (case woken t of
         CtrlC \<Rightarrow> Inr (s, BySignal)
       | Signalled sg \<Rightarrow> Inr (s, BySignal)
       | ChannelError \<Rightarrow> Inl s
       | ChildReadable \<Rightarrow> (if use_fd then child_exited t s else Inl s)
       | Nothing \<Rightarrow> Inl s))"

fun main_loop :: "bool \<Rightarrow> turn list \<Rightarrow> main_state \<Rightarrow> main_state \<times> loop_end option" where
  "main_loop use_fd [] s = (s, None)"
| "main_loop use_fd (t # ts) s =
    (case main_turn use_fd t s of
       Inl s' \<Rightarrow> main_loop use_fd ts s'
     | Inr (s', e) \<Rightarrow> (s', Some e))"

section \<open>The run\<close>

record run_world =
  w_calls :: "string \<Rightarrow> capability_calls"
  w_spawn :: "string + nat option"
  w_fd :: "nat option"
  w_turns :: "turn list"
  w_env :: env
  final_proc :: Shutdown.process
  final_status :: "string option"

text \<open>How a run ends: the supervisor, if the child was ever started, the capabilities that were asked to stop, and the exit
  of the process.\<close>

record run_end =
  e_child :: "supervisor option"
  e_asked :: "string list"
  e_exit :: exit_how

definition early_end :: "string \<Rightarrow> run_end" where
  "early_end e = \<lparr>e_child = None, e_asked = [], e_exit = ReturnErr e\<rparr>"

text \<open>The exit code is read before the child is stopped.\<close>

definition finish_run :: "run_world \<Rightarrow> string list \<Rightarrow> main_state \<Rightarrow> loop_end \<Rightarrow> run_end" where
  "finish_run w ok s e =
    (let code = (if e = ByChildDeath then exit_code (fst (fst s)) else None);
         sv = stop (w_env w) (final_proc w) (final_status w) (fst s);
         (asked, r) = stop_all (w_calls w) ok
     in \<lparr>e_child = Some sv, e_asked = asked,
         e_exit = (case r of
           Some er \<Rightarrow> ReturnErr er
         | None \<Rightarrow> (case code of Some n \<Rightarrow> ExitWith n | None \<Rightarrow> ReturnOk))\<rparr>)"

definition initial_child :: "config \<Rightarrow> supervisor" where
  "initial_child c = (child_new (process c), \<lparr>open_pidfds = [], reapers = [], sent = []\<rparr>)"

text \<open>The run once its configuration is known; \<^const>\<open>None\<close> while it is still waiting.\<close>

definition run_with :: "run_world \<Rightarrow> string list \<Rightarrow> config \<Rightarrow> run_end option" where
  "run_with w caps c =
    (case start_all (w_calls w) caps [] [] of
       (Inl e, outs, ok) \<Rightarrow> Some (early_end e)
     | (Inr u, outs, ok) \<Rightarrow>
         (case start (w_spawn w) (w_fd w) (initial_child c) of
            (Some e, sv) \<Rightarrow> Some (early_end e)
          | (None, sv) \<Rightarrow>
              (case main_loop (pidfd (fst sv) \<noteq> None) (w_turns w) (sv, False) of
                 (s, None) \<Rightarrow> None
               | (s, Some e) \<Rightarrow> Some (finish_run w ok s e))))"

definition run_shim ::
  "validators \<Rightarrow> env \<Rightarrow> (string + config) option \<Rightarrow> string option \<Rightarrow> string list \<Rightarrow> (string \<Rightarrow> bool) \<Rightarrow> run_world
   \<Rightarrow> run_end option" where
  "run_shim v env from_file cmd extra feature w =
    (case effective_config v env from_file cmd extra of
       Inl e \<Rightarrow> Some (early_end e)
     | Inr c \<Rightarrow> run_with w (build_capabilities feature) c)"

section \<open>The command line\<close>

lemma trim_start_once:
  "p \<noteq> [] \<Longrightarrow> trim_start_matches (p @ s) p = trim_start_matches s p"
  by (simp add: trim_start_matches.simps [of "p @ s"])

text \<open>Arguments after the command are never dropped: those of the command line come last.\<close>

lemma cli_args_kept:
  assumes "extra \<noteq> []"
  shows "\<exists>pre. args (process (cli_override (Some s) extra c)) = pre @ extra"
  using assms by (auto simp: cli_override_def Let_def)

text \<open>An HTTP health check only connects: the path and the answer play no part.\<close>

lemma http_check_only_connects:
  "run_healthcheck connect None (Some url) = run_healthcheck connect (Some (http_host_port url)) None"
  by (simp add: run_healthcheck_def)

section \<open>Starting capabilities\<close>

definition starts :: "(string \<Rightarrow> capability_calls) \<Rightarrow> string \<Rightarrow> bool" where
  "starts calls n = (on_init (calls n) = None \<and> on_start (calls n) = None)"

lemma start_all_spec:
  "start_all calls ns outs ok = (r, outs', ok') \<Longrightarrow>
    (r = Inr () \<longleftrightarrow> (\<forall>n \<in> set ns. n \<in> set CRITICAL_CAPABILITIES \<longrightarrow> starts calls n))
    \<and> (r = Inr () \<longrightarrow> ok' = ok @ filter (starts calls) ns \<and> map oc_name outs' = map oc_name outs @ ns
        \<and> filter started outs' = filter started outs @ map (\<lambda>n. \<lparr>oc_name = n, started = True, oc_error = None\<rparr>) (filter (starts calls) ns))"
proof (induction calls ns outs ok rule: start_all.induct)
  case (2 calls n ns outs ok)
  show ?case
  proof (cases "on_init (calls n)")
    case None
    show ?thesis
    proof (cases "on_start (calls n)")
      case none: None
      then show ?thesis
        using 2 None by (auto simp: starts_def)
    next
      case (Some e)
      then show ?thesis
        using 2 None by (auto simp: starts_def Let_def split: if_splits)
    qed
  next
    case (Some e)
    then show ?thesis
      using 2 by (auto simp: starts_def Let_def split: if_splits)
  qed
qed auto

text \<open>C5: Starting degrades gracefully.  The run goes on exactly when every critical capability of the build starts; the
  capabilities that are then running are those of the build whose calls succeed, in the order of the build, and there
  is one outcome for each.\<close>

theorem startup_degrades_gracefully:
  assumes "start_all calls (build_capabilities feature) [] [] = (r, outs, ok)"
  shows "(r = Inr () \<longleftrightarrow> (\<forall>n \<in> {''health'', ''migration''}. feature n \<longrightarrow> starts calls n))
    \<and> (r = Inr () \<longrightarrow> ok = filter (\<lambda>n. feature n \<and> starts calls n) capability_order
        \<and> map oc_name outs = build_capabilities feature
        \<and> length (filter started outs) = length ok
        \<and> (all_critical_healthy ok \<longleftrightarrow> feature ''health'' \<and> feature ''migration''))"
proof -
  have spec: "(r = Inr () \<longleftrightarrow> (\<forall>n \<in> set (build_capabilities feature). n \<in> set CRITICAL_CAPABILITIES \<longrightarrow> starts calls n))
    \<and> (r = Inr () \<longrightarrow> ok = filter (starts calls) (build_capabilities feature) \<and> map oc_name outs = build_capabilities feature
        \<and> filter started outs = map (\<lambda>n. \<lparr>oc_name = n, started = True, oc_error = None\<rparr>) (filter (starts calls) (build_capabilities feature)))"
    using start_all_spec [OF assms] by simp
  have crit: "(\<forall>n \<in> set (build_capabilities feature). n \<in> set CRITICAL_CAPABILITIES \<longrightarrow> starts calls n)
      \<longleftrightarrow> (\<forall>n \<in> {''health'', ''migration''}. feature n \<longrightarrow> starts calls n)"
    by (auto simp: build_capabilities_def CRITICAL_CAPABILITIES_def capability_order_def)
  have filt: "filter (starts calls) (build_capabilities feature) = filter (\<lambda>n. feature n \<and> starts calls n) capability_order"
    by (simp only: build_capabilities_def filter_filter)
  have "''health'' \<in> set capability_order" "''migration'' \<in> set capability_order"
    by (simp_all add: capability_order_def)
  then have "all_critical_healthy (filter (\<lambda>n. feature n \<and> starts calls n) capability_order)
      \<longleftrightarrow> feature ''health'' \<and> feature ''migration''"
    if "\<forall>n \<in> {''health'', ''migration''}. feature n \<longrightarrow> starts calls n"
    using that by (auto simp: all_critical_healthy_def CRITICAL_CAPABILITIES_def)
  then show ?thesis
    using spec unfolding crit filt by simp
qed

definition sample_calls :: "string \<Rightarrow> capability_calls" where
  "sample_calls n = \<lparr>on_init = None, on_start = (if n = ''vault'' then Some ''refused'' else None), on_stop = None\<rparr>"

theorem startup_degrades_gracefully_witness:
  "fst (start_all sample_calls (build_capabilities (\<lambda>n. n \<in> {''health'', ''vault'', ''audit''})) [] []) = Inr ()"
proof -
  obtain r outs ok where r: "start_all sample_calls (build_capabilities (\<lambda>n. n \<in> {''health'', ''vault'', ''audit''})) [] [] = (r, outs, ok)"
    by (metis surj_pair)
  show ?thesis
    using startup_degrades_gracefully [OF r] r by (simp add: starts_def sample_calls_def)
qed

section \<open>Stopping\<close>

text \<open>Up to and including the first that fails.\<close>

definition asked_to_stop :: "(string \<Rightarrow> capability_calls) \<Rightarrow> string list \<Rightarrow> string list" where
  "asked_to_stop calls ns =
    takeWhile (\<lambda>n. on_stop (calls n) = None) ns @ take 1 (dropWhile (\<lambda>n. on_stop (calls n) = None) ns)"

definition stop_failure :: "(string \<Rightarrow> capability_calls) \<Rightarrow> string list \<Rightarrow> string option" where
  "stop_failure calls ns = Option.bind (find (\<lambda>n. on_stop (calls n) \<noteq> None) ns) (\<lambda>n. on_stop (calls n))"

lemma stop_each_spec: "stop_each calls ns = (asked_to_stop calls ns, stop_failure calls ns)"
  by (induction ns) (auto simp: asked_to_stop_def stop_failure_def split: option.split)

lemma all_stop:
  assumes "\<forall>n \<in> set ns. on_stop (calls n) = None"
  shows "asked_to_stop calls ns = ns" "stop_failure calls ns = None"
  using assms by (induction ns) (simp_all add: asked_to_stop_def stop_failure_def)

section \<open>The waiting loop\<close>

definition main_ok :: "main_state \<Rightarrow> bool" where
  "main_ok s = (child_ok (fst s) \<and> tidy (fst s))"

lemma stop_no_pid: "cp_pid (fst (stop env proc status s)) = None"
  using stop_stopped [of s env proc status]
  by (cases "cp_pid (fst s) = None") (auto simp: stop_def case_prod_unfold)

lemma start_keeps_ok:
  assumes "child_ok s" "tidy s" "cp_pid (fst s) = None"
  shows "child_ok (snd (start spawned fd s)) \<and> tidy (snd (start spawned fd s))"
  using assms start_ok tidy_exec [of s "Start spawned fd"] by simp

lemma child_exited_ok:
  assumes "main_ok s"
  shows "case child_exited t s of Inl s' \<Rightarrow> main_ok s' \<and> \<not> snd s \<and> snd s' | Inr (s', e) \<Rightarrow> main_ok s'"
proof -
  obtain sv retried where s: "s = (sv, retried)"
    by (cases s)
  let ?sv1 = "stop (t_env t) (stop_proc t) (stop_status t) sv"
  have "child_ok ?sv1 \<and> tidy ?sv1"
    using assms s stop_ok tidy_stop by (simp add: main_ok_def)
  then have "child_ok (snd (start (respawn t) (refd t) ?sv1)) \<and> tidy (snd (start (respawn t) (refd t) ?sv1))"
    using start_keeps_ok stop_no_pid by blast
  then show ?thesis
    using assms s by (auto simp: child_exited_def main_ok_def Let_def split: prod.splits option.splits)
qed

lemma main_turn_ok:
  assumes "main_ok s"
  shows "case main_turn use_fd t s of Inl s' \<Rightarrow> main_ok s' \<and> (snd s \<longrightarrow> snd s') | Inr (s', e) \<Rightarrow> main_ok s'"
  using child_exited_ok [OF assms, of t] assms
  by (auto simp: main_turn_def split: wake.splits sum.splits)

lemma main_loop_ok: "main_ok s \<Longrightarrow> main_ok (fst (main_loop use_fd ts s))"
proof (induction use_fd ts s rule: main_loop.induct)
  case (2 use_fd t ts s)
  then show ?case
    using main_turn_ok [of s use_fd t] by (auto split: sum.splits)
qed simp

text \<open>The restarts of a run: the turns in which the child is started again.\<close>

fun restarts :: "bool \<Rightarrow> turn list \<Rightarrow> main_state \<Rightarrow> nat" where
  "restarts use_fd [] s = 0"
| "restarts use_fd (t # ts) s =
    (case main_turn use_fd t s of
       Inl s' \<Rightarrow> (if snd s' \<and> \<not> snd s then 1 else 0) + restarts use_fd ts s'
     | Inr _ \<Rightarrow> 0)"

lemma restarts_bound: "main_ok s \<Longrightarrow> restarts use_fd ts s \<le> (if snd s then 0 else 1)"
proof (induction use_fd ts s rule: restarts.induct)
  case (2 use_fd t ts s)
  show ?case
  proof (cases "main_turn use_fd t s")
    case (Inl s')
    then show ?thesis
      using 2 main_turn_ok [OF 2(2), of use_fd t] by (auto split: if_splits)
  qed simp
qed simp

section \<open>How the process ends\<close>

lemma initial_child_ok: "child_ok (initial_child c)"
  by (simp add: child_ok_def initial_child_def child_new_def with_db_type_def)

lemma initial_child_tidy: "tidy (initial_child c)" "cp_pid (fst (initial_child c)) = None"
  by (simp_all add: tidy_def initial_child_def child_new_def with_db_type_def)

lemma run_withE:
  assumes "run_with w caps c = Some r"
  obtains e where "r = early_end e"
    "(\<exists>n \<in> set caps. n \<in> set CRITICAL_CAPABILITIES \<and> \<not> starts (w_calls w) n)
      \<or> fst (start (w_spawn w) (w_fd w) (initial_child c)) \<noteq> None"
  | outs ok sv s how where "start_all (w_calls w) caps [] [] = (Inr (), outs, ok)"
    "start (w_spawn w) (w_fd w) (initial_child c) = (None, sv)"
    "main_loop (pidfd (fst sv) \<noteq> None) (w_turns w) (sv, False) = (s, Some how)" "main_ok s" "r = finish_run w ok s how"
proof -
  obtain x outs ok where x: "start_all (w_calls w) caps [] [] = (x, outs, ok)"
    by (metis surj_pair)
  obtain er sv where st: "start (w_spawn w) (w_fd w) (initial_child c) = (er, sv)"
    by (metis surj_pair)
  obtain s how where lp: "main_loop (pidfd (fst sv) \<noteq> None) (w_turns w) (sv, False) = (s, how)"
    by (metis surj_pair)
  have "child_ok sv \<and> tidy sv"
    using start_keeps_ok [OF initial_child_ok initial_child_tidy, of "w_spawn w" "w_fd w" c] st by simp
  then have ok: "main_ok s"
    using main_loop_ok [of "(sv, False)" "pidfd (fst sv) \<noteq> None" "w_turns w"] lp by (simp add: main_ok_def)
  have crit: "\<exists>n \<in> set caps. n \<in> set CRITICAL_CAPABILITIES \<and> \<not> starts (w_calls w) n" if "x = Inl e" for e
    using start_all_spec [OF x] that by auto
  show thesis
  proof (cases x)
    case (Inl e)
    then show thesis
      using assms x crit that(1) [of e] unfolding run_with_def by simp
  next
    case (Inr u)
    show thesis
    proof (cases er)
      case (Some e)
      then show thesis
        using assms x Inr st that(1) [of e] unfolding run_with_def by simp
    next
      case None
      then show thesis
        using assms x Inr st lp ok that(2) unfolding run_with_def by (cases how) simp_all
    qed
  qed
qed

text \<open>The exit status of the child is never passed on.  However a run ends -- also when the child has died, with
  whatever status -- the process ends without an exit code of the child: with success when every capability stops, and
  with the error of the first that does not.  A container runtime that restarts on failure is therefore never told.\<close>

theorem child_exit_code_lost:
  assumes "run_with w caps c = Some r"
  shows "\<forall>n. e_exit r \<noteq> ExitWith n"
  using assms
proof (cases rule: run_withE)
  case (1 e)
  then show ?thesis
    by (simp add: early_end_def)
next
  case (2 outs ok sv s how)
  have "exit_code (fst (fst s)) = None"
    using 2(4) by (simp add: main_ok_def child_ok_def case_prod_unfold)
  then show ?thesis
    using 2(5) by (simp add: finish_run_def Let_def case_prod_unfold split: option.splits)
qed

text \<open>C12: What a run leaves behind when it ends.  Either it gave up before waiting, which happens exactly when a critical
  capability of the build does not start or the child cannot be started: then it ends with an error, and none of the
  capabilities that had been started is asked to stop.  Or it waited: then the child has no process id, no handle and no
  descriptor left, and the capabilities that had been started are asked to stop in the reverse order of their
  start, up to and including the first that fails to stop, whose error is the result of the run; those started before
  that one are never asked.\<close>

theorem run_cleans_up:
  assumes "run_with w caps c = Some r" "ns = rev (filter (starts (w_calls w)) caps)"
  shows "(e_child r = None \<longleftrightarrow>
      (\<exists>n \<in> set caps. n \<in> set CRITICAL_CAPABILITIES \<and> \<not> starts (w_calls w) n)
      \<or> fst (start (w_spawn w) (w_fd w) (initial_child c)) \<noteq> None)
    \<and> (case e_child r of
         None \<Rightarrow> e_asked r = [] \<and> (\<exists>e. e_exit r = ReturnErr e)
       | Some sv \<Rightarrow>
           cp_pid (fst sv) = None \<and> cp_state (fst sv) = Stopped \<and> \<not> cp_child (fst sv) \<and> open_pidfds (snd sv) = []
           \<and> e_asked r = takeWhile (\<lambda>n. on_stop (w_calls w n) = None) ns
               @ take 1 (dropWhile (\<lambda>n. on_stop (w_calls w n) = None) ns)
           \<and> e_exit r = (case Option.bind (find (\<lambda>n. on_stop (w_calls w n) \<noteq> None) ns) (\<lambda>n. on_stop (w_calls w n)) of
               None \<Rightarrow> ReturnOk | Some e \<Rightarrow> ReturnErr e))"
  using assms(1)
proof (cases rule: run_withE)
  case (1 e)
  then show ?thesis
    by (simp add: early_end_def)
next
  case (2 outs ok sv0 s how)
  have ok: "rev ok = ns" and crit: "\<forall>n \<in> set caps. n \<in> set CRITICAL_CAPABILITIES \<longrightarrow> starts (w_calls w) n"
    using start_all_spec [OF 2(1)] assms(2) by simp_all
  let ?sv = "stop (w_env w) (final_proc w) (final_status w) (fst s)"
  have code: "exit_code (fst (fst s)) = None"
    using 2(4) by (simp add: main_ok_def child_ok_def case_prod_unfold)
  have "child_ok ?sv" "tidy ?sv"
    using 2(4) by (simp_all add: main_ok_def stop_ok tidy_stop)
  then have child: "cp_pid (fst ?sv) = None \<and> cp_state (fst ?sv) = Stopped \<and> \<not> cp_child (fst ?sv) \<and> open_pidfds (snd ?sv) = []"
    using stop_no_pid [of "w_env w" "final_proc w" "final_status w" "fst s"]
    by (simp add: child_ok_def tidy_def case_prod_unfold)
  have r: "e_child r = Some ?sv" "e_asked r = asked_to_stop (w_calls w) ns"
    "e_exit r = (case stop_failure (w_calls w) ns of None \<Rightarrow> ReturnOk | Some e \<Rightarrow> ReturnErr e)"
    using 2(5) code by (simp_all add: finish_run_def stop_all_def stop_each_spec ok Let_def split: option.split)
  show ?thesis
    using 2(2) crit child by (simp only: r option.case asked_to_stop_def stop_failure_def) auto
qed

definition sample_turn :: turn where
  "sample_turn = \<lparr>shutdown_requested = False, t_status = None, elapsed_secs = 60, t_env = (\<lambda>_. None),
     stop_proc = sample_process 0, stop_status = None, respawn = Inl ''gone'', refd = None, woken = Nothing\<rparr>"

definition sample_run_world :: run_world where
  "sample_run_world = \<lparr>w_calls = sample_calls, w_spawn = Inr (Some 42), w_fd = Some 7, w_turns = [sample_turn],
     w_env = (\<lambda>_. None), final_proc = sample_process 0, final_status = None\<rparr>"

lemma sample_run_ends:
  "\<exists>r sv. run_with sample_run_world [''health'', ''audit''] config_default = Some r \<and> e_child r = Some sv"
  by (simp add: run_with_def sample_run_world_def sample_calls_def start_def initial_child_def child_new_def with_db_type_def
      main_turn_def sample_turn_def is_running_def child_exited_def config_default_def process_config_default_def
      finish_run_def stop_all_def Let_def)

theorem child_exit_code_lost_witness:
  "\<exists>r. run_with sample_run_world [''health'', ''audit''] config_default = Some r \<and> e_exit r \<noteq> ExitWith 137"
  using sample_run_ends child_exit_code_lost by blast

theorem run_cleans_up_witness:
  "\<exists>r. run_with sample_run_world [''health'', ''audit''] config_default = Some r \<and> e_asked r = [''audit'', ''health'']
    \<and> e_exit r = ReturnOk"
proof -
  obtain r sv where "run_with sample_run_world [''health'', ''audit''] config_default = Some r" "e_child r = Some sv"
    using sample_run_ends by blast
  then show ?thesis
    using run_cleans_up [of sample_run_world "[''health'', ''audit'']" config_default r, OF _ refl]
    by (simp add: sample_run_world_def sample_calls_def starts_def)
qed

section \<open>What ends the waiting\<close>

text \<open>Within its grace period the child is started again at most once in a run, and its next death ends the run.  A
  hang-up signal, which the signal handler does not count as a request to shut down, ends the loop like any other.\<close>

theorem waiting_loop_ends:
  assumes "main_ok s"
  shows "restarts use_fd ts s \<le> 1
    \<and> (\<not> shutdown_requested t \<and> is_running (t_status t) (fst (fst s)) \<and> woken t = Signalled SigHup \<longrightarrow>
        main_loop use_fd (t # ts) s = (s, Some BySignal))
    \<and> (\<not> shutdown_requested t \<and> \<not> is_running (t_status t) (fst (fst s)) \<and> snd s \<longrightarrow>
        main_loop use_fd (t # ts) s = (s, Some ByChildDeath))"
proof -
  have "restarts use_fd ts s \<le> 1"
    using restarts_bound [OF assms, of use_fd ts] by (simp split: if_splits)
  then show ?thesis
    by (auto simp: main_turn_def child_exited_def split: prod.splits)
qed

theorem waiting_loop_ends_witness:
  "main_loop True [sample_turn] (initial_child config_default, True) = ((initial_child config_default, True), Some ByChildDeath)"
  using waiting_loop_ends [of "(initial_child config_default, True)" True "[]" sample_turn] initial_child_ok
  by (simp add: main_ok_def initial_child_tidy sample_turn_def is_running_def)

end
