(* ===== verification/Databases.thy ===== *)
theory Databases
  imports Config
begin

text \<open>
  The shims for further databases: \<^verbatim>\<open>mongodb-shim\<close>, \<^verbatim>\<open>cockroachdb-shim\<close>, \<^verbatim>\<open>cassandra-shim\<close>, \<^verbatim>\<open>elasticsearch-shim\<close> and
  \<^verbatim>\<open>dynamodb-shim\<close>.  What the tools, the SQL driver, the HTTP and AWS clients answer is a parameter; so is the retry
  helper of the crate \<^verbatim>\<open>loop-retry\<close>, which is given the number of retries and the attempts.
\<close>

type_synonym ('e, 'a) retrier = "nat \<Rightarrow> (nat \<Rightarrow> 'e + 'a) \<Rightarrow> 'e + 'a"

definition as_u32 :: "nat \<Rightarrow> nat" where
  "as_u32 n = n mod 2 ^ 32"

definition u64_or_zero :: "json \<Rightarrow> nat" where
  "u64_or_zero j = (case json_u64 j of Some n \<Rightarrow> n | None \<Rightarrow> 0)"

definition str_or :: "string \<Rightarrow> json \<Rightarrow> string" where
  "str_or d j = (case json_str j of Some s \<Rightarrow> s | None \<Rightarrow> d)"

section \<open>MongoDB\<close>

record mongo_health =
  mh_ok :: bool
  mh_version :: string
  mh_connections :: nat
  mh_uptime_secs :: nat

record mongo_backup =
  mb_path :: string
  mb_size_bytes :: nat
  mb_timestamp :: time
  mb_database :: string
  mb_success :: bool
  mb_error :: "string option"

record mongo_shim =
  mg_uri :: string
  mg_database :: string
  mg_backup_dir :: string
  mg_backup_cmd :: string
  mg_retention_days :: nat
  mg_health_checks :: nat
  mg_backup_success :: nat
  mg_backup_failure :: nat
  mg_last_backup :: "time option"

definition mongo_new :: "env \<Rightarrow> mongo_shim" where
  "mongo_new env =
    \<lparr>mg_uri = env_str env ''MONGO_URI'' ''mongodb://localhost:27017'', mg_database = env_str env ''MONGO_DATABASE'' [],
     mg_backup_dir = env_str env ''MONGO_BACKUP_DIR'' ''/tmp/mongo-backups'',
     mg_backup_cmd = env_str env ''MONGO_BACKUP_CMD'' ''mongodump'',
     mg_retention_days = env_uint 32 env ''MONGO_RETENTION_DAYS'' 30,
     mg_health_checks = 0, mg_backup_success = 0, mg_backup_failure = 0, mg_last_backup = None\<rparr>"

text \<open>One run of \<^verbatim>\<open>mongosh\<close>; the parser of its output is a parameter.\<close>

definition mongo_attempt :: "(string \<Rightarrow> string + json) \<Rightarrow> command_output \<Rightarrow> string + mongo_health" where
  "mongo_attempt parse r =
    (case r of
       NotRun e \<Rightarrow> Inl (''mongosh execution failed: '' @ e)
     | ExitFailure err \<Rightarrow> Inl (''mongosh failed: '' @ err)
     | ExitSuccess out \<Rightarrow>
         (case parse out of
            Inl e \<Rightarrow> Inl (''Failed to parse serverStatus: '' @ e)
          | Inr st \<Rightarrow> Inr
              \<lparr>mh_ok = (json_field ''ok'' st = JNum 1), mh_version = str_or ''unknown'' (json_field ''version'' st),
               mh_connections = as_u32 (u64_or_zero (json_field ''current'' (json_field ''connections'' st))),
               mh_uptime_secs = u64_or_zero (json_field ''uptime'' st)\<rparr>))"

definition mongo_check_health ::
  "(string, mongo_health) retrier \<Rightarrow> (string \<Rightarrow> string + json) \<Rightarrow> (nat \<Rightarrow> command_output) \<Rightarrow> mongo_shim
   \<Rightarrow> (string + mongo_health) \<times> mongo_shim" where
  "mongo_check_health retry parse run s =
    (retry 3 (\<lambda>k. mongo_attempt parse (run k)), s\<lparr>mg_health_checks := mg_health_checks s + 1\<rparr>)"

text \<open>What a backup meets: the directory, the command and the sizes of the entries of the directory.\<close>

record mongo_host =
  mkdir_error :: "string option"
  dump :: command_output
  dir_sizes :: "string + nat option list"
  mongo_now :: time

definition mongo_backup_path :: "mongo_shim \<Rightarrow> string" where
  "mongo_backup_path s = mg_backup_dir s @ ''/'' @ mg_database s"

definition mongo_do_backup :: "mongo_host \<Rightarrow> mongo_shim \<Rightarrow> (string + mongo_backup) \<times> mongo_shim" where
  "mongo_do_backup h s =
    (if mg_database s = [] then (Inl ''MONGO_DATABASE not set'', s)
     else
       (let result = (\<lambda>sz ok err. \<lparr>mb_path = mongo_backup_path s, mb_size_bytes = sz, mb_timestamp = mongo_now h,
              mb_database = mg_database s, mb_success = ok, mb_error = err\<rparr>)
        in case mkdir_error h of
             Some e \<Rightarrow> (Inl e, s)
           | None \<Rightarrow>
               (case dump h of
                  NotRun e \<Rightarrow> (Inl e, s)
                | ExitFailure err \<Rightarrow>
                    (Inr (result 0 False (Some err)), s\<lparr>mg_backup_failure := mg_backup_failure s + 1\<rparr>)
                | ExitSuccess out \<Rightarrow>
                    (case dir_sizes h of
                       Inl e \<Rightarrow> (Inl e, s)
                     | Inr sizes \<Rightarrow>
                         (Inr (result (sum_list (map (\<lambda>x. case x of Some n \<Rightarrow> n | None \<Rightarrow> 0) sizes)) True None),
                          s\<lparr>mg_backup_success := mg_backup_success s + 1, mg_last_backup := Some (mongo_now h)\<rparr>)))))"

definition mongo_metrics :: "mongo_shim \<Rightarrow> metric list" where
  "mongo_metrics s =
    [(''mongo_health_checks_total'', of_nat (mg_health_checks s)), (''mongo_backup_success_total'', of_nat (mg_backup_success s)),
     (''mongo_backup_failure_total'', of_nat (mg_backup_failure s))]"

section \<open>CockroachDB\<close>

record crdb_node =
  node_id :: int
  nd_address :: string
  locality :: string
  is_live :: bool
  ranges :: int
  leases :: int

record crdb_health =
  ch_ok :: bool
  ch_node_count :: nat
  ch_live_nodes :: nat
  ch_version :: string
  ch_uptime_secs :: nat

record crdb_shim =
  cr_host :: string
  cr_port :: nat
  cr_user :: string
  cr_password :: string
  cr_database :: string
  cr_url :: "string option"
  cr_health_checks :: nat
  cr_topology_queries :: nat

definition crdb_new :: "env \<Rightarrow> crdb_shim" where
  "crdb_new env =
    \<lparr>cr_host = env_str env ''CRDB_HOST'' ''localhost'', cr_port = env_uint 16 env ''CRDB_PORT'' 26257,
     cr_user = env_str env ''CRDB_USER'' ''root'', cr_password = env_str env ''CRDB_PASSWORD'' [],
     cr_database = env_str env ''CRDB_DATABASE'' ''defaultdb'', cr_url = env ''CRDB_URL'',
     cr_health_checks = 0, cr_topology_queries = 0\<rparr>"

definition connection_string :: "crdb_shim \<Rightarrow> string" where
  "connection_string s =
    (case cr_url s of
       Some url \<Rightarrow> url
     | None \<Rightarrow>
         (let place = ''@'' @ cr_host s @ '':'' @ show_nat (cr_port s) @ ''/'' @ cr_database s in
          if cr_password s = [] then ''postgresql://'' @ cr_user s @ place
          else ''postgresql://'' @ cr_user s @ '':'' @ cr_password s @ place))"

definition pg_isready_args :: "crdb_shim \<Rightarrow> string list" where
  "pg_isready_args s = [''-h'', cr_host s, ''-p'', show_nat (cr_port s), ''-U'', cr_user s]"

text \<open>The SQL connection, if it opens: the answers to the three queries, each of which can fail.\<close>

record crdb_answers =
  live_count :: "int option"
  all_count :: "int option"
  setting_version :: "string option"

definition i64_as_u32 :: "int \<Rightarrow> nat" where
  "i64_as_u32 n = nat (n mod 2 ^ 32)"

definition crdb_check_health ::
  "(string list \<Rightarrow> command_output) \<Rightarrow> (string \<Rightarrow> crdb_answers option) \<Rightarrow> crdb_shim \<Rightarrow> (string + crdb_health) \<times> crdb_shim" where
  "crdb_check_health pg connect s =
    (let s1 = s\<lparr>cr_health_checks := cr_health_checks s + 1\<rparr> in
     case pg (pg_isready_args s) of
       NotRun e \<Rightarrow> (Inl e, s1)
     | ExitFailure _ \<Rightarrow>
         (Inr \<lparr>ch_ok = False, ch_node_count = 1, ch_live_nodes = 0, ch_version = ''unknown'', ch_uptime_secs = 0\<rparr>, s1)
     | ExitSuccess _ \<Rightarrow>
         (case connect (connection_string s) of
            None \<Rightarrow>
              (Inr \<lparr>ch_ok = True, ch_node_count = 1, ch_live_nodes = 1, ch_version = ''unknown'', ch_uptime_secs = 0\<rparr>, s1)
          | Some a \<Rightarrow>
              (Inr \<lparr>ch_ok = True,
                 ch_node_count = (case all_count a of Some n \<Rightarrow> i64_as_u32 n | None \<Rightarrow> 1),
                 ch_live_nodes = (case live_count a of Some n \<Rightarrow> i64_as_u32 n | None \<Rightarrow> 1),
                 ch_version = (case setting_version a of Some v \<Rightarrow> v | None \<Rightarrow> ''unknown''), ch_uptime_secs = 0\<rparr>,
               s1\<lparr>cr_topology_queries := cr_topology_queries s1 + 1\<rparr>)))"

type_synonym node_row = "int \<times> string \<times> string \<times> bool \<times> int \<times> int"

definition crdb_get_topology :: "(string \<Rightarrow> string + node_row list) \<Rightarrow> crdb_shim \<Rightarrow> (string + crdb_node list) \<times> crdb_shim" where
  "crdb_get_topology query s =
    (let s1 = s\<lparr>cr_topology_queries := cr_topology_queries s + 1\<rparr> in
     case query (connection_string s) of
       Inl e \<Rightarrow> (Inl e, s1)
     | Inr rows \<Rightarrow>
         (Inr (map (\<lambda>(i, a, l, live, r, le). \<lparr>node_id = i, nd_address = a, locality = l, is_live = live, ranges = r, leases = le\<rparr>) rows), s1))"

definition crdb_metrics :: "crdb_shim \<Rightarrow> metric list" where
  "crdb_metrics s =
    [(''crdb_health_checks_total'', of_nat (cr_health_checks s)), (''crdb_topology_queries_total'', of_nat (cr_topology_queries s))]"

section \<open>Cassandra\<close>

record cassandra_health =
  cs_ok :: bool
  cs_cluster_name :: string
  cs_node_count :: nat
  cs_live_nodes :: nat
  cs_datacenter_count :: nat
  cs_version :: string

record cassandra_shim =
  ca_host :: string
  ca_port :: nat
  ca_jmx_port :: nat
  ca_cluster_name :: string
  ca_health_checks :: nat

definition cassandra_new :: "env \<Rightarrow> cassandra_shim" where
  "cassandra_new env =
    \<lparr>ca_host = env_str env ''CASSANDRA_HOST'' ''localhost'', ca_port = env_uint 16 env ''CASSANDRA_PORT'' 9042,
     ca_jmx_port = env_uint 16 env ''CASSANDRA_JMX_PORT'' 7199, ca_cluster_name = env_str env ''CASSANDRA_CLUSTER'' ''local'',
     ca_health_checks = 0\<rparr>"

definition is_node_line :: "string \<Rightarrow> bool" where
  "is_node_line l =
    (starts_with l ''UN'' \<or> starts_with l ''DN'' \<or> starts_with l ''UL'' \<or> starts_with l ''UM'' \<or> starts_with l ''UJ'')"

text \<open>The counts of nodes and live nodes and the set that is taken for the data centres.\<close>

definition scan_line :: "string \<Rightarrow> nat \<times> nat \<times> string set \<Rightarrow> nat \<times> nat \<times> string set" where
  "scan_line l acc =
    (case acc of (nodes, live, dcs) \<Rightarrow>
      (if is_node_line l then
         (nodes + 1, if starts_with l ''UN'' then live + 1 else live,
          let parts = split_ws [] l in if 4 \<le> length parts then insert (parts ! 3) dcs else dcs)
       else acc))"

definition cluster_name_of :: "string list \<Rightarrow> string \<Rightarrow> string" where
  "cluster_name_of ls d =
    (case find (\<lambda>l. contains l ''Datacenter:'') ls of
       Some l \<Rightarrow> (case split_ws [] l of _ # n # _ \<Rightarrow> n | _ \<Rightarrow> d)
     | None \<Rightarrow> d)"

definition cassandra_version_of :: "string list \<Rightarrow> string" where
  "cassandra_version_of ls =
    trim (case find (\<lambda>l. contains l ''Release version:'') ls of
            Some l \<Rightarrow> (case split_on (CHR '':'') l of _ # v # _ \<Rightarrow> v | _ \<Rightarrow> ''unknown'')
          | None \<Rightarrow> ''unknown'')"

definition cassandra_parse :: "string \<Rightarrow> string \<Rightarrow> cassandra_health" where
  "cassandra_parse out name =
    (let ls = str_lines out; (nodes, live, dcs) = fold scan_line ls (0, 0, {}) in
     \<lparr>cs_ok = (0 < live), cs_cluster_name = cluster_name_of ls name, cs_node_count = nodes, cs_live_nodes = live,
      cs_datacenter_count = card dcs, cs_version = cassandra_version_of ls\<rparr>)"

definition cassandra_check_health ::
  "(string list \<Rightarrow> command_output) \<Rightarrow> cassandra_shim \<Rightarrow> (string + cassandra_health) \<times> cassandra_shim" where
  "cassandra_check_health nodetool s =
    (let s1 = s\<lparr>ca_health_checks := ca_health_checks s + 1\<rparr> in
     (case nodetool [''-h'', ca_host s, ''-p'', show_nat (ca_jmx_port s), ''status''] of
        NotRun e \<Rightarrow> Inl e
      | ExitFailure err \<Rightarrow> Inl (''nodetool status failed: '' @ err)
      | ExitSuccess out \<Rightarrow> Inr (cassandra_parse out (ca_cluster_name s)), s1))"

section \<open>Elasticsearch\<close>

record es_health =
  es_status :: string
  es_cluster_name :: string
  es_node_count :: nat
  active_shards :: nat
  relocating_shards :: nat
  initializing_shards :: nat
  unassigned_shards :: nat

record es_shim =
  es_url :: string
  es_index :: string
  snapshot_repo :: string
  es_health_checks :: nat

definition es_new :: "env \<Rightarrow> es_shim" where
  "es_new env =
    \<lparr>es_url = env_str env ''ES_URL'' ''http://localhost:9200'', es_index = env_str env ''ES_INDEX'' [],
     snapshot_repo = env_str env ''ES_SNAPSHOT_REPO'' [], es_health_checks = 0\<rparr>"

definition es_count :: "string \<Rightarrow> json \<Rightarrow> nat" where
  "es_count k v = as_u32 (u64_or_zero (json_field k v))"

definition es_health_of :: "json \<Rightarrow> es_health" where
  "es_health_of v =
    \<lparr>es_status = str_or ''unknown'' (json_field ''status'' v), es_cluster_name = str_or ''unknown'' (json_field ''cluster_name'' v),
     es_node_count = es_count ''number_of_nodes'' v, active_shards = es_count ''active_shards'' v,
     relocating_shards = es_count ''relocating_shards'' v, initializing_shards = es_count ''initializing_shards'' v,
     unassigned_shards = es_count ''unassigned_shards'' v\<rparr>"

text \<open>An attempt gives an error of the transport or of the JSON, or a body, with whatever status.\<close>

definition es_check_health ::
  "(string, es_health) retrier \<Rightarrow> (string \<Rightarrow> nat \<Rightarrow> string + nat \<times> json) \<Rightarrow> es_shim \<Rightarrow> (string + es_health) \<times> es_shim" where
  "es_check_health retry get s =
    (retry 3 (\<lambda>k. case get (es_url s @ ''/_cluster/health'') k of Inl e \<Rightarrow> Inl e | Inr (code, v) \<Rightarrow> Inr (es_health_of v)),
     s\<lparr>es_health_checks := es_health_checks s + 1\<rparr>)"

definition create_snapshot_repo :: "(string \<Rightarrow> json option \<Rightarrow> string + nat) \<Rightarrow> string \<Rightarrow> string \<Rightarrow> es_shim \<Rightarrow> string option" where
  "create_snapshot_repo put repo location s =
    (case put (es_url s @ ''/_snapshot/'' @ repo)
            (Some (JObj [(''type'', JStr ''fs''), (''settings'', JObj [(''location'', JStr location)])])) of
       Inl e \<Rightarrow> Some e
     | Inr code \<Rightarrow> None)"

definition create_snapshot :: "(string \<Rightarrow> json option \<Rightarrow> string + nat) \<Rightarrow> string \<Rightarrow> string \<Rightarrow> es_shim \<Rightarrow> string option" where
  "create_snapshot put repo snap s =
    (case put (es_url s @ ''/_snapshot/'' @ repo @ ''/'' @ snap) None of Inl e \<Rightarrow> Some e | Inr code \<Rightarrow> None)"

section \<open>DynamoDB\<close>

record dynamo_health =
  dh_ok :: bool
  table_count :: nat
  tables :: "string list"

record dynamo_shim =
  region :: string
  endpoint :: "string option"
  dy_table :: string
  dy_health_checks :: nat
  backup_exports :: nat

definition dynamo_new :: "env \<Rightarrow> dynamo_shim" where
  "dynamo_new env =
    \<lparr>region = env_str env ''DYNAMODB_REGION'' ''us-east-1'', endpoint = env ''DYNAMODB_ENDPOINT'',
     dy_table = env_str env ''DYNAMODB_TABLE'' [], dy_health_checks = 0, backup_exports = 0\<rparr>"

text \<open>\<^verbatim>\<open>list_tables\<close> with a limit of 100.\<close>

definition dynamo_check_health :: "(nat \<Rightarrow> string + string list) \<Rightarrow> dynamo_shim \<Rightarrow> (string + dynamo_health) \<times> dynamo_shim" where
  "dynamo_check_health list_tables s =
    ((case list_tables 100 of
        Inl e \<Rightarrow> Inl e
      | Inr names \<Rightarrow> Inr \<lparr>dh_ok = (0 < as_u32 (length names)), table_count = as_u32 (length names), tables = names\<rparr>),
     s\<lparr>dy_health_checks := dy_health_checks s + 1\<rparr>)"

record table_description =
  td_items :: "int option"
  td_size :: "int option"
  td_status :: "string option"
  td_billing :: "string option"
  td_throughput :: "(int option \<times> int option) option"

record dynamo_table_info =
  ti_name :: string
  item_count :: nat
  table_size_bytes :: nat
  ti_status :: string
  billing_mode :: string
  read_capacity :: int
  write_capacity :: int

definition or_zero :: "int option \<Rightarrow> int" where
  "or_zero x = (case x of Some n \<Rightarrow> n | None \<Rightarrow> 0)"

definition describe_table :: "(string \<Rightarrow> string + table_description option) \<Rightarrow> string \<Rightarrow> string + dynamo_table_info" where
  "describe_table describe n =
    (case describe n of
       Inl e \<Rightarrow> Inl e
     | Inr None \<Rightarrow> Inl ''No table in response''
     | Inr (Some t) \<Rightarrow> Inr
         \<lparr>ti_name = n, item_count = nat (or_zero (td_items t) mod 2 ^ 64), table_size_bytes = nat (or_zero (td_size t) mod 2 ^ 64),
          ti_status = (case td_status t of Some x \<Rightarrow> x | None \<Rightarrow> ''Unknown''),
          billing_mode = (case td_billing t of Some x \<Rightarrow> x | None \<Rightarrow> ''PayPerRequest''),
          read_capacity = (case td_throughput t of Some (r, _) \<Rightarrow> or_zero r | None \<Rightarrow> 0),
          write_capacity = (case td_throughput t of Some (_, w) \<Rightarrow> or_zero w | None \<Rightarrow> 0)\<rparr>)"

definition dynamo_metrics :: "dynamo_shim \<Rightarrow> metric list" where
  "dynamo_metrics s =
    [(''dynamo_health_checks_total'', of_nat (dy_health_checks s)), (''dynamo_backup_exports_total'', of_nat (backup_exports s))]"

section \<open>Retried health checks\<close>

text \<open>What the retry helper documents, for errors that may all be retried: the first attempt that succeeds, up to the
  number of retries, and otherwise the last error.\<close>

definition first_success :: "('e, 'a) retrier" where
  "first_success n att =
    (case find (\<lambda>k. \<exists>a. att k = Inr a) [0..<Suc n] of Some k \<Rightarrow> att k | None \<Rightarrow> att n)"

definition retries_ok :: "('e, 'a) retrier \<Rightarrow> bool" where
  "retries_ok retry = (\<forall>n att. retry n att = first_success n att)"

lemma first_success_Inr:
  "first_success n att = Inr a \<longleftrightarrow> (\<exists>k\<le>n. att k = Inr a \<and> (\<forall>j<k. \<forall>b. att j \<noteq> Inr b))"
proof
  assume first: "first_success n att = Inr a"
  show "\<exists>k\<le>n. att k = Inr a \<and> (\<forall>j<k. \<forall>b. att j \<noteq> Inr b)"
  proof (cases "find (\<lambda>k. \<exists>a. att k = Inr a) [0..<Suc n]")
    case None
    then have "\<forall>k\<le>n. \<forall>b. att k \<noteq> Inr b"
      unfolding find_None_iff by (auto simp: le_less)
    then show ?thesis
      using None first by (simp add: first_success_def)
  next
    case (Some k)
    then obtain i where i: "i < Suc n" "k = [0..<Suc n] ! i" "\<forall>j<i. \<not> (\<exists>a. att ([0..<Suc n] ! j) = Inr a)"
      unfolding find_Some_iff by auto
    have k: "k = i"
      using i(1,2) by (metis add_0 nth_upt)
    have before: "\<forall>b. att j \<noteq> Inr b" if "j < i" for j
      using i(1,3) that by (metis add_0 nth_upt less_trans)
    show ?thesis
      using Some first i(1) k before by (intro exI [of _ k]) (simp add: first_success_def)
  qed
next
  assume "\<exists>k\<le>n. att k = Inr a \<and> (\<forall>j<k. \<forall>b. att j \<noteq> Inr b)"
  then obtain k where k: "k \<le> n" "att k = Inr a" "\<forall>j<k. \<forall>b. att j \<noteq> Inr b"
    by blast
  have "find (\<lambda>k. \<exists>a. att k = Inr a) [0..<Suc n] = Some k"
    unfolding find_Some_iff using k by (intro exI [of _ k]) (auto simp: less_Suc_eq_le simp del: upt_Suc)
  then show "first_success n att = Inr a"
    using k(2) by (simp add: first_success_def)
qed

text \<open>The health check of MongoDB succeeds exactly when one of at most four runs of the shell gives a status that can be
  parsed, and then reports the first such run; whatever happens it counts as one check.\<close>

theorem mongo_health_retried:
  assumes "retries_ok retry"
  shows "(fst (mongo_check_health retry parse run s) = Inr h \<longleftrightarrow>
      (\<exists>k\<le>3. mongo_attempt parse (run k) = Inr h \<and> (\<forall>j<k. \<forall>b. mongo_attempt parse (run j) \<noteq> Inr b)))
    \<and> mg_health_checks (snd (mongo_check_health retry parse run s)) = mg_health_checks s + 1"
  using assms by (simp add: mongo_check_health_def retries_ok_def first_success_Inr)

theorem mongo_health_retried_witness:
  "fst (mongo_check_health first_success (\<lambda>_. Inr (JObj [(''ok'', JNum 1)])) (\<lambda>k. if k < 2 then NotRun ''busy'' else ExitSuccess ''{}'')
      (mongo_new (\<lambda>_. None))) =
    Inr \<lparr>mh_ok = True, mh_version = ''unknown'', mh_connections = 0, mh_uptime_secs = 0\<rparr>"
proof -
  have ok: "retries_ok first_success"
    by (simp add: retries_ok_def)
  show ?thesis
    using mongo_health_retried [OF ok, of "\<lambda>_. Inr (JObj [(''ok'', JNum 1)])" "\<lambda>k. if k < 2 then NotRun ''busy'' else ExitSuccess ''{}''"
        "mongo_new (\<lambda>_. None)" "\<lparr>mh_ok = True, mh_version = ''unknown'', mh_connections = 0, mh_uptime_secs = 0\<rparr>"]
    by (auto simp: mongo_attempt_def json_field_def json_get_def str_or_def json_str_def u64_or_zero_def json_u64_def as_u32_def
        intro!: exI [of _ 2])
qed

section \<open>Counting nodes\<close>

lemma scan_lines:
  "fold scan_line ls (nodes, live, dcs) =
    (nodes + length (filter is_node_line ls), live + length (filter (\<lambda>l. starts_with l ''UN'') ls),
     dcs \<union> {split_ws [] l ! 3 | l. l \<in> set ls \<and> is_node_line l \<and> 4 \<le> length (split_ws [] l)})"
proof (induction ls arbitrary: nodes live dcs)
  case (Cons l ls)
  have "starts_with l ''UN'' \<Longrightarrow> is_node_line l"
    by (simp add: is_node_line_def)
  then show ?case
    using Cons.IH by (auto simp: scan_line_def Let_def)
qed simp

text \<open>The health of a Cassandra cluster is read off the lines of \<^verbatim>\<open>nodetool status\<close>: the nodes are the lines with one of
  five state codes, the live ones those that are up and normal, and the cluster is healthy exactly when there is one
  of these.  What is counted as data centres is the fourth word of these lines; it never exceeds the nodes.\<close>

theorem cassandra_counts:
  "(let h = cassandra_parse out name; ls = str_lines out in
     cs_node_count h = length (filter is_node_line ls)
     \<and> cs_live_nodes h = length (filter (\<lambda>l. starts_with l ''UN'') ls)
     \<and> cs_live_nodes h \<le> cs_node_count h
     \<and> (cs_ok h \<longleftrightarrow> (\<exists>l \<in> set ls. starts_with l ''UN''))
     \<and> cs_datacenter_count h = card {split_ws [] l ! 3 | l. l \<in> set ls \<and> is_node_line l \<and> 4 \<le> length (split_ws [] l)}
     \<and> cs_datacenter_count h \<le> cs_node_count h)"
proof -
  let ?ls = "str_lines out"
  let ?dcs = "{split_ws [] l ! 3 | l. l \<in> set ?ls \<and> is_node_line l \<and> 4 \<le> length (split_ws [] l)}"
  have "length (filter (\<lambda>l. starts_with l ''UN'') ls) \<le> length (filter is_node_line ls)" for ls
    by (induction ls) (auto simp: is_node_line_def)
  moreover have "card ?dcs \<le> length (filter is_node_line ?ls)"
  proof -
    have "?dcs \<subseteq> (\<lambda>l. split_ws [] l ! 3) ` set (filter is_node_line ?ls)"
      by auto
    then have "card ?dcs \<le> card ((\<lambda>l. split_ws [] l ! 3) ` set (filter is_node_line ?ls))"
      by (intro card_mono) simp_all
    also have "\<dots> \<le> length (filter is_node_line ?ls)"
      by (metis card_image_le card_length finite_set le_trans)
    finally show ?thesis .
  qed
  moreover have "0 < length (filter (\<lambda>l. starts_with l ''UN'') ?ls) \<longleftrightarrow> (\<exists>l \<in> set ?ls. starts_with l ''UN'')"
    by (auto simp: filter_empty_conv)
  ultimately show ?thesis
    by (simp add: cassandra_parse_def scan_lines Let_def)
qed

text \<open>A line of \<^verbatim>\<open>nodetool status\<close> has the load before the data centre's name: its unit is what is counted.\<close>

lemma datacenter_is_unit:
  "split_ws [] ''UN  10.0.0.1  103.5 KiB  256  66.9%  8d64-1  rack1'' ! 3 = ''KiB''"
  by (simp add: is_space_def)

text \<open>A node that is down and leaving, moving or joining is not counted at all.\<close>

lemma down_moving_ignored: "\<not> is_node_line (''DL'' @ rest) \<and> \<not> is_node_line (''DM'' @ rest) \<and> \<not> is_node_line (''DJ'' @ rest)"
  by (simp add: is_node_line_def)

section \<open>What goes unnoticed\<close>

text \<open>Every backup of a MongoDB database goes to the same place: the second overwrites the first.\<close>

lemma mongo_backups_share_path:
  assumes "fst (mongo_do_backup h s) = Inr b" "fst (mongo_do_backup h' (snd (mongo_do_backup h s))) = Inr b'"
  shows "mb_path b' = mb_path b"
  using assms
  by (auto simp: mongo_do_backup_def mongo_backup_path_def Let_def split: if_splits option.splits command_output.splits sum.splits)

text \<open>A snapshot that the server refuses counts as created.\<close>

lemma refused_snapshot_created:
  "put (es_url s @ ''/_snapshot/'' @ repo @ ''/'' @ snap) None = Inr 500 \<Longrightarrow> create_snapshot put repo snap s = None"
  by (simp add: create_snapshot_def)

text \<open>The connection URL overrides the host for SQL, but not for the readiness check.\<close>

lemma url_not_probed:
  "pg_isready_args (s\<lparr>cr_url := Some url\<rparr>) = pg_isready_args s \<and> connection_string (s\<lparr>cr_url := Some url\<rparr>) = url"
  by (simp add: pg_isready_args_def connection_string_def)

text \<open>An account without tables is unhealthy.\<close>

lemma no_tables_unhealthy:
  "list_tables 100 = Inr [] \<Longrightarrow> \<exists>h. fst (dynamo_check_health list_tables s) = Inr h \<and> \<not> dh_ok h"
  by (simp add: dynamo_check_health_def as_u32_def)

end
