(* ===== verification/Exporter.thy ===== *)
theory Exporter
  imports Config
begin

text \<open>
  \<^verbatim>\<open>shim-core/src/metrics.rs\<close> and \<^verbatim>\<open>metrics_export.rs\<close>: the standard collectors, the exporter around them and its two
  routes; \<^verbatim>\<open>shim-core/src/structured_logging.rs\<close>: request contexts, tracked operations and request
  identifiers; and \<^verbatim>\<open>shim-core/src/error.rs\<close>: the errors with their texts.  A registry holds a list of families, each a
  name with its samples (the value of the label, if the family has one).  How the \<^verbatim>\<open>prometheus\<close> crate gathers a registry
  (it sorts the families and leaves out empty ones) and encodes the result as text are parameters.
\<close>

section \<open>Standard metrics\<close>

type_synonym family = "string \<times> (string option \<times> f64) list"

record shim_metrics =
  events_published :: nat
  events_dropped :: nat
  bus_subscribers :: f64
  health_status :: f64
  health_checks_total :: nat
  uptime_gauge :: f64
  errors_total :: "(string, nat) hmap"
  durations :: "f64 list"
  events_by_source :: "(string, nat) hmap"
  events_handled :: "(string, nat) hmap"
  custom :: "family list"

definition shim_metrics_new :: shim_metrics where
  "shim_metrics_new =
    \<lparr>events_published = 0, events_dropped = 0, bus_subscribers = 0, health_status = 0, health_checks_total = 0, uptime_gauge = 0,
     errors_total = [], durations = [], events_by_source = [], events_handled = [], custom = []\<rparr>"

definition standard_names :: "string list" where
  "standard_names =
    [''shim_events_published_total'', ''shim_events_dropped_total'', ''shim_bus_subscribers'', ''shim_health_status'',
     ''shim_health_checks_total'', ''shim_uptime_seconds'', ''shim_errors_total'', ''shim_operation_duration_seconds'',
     ''shim_events_by_source_total'', ''shim_events_handled_total'']"

definition record_error :: "string \<Rightarrow> shim_metrics \<Rightarrow> shim_metrics" where
  "record_error ty m = m\<lparr>errors_total := hm_bump ty (errors_total m)\<rparr>"

definition set_healthy :: "bool \<Rightarrow> shim_metrics \<Rightarrow> shim_metrics" where
  "set_healthy h m = m\<lparr>health_status := (if h then 1 else 0)\<rparr>"

text \<open>A collector whose name is taken is refused with a warning.\<close>

definition register_custom :: "family \<Rightarrow> shim_metrics \<Rightarrow> shim_metrics" where
  "register_custom f m =
    (if fst f \<in> set standard_names \<or> fst f \<in> set (map fst (custom m)) then m else m\<lparr>custom := custom m @ [f]\<rparr>)"

definition plain :: "string \<Rightarrow> f64 \<Rightarrow> family" where
  "plain n v = (n, [(None, v)])"

definition labelled :: "string \<Rightarrow> (string, nat) hmap \<Rightarrow> family" where
  "labelled n c = (n, map (\<lambda>(l, k). (Some l, of_nat k)) c)"

text \<open>Of the histogram the number of observations is kept here.\<close>

definition collectors :: "shim_metrics \<Rightarrow> family list" where
  "collectors m =
    [plain ''shim_events_published_total'' (of_nat (events_published m)), plain ''shim_events_dropped_total'' (of_nat (events_dropped m)),
     plain ''shim_bus_subscribers'' (bus_subscribers m), plain ''shim_health_status'' (health_status m),
     plain ''shim_health_checks_total'' (of_nat (health_checks_total m)), plain ''shim_uptime_seconds'' (uptime_gauge m),
     labelled ''shim_errors_total'' (errors_total m),
     plain ''shim_operation_duration_seconds'' (of_nat (length (durations m))),
     labelled ''shim_events_by_source_total'' (events_by_source m), labelled ''shim_events_handled_total'' (events_handled m)] @ custom m"

definition export :: "(family list \<Rightarrow> family list) \<Rightarrow> (family list \<Rightarrow> string) \<Rightarrow> shim_metrics \<Rightarrow> string" where
  "export reg encode m = encode (reg (collectors m))"

text \<open>The health route of the metrics server: it answers 200 whatever it says.\<close>

definition base_healthz :: "shim_metrics \<Rightarrow> nat \<times> string \<times> f64" where
  "base_healthz m = (200, if 1 / 2 < health_status m then ''healthy'' else ''unhealthy'', uptime_gauge m)"

section \<open>Exporter\<close>

definition DEFAULT_METRICS_PORT :: nat where "DEFAULT_METRICS_PORT = 9101"

record metrics_exporter =
  base :: shim_metrics
  shim_up :: f64
  events_total :: "(string, nat) hmap"
  alerts_forwarded :: nat
  alerts_dropped :: nat
  health_probes :: "(string, nat) hmap"
  config_reloads :: nat
  custom_metrics :: "(string, (string, f64) hmap) hmap"
  start_time :: time
  ex_running :: bool
  scrape_count :: nat

definition exporter_new :: "shim_metrics \<Rightarrow> time \<Rightarrow> metrics_exporter" where
  "exporter_new b now =
    \<lparr>base = b, shim_up = 0, events_total = [], alerts_forwarded = 0, alerts_dropped = 0, health_probes = [], config_reloads = 0,
     custom_metrics = [], start_time = now, ex_running = False, scrape_count = 0\<rparr>"

definition mark_up :: "metrics_exporter \<Rightarrow> metrics_exporter" where
  "mark_up e = e\<lparr>shim_up := 1, ex_running := True\<rparr>"

definition mark_down :: "metrics_exporter \<Rightarrow> metrics_exporter" where
  "mark_down e = e\<lparr>shim_up := 0, ex_running := False\<rparr>"

definition record_event :: "string \<Rightarrow> metrics_exporter \<Rightarrow> metrics_exporter" where
  "record_event ty e = e\<lparr>events_total := hm_bump ty (events_total e)\<rparr>"

definition record_alert_forwarded :: "metrics_exporter \<Rightarrow> metrics_exporter" where
  "record_alert_forwarded e = e\<lparr>alerts_forwarded := alerts_forwarded e + 1\<rparr>"

definition record_alert_dropped :: "metrics_exporter \<Rightarrow> metrics_exporter" where
  "record_alert_dropped e = e\<lparr>alerts_dropped := alerts_dropped e + 1\<rparr>"

definition record_health_probe :: "string \<Rightarrow> metrics_exporter \<Rightarrow> metrics_exporter" where
  "record_health_probe ty e = e\<lparr>health_probes := hm_bump ty (health_probes e)\<rparr>"

definition record_config_reload :: "metrics_exporter \<Rightarrow> metrics_exporter" where
  "record_config_reload e = e\<lparr>config_reloads := config_reloads e + 1\<rparr>"

definition set_custom_metric :: "string \<Rightarrow> string \<Rightarrow> f64 \<Rightarrow> metrics_exporter \<Rightarrow> metrics_exporter" where
  "set_custom_metric shim n v e =
    e\<lparr>custom_metrics := hm_insert shim
        (hm_insert n v (case map_of (custom_metrics e) shim of Some m \<Rightarrow> m | None \<Rightarrow> [])) (custom_metrics e)\<rparr>"

definition uptime_seconds :: "time \<Rightarrow> metrics_exporter \<Rightarrow> f64" where
  "uptime_seconds now e = of_int (now - start_time e) / of_int second"

definition exporter_families :: "metrics_exporter \<Rightarrow> family list" where
  "exporter_families e =
    [plain ''shim_up'' (shim_up e), labelled ''shim_events_total'' (events_total e),
     plain ''shim_alerts_forwarded_total'' (of_nat (alerts_forwarded e)), plain ''shim_alerts_dropped_total'' (of_nat (alerts_dropped e)),
     labelled ''shim_health_probes_total'' (health_probes e), plain ''shim_config_reloads_total'' (of_nat (config_reloads e))]"

definition export_all :: "(family list \<Rightarrow> family list) \<Rightarrow> (family list \<Rightarrow> string) \<Rightarrow> metrics_exporter \<Rightarrow> string" where
  "export_all reg encode e = encode (reg (collectors (base e)) @ reg (exporter_families e))"

definition metrics_route ::
  "(family list \<Rightarrow> family list) \<Rightarrow> (family list \<Rightarrow> string) \<Rightarrow> metrics_exporter \<Rightarrow> string \<times> metrics_exporter" where
  "metrics_route reg encode e = (let e1 = e\<lparr>scrape_count := scrape_count e + 1\<rparr> in (export_all reg encode e1, e1))"

text \<open>Status, uptime, whether the gauge is up, and the number of scrapes; always with code 200.\<close>

definition healthz_route :: "time \<Rightarrow> metrics_exporter \<Rightarrow> nat \<times> string \<times> f64 \<times> bool \<times> nat" where
  "healthz_route now e =
    (200, if ex_running e then ''healthy'' else ''unhealthy'', uptime_seconds now e, 1 / 2 < shim_up e, scrape_count e)"

text \<open>The shim is marked as up before the address is bound.\<close>

definition start_server :: "string option \<Rightarrow> metrics_exporter \<Rightarrow> string option \<times> metrics_exporter" where
  "start_server bind_error e = (bind_error, mark_up e)"

section \<open>What is exported\<close>

datatype exporter_op =
    Up | Down | Event string | Forwarded | Dropped | Probe string | Reload | Custom string string f64 | Scrape

fun exec_exporter :: "exporter_op \<Rightarrow> metrics_exporter \<Rightarrow> metrics_exporter" where
  "exec_exporter Up e = mark_up e"
| "exec_exporter Down e = mark_down e"
| "exec_exporter (Event ty) e = record_event ty e"
| "exec_exporter Forwarded e = record_alert_forwarded e"
| "exec_exporter Dropped e = record_alert_dropped e"
| "exec_exporter (Probe ty) e = record_health_probe ty e"
| "exec_exporter Reload e = record_config_reload e"
| "exec_exporter (Custom s n v) e = set_custom_metric s n v e"
| "exec_exporter Scrape e = snd (metrics_route id (\<lambda>_. []) e)"

lemmas exporter_op_defs = mark_up_def mark_down_def record_event_def record_alert_forwarded_def record_alert_dropped_def
  record_health_probe_def record_config_reload_def set_custom_metric_def metrics_route_def

definition up_agrees :: "metrics_exporter \<Rightarrow> bool" where
  "up_agrees e = (shim_up e = (if ex_running e then 1 else 0))"

interpretation exporter: op_system exec_exporter up_agrees
proof
  fix e op
  assume "up_agrees e"
  then show "up_agrees (exec_exporter op e)"
    by (cases op) (simp_all add: up_agrees_def exporter_op_defs Let_def)
qed

lemma custom_invisible:
  "exporter_families (set_custom_metric s n v e) = exporter_families e" "base (set_custom_metric s n v e) = base e"
  by (simp_all add: exporter_families_def set_custom_metric_def)

definition same_export :: "metrics_exporter \<Rightarrow> metrics_exporter \<Rightarrow> bool" where
  "same_export e e' \<longleftrightarrow> e\<lparr>custom_metrics := []\<rparr> = e'\<lparr>custom_metrics := []\<rparr>"

lemma same_export_step: "same_export e e' \<Longrightarrow> same_export (exec_exporter op e) (exec_exporter op e')"
  by (cases op; cases e; cases e') (simp_all add: same_export_def exporter_op_defs Let_def)

definition is_custom :: "exporter_op \<Rightarrow> bool" where
  "is_custom op = (case op of Custom _ _ _ \<Rightarrow> True | _ \<Rightarrow> False)"

lemma drop_custom: "same_export e e' \<Longrightarrow> same_export (fold exec_exporter ops e) (fold exec_exporter (filter (Not \<circ> is_custom) ops) e')"
proof (induction ops arbitrary: e e')
  case (Cons op ops)
  show ?case
  proof (cases "is_custom op")
    case True
    then obtain s n v where op: "op = Custom s n v"
      by (auto simp: is_custom_def split: exporter_op.splits)
    have "same_export (exec_exporter op e) e'"
      using Cons.prems by (cases e; cases e') (simp add: op same_export_def set_custom_metric_def)
    then show ?thesis
      using Cons.IH True by simp
  next
    case False
    then show ?thesis
      using Cons.IH [OF same_export_step [OF Cons.prems]] by simp
  qed
qed simp

text \<open>The metrics a shim registers with \<^verbatim>\<open>set_custom_metric\<close> are never exported: what a scrape returns after any
  sequence of calls is what it returns when these calls are left out.  And the gauge \<^verbatim>\<open>shim_up\<close> agrees with the health route
  after any sequence of calls.\<close>

theorem custom_metrics_never_exported:
  "export_all reg encode (fold exec_exporter ops (exporter_new b now)) =
     export_all reg encode (fold exec_exporter (filter (Not \<circ> is_custom) ops) (exporter_new b now))
   \<and> (let e = fold exec_exporter ops (exporter_new b now) in
      shim_up e = (if ex_running e then 1 else 0)
      \<and> fst (snd (healthz_route t e)) = (if shim_up e = 1 then ''healthy'' else ''unhealthy''))"
proof -
  have same: "same_export (fold exec_exporter ops (exporter_new b now)) (fold exec_exporter (filter (Not \<circ> is_custom) ops) (exporter_new b now))"
    by (rule drop_custom) (simp add: same_export_def)
  have "export_all reg encode e = export_all reg encode (e\<lparr>custom_metrics := []\<rparr>)" for e
    by (simp add: export_all_def exporter_families_def)
  then have "export_all reg encode (fold exec_exporter ops (exporter_new b now)) =
      export_all reg encode (fold exec_exporter (filter (Not \<circ> is_custom) ops) (exporter_new b now))"
    using same unfolding same_export_def by metis
  moreover have "up_agrees (fold exec_exporter ops (exporter_new b now))"
    by (rule exporter.fold_inv) (simp add: up_agrees_def exporter_new_def)
  ultimately show ?thesis
    by (simp add: up_agrees_def healthz_route_def Let_def)
qed

text \<open>A server that cannot bind its address has marked the shim as up; and the default port is the one the health server
  listens on by default.\<close>

lemma failed_server_is_up: "ex_running (snd (start_server (Some err) e)) \<and> shim_up (snd (start_server (Some err) e)) = 1"
  by (simp add: start_server_def mark_up_def)

lemma default_ports_clash: "listen health_config_default = ''0.0.0.0:'' @ show_nat DEFAULT_METRICS_PORT"
  by (simp add: health_config_default_def DEFAULT_METRICS_PORT_def show_nat.simps digit_char_def char_of_def bit_iff_odd)

section \<open>Errors\<close>

record backup_error =
  be_command :: string
  be_message :: string
  be_exit_code :: "int option"

definition backup_error_display :: "backup_error \<Rightarrow> string" where
  "backup_error_display e =
    (case be_exit_code e of
       Some code \<Rightarrow> ''backup error: command `'' @ be_command e @ ''` failed (exit code '' @ show_int code @ ''): '' @ be_message e
     | None \<Rightarrow> ''backup error: command `'' @ be_command e @ ''` failed: '' @ be_message e)"

record tls_error =
  te_provider :: string
  te_message :: string

record failover_error =
  fe_connector :: string
  fe_message :: string

record migration_error =
  me_version :: "nat option"
  me_message :: string

definition migration_error_display :: "migration_error \<Rightarrow> string" where
  "migration_error_display e =
    (case me_version e of
       Some v \<Rightarrow> ''migration error at version '' @ show_nat v @ '': '' @ me_message e
     | None \<Rightarrow> ''migration error: '' @ me_message e)"

datatype shim_error =
    ConfigErr string | DatabaseErr string | NetworkErr string | ProcessErr string | VaultErr string
  | BackupErr string | BackupDetail backup_error | MigrationErr string | MigrationDetail migration_error
  | TlsErr string | TlsDetail tls_error | FailoverErr string | FailoverDetail failover_error
  | TimeoutErr string | IoErr string | ConnectionErr string | SerializationErr string | TomlErr string
  | PluginErr string | AnyhowErr string

fun error_display :: "shim_error \<Rightarrow> string" where
  "error_display (ConfigErr s) = ''configuration error: '' @ s"
| "error_display (DatabaseErr s) = ''database error: '' @ s"
| "error_display (NetworkErr s) = ''network error: '' @ s"
| "error_display (ProcessErr s) = ''process error: '' @ s"
| "error_display (VaultErr s) = ''vault error: '' @ s"
| "error_display (BackupErr s) = ''backup error: '' @ s"
| "error_display (BackupDetail e) = backup_error_display e"
| "error_display (MigrationErr s) = ''migration error: '' @ s"
| "error_display (MigrationDetail e) = migration_error_display e"
| "error_display (TlsErr s) = ''tls error: '' @ s"
| "error_display (TlsDetail e) = ''tls error: '' @ te_provider e @ '': '' @ te_message e"
| "error_display (FailoverErr s) = ''failover error: '' @ s"
| "error_display (FailoverDetail e) = ''failover error: connector `'' @ fe_connector e @ ''` failed: '' @ fe_message e"
| "error_display (TimeoutErr s) = ''timeout: '' @ s"
| "error_display (IoErr s) = ''io error: '' @ s"
| "error_display (ConnectionErr s) = ''connection error: '' @ s"
| "error_display (SerializationErr s) = ''serialization error: '' @ s"
| "error_display (TomlErr s) = ''toml error: '' @ s"
| "error_display (PluginErr s) = ''plugin error: '' @ s"
| "error_display (AnyhowErr s) = s"

text \<open>An error of the operating system becomes a process error.\<close>

definition from_errno :: "string \<Rightarrow> shim_error" where
  "from_errno text = ProcessErr text"

text \<open>The plain error with the same text as a structured one.\<close>

lemma structured_as_plain:
  "\<exists>s. error_display (BackupDetail b) = error_display (BackupErr s)"
  "\<exists>s. error_display (TlsDetail t) = error_display (TlsErr s)"
  "\<exists>s. error_display (FailoverDetail f) = error_display (FailoverErr s)"
  by (auto simp: backup_error_display_def split: option.splits)

section \<open>Request contexts\<close>

record request_context =
  rc_request_id :: string
  rc_correlation_id :: "string option"
  rc_shim_name :: string

definition request_context_new :: "string \<Rightarrow> string \<Rightarrow> request_context" where
  "request_context_new uuid shim = \<lparr>rc_request_id = uuid, rc_correlation_id = None, rc_shim_name = shim\<rparr>"

definition with_correlation :: "string \<Rightarrow> string \<Rightarrow> string \<Rightarrow> request_context" where
  "with_correlation uuid shim corr = \<lparr>rc_request_id = uuid, rc_correlation_id = Some corr, rc_shim_name = shim\<rparr>"

text \<open>The fields of the span of a request.\<close>

definition context_span :: "request_context \<Rightarrow> (string \<times> string) list" where
  "context_span c =
    [(''request_id'', rc_request_id c),
     (''correlation_id'', case rc_correlation_id c of Some x \<Rightarrow> x | None \<Rightarrow> []),
     (''shim_name'', rc_shim_name c)]"

record operation_tracker =
  ot_operation :: string
  ot_shim_name :: string
  ot_start :: time
  ot_request_id :: string

record operation_metrics =
  om_operation :: string
  om_shim_name :: string
  om_duration_ms :: u64
  om_status :: string
  om_request_id :: string

definition tracker_start :: "string \<Rightarrow> string \<Rightarrow> string \<Rightarrow> time \<Rightarrow> operation_tracker" where
  "tracker_start op shim rid now = \<lparr>ot_operation = op, ot_shim_name = shim, ot_start = now, ot_request_id = rid\<rparr>"

definition tracker_complete :: "string \<Rightarrow> time \<Rightarrow> operation_tracker \<Rightarrow> operation_metrics" where
  "tracker_complete status now t =
    \<lparr>om_operation = ot_operation t, om_shim_name = ot_shim_name t,
     om_duration_ms = of_int ((now - ot_start t) div (second div 1000)), om_status = status, om_request_id = ot_request_id t\<rparr>"

text \<open>The identifier of a request: the counter keeps its 64 bits.\<close>

definition generate_request_id :: "time \<Rightarrow> u64 \<Rightarrow> string \<times> u64" where
  "generate_request_id now counter =
    (''req-'' @ show_int (now div (second div 1000)) @ ''-'' @ show_nat (unat counter), counter + 1)"

definition derive_correlation_id :: "string \<Rightarrow> string" where
  "derive_correlation_id request_id = ''corr-'' @ request_id"

fun request_ids :: "time list \<Rightarrow> u64 \<Rightarrow> string list" where
  "request_ids [] k = []"
| "request_ids (t # ts) k = (case generate_request_id t k of (rid, k1) \<Rightarrow> rid # request_ids ts k1)"

text \<open>The digits at the end of an identifier are its number.\<close>

definition end_digits :: "string \<Rightarrow> string" where
  "end_digits s = rev (takeWhile is_digit (rev s))"

lemma end_digits_id: "end_digits (s @ ''-'' @ show_nat n) = show_nat n"
proof -
  have "\<And>c. c \<in> set (rev (show_nat n)) \<Longrightarrow> is_digit c" and "\<not> is_digit (CHR ''-'')"
    using show_nat_digits [of n] by (auto simp: list_all_iff is_digit_def)
  then show ?thesis
    unfolding end_digits_def rev_append by (subst append_assoc, subst takeWhile_append2) auto
qed

lemma request_ids_suffixes:
  "map end_digits (request_ids ts k) = map (\<lambda>i. show_nat (unat (k + of_nat i))) [0..<length ts]"
proof (induction ts arbitrary: k)
  case (Cons t ts)
  have "end_digits (fst (generate_request_id t k)) = show_nat (unat k)"
    using end_digits_id [of "''req-'' @ show_int (t div (second div 1000))" "unat k"]
    by (simp add: generate_request_id_def del: append_Cons)
  moreover have "map (\<lambda>i. show_nat (unat (k + of_nat i))) [0..<length (t # ts)] =
      show_nat (unat k) # map (\<lambda>i. show_nat (unat (k + 1 + of_nat i))) [0..<length ts]"
    by (simp add: upt_conv_Cons map_Suc_upt [symmetric] add.assoc del: upt_Suc)
  ultimately show ?case
    using Cons.IH [of "k + 1"] by (simp add: generate_request_id_def del: upt_Suc)
qed simp

text \<open>The identifiers of requests are distinct until the counter has wrapped, whatever the clock says, and so are the
  correlation identifiers derived from them.\<close>

theorem request_ids_distinct:
  assumes "length ts \<le> 2 ^ 64"
  shows "distinct (map derive_correlation_id (request_ids ts k))"
proof -
  have "inj_on (\<lambda>i. show_nat (unat (k + of_nat i))) {..<length ts}"
  proof (rule inj_onI)
    fix i j
    assume ij: "i \<in> {..<length ts}" "j \<in> {..<length ts}"
      and "show_nat (unat (k + of_nat i)) = show_nat (unat (k + of_nat j))"
    then have "(of_nat i :: u64) = of_nat j"
      using show_nat_value by (metis add_left_imp_eq word_unat_eq_iff)
    then show "i = j"
      using ij assms by (simp add: word_of_nat_eq_iff take_bit_nat_eq_self)
  qed
  then have "distinct (map end_digits (request_ids ts k))"
    unfolding request_ids_suffixes by (simp add: distinct_map atLeast0LessThan)
  then have "distinct (request_ids ts k)"
    by (simp add: distinct_map)
  then show ?thesis
    by (simp add: distinct_map inj_on_def derive_correlation_id_def)
qed

theorem request_ids_distinct_witness: "distinct (map derive_correlation_id (request_ids [5, 5] (-1)))"
  by (rule request_ids_distinct) simp

end
