(* ===== verification/Shimctl.thy ===== *)
theory Shimctl
  imports Health_Server
begin

text \<open>
  \<^verbatim>\<open>shimctl\<close>: the HTTP client of the command line tool and the commands with what they print.  The server is a function
  from requests and its own state to answers; the parser of JSON texts, the printer of a JSON value, the text of a status
  error and the completion scripts are parameters.  The client is composed with the health
  server, which has the paths of its probe and metrics calls.
\<close>

section \<open>Client\<close>

record management_client =
  endpoint :: string

definition trim_end_slashes :: "string \<Rightarrow> string" where
  "trim_end_slashes s = rev (dropWhile (\<lambda>c. c = CHR ''/'') (rev s))"

definition client_new :: "string \<Rightarrow> management_client" where
  "client_new ep = \<lparr>endpoint = trim_end_slashes ep\<rparr>"

datatype http_method = GET | POST

record request =
  req_method :: http_method
  req_url :: string
  req_body :: "json option"

datatype answer = NotSent | Answer nat string

text \<open>An error shows its outermost context, or the status.\<close>

datatype client_error = Context string | Status nat

type_synonym 's server = "request \<Rightarrow> 's \<Rightarrow> answer \<times> 's"

text \<open>The steps of every call: send, refuse the error statuses, parse and decode.\<close>

definition send ::
  "(string \<Rightarrow> json option) \<Rightarrow> 's server \<Rightarrow> request \<Rightarrow> string \<Rightarrow> (json \<Rightarrow> 'r option) \<Rightarrow> 's \<Rightarrow> (client_error + 'r) \<times> 's" where
  "send parse srv req what dec s =
    (case srv req s of
       (NotSent, s1) \<Rightarrow> (Inl (Context ''Failed to connect to management API''), s1)
     | (Answer code body, s1) \<Rightarrow>
         (if 400 \<le> code \<and> code < 600 then Inl (Status code)
          else case parse body of
            None \<Rightarrow> Inl (Context (''Failed to parse '' @ what @ '' response''))
          | Some j \<Rightarrow> (case dec j of
              None \<Rightarrow> Inl (Context (''Failed to parse '' @ what @ '' response''))
            | Some r \<Rightarrow> Inr r), s1))"

section \<open>Responses\<close>

text \<open>What a derived deserialiser takes for a struct: an object with each field once (others are skipped), or an array
  with exactly the fields in order.\<close>

definition struct_fields :: "string list \<Rightarrow> json \<Rightarrow> json list option" where
  "struct_fields names j =
    (case j of
       JObj kvs \<Rightarrow> (if list_all (\<lambda>n. length (filter (\<lambda>kv. fst kv = n) kvs) = 1) names
          then Some (map (\<lambda>n. json_field n j) names) else None)
     | JArr vs \<Rightarrow> (if length vs = length names then Some vs else None)
     | _ \<Rightarrow> None)"

definition json_bool :: "json \<Rightarrow> bool option" where
  "json_bool j = (case j of JBool b \<Rightarrow> Some b | _ \<Rightarrow> None)"

fun decode_all :: "('a \<Rightarrow> 'b option) \<Rightarrow> 'a list \<Rightarrow> 'b list option" where
  "decode_all d [] = Some []"
| "decode_all d (x # xs) =
    (case d x of None \<Rightarrow> None | Some y \<Rightarrow> (case decode_all d xs of None \<Rightarrow> None | Some ys \<Rightarrow> Some (y # ys)))"

definition json_vec :: "(json \<Rightarrow> 'b option) \<Rightarrow> json \<Rightarrow> 'b list option" where
  "json_vec d j = (case j of JArr vs \<Rightarrow> decode_all d vs | _ \<Rightarrow> None)"

record status_response =
  sr_status :: string
  sr_version :: string
  sr_uptime :: string
  sr_healthy :: bool

record health_response =
  hr_status :: string
  hr_timestamp :: string

record reload_response =
  rr_success :: bool
  rr_message :: string

record validate_response =
  vr_valid :: bool
  vr_errors :: "string list"

record backup_entry =
  be_id :: string
  be_created_at :: string
  be_size_bytes :: nat
  be_status :: string

record backup_trigger_response =
  bt_backup_id :: string
  bt_status :: string

record migration_status_response =
  ms_current_version :: string
  ms_pending :: "string list"
  ms_applied :: "string list"

record migration_apply_response =
  ma_success :: bool
  ma_applied :: "string list"
  ma_message :: string

record migration_rollback_response =
  mr_success :: bool
  mr_rolled_back :: string
  mr_message :: string

definition status_of :: "json \<Rightarrow> status_response option" where
  "status_of j =
    (case struct_fields [''status'', ''version'', ''uptime'', ''healthy''] j of
       Some [a, b, c, d] \<Rightarrow>
         (case (json_str a, json_str b, json_str c, json_bool d) of
            (Some a, Some b, Some c, Some d) \<Rightarrow> Some \<lparr>sr_status = a, sr_version = b, sr_uptime = c, sr_healthy = d\<rparr>
          | _ \<Rightarrow> None)
     | _ \<Rightarrow> None)"

definition metrics_of :: "json \<Rightarrow> json option" where
  "metrics_of j = (case struct_fields [''metrics''] j of Some [m] \<Rightarrow> Some m | _ \<Rightarrow> None)"

definition health_of :: "json \<Rightarrow> health_response option" where
  "health_of j =
    (case struct_fields [''status'', ''timestamp''] j of
       Some [a, b] \<Rightarrow>
         (case (json_str a, json_str b) of (Some a, Some b) \<Rightarrow> Some \<lparr>hr_status = a, hr_timestamp = b\<rparr> | _ \<Rightarrow> None)
     | _ \<Rightarrow> None)"

definition reload_of :: "json \<Rightarrow> reload_response option" where
  "reload_of j =
    (case struct_fields [''success'', ''message''] j of
       Some [a, b] \<Rightarrow>
         (case (json_bool a, json_str b) of (Some a, Some b) \<Rightarrow> Some \<lparr>rr_success = a, rr_message = b\<rparr> | _ \<Rightarrow> None)
     | _ \<Rightarrow> None)"

definition validate_of :: "json \<Rightarrow> validate_response option" where
  "validate_of j =
    (case struct_fields [''valid'', ''errors''] j of
       Some [a, b] \<Rightarrow>
         (case (json_bool a, json_vec json_str b) of
            (Some a, Some b) \<Rightarrow> Some \<lparr>vr_valid = a, vr_errors = b\<rparr> | _ \<Rightarrow> None)
     | _ \<Rightarrow> None)"

definition backup_of :: "json \<Rightarrow> backup_entry option" where
  "backup_of j =
    (case struct_fields [''id'', ''created_at'', ''size_bytes'', ''status''] j of
       Some [a, b, c, d] \<Rightarrow>
         (case (json_str a, json_str b, json_u64 c, json_str d) of
            (Some a, Some b, Some c, Some d) \<Rightarrow> Some \<lparr>be_id = a, be_created_at = b, be_size_bytes = c, be_status = d\<rparr>
          | _ \<Rightarrow> None)
     | _ \<Rightarrow> None)"

definition backups_of :: "json \<Rightarrow> backup_entry list option" where
  "backups_of j = (case struct_fields [''backups''] j of Some [bs] \<Rightarrow> json_vec backup_of bs | _ \<Rightarrow> None)"

definition trigger_of :: "json \<Rightarrow> backup_trigger_response option" where
  "trigger_of j =
    (case struct_fields [''backup_id'', ''status''] j of
       Some [a, b] \<Rightarrow>
         (case (json_str a, json_str b) of (Some a, Some b) \<Rightarrow> Some \<lparr>bt_backup_id = a, bt_status = b\<rparr> | _ \<Rightarrow> None)
     | _ \<Rightarrow> None)"

definition migration_status_of :: "json \<Rightarrow> migration_status_response option" where
  "migration_status_of j =
    (case struct_fields [''current_version'', ''pending'', ''applied''] j of
       Some [a, b, c] \<Rightarrow>
         (case (json_str a, json_vec json_str b, json_vec json_str c) of
            (Some a, Some b, Some c) \<Rightarrow> Some \<lparr>ms_current_version = a, ms_pending = b, ms_applied = c\<rparr> | _ \<Rightarrow> None)
     | _ \<Rightarrow> None)"

definition apply_of :: "json \<Rightarrow> migration_apply_response option" where
  "apply_of j =
    (case struct_fields [''success'', ''applied'', ''message''] j of
       Some [a, b, c] \<Rightarrow>
         (case (json_bool a, json_vec json_str b, json_str c) of
            (Some a, Some b, Some c) \<Rightarrow> Some \<lparr>ma_success = a, ma_applied = b, ma_message = c\<rparr> | _ \<Rightarrow> None)
     | _ \<Rightarrow> None)"

definition rollback_of :: "json \<Rightarrow> migration_rollback_response option" where
  "rollback_of j =
    (case struct_fields [''success'', ''rolled_back'', ''message''] j of
       Some [a, b, c] \<Rightarrow>
         (case (json_bool a, json_str b, json_str c) of
            (Some a, Some b, Some c) \<Rightarrow> Some \<lparr>mr_success = a, mr_rolled_back = b, mr_message = c\<rparr> | _ \<Rightarrow> None)
     | _ \<Rightarrow> None)"

section \<open>Calls\<close>

definition get_req :: "management_client \<Rightarrow> string \<Rightarrow> request" where
  "get_req c path = \<lparr>req_method = GET, req_url = endpoint c @ path, req_body = None\<rparr>"

definition post_req :: "management_client \<Rightarrow> string \<Rightarrow> json option \<Rightarrow> request" where
  "post_req c path body = \<lparr>req_method = POST, req_url = endpoint c @ path, req_body = body\<rparr>"

definition get_status where
  "get_status parse srv c = send parse srv (get_req c ''/status'') ''status'' status_of"

definition get_metrics where
  "get_metrics parse srv c = send parse srv (get_req c ''/metrics'') ''metrics'' metrics_of"

definition get_livez where
  "get_livez parse srv c = send parse srv (get_req c ''/livez'') ''liveness'' health_of"

definition get_readyz where
  "get_readyz parse srv c = send parse srv (get_req c ''/readyz'') ''readiness'' health_of"

definition reload_config where
  "reload_config parse srv c = send parse srv (post_req c ''/reload'' None) ''reload'' reload_of"

definition validate_config where
  "validate_config parse srv config_path c =
    send parse srv (post_req c ''/validate'' (Some (JObj [(''config_path'', JStr config_path)]))) ''validate'' validate_of"

definition list_backups where
  "list_backups parse srv c = send parse srv (get_req c ''/backups'') ''backup list'' backups_of"

definition trigger_backup where
  "trigger_backup parse srv c = send parse srv (post_req c ''/backups'' None) ''backup trigger'' trigger_of"

definition get_migration_status where
  "get_migration_status parse srv c = send parse srv (get_req c ''/migrations'') ''migration status'' migration_status_of"

definition apply_migrations where
  "apply_migrations parse srv c = send parse srv (post_req c ''/migrations/apply'' None) ''migration apply'' apply_of"

definition rollback_migration where
  "rollback_migration parse srv c =
    send parse srv (post_req c ''/migrations/rollback'' None) ''migration rollback'' rollback_of"

lemmas call_defs = get_status_def get_metrics_def get_livez_def get_readyz_def reload_config_def validate_config_def
  list_backups_def trigger_backup_def get_migration_status_def apply_migrations_def rollback_migration_def

section \<open>Commands\<close>

datatype config_action = Reload | Validate string
datatype backup_action = ListBackups | Trigger
datatype migration_action = MigrationStatus | Apply | Rollback

datatype command =
    StatusCmd | MetricsCmd | HealthCmd | ConfigCmd config_action | BackupCmd backup_action
  | MigrationCmd migration_action | Completion string

definition pad_right :: "nat \<Rightarrow> string \<Rightarrow> string" where
  "pad_right n s = s @ replicate (n - length s) (CHR '' '')"

definition pad_left :: "nat \<Rightarrow> string \<Rightarrow> string" where
  "pad_left n s = replicate (n - length s) (CHR '' '') @ s"

definition ok_word :: "bool \<Rightarrow> string" where
  "ok_word b = (if b then ''OK'' else ''FAILED'')"

definition show_bool :: "bool \<Rightarrow> string" where
  "show_bool b = (if b then ''true'' else ''false'')"

text \<open>What the program is built with besides the server.\<close>

record texts =
  parse_json :: "string \<Rightarrow> json option"
  pretty_json :: "json \<Rightarrow> string"
  status_text :: "nat \<Rightarrow> string"
  completion :: "string \<Rightarrow> string"

definition show_error :: "texts \<Rightarrow> client_error \<Rightarrow> string" where
  "show_error t e = (case e of Context m \<Rightarrow> m | Status code \<Rightarrow> status_text t code)"

definition status_lines :: "status_response \<Rightarrow> string list" where
  "status_lines r =
    [''Shim Status:'', ''  Status:  '' @ sr_status r, ''  Version: '' @ sr_version r, ''  Uptime:  '' @ sr_uptime r,
     ''  Healthy: '' @ show_bool (sr_healthy r)]"

definition check_lines :: "texts \<Rightarrow> client_error + health_response \<Rightarrow> string list" where
  "check_lines t r =
    (case r of Inr h \<Rightarrow> [''  Status:    '' @ hr_status h, ''  Timestamp: '' @ hr_timestamp h]
     | Inl e \<Rightarrow> [''  Error: '' @ show_error t e])"

definition reload_lines :: "reload_response \<Rightarrow> string list" where
  "reload_lines r = [''Config reload: '' @ ok_word (rr_success r), ''Message: '' @ rr_message r]"

definition validate_lines :: "validate_response \<Rightarrow> string list" where
  "validate_lines r =
    (''Config validation: '' @ (if vr_valid r then ''VALID'' else ''INVALID'')) #
    (if vr_errors r = [] then [] else ''Errors:'' # map (\<lambda>e. ''  - '' @ e) (vr_errors r))"

definition backup_line :: "backup_entry \<Rightarrow> string" where
  "backup_line b =
    pad_right 20 (be_id b) @ '' '' @ pad_right 25 (be_created_at b) @ '' '' @ pad_left 10 (show_nat (be_size_bytes b)) @
    '' '' @ be_status b"

definition backups_lines :: "backup_entry list \<Rightarrow> string list" where
  "backups_lines bs =
    (if bs = [] then [''No backups found.'']
     else [''ID                  Created                   Size Status'', replicate 70 (CHR ''-'')] @ map backup_line bs)"

definition trigger_lines :: "backup_trigger_response \<Rightarrow> string list" where
  "trigger_lines r = [''Backup triggered:'', ''  ID:     '' @ bt_backup_id r, ''  Status: '' @ bt_status r]"

definition migration_lines :: "migration_status_response \<Rightarrow> string list" where
  "migration_lines r =
    [''Migration Status:'', ''  Current version: '' @ ms_current_version r, ''  Applied: '' @ join '', '' (ms_applied r),
     ''  Pending: '' @ join '', '' (ms_pending r)]"

definition apply_lines :: "migration_apply_response \<Rightarrow> string list" where
  "apply_lines r =
    [''Migration apply: '' @ ok_word (ma_success r), ''Applied: '' @ join '', '' (ma_applied r), ''Message: '' @ ma_message r]"

definition rollback_lines :: "migration_rollback_response \<Rightarrow> string list" where
  "rollback_lines r =
    [''Migration rollback: '' @ ok_word (mr_success r), ''Rolled back: '' @ mr_rolled_back r, ''Message: '' @ mr_message r]"

text \<open>Print what a call got, or end with its error.\<close>

definition print_or_fail ::
  "('r \<Rightarrow> string list) \<Rightarrow> (client_error + 'r) \<times> 's \<Rightarrow> string list \<times> (client_error + unit) \<times> 's" where
  "print_or_fail lines r = (case r of (Inr x, s) \<Rightarrow> (lines x, Inr (), s) | (Inl e, s) \<Rightarrow> ([], Inl e, s))"

fun execute ::
  "texts \<Rightarrow> 's server \<Rightarrow> management_client \<Rightarrow> command \<Rightarrow> 's \<Rightarrow> string list \<times> (client_error + unit) \<times> 's" where
  "execute t srv c (Completion shell) s = ([completion t shell], Inr (), s)"
| "execute t srv c StatusCmd s = print_or_fail status_lines (get_status (parse_json t) srv c s)"
| "execute t srv c MetricsCmd s = print_or_fail (\<lambda>m. [pretty_json t m]) (get_metrics (parse_json t) srv c s)"
| "execute t srv c HealthCmd s =
    (case get_livez (parse_json t) srv c s of (live, s1) \<Rightarrow>
     (case get_readyz (parse_json t) srv c s1 of (ready, s2) \<Rightarrow>
       ([''Liveness check:''] @ check_lines t live @ [newline # ''Readiness check:''] @ check_lines t ready, Inr (), s2)))"
| "execute t srv c (ConfigCmd Reload) s = print_or_fail reload_lines (reload_config (parse_json t) srv c s)"
| "execute t srv c (ConfigCmd (Validate f)) s = print_or_fail validate_lines (validate_config (parse_json t) srv f c s)"
| "execute t srv c (BackupCmd ListBackups) s = print_or_fail backups_lines (list_backups (parse_json t) srv c s)"
| "execute t srv c (BackupCmd Trigger) s = print_or_fail trigger_lines (trigger_backup (parse_json t) srv c s)"
| "execute t srv c (MigrationCmd MigrationStatus) s =
    print_or_fail migration_lines (get_migration_status (parse_json t) srv c s)"
| "execute t srv c (MigrationCmd Apply) s = print_or_fail apply_lines (apply_migrations (parse_json t) srv c s)"
| "execute t srv c (MigrationCmd Rollback) s = print_or_fail rollback_lines (rollback_migration (parse_json t) srv c s)"

record cli =
  cli_endpoint :: string
  cli_command :: command

definition default_endpoint :: string where
  "default_endpoint = ''http://localhost:9090''"

definition main :: "texts \<Rightarrow> 's server \<Rightarrow> cli \<Rightarrow> 's \<Rightarrow> string list \<times> (client_error + unit) \<times> 's" where
  "main t srv cl s =
    (case cli_command cl of
       Completion shell \<Rightarrow> ([completion t shell], Inr (), s)
     | cmd \<Rightarrow> execute t srv (client_new (cli_endpoint cl)) cmd s)"

section \<open>Requests and results\<close>

lemma trimmed_endpoint: "endpoint (client_new ep) = [] \<or> last (endpoint (client_new ep)) \<noteq> CHR ''/''"
proof (cases "dropWhile (\<lambda>c. c = CHR ''/'') (rev ep)")
  case (Cons c cs)
  then have "c \<noteq> CHR ''/''"
    by (metis (mono_tags) hd_dropWhile list.distinct(1) list.sel(1))
  then show ?thesis
    by (simp add: client_new_def trim_end_slashes_def Cons)
qed (simp add: client_new_def trim_end_slashes_def)

text \<open>The request of a command that makes one.\<close>

fun request_of :: "management_client \<Rightarrow> command \<Rightarrow> request option" where
  "request_of c StatusCmd = Some (get_req c ''/status'')"
| "request_of c MetricsCmd = Some (get_req c ''/metrics'')"
| "request_of c (ConfigCmd Reload) = Some (post_req c ''/reload'' None)"
| "request_of c (ConfigCmd (Validate f)) = Some (post_req c ''/validate'' (Some (JObj [(''config_path'', JStr f)])))"
| "request_of c (BackupCmd ListBackups) = Some (get_req c ''/backups'')"
| "request_of c (BackupCmd Trigger) = Some (post_req c ''/backups'' None)"
| "request_of c (MigrationCmd MigrationStatus) = Some (get_req c ''/migrations'')"
| "request_of c (MigrationCmd Apply) = Some (post_req c ''/migrations/apply'' None)"
| "request_of c (MigrationCmd Rollback) = Some (post_req c ''/migrations/rollback'' None)"
| "request_of c HealthCmd = None"
| "request_of c (Completion sh) = None"

lemma print_or_fail_send:
  assumes "srv req s = (a, s1)"
  shows "snd (snd (print_or_fail lines (send parse srv req what dec s))) = s1"
    and "a = NotSent \<Longrightarrow>
      print_or_fail lines (send parse srv req what dec s) = ([], Inl (Context ''Failed to connect to management API''), s1)"
    and "a = Answer code body \<Longrightarrow> 400 \<le> code \<and> code < 600 \<Longrightarrow>
      print_or_fail lines (send parse srv req what dec s) = ([], Inl (Status code), s1)"
  using assms by (auto simp: send_def print_or_fail_def split: answer.splits option.splits sum.splits)

text \<open>A command that makes one request makes exactly that one, prints nothing when it fails, and passes an error status
  on.\<close>

lemma execute_single:
  assumes "request_of c cmd = Some req" and "srv req s = (a, s1)"
  shows "snd (snd (execute t srv c cmd s)) = s1"
    and "a = NotSent \<Longrightarrow> execute t srv c cmd s = ([], Inl (Context ''Failed to connect to management API''), s1)"
    and "a = Answer code body \<Longrightarrow> 400 \<le> code \<and> code < 600 \<Longrightarrow> execute t srv c cmd s = ([], Inl (Status code), s1)"
  using assms
  by (cases rule: request_of.cases [of "(c, cmd)"]; auto simp: call_defs print_or_fail_send)+

text \<open>The answers to a request for a change, whatever they say, are a success of the command.\<close>

lemma refused_change_succeeds:
  assumes "srv (post_req c ''/migrations/apply'' None) s = (Answer 200 body, s1)"
    and "parse_json t body = Some (JObj [(''success'', JBool False), (''applied'', JArr []), (''message'', JStr m)])"
  shows "execute t srv c (MigrationCmd Apply) s =
    ([''Migration apply: FAILED'', ''Applied: '', ''Message: '' @ m], Inr (), s1)"
  using assms
  by (simp add: apply_migrations_def send_def print_or_fail_def apply_of_def struct_fields_def json_field_def json_get_def
      json_bool_def json_vec_def json_str_def apply_lines_def ok_word_def)

section \<open>Against the health server\<close>

definition metric_json :: "metric \<Rightarrow> json" where
  "metric_json m = JObj [(''name'', JStr (fst m)), (''value'', JNum \<lfloor>snd m\<rfloor>), (''labels'', JObj [])]"

text \<open>The answer of the metrics route is an object with the list of metrics; the values are 0 or 1.\<close>

definition metrics_json :: "health_state \<Rightarrow> json" where
  "metrics_json s = JObj [(''metrics'', JArr (map metric_json (metrics_handler s)))]"

text \<open>The routes with their bodies: the probes answer a status without a body.\<close>

definition health_http :: "(json \<Rightarrow> string) \<Rightarrow> string \<Rightarrow> probe_world \<Rightarrow> time \<Rightarrow> health_state server" where
  "health_http print base w now req s =
    (if req_url req \<notin> {base @ ''/livez'', base @ ''/readyz'', base @ ''/startupz'', base @ ''/healthz'', base @ ''/metrics''}
       then (Answer 404 [], s)
     else if req_method req \<noteq> GET then (Answer 405 [], s)
     else if req_url req = base @ ''/livez'' then (case serve (Livez w) s of (code, s1) \<Rightarrow> (Answer code [], s1))
     else if req_url req = base @ ''/readyz'' then (case serve (Readyz w) s of (code, s1) \<Rightarrow> (Answer code [], s1))
     else if req_url req = base @ ''/startupz'' then (case serve Startupz s of (code, s1) \<Rightarrow> (Answer code [], s1))
     else if req_url req = base @ ''/healthz'' then (Answer 200 (print (health_handler now s)), s)
     else (Answer 200 (print (metrics_json s)), s))"

lemma request_path:
  "request_of c cmd = Some req \<Longrightarrow> cmd \<noteq> MetricsCmd \<Longrightarrow>
   \<exists>p \<in> {''/status'', ''/reload'', ''/validate'', ''/backups'', ''/migrations'', ''/migrations/apply'', ''/migrations/rollback''}.
     req_url req = endpoint c @ p"
  by (cases rule: request_of.cases [of "(c, cmd)"]) (auto simp only: request_of.simps option.inject get_req_def post_req_def
      request.select_convs insert_iff bex_simps simp_thms option.distinct)

lemma health_http_unknown:
  assumes "request_of c cmd = Some req" and "cmd \<noteq> MetricsCmd"
  shows "health_http print (endpoint c) w now req s = (Answer 404 [], s)"
proof -
  obtain p where "req_url req = endpoint c @ p"
    and "p \<in> {''/status'', ''/reload'', ''/validate'', ''/backups'', ''/migrations'', ''/migrations/apply'', ''/migrations/rollback''}"
    by (rule bexE [OF request_path [OF assms]])
  then have "req_url req \<notin> {endpoint c @ ''/livez'', endpoint c @ ''/readyz'', endpoint c @ ''/startupz'', endpoint c @ ''/healthz'',
      endpoint c @ ''/metrics''}"
    by (elim insertE emptyE) simp_all
  then show ?thesis
    unfolding health_http_def by (simp only: if_True not_False_eq_True)
qed

lemma health_http_metrics:
  "health_http print (endpoint c) w now (get_req c ''/metrics'') s = (Answer 200 (print (metrics_json s)), s)"
  by (simp add: health_http_def get_req_def)

lemma health_http_probes:
  "\<exists>code s1. health_http print (endpoint c) w now (get_req c ''/livez'') s = (Answer code [], s1)"
  "\<exists>code s1. health_http print (endpoint c) w now (get_req c ''/readyz'') s = (Answer code [], s1)"
  by (auto simp: health_http_def get_req_def split: prod.splits)

lemma metrics_json_decodes: "metrics_of (metrics_json s) = Some (JArr (map metric_json (metrics_handler s)))"
  by (simp add: metrics_of_def metrics_json_def struct_fields_def json_field_def json_get_def)

lemma send_empty_body:
  assumes "srv req s = (Answer code [], s1)" and "parse [] = None"
  shows "\<exists>e. send parse srv req what dec s = (Inl e, s1)"
  using assms by (simp add: send_def)

lemma health_cmd_errors:
  assumes "parse_json t [] = None"
  shows "\<exists>e1 e2 s2. execute t (health_http print (endpoint c) w now) c HealthCmd s =
    ([''Liveness check:'', ''  Error: '' @ e1, newline # ''Readiness check:'', ''  Error: '' @ e2], Inr (), s2)"
proof -
  let ?srv = "health_http print (endpoint c) w now"
  obtain e1 s1 where "get_livez (parse_json t) ?srv c s = (Inl e1, s1)"
    using send_empty_body health_http_probes(1) assms unfolding get_livez_def by metis
  moreover obtain e2 s2 where "get_readyz (parse_json t) ?srv c s1 = (Inl e2, s2)"
    using send_empty_body health_http_probes(2) assms unfolding get_readyz_def by metis
  ultimately show ?thesis
    by (simp add: check_lines_def)
qed

lemma metrics_cmd_prints:
  assumes "parse_json t (print (metrics_json s)) = Some (metrics_json s)"
  shows "execute t (health_http print (endpoint c) w now) c MetricsCmd s =
    ([pretty_json t (JArr (map metric_json (metrics_handler s)))], Inr (), s)"
  using assms
  by (simp add: get_metrics_def send_def health_http_metrics metrics_json_decodes print_or_fail_def)

text \<open>C39: What the client's commands do when its endpoint is the health server.  Status and every config,
  backup and migration command end with status 404; metrics prints the metrics of the health checker; and health, whatever
  the database's health is, prints an error for both checks, because the probes answer without a body, and reports
  success.  (Completion sends nothing.)\<close>

theorem shimctl_health_server:
  assumes "parse_json t [] = None" and "parse_json t (print (metrics_json s)) = Some (metrics_json s)"
  shows "case main t (health_http print (trim_end_slashes ep) w now) \<lparr>cli_endpoint = ep, cli_command = cmd\<rparr> s of
    (out, res, s2) \<Rightarrow>
      res = (case cmd of Completion sh \<Rightarrow> Inr () | HealthCmd \<Rightarrow> Inr () | MetricsCmd \<Rightarrow> Inr () | _ \<Rightarrow> Inl (Status 404)) \<and>
      (cmd = MetricsCmd \<longrightarrow> out = [pretty_json t (JArr (map metric_json (metrics_handler s)))]) \<and>
      (cmd = HealthCmd \<longrightarrow> (\<exists>e1 e2. out =
         [''Liveness check:'', ''  Error: '' @ e1, newline # ''Readiness check:'', ''  Error: '' @ e2]))"
proof -
  let ?c = "client_new ep"
  let ?srv = "health_http print (endpoint ?c) w now"
  have ep: "trim_end_slashes ep = endpoint ?c"
    by (simp add: client_new_def)
  have unknown: "execute t ?srv ?c cmd s = ([], Inl (Status 404), s)"
    if "request_of ?c cmd = Some req" "cmd \<noteq> MetricsCmd" for req
    using execute_single(3) [OF that(1), where srv = ?srv] health_http_unknown [OF that] by simp
  obtain e1 e2 s2 where health: "execute t ?srv ?c HealthCmd s =
      ([''Liveness check:'', ''  Error: '' @ e1, newline # ''Readiness check:'', ''  Error: '' @ e2], Inr (), s2)"
    using health_cmd_errors [OF assms(1)] by blast
  note metrics = metrics_cmd_prints [where t = t and print = print and s = s and c = ?c, OF assms(2)]
  show ?thesis
    unfolding ep main_def
    by (cases rule: request_of.cases [of "(?c, cmd)"])
      (use unknown health metrics in \<open>simp_all del: execute.simps\<close>)
qed

definition sample_state :: health_state where
  "sample_state =
    hs_state (server_new (checker_new \<lparr>liveness_cmd = [], readiness_cmd = [], ck_timeout_secs = 0\<rparr>) [] [] 0)"

definition sample_texts :: texts where
  "sample_texts =
    \<lparr>parse_json = (\<lambda>b. if b = [] then None else Some (metrics_json sample_state)), pretty_json = (\<lambda>_. []),
     status_text = show_nat, completion = (\<lambda>_. [])\<rparr>"

theorem shimctl_health_server_witness:
  "fst (main (sample_texts\<lparr>pretty_json := \<lambda>j. if j = JArr (map metric_json (metrics_handler sample_state)) then ''ok'' else []\<rparr>)
     (health_http (\<lambda>_. ''[]'') (trim_end_slashes ''http://h/'') (sample_probe_world True) 0)
     \<lparr>cli_endpoint = ''http://h/'', cli_command = MetricsCmd\<rparr> sample_state) = [''ok'']"
  using shimctl_health_server [where t = "sample_texts\<lparr>pretty_json := \<lambda>j. if j = JArr (map metric_json (metrics_handler sample_state))
        then ''ok'' else []\<rparr>" and print = "\<lambda>_. ''[]''" and s = sample_state and ep = "''http://h/''"
      and w = "sample_probe_world True" and now = 0 and cmd = MetricsCmd]
  by (simp add: sample_texts_def split: prod.splits del: execute.simps)

end
