(* ===== verification/Initialisation.thy ===== *)
theory Initialisation
  imports Backup Failover Vault Tls Health_Server Migration
begin

text \<open>
  \<^verbatim>\<open>Capability::init\<close> of the shims that validate their section of the configuration (\<^verbatim>\<open>backup-shim\<close>, \<^verbatim>\<open>failover-shim\<close>, \<^verbatim>\<open>vault-shim\<close>, \<^verbatim>\<open>tls-shim\<close>,
  \<^verbatim>\<open>health-shim\<close> and \<^verbatim>\<open>migration-shim\<close>) against \<^verbatim>\<open>Config::validate\<close>.  What they share is the locale
  \<^verbatim>\<open>validating_init\<close>, interpreted on the six; the remaining small operations of \<^verbatim>\<open>migration-shim\<close> are here as well.
\<close>

section \<open>Migration shim\<close>

record migration_lock =
  lock_path :: string
  stale_threshold_secs :: nat

definition with_stale_threshold :: "string \<Rightarrow> nat \<Rightarrow> migration_lock" where
  "with_stale_threshold d n = \<lparr>lock_path = d @ ''/.migration.lock'', stale_threshold_secs = n\<rparr>"

definition migration_lock_new :: "string \<Rightarrow> migration_lock" where
  "migration_lock_new d = with_stale_threshold d DEFAULT_STALE_THRESHOLD_SECS"

definition is_locked :: "(string \<Rightarrow> bool) \<Rightarrow> migration_lock \<Rightarrow> bool" where
  "is_locked exists l = exists (lock_path l)"

definition migration_init :: "validators \<Rightarrow> env \<Rightarrow> config \<Rightarrow> migration_shim \<Rightarrow> string + migration_shim" where
  "migration_init v env c s =
    (let errs = filter (\<lambda>e. starts_with (err_field e) ''migration.'') (validate v c) in
     if validation_enabled env \<and> errs \<noteq> []
     then Inl (''migration config validation failed: '' @ join ''; '' (map config_error_display errs))
     else Inr (case config.migration c of
         Some m \<Rightarrow> s\<lparr>mig_dir := mc_dir m, database := mc_database m, auto_migrate := mc_auto_migrate m, db_host := mc_db_host m,
           db_port := mc_db_port m, db_user := mc_db_user m, db_password := mc_db_password m, db_type := mc_db_type m\<rparr>
       | None \<Rightarrow> s))"

text \<open>Arguments of \<^verbatim>\<open>psql\<close>, and the result of running it.\<close>

definition psql_args :: "migration_shim \<Rightarrow> string \<Rightarrow> string list" where
  "psql_args s sql =
    [''-h'', db_host s, ''-p'', show_nat (db_port s), ''-U'', db_user s, ''-d'', database s, ''-c'', sql]"

definition execute_sql_via_psql :: "(string list \<Rightarrow> command_output) \<Rightarrow> migration_shim \<Rightarrow> string \<Rightarrow> string + unit" where
  "execute_sql_via_psql run s sql =
    (case run (psql_args s sql) of
       NotRun e \<Rightarrow> Inl e
     | ExitFailure stderr \<Rightarrow> Inl (''psql failed: '' @ stderr)
     | ExitSuccess _ \<Rightarrow> Inr ())"

section \<open>The shared contract\<close>

definition section_errors :: "string \<Rightarrow> config_validation_error list \<Rightarrow> config_validation_error list" where
  "section_errors p es = filter (\<lambda>e. starts_with (err_field e) p) es"

text \<open>An initialisation that is refused exactly by the errors of its section, that names them all, and that succeeds
  always when validation is off.\<close>

locale validating_init =
  fixes init :: "validators \<Rightarrow> env \<Rightarrow> config \<Rightarrow> 's \<Rightarrow> string + 's"
    and part :: string
  assumes init_error: "validation_enabled env \<Longrightarrow> section_errors (part @ ''.'') (validate v c) \<noteq> [] \<Longrightarrow>
      init v env c s = Inl (part @ '' config validation failed: '' @
        join ''; '' (map config_error_display (section_errors (part @ ''.'') (validate v c))))"
    and init_ok: "\<not> validation_enabled env \<or> section_errors (part @ ''.'') (validate v c) = [] \<Longrightarrow> \<exists>s'. init v env c s = Inr s'"
begin

lemma init_iff: "isl (init v env c s) \<longleftrightarrow> validation_enabled env \<and> section_errors (part @ ''.'') (validate v c) \<noteq> []"
  using init_error init_ok by (metis isl_def old.sum.distinct(2))

lemma valid_init: "config_ok v c \<Longrightarrow> \<not> isl (init v env c s)"
  by (simp add: init_iff validate_Nil [symmetric] section_errors_def)

end

interpretation backup_in: validating_init backup_init "''backup''"
  by unfold_locales (auto simp: backup_init_def section_errors_def Let_def)

interpretation failover_in: validating_init failover_init "''failover''"
  by unfold_locales (auto simp: failover_init_def failover_errors_def section_errors_def Let_def)

interpretation vault_in: validating_init vault_init "''vault''"
  by unfold_locales (auto simp: vault_init_def section_errors_def Let_def)

interpretation tls_in: validating_init tls_init "''tls''"
  by unfold_locales (auto simp: tls_init_def section_errors_def Let_def)

interpretation health_in: validating_init health_init "''health''"
  by unfold_locales (auto simp: health_init_def section_errors_def Let_def)

interpretation migration_in: validating_init migration_init "''migration''"
  by unfold_locales (auto simp: migration_init_def section_errors_def Let_def)

section \<open>Which errors belong to which section\<close>

lemma section_errors_append [simp]: "section_errors p (xs @ ys) = section_errors p xs @ section_errors p ys"
  by (simp add: section_errors_def)

lemma section_errors_check [simp]: "section_errors p (check b f m) = (if starts_with f p then check b f m else [])"
  by (simp add: section_errors_def check_def verr_def)

lemma section_errors_positive [simp]: "section_errors p (positive f n) = (if starts_with f p then positive f n else [])"
  by (simp add: positive_def)

lemma section_errors_each [simp]: "section_errors p (each g x) = each (\<lambda>a. section_errors p (g a)) x"
  by (simp add: each_def section_errors_def split: option.splits)

lemma each_Nil [simp]: "each (\<lambda>a. []) x = []"
  by (simp add: each_def split: option.splits)

lemma section_errors_single [simp]: "section_errors p [verr f m] = (if starts_with f p then [verr f m] else [])"
  by (simp add: section_errors_def verr_def)

lemma section_errors_Nil [simp]: "section_errors p [] = []"
  by (simp add: section_errors_def)

lemma section_errors_cron [simp]:
  "section_errors p (if b then case x of Some e \<Rightarrow> [verr f (m e)] | None \<Rightarrow> [] else []) =
    (if starts_with f p then (if b then case x of Some e \<Rightarrow> [verr f (m e)] | None \<Rightarrow> [] else []) else [])"
proof (cases x)
  case (Some e)
  then show ?thesis
    by (cases b) simp_all
qed (simp del: starts_with.simps)

lemma section_errors_tenants:
  assumes "\<And>i f. \<not> starts_with (tenant_field i f) p"
  shows "section_errors p (validate_tenants v i seen ts) = []"
  using assms by (induction ts arbitrary: i seen) (simp_all add: section_errors_def check_def verr_def split: option.splits)

lemmas section_defs = validate_health_def validate_vault_def Config.validate_backup_def validate_migration_def validate_tls_def
  validate_failover_def

lemma own_section:
  "section_errors ''health.'' (validate_health v h) = validate_health v h"
  "section_errors ''vault.'' (validate_vault v va) = validate_vault v va"
  "section_errors ''backup.'' (Config.validate_backup v ba) = Config.validate_backup v ba"
  "section_errors ''migration.'' (validate_migration v mi) = validate_migration v mi"
  "section_errors ''tls.'' (validate_tls tl') = validate_tls tl'"
  "section_errors ''failover.'' (validate_failover fo) = validate_failover fo"
  by (simp_all add: section_defs)

lemma other_section:
  "section_errors ''health.'' (validate_vault v va) = []"
  "section_errors ''health.'' (Config.validate_backup v ba) = []"
  "section_errors ''health.'' (validate_migration v mi) = []"
  "section_errors ''health.'' (validate_tls tl') = []"
  "section_errors ''health.'' (validate_failover fo) = []"
  "section_errors ''vault.'' (validate_health v h) = []"
  "section_errors ''vault.'' (Config.validate_backup v ba) = []"
  "section_errors ''vault.'' (validate_migration v mi) = []"
  "section_errors ''vault.'' (validate_tls tl') = []"
  "section_errors ''vault.'' (validate_failover fo) = []"
  "section_errors ''backup.'' (validate_health v h) = []"
  "section_errors ''backup.'' (validate_vault v va) = []"
  "section_errors ''backup.'' (validate_migration v mi) = []"
  "section_errors ''backup.'' (validate_tls tl') = []"
  "section_errors ''backup.'' (validate_failover fo) = []"
  "section_errors ''migration.'' (validate_health v h) = []"
  "section_errors ''migration.'' (validate_vault v va) = []"
  "section_errors ''migration.'' (Config.validate_backup v ba) = []"
  "section_errors ''migration.'' (validate_tls tl') = []"
  "section_errors ''migration.'' (validate_failover fo) = []"
  "section_errors ''tls.'' (validate_health v h) = []"
  "section_errors ''tls.'' (validate_vault v va) = []"
  "section_errors ''tls.'' (Config.validate_backup v ba) = []"
  "section_errors ''tls.'' (validate_migration v mi) = []"
  "section_errors ''tls.'' (validate_failover fo) = []"
  "section_errors ''failover.'' (validate_health v h) = []"
  "section_errors ''failover.'' (validate_vault v va) = []"
  "section_errors ''failover.'' (Config.validate_backup v ba) = []"
  "section_errors ''failover.'' (validate_migration v mi) = []"
  "section_errors ''failover.'' (validate_tls tl') = []"
  by (simp_all add: section_defs)

lemma sections:
  "section_errors ''health.'' (validate v c) = validate_health v (health c)"
  "section_errors ''vault.'' (validate v c) = each (validate_vault v) (vault c)"
  "section_errors ''backup.'' (validate v c) = each (Config.validate_backup v) (config.backup c)"
  "section_errors ''migration.'' (validate v c) = each (validate_migration v) (migration c)"
  "section_errors ''tls.'' (validate v c) = each validate_tls (tls c)"
  "section_errors ''failover.'' (validate v c) = each validate_failover (failover c)"
  by (simp_all add: validate_def own_section other_section section_errors_tenants tenant_field_def)

section \<open>Property\<close>

text \<open>C35: Initialisation and validation agree.  One of the six shims refuses to initialise exactly when validation is on
  and the configuration violates a constraint other than those on the version and on tenants, which no shim looks at.\<close>

theorem inits_validate_sections:
  "isl (health_init v env c h) \<or> isl (vault_init v env c va) \<or> isl (backup_init v env c b) \<or>
   isl (migration_init v env c m) \<or> isl (tls_init v env c t) \<or> isl (failover_init v env c f) \<longleftrightarrow>
   validation_enabled env \<and> \<not> config_ok v (c\<lparr>config.version := None, config.tenants := []\<rparr>)"
proof -
  have "config_ok v (c\<lparr>config.version := None, config.tenants := []\<rparr>) \<longleftrightarrow>
      validate_health v (config.health c) = [] \<and> each (validate_vault v) (config.vault c) = [] \<and>
      each (Config.validate_backup v) (config.backup c) = [] \<and> each (validate_migration v) (config.migration c) = [] \<and>
      each validate_tls (config.tls c) = [] \<and> each validate_failover (config.failover c) = []"
    unfolding validate_parts_Nil config_ok_def by auto
  then show ?thesis
    unfolding health_in.init_iff vault_in.init_iff backup_in.init_iff migration_in.init_iff tls_in.init_iff failover_in.init_iff
    by (auto simp: sections)
qed

end
