(* ===== verification/Incident.thy ===== *)
theory Incident
  imports Failover Alerting Wiring
begin

text \<open>
  The way of a failover to the web hooks, across three components: the monitoring loop of \<^verbatim>\<open>failover-shim\<close> emits on the bus,
  the bus numbers the events, and the alert manager of \<^verbatim>\<open>shim-core\<close>, subscribed to the bus, filters, deduplicates and delivers
  them.  One step is a tick of the loop followed by the processing of what it emitted, at the time of the tick; the
  subscription does not lag.
\<close>

section \<open>The composition\<close>

definition emissions :: "fo_effect list \<Rightarrow> f64 emission list" where
  "emissions effs = concat (map (\<lambda>x. case x of Emit src evt sev \<Rightarrow> [(src, evt, sev)] | _ \<Rightarrow> []) effs)"

text \<open>The alert manager on a list of events: the manager, and for each event the hooks that were tried.\<close>

fun process_all ::
  "('f event_type \<Rightarrow> string) \<Rightarrow> (time \<Rightarrow> string) \<Rightarrow> (alert_webhook \<Rightarrow> webhook_payload \<Rightarrow> bool) \<Rightarrow> time
   \<Rightarrow> 'f shim_event list \<Rightarrow> alert_manager \<Rightarrow> alert_manager \<times> ('f shim_event \<times> alert_webhook list) list" where
  "process_all dbg rfc deliver now [] m = (m, [])"
| "process_all dbg rfc deliver now (e # es) m =
    (case process_event dbg rfc deliver now e m of (m1, tried) \<Rightarrow>
     (case process_all dbg rfc deliver now es m1 of (m2, rest) \<Rightarrow> (m2, (e, tried) # rest)))"

record 'ch incident =
  in_fo :: "shared_state \<times> fo_loop"
  in_bus :: "'ch shim_bus"
  in_am :: alert_manager

text \<open>What the code outside the three components does.\<close>

record 'ch surroundings =
  send_on :: "'ch \<Rightarrow> f64 shim_event \<Rightarrow> 'ch"
  draw :: "u64 \<Rightarrow> uuid \<times> time"
  debug_text :: "f64 event_type \<Rightarrow> string"
  rfc3339 :: "time \<Rightarrow> string"
  deliver_hook :: "alert_webhook \<Rightarrow> webhook_payload \<Rightarrow> bool"

definition incident_tick ::
  "'ch surroundings \<Rightarrow> validators \<Rightarrow> env \<Rightarrow> failover_shim \<Rightarrow> time \<times> fo_world \<Rightarrow> 'ch incident
   \<Rightarrow> 'ch incident \<times> fo_effect list \<times> (f64 shim_event \<times> alert_webhook list) list" where
  "incident_tick x v env cfg tw st =
    (case failover_tick v env cfg (snd tw) (in_fo st) of (fo, effs) \<Rightarrow>
     (case emit_all (send_on x) (draw x) (emissions effs) (in_bus st) of (b, es) \<Rightarrow>
      (case process_all (debug_text x) (rfc3339 x) (deliver_hook x) (fst tw) es (in_am st) of (m, tried) \<Rightarrow>
        (\<lparr>in_fo = fo, in_bus = b, in_am = m\<rparr>, effs, tried))))"

text \<open>A run records for each tick its time, its effects and what the alert manager tried.\<close>

fun incident_run ::
  "'ch surroundings \<Rightarrow> validators \<Rightarrow> env \<Rightarrow> failover_shim \<Rightarrow> (time \<times> fo_world) list \<Rightarrow> 'ch incident
   \<Rightarrow> (time \<times> fo_effect list \<times> (f64 shim_event \<times> alert_webhook list) list) list" where
  "incident_run x v env cfg [] st = []"
| "incident_run x v env cfg (tw # tws) st =
    (case incident_tick x v env cfg tw st of (st1, effs, tried) \<Rightarrow>
      (fst tw, effs, tried) # incident_run x v env cfg tws st1)"

definition attempted :: "fo_effect list \<Rightarrow> bool" where
  "attempted effs = list_ex (\<lambda>e. case e of Promote p \<Rightarrow> True | _ \<Rightarrow> False) effs"

definition is_failover_event :: "f64 shim_event \<Rightarrow> bool" where
  "is_failover_event e =
    (severity e = Error \<and> (case event e of FailoverTriggered _ _ \<Rightarrow> True | _ \<Rightarrow> False))"

text \<open>The times at which a promotion was attempted, and those at which web hooks heard of it.\<close>

definition attempt_times ::
  "(time \<times> fo_effect list \<times> (f64 shim_event \<times> alert_webhook list) list) list \<Rightarrow> time list" where
  "attempt_times r = map fst (filter (\<lambda>(t, effs, tried). attempted effs) r)"

definition alert_times ::
  "(time \<times> fo_effect list \<times> (f64 shim_event \<times> alert_webhook list) list) list \<Rightarrow> time list" where
  "alert_times r =
    map fst (filter (\<lambda>(t, effs, tried). list_ex (\<lambda>(e, hooks). is_failover_event e \<and> hooks \<noteq> []) tried) r)"

text \<open>The specification: an attempt is heard of unless one was within the window before it.\<close>

fun spaced :: "time \<Rightarrow> time option \<Rightarrow> time list \<Rightarrow> time list" where
  "spaced win prev [] = []"
| "spaced win prev (t # ts) =
    (if (case prev of Some u \<Rightarrow> t < u + win | None \<Rightarrow> False) then spaced win prev ts else t # spaced win (Some t) ts)"

section \<open>Emissions of a tick\<close>

lemma emissions_simps [simp]:
  "emissions [] = []" "emissions (xs @ ys) = emissions xs @ emissions ys"
  "emissions (Promote p # xs) = emissions xs" "emissions (Post u t # xs) = emissions xs"
  "emissions (Emit src evt sev # xs) = (src, evt, sev) # emissions xs"
  "emissions (post_hook hook t) = []"
  "emissions (emit_on bus src evt sev) = (if bus then [(src, evt, sev)] else [])"
  by (cases hook; simp add: emissions_def post_hook_def emit_on_def)+

lemma attempted_simps [simp]:
  "\<not> attempted []" "attempted (xs @ ys) \<longleftrightarrow> attempted xs \<or> attempted ys"
  "attempted (Promote p # xs)" "attempted (Post u t # xs) = attempted xs" "attempted (Emit src evt sev # xs) = attempted xs"
  "\<not> attempted (post_hook hook t)" "\<not> attempted (emit_on bus src evt sev)"
  by (simp_all add: attempted_def post_hook_def emit_on_def split: option.splits)

text \<open>What is not about a failed check: below error, and not of the kind of a failover.\<close>

definition quiet :: "f64 emission list \<Rightarrow> bool" where
  "quiet ems = list_all (\<lambda>(src, evt, sev). src = ''failover-shim'' \<and>
     (sev = Notice \<or> sev = Warning \<and> (\<exists>a b. evt = ReplicationLagWarning a b))) ems"

definition tick_emissions :: "bool \<Rightarrow> fo_effect list \<Rightarrow> bool" where
  "tick_emissions bus effs \<longleftrightarrow>
    (if attempted effs then \<exists>a b. emissions effs = (if bus then [(''failover-shim'', FailoverTriggered a b, Error)] else [])
     else quiet (emissions effs))"

lemma quiet_simps [simp]:
  "quiet []" "quiet (xs @ ys) \<longleftrightarrow> quiet xs \<and> quiet ys"
  "quiet ((src, evt, sev) # xs) \<longleftrightarrow> src = ''failover-shim'' \<and>
     (sev = Notice \<or> sev = Warning \<and> (\<exists>a b. evt = ReplicationLagWarning a b)) \<and> quiet xs"
  by (auto simp: quiet_def)

lemma quiet_tick: "\<not> attempted effs \<Longrightarrow> quiet (emissions effs) \<Longrightarrow> tick_emissions bus effs"
  by (simp add: tick_emissions_def)

lemma check_failed_emissions:
  "check_failed env w bus hook cur replica threshold s = (s', effs) \<Longrightarrow> tick_emissions bus effs"
  by (auto simp: check_failed_def trigger_failover_def tick_emissions_def Let_def split: if_splits)

lemma handle_check_result_emissions:
  assumes "handle_check_result v env w bus hook cur replica orig healthy threshold st = (st', effs)"
  shows "tick_emissions bus effs"
proof (cases healthy)
  case True
  then have "\<not> attempted effs \<and> quiet (emissions effs)"
    using assms by (auto simp: handle_check_result_def Let_def split: prod.splits if_splits)
  then show ?thesis
    by (simp add: quiet_tick)
next
  case False
  then show ?thesis
    using assms check_failed_emissions by (auto simp: handle_check_result_def split: prod.splits)
qed

lemma lag_warning_quiet [simp]:
  "\<not> attempted (lag_warning bus src lag thr)" "quiet (emissions (lag_warning bus ''failover-shim'' lag thr))"
  by (simp_all add: lag_warning_def)

lemma patroni_tick_emissions:
  assumes "patroni_tick env w cfg cur res st = (st', effs)"
  shows "tick_emissions (fs_bus cfg) effs"
proof (cases res)
  case (PatroniHealthy r lag)
  have "effs = snd (patroni_tick env w cfg cur res st)"
    using assms by simp
  then have "\<not> attempted effs \<and> quiet (emissions effs)"
    by (simp add: PatroniHealthy patroni_tick_def Let_def case_prod_beta)
  then show ?thesis
    by (simp add: quiet_tick)
next
  case PatroniUnreachable
  then show ?thesis
    using assms check_failed_emissions by (auto simp: patroni_tick_def split: prod.splits)
qed

lemma sentinel_tick_emissions:
  assumes "sentinel_tick env w cfg cur res st = (st', effs)"
  shows "tick_emissions (fs_bus cfg) effs"
proof (cases res)
  case (MasterInfo ip port)
  have "effs = snd (sentinel_tick env w cfg cur res st)"
    using assms by simp
  then have "\<not> attempted effs \<and> quiet (emissions effs)"
    by (simp add: MasterInfo sentinel_tick_def Let_def case_prod_beta)
  then show ?thesis
    by (simp add: quiet_tick)
next
  case SentinelUnreachable
  then show ?thesis
    using assms check_failed_emissions by (auto simp: sentinel_tick_def split: prod.splits)
qed

lemma failover_tick_emissions:
  assumes "failover_tick v env cfg w st = (st', effs)"
  shows "tick_emissions (fs_bus cfg) effs"
  using assms handle_check_result_emissions patroni_tick_emissions sentinel_tick_emissions
  by (cases "fs_connector cfg") (auto simp: failover_tick_def Let_def split: prod.splits)

section \<open>Alerts of a tick\<close>

definition fo_key :: string where
  "fo_key = ''failover-shim:failover_triggered:ERROR''"

definition in_window :: "time \<Rightarrow> time option \<Rightarrow> time \<Rightarrow> bool" where
  "in_window win prev t = (case prev of Some u \<Rightarrow> t < u + win | None \<Rightarrow> False)"

text \<open>Errors pass the severity filter, and some web hook wants them.\<close>

definition hears_errors :: "alert_manager \<Rightarrow> bool" where
  "hears_errors m \<longleftrightarrow> am_min_severity m \<le> Error \<and> (\<exists>w\<in>set (webhooks m). accepts w AError)"

definition alerted :: "(f64 shim_event \<times> alert_webhook list) list \<Rightarrow> bool" where
  "alerted tried = list_ex (\<lambda>(e, hooks). is_failover_event e \<and> hooks \<noteq> []) tried"

lemma quiet_event:
  assumes "quiet [(source e, event e, severity e)]"
  shows "\<not> is_failover_event e" and "admits now e m \<Longrightarrow> dedup_key e \<noteq> fo_key"
  using assms by (auto simp: quiet_def is_failover_event_def admits_def is_alertable_def dedup_key_def fo_key_def
      event_name_def severity_str_def)

lemma process_event_last:
  "map_of (dedup_cache (fst (process_event dbg rfc deliver now e m))) k =
    (if admits now e m \<and> dedup_key e = k then Some now else map_of (dedup_cache m) k)"
  by (simp add: process_event_cache)

lemma process_quiet:
  assumes "quiet (map (\<lambda>e. (source e, event e, severity e)) es)" "process_all dbg rfc deliver now es m = (m', tried)"
  shows "map_of (dedup_cache m') fo_key = map_of (dedup_cache m) fo_key \<and> dedup_window m' = dedup_window m
    \<and> (hears_errors m \<longrightarrow> hears_errors m') \<and> \<not> alerted tried"
  using assms
proof (induction es arbitrary: m tried)
  case (Cons e es)
  define m1 where "m1 = fst (process_event dbg rfc deliver now e m)"
  obtain rest where rest: "process_all dbg rfc deliver now es m1 = (m', rest)"
    and tried: "tried = (e, snd (process_event dbg rfc deliver now e m)) # rest"
    using Cons.prems(2) by (auto simp: m1_def split: prod.splits)
  have q: "quiet [(source e, event e, severity e)]" "quiet (map (\<lambda>e. (source e, event e, severity e)) es)"
    using Cons.prems(1) by (simp_all add: quiet_def)
  have "map_of (dedup_cache m1) fo_key = map_of (dedup_cache m) fo_key"
    using quiet_event(2) [OF q(1)] by (auto simp: m1_def process_event_last)
  moreover have "dedup_window m1 = dedup_window m" "hears_errors m1 = hears_errors m"
    by (simp_all add: m1_def hears_errors_def)
  ultimately show ?case
    using Cons.IH [OF q(2) rest] quiet_event(1) [OF q(1)] by (simp add: tried alerted_def)
qed (simp add: alerted_def)

lemma process_failover:
  assumes "(source e, event e, severity e) = (''failover-shim'', FailoverTriggered a b, Error)" and "hears_errors m"
    and "\<And>u. map_of (dedup_cache m) fo_key = Some u \<Longrightarrow> u \<le> now" and "0 < dedup_window m"
    and "process_all dbg rfc deliver now [e] m = (m', tried)"
  shows "map_of (dedup_cache m') fo_key =
      (if in_window (dedup_window m) (map_of (dedup_cache m) fo_key) now then map_of (dedup_cache m) fo_key else Some now)
    \<and> dedup_window m' = dedup_window m \<and> hears_errors m'
    \<and> (alerted tried \<longleftrightarrow> \<not> in_window (dedup_window m) (map_of (dedup_cache m) fo_key) now)"
proof -
  have key: "dedup_key e = fo_key"
    using assms(1) by (simp add: dedup_key_def fo_key_def event_name_def severity_str_def)
  have "is_duplicate now fo_key m = in_window (dedup_window m) (map_of (dedup_cache m) fo_key) now"
    using assms(3,4) by (auto simp: is_duplicate_def in_window_def max_def split: option.splits)
  then have adm: "admits now e m \<longleftrightarrow> \<not> in_window (dedup_window m) (map_of (dedup_cache m) fo_key) now"
    using assms(1,2) by (simp add: admits_def key is_alertable_def hears_errors_def less_eq_severity_def)
  have m': "m' = fst (process_event dbg rfc deliver now e m)"
    and tried: "tried = [(e, snd (process_event dbg rfc deliver now e m))]"
    using assms(5) by (auto split: prod.splits)
  have "is_failover_event e"
    using assms(1) by (simp add: is_failover_event_def)
  moreover have "filter (\<lambda>w. accepts w (to_alert_severity (severity e))) (webhooks m) \<noteq> []"
    using assms(1,2) by (auto simp: hears_errors_def filter_empty_conv)
  ultimately have "alerted tried \<longleftrightarrow> admits now e m"
    by (simp add: alerted_def tried process_event_attempts)
  then show ?thesis
    using assms(2) by (auto simp: adm m' process_event_last key hears_errors_def)
qed

lemma incident_tick_alerts:
  assumes "incident_tick x v env cfg tw st = (st1, effs, tried)" and "fs_bus cfg" and "hears_errors (in_am st)"
    and "\<And>u. map_of (dedup_cache (in_am st)) fo_key = Some u \<Longrightarrow> u \<le> fst tw" and "0 < dedup_window (in_am st)"
  shows "map_of (dedup_cache (in_am st1)) fo_key =
      (if attempted effs \<and> \<not> in_window (dedup_window (in_am st)) (map_of (dedup_cache (in_am st)) fo_key) (fst tw)
       then Some (fst tw) else map_of (dedup_cache (in_am st)) fo_key)
    \<and> dedup_window (in_am st1) = dedup_window (in_am st) \<and> hears_errors (in_am st1)
    \<and> (alerted tried \<longleftrightarrow>
        attempted effs \<and> \<not> in_window (dedup_window (in_am st)) (map_of (dedup_cache (in_am st)) fo_key) (fst tw))"
proof -
  obtain fo b es m where ft: "failover_tick v env cfg (snd tw) (in_fo st) = (fo, effs)"
    and em: "emit_all (send_on x) (draw x) (emissions effs) (in_bus st) = (b, es)"
    and pa: "process_all (debug_text x) (rfc3339 x) (deliver_hook x) (fst tw) es (in_am st) = (m, tried)"
    and st1: "in_am st1 = m"
    using assms(1) by (auto simp: incident_tick_def split: prod.splits)
  have es: "map (\<lambda>e. (source e, event e, severity e)) es = emissions effs"
    using emit_all_events [of "send_on x" "draw x" "emissions effs" "in_bus st"] em by simp
  have te: "tick_emissions True effs"
    using failover_tick_emissions [OF ft] assms(2) by simp
  show ?thesis
  proof (cases "attempted effs")
    case True
    then obtain p q where "emissions effs = [(''failover-shim'', FailoverTriggered p q, Error)]"
      using te by (auto simp: tick_emissions_def)
    then obtain e where "es = [e]" "(source e, event e, severity e) = (''failover-shim'', FailoverTriggered p q, Error)"
      using es by (cases es) auto
    then show ?thesis
      using process_failover [of e p q "in_am st" "fst tw"] assms(3-5) pa st1 True by auto
  next
    case False
    then have "quiet (map (\<lambda>e. (source e, event e, severity e)) es)"
      using te es by (simp add: tick_emissions_def)
    then show ?thesis
      using process_quiet [OF _ pa] st1 assms(3) False by auto
  qed
qed

section \<open>Property\<close>

lemma incident_run_alerts:
  assumes "fs_bus cfg" and "sorted (map fst tws)" and "hears_errors (in_am st)" and "0 < dedup_window (in_am st)"
    and "\<And>u t. map_of (dedup_cache (in_am st)) fo_key = Some u \<Longrightarrow> t \<in> set (map fst tws) \<Longrightarrow> u \<le> t"
  shows "alert_times (incident_run x v env cfg tws st) =
    spaced (dedup_window (in_am st)) (map_of (dedup_cache (in_am st)) fo_key) (attempt_times (incident_run x v env cfg tws st))"
  using assms(2-)
proof (induction tws arbitrary: st)
  case (Cons tw tws)
  obtain st1 effs tried where tick: "incident_tick x v env cfg tw st = (st1, effs, tried)"
    by (metis surj_pair)
  let ?prev = "map_of (dedup_cache (in_am st)) fo_key"
  let ?hit = "attempted effs \<and> \<not> in_window (dedup_window (in_am st)) ?prev (fst tw)"
  have step: "map_of (dedup_cache (in_am st1)) fo_key = (if ?hit then Some (fst tw) else ?prev)"
    "dedup_window (in_am st1) = dedup_window (in_am st)" "hears_errors (in_am st1)" "alerted tried \<longleftrightarrow> ?hit"
    using incident_tick_alerts [OF tick assms(1) Cons.prems(2) _ Cons.prems(3)] Cons.prems(4) by auto
  have "alert_times (incident_run x v env cfg tws st1) =
      spaced (dedup_window (in_am st)) (if ?hit then Some (fst tw) else ?prev) (attempt_times (incident_run x v env cfg tws st1))"
    using Cons.IH [of st1] Cons.prems step(1-3) by (fastforce split: if_splits)
  then show ?case
    using step(4) by (auto simp: tick alert_times_def attempt_times_def alerted_def [symmetric] in_window_def)
qed (simp add: alert_times_def attempt_times_def)

text \<open>C4: Of the failovers of a monitor, the web hooks hear of exactly those with no alert within the deduplication window
  before them.  Whatever the connector, the checks and the promotions do, the ticks at which a web hook is tried for a
  failover are the attempted promotions, thinned out by the window; so a second failover within five minutes of an alert is
  silent, also when it is about another server, and failbacks are never heard of.\<close>

theorem failover_alerts:
  assumes "fs_bus cfg" and "sorted (map fst tws)" and "am_min_severity (in_am st) \<le> Error"
    and "\<exists>w\<in>set (webhooks (in_am st)). accepts w AError" and "0 < dedup_window (in_am st)" and "dedup_cache (in_am st) = []"
  shows "alert_times (incident_run x v env cfg tws st) =
    spaced (dedup_window (in_am st)) None (attempt_times (incident_run x v env cfg tws st))"
  using incident_run_alerts [of cfg tws st x v env] assms by (simp add: hears_errors_def)

text \<open>The health handler of the wiring announces a failover in the name of the failover shim, which no shim hears: nothing
  subscribes to the event but the alert manager, which passes it on.\<close>

lemma announced_failover:
  assumes "wire_event (HealthStatusChanged prev ''down'') h = (h', ems)" and "failover_threshold h \<le> unhealthy_count h + 1"
    and "emit_all send gen ems b = (b', [e])" and "w \<in> set (webhooks m)" and "dedup_cache m = []"
  shows "event_name e = ''failover_triggered'' \<and> source e = ''failover-shim''
    \<and> w \<in> set (snd (process_event dbg rfc deliver now e m))"
proof -
  have "ems = [(''failover-shim'', FailoverTriggered ''primary'' ''promoted'', Critical)]"
    using assms(1,2) by (auto simp: wire_event_def health_failover_def backup_encryption_def scheduler_backup_def)
  then have e: "source e = ''failover-shim''" "event e = FailoverTriggered ''primary'' ''promoted''" "severity e = Critical"
    using emit_all_events [of send gen ems b] assms(3) by simp_all
  have "admits now e m"
    using e assms(5) by (cases "am_min_severity m") (simp_all add: admits_def is_alertable_def is_duplicate_def)
  moreover have "accepts w ACritical"
    by (cases "wh_min_severity w") (simp_all add: accepts_def)
  ultimately show ?thesis
    using assms(4) e by (simp add: process_event_attempts event_name_def)
qed

definition sample_surroundings :: "unit surroundings" where
  "sample_surroundings =
    \<lparr>send_on = (\<lambda>ch _. ch), draw = (\<lambda>n. (unat n, 0)), debug_text = (\<lambda>_. []), rfc3339 = (\<lambda>_. []),
     deliver_hook = (\<lambda>_ _. True)\<rparr>"

definition sample_monitor :: failover_shim where
  "sample_monitor = (failover_shim_new sample_validators (\<lambda>_. None))\<lparr>fs_bus := True, fs_failure_threshold := 1\<rparr>"

definition sample_incident :: "unit incident" where
  "sample_incident =
    \<lparr>in_fo = (shared_state_new, fo_loop_new), in_bus = bus_new (\<lambda>_. ()),
     in_am = alert_manager_new [\<lparr>wh_name = ''ops'', wh_url = ''http://ops'', wh_min_severity = AWarning,
       wh_headers = [], wh_group = None\<rparr>]\<rparr>"

text \<open>Nothing answers, at three ticks.\<close>

definition sample_ticks :: "(time \<times> fo_world) list" where
  "sample_ticks = map (\<lambda>t. (t * second, world_with {})) [0, 10, 400]"

theorem failover_alerts_witness:
  "alert_times (incident_run sample_surroundings sample_validators (\<lambda>_. None) sample_monitor sample_ticks sample_incident) =
    spaced (300 * second) None
      (attempt_times (incident_run sample_surroundings sample_validators (\<lambda>_. None) sample_monitor sample_ticks sample_incident))"
  using failover_alerts [of sample_monitor sample_ticks sample_incident sample_surroundings sample_validators "\<lambda>_. None"]
  by (simp add: sample_monitor_def sample_ticks_def sample_incident_def alert_manager_new_def accepts_def less_eq_severity_def)

text \<open>In this run all three ticks attempt a promotion, the second one silently.\<close>

lemma silent_failover:
  "attempt_times (incident_run sample_surroundings sample_validators (\<lambda>_. None) sample_monitor sample_ticks sample_incident) =
     map (\<lambda>t. t * second) [0, 10, 400]"
  "alert_times (incident_run sample_surroundings sample_validators (\<lambda>_. None) sample_monitor sample_ticks sample_incident) =
     map (\<lambda>t. t * second) [0, 400]"
  by code_simp+

end
