(* ===== verification/Spec2Isabelle.thy ===== *)
theory Spec2Isabelle
  imports Bus Cache Queue Sharding Migration Auth Proxy Tenant Clusters Shutdown Alerting Wiring
    Encryption Replication Scheduler Audit_Trail Chaos Backup Archival Cost Compliance Cdc Tls
    Management Config_Watch Alert_Hooks Hot_Reload Health_Probe Resource Child_Process Vault
    Health_Server Operator Wasm Plugins Redis_Bridge Shim_Main Databases
    Exporter Shimctl Initialisation Incident
begin

text \<open>
  \<^bold>\<open>EvergreenShims\<close>, a verification library.

  EvergreenShims is a set of Rust crates (\<^verbatim>\<open>src/crates\<close>) that run beside a database as
  sidecars.  Each shim implements the \<^verbatim>\<open>Capability\<close> trait of \<^verbatim>\<open>shim-core\<close> (init, start,
  stop, metrics), is configured by \<^verbatim>\<open>shim-core/src/config.rs\<close> and by environment
  variables, and talks to the others through the event bus of
  \<^verbatim>\<open>shim-core/src/bus.rs\<close>.  The library models the shims that hold state or make
  decisions and proves what a user of each relies on.

  \<^bold>\<open>Theories.\<close>

  \<^item> \<^verbatim>\<open>Prelude\<close>: machine types, the parts of Rust's core library the shims share (parsing
    and printing of numbers, splitting, hash maps, clock arithmetic), and three
    interfaces as locales: \<^verbatim>\<open>op_system\<close> (calls that keep an invariant),
    \<^verbatim>\<open>op_monotone\<close> (which also never decrease a gauge) and \<^verbatim>\<open>fifo\<close>.
  \<^item> \<^verbatim>\<open>Events\<close>, \<^verbatim>\<open>Bus\<close> (\<^verbatim>\<open>shim-core/src/event.rs\<close>, \<^verbatim>\<open>bus.rs\<close>): the event types, the bus with its sequence
    number per source, filtered subscribers.  The locale \<^verbatim>\<open>sequencer\<close> states what a
    publisher relies on and is interpreted on \<^verbatim>\<open>publish\<close>; numbers are consecutive
    per source and strictly increasing until 64 bits wrap.
  \<^item> \<^verbatim>\<open>Config\<close> (\<^verbatim>\<open>shim-core/src/config.rs\<close>): all sections and defaults, reading the environment,
    merging, loading, validation.  Validation is equivalent to a declarative
    statement of the constraints; which source wins for each setting.
  \<^item> \<^verbatim>\<open>Rate_Limit\<close>: the contract \<^verbatim>\<open>bucket_contract\<close> of a token bucket and the bound on accepted
    calls that follows; interpreted in \<^verbatim>\<open>Proxy\<close> and \<^verbatim>\<open>Tenant\<close>.
  \<^item> \<^verbatim>\<open>Tenant\<close> (\<^verbatim>\<open>shim-core/src/tenant.rs\<close>): quotas, buckets, CPU windows, audit log.  Tenants do
    not influence each other's quota answers; the answer follows a fixed priority;
    admitted requests are bounded; the audit log is bounded.
  \<^item> \<^verbatim>\<open>Cache\<close> (\<^verbatim>\<open>cache-shim\<close>): LRU, LFU and FIFO cache with a size and a memory bound.  The eviction
    loops are partial functions that are proved to end under the invariant;
    lookups refine a map with expiry times; bounds hold after any run.
  \<^item> \<^verbatim>\<open>Queue\<close> (\<^verbatim>\<open>queue-shim\<close>): job queue, retries, dead letters; workers and producers as an
    interleaving step relation, labelled with what is handed in, handled and drained.  No job is lost
    or duplicated, concurrency and attempts are bounded, jobs leave in order of arrival.
  \<^item> \<^verbatim>\<open>Hashing\<close>, \<^verbatim>\<open>Sharding\<close> (\<^verbatim>\<open>sharding-shim\<close>): FNV-1a, hash ring, range and directory
    routing, rebalancing.  \<^verbatim>\<open>binary_search_by\<close> enters through the locale \<^verbatim>\<open>sorted_search\<close>.
    Hash routing gives the shard of the first ring point clockwise from the key, or an
    error if that shard is unhealthy.
  \<^item> \<^verbatim>\<open>Migration\<close> (\<^verbatim>\<open>migration-shim\<close>): migrations, checksums, dry run, rollback, lock file, automatic
    run, over an abstract database.  Applied versions stay contiguous through every operation, with and
    without the database, unless version 0 is used; the lock file has a race.
  \<^item> \<^verbatim>\<open>Auth\<close> (\<^verbatim>\<open>auth-shim\<close>): tokens, API keys, passwords, lockout, roles, over an abstract MAC.  A presented
    token is accepted exactly for a current grant, up to collisions of the MAC.
  \<^item> \<^verbatim>\<open>Proxy\<close> (\<^verbatim>\<open>proxy-shim\<close>): circuit breaker, weighted round robin, rate limit, routing,
    degradation.  When the breaker opens and recovers; backends are picked in
    proportion to their weights.
  \<^item> \<^verbatim>\<open>Failover\<close>, \<^verbatim>\<open>Clusters\<close> (\<^verbatim>\<open>failover-shim\<close>): the monitoring loop with its three connectors,
    failover and failback, and the multi-cluster monitor.  Reachable states, exactly
    when a promotion is attempted and what follows, failback after ten healthy checks and how it is lost,
    and which cluster is promoted.

  \<^item> \<^verbatim>\<open>Shutdown\<close>, \<^verbatim>\<open>Child_Process\<close>, \<^verbatim>\<open>Shim_Main\<close> (\<^verbatim>\<open>shim-core/src/shutdown.rs\<close>, \<^verbatim>\<open>process.rs\<close>, \<^verbatim>\<open>signal.rs\<close>,
    \<^verbatim>\<open>evergreen-shim\<close>): the shutdown sequences and the drain phase; the supervised child; the binary that starts
    the capabilities, waits, restarts the child once and stops everything.  Shutdown ends in
    time; what a stop does to the child and which descriptors can stay open; startup degrades gracefully; a
    run that has waited cleans up, up to the first capability that fails to stop, one that gives up at the start
    stops nothing, and the exit code of the child is lost.
  \<^item> \<^verbatim>\<open>Health_Probe\<close>, \<^verbatim>\<open>Health_Server\<close>, \<^verbatim>\<open>Resource\<close> (\<^verbatim>\<open>shim-core/src/health.rs\<close>, \<^verbatim>\<open>resource.rs\<close>, \<^verbatim>\<open>health-shim\<close>): health
    commands and the startup probe, the five routes of the health server, quotas from
    \<^verbatim>\<open>/proc\<close>.  The probe ends in bounded time; the server equals a stateless reference.
  \<^item> \<^verbatim>\<open>Hot_Reload\<close>, \<^verbatim>\<open>Config_Watch\<close>, \<^verbatim>\<open>Management\<close> (\<^verbatim>\<open>shim-core/src/hotreload.rs\<close>, \<^verbatim>\<open>config-shim\<close>, \<^verbatim>\<open>management-api\<close>):
    reloading with and without validation behind the locale \<^verbatim>\<open>reloader\<close>, the polling watcher that
    signals the database, and the HTTP interface with its sliding window limiter.
  \<^item> \<^verbatim>\<open>Dedup\<close>, \<^verbatim>\<open>Alerting\<close>, \<^verbatim>\<open>Alert_Hooks\<close>, \<^verbatim>\<open>Wiring\<close>, \<^verbatim>\<open>Redis_Bridge\<close> (\<^verbatim>\<open>shim-core/src/alerting.rs\<close>, \<^verbatim>\<open>wiring.rs\<close>,
    \<^verbatim>\<open>redis_bridge.rs\<close>, \<^verbatim>\<open>alerting-shim\<close>): alerts spaced by a window (locale \<^verbatim>\<open>deduplicator\<close>, interpreted on both
    alerting components), which event leads to which reaction, and the bridge between buses.
    Alerts of one kind are spaced; reactions settle; the bridge puts every foreign event on the
    bus once and in order, and acknowledges only the last of a batch; bridges of one namespace share the events.
  \<^item> \<^verbatim>\<open>Encryption\<close>, \<^verbatim>\<open>Pem\<close>, \<^verbatim>\<open>Tls\<close>, \<^verbatim>\<open>Vault\<close> (\<^verbatim>\<open>encryption-shim\<close>, \<^verbatim>\<open>tls-shim\<close>, \<^verbatim>\<open>vault-shim\<close>): key ring and
    envelope over an abstract cipher, base64 and PEM, certificates and their renewal, and
    credentials from Vault.  Round trips; the credentials file holds what the last successful
    rotation got, unless a later write was cut short.
  \<^item> \<^verbatim>\<open>Blobkit\<close>, \<^verbatim>\<open>Backup\<close>, \<^verbatim>\<open>Archival\<close>, \<^verbatim>\<open>Audit_Trail\<close>, \<^verbatim>\<open>Compliance\<close>, \<^verbatim>\<open>Cost\<close>, \<^verbatim>\<open>Cdc\<close> (the shims of these names): backups
    and their verification, tiers of archived data, the audit log with its restart, checks,
    cost bookkeeping as the refinement of a ledger, and change data capture with its webhook batches.
  \<^item> \<^verbatim>\<open>Replication\<close>, \<^verbatim>\<open>Scheduler\<close>, \<^verbatim>\<open>Chaos\<close> (the shims of these names): replica health and promotion, cron
    tasks with retries and starvation, experiments with their books.
  \<^item> \<^verbatim>\<open>Wasm\<close>, \<^verbatim>\<open>Plugins\<close>, \<^verbatim>\<open>Operator\<close> (\<^verbatim>\<open>shim-core/src/wasm.rs\<close>, \<^verbatim>\<open>shim-plugin\<close>, \<^verbatim>\<open>shim-operator\<close>): the host functions
    of a WASM module on its linear memory with 32- and 64-bit wrap-around, shared library
    plugins, and the requests of the Kubernetes controller.  Exactly which addresses a module can
    make the host read or panic on; values round trip through its memory; a
    reconciliation reports success exactly when its writes were accepted, whether or not it could read the deployment.

  \<^item> \<^verbatim>\<open>Initialisation\<close>: what the initialisation of the six shims that validate their section shares (locale
    \<^verbatim>\<open>validating_init\<close>, interpreted on each), and the rest of \<^verbatim>\<open>migration-shim\<close>.  All six initialise exactly for the
    configurations that are valid but for version and tenants.
  \<^item> \<^verbatim>\<open>Incident\<close>: the failover monitor, the bus and the alert manager composed: which failovers the web hooks hear of, as
    the refinement of a specification on times alone.
  \<^item> \<^verbatim>\<open>Shimctl\<close> (\<^verbatim>\<open>shimctl\<close>): the HTTP client, the decoding of answers and the commands, composed with the health server.
  \<^item> \<^verbatim>\<open>Exporter\<close> (\<^verbatim>\<open>shim-core/src/metrics.rs\<close>, \<^verbatim>\<open>metrics_export.rs\<close>, \<^verbatim>\<open>structured_logging.rs\<close>, \<^verbatim>\<open>error.rs\<close>): collectors and the exporter with
    its routes, request contexts and identifiers, error texts.  Custom metrics are never exported; identifiers are
    distinct until the counter wraps.
  \<^item> \<^verbatim>\<open>Databases\<close> (\<^verbatim>\<open>mongodb-shim\<close>, \<^verbatim>\<open>cockroachdb-shim\<close>, \<^verbatim>\<open>cassandra-shim\<close>, \<^verbatim>\<open>elasticsearch-shim\<close>, \<^verbatim>\<open>dynamodb-shim\<close>): health checks with
    retries, parsing of what the tools print, backups and snapshots.

  \<^bold>\<open>Conventions.\<close>  A struct is a record, an enum a datatype, an operation a function from
  state to state and result.  Errors are the left summand of a sum, panics the value
  \<^verbatim>\<open>Panics\<close>.  A file write may fail before the file is opened or after part of the text is written
  (\<^verbatim>\<open>write_fault\<close> in \<^verbatim>\<open>Prelude\<close>).  A clock read is an argument in nanoseconds, the environment is a
  function from names to values, random identifiers are arguments.  A \<^verbatim>\<open>HashMap\<close> is an
  association list with distinct keys; where the code iterates over one, the order
  is an argument (\<^verbatim>\<open>hash_iter\<close>).  Statistics counters are natural numbers; integers
  whose wrap-around matters (sequence numbers, hashes, retry delays, versions) keep
  their width.  Values of type \<^verbatim>\<open>f64\<close> are exact rationals, so rounding is not modelled.
  Locked sections are atomic steps.  Background tasks are one function per iteration;
  their ends and the timer are not modelled.  Third-party code (SQL driver, MAC, broadcast
  channel, validators, TCP, \<^verbatim>\<open>psql\<close>, Redis) is a parameter or an input of the step.  Log
  output is left out.

  \<^bold>\<open>Bounds.\<close>  No function uses fuel: loops are structural, have a termination proof, or are
  partial functions into \<^verbatim>\<open>option\<close> for which the result is proved to exist.

  \<^bold>\<open>Not modelled\<close>: the set-up of tracing and of the log subscriber (\<^verbatim>\<open>otel.rs\<close>, part of \<^verbatim>\<open>structured_logging.rs\<close>) and the
  parsing of command lines, which only call libraries; the ACME protocol, sockets and the copying of streams, which enter
  as parameters or inputs; accessors that return a field; tests and benchmarks.
\<close>

end
